(* ===== verification/Prelude.thy ===== *)
theory Prelude
  imports Main "HOL-Library.Word" "HOL-Library.List_Lexorder" "HOL-Library.Char_ord"
begin

text \<open>
  Shared vocabulary of the development: the integer types of
  \<^verbatim>\<open>include/cbag/common/typedefs.h\<close>, exceptions as values, monadic folds over results, and the
  list lemmas on which the searches in sorted vectors rest.

  Unsigned C++ integers are machine words, because their arithmetic wraps around by definition.
  Signed C++ integers are mathematical integers wherever the code computes coordinates: signed
  overflow is undefined behaviour, so every defined execution computes the exact value.  The few
  routines that depend on the bit pattern of a signed integer are modelled on words.
\<close>

section \<open>Types of the code base\<close>

type_synonym cnt_t = "64 word"
type_synonym coord_t = int
type_synonym offset_t = int
type_synonym level_t = int
type_synonym htr_t = int

text \<open>
  The exceptions the library throws, by their C++ class.  The message text carried by an exception
  is not modelled.  \<open>Assertion_failed\<close> stands for an assertion that stops the program, and
  \<open>Undefined_behaviour\<close> is no exception either: it marks an execution C++ leaves
  undefined, such as a division by zero.
\<close>

datatype cbag_error =
  Invalid_argument | Runtime_error | Out_of_range | Length_error | Assertion_failed | Undefined_behaviour

type_synonym 'a result = "cbag_error + 'a"

text \<open>
  The outcome of an operation that may throw after it has changed its object: the exception, if any,
  and the object as it is then left.
\<close>

type_synonym 's outcome = "cbag_error option \<times> 's"

named_theorems result_simps \<open>rewriting of computations that may throw\<close>

definition bindR :: "'a result \<Rightarrow> ('a \<Rightarrow> 'b result) \<Rightarrow> 'b result" where
  "bindR m f = (case m of Inl e \<Rightarrow> Inl e | Inr x \<Rightarrow> f x)"

lemma bindR_Inl [simp]: "bindR (Inl e) f = Inl e"
  by (simp add: bindR_def)

lemma bindR_Inr [simp]: "bindR (Inr x) f = f x"
  by (simp add: bindR_def)

lemma bindR_Inr_right [simp]: "bindR m Inr = m"
  by (cases m) simp_all

lemma bindR_eq_Inr [result_simps]:
  "bindR m f = Inr y \<longleftrightarrow> (\<exists>x. m = Inr x \<and> f x = Inr y)"
  by (cases m) auto

lemma bindR_eq_Inl [result_simps]:
  "bindR m f = Inl e \<longleftrightarrow> m = Inl e \<or> (\<exists>x. m = Inr x \<and> f x = Inl e)"
  by (cases m) auto

lemma bindR_cong [fundef_cong]:
  "m = m' \<Longrightarrow> (\<And>x. m' = Inr x \<Longrightarrow> f x = g x) \<Longrightarrow> bindR m f = bindR m' g"
  by (cases m') auto

text \<open>A loop over a container whose body may throw: the first exception leaves the loop.\<close>

fun foldR :: "('s \<Rightarrow> 'a \<Rightarrow> 's result) \<Rightarrow> 's \<Rightarrow> 'a list \<Rightarrow> 's result" where
  "foldR f s [] = Inr s"
| "foldR f s (x # xs) = bindR (f s x) (\<lambda>s'. foldR f s' xs)"

fun mapR :: "('a \<Rightarrow> 'b result) \<Rightarrow> 'a list \<Rightarrow> 'b list result" where
  "mapR f [] = Inr []"
| "mapR f (x # xs) = bindR (f x) (\<lambda>y. bindR (mapR f xs) (\<lambda>ys. Inr (y # ys)))"

lemma foldR_append: "foldR f s (xs @ ys) = bindR (foldR f s xs) (\<lambda>s'. foldR f s' ys)"
  by (induction xs arbitrary: s) (auto simp: bindR_def split: sum.splits)

lemma foldR_concat: "foldR f s (concat (map g xs)) = foldR (\<lambda>s x. foldR f s (g x)) s xs"
  by (induction xs arbitrary: s) (simp_all add: foldR_append)

lemma foldR_map: "foldR f s (map g xs) = foldR (\<lambda>s x. f s (g x)) s xs"
  by (induction xs arbitrary: s) simp_all

lemma foldR_cong [fundef_cong]:
  "s = t \<Longrightarrow> xs = ys \<Longrightarrow> (\<And>s x. x \<in> set ys \<Longrightarrow> f s x = g s x) \<Longrightarrow> foldR f s xs = foldR g t ys"
  by (induction xs arbitrary: s t ys) (auto simp: bindR_def split: sum.splits)

lemma foldR_invariant:
  assumes "foldR f s xs = Inr t" and "P s"
    and "\<And>s x s'. x \<in> set xs \<Longrightarrow> P s \<Longrightarrow> f s x = Inr s' \<Longrightarrow> P s'"
  shows "P t"
  using assms
proof (induction xs arbitrary: s)
  case Nil
  then show ?case by simp
next
  case (Cons x xs)
  then obtain s' where "f s x = Inr s'" and t: "foldR f s' xs = Inr t"
    by (auto simp: result_simps)
  with Cons.prems have "P s'" by auto
  with t show ?case using Cons.prems(3) by (intro Cons.IH) auto
qed

lemma mapR_cong [fundef_cong]:
  "xs = ys \<Longrightarrow> (\<And>x. x \<in> set ys \<Longrightarrow> f x = g x) \<Longrightarrow> mapR f xs = mapR g ys"
  by (induction xs arbitrary: ys) auto

lemma mapR_Inr_map: "(\<And>x. x \<in> set xs \<Longrightarrow> f x = Inr (g x)) \<Longrightarrow> mapR f xs = Inr (map g xs)"
  by (induction xs) auto

lemma mapR_eq_Inr: "mapR f xs = Inr ys \<longleftrightarrow> list_all2 (\<lambda>x y. f x = Inr y) xs ys"
  by (induction xs arbitrary: ys) (auto simp: result_simps list_all2_Cons1)

section \<open>Partition points of lists\<close>

text \<open>
  The standard binary searches return the partition point of a range whose elements satisfy the
  predicate first and refute it afterwards.
\<close>

lemma takeWhile_partition:
  "(\<And>x. x \<in> set us \<Longrightarrow> P x) \<Longrightarrow> (vs = [] \<or> \<not> P (hd vs)) \<Longrightarrow> takeWhile P (us @ vs) = us"
proof (induction us)
  case Nil
  then show ?case by (cases vs) auto
next
  case (Cons u us)
  then show ?case by simp
qed

lemma length_takeWhile_partition:
  "(\<And>x. x \<in> set us \<Longrightarrow> P x) \<Longrightarrow> (vs = [] \<or> \<not> P (hd vs)) \<Longrightarrow>
   length (takeWhile P (us @ vs)) = length us"
  by (rule arg_cong [where f = length]) (rule takeWhile_partition)

lemma takeWhile_nth_prefix: "i < length (takeWhile P xs) \<Longrightarrow> P (xs ! i)"
  by (metis nth_mem set_takeWhileD takeWhile_nth)

lemma takeWhile_nth_stop: "length (takeWhile P xs) < length xs \<Longrightarrow> \<not> P (xs ! length (takeWhile P xs))"
  by (rule nth_length_takeWhile)

lemma takeWhile_split:
  obtains us vs where "xs = us @ vs" and "us = takeWhile P xs" and "\<forall>x\<in>set us. P x"
    and "vs = [] \<or> \<not> P (hd vs)"
proof
  show "xs = takeWhile P xs @ dropWhile P xs" by simp
  show "\<forall>x\<in>set (takeWhile P xs). P x" by (auto dest: set_takeWhileD)
  show "dropWhile P xs = [] \<or> \<not> P (hd (dropWhile P xs))"
    using hd_dropWhile by blast
qed simp

lemma nth_mid_hd: "ms \<noteq> [] \<Longrightarrow> (us @ ms @ vs) ! length us = hd ms"
  by (cases ms) auto

lemma nth_mid_last: "ms \<noteq> [] \<Longrightarrow> (us @ ms @ vs) ! (length us + length ms - Suc 0) = last ms"
  by (cases ms rule: rev_cases) (auto simp: nth_append)

lemma sorted_wrt_sublist_mid:
  "sorted_wrt P (us @ vs @ ws) \<Longrightarrow> sorted_wrt P (us @ ws)"
  by (auto simp: sorted_wrt_append)

section \<open>Words\<close>

lemma unat_less_length: "unat (w :: 'a :: len word) < 2 ^ LENGTH('a)"
  by (fact unsigned_less)

lemma unat_of_nat_below: "i \<le> unat (w :: 'a :: len word) \<Longrightarrow> unat (of_nat i :: 'a word) = i"
  using unat_less_length [of w] by (simp only: unat_of_nat) (rule mod_less, linarith)

lemma max_word_1: "max (w :: 'a :: len word) 1 = (if w = 0 then 1 else w)"
proof -
  have "w \<le> 1 \<longleftrightarrow> w = 0 \<or> w = 1"
    by (metis linorder_not_le order.order_iff_strict word_less_1)
  then show ?thesis by (auto simp: max_def)
qed

lemma of_nat_length_concat:
  "(of_nat (length (concat xss)) :: 'a :: semiring_1) = (\<Sum>xs\<leftarrow>xss. of_nat (length xs))"
  by (induction xss) simp_all

lemma word_of_nat_nonzero: "n \<noteq> 0 \<Longrightarrow> n < 2 ^ LENGTH('a) \<Longrightarrow> (of_nat n :: 'a :: len word) \<noteq> 0"
  by (simp add: word_of_nat_eq_0_iff nat_dvd_not_less)

end
