(* ===== verification/Decimal.thy ===== *)
theory Decimal
  imports Prelude
begin

text \<open>
  Decimal numerals as \<^verbatim>\<open>fmt\<close> prints them and as the numeric parsers read them, for unsigned
  integers and for coordinates, and the facts that make printing and reading inverse.
\<close>

definition digit_char :: "nat \<Rightarrow> char" where
  "digit_char n = char_of (48 + n)"

definition is_digit :: "char \<Rightarrow> bool" where
  "is_digit c \<longleftrightarrow> 48 \<le> (of_char c :: nat) \<and> (of_char c :: nat) \<le> 57"

definition digit_val :: "char \<Rightarrow> nat" where
  "digit_val c = of_char c - 48"

fun nat_to_string :: "nat \<Rightarrow> string" where
  "nat_to_string n =
     (if n < 10 then [digit_char n] else nat_to_string (n div 10) @ [digit_char (n mod 10)])"

declare nat_to_string.simps [simp del]

definition cnt_to_string :: "'w :: len word \<Rightarrow> string" where
  "cnt_to_string w = nat_to_string (unat w)"

definition int_to_string :: "int \<Rightarrow> string" where
  "int_to_string i = (if i < 0 then ''-'' @ nat_to_string (nat (- i)) else nat_to_string (nat i))"

text \<open>The number a run of digits denotes.\<close>

definition digits_val :: "string \<Rightarrow> nat" where
  "digits_val s = foldl (\<lambda>a c. 10 * a + digit_val c) 0 s"

lemma of_digit_char: "n < 10 \<Longrightarrow> (of_char (digit_char n) :: nat) = 48 + n"
  by (simp add: digit_char_def of_char_of)

lemma digit_char_simps [simp]:
  "n < 10 \<Longrightarrow> is_digit (digit_char n)"
  "n < 10 \<Longrightarrow> digit_val (digit_char n) = n"
  by (auto simp: is_digit_def digit_val_def of_digit_char)

lemma nat_to_string_digits [simp]: "c \<in> set (nat_to_string n) \<Longrightarrow> is_digit c"
proof (induction n rule: nat_to_string.induct)
  case (1 n)
  then show ?case by (subst (asm) (2) nat_to_string.simps) (auto split: if_splits)
qed

lemma nat_to_string_nonempty [simp]: "nat_to_string n \<noteq> []"
  by (simp add: nat_to_string.simps [of n])

lemma digits_val_snoc: "digits_val (s @ [c]) = 10 * digits_val s + digit_val c"
  by (simp add: digits_val_def)

lemma digits_val_nat_to_string [simp]: "digits_val (nat_to_string n) = n"
proof (induction n rule: nat_to_string.induct)
  case (1 n)
  show ?case
  proof (cases "n < 10")
    case True
    then show ?thesis by (simp add: nat_to_string.simps [of n] digits_val_def)
  next
    case False
    with 1 show ?thesis by (simp add: nat_to_string.simps [of n] digits_val_snoc)
  qed
qed

lemma nat_to_string_inject [simp]: "nat_to_string m = nat_to_string n \<longleftrightarrow> m = n"
  by (metis digits_val_nat_to_string)

lemma cnt_to_string_inject [simp]: "cnt_to_string v = cnt_to_string w \<longleftrightarrow> v = w"
  by (simp add: cnt_to_string_def word_unat_eq_iff)

lemma nat_to_string_span:
  "rest = [] \<or> \<not> is_digit (hd rest) \<Longrightarrow>
   takeWhile is_digit (nat_to_string n @ rest) = nat_to_string n \<and>
   dropWhile is_digit (nat_to_string n @ rest) = rest"
proof -
  assume r: "rest = [] \<or> \<not> is_digit (hd rest)"
  have t: "takeWhile is_digit (nat_to_string n @ rest) = nat_to_string n"
    by (rule takeWhile_partition) (use r in auto)
  then have "dropWhile is_digit (nat_to_string n @ rest) = rest"
    by (metis append_same_eq same_append_eq takeWhile_dropWhile_id)
  with t show ?thesis by simp
qed

end
