(* ===== verification/Name_Ast.thy ===== *)
theory Name_Ast
  imports Decimal
begin

text \<open>
  The abstract syntax of names: \<^verbatim>\<open>include/cbag/spirit/ast.h\<close> and \<^verbatim>\<open>src/cbag/spirit/ast.cpp\<close>, and the
  expansion of a name into its bits from \<^verbatim>\<open>include/cbag/spirit/util.h\<close>.  Indices and multipliers are
  \<^verbatim>\<open>cnt_t\<close>, so all sizes are computed modulo \<open>2 ^ 64\<close>.  Expansions iterate from \<^verbatim>\<open>begin()\<close> until
  the iterator equals \<^verbatim>\<open>end()\<close>, which ends for some ranges only: they are partial functions, and
  their termination is a theorem.
\<close>

section \<open>Ranges\<close>

record ast_range =
  rg_start :: cnt_t
  rg_stop :: cnt_t
  rg_step :: cnt_t

definition range_default :: ast_range where
  "range_default = \<lparr>rg_start = 0, rg_stop = 0, rg_step = 0\<rparr>"

definition range_empty :: "ast_range \<Rightarrow> bool" where
  "range_empty r \<longleftrightarrow> rg_step r = 0"

definition range_size :: "ast_range \<Rightarrow> cnt_t" where
  "range_size r =
     (if rg_step r = 0 then 0
      else if rg_stop r \<ge> rg_start r then (rg_stop r - rg_start r + rg_step r) div rg_step r
      else (rg_start r - rg_stop r + rg_step r) div rg_step r)"

definition range_at :: "ast_range \<Rightarrow> cnt_t \<Rightarrow> cnt_t" where
  "range_at r index =
     (if rg_stop r \<ge> rg_start r then rg_start r + rg_step r * index
      else rg_start r - rg_step r * index)"

definition range_stop_include :: "ast_range \<Rightarrow> cnt_t" where
  "range_stop_include r = range_at r (range_size r - 1)"

definition range_stop_exclude :: "ast_range \<Rightarrow> cnt_t" where
  "range_stop_exclude r = range_at r (range_size r)"

definition range_bounds :: "ast_range \<Rightarrow> cnt_t \<times> cnt_t" where
  "range_bounds r =
     (if rg_step r = 0 then (0, 0)
      else if rg_stop r \<ge> rg_start r then (rg_start r, range_stop_include r + 1)
      else (range_stop_include r, rg_start r + 1))"

text \<open>The nested class \<^verbatim>\<open>range::const_iterator\<close>.\<close>

record range_iter =
  ri_val :: cnt_t
  ri_step :: cnt_t
  ri_up :: bool

definition range_next :: "range_iter \<Rightarrow> range_iter" where
  "range_next it = it\<lparr>ri_val := (if ri_up it then ri_val it + ri_step it else ri_val it - ri_step it)\<rparr>"

definition range_begin :: "ast_range \<Rightarrow> range_iter" where
  "range_begin r = \<lparr>ri_val = rg_start r, ri_step = rg_step r, ri_up = rg_stop r \<ge> rg_start r\<rparr>"

definition range_end :: "ast_range \<Rightarrow> range_iter" where
  "range_end r =
     \<lparr>ri_val = range_stop_exclude r, ri_step = rg_step r, ri_up = rg_stop r \<ge> rg_start r\<rparr>"

text \<open>The values a loop \<^verbatim>\<open>for (; iter != stop; ++iter)\<close> sees.\<close>

partial_function (option) range_loop :: "range_iter \<Rightarrow> range_iter \<Rightarrow> cnt_t list option" where
  "range_loop iter stop =
     (if iter = stop then Some []
      else Option.bind (range_loop (range_next iter) stop) (\<lambda>rest. Some (ri_val iter # rest)))"

declare range_loop.simps [code]

definition range_values :: "ast_range \<Rightarrow> cnt_t list option" where
  "range_values r = range_loop (range_begin r) (range_end r)"

section \<open>Names\<close>

text \<open>The two tags by which the C++ overloads are selected.\<close>

datatype name_space = Cdba | Verilog

record name_unit =
  nu_base :: string
  nu_range :: ast_range

datatype name_rep = Name_rep (nr_mult: cnt_t) (nr_data: rep_data)
  and rep_data = Unit name_unit | Sub ast_name
  and ast_name = Name (rep_list: "name_rep list")

definition unit_empty :: "name_unit \<Rightarrow> bool" where
  "unit_empty nu \<longleftrightarrow> nu_base nu = []"

definition unit_size :: "name_unit \<Rightarrow> cnt_t" where
  "unit_size nu = max (range_size (nu_range nu)) 1"

definition unit_is_vector :: "name_unit \<Rightarrow> bool" where
  "unit_is_vector nu \<longleftrightarrow> \<not> range_empty (nu_range nu)"

text \<open>One bit of a vector, \<^verbatim>\<open>"{}<{}>"\<close> or \<^verbatim>\<open>"{}[{}]"\<close>.\<close>

definition bit_string :: "name_space \<Rightarrow> string \<Rightarrow> cnt_t \<Rightarrow> string" where
  "bit_string ns base idx =
     (case ns of Cdba \<Rightarrow> base @ ''<'' @ cnt_to_string idx @ ''>''
      | Verilog \<Rightarrow> base @ ''['' @ cnt_to_string idx @ '']'')"

definition unit_to_string_cdba :: "name_unit \<Rightarrow> string" where
  "unit_to_string_cdba nu =
     (let base = nu_base nu; r = nu_range nu in
      if unit_empty nu then []
      else if unit_is_vector nu then
        (if range_size r = 1 then base @ ''<'' @ cnt_to_string (rg_start r) @ ''>''
         else if rg_step r = 1
         then base @ ''<'' @ cnt_to_string (rg_start r) @ '':'' @ cnt_to_string (rg_stop r) @ ''>''
         else base @ ''<'' @ cnt_to_string (rg_start r) @ '':'' @ cnt_to_string (rg_stop r) @ '':''
                @ cnt_to_string (rg_step r) @ ''>'')
      else base)"

text \<open>
  Verilog has no skip indexing, so such a vector is written bit by bit, the first bit before the
  loop condition is checked.
\<close>

definition unit_to_string_verilog :: "name_unit \<Rightarrow> string option" where
  "unit_to_string_verilog nu =
     (let base = nu_base nu; r = nu_range nu in
      if unit_empty nu then Some []
      else if unit_is_vector nu then
        (if range_size r = 1 then Some (base @ ''['' @ cnt_to_string (rg_start r) @ '']'')
         else if rg_step r = 1
         then Some (base @ ''['' @ cnt_to_string (rg_start r) @ '':'' @ cnt_to_string (rg_stop r) @ '']'')
         else
           Option.bind (range_loop (range_next (range_begin r)) (range_end r)) (\<lambda>idxs.
             Some (''{'' @ bit_string Verilog base (rg_start r)
               @ concat (map (\<lambda>i. '','' @ bit_string Verilog base i) idxs) @ ''}'')))
      else Some base)"

definition bounds_to_string :: "string \<Rightarrow> cnt_t \<times> cnt_t \<Rightarrow> string" where
  "bounds_to_string base bounds =
     (if base = [] \<or> fst bounds = snd bounds then base
      else if snd bounds - fst bounds = 1 then base @ ''<'' @ cnt_to_string (fst bounds) @ ''>''
      else base @ ''<'' @ cnt_to_string (fst bounds) @ '':'' @ cnt_to_string (snd bounds) @ ''>'')"

definition unit_name_bit :: "name_unit \<Rightarrow> cnt_t \<Rightarrow> bool \<Rightarrow> name_space \<Rightarrow> string" where
  "unit_name_bit nu index is_id ns =
     (if unit_is_vector nu then
        (if is_id then nu_base nu @ ''_'' @ cnt_to_string (range_at (nu_range nu) index)
         else bit_string ns (nu_base nu) (range_at (nu_range nu) index))
      else nu_base nu)"

section \<open>Repeated names\<close>

fun rep_empty :: "name_rep \<Rightarrow> bool" where
  "rep_empty (Name_rep mult d) \<longleftrightarrow> mult = 0"

fun rep_is_name_unit :: "name_rep \<Rightarrow> bool" where
  "rep_is_name_unit (Name_rep mult d) \<longleftrightarrow> mult = 0 \<or> (mult = 1 \<and> (\<exists>nu. d = Unit nu))"

fun rep_size :: "name_rep \<Rightarrow> cnt_t"
  and data_size :: "rep_data \<Rightarrow> cnt_t"
  and name_size :: "ast_name \<Rightarrow> cnt_t" where
  "rep_size (Name_rep mult d) = mult * data_size d"
| "data_size (Unit nu) = unit_size nu"
| "data_size (Sub na) = name_size na"
| "name_size (Name reps) = foldl (+) 0 (map rep_size reps)"

fun name_empty :: "ast_name \<Rightarrow> bool" where
  "name_empty (Name reps) \<longleftrightarrow> reps = []"

fun name_is_name_rep :: "ast_name \<Rightarrow> bool" where
  "name_is_name_rep (Name reps) \<longleftrightarrow> length reps = 1"

fun name_is_name_unit :: "ast_name \<Rightarrow> bool" where
  "name_is_name_unit (Name reps) \<longleftrightarrow> length reps = 1 \<and> rep_is_name_unit (hd reps)"

text \<open>The helper that joins the parts of a name by commas.\<close>

fun comma_join :: "string list \<Rightarrow> string" where
  "comma_join [] = []"
| "comma_join (s # ss) = s @ concat (map (\<lambda>t. '','' @ t) ss)"

fun rep_to_string_cdba :: "name_rep \<Rightarrow> string"
  and data_to_string_cdba :: "rep_data \<Rightarrow> string"
  and name_to_string_cdba :: "ast_name \<Rightarrow> string" where
  "rep_to_string_cdba (Name_rep mult d) =
     (if mult = 0 then []
      else if mult = 1 then data_to_string_cdba d
      else (case d of
          Unit nu \<Rightarrow> ''<*'' @ cnt_to_string mult @ ''>'' @ data_to_string_cdba d
        | Sub na \<Rightarrow> ''<*'' @ cnt_to_string mult @ ''>('' @ data_to_string_cdba d @ '')''))"
| "data_to_string_cdba (Unit nu) = unit_to_string_cdba nu"
| "data_to_string_cdba (Sub na) = name_to_string_cdba na"
| "name_to_string_cdba (Name reps) = comma_join (map rep_to_string_cdba reps)"

definition all_some :: "'a option list \<Rightarrow> 'a list option" where
  "all_some xs = those xs"

fun rep_to_string_verilog :: "name_rep \<Rightarrow> string option"
  and data_to_string_verilog :: "rep_data \<Rightarrow> string option"
  and name_to_string_verilog :: "ast_name \<Rightarrow> string option" where
  "rep_to_string_verilog (Name_rep mult d) =
     (if mult = 0 then Some []
      else Option.bind (data_to_string_verilog d) (\<lambda>base.
        if mult = 1 then Some base
        else (case d of
            Unit nu \<Rightarrow>
              if unit_size nu > 1 \<and> rg_step (nu_range nu) > 1
              then Some (''{'' @ cnt_to_string mult @ base @ ''}'')
              else Some (''{'' @ cnt_to_string mult @ ''{'' @ base @ ''}}'')
          | Sub na \<Rightarrow> Some (''{'' @ cnt_to_string mult @ base @ ''}''))))"
| "data_to_string_verilog (Unit nu) = unit_to_string_verilog nu"
| "data_to_string_verilog (Sub na) = name_to_string_verilog na"
| "name_to_string_verilog (Name reps) =
     Option.bind (all_some (map rep_to_string_verilog reps)) (\<lambda>ss.
       if length reps = 1 then Some (comma_join ss) else Some (''{'' @ comma_join ss @ ''}''))"

text \<open>\<^verbatim>\<open>name::repeat\<close>.\<close>

fun name_repeat :: "ast_name \<Rightarrow> cnt_t \<Rightarrow> ast_name" where
  "name_repeat (Name reps) mult =
     (if reps = [] then Name reps
      else if mult = 0 then Name []
      else if mult = 1 then Name reps
      else (case reps of
          [Name_rep m d] \<Rightarrow> Name [Name_rep (m * mult) d]
        | _ \<Rightarrow> Name [Name_rep mult (Sub (Name reps))]))"

section \<open>Expansion into bits\<close>

definition unit_bits :: "name_space \<Rightarrow> name_unit \<Rightarrow> string list option" where
  "unit_bits ns nu =
     (if unit_is_vector nu
      then Option.bind (range_values (nu_range nu)) (\<lambda>idxs.
             Some (map (bit_string ns (nu_base nu)) idxs))
      else Some [nu_base nu])"

fun rep_bits :: "name_space \<Rightarrow> name_rep \<Rightarrow> string list option"
  and data_bits :: "name_space \<Rightarrow> rep_data \<Rightarrow> string list option"
  and name_bits :: "name_space \<Rightarrow> ast_name \<Rightarrow> string list option" where
  "rep_bits ns (Name_rep mult d) =
     (if rep_size (Name_rep mult d) = 0 then Some []
      else if mult = 1 then data_bits ns d
      else Option.bind (data_bits ns d) (\<lambda>cache. Some (concat (replicate (unat mult) cache))))"
| "data_bits ns (Unit nu) = unit_bits ns nu"
| "data_bits ns (Sub na) = name_bits ns na"
| "name_bits ns (Name reps) =
     Option.bind (all_some (map (rep_bits ns) reps)) (\<lambda>bss. Some (concat bss))"

section \<open>Ranges: sizes and iteration\<close>

definition range_span :: "ast_range \<Rightarrow> nat" where
  "range_span r = (if rg_stop r \<ge> rg_start r then unat (rg_stop r) - unat (rg_start r)
                   else unat (rg_start r) - unat (rg_stop r))"

text \<open>The size is computed without wrap-around.  Every range the parser accepts satisfies this.\<close>

definition range_ok :: "ast_range \<Rightarrow> bool" where
  "range_ok r \<longleftrightarrow> rg_step r = 0 \<or> range_span r + unat (rg_step r) < 2 ^ 64"

lemma unat_range_span:
  "unat (if rg_stop r \<ge> rg_start r then rg_stop r - rg_start r else rg_start r - rg_stop r) = range_span r"
  by (auto simp: range_span_def word_le_nat_alt unat_sub not_le)

lemma range_size_unat:
  assumes "range_ok r" and "rg_step r \<noteq> 0"
  shows "unat (range_size r) = range_span r div unat (rg_step r) + 1"
proof -
  define s where "s = (if rg_stop r \<ge> rg_start r then rg_stop r - rg_start r else rg_start r - rg_stop r)"
  have s: "unat s = range_span r" by (simp only: s_def unat_range_span)
  have pos: "0 < unat (rg_step r)" using assms(2) by (simp add: unat_gt_0)
  have "unat (s + rg_step r) = range_span r + unat (rg_step r)"
    using assms s by (subst unat_add_lem [THEN iffD1]) (auto simp: range_ok_def)
  moreover have "range_size r = (s + rg_step r) div rg_step r"
    using assms(2) by (simp add: range_size_def s_def)
  ultimately show ?thesis using pos div_add_self2 [of "unat (rg_step r)" "range_span r"]
    by (simp add: unat_div)
qed

lemma range_size_bound:
  assumes "range_ok r" and "rg_step r \<noteq> 0"
  shows "unat (rg_step r) * unat (range_size r) < 2 ^ 64"
proof -
  have "unat (rg_step r) * unat (range_size r) \<le> range_span r + unat (rg_step r)"
    using assms by (simp add: range_size_unat distrib_left)
  also have "\<dots> < 2 ^ 64" using assms by (simp add: range_ok_def)
  finally show ?thesis .
qed

lemma range_size_pos: "range_ok r \<Longrightarrow> rg_step r \<noteq> 0 \<Longrightarrow> range_size r \<noteq> 0"
  using range_size_unat [of r] by auto

text \<open>The iterator after \<open>i\<close> steps.\<close>

definition range_iter_at :: "ast_range \<Rightarrow> nat \<Rightarrow> range_iter" where
  "range_iter_at r i =
     \<lparr>ri_val = range_at r (of_nat i), ri_step = rg_step r, ri_up = rg_stop r \<ge> rg_start r\<rparr>"

lemma range_iter_simps:
  "range_begin r = range_iter_at r 0"
  "range_end r = range_iter_at r (unat (range_size r))"
  "range_next (range_iter_at r i) = range_iter_at r (Suc i)"
  by (simp_all add: range_begin_def range_end_def range_next_def range_iter_at_def range_at_def
      range_stop_exclude_def algebra_simps)

lemma range_iter_at_inj:
  assumes "range_ok r" and "rg_step r \<noteq> 0" and "i < unat (range_size r)"
  shows "range_iter_at r i \<noteq> range_iter_at r (unat (range_size r))"
proof
  assume "range_iter_at r i = range_iter_at r (unat (range_size r))"
  then have "rg_step r * of_nat i = rg_step r * range_size r"
    by (simp add: range_iter_at_def range_at_def split: if_splits)
  then have eq: "unat (rg_step r * of_nat i) = unat (rg_step r * range_size r)" by simp
  have "unat (rg_step r) * i \<le> unat (rg_step r) * unat (range_size r)" using assms(3) by simp
  then have small: "unat (rg_step r) * i < 2 ^ 64"
    using range_size_bound [OF assms(1,2)] by linarith
  have i: "unat (of_nat i :: cnt_t) = i"
    using assms(3) by (intro unat_of_nat_below [of i "range_size r"]) simp
  from eq i small range_size_bound [OF assms(1,2)] have
    "unat (rg_step r) * i = unat (rg_step r) * unat (range_size r)"
    by (simp add: unat_mult_lem [THEN iffD1])
  with assms show False by (simp add: unat_eq_0)
qed

lemma range_loop_from:
  assumes "range_ok r" and "rg_step r \<noteq> 0" and "i \<le> unat (range_size r)"
  shows "range_loop (range_iter_at r i) (range_end r)
       = Some (map (\<lambda>j. range_at r (of_nat j)) [i..<unat (range_size r)])"
  using assms(3)
proof (induction rule: inc_induct)
  case base
  show ?case by (subst range_loop.simps) (simp add: range_iter_simps)
next
  case (step i)
  have "range_iter_at r i \<noteq> range_end r"
    using range_iter_at_inj [OF assms(1,2) step(2)] by (simp add: range_iter_simps)
  moreover have "[i..<unat (range_size r)] = i # [Suc i..<unat (range_size r)]"
    using step(2) by (simp add: upt_conv_Cons)
  ultimately show ?case using step
    by (subst range_loop.simps) (simp add: range_iter_simps, simp add: range_iter_at_def)
qed

lemma range_values_eq:
  assumes "range_ok r"
  shows "range_values r = Some (map (\<lambda>i. range_at r (of_nat i)) [0..<unat (range_size r)])"
proof (cases "rg_step r = 0")
  case True
  then have "range_begin r = range_end r"
    by (simp add: range_begin_def range_end_def range_stop_exclude_def range_at_def)
  with True show ?thesis
    by (simp add: range_values_def range_size_def range_loop.simps)
next
  case False
  with assms range_loop_from [of r 0] show ?thesis
    by (simp add: range_values_def range_iter_simps(1))
qed

text \<open>No index of such a range wraps around.\<close>

lemma range_at_unat:
  assumes "range_ok r" and "rg_step r \<noteq> 0" and "i < unat (range_size r)"
  shows "unat (rg_step r) * i \<le> range_span r"
    and "unat (range_at r (of_nat i)) =
      (if rg_stop r \<ge> rg_start r then unat (rg_start r) + unat (rg_step r) * i
       else unat (rg_start r) - unat (rg_step r) * i)"
proof -
  let ?s = "unat (rg_step r)"
  have "?s * i \<le> ?s * (unat (range_size r) - 1)" using assms(3) by (intro mult_le_mono2) auto
  also have "\<dots> \<le> range_span r" using range_size_unat [OF assms(1,2)] by simp
  finally show le: "?s * i \<le> range_span r" .
  have "?s * i < 2 ^ 64" using le assms(1,2) unat_gt_0 by (simp add: range_ok_def)
  then have val: "unat (rg_step r * of_nat i) = ?s * i"
    using unat_of_nat_below [of i "range_size r"] assms(3) by (simp add: unat_mult_lem [THEN iffD1])
  show "unat (range_at r (of_nat i)) =
      (if rg_stop r \<ge> rg_start r then unat (rg_start r) + ?s * i else unat (rg_start r) - ?s * i)"
  proof (cases "rg_stop r \<ge> rg_start r")
    case True
    then have "unat (rg_start r) + ?s * i \<le> unat (rg_stop r)"
      using le by (simp add: range_span_def word_le_nat_alt)
    then have "unat (rg_start r) + ?s * i < 2 ^ 64"
      using unat_less_length [of "rg_stop r"] by simp
    then show ?thesis using True val by (simp add: range_at_def unat_add_lem [THEN iffD1])
  next
    case False
    with le val show ?thesis by (simp add: range_at_def unat_sub word_le_nat_alt range_span_def)
  qed
qed

text \<open>Every index of the range lies within its bounds.\<close>

lemma range_bounds_tight:
  assumes "range_ok r" and "rg_step r \<noteq> 0"
    and "unat (rg_start r) < 2 ^ 64 - 1" and "unat (rg_stop r) < 2 ^ 64 - 1"
    and i: "i < unat (range_size r)"
  shows "fst (range_bounds r) \<le> range_at r (of_nat i) \<and> range_at r (of_nat i) < snd (range_bounds r)"
proof -
  let ?n = "unat (range_size r)" and ?s = "unat (rg_step r)"
  have last: "range_size r - 1 = of_nat (?n - 1)" using i by (simp add: of_nat_diff)
  note at_i = range_at_unat [OF assms(1,2) i]
    and at_last = range_at_unat [OF assms(1,2), of "?n - 1"]
  have mono: "?s * i \<le> ?s * (?n - 1)" using i by (intro mult_le_mono2) auto
  show ?thesis
  proof (cases "rg_stop r \<ge> rg_start r")
    case True
    have "unat (rg_start r) + ?s * (?n - 1) \<le> unat (rg_stop r)"
      using at_last(1) i True by (simp add: range_span_def word_le_nat_alt)
    then have "unat (range_stop_include r + 1) = unat (rg_start r) + ?s * (?n - 1) + 1"
      using at_last(2) i True assms(4) unfolding range_stop_include_def last
      by (subst unat_add_lem [THEN iffD1]) auto
    moreover have "unat (range_at r (of_nat i)) = unat (rg_start r) + ?s * i"
      using at_i(2) True by simp
    ultimately have "unat (range_at r (of_nat i)) < unat (range_stop_include r + 1)"
      using mono by linarith
    then show ?thesis
      using True assms(2) at_i(2) by (simp add: range_bounds_def word_le_nat_alt word_less_nat_alt)
  next
    case False
    have "unat (rg_start r + 1) = unat (rg_start r) + 1"
      using assms(3) by (subst unat_add_lem [THEN iffD1]) auto
    moreover have "unat (range_stop_include r) = unat (rg_start r) - ?s * (?n - 1)"
      using at_last(2) i False unfolding range_stop_include_def last by simp
    moreover have "unat (range_at r (of_nat i)) = unat (rg_start r) - ?s * i"
      using at_i(2) False by simp
    ultimately have "unat (range_stop_include r) \<le> unat (range_at r (of_nat i))"
      "unat (range_at r (of_nat i)) < unat (rg_start r + 1)"
      using mono by linarith+
    then show ?thesis
      using False assms(2) by (simp add: range_bounds_def word_le_nat_alt word_less_nat_alt)
  qed
qed

section \<open>The bits of a name, specified\<close>

text \<open>
  The specification expands a name by plain recursion: indices by position, repetitions by
  \<open>replicate\<close>, lists by concatenation.
\<close>

definition unit_expand :: "name_space \<Rightarrow> name_unit \<Rightarrow> string list" where
  "unit_expand ns nu =
     (if unit_is_vector nu
      then map (\<lambda>i. bit_string ns (nu_base nu) (range_at (nu_range nu) (of_nat i)))
             [0..<unat (range_size (nu_range nu))]
      else [nu_base nu])"

fun rep_expand :: "name_space \<Rightarrow> name_rep \<Rightarrow> string list"
  and data_expand :: "name_space \<Rightarrow> rep_data \<Rightarrow> string list"
  and name_expand :: "name_space \<Rightarrow> ast_name \<Rightarrow> string list" where
  "rep_expand ns (Name_rep mult d) = concat (replicate (unat mult) (data_expand ns d))"
| "data_expand ns (Unit nu) = unit_expand ns nu"
| "data_expand ns (Sub na) = name_expand ns na"
| "name_expand ns (Name reps) = concat (map (rep_expand ns) reps)"

fun rep_units :: "name_rep \<Rightarrow> name_unit list"
  and data_units :: "rep_data \<Rightarrow> name_unit list"
  and name_units :: "ast_name \<Rightarrow> name_unit list" where
  "rep_units (Name_rep mult d) = data_units d"
| "data_units (Unit nu) = [nu]"
| "data_units (Sub na) = name_units na"
| "name_units (Name reps) = concat (map rep_units reps)"

definition units_ok :: "name_unit list \<Rightarrow> bool" where
  "units_ok us \<longleftrightarrow> (\<forall>u\<in>set us. range_ok (nu_range u))"

definition name_ok :: "ast_name \<Rightarrow> bool" where
  "name_ok na \<longleftrightarrow> units_ok (name_units na)"

lemma units_ok_simps [simp]:
  "units_ok []" "units_ok (u # us) \<longleftrightarrow> range_ok (nu_range u) \<and> units_ok us"
  "units_ok (us @ vs) \<longleftrightarrow> units_ok us \<and> units_ok vs"
  "units_ok (concat uss) \<longleftrightarrow> (\<forall>us\<in>set uss. units_ok us)"
  by (auto simp: units_ok_def)

lemma foldl_add_sum_list: "foldl (+) a xs = a + sum_list (xs :: 'a :: comm_monoid_add list)"
  by (induction xs arbitrary: a) (simp_all add: add.assoc)

lemma name_size_sum: "name_size (Name reps) = sum_list (map rep_size reps)"
  by (simp add: foldl_add_sum_list)

lemma length_concat_replicate [simp]: "length (concat (replicate n xs)) = n * length xs"
  by (induction n) simp_all

lemma unit_expand_length:
  "range_ok (nu_range nu) \<Longrightarrow> of_nat (length (unit_expand ns nu)) = unit_size nu"
  using range_size_pos [of "nu_range nu"]
  by (auto simp: unit_expand_def unit_size_def unit_is_vector_def range_empty_def max_word_1)
     (simp add: range_size_def)

text \<open>Sizes count the bits, modulo \<open>2 ^ 64\<close>.\<close>

lemma expand_length:
  "units_ok (rep_units r) \<Longrightarrow> of_nat (length (rep_expand ns r)) = rep_size r"
  "units_ok (data_units d) \<Longrightarrow> of_nat (length (data_expand ns d)) = data_size d"
  "units_ok (name_units na) \<Longrightarrow> of_nat (length (name_expand ns na)) = name_size na"
proof (induction r and d and na rule: rep_size_data_size_name_size.induct)
  case (4 reps)
  then have "map (\<lambda>r. of_nat (length (rep_expand ns r))) reps = map rep_size reps"
    by auto
  then show ?case
    by (simp add: foldl_add_sum_list of_nat_length_concat o_def cong: map_cong del: length_concat)
qed (simp_all add: unit_expand_length)

text \<open>The name space only changes how a bit is written.\<close>

lemma expand_length_ns:
  "length (rep_expand ns r) = length (rep_expand ns' r)"
  "length (data_expand ns d) = length (data_expand ns' d)"
  "length (name_expand ns na) = length (name_expand ns' na)"
proof (induction r and d and na rule: rep_size_data_size_name_size.induct)
  case (4 reps)
  then have "map (length \<circ> rep_expand ns) reps = map (length \<circ> rep_expand ns') reps" by auto
  then have "sum_list (map (length \<circ> rep_expand ns) reps) = sum_list (map (length \<circ> rep_expand ns') reps)"
    by (simp only:)
  then show ?case by (simp add: length_concat o_def)
qed (simp_all add: unit_expand_def)

lemma all_some_map:
  "(\<forall>x\<in>set xs. f x = Some (g x)) \<Longrightarrow> all_some (map f xs) = Some (map g xs)"
  by (induction xs) (auto simp: all_some_def)

text \<open>
  The code computes the specified bits.  A repetition is skipped when its size, computed modulo
  \<open>2 ^ 64\<close>, is zero; below \<open>2 ^ 64\<close> bits that means that there are none.
\<close>

lemma length_le_concat: "x \<in> set xs \<Longrightarrow> length (f x) \<le> length (concat (map f xs))"
  by (induction xs) auto

lemma bits_expand:
  "units_ok (rep_units r) \<Longrightarrow> length (rep_expand ns r) < 2 ^ 64 \<Longrightarrow>
     rep_bits ns r = Some (rep_expand ns r)"
  "units_ok (data_units d) \<Longrightarrow> length (data_expand ns d) < 2 ^ 64 \<Longrightarrow>
     data_bits ns d = Some (data_expand ns d)"
  "units_ok (name_units na) \<Longrightarrow> length (name_expand ns na) < 2 ^ 64 \<Longrightarrow>
     name_bits ns na = Some (name_expand ns na)"
proof (induction r and d and na rule: rep_size_data_size_name_size.induct)
  case (1 mult d)
  let ?n = "length (rep_expand ns (Name_rep mult d))"
  have size: "of_nat ?n = rep_size (Name_rep mult d)"
    by (rule expand_length) (use 1 in simp)
  show ?case
  proof (cases "?n = 0")
    case True
    then have "rep_expand ns (Name_rep mult d) = []" by (simp only: length_0_conv)
    moreover have "rep_size (Name_rep mult d) = 0"
      by (subst size [symmetric], subst True) simp
    ultimately show ?thesis by simp
  next
    case False
    then have "rep_size (Name_rep mult d) \<noteq> 0"
      using 1(3) by (subst size [symmetric], intro word_of_nat_nonzero) simp_all
    moreover have "unat mult \<noteq> 0" using False by auto
    then have "length (data_expand ns d) \<le> ?n" by (cases "unat mult") auto
    then have "length (data_expand ns d) < 2 ^ 64" using 1(3) by linarith
    then have "data_bits ns d = Some (data_expand ns d)" using 1(1,2) by simp
    ultimately show ?thesis by simp
  qed
next
  case (2 nu)
  then show ?case
    by (auto simp: unit_bits_def unit_expand_def range_values_eq)
next
  case (4 reps)
  have "rep_bits ns r = Some (rep_expand ns r)" if "r \<in> set reps" for r
  proof (rule "4.IH" [OF that])
    show "units_ok (rep_units r)" using "4.prems"(1) that by simp
    have "length (rep_expand ns r) \<le> length (name_expand ns (Name reps))"
      using length_le_concat [OF that] by simp
    then show "length (rep_expand ns r) < 2 ^ 64" using "4.prems"(2) by linarith
  qed
  then have "all_some (map (rep_bits ns) reps) = Some (map (rep_expand ns) reps)"
    by (intro all_some_map) simp
  then show ?case by simp
qed simp

lemma unit_name_bit_expand:
  assumes "range_ok (nu_range nu)" and "index < unit_size nu"
  shows "unit_expand ns nu ! unat index = unit_name_bit nu index False ns"
  using assms range_size_pos [of "nu_range nu"]
  by (auto simp: unit_expand_def unit_name_bit_def unit_size_def unit_is_vector_def range_empty_def
      max_word_1 word_less_nat_alt range_size_def [of "nu_range nu"] split: if_splits)

text \<open>Repeating a name repeats its bits.\<close>

lemma concat_replicate_mult:
  "concat (replicate m (concat (replicate n xs))) = concat (replicate (n * m) xs)"
  by (induction m) (simp_all add: replicate_add)

lemma name_repeat_expand:
  assumes "unat mult * length (name_expand ns na) < 2 ^ 64"
  shows "name_expand ns (name_repeat na mult) = concat (replicate (unat mult) (name_expand ns na))"
proof (cases na)
  case (Name reps)
  consider "reps = []" | "reps \<noteq> []" "mult = 0 \<or> mult = 1" | m d where "reps = [Name_rep m d]"
      "mult \<noteq> 0" "mult \<noteq> 1"
    | a b rs where "reps = a # b # rs" "mult \<noteq> 0" "mult \<noteq> 1"
    by (metis list.exhaust name_rep.exhaust)
  then show ?thesis
  proof cases
    case 3
    show ?thesis
    proof (cases "data_expand ns d = []")
      case True
      then show ?thesis using Name 3 by simp
    next
      case False
      then have "1 \<le> length (data_expand ns d)" by (cases "data_expand ns d") auto
      then have "unat m * unat mult \<le> unat mult * (unat m * length (data_expand ns d))"
        by (simp add: mult.commute mult.left_commute)
      also have "\<dots> < 2 ^ 64" using assms Name 3 by simp
      finally have "unat (m * mult) = unat m * unat mult"
        by (subst unat_mult_lem [THEN iffD1]) simp_all
      then show ?thesis using Name 3 by (simp add: concat_replicate_mult)
    qed
  next
    case (4 a b rs)
    then show ?thesis using Name by (cases a) simp
  qed (use Name in auto)
qed

lemma name_repeat_ok: "name_ok na \<Longrightarrow> name_ok (name_repeat na mult)"
  by (cases na; cases "rep_list na"; cases "tl (rep_list na)"; cases "hd (rep_list na)")
     (auto simp: name_ok_def)

section \<open>Properties\<close>

text \<open>
  The loop \<^verbatim>\<open>for (auto idx : range)\<close> ends, although its exclusive end may wrap around (the end of
  \<open>3:0\<close> lies below zero), and visits \<open>size()\<close> indices: the \<open>i\<close>-th one is \<open>i\<close> steps from
  the start towards the stop, as an integer, and never passes the stop.
\<close>

theorem range_iteration_correct:
  assumes "range_ok r"
  shows "\<exists>vs. range_values r = Some vs \<and> length vs = unat (range_size r) \<and>
    (rg_step r \<noteq> 0 \<longrightarrow> length vs = range_span r div unat (rg_step r) + 1) \<and>
    (\<forall>i<length vs. int (unat (vs ! i)) =
       (if rg_stop r \<ge> rg_start r then int (unat (rg_start r)) + int (unat (rg_step r)) * int i
        else int (unat (rg_start r)) - int (unat (rg_step r)) * int i))"
proof (intro exI conjI impI allI)
  let ?vs = "map (\<lambda>i. range_at r (of_nat i)) [0..<unat (range_size r)]"
  show "range_values r = Some ?vs" by (rule range_values_eq [OF assms])
  show "length ?vs = unat (range_size r)" by simp
  show "length ?vs = range_span r div unat (rg_step r) + 1" if "rg_step r \<noteq> 0"
    using range_size_unat [OF assms that] by simp
  fix i assume "i < length ?vs"
  then have i: "i < unat (range_size r)" by simp
  then have step: "rg_step r \<noteq> 0" by (auto simp: range_size_def)
  from range_at_unat [OF assms step i] i show "int (unat (?vs ! i)) =
      (if rg_stop r \<ge> rg_start r then int (unat (rg_start r)) + int (unat (rg_step r)) * int i
       else int (unat (rg_start r)) - int (unat (rg_step r)) * int i)"
    by (auto simp: range_span_def of_nat_diff split: if_splits)
qed

theorem range_iteration_correct_witness:
  "\<exists>vs. range_values \<lparr>rg_start = 3, rg_stop = 0, rg_step = 1\<rparr> = Some vs \<and> length vs = 4 \<and>
     (\<forall>i<4. int (unat (vs ! i)) = 3 - int i)"
  using range_iteration_correct [of "\<lparr>rg_start = 3, rg_stop = 0, rg_step = 1\<rparr>"]
  by (auto simp: range_ok_def range_span_def range_size_def)

text \<open>
  C6.  \<^verbatim>\<open>get_name_bits\<close> terminates with the specified bits of a name, and \<^verbatim>\<open>size()\<close> is their number, as
  long as there are fewer than \<open>2 ^ 64\<close> of them.
\<close>

theorem name_bits_correct:
  assumes "name_ok na" and "length (name_expand ns na) < 2 ^ 64"
  shows "name_bits ns na = Some (name_expand ns na) \<and>
    unat (name_size na) = length (name_expand ns na)"
proof -
  have units: "units_ok (name_units na)" using assms(1) by (simp add: name_ok_def)
  have "unat (of_nat (length (name_expand ns na)) :: cnt_t) = length (name_expand ns na)"
    using assms(2) by (simp add: unat_of_nat)
  with bits_expand(3) [OF units assms(2)] expand_length(3) [OF units, of ns] show ?thesis by simp
qed

definition example_name :: ast_name where
  "example_name = Name
     [Name_rep 2 (Sub (Name
        [Name_rep 1 (Unit \<lparr>nu_base = ''a'', nu_range = range_default\<rparr>),
         Name_rep 1 (Unit \<lparr>nu_base = ''b'', nu_range = \<lparr>rg_start = 1, rg_stop = 0, rg_step = 1\<rparr>\<rparr>)]))]"

theorem name_bits_correct_witness:
  "name_bits Cdba example_name
     = Some [''a'', ''b<1>'', ''b<0>'', ''a'', ''b<1>'', ''b<0>''] \<and> unat (name_size example_name) = 6"
proof -
  have "name_ok example_name"
    by (simp add: name_ok_def example_name_def range_ok_def range_span_def range_default_def)
  moreover have "name_expand Cdba example_name
      = [''a'', ''b<1>'', ''b<0>'', ''a'', ''b<1>'', ''b<0>'']"
    by code_simp
  ultimately show ?thesis using name_bits_correct [of example_name Cdba] by simp
qed

text \<open>
  \<^verbatim>\<open>repeat\<close> multiplies the bits of a name, whether it changes the multiplier of a single part, wraps
  the parts into a group, clears the name or leaves it alone.
\<close>

theorem name_repeat_correct:
  assumes "name_ok na" and "unat mult * length (name_expand ns na) < 2 ^ 64"
  shows "name_bits ns (name_repeat na mult)
    = Some (concat (replicate (unat mult) (name_expand ns na)))"
  using bits_expand(3) [of "name_repeat na mult" ns] name_repeat_ok [OF assms(1), of mult]
    name_repeat_expand [OF assms(2)] assms(2)
  by (simp add: name_ok_def)

theorem name_repeat_correct_witness:
  "name_bits Verilog (name_repeat (Name [Name_rep 2 (Unit \<lparr>nu_base = ''a'', nu_range = range_default\<rparr>)]) 3)
     = Some (concat (replicate 3 (concat (replicate 2 [''a'']))))"
  using name_repeat_correct [of "Name [Name_rep 2 (Unit \<lparr>nu_base = ''a'', nu_range = range_default\<rparr>)]" 3 Verilog]
  by (simp add: name_ok_def range_ok_def range_default_def unit_expand_def unit_is_vector_def
      range_empty_def)

end
