(* ===== verification/Name_Parser.thy ===== *)
theory Name_Parser
  imports Name_Ast
begin

text \<open>
  The grammar of names (\<^verbatim>\<open>range_def.h\<close>, \<^verbatim>\<open>name_unit_def.h\<close>, \<^verbatim>\<open>name_def.h\<close>) and the entry points of
  \<^verbatim>\<open>parsers.h\<close> and \<^verbatim>\<open>name_convert.cpp\<close>.  The grammar is written with the combinators of Boost Spirit
  X3, which are given here by their documented meaning: a parser consumes a prefix, fails without
  consuming anything, or throws an expectation failure; the sequence \<^verbatim>\<open>>>\<close> fails and the expectation
  \<^verbatim>\<open>>\<close> throws when the second parser fails; an alternative tries its second branch after a failure
  only; and the error handler of a rule turns an expectation failure inside it into a failure.
\<close>

section \<open>Parsers\<close>

datatype 'a presult = P_ok 'a string | P_fail | P_throw

text \<open>The four combinators.\<close>

definition p_seq :: "'a presult \<Rightarrow> ('a \<Rightarrow> string \<Rightarrow> 'b presult) \<Rightarrow> 'b presult" where
  "p_seq p f = (case p of P_ok x s \<Rightarrow> f x s | P_fail \<Rightarrow> P_fail | P_throw \<Rightarrow> P_throw)"

definition p_expect :: "'a presult \<Rightarrow> 'a presult" where
  "p_expect p = (case p of P_fail \<Rightarrow> P_throw | _ \<Rightarrow> p)"

definition p_alt :: "'a presult \<Rightarrow> 'a presult \<Rightarrow> 'a presult" where
  "p_alt p q = (case p of P_fail \<Rightarrow> q | _ \<Rightarrow> p)"

definition p_optional :: "'a \<Rightarrow> string \<Rightarrow> 'a presult \<Rightarrow> 'a presult" where
  "p_optional x s p = (case p of P_fail \<Rightarrow> P_ok x s | _ \<Rightarrow> p)"

text \<open>A rule, with the handler of \<^verbatim>\<open>error_handler.h\<close>, which returns \<^verbatim>\<open>fail\<close>.\<close>

definition p_rule :: "'a presult \<Rightarrow> 'a presult" where
  "p_rule p = (case p of P_throw \<Rightarrow> P_fail | _ \<Rightarrow> p)"

definition p_char :: "char \<Rightarrow> string \<Rightarrow> unit presult" where
  "p_char c s = (case s of [] \<Rightarrow> P_fail | d # s' \<Rightarrow> if c = d then P_ok () s' else P_fail)"

text \<open>\<^verbatim>\<open>x3::uint32\<close> reads all digits that follow and fails when the value does not fit.\<close>

definition p_uint32 :: "string \<Rightarrow> cnt_t presult" where
  "p_uint32 s =
     (let ds = takeWhile is_digit s in
      if ds = [] \<or> digits_val ds \<ge> 2 ^ 32 then P_fail
      else P_ok (of_nat (digits_val ds)) (dropWhile is_digit s))"

definition p_check_zero :: "cnt_t presult \<Rightarrow> cnt_t presult" where
  "p_check_zero p = (case p of P_ok v s \<Rightarrow> if v \<noteq> 0 then P_ok v s else P_fail | _ \<Rightarrow> p)"

section \<open>The grammar\<close>

text \<open>\<^verbatim>\<open>-(':' > x3::uint32[check_zero])\<close>, the optional step of a range.\<close>

definition p_range_step :: "ast_range \<Rightarrow> string \<Rightarrow> ast_range presult" where
  "p_range_step r s =
     p_optional r s (p_seq (p_char CHR '':'' s) (\<lambda>_ s1.
       p_seq (p_expect (p_check_zero (p_uint32 s1))) (\<lambda>c s2. P_ok (r\<lparr>rg_step := c\<rparr>) s2)))"

definition p_range_stop :: "ast_range \<Rightarrow> string \<Rightarrow> ast_range presult" where
  "p_range_stop r s =
     p_optional r s (p_seq (p_char CHR '':'' s) (\<lambda>_ s1.
       p_expect (p_seq (p_uint32 s1) (\<lambda>b s2. p_range_step (r\<lparr>rg_stop := b\<rparr>) s2))))"

definition p_range :: "string \<Rightarrow> ast_range presult" where
  "p_range s = p_rule
     (p_seq (p_char CHR ''<'' s) (\<lambda>_ s1.
        p_seq (p_expect (p_seq (p_uint32 s1) (\<lambda>a s2.
            p_range_stop \<lparr>rg_start = a, rg_stop = a, rg_step = 1\<rparr> s2))) (\<lambda>r s3.
          p_seq (p_expect (p_char CHR ''>'' s3)) (\<lambda>_ s4. P_ok r s4))))"

text \<open>The printable ASCII characters other than \<^verbatim>\<open>()<>:*,\<close> and the space.\<close>

definition name_char :: "char \<Rightarrow> bool" where
  "name_char c \<longleftrightarrow> 32 \<le> (of_char c :: nat) \<and> (of_char c :: nat) \<le> 126 \<and> c \<notin> set ''()<>:*, ''"

definition alpha_char :: "char \<Rightarrow> bool" where
  "alpha_char c \<longleftrightarrow> (65 \<le> (of_char c :: nat) \<and> (of_char c :: nat) \<le> 90) \<or>
     (97 \<le> (of_char c :: nat) \<and> (of_char c :: nat) \<le> 122)"

definition p_name_string :: "string \<Rightarrow> string presult" where
  "p_name_string s =
     (let b = takeWhile name_char s in
      if b \<noteq> [] \<and> alpha_char (hd b) then P_ok b (dropWhile name_char s) else P_fail)"

definition p_name_unit :: "string \<Rightarrow> name_unit presult" where
  "p_name_unit s = p_rule
     (p_seq (p_name_string s) (\<lambda>b s1.
        p_seq (p_optional range_default s1 (p_range s1)) (\<lambda>r s2.
          P_ok \<lparr>nu_base = b, nu_range = r\<rparr> s2)))"

definition p_mult_tag :: "string \<Rightarrow> cnt_t presult" where
  "p_mult_tag s =
     p_seq (p_char CHR ''<'' s) (\<lambda>_ s1. p_seq (p_char CHR ''*'' s1) (\<lambda>_ s2.
       p_seq (p_expect (p_check_zero (p_uint32 s2))) (\<lambda>m s3.
         p_seq (p_expect (p_char CHR ''>'' s3)) (\<lambda>_ s4. P_ok m s4))))"

text \<open>
  The rules \<^verbatim>\<open>name\<close> and \<^verbatim>\<open>name_rep\<close> are mutually recursive; here the parser of the inner name is an
  argument of the parsers that call it.
\<close>

definition p_grp_name :: "(string \<Rightarrow> ast_name presult) \<Rightarrow> string \<Rightarrow> rep_data presult" where
  "p_grp_name pn s =
     p_seq (p_char CHR ''('' s) (\<lambda>_ s1. p_expect (p_alt
       (p_seq (p_name_unit s1) (\<lambda>u s2. p_seq (p_char CHR '')'' s2) (\<lambda>_ s3. P_ok (Unit u) s3)))
       (p_seq (pn s1) (\<lambda>na s2. p_seq (p_expect (p_char CHR '')'' s2)) (\<lambda>_ s3. P_ok (Sub na) s3)))))"

definition p_name_rep_with :: "(string \<Rightarrow> ast_name presult) \<Rightarrow> string \<Rightarrow> name_rep presult" where
  "p_name_rep_with pn s = p_rule (p_alt
     (p_seq (p_mult_tag s) (\<lambda>m s1. p_seq (p_grp_name pn s1) (\<lambda>d s2. P_ok (Name_rep m d) s2)))
     (p_seq (p_optional 1 s (p_mult_tag s)) (\<lambda>m s1.
        p_seq (p_expect (p_name_unit s1)) (\<lambda>u s2. P_ok (Name_rep m (Unit u)) s2))))"

lemma p_grp_name_cong:
  "(\<And>t. length t < length s \<Longrightarrow> f t = g t) \<Longrightarrow> p_grp_name f s = p_grp_name g s"
  by (auto simp: p_grp_name_def p_seq_def p_char_def split: list.splits)

lemma takeWhile_dropWhile_length: "length (takeWhile P s) + length (dropWhile P s) = length s"
  by (metis length_append takeWhile_dropWhile_id)

lemma p_uint32_rest:
  assumes "p_uint32 s = P_ok v t"
  shows "length t < length s"
proof -
  from assms have "takeWhile is_digit s \<noteq> []" "t = dropWhile is_digit s"
    by (auto simp: p_uint32_def Let_def split: if_splits)
  then show ?thesis using takeWhile_dropWhile_length [of is_digit s]
    by (cases "takeWhile is_digit s") auto
qed

lemma p_char_rest: "p_char c s = P_ok x t \<longleftrightarrow> s = c # t"
  by (cases s) (auto simp: p_char_def)

lemma p_mult_tag_rest: "p_mult_tag s = P_ok m t \<Longrightarrow> length t < length s"
  by (auto simp: p_mult_tag_def p_seq_def p_expect_def p_check_zero_def p_char_rest
      dest!: p_uint32_rest split: presult.splits if_splits)

lemma p_name_rep_with_cong [fundef_cong]:
  assumes "s = s'" and "\<And>t. length t < length s' \<Longrightarrow> f t = g t"
  shows "p_name_rep_with f s = p_name_rep_with g s'"
proof -
  have "p_seq (p_mult_tag s) (\<lambda>m s1. p_seq (p_grp_name f s1) (\<lambda>d s2. P_ok (Name_rep m d) s2))
      = p_seq (p_mult_tag s) (\<lambda>m s1. p_seq (p_grp_name g s1) (\<lambda>d s2. P_ok (Name_rep m d) s2))"
  proof (cases "p_mult_tag s")
    case (P_ok m s1)
    then have "p_grp_name f s1 = p_grp_name g s1"
      using p_mult_tag_rest [OF P_ok] assms by (intro p_grp_name_cong) auto
    with P_ok show ?thesis by (simp add: p_seq_def)
  qed (simp_all add: p_seq_def)
  then show ?thesis by (simp add: p_name_rep_with_def assms(1))
qed

text \<open>
  \<^verbatim>\<open>name_rep % ','\<close>: a separator that is not followed by a \<^verbatim>\<open>name_rep\<close> is left in the input.  That the
  input gets shorter is checked here only for the sake of the termination proof; the check always
  succeeds (\<open>p_name_list_simps\<close> below).
\<close>

function p_name_list :: "string \<Rightarrow> name_rep list presult" where
  "p_name_list s =
     p_seq (p_name_rep_with (\<lambda>t. p_rule (p_seq (p_name_list t) (\<lambda>rs t'. P_ok (Name rs) t'))) s)
       (\<lambda>r s1. p_optional [r] s1 (p_seq (p_char CHR '','' s1) (\<lambda>_ s2.
          if length s2 < length s
          then p_seq (p_name_list s2) (\<lambda>rs s3. P_ok (r # rs) s3) else P_fail)))"
  by pat_completeness auto
termination
  by (relation "measure length") auto

declare p_name_list.simps [simp del]

definition p_name :: "string \<Rightarrow> ast_name presult" where
  "p_name s = p_rule (p_seq (p_name_list s) (\<lambda>rs t. P_ok (Name rs) t))"

definition p_name_rep :: "string \<Rightarrow> name_rep presult" where
  "p_name_rep s = p_name_rep_with p_name s"

section \<open>Entry points\<close>

definition parse_with :: "(string \<Rightarrow> 'a presult) \<Rightarrow> string \<Rightarrow> 'a result" where
  "parse_with rule source =
     (if source = [] then Inl Invalid_argument
      else case rule source of P_ok ast [] \<Rightarrow> Inr ast | _ \<Rightarrow> Inl Invalid_argument)"

definition parse_cdba_name_unit :: "string \<Rightarrow> name_unit result" where
  "parse_cdba_name_unit source = parse_with p_name_unit source"

definition parse_cdba_name :: "string \<Rightarrow> ast_name result" where
  "parse_cdba_name source = parse_with p_name source"

definition parse_cdba_name_rep :: "string \<Rightarrow> name_rep result" where
  "parse_cdba_name_rep source = parse_with p_name_rep source"

section \<open>Accepted results\<close>

named_theorems parse_ok \<open>when a combinator accepts\<close>

lemma p_seq_ok [parse_ok]:
  "p_seq p f = P_ok y t \<longleftrightarrow> (\<exists>x s. p = P_ok x s \<and> f x s = P_ok y t)"
  by (cases p) (auto simp: p_seq_def)

lemma p_expect_ok [parse_ok]: "p_expect p = P_ok x t \<longleftrightarrow> p = P_ok x t"
  by (cases p) (auto simp: p_expect_def)

lemma p_rule_ok [parse_ok]: "p_rule p = P_ok x t \<longleftrightarrow> p = P_ok x t"
  by (cases p) (auto simp: p_rule_def)

lemma p_alt_ok [parse_ok]:
  "p_alt p q = P_ok x t \<longleftrightarrow> p = P_ok x t \<or> (p = P_fail \<and> q = P_ok x t)"
  by (cases p) (auto simp: p_alt_def)

lemma p_optional_ok [parse_ok]:
  "p_optional a s p = P_ok x t \<longleftrightarrow> p = P_ok x t \<or> (p = P_fail \<and> x = a \<and> t = s)"
  by (cases p) (auto simp: p_optional_def)

lemma p_check_zero_ok [parse_ok]: "p_check_zero p = P_ok v t \<longleftrightarrow> p = P_ok v t \<and> v \<noteq> 0"
  by (cases p) (auto simp: p_check_zero_def)

lemmas p_char_ok [parse_ok] = p_char_rest

lemma p_rule_no_throw [simp]: "p_rule p \<noteq> P_throw"
  by (cases p) (auto simp: p_rule_def)

text \<open>The combinators on given results.\<close>

lemma p_simps [simp]:
  "p_seq (P_ok x s) f = f x s" "p_seq P_fail f = P_fail" "p_seq P_throw f = P_throw"
  "p_expect (P_ok x s) = P_ok x s" "p_expect P_fail = P_throw" "p_expect P_throw = P_throw"
  "p_alt (P_ok x s) q = P_ok x s" "p_alt P_fail q = q" "p_alt P_throw q = P_throw"
  "p_optional a s (P_ok x t) = P_ok x t" "p_optional a s P_fail = P_ok a s"
  "p_optional a s P_throw = P_throw"
  "p_rule (P_ok x s) = P_ok x s" "p_rule P_fail = P_fail" "p_rule P_throw = P_fail"
  "p_check_zero P_fail = P_fail" "p_check_zero P_throw = P_throw"
  "v \<noteq> 0 \<Longrightarrow> p_check_zero (P_ok v s) = P_ok v s" "p_check_zero (P_ok 0 s) = P_fail"
  "p_char c (c # s) = P_ok () s" "p_char c [] = P_fail" "c \<noteq> d \<Longrightarrow> p_char c (d # s) = P_fail"
  by (simp_all add: p_seq_def p_expect_def p_alt_def p_optional_def p_rule_def p_check_zero_def
      p_char_def)

text \<open>Every parser consumes input when it accepts.\<close>

lemma p_range_rest: "p_range s = P_ok r t \<Longrightarrow> length t < length s"
  by (auto simp: p_range_def p_range_stop_def p_range_step_def parse_ok dest!: p_uint32_rest)

lemma p_name_string_rest:
  assumes "p_name_string s = P_ok b t"
  shows "length t < length s" and "b \<noteq> []" and "alpha_char (hd b)" and "\<forall>c\<in>set b. name_char c"
    and "s = b @ t"
proof -
  from assms have b: "b = takeWhile name_char s" "b \<noteq> []" "t = dropWhile name_char s"
    "alpha_char (hd b)"
    by (auto simp: p_name_string_def Let_def split: if_splits)
  then show "length t < length s" using takeWhile_dropWhile_length [of name_char s]
    by (cases "takeWhile name_char s") auto
  show "b \<noteq> []" "alpha_char (hd b)" "\<forall>c\<in>set b. name_char c" "s = b @ t"
    using b by (auto dest: set_takeWhileD)
qed

lemma p_name_unit_rest: "p_name_unit s = P_ok u t \<Longrightarrow> length t < length s"
  by (auto simp: p_name_unit_def parse_ok dest!: p_name_string_rest(1) p_range_rest)

lemma p_grp_name_rest:
  assumes "p_grp_name pn s = P_ok d t"
    and "\<And>u x v. length u < length s \<Longrightarrow> pn u = P_ok x v \<Longrightarrow> length v \<le> length u"
  shows "length t < length s"
  using assms(1)
  by (auto simp: p_grp_name_def parse_ok dest!: p_name_unit_rest assms(2) [rotated])

lemma p_name_rep_with_rest:
  assumes "p_name_rep_with pn s = P_ok r t"
    and "\<And>u x v. length u < length s \<Longrightarrow> pn u = P_ok x v \<Longrightarrow> length v \<le> length u"
  shows "length t < length s"
proof -
  have "length t < length s" if "p_mult_tag s = P_ok m s1" "p_grp_name pn s1 = P_ok d t" for m s1 d
  proof -
    have s1: "length s1 < length s" using that(1) by (rule p_mult_tag_rest)
    then have "length t < length s1"
      using that(2) assms(2) by (intro p_grp_name_rest [of pn s1 d t]) auto
    with s1 show ?thesis by simp
  qed
  then show ?thesis using assms(1)
    by (auto simp: p_name_rep_with_def parse_ok dest: p_name_unit_rest p_mult_tag_rest
        intro: less_trans)
qed

lemma p_name_list_rest: "p_name_list s = P_ok rs t \<Longrightarrow> length t < length s"
proof (induction s arbitrary: rs t rule: p_name_list.induct)
  case (1 s)
  let ?pn = "\<lambda>t. p_rule (p_seq (p_name_list t) (\<lambda>rs t'. P_ok (Name rs) t'))"
  from "1.prems" obtain r s1 where r: "p_name_rep_with ?pn s = P_ok r s1"
    and rest: "p_optional [r] s1 (p_seq (p_char CHR '','' s1) (\<lambda>_ s2.
          if length s2 < length s
          then p_seq (p_name_list s2) (\<lambda>rs s3. P_ok (r # rs) s3) else P_fail)) = P_ok rs t"
    by (subst (asm) p_name_list.simps) (auto simp: p_seq_ok)
  have s1: "length s1 < length s"
    by (rule p_name_rep_with_rest [OF r]) (auto simp: parse_ok intro: less_imp_le "1.IH"(1))
  from rest consider "t = s1" | s2 rs' where "s1 = CHR '','' # s2" "length s2 < length s"
      "p_name_list s2 = P_ok rs' t"
    by (auto simp: parse_ok split: if_splits)
  then show ?case
  proof cases
    case 2
    then have "length t < length s2" using "1.IH"(2) r by auto
    with 2 show ?thesis by simp
  qed (use s1 in simp)
qed

text \<open>The check for progress in \<open>p_name_list\<close> never matters: this is the list rule as written.\<close>

lemma p_name_list_simps:
  "p_name_list s =
     p_seq (p_name_rep s) (\<lambda>r s1. p_optional [r] s1 (p_seq (p_char CHR '','' s1) (\<lambda>_ s2.
          p_seq (p_name_list s2) (\<lambda>rs s3. P_ok (r # rs) s3))))"
proof -
  have eq: "p_name_rep_with (\<lambda>t. p_rule (p_seq (p_name_list t) (\<lambda>rs t'. P_ok (Name rs) t'))) s
      = p_name_rep s"
    unfolding p_name_rep_def by (rule p_name_rep_with_cong) (simp_all add: p_name_def)
  show ?thesis
  proof (cases "p_name_rep s")
    case (P_ok r s1)
    then have "length s1 < length s"
      unfolding p_name_rep_def
      by (rule p_name_rep_with_rest) (auto simp: p_name_def parse_ok dest!: p_name_list_rest)
    with P_ok show ?thesis
      by (subst p_name_list.simps) (cases s1; auto simp: eq p_char_def)
  next
    case P_fail
    then show ?thesis by (subst p_name_list.simps) (simp add: eq)
  next
    case P_throw
    then show ?thesis by (subst p_name_list.simps) (simp add: eq)
  qed
qed

lemma p_name_rep_eq:
  "p_name_rep s = p_rule (p_alt
     (p_seq (p_mult_tag s) (\<lambda>m s1. p_seq (p_grp_name p_name s1) (\<lambda>d s2. P_ok (Name_rep m d) s2)))
     (p_seq (p_optional 1 s (p_mult_tag s)) (\<lambda>m s1.
        p_seq (p_expect (p_name_unit s1)) (\<lambda>u s2. P_ok (Name_rep m (Unit u)) s2))))"
  by (simp add: p_name_rep_def p_name_rep_with_def)

section \<open>What the parser accepts\<close>

definition field32 :: "cnt_t \<Rightarrow> bool" where
  "field32 v \<longleftrightarrow> unat v < 2 ^ 32"

definition range_printable :: "ast_range \<Rightarrow> bool" where
  "range_printable r \<longleftrightarrow>
     rg_step r = 0 \<or> (field32 (rg_start r) \<and> field32 (rg_stop r) \<and> field32 (rg_step r))"

definition unit_printable :: "name_unit \<Rightarrow> bool" where
  "unit_printable nu \<longleftrightarrow> nu_base nu \<noteq> [] \<and> alpha_char (hd (nu_base nu)) \<and>
     (\<forall>c\<in>set (nu_base nu). name_char c) \<and> range_printable (nu_range nu)"

fun rep_printable :: "name_rep \<Rightarrow> bool"
  and data_printable :: "rep_data \<Rightarrow> bool"
  and name_printable :: "ast_name \<Rightarrow> bool" where
  "rep_printable (Name_rep mult d) \<longleftrightarrow> mult \<noteq> 0 \<and> field32 mult \<and> data_printable d"
| "data_printable (Unit nu) \<longleftrightarrow> unit_printable nu"
| "data_printable (Sub na) \<longleftrightarrow> name_printable na"
| "name_printable (Name reps) \<longleftrightarrow> reps \<noteq> [] \<and> (\<forall>r\<in>set reps. rep_printable r)"

lemma p_uint32_field:
  assumes "p_uint32 s = P_ok v t"
  shows "field32 v"
proof -
  from assms have "digits_val (takeWhile is_digit s) < 2 ^ 32"
    and v: "v = of_nat (digits_val (takeWhile is_digit s))"
    by (auto simp: p_uint32_def Let_def split: if_splits)
  then have "unat v = digits_val (takeWhile is_digit s)" by (simp add: unat_of_nat)
  with \<open>_ < 2 ^ 32\<close> show ?thesis by (simp add: field32_def)
qed

lemma p_mult_tag_field: "p_mult_tag s = P_ok m t \<Longrightarrow> m \<noteq> 0 \<and> field32 m"
  by (auto simp: p_mult_tag_def parse_ok dest: p_uint32_field)

lemma field32_1 [simp]: "field32 1"
  by (simp add: field32_def)

lemma p_range_printable: "p_range s = P_ok r t \<Longrightarrow> range_printable r"
  by (auto simp: p_range_def p_range_stop_def p_range_step_def parse_ok range_printable_def
      dest!: p_uint32_field)

lemma p_name_unit_printable: "p_name_unit s = P_ok u t \<Longrightarrow> unit_printable u"
  by (auto simp: p_name_unit_def parse_ok unit_printable_def range_default_def
      dest: p_range_printable p_name_string_rest)
     (auto simp: range_printable_def)

lemma p_grp_name_printable:
  assumes "p_grp_name pn s = P_ok d t"
    and "\<And>u x v. length u < length s \<Longrightarrow> pn u = P_ok x v \<Longrightarrow> name_printable x"
  shows "data_printable d"
  using assms(1)
  by (auto simp: p_grp_name_def parse_ok dest: p_name_unit_printable dest!: assms(2) [rotated])

lemma p_name_rep_with_printable:
  assumes "p_name_rep_with pn s = P_ok r t"
    and "\<And>u x v. length u < length s \<Longrightarrow> pn u = P_ok x v \<Longrightarrow> name_printable x"
  shows "rep_printable r"
proof -
  have "data_printable d" if "p_mult_tag s = P_ok m s1" "p_grp_name pn s1 = P_ok d t" for m s1 d
    by (rule p_grp_name_printable [OF that(2)])
       (use p_mult_tag_rest [OF that(1)] in \<open>auto intro: assms(2) [rotated]\<close>)
  then show ?thesis using assms(1)
    by (auto simp: p_name_rep_with_def parse_ok dest: p_mult_tag_field p_name_unit_printable)
qed

lemma p_name_list_printable:
  "p_name_list s = P_ok rs t \<Longrightarrow> rs \<noteq> [] \<and> (\<forall>r\<in>set rs. rep_printable r)"
proof (induction s arbitrary: rs t rule: p_name_list.induct)
  case (1 s)
  let ?pn = "\<lambda>t. p_rule (p_seq (p_name_list t) (\<lambda>rs t'. P_ok (Name rs) t'))"
  from "1.prems" obtain r s1 where r: "p_name_rep_with ?pn s = P_ok r s1"
    and rest: "p_optional [r] s1 (p_seq (p_char CHR '','' s1) (\<lambda>_ s2.
          if length s2 < length s
          then p_seq (p_name_list s2) (\<lambda>rs s3. P_ok (r # rs) s3) else P_fail)) = P_ok rs t"
    by (subst (asm) p_name_list.simps) (auto simp: p_seq_ok)
  have ok: "rep_printable r"
    by (rule p_name_rep_with_printable [OF r]) (auto simp: parse_ok dest!: "1.IH"(1))
  from rest consider "rs = [r]" | s2 rs' where "s1 = CHR '','' # s2" "length s2 < length s"
      "p_name_list s2 = P_ok rs' t" "rs = r # rs'"
    by (auto simp: parse_ok split: if_splits)
  then show ?case
  proof cases
    case 2
    then have "\<forall>r\<in>set rs'. rep_printable r" using "1.IH"(2) r by auto
    with 2 ok show ?thesis by simp
  qed (use ok in simp)
qed

lemma parse_with_ok: "parse_with rule s = Inr x \<longleftrightarrow> s \<noteq> [] \<and> rule s = P_ok x []"
  by (auto simp: parse_with_def split: presult.splits list.splits)

lemma parse_cdba_name_printable: "parse_cdba_name s = Inr na \<Longrightarrow> name_printable na"
  by (auto simp: parse_cdba_name_def parse_with_ok p_name_def parse_ok dest: p_name_list_printable)

text \<open>The ranges of accepted names have sizes without wrap-around.\<close>

lemma range_printable_ok: "range_printable r \<Longrightarrow> range_ok r"
  by (auto simp: range_printable_def range_ok_def range_span_def field32_def)

lemma printable_ok:
  "rep_printable r \<Longrightarrow> units_ok (rep_units r)"
  "data_printable d \<Longrightarrow> units_ok (data_units d)"
  "name_printable na \<Longrightarrow> units_ok (name_units na)"
  by (induction r and d and na rule: rep_size_data_size_name_size.induct)
     (auto simp: unit_printable_def range_printable_ok)

section \<open>Reading back what is printed\<close>

text \<open>
  Printing forgets some structure: a vector of one bit prints as an index, a group repeated once
  prints as its parts, a group of one name as that name.
\<close>

definition range_norm :: "ast_range \<Rightarrow> ast_range" where
  "range_norm r =
     (if rg_step r = 0 then range_default
      else if range_size r = 1 then \<lparr>rg_start = rg_start r, rg_stop = rg_start r, rg_step = 1\<rparr>
      else r)"

definition unit_norm :: "name_unit \<Rightarrow> name_unit" where
  "unit_norm nu = nu\<lparr>nu_range := range_norm (nu_range nu)\<rparr>"

definition group_norm :: "name_rep list \<Rightarrow> rep_data" where
  "group_norm rs = (case rs of
       [Name_rep m (Unit u)] \<Rightarrow> if m = 1 then Unit u else Sub (Name rs)
     | _ \<Rightarrow> Sub (Name rs))"

fun rep_norm :: "name_rep \<Rightarrow> name_rep list"
  and data_norm :: "rep_data \<Rightarrow> name_rep list"
  and name_norm :: "ast_name \<Rightarrow> name_rep list" where
  "rep_norm (Name_rep mult d) =
     (if mult = 1 then data_norm d else [Name_rep mult (group_norm (data_norm d))])"
| "data_norm (Unit nu) = [Name_rep 1 (Unit (unit_norm nu))]"
| "data_norm (Sub na) = name_norm na"
| "name_norm (Name reps) = concat (map rep_norm reps)"

lemma range_norm_expand:
  "unit_expand ns (unit_norm nu) = unit_expand ns nu"
  by (auto simp: unit_expand_def unit_norm_def range_norm_def unit_is_vector_def range_empty_def
      range_default_def range_at_def) (simp_all add: range_size_def)

lemma group_norm_expand: "data_expand ns (group_norm rs) = name_expand ns (Name rs)"
  by (auto simp: group_norm_def split: list.splits name_rep.splits rep_data.splits)

lemma norm_expand:
  "concat (map (rep_expand ns) (rep_norm r)) = rep_expand ns r"
  "concat (map (rep_expand ns) (data_norm d)) = data_expand ns d"
  "concat (map (rep_expand ns) (name_norm na)) = name_expand ns na"
proof (induction r and d and na rule: rep_size_data_size_name_size.induct)
  case (4 reps)
  then show ?case by (induction reps) auto
qed (simp_all add: group_norm_expand range_norm_expand)

text \<open>Numerals, ranges and units, followed by anything that ends them.\<close>

lemma p_uint32_print:
  assumes "field32 v" and "rest = [] \<or> \<not> is_digit (hd rest)"
  shows "p_uint32 (cnt_to_string v @ rest) = P_ok v rest"
  using nat_to_string_span [OF assms(2), of "unat v"] assms(1)
  by (simp add: p_uint32_def cnt_to_string_def field32_def)

lemma not_digit_simps [simp]: "\<not> is_digit CHR '':''" "\<not> is_digit CHR ''>''"
  by (simp_all add: is_digit_def)

lemma p_range_print:
  assumes "field32 a" and "field32 b" and "field32 c" and "c \<noteq> 0"
  shows "p_range (''<'' @ cnt_to_string a @ ''>'' @ rest)
      = P_ok \<lparr>rg_start = a, rg_stop = a, rg_step = 1\<rparr> rest"
    and "p_range (''<'' @ cnt_to_string a @ '':'' @ cnt_to_string b @ ''>'' @ rest)
      = P_ok \<lparr>rg_start = a, rg_stop = b, rg_step = 1\<rparr> rest"
    and "p_range (''<'' @ cnt_to_string a @ '':'' @ cnt_to_string b @ '':'' @ cnt_to_string c @ ''>'' @ rest)
      = P_ok \<lparr>rg_start = a, rg_stop = b, rg_step = c\<rparr> rest"
  using assms by (simp_all add: p_range_def p_range_stop_def p_range_step_def p_uint32_print)

lemma name_char_simps [simp]:
  "\<not> name_char CHR ''<''" "\<not> name_char CHR '',''" "\<not> name_char CHR '')''" "\<not> name_char CHR ''(''"
  by (simp_all add: name_char_def)

lemma alpha_not_special: "alpha_char c \<Longrightarrow> CHR ''<'' \<noteq> c \<and> CHR ''('' \<noteq> c"
  by (auto simp: alpha_char_def)

definition name_follow :: "string \<Rightarrow> bool" where
  "name_follow rest \<longleftrightarrow> rest = [] \<or> hd rest = CHR '','' \<or> hd rest = CHR '')''"

lemma p_name_string_print:
  assumes "\<forall>c\<in>set b. name_char c" and "b \<noteq> []" and "alpha_char (hd b)"
    and "rest = [] \<or> \<not> name_char (hd rest)"
  shows "p_name_string (b @ rest) = P_ok b rest"
proof -
  have t: "takeWhile name_char (b @ rest) = b"
    by (rule takeWhile_partition) (use assms in auto)
  then have "dropWhile name_char (b @ rest) = rest"
    by (metis same_append_eq takeWhile_dropWhile_id)
  with t assms show ?thesis by (simp add: p_name_string_def)
qed

lemma p_range_no_bracket: "name_follow rest \<Longrightarrow> p_range rest = P_fail"
  by (cases rest) (auto simp: name_follow_def p_range_def)

lemma p_name_unit_print:
  assumes "unit_printable nu" and "name_follow rest"
  shows "p_name_unit (unit_to_string_cdba nu @ rest) = P_ok (unit_norm nu) rest"
proof -
  obtain b r where nu: "nu = \<lparr>nu_base = b, nu_range = r\<rparr>" by (cases nu)
  have b: "\<forall>c\<in>set b. name_char c" "b \<noteq> []" "alpha_char (hd b)" and r: "range_printable r"
    using assms(1) by (simp_all add: nu unit_printable_def)
  show ?thesis
  proof (cases "rg_step r = 0")
    case True
    have "rest = [] \<or> \<not> name_char (hd rest)" using assms(2) by (auto simp: name_follow_def)
    then have "p_name_string (b @ rest) = P_ok b rest" using b by (intro p_name_string_print)
    with True b show ?thesis
      by (simp add: nu p_name_unit_def unit_to_string_cdba_def unit_empty_def unit_is_vector_def range_empty_def
          unit_norm_def range_norm_def p_range_no_bracket [OF assms(2)])
  next
    case False
    define rs where "rs = (if range_size r = 1 then ''<'' @ cnt_to_string (rg_start r) @ ''>''
      else if rg_step r = 1
      then ''<'' @ cnt_to_string (rg_start r) @ '':'' @ cnt_to_string (rg_stop r) @ ''>''
      else ''<'' @ cnt_to_string (rg_start r) @ '':'' @ cnt_to_string (rg_stop r) @ '':''
             @ cnt_to_string (rg_step r) @ ''>'')"
    have str: "unit_to_string_cdba nu = b @ rs"
      using False b by (simp add: nu rs_def unit_to_string_cdba_def unit_empty_def unit_is_vector_def range_empty_def Let_def)
    have f: "field32 (rg_start r)" "field32 (rg_stop r)" "field32 (rg_step r)"
      using r False by (auto simp: range_printable_def)
    have "p_range (rs @ rest) = P_ok (range_norm r) rest"
      using False p_range_print [OF f False, of rest] by (auto simp: rs_def range_norm_def)
    moreover have "p_name_string (b @ rs @ rest) = P_ok b (rs @ rest)"
      using b by (intro p_name_string_print) (auto simp: rs_def)
    ultimately show ?thesis by (simp add: str [unfolded nu] p_name_unit_def unit_norm_def nu)
  qed
qed

lemma p_mult_tag_print:
  "field32 m \<Longrightarrow> m \<noteq> 0 \<Longrightarrow> p_mult_tag (''<*'' @ cnt_to_string m @ ''>'' @ rest) = P_ok m rest"
  by (simp add: p_mult_tag_def p_uint32_print)

text \<open>A unit is a \<^verbatim>\<open>name_rep\<close>, and no group.\<close>

lemma p_name_unit_start:
  assumes "p_name_unit s = P_ok u t"
  obtains c s' where "s = c # s'" and "alpha_char c"
proof -
  from assms obtain b s1 where b: "p_name_string s = P_ok b s1"
    by (auto simp: p_name_unit_def parse_ok)
  note n = p_name_string_rest [OF b]
  then show thesis using that by (cases b) auto
qed

lemma p_name_unit_first:
  assumes "p_name_unit s = P_ok u t"
  shows "p_mult_tag s = P_fail" and "p_grp_name pn s = P_fail" and "p_name_rep s = P_ok (Name_rep 1 (Unit u)) t"
proof -
  obtain c s' where s: "s = c # s'" "alpha_char c" using assms by (rule p_name_unit_start)
  show tag: "p_mult_tag s = P_fail" and "p_grp_name pn s = P_fail"
    using alpha_not_special [OF s(2)] by (simp_all add: s(1) p_mult_tag_def p_grp_name_def)
  show "p_name_rep s = P_ok (Name_rep 1 (Unit u)) t"
    by (simp add: p_name_rep_eq tag assms)
qed

text \<open>How a list goes on after one of its members.\<close>

definition list_follow :: "string \<Rightarrow> name_rep list \<Rightarrow> string \<Rightarrow> bool" where
  "list_follow rest rs t \<longleftrightarrow>
     (rest = [] \<or> hd rest = CHR '')'') \<and> rs = [] \<and> t = rest \<or>
     (\<exists>s. rest = CHR '','' # s \<and> p_name_list s = P_ok rs t)"

lemma list_follow_name: "list_follow rest rs t \<Longrightarrow> name_follow rest"
  by (auto simp: list_follow_def name_follow_def)

lemma p_name_list_step:
  assumes "p_name_rep s = P_ok r rest" and "list_follow rest rs t"
  shows "p_name_list s = P_ok (r # rs) t"
  using assms by (cases rest) (auto simp: p_name_list_simps [of s] list_follow_def p_char_def)

lemma rep_norm_nonempty:
  "rep_printable r \<Longrightarrow> rep_norm r \<noteq> []"
  "data_printable d \<Longrightarrow> data_norm d \<noteq> []"
  "name_printable na \<Longrightarrow> name_norm na \<noteq> []"
proof (induction r and d and na rule: rep_size_data_size_name_size.induct)
  case (4 reps)
  then show ?case by (cases reps) auto
qed auto

lemma single_unit_string:
  "rep_printable r \<Longrightarrow> rep_norm r = [Name_rep 1 (Unit u)] \<Longrightarrow>
     \<exists>u'. rep_to_string_cdba r = unit_to_string_cdba u' \<and> u = unit_norm u' \<and> unit_printable u'"
  "data_printable d \<Longrightarrow> data_norm d = [Name_rep 1 (Unit u)] \<Longrightarrow>
     \<exists>u'. data_to_string_cdba d = unit_to_string_cdba u' \<and> u = unit_norm u' \<and> unit_printable u'"
  "name_printable na \<Longrightarrow> name_norm na = [Name_rep 1 (Unit u)] \<Longrightarrow>
     \<exists>u'. name_to_string_cdba na = unit_to_string_cdba u' \<and> u = unit_norm u' \<and> unit_printable u'"
proof (induction r and d and na rule: rep_size_data_size_name_size.induct)
  case (1 mult d)
  then show ?case by (auto split: if_splits)
next
  case (4 reps)
  then obtain r rs where reps: "reps = r # rs" by (cases reps) auto
  have "rep_norm r \<noteq> []" using "4.prems"(1) reps rep_norm_nonempty(1) by simp
  then have r: "rep_norm r = [Name_rep 1 (Unit u)]" and rest: "concat (map rep_norm rs) = []"
    using "4.prems"(2) reps by (auto simp: append_eq_Cons_conv)
  have "rs = []"
  proof (rule ccontr)
    assume "rs \<noteq> []"
    then obtain r' rs' where "rs = r' # rs'" by (cases rs) auto
    then show False using rest "4.prems"(1) reps rep_norm_nonempty(1) [of r'] by simp
  qed
  with r reps "4.IH" [of r] "4.prems"(1) show ?case by simp
qed auto

lemma p_grp_name_print:
  assumes "name_printable na"
    and "p_name_list (name_to_string_cdba na @ CHR '')'' # rest) = P_ok (name_norm na) (CHR '')'' # rest)"
  shows "p_grp_name p_name (''('' @ name_to_string_cdba na @ '')'' @ rest)
    = P_ok (group_norm (name_norm na)) rest"
proof -
  let ?s = "name_to_string_cdba na @ CHR '')'' # rest"
  have pn: "p_name ?s = P_ok (Name (name_norm na)) (CHR '')'' # rest)"
    using assms(2) by (simp add: p_name_def)
  have close: "list_follow (CHR '')'' # t) [] (CHR '')'' # t)" for t
    by (simp add: list_follow_def)
  show ?thesis
  proof (cases "\<exists>u. name_norm na = [Name_rep 1 (Unit u)]")
    case True
    then obtain u where u: "name_norm na = [Name_rep 1 (Unit u)]" by auto
    obtain u' where "name_to_string_cdba na = unit_to_string_cdba u'" "u = unit_norm u'"
      "unit_printable u'"
      using single_unit_string(3) [OF assms(1) u] by auto
    then have "p_name_unit ?s = P_ok u (CHR '')'' # rest)"
      by (simp add: p_name_unit_print name_follow_def)
    with u show ?thesis by (simp add: p_grp_name_def group_norm_def)
  next
    case False
    have no: "p_name_unit ?s \<noteq> P_ok u (CHR '')'' # t)" for u t
    proof
      assume "p_name_unit ?s = P_ok u (CHR '')'' # t)"
      then have "p_name_list ?s = P_ok [Name_rep 1 (Unit u)] (CHR '')'' # t)"
        by (intro p_name_list_step [OF p_name_unit_first(3) close])
      with assms(2) have "name_norm na = [Name_rep 1 (Unit u)]" by simp
      with False show False by blast
    qed
    have "p_name_unit ?s \<noteq> P_throw" by (simp add: p_name_unit_def)
    then have fail: "p_seq (p_name_unit ?s) (\<lambda>u s2. p_seq (p_char CHR '')'' s2) (\<lambda>_ s3. P_ok (Unit u) s3))
        = P_fail"
    proof (cases "p_name_unit ?s")
      case (P_ok u s2)
      with no have "s2 = [] \<or> hd s2 \<noteq> CHR '')''" by (cases s2) auto
      with P_ok show ?thesis by (cases s2) (auto simp: p_char_def)
    qed auto
    have "group_norm (name_norm na) = Sub (Name (name_norm na))"
      using False by (auto simp: group_norm_def split: list.splits name_rep.splits rep_data.splits)
    with fail pn show ?thesis by (simp add: p_grp_name_def)
  qed
qed

lemma p_name_list_comma_join:
  assumes "\<And>r rest rs t. r \<in> set reps \<Longrightarrow> list_follow rest rs t \<Longrightarrow>
      p_name_list (rep_to_string_cdba r @ rest) = P_ok (rep_norm r @ rs) t"
    and "reps \<noteq> []" and "list_follow rest rs t"
  shows "p_name_list (comma_join (map rep_to_string_cdba reps) @ rest)
    = P_ok (concat (map rep_norm reps) @ rs) t"
  using assms
proof (induction reps)
  case (Cons r reps)
  show ?case
  proof (cases "reps = []")
    case True
    with Cons.prems show ?thesis by simp
  next
    case False
    then have join: "comma_join (map rep_to_string_cdba (r # reps))
        = rep_to_string_cdba r @ CHR '','' # comma_join (map rep_to_string_cdba reps)"
      by (cases reps) simp_all
    have "p_name_list (comma_join (map rep_to_string_cdba reps) @ rest)
        = P_ok (concat (map rep_norm reps) @ rs) t"
      using Cons.prems False by (intro Cons.IH) auto
    then have "list_follow (CHR '','' # comma_join (map rep_to_string_cdba reps) @ rest)
        (concat (map rep_norm reps) @ rs) t"
      by (simp add: list_follow_def)
    then show ?thesis unfolding join using Cons.prems(1) [of r] by simp
  qed
qed simp

lemma p_name_list_print:
  "rep_printable r \<Longrightarrow> list_follow rest rs t \<Longrightarrow>
     p_name_list (rep_to_string_cdba r @ rest) = P_ok (rep_norm r @ rs) t"
  "data_printable d \<Longrightarrow> list_follow rest rs t \<Longrightarrow>
     p_name_list (data_to_string_cdba d @ rest) = P_ok (data_norm d @ rs) t"
  "name_printable na \<Longrightarrow> list_follow rest rs t \<Longrightarrow>
     p_name_list (name_to_string_cdba na @ rest) = P_ok (name_norm na @ rs) t"
proof (induction r and d and na arbitrary: rest rs t and rest rs t and rest rs t
    rule: rep_size_data_size_name_size.induct)
  case (1 mult d)
  show ?case
  proof (cases "mult = 1")
    case True
    with 1 show ?thesis by simp
  next
    case mult: False
    have m: "mult \<noteq> 0" "field32 mult" and d: "data_printable d" using "1.prems" by auto
    show ?thesis
    proof (cases d)
      case (Unit u)
      then have u: "p_name_unit (unit_to_string_cdba u @ rest) = P_ok (unit_norm u) rest"
        using d "1.prems"(2) by (intro p_name_unit_print) (auto dest: list_follow_name)
      have "p_name_rep (rep_to_string_cdba (Name_rep mult d) @ rest)
          = P_ok (Name_rep mult (Unit (unit_norm u))) rest"
        using Unit mult m p_mult_tag_print [OF m(2,1), of "unit_to_string_cdba u @ rest"] u
          p_name_unit_first(2) [OF u]
        by (simp add: p_name_rep_eq)
      from p_name_list_step [OF this "1.prems"(2)] show ?thesis
        using Unit mult by (simp add: group_norm_def)
    next
      case (Sub na)
      have "p_name_list (name_to_string_cdba na @ CHR '')'' # rest)
          = P_ok (name_norm na @ []) (CHR '')'' # rest)"
        using "1.IH" [of "CHR '')'' # rest" "[]" "CHR '')'' # rest"] d Sub
        by (simp add: list_follow_def)
      then have "p_grp_name p_name (''('' @ name_to_string_cdba na @ '')'' @ rest)
          = P_ok (group_norm (name_norm na)) rest"
        using d Sub by (intro p_grp_name_print) simp_all
      then have "p_name_rep (rep_to_string_cdba (Name_rep mult d) @ rest)
          = P_ok (Name_rep mult (group_norm (name_norm na))) rest"
        using Sub mult m p_mult_tag_print [OF m(2,1), of "''('' @ name_to_string_cdba na @ '')'' @ rest"]
        by (simp add: p_name_rep_eq)
      from p_name_list_step [OF this "1.prems"(2)] show ?thesis
        using Sub mult by simp
    qed
  qed
next
  case (2 nu)
  then have u: "p_name_unit (unit_to_string_cdba nu @ rest) = P_ok (unit_norm nu) rest"
    by (intro p_name_unit_print) (auto dest: list_follow_name)
  from p_name_list_step [OF p_name_unit_first(3) [OF u] 2(2)] show ?case by simp
next
  case (4 reps)
  then show ?case
    using p_name_list_comma_join [of reps rest rs t] by simp
qed simp

lemma comma_join_nonempty: "s \<noteq> [] \<Longrightarrow> comma_join (s # ss) \<noteq> []"
  by simp

lemma to_string_nonempty:
  "rep_printable r \<Longrightarrow> rep_to_string_cdba r \<noteq> []"
  "data_printable d \<Longrightarrow> data_to_string_cdba d \<noteq> []"
  "name_printable na \<Longrightarrow> name_to_string_cdba na \<noteq> []"
proof (induction r and d and na rule: rep_size_data_size_name_size.induct)
  case (1 mult d)
  then show ?case by (cases d) auto
next
  case (2 nu)
  then show ?case by (auto simp: unit_to_string_cdba_def unit_printable_def unit_empty_def Let_def)
next
  case (4 reps)
  then show ?case by (cases reps) auto
qed simp

lemma parse_print:
  assumes "name_printable na"
  shows "parse_cdba_name (name_to_string_cdba na) = Inr (Name (name_norm na))"
proof -
  have "p_name_list (name_to_string_cdba na @ []) = P_ok (name_norm na @ []) []"
    by (rule p_name_list_print(3) [OF assms]) (simp add: list_follow_def)
  then show ?thesis using to_string_nonempty(3) [OF assms]
    by (simp add: parse_cdba_name_def parse_with_ok p_name_def)
qed

lemma example_printable: "name_printable example_name" "Name (name_norm example_name) = example_name"
  by (simp_all add: example_name_def unit_printable_def alpha_char_def name_char_def
      range_printable_def range_default_def field32_def unit_norm_def range_norm_def group_norm_def
      range_size_def)

section \<open>Properties\<close>

text \<open>
  C1.  A printed name parses: to the same name up to the structure printing drops, and with exactly
  the same bits, in order, in either name space.
\<close>

theorem name_print_parse:
  assumes "name_printable na"
  shows "case parse_cdba_name (name_to_string_cdba na) of
      Inl e \<Rightarrow> False
    | Inr na' \<Rightarrow> na' = Name (name_norm na) \<and> name_expand ns na' = name_expand ns na"
  using parse_print [OF assms] norm_expand(3) [of ns na] by simp

theorem name_print_parse_witness:
  "case parse_cdba_name (name_to_string_cdba example_name) of
      Inl e \<Rightarrow> False
    | Inr na' \<Rightarrow> na' = example_name \<and> name_expand Cdba na' = name_expand Cdba example_name"
  using name_print_parse [OF example_printable(1), of Cdba] example_printable(2)
  by (auto split: sum.splits)

text \<open>
  C9.  Whatever string the parser accepts, the result is a name whose indices and multipliers fit
  32 bits, whose steps and multipliers are not zero and whose ranges have exact sizes; so printing it
  and parsing again gives a name with the same bits, and its expansion terminates.
\<close>

theorem parse_result_well_formed:
  assumes "parse_cdba_name s = Inr na"
  shows "name_printable na \<and> name_ok na \<and>
    (\<exists>na'. parse_cdba_name (name_to_string_cdba na) = Inr na' \<and> name_expand ns na' = name_expand ns na) \<and>
    (length (name_expand ns na) < 2 ^ 64 \<longrightarrow> name_bits ns na = Some (name_expand ns na))"
proof -
  have p: "name_printable na" by (rule parse_cdba_name_printable [OF assms])
  then have ok: "units_ok (name_units na)" by (rule printable_ok)
  note print = parse_print [OF p]
  from p ok print norm_expand(3) [of ns na] bits_expand(3) [OF ok, of ns] show ?thesis
    by (simp add: name_ok_def)
qed

lemma parse_example: "parse_cdba_name (name_to_string_cdba example_name) = Inr example_name"
  using parse_print [OF example_printable(1)] by (simp add: example_printable(2))

theorem parse_result_well_formed_witness:
  "name_printable example_name \<and> name_ok example_name \<and>
    (\<exists>na'. parse_cdba_name (name_to_string_cdba example_name) = Inr na' \<and>
       name_expand Cdba na' = name_expand Cdba example_name)"
  using parse_result_well_formed [OF parse_example, of Cdba] by blast

text \<open>
  The exclusive upper bound of a vector is printed as if it were inclusive: the text that
  \<^verbatim>\<open>to_string(base, bounds)\<close> writes for the bounds of a vector of more than one index parses to a
  vector of one index more.
\<close>

theorem bounds_to_string_too_wide:
  assumes "base \<noteq> []" and "alpha_char (hd base)" and "\<forall>c\<in>set base. name_char c"
    and "unat lo + 1 < unat hi" and "unat hi < 2 ^ 32"
  shows "case parse_cdba_name_unit (bounds_to_string base (lo, hi)) of
      Inl e \<Rightarrow> False
    | Inr nu \<Rightarrow> unat (unit_size nu) = unat hi - unat lo + 1 \<and> range_bounds (nu_range nu) = (lo, hi + 1)"
proof -
  let ?r = "\<lparr>rg_start = lo, rg_stop = hi, rg_step = 1\<rparr>"
  let ?nu = "\<lparr>nu_base = base, nu_range = ?r\<rparr>"
  have le: "lo \<le> hi" and f: "field32 lo" "field32 hi" using assms(4,5)
    by (auto simp: word_le_nat_alt field32_def)
  have ok: "range_ok ?r" using assms(5) le by (auto simp: range_ok_def range_span_def)
  have size: "unat (range_size ?r) = unat hi - unat lo + 1"
    using range_size_unat [OF ok] le by (simp add: range_span_def)
  then have size_w: "range_size ?r = hi - lo + 1" "range_size ?r \<noteq> 1" "range_size ?r \<noteq> 0"
    using le assms(4) by (auto simp: range_size_def)
  have diff: "hi - lo \<noteq> 1"
  proof
    assume "hi - lo = 1"
    then have "unat hi - unat lo = 1" using le by (metis unat_1 unat_sub)
    with assms(4) show False by simp
  qed
  then have "bounds_to_string base (lo, hi) = unit_to_string_cdba ?nu"
    using assms(1,4) size_w
    by (auto simp: bounds_to_string_def unit_to_string_cdba_def unit_empty_def unit_is_vector_def
        range_empty_def)
  moreover have "unit_printable ?nu"
    using assms f by (simp add: unit_printable_def range_printable_def)
  then have "p_name_unit (unit_to_string_cdba ?nu @ []) = P_ok (unit_norm ?nu) []"
    by (rule p_name_unit_print) (simp add: name_follow_def)
  moreover have "unit_norm ?nu = ?nu" using size_w by (simp add: unit_norm_def range_norm_def)
  moreover have "unit_to_string_cdba ?nu \<noteq> []"
    using assms(1) by (simp add: unit_to_string_cdba_def unit_empty_def Let_def)
  ultimately have "parse_cdba_name_unit (bounds_to_string base (lo, hi)) = Inr ?nu"
    by (simp add: parse_cdba_name_unit_def parse_with_ok)
  moreover have "unat (unit_size ?nu) = unat hi - unat lo + 1"
    using size size_w by (simp add: unit_size_def max_word_1)
  moreover have "range_bounds ?r = (lo, hi + 1)"
    using le size_w by (simp add: range_bounds_def range_stop_include_def range_at_def)
  ultimately show ?thesis by simp
qed

theorem bounds_to_string_too_wide_witness:
  "case parse_cdba_name_unit (bounds_to_string ''foo'' (0, 4)) of
      Inl e \<Rightarrow> False
    | Inr nu \<Rightarrow> unat (unit_size nu) = 5 \<and> range_bounds (nu_range nu) = (0, 4 + 1)"
  using bounds_to_string_too_wide [of "''foo''" 0 4]
  by (auto simp: alpha_char_def name_char_def split: sum.splits)

end
