(* ===== verification/Util_Math.thy ===== *)
theory Util_Math
  imports Prelude "HOL-Library.Signed_Division"
begin

unbundle bit_operations_syntax

text \<open>
  The integer helpers of \<^verbatim>\<open>include/cbag/util/math.h\<close>.  An \<^verbatim>\<open>int\<close> is a mathematical integer within
  32 bits; shifts and masks work on its two's complement representation, as \<open>drop_bit\<close> and \<open>AND\<close>
  do on integers.  Where the code mixes signed and unsigned operands the conversion is written out.
\<close>

definition int32 :: "int \<Rightarrow> bool" where
  "int32 i \<longleftrightarrow> - (2 ^ 31) \<le> i \<and> i < 2 ^ 31"

text \<open>\<^verbatim>\<open>int x / unsigned y\<close> converts \<open>x\<close> to \<^verbatim>\<open>unsigned\<close> first, and the result back to \<^verbatim>\<open>int\<close>.\<close>

definition util_ceil :: "int \<Rightarrow> 32 word \<Rightarrow> int" where
  "util_ceil x y =
     (let ux = word_of_int x :: 32 word
      in sint (ux div y + (if ux mod y > 0 then 1 else 0)))"

definition floor2 :: "int \<Rightarrow> int" where
  "floor2 a = drop_bit 1 a"

definition pos_mod :: "int \<Rightarrow> int \<Rightarrow> int" where
  "pos_mod i n = (let m = i smod n in m + (drop_bit 31 m AND n))"

definition sign :: "int \<Rightarrow> int" where
  "sign val = of_bool (0 < val) - of_bool (val < 0)"

lemma floor2_eq: "floor2 a = a div 2"
  by (simp add: floor2_def drop_bit_eq_div)

lemma sign_eq_sgn: "sign a = sgn a"
  by (simp add: sign_def sgn_if)

lemma drop_bit_31: "- (2 ^ 31) \<le> m \<Longrightarrow> m < 2 ^ 31 \<Longrightarrow> drop_bit 31 (m :: int) = (if m < 0 then -1 else 0)"
  by (auto simp: drop_bit_eq_div)

lemma pos_mod_eq:
  assumes "0 < n" and "int32 n"
  shows "pos_mod i n = i mod n"
proof -
  define m where "m = i smod n"
  have m: "m = sgn i * (\<bar>i\<bar> mod n)" using assms(1) by (simp add: m_def smod_int_alt_def)
  have r: "0 \<le> \<bar>i\<bar> mod n" "\<bar>i\<bar> mod n < n" using assms(1) by simp_all
  then have "drop_bit 31 m = (if m < 0 then -1 else 0)"
    using assms(2) by (intro drop_bit_31) (auto simp: m sgn_if int32_def)
  then have "pos_mod i n = (if m < 0 then m + n else m)"
    unfolding pos_mod_def Let_def m_def [symmetric] by (cases "m < 0") simp_all
  also have "\<dots> = i mod n"
  proof (cases "i < 0")
    case True
    define a where "a = - i"
    have i: "i = - a" and m': "m = - (a mod n)" "0 \<le> a mod n" "a mod n < n"
      using True m r by (simp_all add: a_def)
    show ?thesis
      unfolding i zmod_zminus1_eq_if using m' by auto
  next
    case False
    then show ?thesis using r by (auto simp: m sgn_if)
  qed
  finally show ?thesis .
qed

lemma uint_of_small: "0 \<le> x \<Longrightarrow> x < 2 ^ 32 \<Longrightarrow> uint (word_of_int x :: 32 word) = x"
  using take_bit_int_eq_self [of x 32] by (simp add: unsigned_of_int)

lemma sint_small32:
  assumes "uint (w :: 32 word) < 2 ^ 31"
  shows "sint w = uint w"
proof -
  have "sint w = signed_take_bit 31 (uint w)" by (simp add: sint_uint)
  also have "\<dots> = uint w"
    by (rule signed_take_bit_int_eq_self)
       (use assms in \<open>auto intro: order_trans [of _ 0]\<close>)
  finally show ?thesis .
qed

lemma ceil_div_int:
  assumes "0 < (y :: int)"
  shows "x div y + (if 0 < x mod y then 1 else 0) = (x + y - 1) div y"
proof -
  obtain q r where q: "q = x div y" "r = x mod y" by simp
  have x: "x = y * q + r" by (simp add: q)
  have r: "0 \<le> r" "r < y" using assms by (simp_all add: q)
  show ?thesis
  proof (cases "r = 0")
    case True
    have "(x + y - 1) div y = q" by (rule int_div_pos_eq [where r = "y - 1"]) (use x assms True in auto)
    with True show ?thesis by (simp flip: q)
  next
    case False
    have "(x + y - 1) div y = q + 1"
      by (rule int_div_pos_eq [where r = "r - 1"]) (use x r False in \<open>auto simp: distrib_left\<close>)
    with False r show ?thesis by (simp flip: q)
  qed
qed

lemma div_le_self:
  assumes "0 \<le> (a :: int)" and "0 < b"
  shows "a div b \<le> a" and "0 \<le> a div b"
proof -
  show q: "0 \<le> a div b" using assms by (simp add: pos_imp_zdiv_nonneg_iff)
  have "a div b \<le> b * (a div b)" using q assms(2) by (simp add: mult_le_cancel_right1)
  also have "\<dots> \<le> a" using assms by (simp add: minus_mod_eq_mult_div [symmetric])
  finally show "a div b \<le> a" .
qed

lemma util_ceil_nonneg:
  assumes "0 \<le> x" and "x + uint y \<le> 2 ^ 31" and "0 < y"
  shows "util_ceil x y = (x + uint y - 1) div uint y"
proof -
  let ?u = "word_of_int x :: 32 word" and ?y = "uint y"
  have y: "0 < ?y" using assms(3) by (simp add: word_less_def)
  have x: "uint ?u = x" using assms y by (intro uint_of_small) auto
  have q: "uint (?u div y) = x div ?y" by (simp only: uint_div x)
  have mod: "?u mod y > 0 \<longleftrightarrow> x mod ?y > 0"
    by (simp add: word_less_def uint_mod x)
  let ?c = "x div ?y + (if 0 < x mod ?y then 1 else 0)"
  have c: "?c = (x + ?y - 1) div ?y" by (rule ceil_div_int [OF y])
  then have small: "0 \<le> ?c" "?c < 2 ^ 31"
    using div_le_self [of "x + ?y - 1" ?y] assms(1,2) y by linarith+
  have "uint (?u div y + (if ?u mod y > 0 then 1 else 0)) = ?c"
    using mod q small by (auto simp: uint_word_ariths simp del: uint_div)
  then show ?thesis
    using small c by (simp add: util_ceil_def sint_small32)
qed

text \<open>A negative numerator is read as a large unsigned one.\<close>

lemma util_ceil_negative: "util_ceil (-1) 2 = - (2 ^ 31)"
  by code_simp

section \<open>\<^verbatim>\<open>std::div\<close> on \<^verbatim>\<open>long\<close>\<close>

text \<open>
  The operands are counts cast to a signed type; the quotient is cast back.  Division by zero and
  the overflowing division of the least number by minus one are undefined.
\<close>

definition div_quot :: "cnt_t \<Rightarrow> cnt_t \<Rightarrow> cnt_t" where
  "div_quot a b = word_of_int (sint a sdiv sint b)"

definition div_rem :: "cnt_t \<Rightarrow> cnt_t \<Rightarrow> int" where
  "div_rem a b = sint a smod sint b"

definition std_div :: "cnt_t \<Rightarrow> cnt_t \<Rightarrow> (cnt_t \<times> int) result" where
  "std_div a b =
     (if b = 0 \<or> (sint a = - (2 ^ 63) \<and> sint b = -1) then Inl Undefined_behaviour
      else Inr (div_quot a b, div_rem a b))"

lemma sint_small:
  assumes "unat (w :: 64 word) < 2 ^ 63"
  shows "sint w = int (unat w)"
proof -
  have "sint w = signed_take_bit 63 (int (unat w))" by (simp add: sint_uint)
  also have "\<dots> = int (unat w)"
    by (rule signed_take_bit_int_eq_self) (use assms in \<open>simp_all del: of_nat_unat\<close>)
  finally show ?thesis .
qed

lemma sdiv_nat: "int x sdiv int y = int (x div y)" "int x smod int y = int (x mod y)"
  by (cases "x = 0"; cases "y = 0"; simp add: signed_divide_int_def zdiv_int)
     (cases "x = 0"; simp add: smod_int_alt_def zmod_int)

lemma div_small:
  assumes "unat a < 2 ^ 63" and "unat b < 2 ^ 63"
  shows "unat (div_quot a b) = unat a div unat b" and "div_rem a b = int (unat a mod unat b)"
proof -
  have "unat a div unat b \<le> unat a" by (rule div_le_dividend)
  then show "unat (div_quot a b) = unat a div unat b"
    using assms by (simp only: div_quot_def sint_small sdiv_nat of_int_of_nat_eq unat_of_nat_below)
  show "div_rem a b = int (unat a mod unat b)"
    using assms by (simp only: div_rem_def sint_small sdiv_nat)
qed

lemma std_div_small:
  assumes "unat a < 2 ^ 63" and "unat b < 2 ^ 63" and "b \<noteq> 0"
  shows "\<exists>q. std_div a b = Inr (q, int (unat a mod unat b)) \<and> unat q = unat a div unat b"
proof -
  have "0 \<le> sint a" unfolding sint_small [OF assms(1)] by (rule of_nat_0_le_iff)
  moreover have "- (2 ^ 63) < (0 :: int)" by simp
  ultimately have "sint a \<noteq> - (2 ^ 63)" by (metis linorder_not_le)
  then show ?thesis using div_small [OF assms(1,2)] assms(3) by (simp add: std_div_def)
qed

end
