(* ===== verification/Name_Partition.thy ===== *)
theory Name_Partition
  imports Name_Parser Util_Math
begin

text \<open>
  \<^verbatim>\<open>get_partition\<close> of \<^verbatim>\<open>include/cbag/spirit/util.h\<close>: cutting a name into names of \<open>chunk\<close> bits each,
  which distributes the nets on the terminals of an array of instances.  The loops end for suitable
  arguments only, and \<^verbatim>\<open>std::div\<close> by zero is undefined: \<open>None\<close> stands for both.
\<close>

section \<open>The operations\<close>

text \<open>The output iterator, and the two variables passed by reference.\<close>

record part_state =
  ps_out :: "ast_name list"
  ps_reps :: "name_rep list"
  ps_cum :: cnt_t

text \<open>\<^verbatim>\<open>*iter = name(std::move(rep_list)); rep_list.clear();\<close>\<close>

definition part_emit :: "part_state \<Rightarrow> part_state" where
  "part_emit s = s\<lparr>ps_out := ps_out s @ [Name (ps_reps s)], ps_reps := []\<rparr>"

definition part_push :: "name_rep \<Rightarrow> part_state \<Rightarrow> part_state" where
  "part_push r s = s\<lparr>ps_reps := ps_reps s @ [r]\<rparr>"

text \<open>The \<^verbatim>\<open>for\<close> loop over the chunks of a vector; it returns the last \<^verbatim>\<open>start_idx\<close> too.\<close>

partial_function (option) part_unit_loop ::
  "cnt_t \<Rightarrow> name_unit \<Rightarrow> cnt_t \<Rightarrow> cnt_t \<Rightarrow> part_state \<Rightarrow> (cnt_t \<times> part_state) option" where
  "part_unit_loop chunk nu start_idx stop_idx s =
     (if stop_idx \<le> range_size (nu_range nu) then
        part_unit_loop chunk nu stop_idx (stop_idx + chunk)
          (part_emit (part_push
             (Name_rep 1 (Unit \<lparr>nu_base = nu_base nu, nu_range =
                \<lparr>rg_start = range_at (nu_range nu) start_idx,
                 rg_stop = range_at (nu_range nu) (stop_idx - 1),
                 rg_step = rg_step (nu_range nu)\<rparr>\<rparr>)) s))
      else Some (start_idx, s))"

definition part_unit :: "cnt_t \<Rightarrow> name_unit \<Rightarrow> part_state \<Rightarrow> part_state option" where
  "part_unit chunk nu s =
     (let cur_size = range_size (nu_range nu) in
      if cur_size > 0 then
        Option.bind (part_unit_loop chunk nu 0 (chunk - ps_cum s) s) (\<lambda>(start_idx, s').
          if start_idx < cur_size
          then Some ((part_push (Name_rep 1 (Unit \<lparr>nu_base = nu_base nu, nu_range =
                  \<lparr>rg_start = range_at (nu_range nu) start_idx, rg_stop = rg_stop (nu_range nu),
                   rg_step = rg_step (nu_range nu)\<rparr>\<rparr>)) s')\<lparr>ps_cum := cur_size - start_idx\<rparr>)
          else Some (s'\<lparr>ps_cum := 0\<rparr>))
      else
        (let s' = (part_push (Name_rep 1 (Unit nu)) s)\<lparr>ps_cum := ps_cum s + 1\<rparr> in
         if ps_cum s' = chunk then Some ((part_emit s')\<lparr>ps_cum := 0\<rparr>) else Some s'))"

text \<open>
  The \<^verbatim>\<open>while\<close> loop over the repetitions; \<open>f\<close> partitions the repeated data.  The body returns what
  is left of \<^verbatim>\<open>remain_rep\<close>.
\<close>

definition part_copies :: "rep_data \<Rightarrow> cnt_t \<Rightarrow> part_state \<Rightarrow> part_state" where
  "part_copies d k s = (part_push (Name_rep k d) s)\<lparr>ps_cum := ps_cum s + k * data_size d\<rparr>"

definition part_flush :: "cnt_t \<Rightarrow> part_state \<Rightarrow> part_state" where
  "part_flush chunk s = (if ps_cum s = chunk then (part_emit s)\<lparr>ps_cum := 0\<rparr> else s)"

definition part_rep_body ::
  "cnt_t \<Rightarrow> rep_data \<Rightarrow> (part_state \<Rightarrow> part_state option) \<Rightarrow> cnt_t \<Rightarrow> part_state
     \<Rightarrow> (cnt_t \<times> part_state) option" where
  "part_rep_body chunk d f remain_rep s =
     (let data_n = data_size d in
      case std_div (chunk - ps_cum s) data_n of
        Inl e \<Rightarrow> None
      | Inr (mult1, rem) \<Rightarrow>
        if mult1 \<ge> remain_rep then Some (0, part_flush chunk (part_copies d remain_rep s))
        else
          let s1 = (if mult1 > 0 then part_copies d mult1 s else s);
              remain1 = remain_rep - mult1 in
          if rem \<noteq> 0 then Option.bind (f s1) (\<lambda>s2. Some (remain1 - 1, part_flush chunk s2))
          else Some (remain1, part_flush chunk s1))"

partial_function (option) part_rep_loop ::
  "cnt_t \<Rightarrow> rep_data \<Rightarrow> (part_state \<Rightarrow> part_state option) \<Rightarrow> cnt_t \<Rightarrow> part_state \<Rightarrow> part_state option" where
  "part_rep_loop chunk d f remain_rep s =
     (if remain_rep > 0 then
        Option.bind (part_rep_body chunk d f remain_rep s) (\<lambda>r. part_rep_loop chunk d f (fst r) (snd r))
      else Some s)"

primrec foldO :: "('a \<Rightarrow> 's \<Rightarrow> 's option) \<Rightarrow> 'a list \<Rightarrow> 's \<Rightarrow> 's option" where
  "foldO f [] s = Some s"
| "foldO f (x # xs) s = Option.bind (f x s) (foldO f xs)"

lemma foldO_cong [fundef_cong]:
  "xs = ys \<Longrightarrow> s = t \<Longrightarrow> (\<And>x s. x \<in> set ys \<Longrightarrow> f x s = g x s) \<Longrightarrow> foldO f xs s = foldO g ys t"
proof (induction xs arbitrary: ys s t)
  case (Cons x xs)
  then show ?case by (cases "g x s") auto
qed simp

fun part_rep :: "cnt_t \<Rightarrow> name_rep \<Rightarrow> part_state \<Rightarrow> part_state option"
  and part_data :: "cnt_t \<Rightarrow> rep_data \<Rightarrow> part_state \<Rightarrow> part_state option"
  and part_name :: "cnt_t \<Rightarrow> ast_name \<Rightarrow> part_state \<Rightarrow> part_state option" where
  "part_rep chunk (Name_rep mult d) s = part_rep_loop chunk d (\<lambda>s. part_data chunk d s) mult s"
| "part_data chunk (Unit nu) s = part_unit chunk nu s"
| "part_data chunk (Sub na) s = part_name chunk na s"
| "part_name chunk (Name reps) s = foldO (\<lambda>r s. part_rep chunk r s) reps s"

definition get_partition :: "ast_name \<Rightarrow> cnt_t \<Rightarrow> ast_name list option" where
  "get_partition obj chunk =
     Option.bind (part_name chunk obj \<lparr>ps_out = [], ps_reps = [], ps_cum = 0\<rparr>) (\<lambda>s.
       if ps_cum s \<noteq> 0 then Some (ps_out s @ [Name (ps_reps s)]) else Some (ps_out s))"

section \<open>Slices of a vector\<close>

lemma range_slice:
  assumes ok: "range_ok r" and step: "rg_step r \<noteq> 0" and ab: "a < b" "b \<le> unat (range_size r)"
    and r': "rg_start r' = range_at r (of_nat a)" "rg_step r' = rg_step r"
    and up: "rg_start r \<le> rg_stop r \<Longrightarrow>
      unat (rg_start r) + unat (rg_step r) * (b - 1) \<le> unat (rg_stop r') \<and>
      unat (rg_stop r') < unat (rg_start r) + unat (rg_step r) * b \<and> unat (rg_stop r') \<le> unat (rg_stop r)"
    and down: "\<not> rg_start r \<le> rg_stop r \<Longrightarrow>
      unat (rg_stop r') + unat (rg_step r) * (b - 1) \<le> unat (rg_start r) \<and>
      unat (rg_start r) < unat (rg_stop r') + unat (rg_step r) * b \<and> unat (rg_stop r) \<le> unat (rg_stop r')"
  shows "range_ok r'" and "unat (range_size r') = b - a"
    and "i < b - a \<Longrightarrow> range_at r' (of_nat i) = range_at r (of_nat (a + i))"
proof -
  let ?s = "unat (rg_step r)"
  have s_pos: "0 < ?s" using step by (simp add: unat_gt_0)
  have a: "a < unat (range_size r)" using ab by simp
  note at_a = range_at_unat [OF ok step a]
  define p q t where "p = ?s * a" and "q = ?s * (b - 1 - a)" and "t = ?s * (b - a)"
  have "b - a = Suc (b - 1 - a)" using ab by simp
  then have t: "t = q + ?s" by (simp add: q_def t_def)
  have ba: "?s * (b - 1) = p + q" "?s * b = p + t"
    using ab by (simp_all add: p_def q_def t_def flip: distrib_left)
  have start': "unat (rg_start r') = (if rg_start r \<le> rg_stop r then unat (rg_start r) + p
      else unat (rg_start r) - p)" and p_le: "p \<le> range_span r"
    using at_a by (simp_all add: r' p_def)
  have span_bounds: "q \<le> range_span r' \<and> range_span r' < t \<and> range_span r' \<le> range_span r"
  proof (cases "rg_start r \<le> rg_stop r")
    case True
    with up start' p_le have "unat (rg_start r') + q \<le> unat (rg_stop r')"
      "unat (rg_stop r') < unat (rg_start r') + t" "unat (rg_stop r') \<le> unat (rg_stop r)"
      "unat (rg_start r) \<le> unat (rg_start r')"
      unfolding ba by simp_all
    with True show ?thesis by (auto simp: range_span_def word_le_nat_alt)
  next
    case False
    with down start' p_le have "unat (rg_stop r') + q \<le> unat (rg_start r')"
      "unat (rg_start r') < unat (rg_stop r') + t" "unat (rg_stop r) \<le> unat (rg_stop r')"
      "unat (rg_start r') \<le> unat (rg_start r)"
      unfolding ba by (simp_all add: range_span_def) linarith+
    with False t s_pos show ?thesis by (auto simp: range_span_def word_le_nat_alt)
  qed
  then show ok': "range_ok r'" using ok step r' by (simp add: range_ok_def)
  have step': "rg_step r' \<noteq> 0" using r' step by simp
  have "range_span r' div ?s = b - 1 - a"
    using span_bounds \<open>b - a = Suc (b - 1 - a)\<close>
    by (intro div_nat_eqI) (simp_all add: q_def t_def mult.commute)
  then show size': "unat (range_size r') = b - a"
    using range_size_unat [OF ok' step'] r' ab by simp
  assume i: "i < b - a"
  then have i': "i < unat (range_size r')" "a + i < unat (range_size r)" using size' ab by auto
  have "unat (range_at r' (of_nat i)) = unat (range_at r (of_nat (a + i)))"
  proof (cases "rg_start r \<le> rg_stop r")
    case True
    then have "rg_start r' \<le> rg_stop r'"
      using up start' unfolding ba by (simp add: word_le_nat_alt)
    with True range_at_unat(2) [OF ok' step' i'(1)] range_at_unat(2) [OF ok step i'(2)] at_a(2) r'
    show ?thesis by (simp add: distrib_left)
  next
    case False
    then have "rg_stop r' \<le> rg_start r'"
      using down start' unfolding ba by (simp add: word_le_nat_alt) linarith
    moreover have "i = 0" if "rg_start r' \<le> rg_stop r'"
    proof -
      have "range_span r' = 0" using that calculation by (simp add: range_span_def)
      then have "unat (range_size r') = 1" using range_size_unat [OF ok' step'] by simp
      with i' show ?thesis by simp
    qed
    ultimately show ?thesis
      using False range_at_unat(2) [OF ok' step' i'(1)] range_at_unat(2) [OF ok step i'(2)] at_a r'
      by (auto simp: distrib_left)
  qed
  then show "range_at r' (of_nat i) = range_at r (of_nat (a + i))" by (simp add: word_unat_eq_iff)
qed

text \<open>The bits of a vector from index \<open>a\<close> up to \<open>b\<close>.\<close>

definition slice_bits :: "name_space \<Rightarrow> name_unit \<Rightarrow> nat \<Rightarrow> nat \<Rightarrow> string list" where
  "slice_bits ns nu a b =
     map (\<lambda>i. bit_string ns (nu_base nu) (range_at (nu_range nu) (of_nat i))) [a..<b]"

lemma slice_bits_append:
  "a \<le> b \<Longrightarrow> b \<le> c \<Longrightarrow> slice_bits ns nu a b @ slice_bits ns nu b c = slice_bits ns nu a c"
  using upt_add_eq_append [of a b "c - b"] by (simp add: slice_bits_def flip: map_append)

lemma length_slice_bits [simp]: "length (slice_bits ns nu a b) = b - a"
  by (simp add: slice_bits_def)

lemma slice_expand:
  assumes "unat (range_size r') = b - a" and "rg_step r' \<noteq> 0"
    and "\<And>i. i < b - a \<Longrightarrow> range_at r' (of_nat i) = range_at (nu_range nu) (of_nat (a + i))"
  shows "unit_expand ns \<lparr>nu_base = nu_base nu, nu_range = r'\<rparr> = slice_bits ns nu a b"
  using assms
  by (auto simp: unit_expand_def unit_is_vector_def range_empty_def slice_bits_def intro!: nth_equalityI)

text \<open>The two ranges the code builds: a chunk inside the vector, and its residue.\<close>

lemma chunk_expand:
  assumes "range_ok (nu_range nu)" and "rg_step (nu_range nu) \<noteq> 0"
    and "a < b" and "b \<le> unat (range_size (nu_range nu))"
  shows "unit_expand ns \<lparr>nu_base = nu_base nu, nu_range =
      \<lparr>rg_start = range_at (nu_range nu) (of_nat a), rg_stop = range_at (nu_range nu) (of_nat b - 1),
       rg_step = rg_step (nu_range nu)\<rparr>\<rparr> = slice_bits ns nu a b"
    and "range_ok \<lparr>rg_start = range_at (nu_range nu) (of_nat a), rg_stop = range_at (nu_range nu) (of_nat b - 1),
       rg_step = rg_step (nu_range nu)\<rparr>"
proof -
  let ?r = "nu_range nu"
  have b: "b - 1 < unat (range_size ?r)" using assms(3,4) by simp
  have w: "(of_nat b - 1 :: cnt_t) = of_nat (b - 1)" using assms(3) by (simp add: of_nat_diff)
  have s_pos: "0 < unat (rg_step ?r)" using assms(2) by (simp add: unat_gt_0)
  have step: "unat (rg_step ?r) * b = unat (rg_step ?r) * (b - 1) + unat (rg_step ?r)"
    using assms(3) by (cases b) simp_all
  note at = range_at_unat [OF assms(1,2) b]
  have up: "unat (rg_start ?r) + unat (rg_step ?r) * (b - 1) \<le> unat (range_at ?r (of_nat b - 1)) \<and>
      unat (range_at ?r (of_nat b - 1)) < unat (rg_start ?r) + unat (rg_step ?r) * b \<and>
      unat (range_at ?r (of_nat b - 1)) \<le> unat (rg_stop ?r)" if "rg_start ?r \<le> rg_stop ?r"
    using at that step s_pos unfolding w by (simp add: range_span_def word_le_nat_alt)
  have down: "unat (range_at ?r (of_nat b - 1)) + unat (rg_step ?r) * (b - 1) \<le> unat (rg_start ?r) \<and>
      unat (rg_start ?r) < unat (range_at ?r (of_nat b - 1)) + unat (rg_step ?r) * b \<and>
      unat (rg_stop ?r) \<le> unat (range_at ?r (of_nat b - 1))" if "\<not> rg_start ?r \<le> rg_stop ?r"
    using at that step s_pos unfolding w by (simp add: range_span_def word_le_nat_alt)
  note slice = range_slice [OF assms, of "\<lparr>rg_start = range_at ?r (of_nat a),
        rg_stop = range_at ?r (of_nat b - 1), rg_step = rg_step ?r\<rparr>"]
  show "unit_expand ns \<lparr>nu_base = nu_base nu, nu_range =
      \<lparr>rg_start = range_at ?r (of_nat a), rg_stop = range_at ?r (of_nat b - 1),
       rg_step = rg_step ?r\<rparr>\<rparr> = slice_bits ns nu a b"
    using slice up down assms(2) by (intro slice_expand) auto
  show "range_ok \<lparr>rg_start = range_at ?r (of_nat a), rg_stop = range_at ?r (of_nat b - 1),
       rg_step = rg_step ?r\<rparr>"
    using slice(1) up down by simp
qed

lemma residue_expand:
  assumes "range_ok (nu_range nu)" and "rg_step (nu_range nu) \<noteq> 0"
    and "a < unat (range_size (nu_range nu))"
  shows "unit_expand ns \<lparr>nu_base = nu_base nu, nu_range =
      \<lparr>rg_start = range_at (nu_range nu) (of_nat a), rg_stop = rg_stop (nu_range nu),
       rg_step = rg_step (nu_range nu)\<rparr>\<rparr> = slice_bits ns nu a (unat (range_size (nu_range nu)))"
    and "range_ok \<lparr>rg_start = range_at (nu_range nu) (of_nat a), rg_stop = rg_stop (nu_range nu),
       rg_step = rg_step (nu_range nu)\<rparr>"
proof -
  let ?r = "nu_range nu" and ?b = "unat (range_size (nu_range nu))"
  let ?s = "unat (rg_step (nu_range nu))"
  have s_pos: "0 < ?s" using assms(2) by (simp add: unat_gt_0)
  have b: "?b - 1 = range_span ?r div ?s" "?b = Suc (range_span ?r div ?s)"
    using range_size_unat [OF assms(1,2)] by simp_all
  have lo: "?s * (?b - 1) \<le> range_span ?r" by (simp only: b(1) times_div_less_eq_dividend)
  have hi: "range_span ?r < ?s * ?b"
    unfolding b(2) using dividend_less_times_div [OF s_pos, of "range_span ?r"] by simp
  have up: "unat (rg_start ?r) + ?s * (?b - 1) \<le> unat (rg_stop ?r) \<and>
      unat (rg_stop ?r) < unat (rg_start ?r) + ?s * ?b" if "rg_start ?r \<le> rg_stop ?r"
    using lo hi that unfolding range_span_def word_le_nat_alt by (auto simp del: mult_Suc_right)
  have down: "unat (rg_stop ?r) + ?s * (?b - 1) \<le> unat (rg_start ?r) \<and>
      unat (rg_start ?r) < unat (rg_stop ?r) + ?s * ?b" if "\<not> rg_start ?r \<le> rg_stop ?r"
    using lo hi that unfolding range_span_def word_le_nat_alt by (auto simp del: mult_Suc_right)
  note slice = range_slice [OF assms(1,2,3) order_refl, of "\<lparr>rg_start = range_at ?r (of_nat a),
        rg_stop = rg_stop ?r, rg_step = rg_step ?r\<rparr>"]
  show "unit_expand ns \<lparr>nu_base = nu_base nu, nu_range =
      \<lparr>rg_start = range_at ?r (of_nat a), rg_stop = rg_stop ?r, rg_step = rg_step ?r\<rparr>\<rparr>
    = slice_bits ns nu a (unat (range_size ?r))"
    using slice up down assms(2) by (intro slice_expand) auto
  show "range_ok \<lparr>rg_start = range_at ?r (of_nat a), rg_stop = rg_stop ?r, rg_step = rg_step ?r\<rparr>"
    using slice(1) up down by simp
qed

section \<open>The state of the partition\<close>

definition reps_bits :: "name_space \<Rightarrow> name_rep list \<Rightarrow> string list" where
  "reps_bits ns reps = concat (map (rep_expand ns) reps)"

definition part_bits :: "name_space \<Rightarrow> part_state \<Rightarrow> string list" where
  "part_bits ns s = concat (map (name_expand ns) (ps_out s)) @ reps_bits ns (ps_reps s)"

text \<open>Finished names have \<open>chunk\<close> bits; the current one has fewer, and \<open>cum_size\<close> counts them.\<close>

definition part_full :: "name_space \<Rightarrow> cnt_t \<Rightarrow> part_state \<Rightarrow> bool" where
  "part_full ns chunk s \<longleftrightarrow>
     (\<forall>na\<in>set (ps_out s). length (name_expand ns na) = unat chunk \<and> name_ok na) \<and>
     units_ok (concat (map rep_units (ps_reps s)))"

definition part_inv :: "name_space \<Rightarrow> cnt_t \<Rightarrow> part_state \<Rightarrow> bool" where
  "part_inv ns chunk s \<longleftrightarrow> part_full ns chunk s \<and>
     length (reps_bits ns (ps_reps s)) = unat (ps_cum s) \<and> ps_cum s < chunk"

lemma reps_bits_simps [simp]:
  "reps_bits ns [] = []" "reps_bits ns (rs @ [r]) = reps_bits ns rs @ rep_expand ns r"
  by (simp_all add: reps_bits_def)

lemma part_state_simps [simp]:
  "ps_out (part_emit s) = ps_out s @ [Name (ps_reps s)]" "ps_reps (part_emit s) = []"
  "ps_out (part_push r s) = ps_out s" "ps_reps (part_push r s) = ps_reps s @ [r]"
  "ps_cum (part_push r s) = ps_cum s" "ps_cum (part_emit s) = ps_cum s"
  by (simp_all add: part_emit_def part_push_def)

lemma part_bits_simps [simp]:
  "part_bits ns (part_push r s) = part_bits ns s @ rep_expand ns r"
  "part_bits ns (part_emit s) = part_bits ns s" "part_bits ns (s\<lparr>ps_cum := c\<rparr>) = part_bits ns s"
  by (simp_all add: part_bits_def reps_bits_def [of ns "ps_reps s", symmetric])

lemma part_full_simps [simp]:
  "part_full ns chunk (part_push r s) \<longleftrightarrow> part_full ns chunk s \<and> units_ok (rep_units r)"
  "part_full ns chunk (s\<lparr>ps_cum := c\<rparr>) = part_full ns chunk s"
  "part_full ns chunk (part_emit s) \<longleftrightarrow>
     part_full ns chunk s \<and> length (reps_bits ns (ps_reps s)) = unat chunk"
  by (auto simp: part_full_def reps_bits_def name_ok_def)

text \<open>Vectors.  Before each round the current name lacks \<open>stop_idx - start_idx\<close> bits.\<close>

lemma rep_expand_1 [simp]: "rep_expand ns (Name_rep 1 d) = data_expand ns d"
  by simp

lemma part_unit_loop_spec:
  assumes "range_ok (nu_range nu)" and "rg_step (nu_range nu) \<noteq> 0"
    and "chunk \<noteq> 0" and "unat (range_size (nu_range nu)) + unat chunk < 2 ^ 64"
    and "part_full ns chunk s" and "start < stop"
    and "start \<le> unat (range_size (nu_range nu))" and "stop \<le> unat (range_size (nu_range nu)) + unat chunk"
    and "length (reps_bits ns (ps_reps s)) + (stop - start) = unat chunk"
    and "unat (range_size (nu_range nu)) < stop \<Longrightarrow> ps_reps s = []"
  shows "\<exists>start' s'. part_unit_loop chunk nu (of_nat start) (of_nat stop) s = Some (of_nat start', s') \<and>
    start \<le> start' \<and> start' \<le> unat (range_size (nu_range nu)) \<and>
    unat (range_size (nu_range nu)) < start' + unat chunk \<and> ps_reps s' = [] \<and>
    part_full ns chunk s' \<and> part_bits ns s' = part_bits ns s @ slice_bits ns nu start start'"
  using assms
proof (induction "unat (range_size (nu_range nu)) + unat chunk - stop" arbitrary: start stop s
    rule: less_induct)
  case less
  let ?n = "unat (range_size (nu_range nu))"
  have stop: "unat (of_nat stop :: cnt_t) = stop"
    using less.prems(4,8) by (simp add: unat_of_nat)
  have le: "(of_nat stop :: cnt_t) \<le> range_size (nu_range nu) \<longleftrightarrow> stop \<le> ?n"
    by (simp add: word_le_nat_alt stop)
  show ?case
  proof (cases "stop \<le> ?n")
    case False
    then have "ps_reps s = []" "?n < stop" using less.prems(10) by simp_all
    moreover have "?n < start + unat chunk" using less.prems(6,9) \<open>?n < stop\<close> by linarith
    ultimately show ?thesis
      using less.prems False le
      by (subst part_unit_loop.simps) (auto simp: slice_bits_def intro!: exI [of _ start])
  next
    case True
    define s1 where "s1 = part_emit (part_push (Name_rep 1 (Unit \<lparr>nu_base = nu_base nu, nu_range =
        \<lparr>rg_start = range_at (nu_range nu) (of_nat start), rg_stop = range_at (nu_range nu) (of_nat stop - 1),
         rg_step = rg_step (nu_range nu)\<rparr>\<rparr>)) s)"
    have chunk_pos: "0 < unat chunk" using less.prems(3) by (simp add: unat_gt_0)
    have slice: "unit_expand ns \<lparr>nu_base = nu_base nu, nu_range =
        \<lparr>rg_start = range_at (nu_range nu) (of_nat start), rg_stop = range_at (nu_range nu) (of_nat stop - 1),
         rg_step = rg_step (nu_range nu)\<rparr>\<rparr> = slice_bits ns nu start stop"
      by (rule chunk_expand(1) [OF less.prems(1,2,6) True])
    note ok = chunk_expand(2) [OF less.prems(1,2,6) True]
    have s1: "part_full ns chunk s1" "ps_reps s1 = []"
      "part_bits ns s1 = part_bits ns s @ slice_bits ns nu start stop"
      using less.prems(5,6,9) slice ok by (simp_all add: s1_def del: rep_expand.simps)
    have dec: "?n + unat chunk - (stop + unat chunk) < ?n + unat chunk - stop"
      using True chunk_pos by linarith
    have prems': "stop < stop + unat chunk" "stop \<le> ?n" "stop + unat chunk \<le> ?n + unat chunk"
      "length (reps_bits ns (ps_reps s1)) + (stop + unat chunk - stop) = unat chunk" "ps_reps s1 = []"
      using chunk_pos True s1(2) by simp_all
    have next_stop: "(of_nat stop + chunk :: cnt_t) = of_nat (stop + unat chunk)" by simp
    obtain start' s' where ih: "part_unit_loop chunk nu (of_nat stop) (of_nat (stop + unat chunk)) s1
        = Some (of_nat start', s')" and s': "stop \<le> start'" "start' \<le> ?n" "?n < start' + unat chunk"
      "ps_reps s' = []" "part_full ns chunk s'"
      "part_bits ns s' = part_bits ns s1 @ slice_bits ns nu stop start'"
      using less.hyps [OF dec less.prems(1-4) s1(1) prems'] by blast
    have "part_unit_loop chunk nu (of_nat start) (of_nat stop) s = Some (of_nat start', s')"
      using True le ih [folded next_stop] by (subst part_unit_loop.simps) (simp flip: s1_def)
    moreover have "part_bits ns s' = part_bits ns s @ slice_bits ns nu start start'"
      using s'(1,6) s1(3) less.prems(6) by (simp add: slice_bits_append)
    moreover have "start \<le> start'" using s'(1) less.prems(6) by linarith
    ultimately show ?thesis using s'(2-5) by blast
  qed
qed

text \<open>
  A unit is cut up only when it does not fit into the current name; then at least one name is
  finished, which is why the code may set \<^verbatim>\<open>cum_size\<close> without regard to its old value.
\<close>

lemma part_unit_spec:
  assumes "range_ok (nu_range nu)" and "part_inv ns chunk s"
    and "unat chunk - unat (ps_cum s) < length (unit_expand ns nu)"
    and "unat (range_size (nu_range nu)) + unat chunk < 2 ^ 64"
  shows "\<exists>s'. part_unit chunk nu s = Some s' \<and> part_inv ns chunk s' \<and>
    part_bits ns s' = part_bits ns s @ unit_expand ns nu"
proof -
  let ?n = "unat (range_size (nu_range nu))"
  have inv: "part_full ns chunk s" "length (reps_bits ns (ps_reps s)) = unat (ps_cum s)"
    "unat (ps_cum s) < unat chunk"
    using assms(2) by (auto simp: part_inv_def word_less_nat_alt)
  have chunk: "chunk \<noteq> 0" using inv(3) by auto
  have step: "rg_step (nu_range nu) \<noteq> 0"
  proof
    assume "rg_step (nu_range nu) = 0"
    then have "length (unit_expand ns nu) = 1"
      by (simp add: unit_expand_def unit_is_vector_def range_empty_def)
    with assms(3) inv(3) show False by linarith
  qed
  have exp: "unit_expand ns nu = slice_bits ns nu 0 ?n"
    using step by (simp add: unit_expand_def unit_is_vector_def range_empty_def slice_bits_def)
  have pos: "range_size (nu_range nu) > 0"
    using range_size_pos [OF assms(1) step] by (simp add: word_gt_0)
  have first_stop: "chunk - ps_cum s = of_nat (unat chunk - unat (ps_cum s))"
    using inv(3) by (simp add: of_nat_diff)
  obtain start' s1 where loop: "part_unit_loop chunk nu (of_nat 0) (of_nat (unat chunk - unat (ps_cum s))) s
      = Some (of_nat start', s1)" and s1: "start' \<le> ?n" "?n < start' + unat chunk" "ps_reps s1 = []"
    "part_full ns chunk s1" "part_bits ns s1 = part_bits ns s @ slice_bits ns nu 0 start'"
    using part_unit_loop_spec [OF assms(1) step chunk assms(4) inv(1), of 0 "unat chunk - unat (ps_cum s)"]
      inv assms(3) exp by auto
  have start: "unat (of_nat start' :: cnt_t) = start'" using s1(1) by (rule unat_of_nat_below)
  show ?thesis
  proof (cases "start' < ?n")
    case True
    let ?s2 = "(part_push (Name_rep 1 (Unit \<lparr>nu_base = nu_base nu, nu_range =
        \<lparr>rg_start = range_at (nu_range nu) (of_nat start'), rg_stop = rg_stop (nu_range nu),
         rg_step = rg_step (nu_range nu)\<rparr>\<rparr>)) s1)\<lparr>ps_cum := range_size (nu_range nu) - of_nat start'\<rparr>"
    have "part_unit chunk nu s = Some ?s2"
      using loop pos True start by (simp add: part_unit_def first_stop word_less_nat_alt Let_def)
    moreover have cum: "unat (range_size (nu_range nu) - of_nat start') = ?n - start'"
      using True start by (simp add: unat_sub word_le_nat_alt)
    moreover have "part_inv ns chunk ?s2"
      using s1 cum residue_expand(1) [OF assms(1) step True, of ns] residue_expand(2) [OF assms(1) step True]
      by (simp add: part_inv_def word_less_nat_alt reps_bits_def)
    moreover have "part_bits ns ?s2 = part_bits ns s @ unit_expand ns nu"
      using s1(1,5) residue_expand(1) [OF assms(1) step True, of ns]
      by (simp add: exp slice_bits_append del: rep_expand.simps)
    ultimately show ?thesis by blast
  next
    case False
    then have all: "start' = ?n" using s1(1) by simp
    have "part_unit chunk nu s = Some (s1\<lparr>ps_cum := 0\<rparr>)"
      using loop pos False start by (simp add: part_unit_def first_stop word_less_nat_alt Let_def)
    moreover have "part_inv ns chunk (s1\<lparr>ps_cum := 0\<rparr>)"
      using s1 chunk by (simp add: part_inv_def word_gt_0)
    ultimately show ?thesis using s1(5) exp all by auto
  qed
qed

section \<open>Repetitions\<close>

lemma length_rep_expand: "length (rep_expand ns (Name_rep m d)) = unat m * length (data_expand ns d)"
  by simp

lemma part_flush_spec:
  assumes "part_full ns chunk s" and "length (reps_bits ns (ps_reps s)) = unat (ps_cum s)"
    and "ps_cum s \<le> chunk" and "chunk \<noteq> 0"
  shows "part_inv ns chunk (part_flush chunk s) \<and> part_bits ns (part_flush chunk s) = part_bits ns s"
  using assms by (auto simp: part_flush_def part_inv_def word_gt_0 order_less_le)

lemma part_flush_inv: "part_inv ns chunk s \<Longrightarrow> part_flush chunk s = s"
  by (auto simp: part_flush_def part_inv_def)

lemma part_copies_spec:
  assumes "part_inv ns chunk s" and "unat (data_size d) = length (data_expand ns d)"
    and "unat k * length (data_expand ns d) \<le> unat chunk - unat (ps_cum s)"
    and "units_ok (data_units d)"
  defines "s' \<equiv> part_copies d k s"
  shows "part_full ns chunk s'" and "length (reps_bits ns (ps_reps s')) = unat (ps_cum s')"
    and "unat (ps_cum s') = unat (ps_cum s) + unat k * length (data_expand ns d)"
    and "ps_cum s' \<le> chunk"
    and "part_bits ns s' = part_bits ns s @ concat (replicate (unat k) (data_expand ns d))"
proof -
  let ?n = "length (data_expand ns d)"
  have inv: "part_full ns chunk s" "length (reps_bits ns (ps_reps s)) = unat (ps_cum s)"
    "unat (ps_cum s) < unat chunk"
    using assms(1) by (auto simp: part_inv_def word_less_nat_alt)
  have le: "unat (ps_cum s) + unat k * ?n \<le> unat chunk" using assms(3) inv(3) by linarith
  have "unat chunk < 2 ^ 64" using unat_less_length [of chunk] by simp
  then have "unat k * ?n < 2 ^ 64" "unat (ps_cum s) + unat k * ?n < 2 ^ 64" using le by simp_all
  then show cum: "unat (ps_cum s') = unat (ps_cum s) + unat k * ?n"
    using assms(2)
    by (simp add: s'_def part_copies_def unat_add_lem [THEN iffD1] unat_mult_lem [THEN iffD1])
  then show "ps_cum s' \<le> chunk" using le by (simp add: word_le_nat_alt)
  show "part_full ns chunk s'" "length (reps_bits ns (ps_reps s')) = unat (ps_cum s')"
    using inv(1,2) cum assms(4) by (simp_all add: s'_def part_copies_def)
  show "part_bits ns s' = part_bits ns s @ concat (replicate (unat k) (data_expand ns d))"
    by (simp add: s'_def part_copies_def)
qed

lemma part_rep_body_spec:
  assumes f: "\<And>s. part_inv ns chunk s \<Longrightarrow>
      unat chunk - unat (ps_cum s) < length (data_expand ns d) \<Longrightarrow>
      \<exists>s'. f s = Some s' \<and> part_inv ns chunk s' \<and> part_bits ns s' = part_bits ns s @ data_expand ns d"
    and size: "unat (data_size d) = length (data_expand ns d)" "0 < length (data_expand ns d)"
    and ok: "units_ok (data_units d)"
    and small: "unat chunk < 2 ^ 63" "length (data_expand ns d) < 2 ^ 63"
    and s: "part_inv ns chunk s" and remain: "remain \<noteq> 0"
  shows "\<exists>remain' s'. part_rep_body chunk d f remain s = Some (remain', s') \<and>
    unat remain' < unat remain \<and> part_inv ns chunk s' \<and>
    part_bits ns s' = part_bits ns s @ concat (replicate (unat remain - unat remain') (data_expand ns d))"
proof -
  let ?D = "data_expand ns d" and ?x = "chunk - ps_cum s" and ?n = "length (data_expand ns d)"
  have cum: "unat (ps_cum s) < unat chunk"
    using s by (auto simp: part_inv_def word_less_nat_alt)
  then have chunk: "chunk \<noteq> 0" by auto
  have x: "unat ?x = unat chunk - unat (ps_cum s)"
    using cum by (simp add: unat_sub word_le_nat_alt)
  have n0: "data_size d \<noteq> 0" using size by auto
  have pos: "0 < unat remain" using remain by (simp add: unat_gt_0)
  obtain m where div: "std_div ?x (data_size d) = Inr (m, int (unat ?x mod ?n))"
    and m: "unat m = unat ?x div ?n"
  proof -
    have "unat ?x < 2 ^ 63" "unat (data_size d) < 2 ^ 63" using small size x by linarith+
    then show thesis using std_div_small [of ?x "data_size d"] n0 size(1) that by auto
  qed
  have split: "unat ?x = unat m * ?n + unat ?x mod ?n" by (simp add: m)
  then have fits: "unat k * ?n \<le> unat chunk - unat (ps_cum s)" if "unat k \<le> unat m" for k :: cnt_t
    using that x mult_le_mono1 [OF that, of ?n] by linarith
  show ?thesis
  proof (cases "remain \<le> m")
    case True
    then have "unat remain \<le> unat m" by (simp add: word_le_nat_alt)
    note c = part_copies_spec [OF s size(1) fits [OF this] ok]
    have "part_rep_body chunk d f remain s = Some (0, part_flush chunk (part_copies d remain s))"
      using True div by (simp add: part_rep_body_def Let_def)
    with part_flush_spec [OF c(1,2,4) chunk] c(5) pos show ?thesis by simp
  next
    case False
    then have lt: "unat m < unat remain" by (simp add: word_le_nat_alt)
    define s1 where "s1 = (if m > 0 then part_copies d m s else s)"
    have c: "part_full ns chunk s1" "length (reps_bits ns (ps_reps s1)) = unat (ps_cum s1)"
      "unat (ps_cum s1) = unat (ps_cum s) + unat m * ?n" "ps_cum s1 \<le> chunk"
      "part_bits ns s1 = part_bits ns s @ concat (replicate (unat m) ?D)"
      using part_copies_spec [OF s size(1) fits [OF order_refl] ok] s
      by (auto simp: s1_def word_gt_0 part_inv_def)
    have body: "part_rep_body chunk d f remain s =
        (if unat ?x mod ?n \<noteq> 0
         then Option.bind (f s1) (\<lambda>s2. Some (remain - m - 1, part_flush chunk s2))
         else Some (remain - m, part_flush chunk s1))"
      unfolding part_rep_body_def Let_def div sum.case prod.case s1_def [symmetric]
      using False by simp
    have rem1: "unat (remain - m) = unat remain - unat m"
      using False by (simp add: unat_sub word_le_nat_alt)
    show ?thesis
    proof (cases "unat ?x mod ?n = 0")
      case True
      then have "unat m \<noteq> 0" using split x cum by (cases "unat m") auto
      then have "unat (remain - m) < unat remain" using rem1 lt by linarith
      moreover have "unat remain - unat (remain - m) = unat m" using rem1 lt by linarith
      moreover have "part_rep_body chunk d f remain s = Some (remain - m, part_flush chunk s1)"
        using body True by simp
      ultimately show ?thesis using part_flush_spec [OF c(1,2,4) chunk] c(5) by simp
    next
      case nz: False
      have gap: "unat chunk - unat (ps_cum s1) = unat ?x mod ?n" using c(3) x split cum by linarith
      have "part_inv ns chunk s1"
        using c nz gap by (auto simp: part_inv_def word_less_nat_alt)
      moreover have "unat chunk - unat (ps_cum s1) < ?n" using gap size(2) by simp
      ultimately obtain s2 where s2: "f s1 = Some s2" "part_inv ns chunk s2"
        "part_bits ns s2 = part_bits ns s1 @ ?D"
        using f [of s1] by auto
      have "1 \<le> remain - m" using rem1 lt by (simp add: word_le_nat_alt)
      then have "unat (remain - m - 1) = unat remain - Suc (unat m)"
        using rem1 by (simp add: unat_sub)
      then have "unat (remain - m - 1) < unat remain"
        "unat remain - unat (remain - m - 1) = Suc (unat m)"
        using lt by linarith+
      moreover have "part_rep_body chunk d f remain s = Some (remain - m - 1, s2)"
        using body nz s2(1) part_flush_inv [OF s2(2)] by simp
      moreover have "part_bits ns s2 = part_bits ns s @ concat (replicate (Suc (unat m)) ?D)"
        using s2(3) c(5) concat_append [of "replicate (unat m) ?D" "[?D]"]
        by (simp add: replicate_append_same)
      ultimately show ?thesis using s2(2) by auto
    qed
  qed
qed

lemma part_rep_loop_spec:
  assumes f: "\<And>s. part_inv ns chunk s \<Longrightarrow>
      unat chunk - unat (ps_cum s) < length (data_expand ns d) \<Longrightarrow>
      \<exists>s'. f s = Some s' \<and> part_inv ns chunk s' \<and> part_bits ns s' = part_bits ns s @ data_expand ns d"
    and size: "unat (data_size d) = length (data_expand ns d)" "0 < length (data_expand ns d)"
    and ok: "units_ok (data_units d)"
    and small: "unat chunk < 2 ^ 63" "length (data_expand ns d) < 2 ^ 63"
    and inv: "part_inv ns chunk s"
  shows "\<exists>s'. part_rep_loop chunk d f remain s = Some s' \<and> part_inv ns chunk s' \<and>
    part_bits ns s' = part_bits ns s @ concat (replicate (unat remain) (data_expand ns d))"
  using inv
proof (induction "unat remain" arbitrary: remain s rule: less_induct)
  case less
  show ?case
  proof (cases "remain = 0")
    case True
    with less.prems show ?thesis by (subst part_rep_loop.simps) simp
  next
    case False
    obtain remain' s1 where b: "part_rep_body chunk d f remain s = Some (remain', s1)"
      "unat remain' < unat remain" "part_inv ns chunk s1"
      "part_bits ns s1 = part_bits ns s @ concat (replicate (unat remain - unat remain') (data_expand ns d))"
      using part_rep_body_spec [OF f size ok small less.prems False] by blast
    obtain s' where s': "part_rep_loop chunk d f remain' s1 = Some s'" "part_inv ns chunk s'"
      "part_bits ns s' = part_bits ns s1 @ concat (replicate (unat remain') (data_expand ns d))"
      using less.hyps [OF b(2,3)] by blast
    have "part_rep_loop chunk d f remain s = Some s'"
      using False b(1) s'(1) by (subst part_rep_loop.simps) (simp add: word_gt_0)
    moreover have "concat (replicate (unat remain - unat remain') (data_expand ns d)) @
        concat (replicate (unat remain') (data_expand ns d))
        = concat (replicate (unat remain) (data_expand ns d))"
      using b(2) by (simp flip: concat_append replicate_add)
    ultimately show ?thesis using s'(2,3) b(4) by auto
  qed
qed

section \<open>Whole names\<close>

lemma printable_expand_pos:
  "rep_printable r \<Longrightarrow> 0 < length (rep_expand ns r)"
  "data_printable d \<Longrightarrow> 0 < length (data_expand ns d)"
  "name_printable na \<Longrightarrow> 0 < length (name_expand ns na)"
proof (induction r and d and na rule: rep_size_data_size_name_size.induct)
  case (2 nu)
  then have "range_ok (nu_range nu)" by (simp add: unit_printable_def range_printable_ok)
  then show ?case using range_size_pos [of "nu_range nu"]
    by (auto simp: unit_expand_def unit_is_vector_def range_empty_def unat_gt_0)
next
  case (4 reps)
  then show ?case by (cases reps) auto
qed (auto simp: unat_gt_0)

lemma data_size_unat:
  assumes "data_printable d" and "length (data_expand ns d) < 2 ^ 64"
  shows "unat (data_size d) = length (data_expand ns d)"
proof -
  have "of_nat (length (data_expand ns d)) = data_size d"
    using assms(1) by (intro expand_length printable_ok)
  then have "unat (data_size d) = unat (of_nat (length (data_expand ns d)) :: cnt_t)" by simp
  also have "\<dots> = length (data_expand ns d)" using assms(2) by (simp add: unat_of_nat)
  finally show ?thesis .
qed

lemma foldO_part:
  assumes "\<forall>r\<in>set reps. \<forall>s. part_inv ns chunk s \<longrightarrow>
      (\<exists>s'. f r s = Some s' \<and> part_inv ns chunk s' \<and> part_bits ns s' = part_bits ns s @ rep_expand ns r)"
    and "part_inv ns chunk s"
  shows "\<exists>s'. foldO f reps s = Some s' \<and> part_inv ns chunk s' \<and>
    part_bits ns s' = part_bits ns s @ concat (map (rep_expand ns) reps)"
  using assms
proof (induction reps arbitrary: s)
  case (Cons r reps)
  then obtain s1 where s1: "f r s = Some s1" "part_inv ns chunk s1"
    "part_bits ns s1 = part_bits ns s @ rep_expand ns r"
    by auto
  obtain s' where "foldO f reps s1 = Some s'" "part_inv ns chunk s'"
    "part_bits ns s' = part_bits ns s1 @ concat (map (rep_expand ns) reps)"
    using Cons.IH [of s1] Cons.prems(1) s1(2) by auto
  with s1 show ?case by auto
qed simp

lemma part_spec:
  assumes chunk: "unat chunk < 2 ^ 63"
  shows "rep_printable r \<Longrightarrow> length (rep_expand ns r) < 2 ^ 63 \<Longrightarrow> part_inv ns chunk s \<Longrightarrow>
      \<exists>s'. part_rep chunk r s = Some s' \<and> part_inv ns chunk s' \<and>
        part_bits ns s' = part_bits ns s @ rep_expand ns r"
    and "data_printable d \<Longrightarrow> length (data_expand ns d) < 2 ^ 63 \<Longrightarrow> part_inv ns chunk s \<Longrightarrow>
      unat chunk - unat (ps_cum s) < length (data_expand ns d) \<Longrightarrow>
      \<exists>s'. part_data chunk d s = Some s' \<and> part_inv ns chunk s' \<and>
        part_bits ns s' = part_bits ns s @ data_expand ns d"
    and "name_printable na \<Longrightarrow> length (name_expand ns na) < 2 ^ 63 \<Longrightarrow> part_inv ns chunk s \<Longrightarrow>
      \<exists>s'. part_name chunk na s = Some s' \<and> part_inv ns chunk s' \<and>
        part_bits ns s' = part_bits ns s @ name_expand ns na"
proof (induction r and d and na arbitrary: s and s and s rule: rep_size_data_size_name_size.induct)
  case (1 mult d)
  have "length (data_expand ns d) \<le> unat mult * length (data_expand ns d)"
    using "1.prems"(1) by (cases "unat mult") (auto simp: unat_eq_0)
  also have "\<dots> < 2 ^ 63" using "1.prems"(2) by simp
  finally have len: "length (data_expand ns d) < 2 ^ 63" .
  have d: "data_printable d" using "1.prems"(1) by simp
  have size: "unat (data_size d) = length (data_expand ns d)"
    using data_size_unat [OF d, of ns] len by simp
  have "\<exists>s'. part_rep_loop chunk d (\<lambda>s. part_data chunk d s) mult s = Some s' \<and> part_inv ns chunk s' \<and>
      part_bits ns s' = part_bits ns s @ concat (replicate (unat mult) (data_expand ns d))"
    by (rule part_rep_loop_spec [OF _ size printable_expand_pos(2) [OF d] printable_ok(2) [OF d] chunk len "1.prems"(3)])
       (rule "1.IH" [OF d len])
  then show ?case by simp
next
  case (2 nu)
  have ok: "range_ok (nu_range nu)" using 2(1) by (simp add: unit_printable_def range_printable_ok)
  have "unat (range_size (nu_range nu)) \<le> length (unit_expand ns nu)"
    by (auto simp: unit_expand_def unit_is_vector_def range_empty_def range_size_def)
  then have "unat (range_size (nu_range nu)) + unat chunk < 2 ^ 64" using 2(2) chunk by simp
  with part_unit_spec [OF ok 2(3)] 2(4) show ?case by simp
next
  case (4 reps)
  have "\<exists>s'. part_rep chunk r s = Some s' \<and> part_inv ns chunk s' \<and>
      part_bits ns s' = part_bits ns s @ rep_expand ns r"
    if r: "r \<in> set reps" and s: "part_inv ns chunk s" for r s
  proof (rule "4.IH" [OF r _ _ s])
    show "rep_printable r" using "4.prems"(1) r by simp
    show "length (rep_expand ns r) < 2 ^ 63"
      using "4.prems"(2) length_le_concat [OF r, of "rep_expand ns"] by simp
  qed
  then show ?case
    using foldO_part [of reps ns chunk "part_rep chunk" s] "4.prems"(3) by simp
qed simp

section \<open>Properties\<close>

lemma get_partition_spec:
  assumes "name_printable na" and "length (name_expand ns na) < 2 ^ 63"
    and "0 < chunk" and "unat chunk < 2 ^ 63"
  shows "\<exists>outs. get_partition na chunk = Some outs \<and>
    concat (map (name_expand ns) outs) = name_expand ns na \<and>
    (\<forall>out\<in>set (butlast outs). length (name_expand ns out) = unat chunk) \<and>
    (outs \<noteq> [] \<longrightarrow> 0 < length (name_expand ns (last outs)) \<and> length (name_expand ns (last outs)) \<le> unat chunk) \<and>
    (unat chunk dvd length (name_expand ns na) \<longrightarrow>
       (\<forall>out\<in>set outs. length (name_expand ns out) = unat chunk)) \<and>
    (\<forall>out\<in>set outs. name_ok out)"
proof -
  let ?s0 = "\<lparr>ps_out = [], ps_reps = [], ps_cum = 0\<rparr>"
  have "part_inv ns chunk ?s0" using assms(3) by (simp add: part_inv_def part_full_def)
  then obtain s where s: "part_name chunk na ?s0 = Some s" "part_inv ns chunk s"
    "part_bits ns s = name_expand ns na"
    using part_spec(3) [OF assms(4) assms(1,2), of ?s0] by (auto simp: part_bits_def)
  have full: "\<forall>out\<in>set (ps_out s). length (name_expand ns out) = unat chunk"
    and ok: "\<forall>out\<in>set (ps_out s). name_ok out" "name_ok (Name (ps_reps s))"
    and cum: "length (reps_bits ns (ps_reps s)) = unat (ps_cum s)" "unat (ps_cum s) < unat chunk"
    using s(2) by (auto simp: part_inv_def part_full_def name_ok_def word_less_nat_alt)
  have name: "name_expand ns (Name (ps_reps s)) = reps_bits ns (ps_reps s)"
    by (simp add: reps_bits_def)
  have chunk: "0 < unat chunk" using assms(3) by (simp add: unat_gt_0 word_gt_0)
  show ?thesis
  proof (cases "ps_cum s = 0")
    case True
    then have "reps_bits ns (ps_reps s) = []" using cum(1) by simp
    moreover have "get_partition na chunk = Some (ps_out s)" using s(1) True by (simp add: get_partition_def)
    ultimately show ?thesis using s(3) full chunk ok
      by (intro exI [of _ "ps_out s"]) (auto simp: part_bits_def dest: in_set_butlastD)
  next
    case False
    have "length (concat (map (name_expand ns) (ps_out s))) = length (ps_out s) * unat chunk"
      using full by (simp add: length_concat o_def sum_list_triv cong: map_cong)
    then have "length (name_expand ns na) = length (ps_out s) * unat chunk + unat (ps_cum s)"
      using s(3) cum(1) unfolding part_bits_def by (metis length_append)
    then have "\<not> unat chunk dvd length (name_expand ns na)"
      using cum(2) False by (simp add: dvd_add_right_iff nat_dvd_not_less unat_gt_0)
    moreover have "get_partition na chunk = Some (ps_out s @ [Name (ps_reps s)])"
      using s(1) False by (simp add: get_partition_def)
    ultimately show ?thesis using s(3) full cum False ok
      by (intro exI [of _ "ps_out s @ [Name (ps_reps s)]"])
         (auto simp: part_bits_def name unat_gt_0 simp del: name_expand.simps)
  qed
qed

text \<open>
  C3.  \<^verbatim>\<open>get_partition\<close> of an accepted name ends and cuts its bits, in order, into names of exactly
  \<open>chunk\<close> bits, except for a last shorter one when \<open>chunk\<close> does not divide the number of bits.
\<close>

theorem get_partition_correct:
  assumes "name_printable na" and "length (name_expand ns na) < 2 ^ 63"
    and "0 < chunk" and "unat chunk < 2 ^ 63"
  shows "\<exists>outs. get_partition na chunk = Some outs \<and>
    concat (map (name_expand ns) outs) = name_expand ns na \<and>
    (\<forall>out\<in>set (butlast outs). length (name_expand ns out) = unat chunk) \<and>
    (outs \<noteq> [] \<longrightarrow> 0 < length (name_expand ns (last outs)) \<and> length (name_expand ns (last outs)) \<le> unat chunk) \<and>
    (unat chunk dvd length (name_expand ns na) \<longrightarrow>
       (\<forall>out\<in>set outs. length (name_expand ns out) = unat chunk))"
  using get_partition_spec [OF assms] by blast

theorem get_partition_correct_witness:
  "\<exists>outs. get_partition example_name 4 = Some outs \<and>
    concat (map (name_expand Cdba) outs) = name_expand Cdba example_name \<and>
    (\<forall>out\<in>set (butlast outs). length (name_expand Cdba out) = 4)"
proof -
  have "length (name_expand Cdba example_name) = 6" by code_simp
  then show ?thesis using get_partition_correct [OF example_printable(1), of Cdba 4] by auto
qed

end
