(* ===== verification/Sorted_Vector.thy ===== *)
theory Sorted_Vector
  imports Prelude "HOL-Library.Multiset"
begin

text \<open>
  The class template \<^verbatim>\<open>sorted_vector<T, Compare>\<close> of
  \<^verbatim>\<open>include/cbag/util/sorted_vector.h\<close>: a vector kept sorted by a comparator.  The vector is a list,
  an iterator is the index it points at (so the end iterator is the length), and a comparator that
  is applied to an element and a key of another type is passed as two functions, one for each
  argument order.  The standard searches return partition points; on a range that is not partitioned
  by the predicate they are undefined in C++, and every use below is on a partitioned one.
\<close>

section \<open>The operations\<close>

definition sv_insert_sorted :: "('a \<Rightarrow> 'a \<Rightarrow> bool) \<Rightarrow> 'a \<Rightarrow> 'a list \<Rightarrow> 'a list" where
  "sv_insert_sorted lt x xs = takeWhile (\<lambda>a. \<not> lt x a) xs @ x # dropWhile (\<lambda>a. \<not> lt x a) xs"

text \<open>The constructors sort the given elements.\<close>

fun sv_construct :: "('a \<Rightarrow> 'a \<Rightarrow> bool) \<Rightarrow> 'a list \<Rightarrow> 'a list" where
  "sv_construct lt [] = []"
| "sv_construct lt (x # xs) = sv_insert_sorted lt x (sv_construct lt xs)"

definition sv_at_front :: "'a list \<Rightarrow> 'a result" where
  "sv_at_front xs = (if xs = [] then Inl Out_of_range else Inr (hd xs))"

definition sv_at_back :: "'a list \<Rightarrow> 'a result" where
  "sv_at_back xs = (if xs = [] then Inl Out_of_range else Inr (last xs))"

definition sv_lower_bound :: "('a \<Rightarrow> 'k \<Rightarrow> bool) \<Rightarrow> 'a list \<Rightarrow> 'k \<Rightarrow> nat" where
  "sv_lower_bound before xs x = length (takeWhile (\<lambda>a. before a x) xs)"

definition sv_upper_bound :: "('k \<Rightarrow> 'a \<Rightarrow> bool) \<Rightarrow> 'a list \<Rightarrow> 'k \<Rightarrow> nat" where
  "sv_upper_bound after xs x = length (takeWhile (\<lambda>a. \<not> after x a) xs)"

definition sv_equal_range ::
  "('a \<Rightarrow> 'k \<Rightarrow> bool) \<Rightarrow> ('k \<Rightarrow> 'a \<Rightarrow> bool) \<Rightarrow> 'a list \<Rightarrow> 'k \<Rightarrow> nat \<times> nat" where
  "sv_equal_range before after xs x = (sv_lower_bound before xs x, sv_upper_bound after xs x)"

definition sv_equal_size ::
  "('a \<Rightarrow> 'k \<Rightarrow> bool) \<Rightarrow> ('k \<Rightarrow> 'a \<Rightarrow> bool) \<Rightarrow> 'a list \<Rightarrow> 'k \<Rightarrow> int" where
  "sv_equal_size before after xs x =
     (let iter_range = sv_equal_range before after xs x
      in int (snd iter_range) - int (fst iter_range))"

definition sv_find ::
  "('a \<Rightarrow> 'k \<Rightarrow> bool) \<Rightarrow> ('k \<Rightarrow> 'a \<Rightarrow> bool) \<Rightarrow> 'a list \<Rightarrow> 'k \<Rightarrow> nat" where
  "sv_find before after xs x =
     (let iter = sv_lower_bound before xs x; e = length xs
      in if iter = e \<or> after x (xs ! iter) then e else iter)"

definition sv_find_exact ::
  "('a \<Rightarrow> 'k \<Rightarrow> bool) \<Rightarrow> ('a \<Rightarrow> 'k \<Rightarrow> bool) \<Rightarrow> 'a list \<Rightarrow> 'k \<Rightarrow> nat" where
  "sv_find_exact before eq xs x =
     (let iter = sv_lower_bound before xs x; e = length xs
      in if iter \<noteq> e \<and> eq (xs ! iter) x then iter else e)"

definition sv_push_back :: "('a \<Rightarrow> 'a \<Rightarrow> bool) \<Rightarrow> 'a list \<Rightarrow> 'a \<Rightarrow> 'a list result" where
  "sv_push_back lt xs item =
     (if xs = [] \<or> \<not> lt item (last xs) then Inr (xs @ [item]) else Inl Invalid_argument)"

text \<open>Insertion at an iterator, without a check (\<^verbatim>\<open>_insert_force\<close> and \<^verbatim>\<open>vector::insert\<close>).\<close>

definition sv_insert_force :: "'a list \<Rightarrow> nat \<Rightarrow> 'a \<Rightarrow> 'a list" where
  "sv_insert_force xs iter item = take iter xs @ item # drop iter xs"

text \<open>The result is the new vector, the returned iterator and the returned flag.\<close>

definition sv_insert_unique :: "('a \<Rightarrow> 'a \<Rightarrow> bool) \<Rightarrow> 'a list \<Rightarrow> 'a \<Rightarrow> 'a list \<times> nat \<times> bool" where
  "sv_insert_unique lt xs item =
     (let iter = sv_lower_bound lt xs item
      in if iter = length xs \<or> lt item (xs ! iter)
         then (sv_insert_force xs iter item, iter, True)
         else (xs, iter, False))"

definition sv_erase :: "'a list \<Rightarrow> nat \<Rightarrow> 'a list" where
  "sv_erase xs pos = take pos xs @ drop (Suc pos) xs"

definition sv_erase_range :: "'a list \<Rightarrow> nat \<Rightarrow> nat \<Rightarrow> 'a list" where
  "sv_erase_range xs first last_it = take first xs @ drop last_it xs"

definition sv_circ_shift :: "'a list \<Rightarrow> nat \<Rightarrow> nat \<Rightarrow> bool \<Rightarrow> 'a list \<times> nat" where
  "sv_circ_shift xs start stop up =
     (if up
      then (take start xs @ xs ! (stop - 1) # take (stop - 1 - start) (drop start xs) @ drop stop xs,
            start)
      else (take start xs @ take (stop - (start + 1)) (drop (start + 1) xs) @ xs ! start # drop stop xs,
            stop - 1))"

section \<open>The comparator contract\<close>

text \<open>
  \<^verbatim>\<open>Compare\<close> has to be a strict weak order.  Everything a sorted vector promises follows from that.
\<close>

locale strict_weak_order =
  fixes lt :: "'a \<Rightarrow> 'a \<Rightarrow> bool"
  assumes irrefl: "\<not> lt x x"
    and trans: "lt x y \<Longrightarrow> lt y z \<Longrightarrow> lt x z"
    and incomp_left: "lt x y \<Longrightarrow> lt x z \<or> lt z y"
begin

lemma asym: "lt x y \<Longrightarrow> \<not> lt y x"
  using irrefl trans by blast

lemma incomp_trans: "\<not> lt x y \<Longrightarrow> \<not> lt y z \<Longrightarrow> \<not> lt x z"
  using incomp_left by blast

lemma sorted_imp_weak: "sorted_wrt lt xs \<Longrightarrow> sorted_wrt (\<lambda>a b. \<not> lt b a) xs"
  by (induction xs) (auto dest: asym)

text \<open>The searched range is partitioned by both predicates the searches use.\<close>

lemma lower_split:
  assumes "sorted_wrt (\<lambda>a b. \<not> lt b a) xs"
  obtains us vs where "xs = us @ vs" and "length us = sv_lower_bound lt xs x"
    and "\<And>a. a \<in> set us \<Longrightarrow> lt a x" and "\<And>a. a \<in> set vs \<Longrightarrow> \<not> lt a x"
proof
  let ?us = "takeWhile (\<lambda>a. lt a x) xs" and ?vs = "dropWhile (\<lambda>a. lt a x) xs"
  show "xs = ?us @ ?vs" by simp
  show "length ?us = sv_lower_bound lt xs x" by (simp add: sv_lower_bound_def)
  show "lt a x" if "a \<in> set ?us" for a using that by (rule set_takeWhileD [THEN conjunct2])
  show "\<not> lt a x" if "a \<in> set ?vs" for a
  proof -
    from that obtain b bs where vs: "?vs = b # bs" by (cases ?vs) auto
    then have b: "\<not> lt b x" by (metis hd_dropWhile list.distinct(1) list.sel(1))
    from assms have "sorted_wrt (\<lambda>a b. \<not> lt b a) (?us @ b # bs)"
      by (simp flip: vs)
    then have "a = b \<or> \<not> lt a b" using that vs by (auto simp: sorted_wrt_append)
    with b show ?thesis using incomp_trans by blast
  qed
qed

lemma insert_sorted_weak:
  assumes "sorted_wrt (\<lambda>a b. \<not> lt b a) xs"
  shows "sorted_wrt (\<lambda>a b. \<not> lt b a) (sv_insert_sorted lt x xs)"
proof -
  let ?us = "takeWhile (\<lambda>a. \<not> lt x a) xs" and ?vs = "dropWhile (\<lambda>a. \<not> lt x a) xs"
  have s: "sorted_wrt (\<lambda>a b. \<not> lt b a) (?us @ ?vs)" using assms by simp
  have "lt x a" if "a \<in> set ?vs" for a
  proof -
    from that obtain b bs where vs: "?vs = b # bs" by (cases ?vs) auto
    then have b: "lt x b" by (metis hd_dropWhile list.distinct(1) list.sel(1))
    from s that vs have "a = b \<or> \<not> lt a b" by (auto simp: sorted_wrt_append)
    with b show ?thesis using incomp_left by blast
  qed
  then have "\<not> lt a x" if "a \<in> set ?vs" for a using that asym by blast
  moreover have "sorted_wrt (\<lambda>a b. \<not> lt b a) ?us" "sorted_wrt (\<lambda>a b. \<not> lt b a) ?vs"
    "\<forall>a\<in>set ?us. \<forall>b\<in>set ?vs. \<not> lt b a"
    using s unfolding sorted_wrt_append by auto
  ultimately show ?thesis
    by (auto simp: sv_insert_sorted_def sorted_wrt_append dest: set_takeWhileD)
qed

lemma construct_sorted: "sorted_wrt (\<lambda>a b. \<not> lt b a) (sv_construct lt xs)"
  by (induction xs) (auto intro: insert_sorted_weak)

lemma mset_insert_sorted: "mset (sv_insert_sorted lt x xs) = add_mset x (mset xs)"
proof -
  have "mset (takeWhile P xs) + mset (dropWhile P xs) = mset xs" for P
    by (simp flip: mset_append)
  then show ?thesis by (simp add: sv_insert_sorted_def)
qed

lemma construct_mset: "mset (sv_construct lt xs) = mset xs"
  by (induction xs) (simp_all add: mset_insert_sorted)

lemma push_back_sorted:
  assumes "sv_push_back lt xs item = Inr ys" and "sorted_wrt (\<lambda>a b. \<not> lt b a) xs"
  shows "ys = xs @ [item] \<and> sorted_wrt (\<lambda>a b. \<not> lt b a) ys"
proof -
  from assms(1) have ys: "ys = xs @ [item]" and c: "xs = [] \<or> \<not> lt item (last xs)"
    by (auto simp: sv_push_back_def split: if_splits)
  have "\<not> lt item a" if a: "a \<in> set xs" for a
  proof -
    from a have ne: "xs = butlast xs @ [last xs]" by (cases xs rule: rev_cases) auto
    from a have "a = last xs \<or> a \<in> set (butlast xs)" by (subst (asm) ne) auto
    moreover have "\<not> lt (last xs) b" if "b \<in> set (butlast xs)" for b
      using assms(2) that by (subst (asm) ne) (auto simp: sorted_wrt_append)
    ultimately show ?thesis using c a incomp_trans by fastforce
  qed
  with assms(2) ys show ?thesis by (simp add: sorted_wrt_append)
qed

text \<open>\<^verbatim>\<open>insert_unique\<close> keeps the vector strictly sorted, hence free of equivalent elements.\<close>

lemma insert_unique_cases:
  assumes s: "sorted_wrt lt xs"
  obtains us vs where "xs = us @ vs"
    and "sv_insert_unique lt xs item = (us @ item # vs, length us, True)"
    and "\<And>a. a \<in> set us \<Longrightarrow> lt a item" and "\<And>a. a \<in> set vs \<Longrightarrow> lt item a"
  | us b vs where "xs = us @ b # vs"
    and "sv_insert_unique lt xs item = (xs, length us, False)"
    and "\<not> lt b item" and "\<not> lt item b"
proof -
  obtain us vs where xs: "xs = us @ vs" and l: "length us = sv_lower_bound lt xs item"
    and us: "\<And>a. a \<in> set us \<Longrightarrow> lt a item" and vs: "\<And>a. a \<in> set vs \<Longrightarrow> \<not> lt a item"
    using lower_split [OF sorted_imp_weak [OF s]] by blast
  show thesis
  proof (cases "vs = [] \<or> lt item (hd vs)")
    case True
    have "lt item a" if "a \<in> set vs" for a
    proof -
      from that obtain b bs where b: "vs = b # bs" by (cases vs) auto
      with True have "lt item b" by auto
      moreover from that b s xs have "a = b \<or> lt b a" by (auto simp: sorted_wrt_append)
      ultimately show ?thesis using trans by blast
    qed
    moreover have "sv_insert_unique lt xs item = (us @ item # vs, length us, True)"
      using True xs l by (cases vs) (auto simp: sv_insert_unique_def sv_insert_force_def Let_def nth_append)
    ultimately show ?thesis using that(1) xs us by blast
  next
    case False
    then obtain b bs where b: "vs = b # bs" and nb: "\<not> lt item b" by (cases vs) auto
    with vs have "\<not> lt b item" by auto
    moreover have "sv_insert_unique lt xs item = (xs, length us, False)"
      using xs b nb l by (auto simp: sv_insert_unique_def Let_def nth_append)
    ultimately show ?thesis using that(2) [of us b bs] xs b nb by blast
  qed
qed

lemma insert_unique_sorted:
  assumes "sorted_wrt lt xs"
  shows "sorted_wrt lt (fst (sv_insert_unique lt xs item))"
  using assms
  by (cases rule: insert_unique_cases [OF assms, of item]) (auto simp: sorted_wrt_append)

lemma find_spec:
  assumes s: "sorted_wrt lt xs"
  shows "sv_find lt lt xs x < length xs \<longleftrightarrow> (\<exists>a\<in>set xs. \<not> lt a x \<and> \<not> lt x a)"
    and "sv_find lt lt xs x < length xs \<Longrightarrow>
         \<not> lt (xs ! sv_find lt lt xs x) x \<and> \<not> lt x (xs ! sv_find lt lt xs x)"
proof -
  obtain us vs where xs: "xs = us @ vs" and l: "length us = sv_lower_bound lt xs x"
    and us: "\<And>a. a \<in> set us \<Longrightarrow> lt a x" and vs: "\<And>a. a \<in> set vs \<Longrightarrow> \<not> lt a x"
    using lower_split [OF sorted_imp_weak [OF s]] by blast
  have eq: "sv_find lt lt xs x
      = (if vs = [] \<or> lt x (hd vs) then length xs else length us)"
    using xs l by (cases vs) (auto simp: sv_find_def Let_def nth_append)
  have hd: "lt x a" if "vs \<noteq> []" "lt x (hd vs)" "a \<in> set vs" for a
    using that s xs trans by (cases vs) (auto simp: sorted_wrt_append)
  show "sv_find lt lt xs x < length xs \<longleftrightarrow> (\<exists>a\<in>set xs. \<not> lt a x \<and> \<not> lt x a)"
    using eq xs us vs hd by (cases vs) auto
  show "\<not> lt (xs ! sv_find lt lt xs x) x \<and> \<not> lt x (xs ! sv_find lt lt xs x)"
    if "sv_find lt lt xs x < length xs"
    using that eq xs vs by (cases vs) (auto simp: nth_append split: if_splits)
qed

end

text \<open>\<^verbatim>\<open>std::less\<close> on a totally ordered type, the default comparator.\<close>

interpretation std_less: strict_weak_order "(<) :: 'a :: linorder \<Rightarrow> 'a \<Rightarrow> bool"
  by unfold_locales auto

section \<open>Properties\<close>

text \<open>
  Under the default comparator, inserting into a vector without duplicates keeps it sorted and
  free of duplicates, adds exactly the new element, reports whether it was new, and returns an
  iterator to it.
\<close>

theorem sv_insert_unique_correct:
  fixes xs :: "'a :: linorder list"
  assumes "sorted_wrt (<) xs"
  shows "case sv_insert_unique (<) xs x of (ys, i, fresh) \<Rightarrow>
           sorted_wrt (<) ys \<and> set ys = insert x (set xs) \<and> (fresh \<longleftrightarrow> x \<notin> set xs)
           \<and> length ys = length xs + (if fresh then 1 else 0) \<and> i < length ys \<and> ys ! i = x"
  using assms std_less.insert_unique_sorted [OF assms, of x]
  by (cases rule: std_less.insert_unique_cases [OF assms, of x])
     (auto simp: nth_append dest: less_asym)

theorem sv_insert_unique_correct_witness:
  "case sv_insert_unique (<) [1, 4, 9 :: nat] 5 of (ys, i, fresh) \<Rightarrow>
     sorted_wrt (<) ys \<and> set ys = insert 5 (set [1, 4, 9]) \<and> (fresh \<longleftrightarrow> 5 \<notin> set [1, 4, 9 :: nat])
     \<and> length ys = length [1, 4, 9 :: nat] + (if fresh then 1 else 0) \<and> i < length ys \<and> ys ! i = 5"
  by (rule sv_insert_unique_correct) simp

end
