(* ===== verification/Sorted_Map.thy ===== *)
theory Sorted_Map
  imports Sorted_Vector
begin

text \<open>
  The class template \<^verbatim>\<open>sorted_map<Key, T>\<close> of \<^verbatim>\<open>include/cbag/util/sorted_map.h\<close>: a sorted vector of
  key-value pairs compared by their keys.  All uses in the library take the default comparator
  \<^verbatim>\<open>std::less\<close>, so keys range over a linear order; strings are ordered lexicographically by byte
  value, as \<^verbatim>\<open>std::string\<close> is.  The abstraction of a map is \<open>map_of\<close>; the interface
  \<open>kv_store\<close> states what its clients rely on.
\<close>

section \<open>The operations\<close>

type_synonym ('k, 'v) smap = "('k \<times> 'v) list"

text \<open>The three comparisons of \<^verbatim>\<open>value_compare\<close> that are used.\<close>

definition sm_elem_key :: "'k :: linorder \<times> 'v \<Rightarrow> 'k \<Rightarrow> bool" where
  "sm_elem_key p k \<longleftrightarrow> fst p < k"

definition sm_key_elem :: "'k :: linorder \<Rightarrow> 'k \<times> 'v \<Rightarrow> bool" where
  "sm_key_elem k p \<longleftrightarrow> k < fst p"

definition sm_elem_elem :: "'k :: linorder \<times> 'v \<Rightarrow> 'k \<times> 'v \<Rightarrow> bool" where
  "sm_elem_elem p q \<longleftrightarrow> fst p < fst q"

definition sm_lower_bound :: "('k :: linorder, 'v) smap \<Rightarrow> 'k \<Rightarrow> nat" where
  "sm_lower_bound m k = sv_lower_bound sm_elem_key m k"

definition sm_upper_bound :: "('k :: linorder, 'v) smap \<Rightarrow> 'k \<Rightarrow> nat" where
  "sm_upper_bound m k = sv_upper_bound sm_key_elem m k"

definition sm_find :: "('k :: linorder, 'v) smap \<Rightarrow> 'k \<Rightarrow> nat" where
  "sm_find m k = sv_find sm_elem_key sm_key_elem m k"

text \<open>The idiom \<^verbatim>\<open>iter = m.find(k); iter == m.end() ? ... : iter->second\<close>.\<close>

definition sm_lookup :: "('k :: linorder, 'v) smap \<Rightarrow> 'k \<Rightarrow> 'v option" where
  "sm_lookup m k = (let iter = sm_find m k in if iter = length m then None else Some (snd (m ! iter)))"

definition sm_emplace :: "('k :: linorder, 'v) smap \<Rightarrow> 'k \<Rightarrow> 'v \<Rightarrow> ('k, 'v) smap \<times> nat \<times> bool" where
  "sm_emplace m k v = sv_insert_unique sm_elem_elem m (k, v)"

text \<open>\<^verbatim>\<open>insert(first, last)\<close> emplaces every element of a range.\<close>

definition sm_insert_range :: "('k :: linorder, 'v) smap \<Rightarrow> ('k \<times> 'v) list \<Rightarrow> ('k, 'v) smap" where
  "sm_insert_range m kvs = foldl (\<lambda>m p. fst (sm_emplace m (fst p) (snd p))) m kvs"

definition sm_emplace_back :: "('k :: linorder, 'v) smap \<Rightarrow> 'k \<Rightarrow> 'v \<Rightarrow> ('k, 'v) smap result" where
  "sm_emplace_back m k v = sv_push_back sm_elem_elem m (k, v)"

definition sm_insert_or_assign ::
  "('k :: linorder, 'v) smap \<Rightarrow> 'k \<Rightarrow> 'v \<Rightarrow> ('k, 'v) smap \<times> nat \<times> bool" where
  "sm_insert_or_assign m k obj =
     (let iter = sm_lower_bound m k
      in if iter = length m \<or> sm_key_elem k (m ! iter)
         then (sv_insert_force m iter (k, obj), iter, True)
         else (m[iter := (fst (m ! iter), obj)], iter, False))"

definition sm_erase :: "('k :: linorder, 'v) smap \<Rightarrow> 'k \<Rightarrow> ('k, 'v) smap \<times> nat" where
  "sm_erase m key =
     (let iter_range = sv_equal_range sm_elem_key sm_key_elem m key;
          ans = snd iter_range - fst iter_range
      in if ans > 0 then (sv_erase_range m (fst iter_range) (snd iter_range), ans) else (m, ans))"

text \<open>Assigning the key an iterator points at (\<^verbatim>\<open>iter->first = new_key\<close>).\<close>

definition sm_set_key :: "('k, 'v) smap \<Rightarrow> nat \<Rightarrow> 'k \<Rightarrow> ('k, 'v) smap" where
  "sm_set_key m iter k = m[iter := (k, snd (m ! iter))]"

definition sm_replace_key :: "('k :: linorder, 'v) smap \<Rightarrow> 'k \<Rightarrow> 'k \<Rightarrow> ('k, 'v) smap \<times> nat" where
  "sm_replace_key m old_key new_key =
     (let iter = sm_lower_bound m old_key; end_iter = length m in
      if iter = end_iter \<or> fst (m ! iter) \<noteq> old_key then (m, end_iter)
      else if old_key = new_key then (m, iter)
      else if old_key < new_key then
        (let iter_inc = iter + 1;
             pos = iter_inc + sm_lower_bound (drop iter_inc m) new_key in
         if pos \<noteq> end_iter \<and> fst (m ! pos) = new_key then (m, end_iter)
         else if pos = iter_inc then (sm_set_key m iter new_key, iter)
         else (case sv_circ_shift m iter pos False of
                 (m', ans) \<Rightarrow> (sm_set_key m' ans new_key, ans)))
      else
        (let pos = sm_upper_bound (take iter m) new_key in
         if pos \<noteq> 0 \<and> fst (m ! (pos - 1)) = new_key then (m, end_iter)
         else if pos = iter then (sm_set_key m iter new_key, iter)
         else (case sv_circ_shift m pos (iter + 1) True of
                 (m', ans) \<Rightarrow> (sm_set_key m' ans new_key, ans))))"

section \<open>The invariant\<close>

definition sm_inv :: "('k :: linorder, 'v) smap \<Rightarrow> bool" where
  "sm_inv m \<longleftrightarrow> sorted_wrt (<) (map fst m)"

lemmas sm_order_defs = sm_elem_key_def sm_key_elem_def sm_elem_elem_def

interpretation sm_order: strict_weak_order "sm_elem_elem :: 'k :: linorder \<times> 'v \<Rightarrow> _"
  by unfold_locales (auto simp: sm_elem_elem_def)

lemma sm_inv_Nil [simp]: "sm_inv []"
  by (simp add: sm_inv_def)

lemma sm_inv_append:
  "sm_inv (us @ vs) \<longleftrightarrow> sm_inv us \<and> sm_inv vs \<and> (\<forall>p\<in>set us. \<forall>q\<in>set vs. fst p < fst q)"
  by (auto simp: sm_inv_def sorted_wrt_append)

lemma sm_inv_Cons: "sm_inv (p # vs) \<longleftrightarrow> sm_inv vs \<and> (\<forall>q\<in>set vs. fst p < fst q)"
  by (auto simp: sm_inv_def)

lemmas sm_inv_simps = sm_inv_append sm_inv_Cons

lemma sm_inv_iff: "sm_inv m \<longleftrightarrow> sorted_wrt sm_elem_elem m"
  by (simp add: sm_inv_def sorted_wrt_map sm_elem_elem_def [abs_def])

lemma sm_inv_distinct: "sm_inv m \<Longrightarrow> distinct (map fst m)"
  by (induction m) (auto simp: sm_inv_simps)

lemma map_of_below [simp]: "(\<forall>p\<in>set us. fst p < k) \<Longrightarrow> map_of us (k :: 'k :: linorder) = None"
  by (fastforce simp: map_of_eq_None_iff)

lemma map_of_above [simp]: "(\<forall>p\<in>set us. k < fst p) \<Longrightarrow> map_of us (k :: 'k :: linorder) = None"
  by (fastforce simp: map_of_eq_None_iff)

text \<open>
  Where a key is, or would be, in a sorted map: the case analysis behind every operation.
\<close>

lemma sm_lower_bound_append:
  "(\<forall>p\<in>set us. fst p < k) \<Longrightarrow> (\<forall>p\<in>set vs. \<not> fst p < k) \<Longrightarrow>
   sm_lower_bound (us @ vs) k = length us"
  unfolding sm_lower_bound_def sv_lower_bound_def
  by (rule length_takeWhile_partition) (cases vs; auto simp: sm_order_defs)+

lemma sm_upper_bound_append:
  "(\<forall>p\<in>set us. \<not> k < fst p) \<Longrightarrow> (\<forall>p\<in>set vs. k < fst p) \<Longrightarrow>
   sm_upper_bound (us @ vs) k = length us"
  unfolding sm_upper_bound_def sv_upper_bound_def
  by (rule length_takeWhile_partition) (cases vs; auto simp: sm_order_defs)+

lemma sm_key_cases:
  assumes "sm_inv m"
  obtains (absent) us vs where "m = us @ vs" and "\<forall>p\<in>set us. fst p < k"
      and "\<forall>p\<in>set vs. k < fst p" and "map_of m k = None"
  | (present) us v vs where "m = us @ (k, v) # vs" and "\<forall>p\<in>set us. fst p < k"
      and "\<forall>p\<in>set vs. k < fst p" and "map_of m k = Some v"
proof (cases "map_of m k")
  case None
  let ?us = "filter (\<lambda>p. fst p < k) m" and ?vs = "filter (\<lambda>p. \<not> fst p < k) m"
  have "m = ?us @ ?vs"
    using assms
  proof (induction m)
    case (Cons p m)
    show ?case
    proof (cases "fst p < k")
      case True
      with Cons show ?thesis by (simp add: sm_inv_simps)
    next
      case False
      with Cons.prems have "\<forall>q\<in>set (p # m). \<not> fst q < k"
        by (auto simp: sm_inv_simps dest: less_trans)
      then show ?thesis by (simp add: filter_id_conv filter_empty_conv del: filter.simps)
    qed
  qed simp
  moreover have "k < fst p" if "p \<in> set ?vs" for p
    using that None by (auto simp: map_of_eq_None_iff not_less le_less)
  ultimately show thesis using None by (intro absent [of ?us ?vs]) auto
next
  case (Some v)
  then obtain us vs where m: "m = us @ (k, v) # vs" by (meson map_of_SomeD split_list)
  with assms Some show thesis by (intro present [of us v vs]) (auto simp: sm_inv_simps)
qed

text \<open>The search functions, evaluated on the two cases.\<close>

lemma sm_absent_simps:
  assumes "\<forall>p\<in>set us. fst p < k" and "\<forall>p\<in>set vs. k < fst p"
  shows "sm_lower_bound (us @ vs) k = length us" and "sm_upper_bound (us @ vs) k = length us"
    and "vs \<noteq> [] \<Longrightarrow> k < fst ((us @ vs) ! length us)"
  using assms by (auto intro!: sm_lower_bound_append sm_upper_bound_append simp: nth_append
      dest: less_asym less_imp_not_less)

lemma sm_present_simps:
  assumes "\<forall>p\<in>set us. fst p < k" and "\<forall>p\<in>set vs. k < fst p"
  shows "sm_lower_bound (us @ (k, v) # vs) k = length us"
    and "sm_upper_bound (us @ (k, v) # vs) k = Suc (length us)"
proof -
  show "sm_lower_bound (us @ (k, v) # vs) k = length us"
    using assms by (intro sm_lower_bound_append) (auto dest: less_asym)
  have "sm_upper_bound ((us @ [(k, v)]) @ vs) k = length (us @ [(k, v)])"
    using assms by (intro sm_upper_bound_append) (auto dest: less_asym)
  then show "sm_upper_bound (us @ (k, v) # vs) k = Suc (length us)" by simp
qed

lemma sm_find_eq: "sm_find m k =
   (if sm_lower_bound m k = length m \<or> k < fst (m ! sm_lower_bound m k) then length m
    else sm_lower_bound m k)"
  by (simp add: sm_find_def sv_find_def sm_lower_bound_def sm_key_elem_def Let_def)

lemma sm_lookup_map_of: "sm_inv m \<Longrightarrow> sm_lookup m k = map_of m k"
proof (erule sm_key_cases [where k = k])
  fix us vs
  assume m: "m = us @ vs" and us: "\<forall>p\<in>set us. fst p < k"
    and vs: "\<forall>p\<in>set vs. k < fst p" and none: "map_of m k = None"
  have "sm_find m k = length m"
    using sm_absent_simps [OF us vs] m by (cases vs) (auto simp: sm_find_eq)
  with none show ?thesis by (simp add: sm_lookup_def)
next
  fix us v vs
  assume m: "m = us @ (k, v) # vs" and us: "\<forall>p\<in>set us. fst p < k"
    and vs: "\<forall>p\<in>set vs. k < fst p" and some: "map_of m k = Some v"
  have "sm_find m k = length us"
    using sm_present_simps(1) [OF us vs] m by (simp add: sm_find_eq nth_append)
  with some m show ?thesis by (simp add: sm_lookup_def nth_append)
qed

section \<open>What every operation does to the abstraction\<close>

lemma sm_emplace_cases:
  assumes "sm_inv m"
  shows "case sm_emplace m k v of (m', i, fresh) \<Rightarrow>
    sm_inv m' \<and> (fresh \<longleftrightarrow> map_of m k = None) \<and>
    map_of m' = (if fresh then (map_of m)(k \<mapsto> v) else map_of m) \<and>
    i < length m' \<and> fst (m' ! i) = k"
  using assms
proof (cases rule: sm_key_cases [where k = k, OF assms])
  case (1 us vs)
  then have lb: "sv_lower_bound sm_elem_elem (us @ vs) (k, v) = length us"
    using sm_absent_simps(1) [of us k vs]
    by (simp add: sv_lower_bound_def sm_lower_bound_def sm_order_defs)
  have "sm_emplace m k v = (us @ (k, v) # vs, length us, True)"
    using 1 lb by (cases vs) (auto simp: sm_emplace_def sv_insert_unique_def sv_insert_force_def
        Let_def sm_elem_elem_def nth_append)
  with 1 assms show ?thesis
    by (auto simp: sm_inv_simps fun_eq_iff map_add_def split: option.splits)
next
  case (2 us w vs)
  then have lb: "sv_lower_bound sm_elem_elem (us @ (k, w) # vs) (k, v) = length us"
    using sm_present_simps(1) [of us k vs w]
    by (simp add: sv_lower_bound_def sm_lower_bound_def sm_order_defs)
  have "sm_emplace m k v = (m, length us, False)"
    using 2 lb by (simp add: sm_emplace_def sv_insert_unique_def Let_def sm_elem_elem_def nth_append)
  with 2 assms show ?thesis by simp
qed

lemma sm_insert_or_assign_cases:
  assumes "sm_inv m"
  shows "case sm_insert_or_assign m k v of (m', i, fresh) \<Rightarrow>
    sm_inv m' \<and> (fresh \<longleftrightarrow> map_of m k = None) \<and> map_of m' = (map_of m)(k \<mapsto> v) \<and>
    i < length m' \<and> m' ! i = (k, v)"
  using assms
proof (cases rule: sm_key_cases [where k = k, OF assms])
  case (1 us vs)
  have "sm_insert_or_assign m k v = (us @ (k, v) # vs, length us, True)"
    using 1 sm_absent_simps [of us k vs]
    by (cases vs) (auto simp: sm_insert_or_assign_def sv_insert_force_def Let_def sm_key_elem_def)
  with 1 assms show ?thesis
    by (auto simp: sm_inv_simps fun_eq_iff map_add_def split: option.splits)
next
  case (2 us w vs)
  have "sm_insert_or_assign m k v = (us @ (k, v) # vs, length us, False)"
    using 2 sm_present_simps(1) [of us k vs w]
    by (simp add: sm_insert_or_assign_def Let_def sm_key_elem_def nth_append)
  with 2 assms show ?thesis
    by (auto simp: sm_inv_simps fun_eq_iff map_add_def split: option.splits)
qed

lemma sm_erase_cases:
  assumes "sm_inv m"
  shows "case sm_erase m k of (m', n) \<Rightarrow>
    sm_inv m' \<and> n = (if map_of m k = None then 0 else 1) \<and> map_of m' = (map_of m)(k := None) \<and>
    length m = length m' + n"
  using assms
proof (cases rule: sm_key_cases [where k = k, OF assms])
  case (1 us vs)
  then have "sm_erase m k = (m, 0)"
    using sm_absent_simps [of us k vs]
    by (simp add: sm_erase_def sv_equal_range_def Let_def sm_lower_bound_def sm_upper_bound_def)
  with 1 assms show ?thesis by (auto simp: fun_eq_iff)
next
  case (2 us w vs)
  then have "sm_erase m k = (us @ vs, 1)"
    using sm_present_simps [of us k vs w]
    by (simp add: sm_erase_def sv_equal_range_def sv_erase_range_def Let_def
        sm_lower_bound_def sm_upper_bound_def)
  with 2 assms show ?thesis
    by (auto simp: sm_inv_simps fun_eq_iff map_add_def split: option.splits)
qed

section \<open>The interface clients rely on\<close>

locale kv_store =
  fixes invar :: "'m \<Rightarrow> bool"
    and look :: "'m \<Rightarrow> 'k \<Rightarrow> 'v option"
    and put_new :: "'m \<Rightarrow> 'k \<Rightarrow> 'v \<Rightarrow> 'm \<times> nat \<times> bool"
    and put :: "'m \<Rightarrow> 'k \<Rightarrow> 'v \<Rightarrow> 'm \<times> nat \<times> bool"
    and del :: "'k \<Rightarrow> 'm \<Rightarrow> 'm \<times> nat"
  assumes put_new_inv: "invar m \<Longrightarrow> invar (fst (put_new m k v))"
    and put_new_look: "invar m \<Longrightarrow>
      look (fst (put_new m k v)) = (if look m k = None then (look m)(k \<mapsto> v) else look m)"
    and put_inv: "invar m \<Longrightarrow> invar (fst (put m k v))"
    and put_look: "invar m \<Longrightarrow> look (fst (put m k v)) = (look m)(k \<mapsto> v)"
    and del_inv: "invar m \<Longrightarrow> invar (fst (del k m))"
    and del_look: "invar m \<Longrightarrow> look (fst (del k m)) = (look m)(k := None)"
begin

text \<open>Emplacing a range: the first value given for a key wins, and present keys keep theirs.\<close>

lemma put_new_all:
  assumes "invar m"
  shows "invar (foldl (\<lambda>m p. fst (put_new m (fst p) (snd p))) m kvs) \<and>
    look (foldl (\<lambda>m p. fst (put_new m (fst p) (snd p))) m kvs) = map_of kvs ++ look m"
  using assms
proof (induction kvs arbitrary: m)
  case (Cons p kvs)
  then show ?case
    by (cases p) (auto simp: put_new_inv put_new_look map_add_def fun_eq_iff split: option.splits)
qed simp

text \<open>Assigning a range: the last value given for a key wins, over the values present before.\<close>

lemma put_all:
  assumes "invar m"
  shows "invar (foldl (\<lambda>m p. fst (put m (fst p) (snd p))) m kvs) \<and>
    look (foldl (\<lambda>m p. fst (put m (fst p) (snd p))) m kvs) = look m ++ map_of (rev kvs)"
  using assms
proof (induction kvs arbitrary: m)
  case (Cons p kvs)
  then show ?case
    by (cases p) (auto simp: put_inv put_look map_add_def fun_eq_iff split: option.splits)
qed simp

lemma put_put_new_commute:
  "invar m \<Longrightarrow> look (fst (put (fst (put_new m k v)) k w)) = look (fst (put m k w))"
  by (simp add: put_look put_new_look put_new_inv fun_eq_iff)

end

interpretation smap_store: kv_store sm_inv sm_lookup sm_emplace sm_insert_or_assign "\<lambda>k m. sm_erase m k"
proof
  fix m :: "('k :: linorder, 'v) smap" and k v
  assume m: "sm_inv m"
  note e = sm_emplace_cases [OF m, of k v] sm_insert_or_assign_cases [OF m, of k v]
    sm_erase_cases [OF m, of k]
  show "sm_inv (fst (sm_emplace m k v))" using e(1) by auto
  show "sm_inv (fst (sm_insert_or_assign m k v))" using e(2) by auto
  show "sm_inv (fst (sm_erase m k))" using e(3) by auto
  show "sm_lookup (fst (sm_emplace m k v))
      = (if sm_lookup m k = None then (sm_lookup m)(k \<mapsto> v) else sm_lookup m)"
    using e(1) m by (auto simp: fun_eq_iff sm_lookup_map_of split: prod.splits)
  show "sm_lookup (fst (sm_insert_or_assign m k v)) = (sm_lookup m)(k \<mapsto> v)"
    using e(2) m by (auto simp: fun_eq_iff sm_lookup_map_of split: prod.splits)
  show "sm_lookup (fst (sm_erase m k)) = (sm_lookup m)(k := None)"
    using e(3) m by (auto simp: fun_eq_iff sm_lookup_map_of split: prod.splits)
qed

section \<open>Updates through an iterator\<close>

lemma sm_inv_update_value:
  assumes "sm_inv m" and "i < length m"
  shows "sm_inv (m[i := (fst (m ! i), v)])"
proof -
  have "map fst (m[i := (fst (m ! i), v)]) = map fst m"
    using list_update_id [of "map fst m" i] assms(2) by (simp add: map_update)
  with assms(1) show ?thesis by (simp add: sm_inv_def)
qed

lemma map_of_mem_iff: "sm_inv m \<Longrightarrow> p \<in> set m \<longleftrightarrow> map_of m (fst p) = Some (snd p)"
  by (cases p) (simp add: map_of_eq_Some_iff sm_inv_distinct)

lemma option_eqI: "\<forall>w. a = Some w \<longleftrightarrow> b = Some w \<Longrightarrow> a = b"
  by (cases a; cases b; auto)

lemma map_of_update_value:
  assumes "sm_inv m" and "i < length m"
  shows "map_of (m[i := (fst (m ! i), v)]) = (map_of m)(fst (m ! i) \<mapsto> v)"
proof
  fix k
  let ?m = "m[i := (fst (m ! i), v)]"
  have inv: "sm_inv ?m" by (rule sm_inv_update_value [OF assms])
  have d: "distinct (map fst m)" by (rule sm_inv_distinct [OF assms(1)])
  have "(k, w) \<in> set ?m \<longleftrightarrow> (if k = fst (m ! i) then w = v else (k, w) \<in> set m)" for w
  proof -
    have "(k, w) \<in> set ?m \<longleftrightarrow> (\<exists>j<length m. (if j = i then (fst (m ! i), v) else m ! j) = (k, w))"
      using assms(2) by (auto simp: in_set_conv_nth nth_list_update)
    moreover have "fst (m ! j) \<noteq> fst (m ! i)" if "j < length m" "j \<noteq> i" for j
      using d that assms(2) by (metis distinct_conv_nth length_map nth_map)
    ultimately show ?thesis using assms(2) by (auto simp: in_set_conv_nth) (metis fst_conv)+
  qed
  then have "map_of ?m k = Some w \<longleftrightarrow> ((map_of m)(fst (m ! i) \<mapsto> v)) k = Some w" for w
    using sm_inv_distinct [OF inv] d by (auto simp: map_of_eq_Some_iff)
  then show "map_of ?m k = ((map_of m)(fst (m ! i) \<mapsto> v)) k"
    by (intro option_eqI allI)
qed

lemma sm_find_absent: "sm_inv m \<Longrightarrow> sm_find m k = length m \<longleftrightarrow> map_of m k = None"
  by (simp add: sm_lookup_map_of [symmetric] sm_lookup_def Let_def)

lemma sm_find_present_conj:
  assumes "sm_inv m" and "map_of m k = Some v"
  shows "sm_find m k < length m \<and> m ! sm_find m k = (k, v)"
proof (cases rule: sm_key_cases [where k = k, OF assms(1)])
  case (1 us vs)
  with assms(2) show ?thesis by simp
next
  case (2 us w vs)
  have "sm_find m k = length us"
    using sm_present_simps(1) [OF 2(2,3)] 2(1) by (simp add: sm_find_eq nth_append)
  with 2(1,4) assms(2) show ?thesis by (simp add: nth_append)
qed

lemmas sm_find_present = sm_find_present_conj [THEN conjunct1] sm_find_present_conj [THEN conjunct2]

section \<open>Replacing a key\<close>

text \<open>The two circular shifts, on a list split at the iterator and at the new position.\<close>

lemma sv_circ_shift_down:
  "sv_circ_shift (us @ x # ys @ zs) (length us) (length us + 1 + length ys) False
     = (us @ ys @ x # zs, length us + length ys)"
  by (simp add: sv_circ_shift_def)

lemma sv_circ_shift_up:
  "sv_circ_shift (us @ ys @ x # zs) (length us) (length us + length ys + 1) True
     = (us @ x # ys @ zs, length us)"
  by (simp add: sv_circ_shift_def nth_append)

lemma sm_set_key_mid [simp]:
  "length us = n \<Longrightarrow> sm_set_key (us @ p # vs) n k = us @ (k, snd p) # vs"
  by (auto simp: sm_set_key_def)

lemma map_of_split:
  "\<forall>p\<in>set us. fst p \<noteq> k \<Longrightarrow> map_of (us @ vs) k = map_of vs k"
  by (induction us) auto

text \<open>A key moved upwards, past the pairs of \<open>ys\<close>; and a key moved downwards.\<close>

lemma sm_replace_key_up:
  assumes us: "\<forall>p\<in>set us. fst p < k" and vs: "\<forall>p\<in>set (ys @ zs). k < fst p" and new: "k < k'"
    and ys: "\<forall>p\<in>set ys. fst p < k'" and zs: "\<forall>p\<in>set zs. k' < fst p"
  shows "sm_replace_key (us @ (k, v) # ys @ zs) k k' = (us @ ys @ (k', v) # zs, length us + length ys)"
proof -
  have lb: "sm_lower_bound (us @ (k, v) # ys @ zs) k = length us"
    using sm_present_simps(1) [OF us vs] .
  have pos: "sm_lower_bound (ys @ zs) k' = length ys"
    using sm_absent_simps(1) [OF ys zs] .
  have next_key: "zs \<noteq> [] \<Longrightarrow> fst (hd zs) \<noteq> k'" using zs by (cases zs) auto
  show ?thesis
  proof (cases "ys = []")
    case True
    with lb pos new next_key show ?thesis
      by (cases zs) (auto simp: sm_replace_key_def Let_def nth_append)
  next
    case False
    have "fst ((us @ (k, v) # ys @ zs) ! Suc (length us + length ys)) = fst (hd zs)" if "zs \<noteq> []"
      using that by (cases zs) (auto simp: nth_append)
    with False lb pos new next_key sv_circ_shift_down [of us "(k, v)" ys zs] show ?thesis
      using sm_set_key_mid [of "us @ ys" "length us + length ys" "(k, v)" zs k']
      by (cases zs) (auto simp: sm_replace_key_def Let_def nth_append)
  qed
qed

lemma sm_replace_key_down:
  assumes us: "\<forall>p\<in>set (xs @ ys). fst p < k" and vs: "\<forall>p\<in>set vs. k < fst p" and new: "k' < k"
    and xs: "\<forall>p\<in>set xs. fst p < k'" and ys: "\<forall>p\<in>set ys. k' < fst p"
  shows "sm_replace_key (xs @ ys @ (k, v) # vs) k k' = (xs @ (k', v) # ys @ vs, length xs)"
proof -
  have lb: "sm_lower_bound (xs @ ys @ (k, v) # vs) k = length xs + length ys"
    using sm_present_simps(1) [OF us vs, of v] by simp
  have pos: "sm_upper_bound (xs @ ys) k' = length xs"
    using sm_absent_simps(2) [OF xs ys] .
  have prev: "fst ((xs @ ys @ (k, v) # vs) ! (length xs - 1)) \<noteq> k'" if "xs \<noteq> []"
    using that xs by (cases xs rule: rev_cases) (auto simp: nth_append)
  have at: "(xs @ ys @ (k, v) # vs) ! (length xs + length ys) = (k, v)"
    "take (length xs + length ys) (xs @ ys @ (k, v) # vs) = xs @ ys"
    by (simp_all add: nth_append)
  note facts = lb pos new prev [unfolded One_nat_def] at
  show ?thesis
  proof (cases "ys = []")
    case True
    with facts show ?thesis by (auto simp: sm_replace_key_def Let_def)
  next
    case False
    with facts sv_circ_shift_up [of xs ys "(k, v)" vs] show ?thesis
      by (auto simp: sm_replace_key_def Let_def)
  qed
qed

text \<open>The new key is taken already, above or below: nothing changes.\<close>

lemma sm_replace_key_taken:
  assumes inv: "sm_inv m" and old: "map_of m k = Some v" and taken: "map_of m k' = Some w"
    and ne: "k \<noteq> k'"
  shows "sm_replace_key m k k' = (m, length m)"
proof -
  obtain us vs where m: "m = us @ (k, v) # vs" and us: "\<forall>p\<in>set us. fst p < k"
    and vs: "\<forall>p\<in>set vs. k < fst p"
    using old by (cases rule: sm_key_cases [where k = k, OF inv]) auto
  have parts: "sm_inv us" "sm_inv vs" using inv m by (auto simp: sm_inv_simps)
  have lb: "sm_lower_bound (us @ (k, v) # vs) k = length us"
    using sm_present_simps(1) [OF us vs] .
  have "sm_replace_key (us @ (k, v) # vs) k k' = (us @ (k, v) # vs, Suc (length us + length vs))"
  proof (cases "k < k'")
    case True
    have "map_of vs k' = Some w"
      using taken m True us ne by (subst (asm) m, subst (asm) map_of_split) auto
    then obtain ys w' zs where v: "vs = ys @ (k', w') # zs" "\<forall>p\<in>set ys. fst p < k'"
        "\<forall>p\<in>set zs. k' < fst p"
      by (auto intro: sm_key_cases [OF parts(2), of k'])
    with lb True sm_present_simps(1) [of ys k' zs w'] show ?thesis
      by (auto simp: sm_replace_key_def Let_def nth_append)
  next
    case False
    with ne have lt: "k' < k" by auto
    have "\<forall>p\<in>set vs. k' < fst p" using vs lt by (auto intro: less_trans)
    then have "map_of vs k' = None" by simp
    then have "map_of us k' = Some w"
      using taken m ne by (auto simp: map_add_def split: option.splits)
    then obtain ys w' zs where u: "us = ys @ (k', w') # zs" "\<forall>p\<in>set ys. fst p < k'"
        "\<forall>p\<in>set zs. k' < fst p"
      by (auto intro: sm_key_cases [OF parts(1), of k'])
    with lb lt sm_present_simps(2) [of ys k' zs w'] show ?thesis
      by (auto simp: sm_replace_key_def Let_def nth_append)
  qed
  then show ?thesis by (simp add: m)
qed

text \<open>The three outcomes together.\<close>

lemma sm_replace_key_spec:
  assumes "sm_inv m"
  shows "case sm_replace_key m old_key new_key of (m', i) \<Rightarrow>
    sm_inv m' \<and>
    (if map_of m old_key = None \<or> (new_key \<noteq> old_key \<and> map_of m new_key \<noteq> None)
     then m' = m \<and> i = length m
     else length m' = length m \<and> i < length m' \<and>
          Some (m' ! i) = map_option (Pair new_key) (map_of m old_key) \<and>
          map_of m' = (map_of m)(old_key := None, new_key := map_of m old_key))"
  using assms
proof (cases rule: sm_key_cases [where k = old_key, OF assms])
  case (1 us vs)
  then have "sm_replace_key m old_key new_key = (m, length m)"
    using sm_absent_simps [of us old_key vs] by (cases vs) (auto simp: sm_replace_key_def Let_def)
  with 1 assms show ?thesis by simp
next
  case (2 us v vs)
  note parts = assms [unfolded 2(1) sm_inv_simps]
  have old: "map_of m old_key = Some v" using 2 by simp
  consider "new_key = old_key" | w where "new_key \<noteq> old_key" "map_of m new_key = Some w"
    | "old_key < new_key" "map_of m new_key = None" | "new_key < old_key" "map_of m new_key = None"
    using less_linear [of old_key new_key] by (cases "map_of m new_key") blast+
  then show ?thesis
  proof cases
    case 1
    have at: "m ! length us = (old_key, v)" "length us < length m" using 2(1) by simp_all
    then have "sm_replace_key m old_key new_key = (m, length us)"
      using 1 sm_present_simps(1) [OF 2(2,3), of v] 2(1) by (simp add: sm_replace_key_def Let_def)
    with 1 at assms old show ?thesis by (simp add: fun_upd_idem)
  next
    case 2
    with sm_replace_key_taken [OF assms old, of new_key w] assms old show ?thesis by auto
  next
    case 3
    then have "map_of vs new_key = None"
      using 2 by (auto simp: map_add_def split: option.splits if_splits)
    then obtain ys zs where v: "vs = ys @ zs" "\<forall>p\<in>set ys. fst p < new_key"
        "\<forall>p\<in>set zs. new_key < fst p"
      using parts by (auto intro: sm_key_cases [of vs new_key])
    have "sm_replace_key m old_key new_key = (us @ ys @ (new_key, v) # zs, length us + length ys)"
      using sm_replace_key_up [of us old_key ys zs new_key v] 2 3 v by simp
    moreover have "\<forall>p\<in>set us. fst p < new_key" using 2(2) 3 by (auto intro: less_trans)
    ultimately show ?thesis using 2 3 v parts
      by (auto simp: sm_inv_simps nth_append fun_eq_iff map_add_def split: option.splits)
  next
    case 4
    then have "map_of us new_key = None"
      using 2 by (auto simp: map_add_def split: option.splits if_splits)
    then obtain xs ys where u: "us = xs @ ys" "\<forall>p\<in>set xs. fst p < new_key"
        "\<forall>p\<in>set ys. new_key < fst p"
      using parts by (auto intro: sm_key_cases [of us new_key])
    have "sm_replace_key m old_key new_key = (xs @ (new_key, v) # ys @ vs, length xs)"
      using sm_replace_key_down [of xs ys old_key vs new_key v] 2 4 u by simp
    moreover have "\<forall>p\<in>set vs. new_key < fst p" using 2(3) 4 by (auto intro: less_trans)
    ultimately show ?thesis using 2 4 u parts
      by (auto simp: sm_inv_simps nth_append fun_eq_iff map_add_def split: option.splits)
  qed
qed

section \<open>Properties\<close>

text \<open>
  \<^verbatim>\<open>replace_key\<close> fails, and then leaves the map alone and returns the end iterator, exactly when
  the old key is absent or the new key belongs to another entry.  Otherwise the circular shift keeps
  the map sorted, the entry of the old key is now under the new key, no other entry changes, and the
  returned iterator points at the renamed entry.
\<close>

theorem sm_replace_key_correct:
  assumes "sm_inv m"
  shows "case sm_replace_key m old_key new_key of (m', i) \<Rightarrow>
    sm_inv m' \<and>
    (if map_of m old_key = None \<or> (new_key \<noteq> old_key \<and> map_of m new_key \<noteq> None)
     then m' = m \<and> i = length m
     else length m' = length m \<and> i < length m' \<and>
          Some (m' ! i) = map_option (Pair new_key) (map_of m old_key) \<and>
          map_of m' = (map_of m)(old_key := None, new_key := map_of m old_key))"
  by (rule sm_replace_key_spec [OF assms])

theorem sm_replace_key_correct_witness:
  "case sm_replace_key [(1 :: nat, ''a''), (3, ''b''), (5, ''c'')] 1 4 of (m', i) \<Rightarrow>
     sm_inv m' \<and> map_of m' 4 = Some ''a'' \<and> map_of m' 1 = None \<and> m' ! i = (4, ''a'')"
  using sm_replace_key_correct [of "[(1 :: nat, ''a''), (3, ''b''), (5, ''c'')]" 1 4]
  by (auto simp: sm_inv_def)

text \<open>
  C40.  On sorted maps the searches and updates implement finite maps: lookup, insertion of a fresh key
  only, insertion or assignment, deletion with the number of deleted entries, and insertion of a
  range, where present keys keep their values and the first value of a repeated key wins.
\<close>

theorem sm_operations_refine_map:
  assumes "sm_inv m"
  shows "sm_lookup m = map_of m \<and>
    (case sm_emplace m k v of (m', i, fresh) \<Rightarrow> sm_inv m' \<and> (fresh \<longleftrightarrow> k \<notin> dom (map_of m)) \<and>
       map_of m' = (if fresh then (map_of m)(k \<mapsto> v) else map_of m) \<and> fst (m' ! i) = k) \<and>
    (case sm_insert_or_assign m k v of (m', i, fresh) \<Rightarrow> sm_inv m' \<and>
       (fresh \<longleftrightarrow> k \<notin> dom (map_of m)) \<and> map_of m' = (map_of m)(k \<mapsto> v) \<and> m' ! i = (k, v)) \<and>
    (case sm_erase m k of (m', n) \<Rightarrow> sm_inv m' \<and> n = card ({k} \<inter> dom (map_of m)) \<and>
       map_of m' = (map_of m)(k := None)) \<and>
    sm_inv (sm_insert_range m kvs) \<and> map_of (sm_insert_range m kvs) = map_of kvs ++ map_of m"
proof (intro conjI)
  show "sm_lookup m = map_of m" using sm_lookup_map_of [OF assms] by (rule ext)
  show "case sm_emplace m k v of (m', i, fresh) \<Rightarrow> sm_inv m' \<and> (fresh \<longleftrightarrow> k \<notin> dom (map_of m)) \<and>
      map_of m' = (if fresh then (map_of m)(k \<mapsto> v) else map_of m) \<and> fst (m' ! i) = k"
    using sm_emplace_cases [OF assms, of k v] by (auto simp: domIff)
  show "case sm_insert_or_assign m k v of (m', i, fresh) \<Rightarrow> sm_inv m' \<and>
      (fresh \<longleftrightarrow> k \<notin> dom (map_of m)) \<and> map_of m' = (map_of m)(k \<mapsto> v) \<and> m' ! i = (k, v)"
    using sm_insert_or_assign_cases [OF assms, of k v] by (auto simp: domIff)
  show "case sm_erase m k of (m', n) \<Rightarrow> sm_inv m' \<and> n = card ({k} \<inter> dom (map_of m)) \<and>
      map_of m' = (map_of m)(k := None)"
    using sm_erase_cases [OF assms, of k] by (cases "map_of m k") (auto simp: domIff)
  note all = smap_store.put_new_all [OF assms, of kvs]
  then show inv: "sm_inv (sm_insert_range m kvs)" by (simp add: sm_insert_range_def)
  show "map_of (sm_insert_range m kvs) = map_of kvs ++ map_of m"
    using all sm_lookup_map_of [OF inv] sm_lookup_map_of [OF assms]
    by (auto simp: sm_insert_range_def fun_eq_iff map_add_def)
qed

theorem sm_operations_refine_map_witness:
  "map_of (sm_insert_range [(2 :: nat, ''b'')] [(1, ''a''), (2, ''x''), (1, ''y'')])
     = map_of [(1, ''a''), (2, ''x''), (1, ''y'')] ++ map_of [(2, ''b'')]"
  using sm_operations_refine_map [of "[(2 :: nat, ''b'')]" 1 "''z''"
      "[(1, ''a''), (2, ''x''), (1, ''y'')]"]
  by (simp add: sm_inv_def)

end
