(* ===== verification/Params.thy ===== *)
theory Params
  imports Sorted_Map
begin

text \<open>
  Parameters of instances and cellviews: \<^verbatim>\<open>include/cbag/common/param_data.h\<close> and
  \<^verbatim>\<open>param_map_util.h\<close>.
\<close>

text \<open>A \<^verbatim>\<open>double\<close> is its bit pattern; nothing computes with it.\<close>

datatype param_t = P_int int | P_double "64 word" | P_bool bool | P_string string

datatype value_t = V_int int | V_double "64 word" | V_bool bool | V_string string
  | V_time int | V_binary string string

fun value_of_param :: "param_t \<Rightarrow> value_t" where
  "value_of_param (P_int i) = V_int i"
| "value_of_param (P_double d) = V_double d"
| "value_of_param (P_bool b) = V_bool b"
| "value_of_param (P_string s) = V_string s"

type_synonym param_map = "(string, value_t) smap"

definition set_param :: "param_map \<Rightarrow> string \<Rightarrow> param_t \<Rightarrow> param_map" where
  "set_param params name val = fst (sm_insert_or_assign params name (value_of_param val))"

end
