(* ===== verification/Box.thy ===== *)
theory Box
  imports Util_Math Decimal
begin

text \<open>
  Axis-parallel boxes: \<^verbatim>\<open>include/cbag/common/box_t.h\<close>, \<^verbatim>\<open>src/cbag/common/box_t.cpp\<close> and
  \<^verbatim>\<open>box_t_util.cpp\<close>.  A box is an interval in each of the two orientations, the array of the code
  indexed by \<^verbatim>\<open>orient_2d\<close>.  The three functions of Boost.Polygon that are called are arguments of
  the operations that call them.
\<close>

section \<open>The operations\<close>

datatype orient_2d = Horizontal | Vertical

fun orient_to_int :: "orient_2d \<Rightarrow> nat" where
  "orient_to_int Horizontal = 0"
| "orient_to_int Vertical = 1"

definition perpendicular :: "orient_2d \<Rightarrow> orient_2d" where
  "perpendicular val = (if 1 - orient_to_int val = 0 then Horizontal else Vertical)"

record box_t =
  box_h :: "int \<times> int"
  box_v :: "int \<times> int"

text \<open>Reading and writing \<^verbatim>\<open>intvs[to_int(orient)]\<close>.\<close>

fun box_intv :: "box_t \<Rightarrow> orient_2d \<Rightarrow> int \<times> int" where
  "box_intv b Horizontal = box_h b"
| "box_intv b Vertical = box_v b"

fun box_set_intv :: "box_t \<Rightarrow> orient_2d \<Rightarrow> int \<times> int \<Rightarrow> box_t" where
  "box_set_intv b Horizontal i = b\<lparr>box_h := i\<rparr>"
| "box_set_intv b Vertical i = b\<lparr>box_v := i\<rparr>"

definition make_box :: "int \<Rightarrow> int \<Rightarrow> int \<Rightarrow> int \<Rightarrow> box_t" where
  "make_box xl yl xh yh = \<lparr>box_h = (xl, xh), box_v = (yl, yh)\<rparr>"

definition make_box_orient :: "orient_2d \<Rightarrow> int \<Rightarrow> int \<Rightarrow> int \<Rightarrow> int \<Rightarrow> box_t" where
  "make_box_orient orient t0 t1 p0 p1 =
     box_set_intv (box_set_intv (make_box 0 0 0 0) orient (t0, t1)) (perpendicular orient) (p0, p1)"

definition invalid_box :: box_t where
  "invalid_box = make_box 0 0 (-1) (-1)"

definition box_dim :: "box_t \<Rightarrow> orient_2d \<Rightarrow> int" where
  "box_dim b orient = snd (box_intv b orient) - fst (box_intv b orient)"

definition box_center :: "box_t \<Rightarrow> orient_2d \<Rightarrow> int" where
  "box_center b orient = floor2 (fst (box_intv b orient) + snd (box_intv b orient))"

definition box_set :: "box_t \<Rightarrow> int \<Rightarrow> int \<Rightarrow> int \<Rightarrow> int \<Rightarrow> box_t" where
  "box_set b xl yl xh yh = b\<lparr>box_h := (xl, xh), box_v := (yl, yh)\<rparr>"

definition box_set_interval :: "box_t \<Rightarrow> orient_2d \<Rightarrow> int \<Rightarrow> int \<Rightarrow> box_t" where
  "box_set_interval b orient t0 t1 = box_set_intv b orient (t0, t1)"

definition box_xl :: "box_t \<Rightarrow> int" where "box_xl b = fst (box_h b)"
definition box_yl :: "box_t \<Rightarrow> int" where "box_yl b = fst (box_v b)"
definition box_xh :: "box_t \<Rightarrow> int" where "box_xh b = snd (box_h b)"
definition box_yh :: "box_t \<Rightarrow> int" where "box_yh b = snd (box_v b)"
definition box_xm :: "box_t \<Rightarrow> int" where "box_xm b = box_center b Horizontal"
definition box_ym :: "box_t \<Rightarrow> int" where "box_ym b = box_center b Vertical"
definition box_width :: "box_t \<Rightarrow> int" where "box_width b = box_dim b Horizontal"
definition box_height :: "box_t \<Rightarrow> int" where "box_height b = box_dim b Vertical"

definition box_lower :: "box_t \<Rightarrow> orient_2d \<Rightarrow> int" where
  "box_lower b orient = fst (box_intv b orient)"

definition box_upper :: "box_t \<Rightarrow> orient_2d \<Rightarrow> int" where
  "box_upper b orient = snd (box_intv b orient)"

definition box_to_string :: "box_t \<Rightarrow> string" where
  "box_to_string b = ''BBox('' @ int_to_string (box_xl b) @ '', '' @ int_to_string (box_yl b) @ '', ''
     @ int_to_string (box_xh b) @ '', '' @ int_to_string (box_yh b) @ '')''"

definition box_is_physical :: "box_t \<Rightarrow> bool" where
  "box_is_physical b \<longleftrightarrow> box_width b > 0 \<and> box_height b > 0"

definition box_is_valid :: "box_t \<Rightarrow> bool" where
  "box_is_valid b \<longleftrightarrow> box_width b \<ge> 0 \<and> box_height b \<ge> 0"

text \<open>\<^verbatim>\<open>bp::intersects(box, other, true)\<close> is the argument \<open>intersects\<close>.\<close>

definition box_overlaps :: "(box_t \<Rightarrow> box_t \<Rightarrow> bool) \<Rightarrow> box_t \<Rightarrow> box_t \<Rightarrow> bool" where
  "box_overlaps intersects b other \<longleftrightarrow>
     box_is_valid b \<and> box_is_physical other \<and> intersects b other"

text \<open>\<^verbatim>\<open>bp::encompass(box, other)\<close>, which changes its first argument, is \<open>encompass\<close>.\<close>

definition box_merge :: "(box_t \<Rightarrow> box_t \<Rightarrow> box_t) \<Rightarrow> box_t \<Rightarrow> box_t \<Rightarrow> box_t" where
  "box_merge encompass b other =
     (if \<not> box_is_valid other then b
      else let b' = (if \<not> box_is_valid b then other else b) in encompass b' other)"

definition box_intersect :: "box_t \<Rightarrow> box_t \<Rightarrow> box_t" where
  "box_intersect b other =
     box_set b (max (box_xl b) (box_xl other)) (max (box_yl b) (box_yl other))
       (min (box_xh b) (box_xh other)) (min (box_yh b) (box_yh other))"

definition intv_include :: "int \<times> int \<Rightarrow> int option \<Rightarrow> int \<times> int" where
  "intv_include i c = (case c of None \<Rightarrow> i | Some v \<Rightarrow> (min (fst i) v, max (snd i) v))"

definition box_extend_orient :: "box_t \<Rightarrow> orient_2d \<Rightarrow> int option \<Rightarrow> int option \<Rightarrow> box_t" where
  "box_extend_orient b orient ct cp =
     (if box_is_valid b then
        (let b1 = box_set_intv b orient (intv_include (box_intv b orient) ct);
             o2 = perpendicular orient
         in box_set_intv b1 o2 (intv_include (box_intv b1 o2) cp))
      else b)"

definition box_extend :: "box_t \<Rightarrow> int option \<Rightarrow> int option \<Rightarrow> box_t" where
  "box_extend b x y = box_extend_orient b Horizontal x y"

definition box_expand :: "box_t \<Rightarrow> int \<Rightarrow> int \<Rightarrow> box_t" where
  "box_expand b dx dy =
     (if box_is_valid b
      then box_set b (box_xl b - dx) (box_yl b - dy) (box_xh b + dx) (box_yh b + dy) else b)"

text \<open>\<^verbatim>\<open>bp::transform(box, xform)\<close> is \<open>bp_transform\<close>.\<close>

definition box_transform :: "(box_t \<Rightarrow> 'x \<Rightarrow> box_t) \<Rightarrow> box_t \<Rightarrow> 'x \<Rightarrow> box_t" where
  "box_transform bp_transform b xform = (if \<not> box_is_valid b then b else bp_transform b xform)"

definition box_move_by_orient :: "box_t \<Rightarrow> orient_2d \<Rightarrow> int \<Rightarrow> int \<Rightarrow> box_t" where
  "box_move_by_orient b orient dt dp =
     (let i = box_intv b orient;
          b1 = box_set_intv b orient (fst i + dt, snd i + dt);
          o2 = perpendicular orient; j = box_intv b1 o2
      in box_set_intv b1 o2 (fst j + dp, snd j + dp))"

definition box_move_by :: "box_t \<Rightarrow> int \<Rightarrow> int \<Rightarrow> box_t" where
  "box_move_by b dx dy = box_move_by_orient b Horizontal dx dy"

definition box_flip_xy :: "box_t \<Rightarrow> box_t" where
  "box_flip_xy b = b\<lparr>box_h := box_v b, box_v := box_h b\<rparr>"

section \<open>Boxes as sets of points\<close>

definition box_points :: "box_t \<Rightarrow> (int \<times> int) set" where
  "box_points b = {box_xl b..box_xh b} \<times> {box_yl b..box_yh b}"

lemmas box_corner_defs = box_xl_def box_yl_def box_xh_def box_yh_def

lemma box_intv_set [simp]:
  "box_intv (box_set_intv b orient i) orient' = (if orient = orient' then i else box_intv b orient')"
  by (cases orient; cases orient') auto

lemma perpendicular_simps [simp]:
  "perpendicular Horizontal = Vertical" "perpendicular Vertical = Horizontal"
  "perpendicular (perpendicular orient) = orient" "perpendicular orient \<noteq> orient"
  "orient \<noteq> perpendicular orient"
  by (simp add: perpendicular_def, simp add: perpendicular_def)
     (cases orient; simp add: perpendicular_def)+

lemma box_valid_iff: "box_is_valid b \<longleftrightarrow> box_points b \<noteq> {}"
  by (auto simp: box_is_valid_def box_points_def box_width_def box_height_def box_dim_def
      box_corner_defs)

lemma box_points_mono:
  "box_is_valid a \<Longrightarrow> box_points a \<subseteq> box_points b \<longleftrightarrow>
     box_xl b \<le> box_xl a \<and> box_yl b \<le> box_yl a \<and> box_xh a \<le> box_xh b \<and> box_yh a \<le> box_yh b"
  by (auto simp: box_is_valid_def box_points_def box_width_def box_height_def box_dim_def
      box_corner_defs times_subset_iff)

text \<open>What \<^verbatim>\<open>encompass\<close> is documented to do: enlarge the first box to contain the second.\<close>

definition encompass_law :: "(box_t \<Rightarrow> box_t \<Rightarrow> box_t) \<Rightarrow> bool" where
  "encompass_law enc \<longleftrightarrow> (\<forall>a b. box_is_valid a \<longrightarrow> box_is_valid b \<longrightarrow>
     enc a b = make_box (min (box_xl a) (box_xl b)) (min (box_yl a) (box_yl b))
                        (max (box_xh a) (box_xh b)) (max (box_yh a) (box_yh b)))"

section \<open>Properties\<close>

text \<open>
  \<^verbatim>\<open>intersect\<close> covers exactly the common points of two boxes, and the result is valid exactly when
  there are any; boxes that only share an edge intersect in a valid, non-physical box.
\<close>

theorem box_intersect_correct:
  "box_points (box_intersect b other) = box_points b \<inter> box_points other \<and>
   (box_is_valid (box_intersect b other) \<longleftrightarrow> box_points b \<inter> box_points other \<noteq> {})"
proof -
  have "box_points (box_intersect b other) = box_points b \<inter> box_points other"
    by (auto simp: box_points_def box_intersect_def box_set_def box_corner_defs)
  then show ?thesis by (simp add: box_valid_iff)
qed

text \<open>
  Given the documented behaviour of Boost's \<^verbatim>\<open>encompass\<close>, \<^verbatim>\<open>merge\<close> computes the least box around
  both boxes; an invalid box contributes nothing on either side.
\<close>

theorem box_merge_least:
  assumes "encompass_law encompass"
  shows "box_points b \<union> box_points other \<subseteq> box_points (box_merge encompass b other) \<and>
    (box_is_valid c \<and> box_points b \<union> box_points other \<subseteq> box_points c \<and>
       (box_is_valid b \<or> box_is_valid other) \<longrightarrow>
     box_points (box_merge encompass b other) \<subseteq> box_points c)"
proof -
  have enc: "encompass x y = make_box (min (box_xl x) (box_xl y)) (min (box_yl x) (box_yl y))
      (max (box_xh x) (box_xh y)) (max (box_yh x) (box_yh y))"
    if "box_is_valid x" "box_is_valid y" for x y
    using assms that by (simp add: encompass_law_def)
  have corners: "box_xl (make_box p q r s) = p" "box_yl (make_box p q r s) = q"
    "box_xh (make_box p q r s) = r" "box_yh (make_box p q r s) = s" for p q r s
    by (simp_all add: make_box_def box_corner_defs)
  consider "\<not> box_is_valid other" | "box_is_valid other" "\<not> box_is_valid b"
    | "box_is_valid other" "box_is_valid b" by blast
  then show ?thesis
  proof cases
    case 1
    then have "box_merge encompass b other = b" "box_points other = {}"
      by (simp_all add: box_merge_def box_valid_iff)
    then show ?thesis by simp
  next
    case 2
    then have "box_merge encompass b other = encompass other other" "box_points b = {}"
      by (simp_all add: box_merge_def box_valid_iff)
    moreover have "box_points (encompass other other) = box_points other"
      using enc [OF 2(1) 2(1)] by (simp add: box_points_def corners)
    ultimately show ?thesis by simp
  next
    case 3
    then have m: "box_merge encompass b other = encompass b other" by (simp add: box_merge_def)
    have "box_is_valid (encompass b other)"
      using 3 enc [OF 3(2,1)]
      by (auto simp: box_is_valid_def box_width_def box_height_def box_dim_def make_box_def box_corner_defs)
    then show ?thesis
      using 3 by (simp add: m box_points_mono enc corners)
  qed
qed

theorem box_merge_least_witness:
  "box_points (make_box 0 0 2 2) \<union> box_points (make_box 1 1 5 3)
     \<subseteq> box_points (box_merge (\<lambda>a b. make_box (min (box_xl a) (box_xl b)) (min (box_yl a) (box_yl b))
          (max (box_xh a) (box_xh b)) (max (box_yh a) (box_yh b))) (make_box 0 0 2 2) (make_box 1 1 5 3))"
  using box_merge_least [of "\<lambda>a b. make_box (min (box_xl a) (box_xl b)) (min (box_yl a) (box_yl b))
      (max (box_xh a) (box_xh b)) (max (box_yh a) (box_yh b))" "make_box 0 0 2 2" "make_box 1 1 5 3"]
  by (simp add: encompass_law_def)

end
