(* ===== verification/Schematic.thy ===== *)
theory Schematic
  imports Name_Partition Params Box
begin

text \<open>
  Schematic instances and cellviews: \<^verbatim>\<open>src/cbag/schematic/instance.cpp\<close>, \<^verbatim>\<open>cellview.cpp\<close> and
  \<^verbatim>\<open>include/cbag/schematic/cellview_inst_mod.h\<close>.  The connections of an instance map a terminal to
  the net on it, both as text; the width of the net has to match the instance.  Placements are
  values of Boost's transformation type, a type parameter here, as are the figures of pins and the
  shapes, which these operations only carry along.  Instances are owned by unique pointers, so a map
  from names to instances is a map to their values.
\<close>

section \<open>Instances\<close>

record 'x sch_instance =
  inst_lib_name :: string
  inst_cell_name :: string
  inst_view_name :: string
  inst_xform :: 'x
  inst_bbox :: box_t
  inst_is_primitive :: bool
  inst_connections :: "(string, string) smap"
  inst_params :: param_map

definition make_instance ::
  "string \<Rightarrow> string \<Rightarrow> string \<Rightarrow> 'x \<Rightarrow> int \<Rightarrow> int \<Rightarrow> int \<Rightarrow> int \<Rightarrow> 'x sch_instance" where
  "make_instance lib cell view xform xl yl xh yh =
     \<lparr>inst_lib_name = lib, inst_cell_name = cell, inst_view_name = view, inst_xform = xform,
      inst_bbox = make_box xl yl xh yh, inst_is_primitive = False, inst_connections = [],
      inst_params = []\<rparr>"

definition inst_width :: "'x sch_instance \<Rightarrow> int" where
  "inst_width inst = box_width (inst_bbox inst)"

definition inst_height :: "'x sch_instance \<Rightarrow> int" where
  "inst_height inst = box_height (inst_bbox inst)"

definition inst_clear_params :: "'x sch_instance \<Rightarrow> 'x sch_instance" where
  "inst_clear_params inst = inst\<lparr>inst_params := []\<rparr>"

definition inst_set_param :: "'x sch_instance \<Rightarrow> string \<Rightarrow> param_t \<Rightarrow> 'x sch_instance" where
  "inst_set_param inst name val = inst\<lparr>inst_params := set_param (inst_params inst) name val\<rparr>"

text \<open>The overload that is given the number of bits of the instance, and the one that parses it.\<close>

definition inst_update_connection_n ::
  "'x sch_instance \<Rightarrow> cnt_t \<Rightarrow> string \<Rightarrow> string \<Rightarrow> 'x sch_instance result" where
  "inst_update_connection_n inst inst_size term_str net_str =
     bindR (parse_cdba_name_unit term_str) (\<lambda>n_term.
     bindR (parse_cdba_name net_str) (\<lambda>n_net.
       let tot_size = inst_size * unit_size n_term;
           net_size = name_size n_net in
       if tot_size = net_size
       then Inr (inst\<lparr>inst_connections :=
              fst (sm_insert_or_assign (inst_connections inst) term_str net_str)\<rparr>)
       else bindR (std_div tot_size net_size) (\<lambda>(quot, rem).
         if rem \<noteq> 0 then Inl Invalid_argument
         else Inr (inst\<lparr>inst_connections :=
                fst (sm_insert_or_assign (inst_connections inst) term_str
                       (name_to_string_cdba (name_repeat n_net quot)))\<rparr>))))"

definition inst_update_connection ::
  "'x sch_instance \<Rightarrow> string \<Rightarrow> string \<Rightarrow> string \<Rightarrow> 'x sch_instance result" where
  "inst_update_connection inst inst_name term_str net_str =
     bindR (parse_cdba_name_unit inst_name) (\<lambda>nu.
       inst_update_connection_n inst (unit_size nu) term_str net_str)"

definition inst_update_master ::
  "'x sch_instance \<Rightarrow> string \<Rightarrow> string \<Rightarrow> bool \<Rightarrow> bool \<Rightarrow> 'x sch_instance" where
  "inst_update_master inst lib cell prim keep_connections =
     (let inst1 = inst_clear_params
            (inst\<lparr>inst_lib_name := lib, inst_cell_name := cell, inst_is_primitive := prim\<rparr>)
      in if \<not> keep_connections then inst1\<lparr>inst_connections := []\<rparr> else inst1)"

text \<open>
  The loop that repeats all nets: an exception of the parser leaves the nets before the offending
  one changed.
\<close>

fun repeat_nets :: "cnt_t \<Rightarrow> (string, string) smap \<Rightarrow> (string, string) smap outcome" where
  "repeat_nets quot [] = (None, [])"
| "repeat_nets quot ((t, net) # rest) =
     (case parse_cdba_name net of
        Inl e \<Rightarrow> (Some e, (t, net) # rest)
      | Inr na \<Rightarrow>
          (case repeat_nets quot rest of
             (e, rest') \<Rightarrow> (e, (t, name_to_string_cdba (name_repeat na quot)) # rest')))"

definition inst_resize_nets :: "'x sch_instance \<Rightarrow> cnt_t \<Rightarrow> cnt_t \<Rightarrow> 'x sch_instance outcome" where
  "inst_resize_nets inst old_size new_size =
     (case std_div new_size old_size of
        Inl e \<Rightarrow> (Some e, inst)
      | Inr (quot, rem) \<Rightarrow>
          if rem \<noteq> 0 then (None, inst\<lparr>inst_connections := []\<rparr>)
          else (case repeat_nets quot (inst_connections inst) of
                  (e, conns) \<Rightarrow> (e, inst\<lparr>inst_connections := conns\<rparr>)))"

section \<open>Cellviews\<close>

text \<open>
  The enumerations have an underlying type of 8 bits; the last constructor stands for its values that
  are no enumerators.
\<close>

datatype sig_type = Sig_signal | Sig_power | Sig_ground | Sig_clock | Sig_tieOff | Sig_tieHi
  | Sig_tieLo | Sig_analog | Sig_scan | Sig_reset | Sig_other "8 word"

datatype term_type = Term_input | Term_output | Term_inout | Term_switch | Term_jumper
  | Term_unused | Term_tristate | Term_other "8 word"

record 'p pin_figure =
  pf_obj :: 'p
  pf_stype :: sig_type
  pf_ttype :: term_type
  pf_attrs :: "(string, string) smap"

type_synonym 'x inst_map_t = "(string, 'x sch_instance) smap"

record ('x, 'p, 's) cv_data =
  cv_lib_name :: string
  cv_cell_name :: string
  cv_view_name :: string
  cv_bbox :: box_t
  cv_terminals :: "(string, 'p pin_figure) smap"
  cv_shapes :: "'s list"
  cv_instances :: "'x inst_map_t"
  cv_props :: param_map
  cv_app_defs :: param_map

text \<open>A cellview owns the cellview of its symbol, if it has one.\<close>

datatype ('x, 'p, 's) cellview =
  Cellview (cv_fields: "('x, 'p, 's) cv_data") (cv_symbol: "('x, 'p, 's) cellview option")

definition validate_terminal :: "string \<times> 'p pin_figure \<Rightarrow> unit result" where
  "validate_terminal t =
     (if pf_ttype (snd t) \<noteq> Term_input \<and> pf_ttype (snd t) \<noteq> Term_output \<and>
         pf_ttype (snd t) \<noteq> Term_inout then Inl Runtime_error
      else (case parse_cdba_name_unit (fst t) of
              Inl e \<Rightarrow> Inl (if e = Invalid_argument then Runtime_error else e)
            | Inr ast \<Rightarrow> Inr ()))"

fun validate_sch_cellview :: "('x, 'p, 's) cellview \<Rightarrow> unit result" where
  "validate_sch_cellview (Cellview d sy) =
     foldR (\<lambda>u t. validate_terminal t) () (cv_terminals d)"

text \<open>The instances of a copy are appended one by one with \<^verbatim>\<open>emplace_back\<close>.\<close>

definition copy_instances :: "'x inst_map_t \<Rightarrow> 'x inst_map_t result" where
  "copy_instances m = foldR (\<lambda>ans p. sm_emplace_back ans (fst p) (snd p)) [] m"

fun cv_get_copy :: "('x, 'p, 's) cellview \<Rightarrow> ('x, 'p, 's) cellview result" where
  "cv_get_copy (Cellview d sy) =
     bindR (copy_instances (cv_instances d)) (\<lambda>insts.
       let d' = \<lparr>cv_lib_name = cv_lib_name d, cv_cell_name = cv_cell_name d,
                 cv_view_name = cv_view_name d,
                 cv_bbox = make_box (box_xl (cv_bbox d)) (box_yl (cv_bbox d))
                             (box_xh (cv_bbox d)) (box_yh (cv_bbox d)),
                 cv_terminals = cv_terminals d, cv_shapes = cv_shapes d, cv_instances = insts,
                 cv_props = cv_props d, cv_app_defs = cv_app_defs d\<rparr> in
       (case sy of
          None \<Rightarrow> Inr (Cellview d' None)
        | Some s \<Rightarrow> bindR (cv_get_copy s) (\<lambda>s'. Inr (Cellview d' (Some s')))))"

fun cv_clear_params :: "('x, 'p, 's) cellview \<Rightarrow> ('x, 'p, 's) cellview" where
  "cv_clear_params (Cellview d sy) = Cellview (d\<lparr>cv_props := []\<rparr>) sy"

fun cv_set_param :: "('x, 'p, 's) cellview \<Rightarrow> string \<Rightarrow> param_t \<Rightarrow> ('x, 'p, 's) cellview" where
  "cv_set_param (Cellview d sy) name val =
     Cellview (d\<lparr>cv_props := set_param (cv_props d) name val\<rparr>) sy"

fun cv_rename_pin ::
  "string \<Rightarrow> string \<Rightarrow> ('x, 'p, 's) cellview \<Rightarrow> ('x, 'p, 's) cellview outcome" where
  "cv_rename_pin old_name new_name (Cellview d sy) =
     (if sm_find (cv_terminals d) new_name \<noteq> length (cv_terminals d)
      then (Some Invalid_argument, Cellview d sy)
      else (case parse_cdba_name_unit new_name of
          Inl e \<Rightarrow> (Some e, Cellview d sy)
        | Inr ast \<Rightarrow>
            (case sm_replace_key (cv_terminals d) old_name new_name of (terms, iter) \<Rightarrow>
              let d' = d\<lparr>cv_terminals := terms\<rparr> in
              if iter = length terms then (Some Invalid_argument, Cellview d' sy)
              else (case sy of
                  None \<Rightarrow> (None, Cellview d' None)
                | Some s \<Rightarrow> (case cv_rename_pin old_name new_name s of
                               (e, s') \<Rightarrow> (e, Cellview d' (Some s')))))))"

text \<open>\<^verbatim>\<open>add_pin\<close> checks its arguments and then reports that it is not implemented.\<close>

fun cv_add_pin :: "('x, 'p, 's) cellview \<Rightarrow> string \<Rightarrow> ('x, 'p, 's) cellview outcome" where
  "cv_add_pin (Cellview d sy) new_name =
     (case parse_cdba_name_unit new_name of
        Inl e \<Rightarrow> (Some e, Cellview d sy)
      | Inr ast \<Rightarrow>
          if sm_find (cv_terminals d) new_name \<noteq> length (cv_terminals d)
          then (Some Invalid_argument, Cellview d sy) else (Some Runtime_error, Cellview d sy))"

fun cv_set_pin_attribute ::
  "('x, 'p, 's) cellview \<Rightarrow> string \<Rightarrow> string \<Rightarrow> string \<Rightarrow> ('x, 'p, 's) cellview result" where
  "cv_set_pin_attribute (Cellview d sy) pin_name key val =
     (let m = cv_terminals d; iter = sm_find m pin_name in
      if iter = length m then Inl Invalid_argument
      else
        let fig = snd (m ! iter);
            fig' = fig\<lparr>pf_attrs := fst (sm_emplace (pf_attrs fig) key val)\<rparr>
        in Inr (Cellview (d\<lparr>cv_terminals := m[iter := (fst (m ! iter), fig')]\<rparr>) sy))"

fun cv_remove_pin :: "string \<Rightarrow> ('x, 'p, 's) cellview \<Rightarrow> ('x, 'p, 's) cellview \<times> bool" where
  "cv_remove_pin name (Cellview d sy) =
     (case sm_erase (cv_terminals d) name of (terms, n) \<Rightarrow>
       let success = n > 0; d' = d\<lparr>cv_terminals := terms\<rparr> in
       if success
       then (case sy of None \<Rightarrow> (Cellview d' None, success)
             | Some s \<Rightarrow> (Cellview d' (Some (fst (cv_remove_pin name s))), success))
       else (Cellview d' sy, success))"

fun cv_rename_instance ::
  "('x, 'p, 's) cellview \<Rightarrow> string \<Rightarrow> string \<Rightarrow> ('x, 'p, 's) cellview outcome" where
  "cv_rename_instance (Cellview d sy) old_name new_name =
     (if sm_find (cv_instances d) new_name \<noteq> length (cv_instances d)
      then (Some Invalid_argument, Cellview d sy)
      else (case parse_cdba_name_rep new_name of
          Inl e \<Rightarrow> (Some e, Cellview d sy)
        | Inr new_ast \<Rightarrow>
            (case sm_replace_key (cv_instances d) old_name new_name of (insts, iter) \<Rightarrow>
              if iter = length insts
              then (Some Invalid_argument, Cellview (d\<lparr>cv_instances := insts\<rparr>) sy)
              else (case parse_cdba_name_rep old_name of
                  Inl e \<Rightarrow> (Some e, Cellview (d\<lparr>cv_instances := insts\<rparr>) sy)
                | Inr old_ast \<Rightarrow>
                    let old_size = rep_size old_ast; new_size = rep_size new_ast in
                    if old_size \<noteq> new_size
                    then (case inst_resize_nets (snd (insts ! iter)) old_size new_size of
                            (e, inst) \<Rightarrow>
                              (e, Cellview (d\<lparr>cv_instances := insts[iter := (fst (insts ! iter), inst)]\<rparr>) sy))
                    else (None, Cellview (d\<lparr>cv_instances := insts\<rparr>) sy)))))"

fun cv_remove_instance :: "('x, 'p, 's) cellview \<Rightarrow> string \<Rightarrow> ('x, 'p, 's) cellview \<times> bool" where
  "cv_remove_instance (Cellview d sy) name =
     (case sm_erase (cv_instances d) name of
        (insts, n) \<Rightarrow> (Cellview (d\<lparr>cv_instances := insts\<rparr>) sy, n > 0))"

section \<open>Copying instances\<close>

text \<open>
  The connections of a copy, given as a range of pairs: each is applied through
  \<^verbatim>\<open>update_connection\<close>, and an exception leaves those before it in place.
\<close>

fun update_connections ::
  "'x sch_instance \<Rightarrow> cnt_t \<Rightarrow> (string \<times> string) list \<Rightarrow> 'x sch_instance outcome" where
  "update_connections inst inst_size [] = (None, inst)"
| "update_connections inst inst_size (p # ps) =
     (case inst_update_connection_n inst inst_size (fst p) (snd p) of
        Inl e \<Rightarrow> (Some e, inst)
      | Inr inst' \<Rightarrow> update_connections inst' inst_size ps)"

text \<open>\<open>move_by\<close> is the function of the same name on Boost's transformations.\<close>

definition copy_instance ::
  "('x \<Rightarrow> int \<Rightarrow> int \<Rightarrow> 'x) \<Rightarrow> 'x inst_map_t \<Rightarrow> 'x sch_instance \<Rightarrow> cnt_t \<Rightarrow> string \<Rightarrow> int \<Rightarrow> int
     \<Rightarrow> (string \<times> string) list \<Rightarrow> 'x inst_map_t outcome" where
  "copy_instance move_by instances inst old_size new_name dx dy conns =
     (case parse_cdba_name_rep new_name of
        Inl e \<Rightarrow> (Some e, instances)
      | Inr new_ast \<Rightarrow>
          (case sm_emplace instances new_name inst of (instances1, pos, fresh) \<Rightarrow>
            if \<not> fresh then (Some Invalid_argument, instances1)
            else
              let new_size = rep_size new_ast;
                  put = (\<lambda>i. instances1[pos := (new_name, i)]) in
              (case (if old_size \<noteq> new_size then inst_resize_nets inst old_size new_size
                     else (None, inst)) of
                 (Some e, inst1) \<Rightarrow> (Some e, put inst1)
               | (None, inst1) \<Rightarrow>
                   let inst2 = inst1\<lparr>inst_xform := move_by (inst_xform inst1) dx dy\<rparr> in
                   (case update_connections inst2 new_size conns of (e, inst3) \<Rightarrow> (e, put inst3)))))"

fun copy_instances_at ::
  "('x \<Rightarrow> int \<Rightarrow> int \<Rightarrow> 'x) \<Rightarrow> 'x sch_instance \<Rightarrow> cnt_t \<Rightarrow> int \<Rightarrow> int \<Rightarrow> int \<Rightarrow> int
     \<Rightarrow> (string \<times> (string \<times> string) list) list \<Rightarrow> 'x inst_map_t \<Rightarrow> 'x inst_map_t outcome" where
  "copy_instances_at move_by inst old_size dx dy x y [] instances = (None, instances)"
| "copy_instances_at move_by inst old_size dx dy x y (p # ps) instances =
     (case copy_instance move_by instances inst old_size (fst p) x y (snd p) of
        (Some e, instances') \<Rightarrow> (Some e, instances')
      | (None, instances') \<Rightarrow>
          copy_instances_at move_by inst old_size dx dy (x + dx) (y + dy) ps instances')"

definition array_instance ::
  "('x \<Rightarrow> int \<Rightarrow> int \<Rightarrow> 'x) \<Rightarrow> 'x inst_map_t \<Rightarrow> string \<Rightarrow> int \<Rightarrow> int
     \<Rightarrow> (string \<times> (string \<times> string) list) list \<Rightarrow> 'x inst_map_t outcome" where
  "array_instance move_by instances old_name dx dy name_conn_range =
     (case sm_lookup instances old_name of
        None \<Rightarrow> (Some Invalid_argument, instances)
      | Some inst \<Rightarrow>
          (case parse_cdba_name_rep old_name of
             Inl e \<Rightarrow> (Some e, instances)
           | Inr old_ast \<Rightarrow>
               let dx' = (if dx = 0 \<and> dy = 0 then box_width (inst_bbox inst) + 10 else dx) in
               (case copy_instances_at move_by inst (rep_size old_ast) dx' dy 0 0
                       name_conn_range instances of
                  (Some e, instances') \<Rightarrow> (Some e, instances')
                | (None, instances') \<Rightarrow> (None, fst (sm_erase instances' old_name)))))"

section \<open>Repeated nets\<close>

lemma name_size_length:
  assumes "name_printable na" and "length (name_expand ns na) < 2 ^ 64"
  shows "unat (name_size na) = length (name_expand ns na)"
proof -
  have "of_nat (length (name_expand ns na)) = name_size na"
    using assms(1) by (intro expand_length printable_ok)
  then have "unat (name_size na) = unat (of_nat (length (name_expand ns na)) :: cnt_t)" by simp
  with assms(2) show ?thesis by (simp add: unat_of_nat)
qed

lemma name_repeat_printable:
  assumes na: "name_printable na" and q: "0 < unat q" "unat q * length (name_expand ns na) < 2 ^ 32"
  shows "name_printable (name_repeat na q)"
proof -
  have pos: "0 < length (name_expand ns na)" by (rule printable_expand_pos(3) [OF na])
  then have "unat q \<le> unat q * length (name_expand ns na)" by (cases "length (name_expand ns na)") auto
  also note q(2)
  finally have q32: "field32 q" "q \<noteq> 0" using q(1) by (auto simp: field32_def)
  obtain reps where reps: "na = Name reps" by (cases na)
  show ?thesis
  proof (cases "q = 1 \<or> (\<nexists>m d. reps = [Name_rep m d])")
    case True
    then show ?thesis using na reps q32 by (cases reps; cases "hd reps"; cases "tl reps") auto
  next
    case False
    then obtain m d where r: "reps = [Name_rep m d]" by auto
    then have d: "data_printable d" and m: "m \<noteq> 0" using na reps by auto
    have "0 < length (data_expand ns d)" by (rule printable_expand_pos(2) [OF d])
    then have "unat m * unat q \<le> unat q * (unat m * length (data_expand ns d))"
      by (cases "length (data_expand ns d)") (auto simp: mult.commute)
    also have "\<dots> < 2 ^ 32" using q(2) reps r by simp
    finally have mq: "unat m * unat q < 2 ^ 32" .
    then have "unat (m * q) = unat m * unat q" by (subst unat_mult_lem [THEN iffD1]) simp_all
    then have "field32 (m * q)" "m * q \<noteq> 0" using mq m q(1) by (auto simp: field32_def unat_eq_0 unat_gt_0)
    with False reps r d q32 show ?thesis by simp
  qed
qed

text \<open>The text of a repeated net parses, and has the repeated bits.\<close>

lemma parse_repeat:
  assumes "name_printable na" and "0 < unat q" and "unat q * length (name_expand Cdba na) < 2 ^ 32"
  shows "\<exists>na'. parse_cdba_name (name_to_string_cdba (name_repeat na q)) = Inr na' \<and>
    (\<forall>ns. name_expand ns na' = concat (replicate (unat q) (name_expand ns na)))"
proof -
  have rep: "name_printable (name_repeat na q)" by (rule name_repeat_printable [OF assms])
  have "name_expand ns (name_repeat na q) = concat (replicate (unat q) (name_expand ns na))" for ns
  proof (rule name_repeat_expand)
    have "unat q * length (name_expand ns na) < 2 ^ 32"
      using assms(3) by (simp only: expand_length_ns(3) [of ns na Cdba])
    then show "unat q * length (name_expand ns na) < 2 ^ 64" by simp
  qed
  with parse_print [OF rep] norm_expand(3) show ?thesis by simp
qed

section \<open>Connections that fit\<close>

text \<open>
  The net on a terminal has one bit for every bit of the terminal on every bit of the instance.
\<close>

definition conn_fits :: "nat \<Rightarrow> string \<times> string \<Rightarrow> bool" where
  "conn_fits n c \<longleftrightarrow>
     (\<exists>nu na. parse_cdba_name_unit (fst c) = Inr nu \<and> parse_cdba_name (snd c) = Inr na \<and>
        length (name_expand Cdba na) = n * unat (unit_size nu) \<and> n * unat (unit_size nu) < 2 ^ 32)"

definition conns_repeated :: "nat \<Rightarrow> (string \<times> string) list \<Rightarrow> (string \<times> string) list \<Rightarrow> bool" where
  "conns_repeated k cs cs' \<longleftrightarrow> list_all2 (\<lambda>c c'. fst c' = fst c \<and>
     (\<exists>na na'. parse_cdba_name (snd c) = Inr na \<and> parse_cdba_name (snd c') = Inr na' \<and>
        (\<forall>ns. name_expand ns na' = concat (replicate k (name_expand ns na))))) cs cs'"

definition term_bits :: "string \<Rightarrow> nat" where
  "term_bits t = (case parse_cdba_name_unit t of Inl e \<Rightarrow> 0 | Inr nu \<Rightarrow> unat (unit_size nu))"

lemma unit_size_pos: "0 < unat (unit_size nu)"
  by (auto simp: unit_size_def max_word_1 unat_gt_0)

lemma repeat_nets_fits:
  assumes "\<forall>c\<in>set cs. conn_fits n c" and "0 < n" and "0 < unat q"
    and "\<forall>c\<in>set cs. unat q * n * term_bits (fst c) < 2 ^ 32"
  shows "\<exists>cs'. repeat_nets q cs = (None, cs') \<and> map fst cs' = map fst cs \<and>
    (\<forall>c\<in>set cs'. conn_fits (unat q * n) c) \<and>
    list_all2 (\<lambda>c c'. \<exists>na na'. parse_cdba_name (snd c) = Inr na \<and> parse_cdba_name (snd c') = Inr na' \<and>
      (\<forall>ns. name_expand ns na' = concat (replicate (unat q) (name_expand ns na)))) cs cs'"
  using assms
proof (induction cs)
  case (Cons c cs)
  then obtain cs' where cs': "repeat_nets q cs = (None, cs')" "map fst cs' = map fst cs"
    "\<forall>c\<in>set cs'. conn_fits (unat q * n) c"
    "list_all2 (\<lambda>c c'. \<exists>na na'. parse_cdba_name (snd c) = Inr na \<and> parse_cdba_name (snd c') = Inr na' \<and>
      (\<forall>ns. name_expand ns na' = concat (replicate (unat q) (name_expand ns na)))) cs cs'"
    by auto
  obtain t net where c: "c = (t, net)" by (cases c)
  obtain nu na where p: "parse_cdba_name_unit t = Inr nu" "parse_cdba_name net = Inr na"
    "length (name_expand Cdba na) = n * unat (unit_size nu)"
    using Cons.prems(1) c by (auto simp: conn_fits_def)
  have "term_bits t = unat (unit_size nu)" using p(1) by (simp add: term_bits_def)
  then have small: "unat q * length (name_expand Cdba na) < 2 ^ 32"
    using Cons.prems(4) c p(3) by (simp add: mult.assoc)
  obtain na' where na': "parse_cdba_name (name_to_string_cdba (name_repeat na q)) = Inr na'"
    "\<forall>ns. name_expand ns na' = concat (replicate (unat q) (name_expand ns na))"
    using parse_repeat [OF parse_cdba_name_printable [OF p(2)] Cons.prems(3) small] by blast
  have "conn_fits (unat q * n) (t, name_to_string_cdba (name_repeat na q))"
    using p(1,3) na' small by (simp add: conn_fits_def mult.assoc)
  with cs' c p(2) na' show ?case by auto
qed simp

lemma resize_quotient:
  assumes "0 < unat old" and "unat old < 2 ^ 32" and "unat new < 2 ^ 32"
  shows "\<exists>q. std_div new old = Inr (q, int (unat new mod unat old)) \<and> unat q = unat new div unat old"
  by (rule std_div_small) (use assms in auto)

lemma inst_resize_nets_fits:
  assumes conns: "sm_inv (inst_connections inst)" "\<forall>c\<in>set (inst_connections inst). conn_fits (unat old) c"
    and sizes: "0 < unat old" "unat old < 2 ^ 32" "0 < unat new" "unat new < 2 ^ 32"
    and small: "\<forall>c\<in>set (inst_connections inst). unat new * term_bits (fst c) < 2 ^ 32"
  shows "\<exists>cs. inst_resize_nets inst old new = (None, inst\<lparr>inst_connections := cs\<rparr>) \<and> sm_inv cs \<and>
    (\<forall>c\<in>set cs. conn_fits (unat new) c) \<and>
    (if unat old dvd unat new
     then conns_repeated (unat new div unat old) (inst_connections inst) cs
     else cs = [])"
proof -
  obtain q where q: "std_div new old = Inr (q, int (unat new mod unat old))" "unat q = unat new div unat old"
    using resize_quotient sizes by blast
  show ?thesis
  proof (cases "unat old dvd unat new")
    case False
    then have "unat new mod unat old \<noteq> 0" by (simp add: dvd_eq_mod_eq_0)
    with q(1) False show ?thesis by (simp add: inst_resize_nets_def)
  next
    case True
    then have new: "unat q * unat old = unat new" using q(2) by simp
    then have q_pos: "0 < unat q" using sizes(3) by (cases "unat q") auto
    obtain cs where cs: "repeat_nets q (inst_connections inst) = (None, cs)"
      "map fst cs = map fst (inst_connections inst)" "\<forall>c\<in>set cs. conn_fits (unat new) c"
      "list_all2 (\<lambda>c c'. \<exists>na na'. parse_cdba_name (snd c) = Inr na \<and> parse_cdba_name (snd c') = Inr na' \<and>
        (\<forall>ns. name_expand ns na' = concat (replicate (unat q) (name_expand ns na))))
        (inst_connections inst) cs"
      using repeat_nets_fits [OF conns(2) sizes(1) q_pos] small new by auto
    have "list_all2 (\<lambda>c c'. fst c' = fst c) (inst_connections inst) cs"
      using cs(2) by (simp add: list_all2_conv_all_nth) (metis length_map nth_map)
    moreover have "sm_inv cs" using conns(1) cs(2) by (simp add: sm_inv_def)
    moreover have "inst_resize_nets inst old new = (None, inst\<lparr>inst_connections := cs\<rparr>)"
      using q(1) True cs(1) by (simp add: inst_resize_nets_def dvd_eq_mod_eq_0)
    ultimately show ?thesis
      using cs(3,4) True q(2) by (auto simp: conns_repeated_def list_all2_conv_all_nth)
  qed
qed

section \<open>The instances of a cellview\<close>

text \<open>
  The invariant of the instance map: every name parses, its size is positive and moderate, and every
  connection fits it.
\<close>

definition inst_wf :: "string \<Rightarrow> 'x sch_instance \<Rightarrow> bool" where
  "inst_wf name inst \<longleftrightarrow> sm_inv (inst_connections inst) \<and>
     (\<exists>nr. parse_cdba_name_rep name = Inr nr \<and> 0 < unat (rep_size nr) \<and> unat (rep_size nr) < 2 ^ 32 \<and>
        (\<forall>c\<in>set (inst_connections inst). conn_fits (unat (rep_size nr)) c))"

definition insts_wf :: "'x inst_map_t \<Rightarrow> bool" where
  "insts_wf m \<longleftrightarrow> sm_inv m \<and> (\<forall>p\<in>set m. inst_wf (fst p) (snd p))"

text \<open>An instance that keeps its width keeps its connections.\<close>

lemma conns_repeated_refl:
  assumes "\<forall>c\<in>set cs. conn_fits n c"
  shows "conns_repeated 1 cs cs"
  unfolding conns_repeated_def
proof (rule list.rel_refl_strong)
  fix c assume "c \<in> set cs"
  then obtain na where "parse_cdba_name (snd c) = Inr na"
    using assms unfolding conn_fits_def by blast
  moreover have "\<forall>ns. name_expand ns na = concat (replicate 1 (name_expand ns na))" by simp
  ultimately show "fst c = fst c \<and> (\<exists>na na'. parse_cdba_name (snd c) = Inr na \<and>
      parse_cdba_name (snd c) = Inr na' \<and>
      (\<forall>ns. name_expand ns na' = concat (replicate 1 (name_expand ns na))))"
    by blast
qed

definition resized_conns :: "nat \<Rightarrow> nat \<Rightarrow> (string \<times> string) list \<Rightarrow> (string \<times> string) list \<Rightarrow> bool" where
  "resized_conns n n' cs cs' \<longleftrightarrow> (if n dvd n' then conns_repeated (n' div n) cs cs' else cs' = [])"

lemma inst_resize_if_fits:
  assumes "sm_inv (inst_connections inst)" "\<forall>c\<in>set (inst_connections inst). conn_fits (unat old) c"
    and "0 < unat old" "unat old < 2 ^ 32" "0 < unat new" "unat new < 2 ^ 32"
    and "\<forall>c\<in>set (inst_connections inst). unat new * term_bits (fst c) < 2 ^ 32"
  shows "\<exists>cs. (if old \<noteq> new then inst_resize_nets inst old new else (None, inst))
      = (None, inst\<lparr>inst_connections := cs\<rparr>) \<and> sm_inv cs \<and>
    (\<forall>c\<in>set cs. conn_fits (unat new) c) \<and> resized_conns (unat old) (unat new) (inst_connections inst) cs"
proof (cases "old = new")
  case True
  with assms conns_repeated_refl [OF assms(2)] show ?thesis
    by (intro exI [of _ "inst_connections inst"]) (simp add: resized_conns_def)
next
  case False
  then show ?thesis using inst_resize_nets_fits [OF assms] by (simp add: resized_conns_def)
qed

lemma insts_wf_lookup: "insts_wf m \<Longrightarrow> map_of m k = Some i \<Longrightarrow> inst_wf k i"
  by (auto simp: insts_wf_def dest!: map_of_SomeD)

lemma insts_wf_map:
  assumes "sm_inv m" and "\<forall>k i. map_of m k = Some i \<longrightarrow> inst_wf k i"
  shows "insts_wf m"
  unfolding insts_wf_def
proof (intro conjI ballI)
  fix p assume "p \<in> set m"
  then have "map_of m (fst p) = Some (snd p)" using map_of_mem_iff [OF assms(1)] by blast
  with assms(2) show "inst_wf (fst p) (snd p)" by blast
qed (rule assms(1))

section \<open>Updating connections\<close>

lemma update_connection_spec:
  assumes "sm_inv (inst_connections inst)"
    and trm: "parse_cdba_name_unit t = Inr nu" and net: "parse_cdba_name n = Inr na"
    and wanted: "0 < unat n_inst" "unat n_inst * unat (unit_size nu) < 2 ^ 32"
    and given: "length (name_expand Cdba na) < 2 ^ 32"
  shows "if length (name_expand Cdba na) dvd unat n_inst * unat (unit_size nu)
    then \<exists>cs s na'. inst_update_connection_n inst n_inst t n = Inr (inst\<lparr>inst_connections := cs\<rparr>) \<and>
      sm_inv cs \<and> map_of cs = (map_of (inst_connections inst))(t \<mapsto> s) \<and>
      parse_cdba_name s = Inr na' \<and> conn_fits (unat n_inst) (t, s) \<and>
      (\<forall>ns. name_expand ns na' = concat (replicate
         (unat n_inst * unat (unit_size nu) div length (name_expand Cdba na)) (name_expand ns na)))
    else inst_update_connection_n inst n_inst t n = Inl Invalid_argument"
proof -
  let ?L = "length (name_expand Cdba na)" and ?N = "unat n_inst * unat (unit_size nu)"
  let ?tot = "n_inst * unit_size nu"
  have p: "name_printable na" by (rule parse_cdba_name_printable [OF net])
  have L: "0 < ?L" by (rule printable_expand_pos(3) [OF p])
  have N: "0 < ?N" using wanted(1) unit_size_pos [of nu] by simp
  have tot: "unat ?tot = ?N" using wanted(2) by (subst unat_mult_lem [THEN iffD1]) simp_all
  have size: "unat (name_size na) = ?L" by (rule name_size_length [OF p]) (use given in simp)
  have eq: "?tot = name_size na \<longleftrightarrow> ?N = ?L"
    by (metis size tot word_unat_eq_iff)
  define put where "put = (\<lambda>s. fst (sm_insert_or_assign (inst_connections inst) t s))"
  have put: "sm_inv (put s) \<and> map_of (put s) = (map_of (inst_connections inst))(t \<mapsto> s)" for s
    using sm_insert_or_assign_cases [OF assms(1), of t s] by (auto simp: put_def)
  have fits: "conn_fits (unat n_inst) (t, s)"
    if "parse_cdba_name s = Inr na'" "length (name_expand Cdba na') = ?N" for s na'
    using that trm wanted(2) by (simp add: conn_fits_def)
  show ?thesis
  proof (cases "?N = ?L")
    case True
    then have "inst_update_connection_n inst n_inst t n = Inr (inst\<lparr>inst_connections := put n\<rparr>)"
      using trm net eq by (simp add: inst_update_connection_n_def Let_def put_def)
    moreover have "?N div ?L = 1" using True L by simp
    ultimately show ?thesis using True put [of n] net fits [OF net] by auto
  next
    case False
    have nz: "name_size na \<noteq> 0" using size L by auto
    obtain q where q: "std_div ?tot (name_size na) = Inr (q, int (?N mod ?L))" "unat q = ?N div ?L"
      using std_div_small [of ?tot "name_size na"] tot size nz wanted(2) given by auto
    show ?thesis
    proof (cases "?L dvd ?N")
      case dvd: True
      then have qL: "unat q * ?L = ?N" using q(2) by simp
      then have "0 < unat q" using N by (cases "unat q") auto
      then obtain na' where na': "parse_cdba_name (name_to_string_cdba (name_repeat na q)) = Inr na'"
        "\<forall>ns. name_expand ns na' = concat (replicate (unat q) (name_expand ns na))"
        using parse_repeat [OF p] qL wanted(2) by metis
      let ?s = "name_to_string_cdba (name_repeat na q)"
      have "inst_update_connection_n inst n_inst t n = Inr (inst\<lparr>inst_connections := put ?s\<rparr>)"
        using trm net eq False q(1) dvd
        by (simp add: inst_update_connection_n_def Let_def put_def dvd_eq_mod_eq_0)
      moreover have "conn_fits (unat n_inst) (t, ?s)"
        using na' qL by (intro fits [OF na'(1)]) simp
      ultimately show ?thesis using dvd put [of ?s] na' q(2) by auto
    next
      case no: False
      then have "?N mod ?L \<noteq> 0" by (simp add: dvd_eq_mod_eq_0)
      with trm net eq False q(1) no show ?thesis
        by (simp add: inst_update_connection_n_def Let_def)
    qed
  qed
qed

text \<open>A connection that \<^verbatim>\<open>update_connection\<close> accepts for an instance of \<open>n\<close> bits.\<close>

definition conn_accepted :: "nat \<Rightarrow> string \<times> string \<Rightarrow> bool" where
  "conn_accepted n c \<longleftrightarrow>
     (\<exists>nu na. parse_cdba_name_unit (fst c) = Inr nu \<and> parse_cdba_name (snd c) = Inr na \<and>
        n * unat (unit_size nu) < 2 ^ 32 \<and> length (name_expand Cdba na) < 2 ^ 32 \<and>
        length (name_expand Cdba na) dvd n * unat (unit_size nu))"

lemma update_connection_accepted:
  assumes inst: "sm_inv (inst_connections inst)" "\<forall>c\<in>set (inst_connections inst). conn_fits (unat n) c"
    and "0 < unat n" and "conn_accepted (unat n) (t, net)"
  shows "\<exists>cs s. inst_update_connection_n inst n t net = Inr (inst\<lparr>inst_connections := cs\<rparr>) \<and>
    sm_inv cs \<and> map_of cs = (map_of (inst_connections inst))(t \<mapsto> s) \<and>
    (\<forall>c\<in>set cs. conn_fits (unat n) c)"
proof -
  obtain nu na where p: "parse_cdba_name_unit t = Inr nu" "parse_cdba_name net = Inr na"
    "unat n * unat (unit_size nu) < 2 ^ 32" "length (name_expand Cdba na) < 2 ^ 32"
    "length (name_expand Cdba na) dvd unat n * unat (unit_size nu)"
    using assms(4) unfolding conn_accepted_def fst_conv snd_conv by blast
  obtain cs s where cs: "inst_update_connection_n inst n t net = Inr (inst\<lparr>inst_connections := cs\<rparr>)"
    "sm_inv cs" "map_of cs = (map_of (inst_connections inst))(t \<mapsto> s)" "conn_fits (unat n) (t, s)"
    using update_connection_spec [OF inst(1) p(1,2) assms(3) p(3,4)] p(5) by auto
  have "conn_fits (unat n) c" if "c \<in> set cs" for c
  proof (cases "fst c = t")
    case True
    then have "c = (t, s)" using that cs(2,3) map_of_mem_iff [of cs c] by (cases c) simp
    with cs(4) show ?thesis by simp
  next
    case False
    then have "c \<in> set (inst_connections inst)"
      using that cs(3) map_of_mem_iff [OF cs(2), of c] map_of_mem_iff [OF inst(1), of c] by simp
    with inst(2) show ?thesis by blast
  qed
  with cs show ?thesis by blast
qed

lemma update_connections_accepted:
  assumes "sm_inv (inst_connections inst)" "\<forall>c\<in>set (inst_connections inst). conn_fits (unat n) c"
    and "0 < unat n" and "\<forall>c\<in>set conns. conn_accepted (unat n) c"
  shows "\<exists>cs. update_connections inst n conns = (None, inst\<lparr>inst_connections := cs\<rparr>) \<and>
    sm_inv cs \<and> (\<forall>c\<in>set cs. conn_fits (unat n) c) \<and>
    dom (map_of cs) = dom (map_of (inst_connections inst)) \<union> fst ` set conns \<and>
    (\<forall>t. t \<notin> fst ` set conns \<longrightarrow> map_of cs t = map_of (inst_connections inst) t)"
  using assms
proof (induction conns arbitrary: inst)
  case Nil
  then show ?case by (intro exI [of _ "inst_connections inst"]) simp
next
  case (Cons p conns)
  obtain t net where p: "p = (t, net)" by (cases p)
  obtain cs1 s where cs1: "inst_update_connection_n inst n t net = Inr (inst\<lparr>inst_connections := cs1\<rparr>)"
    "sm_inv cs1" "map_of cs1 = (map_of (inst_connections inst))(t \<mapsto> s)"
    "\<forall>c\<in>set cs1. conn_fits (unat n) c"
    using update_connection_accepted [OF Cons.prems(1,2,3), of t net] Cons.prems(4) p by auto
  obtain cs where cs: "update_connections (inst\<lparr>inst_connections := cs1\<rparr>) n conns
      = (None, inst\<lparr>inst_connections := cs\<rparr>)"
    "sm_inv cs" "\<forall>c\<in>set cs. conn_fits (unat n) c"
    "dom (map_of cs) = dom (map_of cs1) \<union> fst ` set conns"
    "\<forall>t. t \<notin> fst ` set conns \<longrightarrow> map_of cs t = map_of cs1 t"
    using Cons.IH [of "inst\<lparr>inst_connections := cs1\<rparr>"] Cons.prems(3,4) cs1(2,4) by auto
  have "update_connections inst n (p # conns) = (None, inst\<lparr>inst_connections := cs\<rparr>)"
    using cs1(1) cs(1) p by simp
  moreover have "dom (map_of cs) = dom (map_of (inst_connections inst)) \<union> fst ` set (p # conns)"
    using cs(4) cs1(3) p by auto
  moreover have "map_of cs t' = map_of (inst_connections inst) t'" if "t' \<notin> fst ` set (p # conns)" for t'
    using that cs(5) cs1(3) p by auto
  ultimately show ?case using cs(2,3) by blast
qed

section \<open>Copies\<close>

text \<open>A copy that can be asked for: its name is legal and the given connections are accepted.\<close>

definition copy_ok :: "'x sch_instance \<Rightarrow> string \<times> (string \<times> string) list \<Rightarrow> bool" where
  "copy_ok inst p \<longleftrightarrow>
     (\<exists>nr. parse_cdba_name_rep (fst p) = Inr nr \<and> 0 < unat (rep_size nr) \<and> unat (rep_size nr) < 2 ^ 32 \<and>
        (\<forall>c\<in>set (inst_connections inst). unat (rep_size nr) * term_bits (fst c) < 2 ^ 32) \<and>
        (\<forall>c\<in>set (snd p). conn_accepted (unat (rep_size nr)) c))"

lemma copy_instance_spec:
  assumes m: "insts_wf m" and inst: "inst_wf old inst" "parse_cdba_name_rep old = Inr nro"
    and ok: "copy_ok inst (new, conns)" and fresh: "map_of m new = None"
  shows "\<exists>m' cs. copy_instance mv m inst (rep_size nro) new dx dy conns = (None, m') \<and> insts_wf m' \<and>
    map_of m' = (map_of m)
      (new \<mapsto> inst\<lparr>inst_xform := mv (inst_xform inst) dx dy, inst_connections := cs\<rparr>)"
proof -
  have inv: "sm_inv m" using m by (simp add: insts_wf_def)
  obtain nr where nr: "parse_cdba_name_rep new = Inr nr" "0 < unat (rep_size nr)"
    "unat (rep_size nr) < 2 ^ 32"
    "\<forall>c\<in>set (inst_connections inst). unat (rep_size nr) * term_bits (fst c) < 2 ^ 32"
    "\<forall>c\<in>set conns. conn_accepted (unat (rep_size nr)) c"
    using ok unfolding copy_ok_def fst_conv snd_conv by blast
  have old: "sm_inv (inst_connections inst)"
    "\<forall>c\<in>set (inst_connections inst). conn_fits (unat (rep_size nro)) c"
    "0 < unat (rep_size nro)" "unat (rep_size nro) < 2 ^ 32"
    using inst by (auto simp: inst_wf_def)
  obtain m1 i where e: "sm_emplace m new inst = (m1, i, True)" "sm_inv m1"
    "map_of m1 = (map_of m)(new \<mapsto> inst)" "i < length m1" "fst (m1 ! i) = new"
    using sm_emplace_cases [OF inv, of new inst] fresh by (auto split: prod.splits)
  obtain cs1 where cs1: "(if rep_size nro \<noteq> rep_size nr
      then inst_resize_nets inst (rep_size nro) (rep_size nr) else (None, inst))
      = (None, inst\<lparr>inst_connections := cs1\<rparr>)" "sm_inv cs1"
    "\<forall>c\<in>set cs1. conn_fits (unat (rep_size nr)) c"
    using inst_resize_if_fits [OF old nr(2,3,4)] by blast
  let ?inst2 = "inst\<lparr>inst_connections := cs1, inst_xform := mv (inst_xform inst) dx dy\<rparr>"
  obtain cs where cs: "update_connections ?inst2 (rep_size nr) conns = (None, ?inst2\<lparr>inst_connections := cs\<rparr>)"
    "sm_inv cs" "\<forall>c\<in>set cs. conn_fits (unat (rep_size nr)) c"
    using update_connections_accepted [of ?inst2, OF _ _ nr(2,5)] cs1(2,3) by auto
  let ?inst3 = "inst\<lparr>inst_xform := mv (inst_xform inst) dx dy, inst_connections := cs\<rparr>"
  let ?m' = "m1[i := (fst (m1 ! i), ?inst3)]"
  have "copy_instance mv m inst (rep_size nro) new dx dy conns = (None, ?m')"
    using nr(1) e(1,5) cs1(1) cs(1) by (simp add: copy_instance_def Let_def)
  moreover have maps: "map_of ?m' = (map_of m)(new \<mapsto> ?inst3)"
    using map_of_update_value [OF e(2,4), of ?inst3] e(3,5) by simp
  moreover have "inst_wf new ?inst3" using cs(2,3) nr(1-3) by (simp add: inst_wf_def)
  then have "insts_wf ?m'"
    using insts_wf_lookup [OF m] sm_inv_update_value [OF e(2,4)]
    by (intro insts_wf_map) (auto simp: maps)
  ultimately show ?thesis by blast
qed

lemma copy_instances_at_spec:
  assumes "insts_wf m" and inst: "inst_wf old inst" "parse_cdba_name_rep old = Inr nro"
    and "\<forall>p\<in>set ps. copy_ok inst p" "\<forall>p\<in>set ps. map_of m (fst p) = None" "distinct (map fst ps)"
  shows "\<exists>m'. copy_instances_at mv inst (rep_size nro) dx dy x y ps m = (None, m') \<and> insts_wf m' \<and>
    (\<forall>k. k \<notin> fst ` set ps \<longrightarrow> map_of m' k = map_of m k) \<and>
    (\<forall>j<length ps. \<exists>cs. map_of m' (fst (ps ! j)) = Some (inst\<lparr>
       inst_xform := mv (inst_xform inst) (x + int j * dx) (y + int j * dy), inst_connections := cs\<rparr>))"
  using assms(1,4-6)
proof (induction ps arbitrary: m x y)
  case (Cons p ps)
  obtain new conns where p: "p = (new, conns)" by (cases p)
  obtain m1 cs where m1: "copy_instance mv m inst (rep_size nro) new x y conns = (None, m1)" "insts_wf m1"
    "map_of m1 = (map_of m)(new \<mapsto> inst\<lparr>inst_xform := mv (inst_xform inst) x y, inst_connections := cs\<rparr>)"
    using copy_instance_spec [OF Cons.prems(1) inst, of new conns mv x y] Cons.prems(2,3) p by auto
  have fresh: "\<forall>q\<in>set ps. map_of m1 (fst q) = None" "new \<notin> fst ` set ps"
    using Cons.prems(3,4) m1(3) p by auto
  obtain m' where m': "copy_instances_at mv inst (rep_size nro) dx dy (x + dx) (y + dy) ps m1 = (None, m')"
    "insts_wf m'" "\<forall>k. k \<notin> fst ` set ps \<longrightarrow> map_of m' k = map_of m1 k"
    "\<forall>j<length ps. \<exists>cs. map_of m' (fst (ps ! j)) = Some (inst\<lparr>
       inst_xform := mv (inst_xform inst) (x + dx + int j * dx) (y + dy + int j * dy),
       inst_connections := cs\<rparr>)"
    using Cons.IH [OF m1(2) _ fresh(1), of "x + dx" "y + dy"] Cons.prems(2,4) by auto
  have "copy_instances_at mv inst (rep_size nro) dx dy x y (p # ps) m = (None, m')"
    using m1(1) m'(1) p by simp
  moreover have "map_of m' k = map_of m k" if "k \<notin> fst ` set (p # ps)" for k
    using that m'(3) m1(3) p by simp
  moreover have "\<exists>cs. map_of m' (fst ((p # ps) ! j)) = Some (inst\<lparr>
       inst_xform := mv (inst_xform inst) (x + int j * dx) (y + int j * dy), inst_connections := cs\<rparr>)"
    if "j < length (p # ps)" for j
  proof (cases j)
    case 0
    then show ?thesis using m'(3) m1(3) fresh(2) p by auto
  next
    case (Suc l)
    then have "l < length ps" using that by simp
    with m'(4) Suc show ?thesis by (auto simp: algebra_simps)
  qed
  ultimately show ?case using m'(2) by blast
qed simp

section \<open>Properties\<close>

text \<open>
  \<^verbatim>\<open>update_connection\<close> broadcasts a net onto a wider terminal: if the number of bits of the net
  divides the number of bits wanted, the terminal is then connected to a net whose text parses, with
  exactly the wanted bits, those of the given net over and over; otherwise \<^verbatim>\<open>std::invalid_argument\<close>
  is thrown.  No other connection changes.
\<close>

theorem update_connection_correct:
  assumes "sm_inv (inst_connections inst)"
    and trm: "parse_cdba_name_unit t = Inr nu" and net: "parse_cdba_name n = Inr na"
    and wanted: "0 < unat n_inst" "unat n_inst * unat (unit_size nu) < 2 ^ 32"
    and given: "length (name_expand Cdba na) < 2 ^ 32"
  shows "if length (name_expand Cdba na) dvd unat n_inst * unat (unit_size nu)
    then \<exists>cs s na'. inst_update_connection_n inst n_inst t n = Inr (inst\<lparr>inst_connections := cs\<rparr>) \<and>
      sm_inv cs \<and> map_of cs = (map_of (inst_connections inst))(t \<mapsto> s) \<and>
      parse_cdba_name s = Inr na' \<and> conn_fits (unat n_inst) (t, s) \<and>
      (\<forall>ns. name_expand ns na' = concat (replicate
         (unat n_inst * unat (unit_size nu) div length (name_expand Cdba na)) (name_expand ns na)))
    else inst_update_connection_n inst n_inst t n = Inl Invalid_argument"
  by (rule update_connection_spec [OF assms])

text \<open>
  How the nets are resized, also when some net does not parse: the nets before it are repeated already.
\<close>

definition net_parses :: "string \<times> string \<Rightarrow> bool" where
  "net_parses c \<longleftrightarrow> \<not> isl (parse_cdba_name (snd c))"

definition repeat_conn :: "cnt_t \<Rightarrow> string \<times> string \<Rightarrow> string \<times> string" where
  "repeat_conn q c = (fst c, name_to_string_cdba (name_repeat (projr (parse_cdba_name (snd c))) q))"

definition resize_outcome ::
  "nat \<Rightarrow> nat \<Rightarrow> 'x sch_instance \<Rightarrow> cbag_error option \<Rightarrow> 'x sch_instance \<Rightarrow> bool" where
  "resize_outcome n n' inst e inst' \<longleftrightarrow>
     (if n = n' then e = None \<and> inst' = inst
      else if \<not> n dvd n' then e = None \<and> inst' = inst\<lparr>inst_connections := []\<rparr>
      else let good = takeWhile net_parses (inst_connections inst); bad = dropWhile net_parses (inst_connections inst) in
        e = (case bad of [] \<Rightarrow> None | c # _ \<Rightarrow> Some (projl (parse_cdba_name (snd c)))) \<and>
        inst' = inst\<lparr>inst_connections := map (repeat_conn (of_nat (n' div n))) good @ bad\<rparr>)"

lemma repeat_nets_stops:
  "repeat_nets q cs =
     (case dropWhile net_parses cs of [] \<Rightarrow> None | c # _ \<Rightarrow> Some (projl (parse_cdba_name (snd c))),
      map (repeat_conn q) (takeWhile net_parses cs) @ dropWhile net_parses cs)"
  by (induction q cs rule: repeat_nets.induct) (auto simp: net_parses_def repeat_conn_def split: sum.splits)

lemma inst_resize_outcome:
  assumes "0 < unat old" and "unat old < 2 ^ 32" and "unat new < 2 ^ 32"
    and "(if old \<noteq> new then inst_resize_nets inst old new else (None, inst)) = (e, inst')"
  shows "resize_outcome (unat old) (unat new) inst e inst'"
proof -
  obtain q where q: "std_div new old = Inr (q, int (unat new mod unat old))" "unat q = unat new div unat old"
    using resize_quotient assms(1-3) by blast
  then have of_q: "of_nat (unat new div unat old) = q" by (simp flip: q(2))
  show ?thesis
  proof (cases "old = new")
    case True
    with assms(4) show ?thesis by (simp add: resize_outcome_def)
  next
    case False
    then have run: "inst_resize_nets inst old new = (e, inst')" and ne: "unat old \<noteq> unat new"
      using assms(4) by (simp_all add: word_unat_eq_iff)
    show ?thesis
    proof (cases "unat old dvd unat new")
      case True
      then have "unat new mod unat old = 0" by simp
      then show ?thesis
        using run ne True
        by (simp add: inst_resize_nets_def q(1) repeat_nets_stops resize_outcome_def of_q Let_def del: of_nat_div)
    next
      case False
      then have "unat new mod unat old \<noteq> 0" by (simp add: dvd_eq_mod_eq_0)
      then show ?thesis
        using run ne False by (simp add: inst_resize_nets_def q(1) resize_outcome_def)
    qed
  qed
qed

text \<open>
  C14.  \<^verbatim>\<open>rename_instance\<close> gives the instance its new name and repeats the nets of its connections, or
  drops them where the new number of bits is not a multiple of the old one.  If the new name is taken or
  illegal, or there is no such instance, an exception is thrown and the cellview is as it was.  The
  instance is renamed before its old name and its nets are parsed, so an exception there leaves it under
  its new name, with the nets before the one that does not parse repeated.  In a well-formed cellview,
  and with terminals of less than \<open>2 ^ 32\<close> bits, there is no such exception, and every connection fits again.
\<close>

theorem rename_instance_correct:
  assumes inv: "sm_inv (cv_instances d)"
    and new: "\<forall>nr. parse_cdba_name_rep new_name = Inr nr \<longrightarrow> 0 < unat (rep_size nr) \<and> unat (rep_size nr) < 2 ^ 32"
    and old: "\<forall>nro. parse_cdba_name_rep old_name = Inr nro \<longrightarrow> map_of (cv_instances d) old_name \<noteq> None \<longrightarrow>
      0 < unat (rep_size nro) \<and> unat (rep_size nro) < 2 ^ 32"
  shows "case (map_of (cv_instances d) new_name, parse_cdba_name_rep new_name,
               map_of (cv_instances d) old_name) of
      (None, Inr nr, Some inst) \<Rightarrow>
        (\<exists>insts e inst'.
          cv_rename_instance (Cellview d sy) old_name new_name = (e, Cellview (d\<lparr>cv_instances := insts\<rparr>) sy) \<and>
          sm_inv insts \<and> map_of insts = (map_of (cv_instances d))(old_name := None, new_name \<mapsto> inst') \<and>
          (case parse_cdba_name_rep old_name of
             Inl err \<Rightarrow> e = Some err \<and> inst' = inst
           | Inr nro \<Rightarrow> resize_outcome (unat (rep_size nro)) (unat (rep_size nr)) inst e inst') \<and>
          (insts_wf (cv_instances d) \<longrightarrow>
           (\<forall>c\<in>set (inst_connections inst). unat (rep_size nr) * term_bits (fst c) < 2 ^ 32) \<longrightarrow>
             (\<exists>cs nro. parse_cdba_name_rep old_name = Inr nro \<and> e = None \<and> insts_wf insts \<and>
               inst' = inst\<lparr>inst_connections := cs\<rparr> \<and>
               resized_conns (unat (rep_size nro)) (unat (rep_size nr)) (inst_connections inst) cs)))
    | (None, Inl e, _) \<Rightarrow>
        cv_rename_instance (Cellview d sy) old_name new_name = (Some e, Cellview d sy)
    | _ \<Rightarrow> cv_rename_instance (Cellview d sy) old_name new_name
             = (Some Invalid_argument, Cellview d sy)"
proof -
  let ?m = "cv_instances d"
  note found = sm_find_absent [OF inv, of new_name]
  obtain m' i where r: "sm_replace_key ?m old_name new_name = (m', i)"
    by (cases "sm_replace_key ?m old_name new_name")
  note spec = sm_replace_key_spec [OF inv, of old_name new_name, unfolded r prod.case]
  consider (taken) v where "map_of ?m new_name = Some v"
    | (illegal) e where "map_of ?m new_name = None" "parse_cdba_name_rep new_name = Inl e"
    | (missing) nr where "map_of ?m new_name = None" "parse_cdba_name_rep new_name = Inr nr"
        "map_of ?m old_name = None"
    | (fine) nr inst where "map_of ?m new_name = None" "parse_cdba_name_rep new_name = Inr nr"
        "map_of ?m old_name = Some inst"
    by (cases "map_of ?m new_name"; cases "parse_cdba_name_rep new_name"; cases "map_of ?m old_name")
      auto
  then show ?thesis
  proof cases
    case fine
    have m': "sm_inv m'" "i < length m'" "m' ! i = (new_name, inst)" "length m' = length ?m"
      "map_of m' = (map_of ?m)(old_name := None, new_name \<mapsto> inst)"
      using spec fine by auto
    have nr: "0 < unat (rep_size nr)" "unat (rep_size nr) < 2 ^ 32" using new fine by auto
    obtain e inst' where out: "(case parse_cdba_name_rep old_name of Inl err \<Rightarrow> (Some err, inst)
        | Inr nro \<Rightarrow> if rep_size nro \<noteq> rep_size nr then inst_resize_nets inst (rep_size nro) (rep_size nr) else (None, inst))
        = (e, inst')" by fastforce
    let ?insts = "m'[i := (fst (m' ! i), inst')]"
    have maps: "map_of ?insts = (map_of ?m)(old_name := None, new_name \<mapsto> inst')"
      using map_of_update_value [OF m'(1,2)] m'(3,5) by simp
    have same: "m'[i := (new_name, inst)] = m'" using list_update_id [of m' i] m'(3) by simp
    have run: "cv_rename_instance (Cellview d sy) old_name new_name = (e, Cellview (d\<lparr>cv_instances := ?insts\<rparr>) sy)"
      using out fine found r m'(2,3) same by (auto simp: Let_def split: sum.splits if_splits prod.splits)
    have outcome: "case parse_cdba_name_rep old_name of
             Inl err \<Rightarrow> e = Some err \<and> inst' = inst
           | Inr nro \<Rightarrow> resize_outcome (unat (rep_size nro)) (unat (rep_size nr)) inst e inst'"
      using out old nr fine(3) by (auto intro!: inst_resize_outcome split: sum.splits)
    have "\<exists>cs nro. parse_cdba_name_rep old_name = Inr nro \<and> e = None \<and> insts_wf ?insts \<and>
        inst' = inst\<lparr>inst_connections := cs\<rparr> \<and>
        resized_conns (unat (rep_size nro)) (unat (rep_size nr)) (inst_connections inst) cs"
      if wf: "insts_wf ?m" and small: "\<forall>c\<in>set (inst_connections inst). unat (rep_size nr) * term_bits (fst c) < 2 ^ 32"
    proof -
      obtain nro where nro: "parse_cdba_name_rep old_name = Inr nro" and old: "0 < unat (rep_size nro)"
        "unat (rep_size nro) < 2 ^ 32" "sm_inv (inst_connections inst)"
        "\<forall>c\<in>set (inst_connections inst). conn_fits (unat (rep_size nro)) c"
        using insts_wf_lookup [OF wf fine(3)] by (auto simp: inst_wf_def)
      obtain cs where cs: "(e, inst') = (None, inst\<lparr>inst_connections := cs\<rparr>)" "sm_inv cs"
        "\<forall>c\<in>set cs. conn_fits (unat (rep_size nr)) c"
        "resized_conns (unat (rep_size nro)) (unat (rep_size nr)) (inst_connections inst) cs"
        using inst_resize_if_fits [OF old(3,4,1,2) nr small] out unfolding nro sum.case by metis
      have "inst_wf new_name inst'" using cs nr fine by (simp add: inst_wf_def)
      then have "insts_wf ?insts"
        using insts_wf_lookup [OF wf] sm_inv_update_value [OF m'(1,2)] by (intro insts_wf_map) (auto simp: maps)
      with cs nro show ?thesis by auto
    qed
    then show ?thesis using run maps outcome fine sm_inv_update_value [OF m'(1,2), of inst']
      by (simp only: option.case sum.case prod.case) blast
  qed (use spec found r in \<open>auto split: option.splits sum.splits\<close>)
qed

text \<open>
  C17.  \<^verbatim>\<open>array_instance\<close> replaces an instance by copies: one for every given name, with the same
  master and parameters, each shifted one step further, and with connections that fit it; the
  original is gone and every other instance is unchanged.  Two zero steps mean the width of the
  instance plus ten, to the right.
\<close>

theorem array_instance_correct:
  assumes wf: "insts_wf m" and inst: "map_of m old_name = Some inst"
    and ok: "\<forall>p\<in>set ps. copy_ok inst p"
    and fresh: "\<forall>p\<in>set ps. map_of m (fst p) = None" "distinct (map fst ps)"
  shows "\<exists>m'. array_instance mv m old_name dx dy ps = (None, m') \<and> insts_wf m' \<and>
    map_of m' old_name = None \<and>
    (\<forall>k. k \<notin> fst ` set ps \<longrightarrow> k \<noteq> old_name \<longrightarrow> map_of m' k = map_of m k) \<and>
    (\<forall>j<length ps. \<exists>cs. map_of m' (fst (ps ! j)) = Some (inst\<lparr>
       inst_xform := mv (inst_xform inst)
         (int j * (if dx = 0 \<and> dy = 0 then inst_width inst + 10 else dx)) (int j * dy),
       inst_connections := cs\<rparr>))"
proof -
  let ?dx = "if dx = 0 \<and> dy = 0 then box_width (inst_bbox inst) + 10 else dx"
  have inv: "sm_inv m" using wf by (simp add: insts_wf_def)
  have iwf: "inst_wf old_name inst" by (rule insts_wf_lookup [OF wf inst])
  then obtain nro where nro: "parse_cdba_name_rep old_name = Inr nro" by (auto simp: inst_wf_def)
  obtain m1 where m1: "copy_instances_at mv inst (rep_size nro) ?dx dy 0 0 ps m = (None, m1)"
    "insts_wf m1" "\<forall>k. k \<notin> fst ` set ps \<longrightarrow> map_of m1 k = map_of m k"
    "\<forall>j<length ps. \<exists>cs. map_of m1 (fst (ps ! j)) = Some (inst\<lparr>
       inst_xform := mv (inst_xform inst) (0 + int j * ?dx) (0 + int j * dy), inst_connections := cs\<rparr>)"
    using copy_instances_at_spec [OF wf iwf nro ok fresh, of mv ?dx dy 0 0] by blast
  obtain m' n where m': "sm_erase m1 old_name = (m', n)" "sm_inv m'"
    "map_of m' = (map_of m1)(old_name := None)"
    using sm_erase_cases [of m1 old_name] m1(2) by (auto simp: insts_wf_def split: prod.splits)
  have old: "old_name \<noteq> fst (ps ! j)" if "j < length ps" for j
    using fresh(1) inst that nth_mem [OF that] by fastforce
  have "sm_lookup m old_name = Some inst" using inst by (simp add: sm_lookup_map_of [OF inv])
  then have "array_instance mv m old_name dx dy ps = (None, m')"
    using nro m1(1) m'(1) by (simp add: array_instance_def Let_def)
  moreover have "insts_wf m'"
    using insts_wf_lookup [OF m1(2)] m'(2) by (intro insts_wf_map) (auto simp: m'(3))
  moreover have "\<exists>cs. map_of m' (fst (ps ! j)) = Some (inst\<lparr>
       inst_xform := mv (inst_xform inst)
         (int j * (if dx = 0 \<and> dy = 0 then inst_width inst + 10 else dx)) (int j * dy),
       inst_connections := cs\<rparr>)" if "j < length ps" for j
    using m1(4) [rule_format, OF that] old [OF that] unfolding inst_width_def
    by (simp add: m'(3) split del: if_split)
  ultimately show ?thesis using m1(3) m'(3) by auto
qed

section \<open>Pins and copies of cellviews\<close>

text \<open>
  \<^verbatim>\<open>rename_pin\<close> checks the new name before it changes anything, so a taken or illegal name and a
  missing pin leave the cellview as it was; otherwise the pin moves to its new name with its figure,
  and then the symbol is renamed in the same way.  A failure in the symbol is passed on after the
  schematic has been changed.
\<close>

theorem rename_pin_correct:
  assumes inv: "sm_inv (cv_terminals d)"
  shows "case (map_of (cv_terminals d) new_name, parse_cdba_name_unit new_name,
               map_of (cv_terminals d) old_name) of
      (None, Inr nu, Some fig) \<Rightarrow>
        (\<exists>terms. sm_inv terms \<and>
          map_of terms = (map_of (cv_terminals d))(old_name := None, new_name \<mapsto> fig) \<and>
          cv_rename_pin old_name new_name (Cellview d sy) =
            (case map_option (cv_rename_pin old_name new_name) sy of
               None \<Rightarrow> (None, Cellview (d\<lparr>cv_terminals := terms\<rparr>) None)
             | Some (e, s) \<Rightarrow> (e, Cellview (d\<lparr>cv_terminals := terms\<rparr>) (Some s))))
    | (None, Inl e, _) \<Rightarrow> cv_rename_pin old_name new_name (Cellview d sy) = (Some e, Cellview d sy)
    | _ \<Rightarrow> cv_rename_pin old_name new_name (Cellview d sy) = (Some Invalid_argument, Cellview d sy)"
proof -
  let ?m = "cv_terminals d"
  note found = sm_find_absent [OF inv, of new_name]
  obtain m' i where r: "sm_replace_key ?m old_name new_name = (m', i)"
    by (cases "sm_replace_key ?m old_name new_name")
  note spec = sm_replace_key_spec [OF inv, of old_name new_name, unfolded r prod.case]
  show ?thesis
  proof (cases "map_of ?m new_name = None \<and> map_of ?m old_name \<noteq> None \<and>
      (\<exists>nu. parse_cdba_name_unit new_name = Inr nu)")
    case True
    then obtain nu fig where t: "map_of ?m new_name = None" "parse_cdba_name_unit new_name = Inr nu"
      "map_of ?m old_name = Some fig" by auto
    then have "sm_inv m'" "i < length m'" "length m' = length ?m"
      "map_of m' = (map_of ?m)(old_name := None, new_name \<mapsto> fig)" using spec by auto
    with t found r show ?thesis
      by (auto simp: Let_def split: option.splits prod.splits intro!: exI [of _ m'])
  qed (use spec found r in \<open>auto split: option.splits sum.splits\<close>)
qed

text \<open>The instances of a cellview and of its symbols are sorted by name.\<close>

primrec cv_sorted :: "('x, 'p, 's) cellview \<Rightarrow> bool" where
  "cv_sorted (Cellview d sy) \<longleftrightarrow> sm_inv (cv_instances d) \<and> (case map_option cv_sorted sy of
     None \<Rightarrow> True | Some b \<Rightarrow> b)"

lemma make_box_fields: "make_box (box_xl b) (box_yl b) (box_xh b) (box_yh b) = b"
  by (cases b) (simp add: make_box_def box_xl_def box_yl_def box_xh_def box_yh_def)

lemma copy_instances_sorted:
  assumes "sm_inv (acc @ m)"
  shows "foldR (\<lambda>ans p. sm_emplace_back ans (fst p) (snd p)) acc m = Inr (acc @ m)"
  using assms
proof (induction m arbitrary: acc)
  case (Cons p m)
  have "sm_emplace_back acc (fst p) (snd p) = Inr (acc @ [p])"
    using Cons.prems
    by (cases acc rule: rev_cases)
      (auto simp: sm_emplace_back_def sv_push_back_def sm_elem_elem_def sm_inv_simps)
  then show ?case using Cons.IH [of "acc @ [p]"] Cons.prems by simp
qed simp

text \<open>
  \<^verbatim>\<open>get_copy\<close> of a cellview whose instance maps are sorted does not throw and gives an equal
  cellview, symbols included.
\<close>

theorem get_copy_correct:
  assumes "cv_sorted cv"
  shows "cv_get_copy cv = Inr cv"
  using assms
proof (induction cv)
  case (Cellview d sy)
  have "copy_instances (cv_instances d) = Inr (cv_instances d)"
    using Cellview.prems copy_instances_sorted [of "[]" "cv_instances d"]
    by (simp add: copy_instances_def)
  then show ?case using Cellview by (cases sy) (auto simp: make_box_fields)
qed

text \<open>
  \<^verbatim>\<open>set_pin_attribute\<close> gives a pin a new attribute, but an attribute that the pin already has
  keeps its value; other pins, and the pins' names, are unchanged, and an unknown pin is an error.
\<close>

theorem set_pin_attribute_correct:
  assumes inv: "sm_inv (cv_terminals d)"
    and attrs: "\<forall>fig. map_of (cv_terminals d) pin = Some fig \<longrightarrow> sm_inv (pf_attrs fig)"
  shows "case map_of (cv_terminals d) pin of
      None \<Rightarrow> cv_set_pin_attribute (Cellview d sy) pin key val = Inl Invalid_argument
    | Some fig \<Rightarrow> \<exists>terms as. cv_set_pin_attribute (Cellview d sy) pin key val
          = Inr (Cellview (d\<lparr>cv_terminals := terms\<rparr>) sy) \<and> sm_inv terms \<and>
        map_of terms = (map_of (cv_terminals d))(pin \<mapsto> fig\<lparr>pf_attrs := as\<rparr>) \<and> sm_inv as \<and>
        map_of as = (if map_of (pf_attrs fig) key = None then (map_of (pf_attrs fig))(key \<mapsto> val)
                     else map_of (pf_attrs fig))"
proof (cases "map_of (cv_terminals d) pin")
  case None
  then show ?thesis using sm_find_absent [OF inv, of pin] by (simp add: Let_def)
next
  case (Some fig)
  let ?m = "cv_terminals d"
  note f = sm_find_present [OF inv Some]
  obtain as n b where e: "sm_emplace (pf_attrs fig) key val = (as, n, b)"
    by (cases "sm_emplace (pf_attrs fig) key val") auto
  have as: "sm_inv as \<and> map_of as = (if map_of (pf_attrs fig) key = None
      then (map_of (pf_attrs fig))(key \<mapsto> val) else map_of (pf_attrs fig))"
    using sm_emplace_cases [of "pf_attrs fig" key val] attrs Some e by auto
  let ?terms = "?m[sm_find ?m pin := (fst (?m ! sm_find ?m pin), fig\<lparr>pf_attrs := as\<rparr>)]"
  have "cv_set_pin_attribute (Cellview d sy) pin key val = Inr (Cellview (d\<lparr>cv_terminals := ?terms\<rparr>) sy)"
    using f e by (simp add: Let_def)
  moreover have "map_of ?terms = (map_of ?m)(pin \<mapsto> fig\<lparr>pf_attrs := as\<rparr>)"
    using map_of_update_value [OF inv f(1)] f(2) by simp
  ultimately show ?thesis
    using sm_inv_update_value [OF inv f(1)] as unfolding Some option.case by blast
qed

section \<open>Instances of the properties\<close>

text \<open>Two instances of an array of two, connected to a bus and to a supply.\<close>

definition example_insts :: "unit inst_map_t" where
  "example_insts =
     [(''X<1:0>'', \<lparr>inst_lib_name = ''lib'', inst_cell_name = ''inv'', inst_view_name = ''schematic'',
        inst_xform = (), inst_bbox = make_box 0 0 10 20, inst_is_primitive = False,
        inst_connections = [(''VDD'', ''<*2>VDD''), (''in'', ''a<1:0>'')], inst_params = []\<rparr>)]"

definition example_cv :: "(unit, unit, unit) cv_data" where
  "example_cv = \<lparr>cv_lib_name = ''lib'', cv_cell_name = ''top'', cv_view_name = ''schematic'',
     cv_bbox = make_box 0 0 100 100,
     cv_terminals = [(''a<1:0>'', \<lparr>pf_obj = (), pf_stype = Sig_signal, pf_ttype = Term_input, pf_attrs = []\<rparr>)],
     cv_shapes = [], cv_instances = example_insts, cv_props = [], cv_app_defs = []\<rparr>"

lemmas parse_eval = parse_with_def p_name_rep_def p_name_rep_with_def p_mult_tag_def p_name_unit_def
  p_name_string_def Let_def p_range_def p_range_stop_def p_range_step_def p_uint32_def name_char_def
  alpha_char_def p_grp_name_def is_digit_def digits_val_def digit_val_def
  parse_cdba_name_unit_def parse_cdba_name_def parse_cdba_name_rep_def p_name_def

lemma example_parses:
  "parse_cdba_name_rep ''X<1:0>'' = Inr (Name_rep 1 (Unit
     \<lparr>nu_base = ''X'', nu_range = \<lparr>rg_start = 1, rg_stop = 0, rg_step = 1\<rparr>\<rparr>))"
  "parse_cdba_name_rep ''Y<3:0>'' = Inr (Name_rep 1 (Unit
     \<lparr>nu_base = ''Y'', nu_range = \<lparr>rg_start = 3, rg_stop = 0, rg_step = 1\<rparr>\<rparr>))"
  "parse_cdba_name_rep ''Z'' = Inr (Name_rep 1 (Unit \<lparr>nu_base = ''Z'', nu_range = range_default\<rparr>))"
  "parse_cdba_name_unit ''VDD'' = Inr \<lparr>nu_base = ''VDD'', nu_range = range_default\<rparr>"
  "parse_cdba_name_unit ''in'' = Inr \<lparr>nu_base = ''in'', nu_range = range_default\<rparr>"
  "parse_cdba_name_unit ''b<1:0>'' = Inr
     \<lparr>nu_base = ''b'', nu_range = \<lparr>rg_start = 1, rg_stop = 0, rg_step = 1\<rparr>\<rparr>"
  "parse_cdba_name ''<*2>VDD'' = Inr (Name [Name_rep 2 (Unit
     \<lparr>nu_base = ''VDD'', nu_range = range_default\<rparr>)])"
  "parse_cdba_name ''a<1:0>'' = Inr (Name [Name_rep 1 (Unit
     \<lparr>nu_base = ''a'', nu_range = \<lparr>rg_start = 1, rg_stop = 0, rg_step = 1\<rparr>\<rparr>)])"
  "parse_cdba_name ''net'' = Inr (Name [Name_rep 1 (Unit \<lparr>nu_base = ''net'', nu_range = range_default\<rparr>)])"
  by (simp_all add: parse_eval p_name_list_simps [of "''<*2>VDD''"] p_name_list_simps [of "''a<1:0>''"]
      p_name_list_simps [of "''net''"])

lemma example_bits:
  "unit_expand Cdba \<lparr>nu_base = ''VDD'', nu_range = range_default\<rparr> = [''VDD'']"
  "unit_expand Cdba \<lparr>nu_base = ''a'', nu_range = \<lparr>rg_start = 1, rg_stop = 0, rg_step = 1\<rparr>\<rparr>
     = [''a<1>'', ''a<0>'']"
  "unit_expand Cdba \<lparr>nu_base = ''net'', nu_range = range_default\<rparr> = [''net'']"
  by code_simp+

lemma example_sizes:
  "unit_size \<lparr>nu_base = b, nu_range = range_default\<rparr> = 1"
  "unit_size \<lparr>nu_base = b, nu_range = \<lparr>rg_start = 1, rg_stop = 0, rg_step = 1\<rparr>\<rparr> = 2"
  "unit_size \<lparr>nu_base = b, nu_range = \<lparr>rg_start = 3, rg_stop = 0, rg_step = 1\<rparr>\<rparr> = 4"
  "rep_size (Name_rep 1 (Unit \<lparr>nu_base = b, nu_range = range_default\<rparr>)) = 1"
  "rep_size (Name_rep 1 (Unit \<lparr>nu_base = b, nu_range = \<lparr>rg_start = 1, rg_stop = 0, rg_step = 1\<rparr>\<rparr>)) = 2"
  "rep_size (Name_rep 1 (Unit \<lparr>nu_base = b, nu_range = \<lparr>rg_start = 3, rg_stop = 0, rg_step = 1\<rparr>\<rparr>)) = 4"
  by (simp_all add: unit_size_def range_size_def range_default_def)

lemmas example_simps = example_parses example_bits example_sizes

lemma example_insts_wf: "insts_wf example_insts"
  by (simp add: example_insts_def insts_wf_def inst_wf_def conn_fits_def sm_inv_simps example_simps)

abbreviation example_inst :: "unit sch_instance" where
  "example_inst \<equiv> snd (hd example_insts)"

theorem update_connection_correct_witness:
  "\<exists>cs s. inst_update_connection_n example_inst 2 ''b<1:0>'' ''a<1:0>''
      = Inr (example_inst\<lparr>inst_connections := cs\<rparr>) \<and>
    map_of cs ''b<1:0>'' = Some s \<and> conn_fits 2 (''b<1:0>'', s)"
proof -
  have inv: "sm_inv (inst_connections example_inst)" by (simp add: example_insts_def sm_inv_simps)
  have "unat (2 :: cnt_t) * unat (unit_size
      \<lparr>nu_base = ''b'', nu_range = \<lparr>rg_start = 1, rg_stop = 0, rg_step = 1\<rparr>\<rparr>) = 4"
    by (simp add: example_sizes)
  moreover have "length (name_expand Cdba (Name [Name_rep 1 (Unit
     \<lparr>nu_base = ''a'', nu_range = \<lparr>rg_start = 1, rg_stop = 0, rg_step = 1\<rparr>\<rparr>)])) = 2"
    by (simp add: example_bits)
  ultimately obtain cs s where "inst_update_connection_n example_inst 2 ''b<1:0>'' ''a<1:0>''
      = Inr (example_inst\<lparr>inst_connections := cs\<rparr>)"
    "map_of cs = (map_of (inst_connections example_inst))(''b<1:0>'' \<mapsto> s)"
    "conn_fits (unat (2 :: cnt_t)) (''b<1:0>'', s)"
    using update_connection_correct [OF inv example_parses(6,8), of 2] by auto
  then show ?thesis by (intro exI [of _ cs] exI [of _ s]) simp
qed

theorem rename_instance_correct_witness:
  "\<exists>insts. cv_rename_instance (Cellview example_cv None) ''X<1:0>'' ''Y<3:0>''
      = (None, Cellview (example_cv\<lparr>cv_instances := insts\<rparr>) None) \<and> insts_wf insts \<and>
    map_of insts ''X<1:0>'' = None \<and>
    (\<exists>cs. map_of insts ''Y<3:0>'' = Some (example_inst\<lparr>inst_connections := cs\<rparr>) \<and>
       conns_repeated 2 (inst_connections example_inst) cs)"
proof -
  have m: "cv_instances example_cv = example_insts" by (simp add: example_cv_def)
  have old: "map_of example_insts = [''X<1:0>'' \<mapsto> example_inst]"
    by (simp add: example_insts_def)
  have inv: "sm_inv (cv_instances example_cv)" using example_insts_wf by (simp add: m insts_wf_def)
  have small: "\<forall>c\<in>set (inst_connections example_inst). unat (4 :: cnt_t) * term_bits (fst c) < 2 ^ 32"
    by (simp add: example_insts_def term_bits_def example_simps)
  obtain insts e inst' where run: "cv_rename_instance (Cellview example_cv None) ''X<1:0>'' ''Y<3:0>''
      = (e, Cellview (example_cv\<lparr>cv_instances := insts\<rparr>) None)"
    "map_of insts = (map_of example_insts)(''X<1:0>'' := None, ''Y<3:0>'' \<mapsto> inst')"
    and wf: "\<exists>cs nro. parse_cdba_name_rep ''X<1:0>'' = Inr nro \<and> e = None \<and> insts_wf insts \<and>
      inst' = example_inst\<lparr>inst_connections := cs\<rparr> \<and>
      resized_conns (unat (rep_size nro)) 4 (inst_connections example_inst) cs"
    using rename_instance_correct [OF inv, of "''Y<3:0>''" "''X<1:0>''" None] example_insts_wf small
    by (auto simp: m old example_simps simp del: cv_rename_instance.simps)
  from wf obtain cs where "e = None" "insts_wf insts" "inst' = example_inst\<lparr>inst_connections := cs\<rparr>"
    "conns_repeated 2 (inst_connections example_inst) cs" by (auto simp: example_simps resized_conns_def)
  with run show ?thesis by (intro exI [of _ insts] conjI) auto
qed

theorem array_instance_correct_witness:
  "\<exists>m'. array_instance (\<lambda>x dx dy. x) example_insts ''X<1:0>'' 0 0
       [(''Z'', [(''in'', ''net'')]), (''Y<3:0>'', [])] = (None, m') \<and> insts_wf m' \<and>
     map_of m' ''X<1:0>'' = None \<and> map_of m' ''Z'' \<noteq> None \<and> map_of m' ''Y<3:0>'' \<noteq> None"
proof -
  let ?ps = "[(''Z'', [(''in'', ''net'')]), (''Y<3:0>'', [])]"
  have old: "map_of example_insts = [''X<1:0>'' \<mapsto> example_inst]"
    by (simp add: example_insts_def)
  have ok: "\<forall>p\<in>set ?ps. copy_ok example_inst p"
    by (simp add: copy_ok_def conn_accepted_def example_simps)
      (simp add: example_insts_def term_bits_def example_simps)
  have inst: "map_of example_insts ''X<1:0>'' = Some example_inst" by (simp add: old)
  have fresh: "\<forall>p\<in>set ?ps. map_of example_insts (fst p) = None" "distinct (map fst ?ps)"
    by (simp_all add: old)
  obtain m' where m': "array_instance (\<lambda>x dx dy. x) example_insts ''X<1:0>'' 0 0 ?ps = (None, m')"
    "insts_wf m'" "map_of m' ''X<1:0>'' = None"
    "\<forall>j<length ?ps. \<exists>cs. map_of m' (fst (?ps ! j)) = Some (example_inst\<lparr>
       inst_xform := inst_xform example_inst, inst_connections := cs\<rparr>)"
    using array_instance_correct [OF example_insts_wf inst ok fresh, of "\<lambda>x dx dy. x" 0 0] by blast
  have "map_of m' ''Z'' \<noteq> None" using m'(4) [rule_format, of 0] by auto
  moreover have "map_of m' ''Y<3:0>'' \<noteq> None" using m'(4) [rule_format, of 1] by auto
  ultimately show ?thesis using m'(1-3) by blast
qed

lemma example_pins:
  "sm_inv (cv_terminals example_cv)" "map_of (cv_terminals example_cv) ''in'' = None"
  "map_of (cv_terminals example_cv) ''a<1:0>''
     = Some \<lparr>pf_obj = (), pf_stype = Sig_signal, pf_ttype = Term_input, pf_attrs = []\<rparr>"
  by (simp_all add: example_cv_def sm_inv_simps)

theorem rename_pin_correct_witness:
  "\<exists>terms. cv_rename_pin ''a<1:0>'' ''in'' (Cellview example_cv None)
     = (None, Cellview (example_cv\<lparr>cv_terminals := terms\<rparr>) None) \<and> sm_inv terms \<and>
     map_of terms ''a<1:0>'' = None \<and> map_of terms ''in'' \<noteq> None"
proof -
  obtain terms where "sm_inv terms" "map_of terms = (map_of (cv_terminals example_cv))(''a<1:0>'' := None,
      ''in'' \<mapsto> \<lparr>pf_obj = (), pf_stype = Sig_signal, pf_ttype = Term_input, pf_attrs = []\<rparr>)"
    "cv_rename_pin ''a<1:0>'' ''in'' (Cellview example_cv None)
      = (None, Cellview (example_cv\<lparr>cv_terminals := terms\<rparr>) None)"
    using rename_pin_correct [OF example_pins(1), where sy = None and old_name = "''a<1:0>''"
        and new_name = "''in''", unfolded example_pins(2,3) example_parses prod.case option.case
        sum.case option.map]
    by blast
  then show ?thesis by (intro exI [of _ terms]) simp
qed

theorem get_copy_correct_witness:
  "cv_get_copy (Cellview example_cv (Some (Cellview example_cv None)))
     = Inr (Cellview example_cv (Some (Cellview example_cv None)))"
  by (rule get_copy_correct) (simp add: example_cv_def example_insts_def sm_inv_simps)

theorem set_pin_attribute_correct_witness:
  "\<exists>terms. cv_set_pin_attribute (Cellview example_cv None) ''a<1:0>'' ''k'' ''v''
     = Inr (Cellview (example_cv\<lparr>cv_terminals := terms\<rparr>) None) \<and> sm_inv terms"
proof -
  have "\<forall>fig. map_of (cv_terminals example_cv) ''a<1:0>'' = Some fig \<longrightarrow> sm_inv (pf_attrs fig)"
    by (simp add: example_pins(3))
  from set_pin_attribute_correct [OF example_pins(1) this, where sy = None and key = "''k''"
      and val = "''v''", unfolded example_pins(3) option.case]
  show ?thesis by blast
qed

end
