(* ===== verification/Cellview_Info.thy ===== *)
theory Cellview_Info
  imports Schematic
begin

text \<open>
  Netlist information of a cellview: \<^verbatim>\<open>src/cbag/schematic/cellview_info.cpp\<close>.  From the connections
  of the instances of a schematic it derives the nets to declare, each with the bounds that hold all
  its bits, and the attributes that instance terminals pass on to nets.  The two nested hash maps of
  the netlist map are partial functions, since nothing iterates over them; the messages sent to the
  logger are not modelled.
\<close>

section \<open>The information of a cellview\<close>

type_synonym attr_map_t = "(string, string) smap"
type_synonym attr_table = "(string, attr_map_t) smap"
type_synonym bounds_t = "cnt_t \<times> cnt_t"
type_synonym nu_range_map_t = "(string, bounds_t) smap"

record cellview_info =
  ci_lib_name :: string
  ci_cell_name :: string
  ci_in_terms :: "string list"
  ci_out_terms :: "string list"
  ci_io_terms :: "string list"
  ci_nets :: "string list"
  ci_props :: param_map
  ci_is_prim :: bool
  ci_term_net_attrs :: attr_table

type_synonym lib_map_t = "string \<rightharpoonup> cellview_info"
type_synonym netlist_map_t = "string \<rightharpoonup> lib_map_t"

definition make_cellview_info :: "string \<Rightarrow> string \<Rightarrow> bool \<Rightarrow> cellview_info" where
  "make_cellview_info lib cell prim =
     \<lparr>ci_lib_name = lib, ci_cell_name = cell, ci_in_terms = [], ci_out_terms = [], ci_io_terms = [],
      ci_nets = [], ci_props = [], ci_is_prim = prim, ci_term_net_attrs = []\<rparr>"

definition get_net_type :: "attr_table \<Rightarrow> string \<Rightarrow> string \<Rightarrow> string" where
  "get_net_type term_net_attrs base_name def_str =
     (case sm_lookup term_net_attrs base_name of
        None \<Rightarrow> def_str
      | Some attrs \<Rightarrow> (case sm_lookup attrs ''type'' of None \<Rightarrow> def_str | Some t \<Rightarrow> t))"

definition get_cv_info :: "netlist_map_t \<Rightarrow> string \<Rightarrow> string \<Rightarrow> cellview_info result" where
  "get_cv_info info_map lib_name cell_name =
     (case info_map lib_name of
        None \<Rightarrow> Inl Invalid_argument
      | Some lib_map \<Rightarrow>
          (case lib_map cell_name of None \<Rightarrow> Inl Invalid_argument | Some info \<Rightarrow> Inr info))"

text \<open>\<^verbatim>\<open>emplace\<close> of the standard hash maps leaves a present entry as it is.\<close>

definition umap_emplace :: "('k \<rightharpoonup> 'v) \<Rightarrow> 'k \<Rightarrow> 'v \<Rightarrow> ('k \<rightharpoonup> 'v)" where
  "umap_emplace m k v = (case m k of None \<Rightarrow> m(k \<mapsto> v) | Some w \<Rightarrow> m)"

definition record_cv_info :: "netlist_map_t \<Rightarrow> cellview_info \<Rightarrow> netlist_map_t" where
  "record_cv_info info_map info =
     (case info_map (ci_lib_name info) of
        None \<Rightarrow> umap_emplace info_map (ci_lib_name info)
                  (umap_emplace (\<lambda>_. None) (ci_cell_name info) info)
      | Some lib_map \<Rightarrow>
          info_map(ci_lib_name info \<mapsto> umap_emplace lib_map (ci_cell_name info) info))"

definition get_attrs :: "attr_table \<Rightarrow> string \<Rightarrow> attr_map_t option" where
  "get_attrs table base_name = sm_lookup table base_name"

section \<open>Registering nets\<close>

text \<open>The attribute table after the check for conflicts.\<close>

definition register_attr :: "string \<Rightarrow> attr_map_t option \<Rightarrow> attr_table \<Rightarrow> attr_table result" where
  "register_attr base attr_ptr attr_map =
     (case attr_ptr of
        None \<Rightarrow> Inr attr_map
      | Some attr \<Rightarrow>
          (case get_attrs attr_map base of
             Some attr_ref \<Rightarrow> if attr_ref \<noteq> attr then Inl Runtime_error else Inr attr_map
           | None \<Rightarrow> Inr (fst (sm_emplace attr_map base attr))))"

definition out_of_term_bounds :: "bounds_t \<Rightarrow> bounds_t \<Rightarrow> bool" where
  "out_of_term_bounds net_bounds term_bounds =
     (let term_scalar = (fst term_bounds = snd term_bounds);
          net_scalar = (fst net_bounds = snd net_bounds)
      in term_scalar \<noteq> net_scalar \<or>
         (\<not> term_scalar \<and> (fst net_bounds < fst term_bounds \<or> snd net_bounds > snd term_bounds)))"

definition register_net :: "string \<Rightarrow> bounds_t \<Rightarrow> nu_range_map_t \<Rightarrow> nu_range_map_t" where
  "register_net base net_bounds m =
     (let iter = sm_find m base in
      if iter = length m then fst (sm_emplace m base net_bounds)
      else let cur = snd (m ! iter) in
        m[iter := (fst (m ! iter), (min (fst cur) (fst net_bounds), max (snd cur) (snd net_bounds)))])"

type_synonym register_state = "nu_range_map_t \<times> attr_table"

definition register_unit ::
  "name_unit \<Rightarrow> attr_map_t option \<Rightarrow> nu_range_map_t \<Rightarrow> register_state \<Rightarrow> register_state result" where
  "register_unit ast attr_ptr term_range_map st =
     bindR (register_attr (nu_base ast) attr_ptr (snd st)) (\<lambda>attr_map.
       let net_bounds = range_bounds (nu_range ast) in
       (case sm_lookup term_range_map (nu_base ast) of
          Some term_bounds \<Rightarrow>
            if out_of_term_bounds net_bounds term_bounds then Inl Runtime_error
            else Inr (fst st, attr_map)
        | None \<Rightarrow> Inr (register_net (nu_base ast) net_bounds (fst st), attr_map)))"

function (sequential) register_rep ::
  "name_rep \<Rightarrow> attr_map_t option \<Rightarrow> nu_range_map_t \<Rightarrow> register_state \<Rightarrow> register_state result"
and register_data ::
  "rep_data \<Rightarrow> attr_map_t option \<Rightarrow> nu_range_map_t \<Rightarrow> register_state \<Rightarrow> register_state result"
and register_name ::
  "ast_name \<Rightarrow> attr_map_t option \<Rightarrow> nu_range_map_t \<Rightarrow> register_state \<Rightarrow> register_state result" where
  "register_rep (Name_rep m data) attr_ptr terms st = register_data data attr_ptr terms st"
| "register_data (Unit nu) attr_ptr terms st = register_unit nu attr_ptr terms st"
| "register_data (Sub na) attr_ptr terms st = register_name na attr_ptr terms st"
| "register_name (Name reps) attr_ptr terms st =
     foldR (\<lambda>st nr. register_rep nr attr_ptr terms st) st reps"
  by pat_completeness auto
termination
  by (relation "measure (\<lambda>x. case x of Inl (nr, _) \<Rightarrow> size nr
      | Inr (Inl (d, _)) \<Rightarrow> size d | Inr (Inr (na, _)) \<Rightarrow> size na)")
    (auto simp: less_Suc_eq_le intro: size_list_estimation')

section \<open>The information of a schematic\<close>

type_synonym term_state = "cellview_info \<times> nu_range_map_t"

definition info_terminal :: "term_state \<Rightarrow> string \<times> 'p pin_figure \<Rightarrow> term_state result" where
  "info_terminal st t =
     (let name = fst t; fig = snd t; ans = fst st;
          ans1 = (case pf_ttype fig of
             Term_input \<Rightarrow> ans\<lparr>ci_in_terms := ci_in_terms ans @ [name]\<rparr>
           | Term_output \<Rightarrow> ans\<lparr>ci_out_terms := ci_out_terms ans @ [name]\<rparr>
           | _ \<Rightarrow> ans\<lparr>ci_io_terms := ci_io_terms ans @ [name]\<rparr>)
      in bindR (parse_cdba_name_unit name) (\<lambda>ast.
           let terms = fst (sm_emplace (snd st) (nu_base ast) (range_bounds (nu_range ast)));
               ans2 = (if pf_attrs fig \<noteq> []
                 then ans1\<lparr>ci_term_net_attrs :=
                        fst (sm_emplace (ci_term_net_attrs ans1) (nu_base ast) (pf_attrs fig))\<rparr>
                 else ans1)
           in Inr (ans2, terms)))"

definition info_connection ::
  "cellview_info option \<Rightarrow> nu_range_map_t \<Rightarrow> register_state \<Rightarrow> string \<times> string
     \<Rightarrow> register_state result" where
  "info_connection inst_info terms st c =
     bindR (parse_cdba_name_unit (fst c)) (\<lambda>term_ast.
     bindR (parse_cdba_name (snd c)) (\<lambda>net_ast.
       let attr_ptr = (case inst_info of None \<Rightarrow> None
                       | Some i \<Rightarrow> get_attrs (ci_term_net_attrs i) (nu_base term_ast))
       in register_name net_ast attr_ptr terms st))"

definition info_instance ::
  "netlist_map_t \<Rightarrow> bool \<Rightarrow> nu_range_map_t \<Rightarrow> register_state \<Rightarrow> string \<times> 'x sch_instance
     \<Rightarrow> register_state result" where
  "info_instance info_map compute_net_attrs terms st p =
     bindR (if compute_net_attrs
            then bindR (get_cv_info info_map (inst_lib_name (snd p)) (inst_cell_name (snd p)))
                   (\<lambda>i. Inr (Some i))
            else Inr None) (\<lambda>inst_info.
       foldR (info_connection inst_info terms) st (inst_connections (snd p)))"

definition get_cv_netlist_info ::
  "('x, 'p, 's) cv_data \<Rightarrow> netlist_map_t \<Rightarrow> bool \<Rightarrow> cellview_info result" where
  "get_cv_netlist_info cv info_map compute_net_attrs =
     bindR (foldR info_terminal (make_cellview_info (cv_lib_name cv) (cv_cell_name cv) False, [])
              (cv_terminals cv)) (\<lambda>(ans, term_range_map).
     bindR (foldR (info_instance info_map compute_net_attrs term_range_map)
              ([], ci_term_net_attrs ans) (cv_instances cv)) (\<lambda>(net_range_map, attr_map).
       Inr (ans\<lparr>ci_term_net_attrs := attr_map,
                ci_nets := map (\<lambda>(net_name, net_bnds). bounds_to_string net_name net_bnds)
                             net_range_map\<rparr>)))"

section \<open>Registering a sequence of units\<close>

lemma register_units:
  "register_rep nr a T st = foldR (\<lambda>st u. register_unit u a T st) st (rep_units nr)"
  "register_data d a T st = foldR (\<lambda>st u. register_unit u a T st) st (data_units d)"
  "register_name na a T st = foldR (\<lambda>st u. register_unit u a T st) st (name_units na)"
proof (induction nr and d and na arbitrary: st and st and st rule: rep_units_data_units_name_units.induct)
  case (4 reps)
  have "foldR (\<lambda>st nr. register_rep nr a T st) st reps
      = foldR (\<lambda>st nr. foldR (\<lambda>st u. register_unit u a T st) st (rep_units nr)) st reps"
    by (rule foldR_cong) (simp_all add: 4)
  then show ?case by (simp add: foldR_concat)
qed simp_all

type_synonym net_event = "name_unit \<times> attr_map_t option"

definition register_event ::
  "nu_range_map_t \<Rightarrow> register_state \<Rightarrow> net_event \<Rightarrow> register_state result" where
  "register_event T st e = register_unit (fst e) (snd e) T st"

text \<open>The bounds that hold all bits of the given bounds.\<close>

definition bounds_hull :: "bounds_t list \<Rightarrow> bounds_t option" where
  "bounds_hull bs = (if bs = [] then None
     else Some (Min (fst ` set bs), Max (snd ` set bs)))"

definition base_bounds :: "net_event list \<Rightarrow> string \<Rightarrow> bounds_t list" where
  "base_bounds evs b = [range_bounds (nu_range (fst e)). e \<leftarrow> evs, nu_base (fst e) = b]"

text \<open>All attributes that a table and a sequence of units give for a net.\<close>

definition attrs_of :: "attr_table \<Rightarrow> net_event list \<Rightarrow> string \<Rightarrow> attr_map_t set" where
  "attrs_of am evs b =
     {a. map_of am b = Some a \<or> (\<exists>u. (u, Some a) \<in> set evs \<and> nu_base u = b)}"

definition event_in_bounds :: "nu_range_map_t \<Rightarrow> net_event \<Rightarrow> bool" where
  "event_in_bounds T e \<longleftrightarrow>
     (\<forall>tb. map_of T (nu_base (fst e)) = Some tb \<longrightarrow>
        \<not> out_of_term_bounds (range_bounds (nu_range (fst e))) tb)"

definition events_ok :: "nu_range_map_t \<Rightarrow> attr_table \<Rightarrow> net_event list \<Rightarrow> bool" where
  "events_ok T am evs \<longleftrightarrow> (\<forall>e\<in>set evs. event_in_bounds T e) \<and>
     (\<forall>b. \<forall>a\<in>attrs_of am evs b. \<forall>a'\<in>attrs_of am evs b. a = a')"

definition registered ::
  "nu_range_map_t \<Rightarrow> attr_table \<Rightarrow> net_event list \<Rightarrow> register_state \<Rightarrow> bool" where
  "registered T am evs st \<longleftrightarrow> sm_inv (fst st) \<and> sm_inv (snd st) \<and>
     (\<forall>b. map_of (fst st) b = (if map_of T b = None then bounds_hull (base_bounds evs b) else None)) \<and>
     (\<forall>b a. map_of (snd st) b = Some a \<longleftrightarrow> a \<in> attrs_of am evs b)"

lemma bounds_hull_snoc:
  "bounds_hull (bs @ [x]) = Some (case bounds_hull bs of None \<Rightarrow> x
     | Some c \<Rightarrow> (min (fst c) (fst x), max (snd c) (snd x)))"
  by (cases "bs = []") (auto simp: bounds_hull_def min.commute max.commute)

lemma base_bounds_snoc:
  "base_bounds (evs @ [e]) b =
     base_bounds evs b @ (if nu_base (fst e) = b then [range_bounds (nu_range (fst e))] else [])"
  by (simp add: base_bounds_def)

lemma attrs_of_snoc:
  "attrs_of am (evs @ [e]) b =
     attrs_of am evs b \<union> {a. snd e = Some a \<and> nu_base (fst e) = b}"
  by (cases e) (auto simp: attrs_of_def)

lemma register_net_spec:
  assumes "sm_inv m"
  shows "sm_inv (register_net b nb m)"
    and "map_of (register_net b nb m) = (map_of m)(b \<mapsto> (case map_of m b of None \<Rightarrow> nb
      | Some c \<Rightarrow> (min (fst c) (fst nb), max (snd c) (snd nb))))"
proof -
  have "sm_inv (register_net b nb m) \<and>
      map_of (register_net b nb m) = (map_of m)(b \<mapsto> (case map_of m b of None \<Rightarrow> nb
      | Some c \<Rightarrow> (min (fst c) (fst nb), max (snd c) (snd nb))))"
  proof (cases "map_of m b")
    case None
    then show ?thesis
      using sm_find_absent [OF assms, of b] sm_emplace_cases [OF assms, of b nb]
      by (auto simp: register_net_def Let_def split: prod.splits)
  next
    case (Some c)
    note f = sm_find_present [OF assms Some]
    have "register_net b nb m = m[sm_find m b := (fst (m ! sm_find m b),
        (min (fst c) (fst nb), max (snd c) (snd nb)))]"
      using f by (simp add: register_net_def Let_def)
    then show ?thesis
      using sm_inv_update_value [OF assms f(1)] map_of_update_value [OF assms f(1)] f(2) Some by simp
  qed
  then show "sm_inv (register_net b nb m)"
    and "map_of (register_net b nb m) = (map_of m)(b \<mapsto> (case map_of m b of None \<Rightarrow> nb
      | Some c \<Rightarrow> (min (fst c) (fst nb), max (snd c) (snd nb))))" by simp_all
qed

lemma register_attr_spec:
  assumes "sm_inv am" and "\<forall>b a. map_of am b = Some a \<longleftrightarrow> a \<in> A b"
  shows "if \<forall>a. x = Some a \<longrightarrow> (\<forall>a'\<in>A b. a' = a)
    then \<exists>am'. register_attr b x am = Inr am' \<and> sm_inv am' \<and>
      (\<forall>b' a. map_of am' b' = Some a \<longleftrightarrow> a \<in> A b' \<or> (x = Some a \<and> b' = b))
    else register_attr b x am = Inl Runtime_error"
proof (cases x)
  case None
  with assms show ?thesis by (simp add: register_attr_def)
next
  case (Some a)
  note look = sm_lookup_map_of [OF assms(1), of b]
  show ?thesis
  proof (cases "map_of am b")
    case None
    then have "A b = {}" using spec [OF assms(2), of b] by auto
    moreover have "register_attr b x am = Inr (fst (sm_emplace am b a))"
      using None Some look by (simp add: register_attr_def get_attrs_def)
    moreover have "sm_inv (fst (sm_emplace am b a))"
      "map_of (fst (sm_emplace am b a)) = (map_of am)(b \<mapsto> a)"
      using sm_emplace_cases [OF assms(1), of b a] None by (auto split: prod.splits)
    ultimately show ?thesis using assms(2) Some by auto
  next
    case same: (Some a')
    then have "A b = {a'}" using assms(2) by (metis (no_types) option.inject insertI1 singletonD equalityI subsetI)
    moreover have "register_attr b x am = (if a' \<noteq> a then Inl Runtime_error else Inr am)"
      using same Some look by (simp add: register_attr_def get_attrs_def)
    ultimately show ?thesis using assms Some by auto
  qed
qed

lemma register_unit_spec:
  assumes "registered T am evs st" and T: "sm_inv T"
  shows "if event_in_bounds T e \<and>
      (\<forall>a. snd e = Some a \<longrightarrow> (\<forall>a'\<in>attrs_of am evs (nu_base (fst e)). a' = a))
    then \<exists>st'. register_event T st e = Inr st' \<and> registered T am (evs @ [e]) st'
    else register_event T st e = Inl Runtime_error"
proof -
  obtain u x where e: "e = (u, x)" by (cases e)
  let ?b = "nu_base u" and ?nb = "range_bounds (nu_range u)"
  have st: "sm_inv (fst st)" "sm_inv (snd st)"
    "\<forall>b. map_of (fst st) b = (if map_of T b = None then bounds_hull (base_bounds evs b) else None)"
    "\<forall>b a. map_of (snd st) b = Some a \<longleftrightarrow> a \<in> attrs_of am evs b"
    using assms(1) by (auto simp: registered_def)
  note look = sm_lookup_map_of [OF T, of ?b]
  show ?thesis
  proof (cases "\<forall>a. x = Some a \<longrightarrow> (\<forall>a'\<in>attrs_of am evs ?b. a' = a)")
    case True
    then obtain am' where am': "register_attr ?b x (snd st) = Inr am'" "sm_inv am'"
      "\<forall>b' a. map_of am' b' = Some a \<longleftrightarrow> a \<in> attrs_of am evs b' \<or> (x = Some a \<and> b' = ?b)"
      using register_attr_spec [OF st(2,4), of x ?b] by auto
    have attrs: "map_of am' b' = Some a \<longleftrightarrow> a \<in> attrs_of am (evs @ [e]) b'" for b' a
      using am'(3) e by (auto simp: attrs_of_snoc)
    show ?thesis
    proof (cases "map_of T ?b")
      case None
      let ?m = "register_net ?b ?nb (fst st)"
      have ok: "register_event T st e = Inr (?m, am')"
        using am'(1) None look e by (simp add: register_event_def register_unit_def Let_def)
      have maps: "map_of ?m b = (if map_of T b = None then bounds_hull (base_bounds (evs @ [e]) b) else None)"
        for b
        using register_net_spec(2) [OF st(1), of ?b ?nb] st(3) None e
        by (cases "b = ?b") (auto simp: base_bounds_snoc bounds_hull_snoc)
      have "registered T am (evs @ [e]) (?m, am')"
        using register_net_spec(1) [OF st(1)] am'(2) maps attrs by (simp add: registered_def)
      with ok None True e show ?thesis by (simp add: event_in_bounds_def)
    next
      case (Some tb)
      have "register_event T st e = (if out_of_term_bounds ?nb tb then Inl Runtime_error
          else Inr (fst st, am'))"
        using am'(1) Some look e by (simp add: register_event_def register_unit_def Let_def)
      moreover have maps: "map_of (fst st) b =
          (if map_of T b = None then bounds_hull (base_bounds (evs @ [e]) b) else None)" for b
        using st(3) Some e by (cases "b = ?b") (auto simp: base_bounds_snoc)
      have "registered T am (evs @ [e]) (fst st, am')"
        using st(1) am'(2) maps attrs by (simp add: registered_def)
      ultimately show ?thesis using Some True e by (simp add: event_in_bounds_def)
    qed
  next
    case False
    then have "register_attr ?b x (snd st) = Inl Runtime_error"
      using register_attr_spec [OF st(2,4), of x ?b] by auto
    with False e show ?thesis by (auto simp: register_event_def register_unit_def)
  qed
qed

lemma events_ok_snoc:
  "events_ok T am (evs @ [e]) \<longleftrightarrow> events_ok T am evs \<and> event_in_bounds T e \<and>
     (\<forall>a. snd e = Some a \<longrightarrow> (\<forall>a'\<in>attrs_of am evs (nu_base (fst e)). a' = a))"
  by (auto simp: events_ok_def attrs_of_snoc)

text \<open>
  Registering from the start: it succeeds exactly on consistent sequences, and then yields the hull
  of the bounds of every net and the attributes of every terminal and net.
\<close>

lemma registered_start:
  assumes "sm_inv am" and "sm_inv T"
  shows "registered T am [] ([], am)" and "events_ok T am []"
  using assms by (auto simp: registered_def events_ok_def attrs_of_def base_bounds_def bounds_hull_def)

lemma register_events_spec:
  assumes "sm_inv am" and T: "sm_inv T"
  shows "if events_ok T am evs
    then \<exists>st. foldR (register_event T) ([], am) evs = Inr st \<and> registered T am evs st
    else foldR (register_event T) ([], am) evs = Inl Runtime_error"
proof (induction evs rule: rev_induct)
  case Nil
  then show ?case using registered_start [OF assms] by simp
next
  case (snoc e evs)
  show ?case
  proof (cases "events_ok T am evs")
    case True
    then obtain st where st: "foldR (register_event T) ([], am) evs = Inr st" "registered T am evs st"
      using snoc by auto
    have step: "foldR (register_event T) ([], am) (evs @ [e]) = register_event T st e"
      using st(1) by (simp add: foldR_append)
    show ?thesis unfolding step events_ok_snoc
      using register_unit_spec [OF st(2) T, of e] True by simp
  next
    case False
    then have "foldR (register_event T) ([], am) evs = Inl Runtime_error" using snoc by simp
    with False show ?thesis by (simp add: foldR_append events_ok_snoc)
  qed
qed

section \<open>The nets of a schematic\<close>

text \<open>What the terminals of a cellview contribute: their bounds and their attributes, by base name.\<close>

definition term_unit :: "string \<Rightarrow> name_unit" where
  "term_unit name = (case parse_cdba_name_unit name of
     Inr nu \<Rightarrow> nu | Inl e \<Rightarrow> \<lparr>nu_base = [], nu_range = range_default\<rparr>)"

definition term_entries :: "(string, 'p pin_figure) smap \<Rightarrow> nu_range_map_t" where
  "term_entries ts = map (\<lambda>t. (nu_base (term_unit (fst t)), range_bounds (nu_range (term_unit (fst t))))) ts"

definition term_attr_entries :: "(string, 'p pin_figure) smap \<Rightarrow> attr_table" where
  "term_attr_entries ts =
     map (\<lambda>t. (nu_base (term_unit (fst t)), pf_attrs (snd t))) (filter (\<lambda>t. pf_attrs (snd t) \<noteq> []) ts)"

definition terms_of_type :: "(term_type \<Rightarrow> bool) \<Rightarrow> (string, 'p pin_figure) smap \<Rightarrow> string list" where
  "terms_of_type P ts = map fst (filter (\<lambda>t. P (pf_ttype (snd t))) ts)"

lemma terms_of_type_Cons: "terms_of_type P (t # ts) = terms_of_type P [t] @ terms_of_type P ts"
  by (simp add: terms_of_type_def)

lemma emplace_entry:
  assumes "sm_inv m"
  shows "sm_inv (fst (sm_emplace m k v))" and "map_of (fst (sm_emplace m k v)) = [k \<mapsto> v] ++ map_of m"
  using sm_emplace_cases [OF assms, of k v]
  by (auto simp: fun_eq_iff map_add_def split: option.splits prod.splits if_splits)

lemma info_terminals_spec:
  assumes "\<forall>t\<in>set ts. \<exists>nu. parse_cdba_name_unit (fst t) = Inr nu"
    and "sm_inv T" and "sm_inv (ci_term_net_attrs ans)"
  shows "\<exists>am T'. foldR info_terminal (ans, T) ts = Inr (ans
      \<lparr>ci_in_terms := ci_in_terms ans @ terms_of_type (\<lambda>t. t = Term_input) ts,
       ci_out_terms := ci_out_terms ans @ terms_of_type (\<lambda>t. t = Term_output) ts,
       ci_io_terms := ci_io_terms ans @ terms_of_type (\<lambda>t. t \<noteq> Term_input \<and> t \<noteq> Term_output) ts,
       ci_term_net_attrs := am\<rparr>, T') \<and>
    sm_inv am \<and> sm_inv T' \<and> map_of T' = map_of (term_entries ts) ++ map_of T \<and>
    map_of am = map_of (term_attr_entries ts) ++ map_of (ci_term_net_attrs ans)"
  using assms
proof (induction ts arbitrary: ans T)
  case Nil
  then show ?case
    by (cases ans) (auto simp: terms_of_type_def term_entries_def term_attr_entries_def)
next
  case (Cons t ts)
  obtain nu where nu: "parse_cdba_name_unit (fst t) = Inr nu" using Cons.prems(1) by auto
  then have tu: "term_unit (fst t) = nu" by (simp add: term_unit_def)
  define T1 where "T1 = fst (sm_emplace T (nu_base nu) (range_bounds (nu_range nu)))"
  define am1 where "am1 = (if pf_attrs (snd t) \<noteq> []
    then fst (sm_emplace (ci_term_net_attrs ans) (nu_base nu) (pf_attrs (snd t)))
    else ci_term_net_attrs ans)"
  define ans1 where "ans1 = ans
    \<lparr>ci_in_terms := ci_in_terms ans @ terms_of_type (\<lambda>t. t = Term_input) [t],
     ci_out_terms := ci_out_terms ans @ terms_of_type (\<lambda>t. t = Term_output) [t],
     ci_io_terms := ci_io_terms ans @ terms_of_type (\<lambda>t. t \<noteq> Term_input \<and> t \<noteq> Term_output) [t],
     ci_term_net_attrs := am1\<rparr>"
  have step: "info_terminal (ans, T) t = Inr (ans1, T1)"
    using nu by (cases "pf_ttype (snd t)")
      (simp_all add: info_terminal_def Let_def terms_of_type_def ans1_def T1_def am1_def)
  have T1: "sm_inv T1" "map_of T1 = [nu_base nu \<mapsto> range_bounds (nu_range nu)] ++ map_of T"
    unfolding T1_def by (rule emplace_entry [OF Cons.prems(2)])+
  have am1: "sm_inv am1" "map_of am1 = map_of (term_attr_entries [t]) ++ map_of (ci_term_net_attrs ans)"
    using emplace_entry [OF Cons.prems(3)] Cons.prems(3) tu
    by (simp_all add: am1_def term_attr_entries_def)
  obtain am T' where ih: "foldR info_terminal (ans1, T1) ts = Inr (ans1
      \<lparr>ci_in_terms := ci_in_terms ans1 @ terms_of_type (\<lambda>t. t = Term_input) ts,
       ci_out_terms := ci_out_terms ans1 @ terms_of_type (\<lambda>t. t = Term_output) ts,
       ci_io_terms := ci_io_terms ans1 @ terms_of_type (\<lambda>t. t \<noteq> Term_input \<and> t \<noteq> Term_output) ts,
       ci_term_net_attrs := am\<rparr>, T')"
    "sm_inv am" "sm_inv T'" "map_of T' = map_of (term_entries ts) ++ map_of T1"
    "map_of am = map_of (term_attr_entries ts) ++ map_of am1"
    using Cons.IH [of T1 ans1] Cons.prems(1) T1(1) am1(1) by (auto simp: ans1_def)
  have "map_of T' = map_of (term_entries (t # ts)) ++ map_of T"
    using ih(4) T1(2) tu by (simp add: term_entries_def fun_eq_iff map_add_def split: option.splits)
  moreover have "map_of am = map_of (term_attr_entries (t # ts)) ++ map_of (ci_term_net_attrs ans)"
    using ih(5) am1(2) by (simp add: term_attr_entries_def fun_eq_iff map_add_def split: option.splits)
  ultimately show ?case
    using step ih(1-3)
    by (intro exI [of _ am] exI [of _ T']) (simp add: ans1_def terms_of_type_Cons [of _ t ts])
qed

text \<open>What the instances contribute: every unit of every net, with the attribute of its terminal.\<close>

definition conn_events :: "cellview_info option \<Rightarrow> string \<times> string \<Rightarrow> net_event list" where
  "conn_events inst_info c =
     (case parse_cdba_name (snd c) of
        Inl e \<Rightarrow> []
      | Inr na \<Rightarrow> map (\<lambda>u. (u, case inst_info of None \<Rightarrow> None
          | Some i \<Rightarrow> get_attrs (ci_term_net_attrs i) (nu_base (term_unit (fst c))))) (name_units na))"

definition inst_info_of ::
  "netlist_map_t \<Rightarrow> bool \<Rightarrow> 'x sch_instance \<Rightarrow> cellview_info option" where
  "inst_info_of info_map compute inst =
     (if compute then (case get_cv_info info_map (inst_lib_name inst) (inst_cell_name inst) of
        Inl e \<Rightarrow> None | Inr i \<Rightarrow> Some i) else None)"

definition inst_events ::
  "netlist_map_t \<Rightarrow> bool \<Rightarrow> string \<times> 'x sch_instance \<Rightarrow> net_event list" where
  "inst_events info_map compute p =
     concat (map (conn_events (inst_info_of info_map compute (snd p))) (inst_connections (snd p)))"

definition cv_events :: "netlist_map_t \<Rightarrow> bool \<Rightarrow> 'x inst_map_t \<Rightarrow> net_event list" where
  "cv_events info_map compute insts = concat (map (inst_events info_map compute) insts)"

text \<open>The names of the instance parse and, where it is looked up, its master is known.\<close>

definition inst_readable :: "netlist_map_t \<Rightarrow> bool \<Rightarrow> 'x sch_instance \<Rightarrow> bool" where
  "inst_readable info_map compute inst \<longleftrightarrow>
     (\<forall>c\<in>set (inst_connections inst). (\<exists>nu. parse_cdba_name_unit (fst c) = Inr nu) \<and>
        (\<exists>na. parse_cdba_name (snd c) = Inr na)) \<and>
     (compute \<longrightarrow> (\<exists>i. get_cv_info info_map (inst_lib_name inst) (inst_cell_name inst) = Inr i))"

lemma info_connection_events:
  assumes "\<exists>nu. parse_cdba_name_unit (fst c) = Inr nu" and "\<exists>na. parse_cdba_name (snd c) = Inr na"
  shows "info_connection inst_info T st c = foldR (register_event T) st (conn_events inst_info c)"
  using assms
  by (cases inst_info)
    (auto simp: info_connection_def conn_events_def register_units foldR_map register_event_def
      term_unit_def)

lemma info_instance_events:
  assumes "inst_readable info_map compute (snd p)"
  shows "info_instance info_map compute T st p = foldR (register_event T) st (inst_events info_map compute p)"
proof -
  have "info_instance info_map compute T st p
      = foldR (info_connection (inst_info_of info_map compute (snd p)) T) st (inst_connections (snd p))"
    using assms by (auto simp: inst_readable_def info_instance_def inst_info_of_def)
  also have "\<dots> = foldR (\<lambda>st c. foldR (register_event T) st
      (conn_events (inst_info_of info_map compute (snd p)) c)) st (inst_connections (snd p))"
    using assms by (intro foldR_cong refl info_connection_events) (auto simp: inst_readable_def)
  finally show ?thesis by (simp add: inst_events_def foldR_concat)
qed

lemma info_instances_events:
  assumes "\<forall>p\<in>set insts. inst_readable info_map compute (snd p)"
  shows "foldR (info_instance info_map compute T) st insts
    = foldR (register_event T) st (cv_events info_map compute insts)"
proof -
  have "foldR (info_instance info_map compute T) st insts
      = foldR (\<lambda>st p. foldR (register_event T) st (inst_events info_map compute p)) st insts"
    using assms by (intro foldR_cong refl info_instance_events) auto
  then show ?thesis by (simp add: cv_events_def foldR_concat)
qed

lemma events_ok_cong:
  "map_of T = map_of T' \<Longrightarrow> map_of am = map_of am' \<Longrightarrow> events_ok T am evs = events_ok T' am' evs"
  by (simp add: events_ok_def event_in_bounds_def attrs_of_def)

lemma registered_cong:
  "map_of T = map_of T' \<Longrightarrow> map_of am = map_of am' \<Longrightarrow> registered T am evs st = registered T' am' evs st"
  by (simp add: registered_def attrs_of_def)

section \<open>Properties\<close>

text \<open>
  C23.  The netlist information of a schematic whose names parse.  It is computed exactly when every
  net with the base name of a terminal stays within the terminal's bounds and no two attributes for
  the same net conflict; otherwise \<^verbatim>\<open>std::runtime_error\<close> is thrown.  It then lists the terminals by
  direction, declares every other net once, with the hull of the bounds of all its uses, and gives
  every terminal and net exactly the attributes found for it.
\<close>

theorem get_cv_netlist_info_correct:
  fixes cv :: "('x, 'p, 's) cv_data" and info_map :: netlist_map_t and compute :: bool
  defines "T \<equiv> term_entries (cv_terminals cv)" and "am \<equiv> term_attr_entries (cv_terminals cv)"
    and "evs \<equiv> cv_events info_map compute (cv_instances cv)"
  assumes terms: "\<forall>t\<in>set (cv_terminals cv). \<exists>nu. parse_cdba_name_unit (fst t) = Inr nu"
    and insts: "\<forall>p\<in>set (cv_instances cv). inst_readable info_map compute (snd p)"
  shows "if events_ok T am evs
    then \<exists>info nets. get_cv_netlist_info cv info_map compute = Inr info \<and>
      ci_in_terms info = terms_of_type (\<lambda>t. t = Term_input) (cv_terminals cv) \<and>
      ci_out_terms info = terms_of_type (\<lambda>t. t = Term_output) (cv_terminals cv) \<and>
      ci_io_terms info = terms_of_type (\<lambda>t. t \<noteq> Term_input \<and> t \<noteq> Term_output) (cv_terminals cv) \<and>
      ci_nets info = map (\<lambda>(n, bnds). bounds_to_string n bnds) nets \<and>
      registered T am evs (nets, ci_term_net_attrs info)
    else get_cv_netlist_info cv info_map compute = Inl Runtime_error"
proof -
  let ?ans = "make_cellview_info (cv_lib_name cv) (cv_cell_name cv) False"
  obtain am' T' where t: "foldR info_terminal (?ans, []) (cv_terminals cv) = Inr (?ans
      \<lparr>ci_in_terms := terms_of_type (\<lambda>t. t = Term_input) (cv_terminals cv),
       ci_out_terms := terms_of_type (\<lambda>t. t = Term_output) (cv_terminals cv),
       ci_io_terms := terms_of_type (\<lambda>t. t \<noteq> Term_input \<and> t \<noteq> Term_output) (cv_terminals cv),
       ci_term_net_attrs := am'\<rparr>, T')"
    "sm_inv am'" "sm_inv T'" "map_of T' = map_of T" "map_of am' = map_of am"
    using info_terminals_spec [OF terms, of "[]" ?ans]
    by (auto simp: make_cellview_info_def T_def am_def)
  have ok: "events_ok T' am' evs = events_ok T am evs" using t(4,5) by (rule events_ok_cong)
  have fold: "foldR (info_instance info_map compute T') ([], am') (cv_instances cv)
      = foldR (register_event T') ([], am') evs"
    unfolding evs_def by (rule info_instances_events [OF insts])
  show ?thesis
  proof (cases "events_ok T am evs")
    case True
    then obtain st where st: "foldR (register_event T') ([], am') evs = Inr st" "registered T am evs st"
      using register_events_spec [OF t(2,3), of evs] ok registered_cong [OF t(4,5)] by auto
    then show ?thesis using True t(1) fold
      by (cases st) (auto simp: get_cv_netlist_info_def intro!: exI)
  next
    case False
    then show ?thesis
      using register_events_spec [OF t(2,3), of evs] ok t(1) fold by (simp add: get_cv_netlist_info_def)
  qed
qed

text \<open>
  \<^verbatim>\<open>record_cv_info\<close> makes an information available under its library and cell name, unless one
  was recorded under these names before, which then stays; no other entry changes.
\<close>

theorem record_cv_info_correct:
  "get_cv_info (record_cv_info m info) lib cell =
     (if lib = ci_lib_name info \<and> cell = ci_cell_name info
      then (case get_cv_info m lib cell of Inl e \<Rightarrow> Inr info | Inr old \<Rightarrow> Inr old)
      else get_cv_info m lib cell)"
  by (auto simp: get_cv_info_def record_cv_info_def umap_emplace_def split: option.splits)

lemma example_events:
  "cv_events (\<lambda>_. None) False (cv_instances example_cv) =
     [(\<lparr>nu_base = ''VDD'', nu_range = range_default\<rparr>, None),
      (\<lparr>nu_base = ''a'', nu_range = \<lparr>rg_start = 1, rg_stop = 0, rg_step = 1\<rparr>\<rparr>, None)]"
  by (simp add: example_cv_def example_insts_def cv_events_def inst_events_def inst_info_of_def
      conn_events_def example_simps)

lemma example_term: "parse_cdba_name_unit ''a<1:0>''
    = Inr \<lparr>nu_base = ''a'', nu_range = \<lparr>rg_start = 1, rg_stop = 0, rg_step = 1\<rparr>\<rparr>"
  by (simp add: parse_eval)

lemma example_bounds:
  "range_bounds range_default = (0, 0)"
  "range_bounds \<lparr>rg_start = 1, rg_stop = 0, rg_step = 1\<rparr> = (0, 2)"
  by (simp_all add: range_bounds_def range_default_def range_stop_include_def range_at_def range_size_def)

theorem get_cv_netlist_info_correct_witness:
  "\<exists>info nets. get_cv_netlist_info example_cv (\<lambda>_. None) False = Inr info \<and>
     ci_in_terms info = [''a<1:0>''] \<and> ci_nets info = map (\<lambda>(n, bnds). bounds_to_string n bnds) nets \<and>
     map_of nets ''VDD'' = Some (0, 0) \<and> map_of nets ''a'' = None"
proof -
  let ?T = "term_entries (cv_terminals example_cv)" and ?am = "term_attr_entries (cv_terminals example_cv)"
  let ?evs = "cv_events (\<lambda>_. None) False (cv_instances example_cv)"
  have T: "?T = [(''a'', (0, 2))]" "?am = []"
    by (simp_all add: example_cv_def term_entries_def term_attr_entries_def term_unit_def
        example_term example_bounds)
  have hyps: "\<forall>t\<in>set (cv_terminals example_cv). \<exists>nu. parse_cdba_name_unit (fst t) = Inr nu"
    "\<forall>p\<in>set (cv_instances example_cv). inst_readable (\<lambda>_. None) False (snd p)"
    by (simp_all add: example_cv_def example_insts_def inst_readable_def example_term example_simps)
  have "events_ok ?T ?am ?evs"
    by (simp add: T example_events events_ok_def event_in_bounds_def out_of_term_bounds_def
        example_bounds attrs_of_def)
  then obtain info nets where info: "get_cv_netlist_info example_cv (\<lambda>_. None) False = Inr info"
    "ci_in_terms info = terms_of_type (\<lambda>t. t = Term_input) (cv_terminals example_cv)"
    "ci_nets info = map (\<lambda>(n, bnds). bounds_to_string n bnds) nets"
    "registered ?T ?am ?evs (nets, ci_term_net_attrs info)"
    using get_cv_netlist_info_correct [OF hyps] by (auto simp del: registered_def)
  have "\<forall>b. map_of nets b = (if map_of ?T b = None then bounds_hull (base_bounds ?evs b) else None)"
    using info(4) by (simp add: registered_def)
  then have "map_of nets ''VDD'' = Some (0, 0)" "map_of nets ''a'' = None"
    by (simp_all add: T example_events base_bounds_def bounds_hull_def example_bounds)
  moreover have "ci_in_terms info = [''a<1:0>'']"
    using info(2) by (simp add: terms_of_type_def example_cv_def)
  ultimately show ?thesis using info(1,3) by blast
qed

end
