(* ===== verification/Lstream.thy ===== *)
theory Lstream
  imports Prelude
begin

text \<open>
  Netlist lines: the class \<^verbatim>\<open>lstream\<close> of \<^verbatim>\<open>src/cbag/netlist/lstream.cpp\<close>, a list of tokens that is
  written with line breaks once a line would get too long.  What is written is a string; \<^verbatim>\<open>size_t\<close>
  column counts are natural numbers, since no line in memory reaches \<open>2 ^ 64\<close> characters.
\<close>

section \<open>Collecting tokens\<close>

type_synonym lstream = "string list"

definition ls_empty :: "lstream \<Rightarrow> bool" where
  "ls_empty b \<longleftrightarrow> b = []"

definition ls_put :: "lstream \<Rightarrow> string \<Rightarrow> lstream" where
  "ls_put b token = b @ [token]"

definition ls_puts :: "lstream \<Rightarrow> string list \<Rightarrow> lstream" where
  "ls_puts b tokens = b @ tokens"

text \<open>\<^verbatim>\<open>tokens.back()\<close> of an empty vector is undefined.\<close>

definition ls_append_last :: "lstream \<Rightarrow> string \<Rightarrow> lstream result" where
  "ls_append_last b s = (if b = [] then Inl Undefined_behaviour else Inr (butlast b @ [last b @ s]))"

section \<open>Writing a line\<close>

definition newline_char :: char where
  "newline_char = CHR 10"

definition endl :: string where
  "endl = [newline_char]"

fun wrap_rest :: "nat \<Rightarrow> bool \<Rightarrow> nat \<Rightarrow> string option \<Rightarrow> nat \<Rightarrow> string list \<Rightarrow> string" where
  "wrap_rest tab_size break_before ncol cnt_str cur_col [] = []"
| "wrap_rest tab_size break_before ncol cnt_str cur_col (tok # toks) =
     (let n = length tok;
          cur_len = (if break_before then n + 3 else n + 1) in
      if cur_col + cur_len \<le> ncol
      then '' '' @ tok @ wrap_rest tab_size break_before ncol cnt_str (cur_col + (n + 1)) toks
      else (case cnt_str of
          None \<Rightarrow> endl @ replicate tab_size CHR '' '' @ tok @
            wrap_rest tab_size break_before ncol cnt_str (n + tab_size) toks
        | Some c \<Rightarrow>
            if break_before
            then '' '' @ c @ endl @ replicate tab_size CHR '' '' @ tok @
              wrap_rest tab_size break_before ncol cnt_str (n + tab_size) toks
            else endl @ c @ '' '' @ tok @
              wrap_rest tab_size break_before ncol cnt_str (n + 2) toks))"

definition to_file_helper ::
  "lstream \<Rightarrow> bool \<Rightarrow> nat \<Rightarrow> bool \<Rightarrow> nat \<Rightarrow> string option \<Rightarrow> string" where
  "to_file_helper line newline tab_size break_before ncol cnt_str =
     (case line of
        [] \<Rightarrow> []
      | tok # toks \<Rightarrow> tok @ wrap_rest tab_size break_before ncol cnt_str (length tok) toks @
          (if newline then endl else []))"

definition to_file_cdba :: "lstream \<Rightarrow> bool \<Rightarrow> string" where
  "to_file_cdba b newline = to_file_helper b newline 0 False 80 (Some ''+'')"

definition to_file_cdl_cmd :: "lstream \<Rightarrow> bool \<Rightarrow> string" where
  "to_file_cdl_cmd b newline = to_file_helper b newline 0 False 80 (Some ''*+'')"

definition to_file_verilog :: "lstream \<Rightarrow> bool \<Rightarrow> string" where
  "to_file_verilog b newline = to_file_helper b newline 4 True 120 None"

section \<open>Lines of tokens\<close>

text \<open>Tokens separated by single spaces, and the lines of a wrapped line of tokens.\<close>

fun spaced :: "string list \<Rightarrow> string" where
  "spaced [] = []"
| "spaced (tok # toks) = tok @ concat (map (\<lambda>s. '' '' @ s) toks)"

definition wrapped_lines :: "string \<Rightarrow> string list list \<Rightarrow> string list" where
  "wrapped_lines lead groups =
     (case groups of [] \<Rightarrow> [] | g # gs \<Rightarrow> spaced g # map (\<lambda>g. lead @ spaced g) gs)"

fun join_lines :: "string list \<Rightarrow> string" where
  "join_lines [] = []"
| "join_lines (l # ls) = l @ concat (map (\<lambda>l. endl @ l) ls)"

text \<open>Only a line of one token may be longer than the limit.\<close>

definition width_ok :: "nat \<Rightarrow> string \<Rightarrow> string list \<Rightarrow> bool" where
  "width_ok limit lead g \<longleftrightarrow> length (lead @ spaced g) \<le> limit \<or> length g = 1"

lemma length_spaced_Cons: "length (spaced (g @ [tok])) =
   (if g = [] then length tok else length (spaced g) + 1 + length tok)"
  by (cases g) auto

text \<open>
  The rest of a line, after the tokens of \<open>g\<close>: \<open>off\<close> is the number of columns the code counts for
  the start of a continuation line, which it prints as \<open>lead\<close>.
\<close>

lemma spaced_snoc: "g \<noteq> [] \<Longrightarrow> spaced (g @ [tok]) = spaced g @ '' '' @ tok"
  by (cases g) auto

lemma wrap_rest_groups:
  assumes "g \<noteq> []" and lead: "lead = (case cnt of None \<Rightarrow> replicate tab CHR '' '' | Some c \<Rightarrow> c @ '' '')"
    and off: "off = (case cnt of None \<Rightarrow> tab | Some c \<Rightarrow> 2)"
    and bb: "cnt \<noteq> None \<longrightarrow> \<not> bb"
    and "width_ok (ncol + (length lead - off)) pre g" and "length (pre @ spaced g) \<le> col + (length lead - off)"
  shows "\<exists>g' gs. spaced g @ wrap_rest tab bb ncol cnt col toks
      = spaced (g @ g') @ concat (map (\<lambda>l. endl @ lead @ spaced l) gs) \<and>
    g' @ concat gs = toks \<and> [] \<notin> set gs \<and>
    width_ok (ncol + (length lead - off)) pre (g @ g') \<and>
    (\<forall>l\<in>set gs. width_ok (ncol + (length lead - off)) lead l)"
  using assms(1,5,6)
proof (induction toks arbitrary: g col pre)
  case Nil
  then show ?case by (intro exI [of _ "[]"]) simp
next
  case (Cons tok toks)
  let ?n = "length tok"
  show ?case
  proof (cases "col + (if bb then ?n + 3 else ?n + 1) \<le> ncol")
    case True
    have len: "length (pre @ spaced (g @ [tok])) \<le> col + (?n + 1) + (length lead - off)"
      using Cons.prems(1,3) by (simp add: spaced_snoc)
    have "col + (?n + 1) \<le> ncol" using True by (cases bb) auto
    with len have wid: "width_ok (ncol + (length lead - off)) pre (g @ [tok])"
      by (simp add: width_ok_def)
    have "g @ [tok] \<noteq> []" by simp
    from Cons.IH [OF this wid len] obtain g' gs where
      ih: "spaced (g @ [tok]) @ wrap_rest tab bb ncol cnt (col + (?n + 1)) toks
      = spaced ((g @ [tok]) @ g') @ concat (map (\<lambda>l. endl @ lead @ spaced l) gs)"
      "g' @ concat gs = toks" "[] \<notin> set gs"
      "width_ok (ncol + (length lead - off)) pre ((g @ [tok]) @ g')"
      "\<forall>l\<in>set gs. width_ok (ncol + (length lead - off)) lead l"
      by blast
    have "wrap_rest tab bb ncol cnt col (tok # toks)
        = '' '' @ tok @ wrap_rest tab bb ncol cnt (col + (?n + 1)) toks"
      using True by (simp add: Let_def)
    with ih Cons.prems(1) show ?thesis
      by (intro exI [of _ "tok # g'"] exI [of _ gs]) (simp add: spaced_snoc)
  next
    case False
    have wid: "width_ok (ncol + (length lead - off)) lead [tok]" by (simp add: width_ok_def)
    have len: "length (lead @ spaced [tok]) \<le> ?n + off + (length lead - off)" by simp
    have "[tok] \<noteq> []" by simp
    from Cons.IH [OF this wid len] obtain g' gs where
      ih: "spaced [tok] @ wrap_rest tab bb ncol cnt (?n + off) toks
      = spaced ([tok] @ g') @ concat (map (\<lambda>l. endl @ lead @ spaced l) gs)"
      "g' @ concat gs = toks" "[] \<notin> set gs"
      "width_ok (ncol + (length lead - off)) lead ([tok] @ g')"
      "\<forall>l\<in>set gs. width_ok (ncol + (length lead - off)) lead l"
      by blast
    have "wrap_rest tab bb ncol cnt col (tok # toks)
        = endl @ lead @ tok @ wrap_rest tab bb ncol cnt (?n + off) toks"
      using False bb lead off by (cases cnt) (simp_all add: Let_def)
    with ih Cons.prems(2) show ?thesis
      by (intro exI [of _ "[]"] exI [of _ "([tok] @ g') # gs"]) simp
  qed
qed

lemma to_file_helper_lines:
  assumes lead: "lead = (case cnt of None \<Rightarrow> replicate tab CHR '' '' | Some c \<Rightarrow> c @ '' '')"
    and off: "off = (case cnt of None \<Rightarrow> tab | Some c \<Rightarrow> 2)"
    and bb: "cnt \<noteq> None \<longrightarrow> \<not> bb" and b: "b \<noteq> []"
  shows "\<exists>groups. to_file_helper b newline tab bb ncol cnt
      = join_lines (wrapped_lines lead groups) @ (if newline then endl else []) \<and>
    concat groups = b \<and> groups \<noteq> [] \<and> [] \<notin> set groups \<and>
    width_ok (ncol + (length lead - off)) [] (hd groups) \<and>
    (\<forall>g\<in>set (tl groups). width_ok (ncol + (length lead - off)) lead g)"
proof -
  obtain tok toks where bt: "b = tok # toks" using b by (cases b) auto
  have "width_ok (ncol + (length lead - off)) [] [tok]" by (simp add: width_ok_def)
  moreover have "length ([] @ spaced [tok]) \<le> length tok + (length lead - off)" by simp
  moreover have "[tok] \<noteq> []" by simp
  ultimately obtain g' gs where g:
    "spaced [tok] @ wrap_rest tab bb ncol cnt (length tok) toks
      = spaced ([tok] @ g') @ concat (map (\<lambda>l. endl @ lead @ spaced l) gs)"
    "g' @ concat gs = toks" "[] \<notin> set gs"
    "width_ok (ncol + (length lead - off)) [] ([tok] @ g')"
    "\<forall>l\<in>set gs. width_ok (ncol + (length lead - off)) lead l"
    using wrap_rest_groups [OF _ lead off bb] by metis
  then show ?thesis using bt
    by (intro exI [of _ "([tok] @ g') # gs"])
      (simp add: to_file_helper_def wrapped_lines_def o_def)
qed

section \<open>Properties\<close>

text \<open>
  What it means that \<open>text\<close> is the tokens of \<open>b\<close>, broken into lines of at most \<open>limit\<close> characters:
  every token is there once, in order, separated by spaces and breaks only, each line after the first
  starts with \<open>lead\<close>, and a line that is longer consists of one token.
\<close>

definition wraps :: "nat \<Rightarrow> string \<Rightarrow> string list \<Rightarrow> string \<Rightarrow> bool" where
  "wraps limit lead b text \<longleftrightarrow>
     (\<exists>groups. text = join_lines (wrapped_lines lead groups) \<and> concat groups = b \<and>
        groups \<noteq> [] \<and> [] \<notin> set groups \<and> width_ok limit [] (hd groups) \<and>
        (\<forall>g\<in>set (tl groups). width_ok limit lead g))"

lemma to_file_helper_wraps:
  assumes "lead = (case cnt of None \<Rightarrow> replicate tab CHR '' '' | Some c \<Rightarrow> c @ '' '')"
    and "off = (case cnt of None \<Rightarrow> tab | Some c \<Rightarrow> 2)"
    and "cnt \<noteq> None \<longrightarrow> \<not> bb" and "b \<noteq> []"
  shows "\<exists>text. to_file_helper b newline tab bb ncol cnt = text @ (if newline then endl else []) \<and>
    wraps (ncol + (length lead - off)) lead b text"
  using to_file_helper_lines [OF assms, of newline ncol] unfolding wraps_def by blast

text \<open>
  C35.  Writing a line breaks it between tokens only: no token is lost, reordered or split, lines of a
  netlist have at most 80 columns and lines of Verilog at most 120, single tokens that are longer
  excepted.  The lines of a CDL comment, which continue with \<^verbatim>\<open>*+\<close>, can have 81 columns.
\<close>

theorem to_file_wraps:
  assumes "b \<noteq> []"
  shows "(\<exists>text. to_file_cdba b newline = text @ (if newline then endl else []) \<and> wraps 80 ''+ '' b text) \<and>
    (\<exists>text. to_file_cdl_cmd b newline = text @ (if newline then endl else []) \<and> wraps 81 ''*+ '' b text) \<and>
    (\<exists>text. to_file_verilog b newline = text @ (if newline then endl else []) \<and> wraps 120 ''    '' b text)"
proof (intro conjI)
  show "\<exists>text. to_file_cdba b newline = text @ (if newline then endl else []) \<and> wraps 80 ''+ '' b text"
    using to_file_helper_wraps [where lead = "''+ ''" and cnt = "Some ''+''" and off = 2 and tab = 0
        and bb = False and ncol = 80 and b = b and newline = newline] assms
    by (simp add: to_file_cdba_def)
  show "\<exists>text. to_file_cdl_cmd b newline = text @ (if newline then endl else []) \<and> wraps 81 ''*+ '' b text"
    using to_file_helper_wraps [where lead = "''*+ ''" and cnt = "Some ''*+''" and off = 2 and tab = 0
        and bb = False and ncol = 80 and b = b and newline = newline] assms
    by (simp add: to_file_cdl_cmd_def)
  show "\<exists>text. to_file_verilog b newline = text @ (if newline then endl else []) \<and> wraps 120 ''    '' b text"
    using to_file_helper_wraps [where lead = "''    ''" and cnt = None and off = 4 and tab = 4
        and bb = True and ncol = 120 and b = b and newline = newline] assms
    by (simp add: to_file_verilog_def numeral_eq_Suc)
qed

theorem to_file_wraps_witness:
  "\<exists>text. to_file_verilog [''a'', ''b''] True = text @ endl \<and> wraps 120 ''    '' [''a'', ''b''] text"
  using to_file_wraps [of "[''a'', ''b'']" True] by simp

text \<open>
  The code counts two columns for the start of a continuation line although \<^verbatim>\<open>*+\<close> and the space
  take three: two tokens of 39 and 38 characters share a continuation line of 81 columns, where the
  limit is 80.
\<close>

theorem cdl_cmd_line_too_long:
  "to_file_cdl_cmd [replicate 80 CHR ''a'', replicate 39 CHR ''b'', replicate 38 CHR ''c''] True
     = replicate 80 CHR ''a'' @ endl @
       (''*+ '' @ replicate 39 CHR ''b'' @ '' '' @ replicate 38 CHR ''c'') @ endl \<and>
   length (''*+ '' @ replicate 39 CHR ''b'' @ '' '' @ replicate 38 CHR ''c'') = 81"
  by (simp add: to_file_cdl_cmd_def to_file_helper_def del: replicate.simps replicate_Suc)

end
