(* ===== verification/Writers.thy ===== *)
theory Writers
  imports Prelude
begin

text \<open>
  Writers of files.  An output file is what has been written so far, characters or bytes, and a writer
  leaves the file as it is when an exception passes through it.
\<close>

definition seqS :: "'s outcome \<Rightarrow> ('s \<Rightarrow> 's outcome) \<Rightarrow> 's outcome" where
  "seqS m f = (case m of (None, s) \<Rightarrow> f s | (Some e, s) \<Rightarrow> (Some e, s))"

definition tryS :: "'a result \<Rightarrow> ('a \<Rightarrow> 's \<Rightarrow> 's outcome) \<Rightarrow> 's \<Rightarrow> 's outcome" where
  "tryS r f s = (case r of Inl e \<Rightarrow> (Some e, s) | Inr x \<Rightarrow> f x s)"

fun forS :: "('a \<Rightarrow> 's \<Rightarrow> 's outcome) \<Rightarrow> 'a list \<Rightarrow> 's \<Rightarrow> 's outcome" where
  "forS f [] s = (None, s)"
| "forS f (x # xs) s = seqS (f x s) (forS f xs)"

definition emit :: "'a list \<Rightarrow> 'a list \<Rightarrow> 'a list outcome" where
  "emit t out = (None, out @ t)"

lemma seqS_simps [simp]:
  "seqS (None, s) f = f s" "seqS (Some e, s) f = (Some e, s)"
  by (simp_all add: seqS_def)

lemma seqS_eq_None: "seqS m f = (None, s) \<longleftrightarrow> (\<exists>t. m = (None, t) \<and> f t = (None, s))"
  by (cases m; cases "fst m") (auto simp: seqS_def)

lemma tryS_simps [simp]: "tryS (Inr x) f s = f x s" "tryS (Inl e) f s = (Some e, s)"
  by (simp_all add: tryS_def)

lemma emit_simps [simp]: "emit t s = (None, s @ t)"
  by (simp add: emit_def)

text \<open>A loop of writers that succeed writes the texts one after the other.\<close>

lemma forS_emits:
  "(\<And>x s. x \<in> set xs \<Longrightarrow> f x s = (None, s @ t x)) \<Longrightarrow> forS f xs s = (None, s @ concat (map t xs))"
  by (induction xs arbitrary: s) auto

lemma forS_append: "forS f (xs @ ys) s = seqS (forS f xs s) (forS f ys)"
  by (induction xs arbitrary: s) (auto simp: seqS_def split: option.splits prod.splits)

end
