(* ===== verification/Netlist_Core.thy ===== *)
theory Netlist_Core
  imports Cellview_Info Lstream Writers
begin

text \<open>
  The netlisting driver: \<^verbatim>\<open>include/cbag/netlist/core.h\<close> and \<^verbatim>\<open>netlist.h\<close>.  A netlist format is an
  instance of the class template \<^verbatim>\<open>traits::nstream\<close>; here it is a record of its operations.  The
  file system enters as two parameters: the contents of a file, and the canonical
  path of a file name.
\<close>

section \<open>Netlist formats\<close>

record 'x netlister =
  nl_write_header :: "string list \<Rightarrow> bool \<Rightarrow> string \<Rightarrow> string outcome"
  nl_write_end :: "string \<Rightarrow> string outcome"
  nl_write_cv_header :: "string \<Rightarrow> cellview_info \<Rightarrow> bool \<Rightarrow> bool \<Rightarrow> string \<Rightarrow> string outcome"
  nl_write_cv_end :: "string \<Rightarrow> bool \<Rightarrow> string \<Rightarrow> string outcome"
  nl_write_instance :: "string \<Rightarrow> 'x sch_instance \<Rightarrow> cellview_info \<Rightarrow> string \<Rightarrow> string outcome"
  nl_append_netlist :: "string \<Rightarrow> string \<Rightarrow> string outcome"

definition nl_instance_step ::
  "'x netlister \<Rightarrow> netlist_map_t \<Rightarrow> string \<times> 'x sch_instance \<Rightarrow> string \<Rightarrow> string outcome" where
  "nl_instance_step nl cell_map p out =
     tryS (get_cv_info cell_map (inst_lib_name (snd p)) (inst_cell_name (snd p))) (\<lambda>cv_info out.
       if ci_cell_name cv_info \<noteq> [] then nl_write_instance nl (fst p) (snd p) cv_info out
       else (None, out)) out"

definition add_cellview ::
  "'x netlister \<Rightarrow> string \<Rightarrow> ('x, 'p, 's) cv_data \<Rightarrow> cellview_info \<Rightarrow> netlist_map_t \<Rightarrow> bool \<Rightarrow> bool
     \<Rightarrow> string \<Rightarrow> string outcome" where
  "add_cellview nl name cv info cell_map shell write_subckt out =
     seqS (nl_write_cv_header nl name info shell write_subckt out) (\<lambda>out.
     seqS (if \<not> shell then forS (nl_instance_step nl cell_map) (cv_instances cv) out
           else (None, out)) (\<lambda>out.
     nl_write_cv_end nl name write_subckt out))"

definition add_netlist :: "'x netlister \<Rightarrow> string \<Rightarrow> string \<Rightarrow> string outcome" where
  "add_netlist nl netlist out = nl_append_netlist nl netlist out"

text \<open>The visitor of parameters writes strings only, and no empty ones.\<close>

fun write_param :: "string \<Rightarrow> value_t \<Rightarrow> string list" where
  "write_param key (V_string v) = (if v \<noteq> [] then [key @ ''='' @ v] else [])"
| "write_param key _ = []"

section \<open>Writing a list of cellviews\<close>

text \<open>
  An entry of the content list has a name, the cellview, if any, and a netlist to use instead of the
  one that would be generated.
\<close>

type_synonym ('x, 'p, 's) content = "string \<times> ('x, 'p, 's) cv_data option \<times> string"

type_synonym net_state = "string \<times> netlist_map_t"

definition on_file :: "(string \<Rightarrow> string outcome) \<Rightarrow> net_state \<Rightarrow> net_state outcome" where
  "on_file f st = (case f (fst st) of (e, out) \<Rightarrow> (e, (out, snd st)))"

definition netlist_entry ::
  "'x netlister \<Rightarrow> bool \<Rightarrow> bool \<Rightarrow> bool \<times> ('x, 'p, 's) content \<Rightarrow> net_state \<Rightarrow> net_state outcome" where
  "netlist_entry nl shell top_subckt e st =
     (case e of (is_top, cur_name, cv_ptr, cur_netlist) \<Rightarrow>
       let write_subckt = top_subckt \<or> \<not> is_top in
       (case cv_ptr of
          None \<Rightarrow> (None, st)
        | Some cv \<Rightarrow>
            tryS (get_cv_netlist_info cv (snd st) (cur_netlist = [])) (\<lambda>cv_info st.
              seqS (if \<not> shell \<or> is_top
                    then (if cur_netlist = []
                          then on_file (add_cellview nl cur_name cv cv_info (snd st) shell write_subckt) st
                          else on_file (add_netlist nl cur_netlist) st)
                    else (None, st)) (\<lambda>st.
              (None, (fst st, record_cv_info (snd st) cv_info)))) st))"

definition mark_last :: "'a list \<Rightarrow> (bool \<times> 'a) list" where
  "mark_last xs = map (\<lambda>i. (i = length xs - 1, xs ! i)) [0..<length xs]"

definition write_netlist_helper ::
  "(string \<Rightarrow> string option) \<Rightarrow> ('x, 'p, 's) content list \<Rightarrow> 'x netlister \<Rightarrow> bool \<Rightarrow> bool
     \<Rightarrow> string list \<Rightarrow> string \<Rightarrow> net_state \<Rightarrow> net_state outcome" where
  "write_netlist_helper read_file contents nl shell top_subckt inc_list append_file st =
     seqS (on_file (nl_write_header nl inc_list shell) st) (\<lambda>st.
     seqS (if \<not> shell \<and> append_file \<noteq> []
           then (case read_file append_file of
                   None \<Rightarrow> (Some Invalid_argument, st)
                 | Some text \<Rightarrow> on_file (nl_append_netlist nl text) st)
           else (None, st)) (\<lambda>st.
     seqS (forS (netlist_entry nl shell top_subckt) (mark_last contents) st) (\<lambda>st.
     on_file (nl_write_end nl) st)))"

section \<open>Formats by their texts\<close>

text \<open>
  What the driver relies on: for instances and headers that are ready, a format writes texts that
  depend on nothing else.
\<close>

locale netlist_format =
  fixes nl :: "'x netlister"
    and inst_ready :: "string \<Rightarrow> 'x sch_instance \<Rightarrow> cellview_info \<Rightarrow> bool"
    and inst_text :: "string \<Rightarrow> 'x sch_instance \<Rightarrow> cellview_info \<Rightarrow> string"
    and head_ready :: "cellview_info \<Rightarrow> bool"
    and head_text :: "string \<Rightarrow> cellview_info \<Rightarrow> bool \<Rightarrow> bool \<Rightarrow> string"
    and end_text :: "string \<Rightarrow> bool \<Rightarrow> string"
  assumes write_instance: "inst_ready name inst info \<Longrightarrow>
      nl_write_instance nl name inst info out = (None, out @ inst_text name inst info)"
    and write_cv_header: "head_ready info \<Longrightarrow>
      nl_write_cv_header nl name info shell subckt out = (None, out @ head_text name info shell subckt)"
    and write_cv_end: "nl_write_cv_end nl name subckt out = (None, out @ end_text name subckt)"
begin

definition master_text :: "netlist_map_t \<Rightarrow> string \<times> 'x sch_instance \<Rightarrow> string" where
  "master_text cell_map p =
     (case get_cv_info cell_map (inst_lib_name (snd p)) (inst_cell_name (snd p)) of
        Inl e \<Rightarrow> []
      | Inr i \<Rightarrow> if ci_cell_name i \<noteq> [] then inst_text (fst p) (snd p) i else [])"

definition master_ready :: "netlist_map_t \<Rightarrow> string \<times> 'x sch_instance \<Rightarrow> bool" where
  "master_ready cell_map p \<longleftrightarrow>
     (\<exists>i. get_cv_info cell_map (inst_lib_name (snd p)) (inst_cell_name (snd p)) = Inr i \<and>
        (ci_cell_name i \<noteq> [] \<longrightarrow> inst_ready (fst p) (snd p) i))"

lemma instance_step_text:
  "master_ready cell_map p \<Longrightarrow>
   nl_instance_step nl cell_map p out = (None, out @ master_text cell_map p)"
  by (auto simp: master_ready_def master_text_def nl_instance_step_def write_instance)

lemma add_cellview_text:
  assumes "head_ready info" and "\<not> shell \<longrightarrow> (\<forall>p\<in>set (cv_instances cv). master_ready cell_map p)"
  shows "add_cellview nl name cv info cell_map shell subckt out
    = (None, out @ head_text name info shell subckt @
        (if shell then [] else concat (map (master_text cell_map) (cv_instances cv))) @
        end_text name subckt)"
proof -
  have "forS (nl_instance_step nl cell_map) (cv_instances cv) out'
      = (None, out' @ concat (map (master_text cell_map) (cv_instances cv)))" if "\<not> shell" for out'
    using assms(2) that by (intro forS_emits instance_step_text) auto
  then show ?thesis
    by (simp add: add_cellview_def write_cv_header [OF assms(1)] write_cv_end)
qed

end

section \<open>Tokens of instances\<close>

text \<open>
  The bits of a net that the writers append to a line.  An expansion that does not end, which parsed
  names do not have, counts as undefined.
\<close>

definition bits_of_name :: "name_space \<Rightarrow> ast_name \<Rightarrow> string list result" where
  "bits_of_name ns na = (case name_bits ns na of None \<Rightarrow> Inl Undefined_behaviour | Some bs \<Rightarrow> Inr bs)"

definition find_net :: "'x sch_instance \<Rightarrow> string \<Rightarrow> string result" where
  "find_net inst trm =
     (case sm_lookup (inst_connections inst) trm of None \<Rightarrow> Inl Invalid_argument | Some n \<Rightarrow> Inr n)"

definition term_net_pair :: "'x sch_instance \<Rightarrow> string \<Rightarrow> (cnt_t \<times> string list) result" where
  "term_net_pair inst trm =
     bindR (find_net inst trm) (\<lambda>net.
     bindR (parse_cdba_name_unit trm) (\<lambda>ast_term.
     bindR (parse_cdba_name net) (\<lambda>ast.
     bindR (bits_of_name Cdba ast) (\<lambda>bits. Inr (unit_size ast_term, bits)))))"

text \<open>\<^verbatim>\<open>for (; net_idx < stop_idx; ++net_idx) b << pair.second[net_idx];\<close>\<close>

definition indexed_nets :: "cnt_t \<Rightarrow> cnt_t \<times> string list \<Rightarrow> string list result" where
  "indexed_nets inst_idx p =
     (let net_idx = inst_idx * fst p; stop_idx = net_idx + fst p in
      mapR (\<lambda>i. if i < length (snd p) then Inr (snd p ! i) else Inl Undefined_behaviour)
        [unat net_idx..<unat stop_idx])"

definition array_line ::
  "name_unit \<Rightarrow> (cnt_t \<times> string list) list \<Rightarrow> string list \<Rightarrow> cnt_t \<Rightarrow> lstream result" where
  "array_line inst_ast term_net_vec tokens inst_idx =
     bindR (mapR (indexed_nets inst_idx) term_net_vec) (\<lambda>nets.
       Inr (ls_puts (ls_puts (ls_put [] (unit_name_bit inst_ast inst_idx True Cdba)) (concat nets)) tokens))"

definition write_array ::
  "name_unit \<Rightarrow> (cnt_t \<times> string list) list \<Rightarrow> string list \<Rightarrow> string \<Rightarrow> string outcome" where
  "write_array inst_ast term_net_vec tokens out =
     forS (\<lambda>i. tryS (array_line inst_ast term_net_vec tokens (of_nat i)) (\<lambda>b. emit (to_file_cdba b True)))
       [0..<unat (unit_size inst_ast)] out"

section \<open>Nets by bits\<close>

text \<open>The bits of the net on a terminal, and the slice of them that one bit of an instance gets.\<close>

definition net_bits :: "'x sch_instance \<Rightarrow> string \<Rightarrow> string list" where
  "net_bits inst trm =
     (case map_of (inst_connections inst) trm of None \<Rightarrow> []
      | Some net \<Rightarrow> (case parse_cdba_name net of Inl e \<Rightarrow> [] | Inr na \<Rightarrow> name_expand Cdba na))"

definition net_slice :: "'x sch_instance \<Rightarrow> nat \<Rightarrow> string \<Rightarrow> string list" where
  "net_slice inst i trm = take (term_bits trm) (drop (i * term_bits trm) (net_bits inst trm))"

definition term_width :: "string \<Rightarrow> cnt_t" where
  "term_width trm = unit_size (term_unit trm)"

text \<open>Every terminal of \<open>terms\<close> has a net that fits an instance of \<open>n\<close> bits.\<close>

definition terms_connected :: "nat \<Rightarrow> 'x sch_instance \<Rightarrow> string list \<Rightarrow> bool" where
  "terms_connected n inst terms \<longleftrightarrow> sm_inv (inst_connections inst) \<and>
     (\<forall>t\<in>set terms. \<exists>net. map_of (inst_connections inst) t = Some net \<and> conn_fits n (t, net))"

lemma terms_connected_append:
  "terms_connected n inst (ts @ us) \<longleftrightarrow> terms_connected n inst ts \<and> terms_connected n inst us"
  by (auto simp: terms_connected_def)

lemma find_net_eq:
  "sm_inv (inst_connections inst) \<Longrightarrow>
   find_net inst t = (case map_of (inst_connections inst) t of None \<Rightarrow> Inl Invalid_argument | Some n \<Rightarrow> Inr n)"
  by (simp add: find_net_def sm_lookup_map_of)

lemma bits_of_name_eq:
  assumes "parse_cdba_name s = Inr na" and "length (name_expand ns na) < 2 ^ 64"
  shows "bits_of_name ns na = Inr (name_expand ns na)"
proof -
  have "units_ok (name_units na)" by (rule printable_ok(3) [OF parse_cdba_name_printable [OF assms(1)]])
  from bits_expand(3) [OF this assms(2)] show ?thesis by (simp add: bits_of_name_def)
qed

lemma connected_term:
  assumes "terms_connected n inst terms" and "t \<in> set terms"
  obtains net nu na where "map_of (inst_connections inst) t = Some net"
    and "parse_cdba_name_unit t = Inr nu" and "parse_cdba_name net = Inr na"
    and "net_bits inst t = name_expand Cdba na" and "term_width t = unit_size nu"
    and "term_bits t = unat (unit_size nu)" and "length (net_bits inst t) = n * term_bits t"
    and "n * term_bits t < 2 ^ 32" and "bits_of_name Cdba na = Inr (net_bits inst t)"
proof -
  obtain net nu na where f: "map_of (inst_connections inst) t = Some net"
    "parse_cdba_name_unit t = Inr nu" "parse_cdba_name net = Inr na"
    "length (name_expand Cdba na) = n * unat (unit_size nu)" "n * unat (unit_size nu) < 2 ^ 32"
    using assms unfolding terms_connected_def conn_fits_def by fastforce
  have "net_bits inst t = name_expand Cdba na" using f(1,3) by (simp add: net_bits_def)
  moreover have "bits_of_name Cdba na = Inr (name_expand Cdba na)"
    by (rule bits_of_name_eq [OF f(3)]) (use f(4,5) in simp)
  moreover have "term_bits t = unat (unit_size nu)" "term_width t = unit_size nu"
    using f(2) by (simp_all add: term_bits_def term_width_def term_unit_def)
  ultimately show thesis using f that by simp
qed

lemma term_net_pairs_connected:
  assumes "terms_connected n inst terms"
  shows "mapR (term_net_pair inst) terms = Inr (map (\<lambda>t. (term_width t, net_bits inst t)) terms)"
proof (rule mapR_Inr_map)
  fix t assume t: "t \<in> set terms"
  have inv: "sm_inv (inst_connections inst)" using assms by (simp add: terms_connected_def)
  from connected_term [OF assms t] show "term_net_pair inst t = Inr (term_width t, net_bits inst t)"
    by (metis (no_types, lifting) bindR_Inr find_net_eq [OF inv] option.case(2) term_net_pair_def)
qed

text \<open>The loop over word indices reads a slice of the bits, and never reads outside.\<close>

lemma indexed_nets_slice:
  assumes "i < n" and "length bits = n * unat w" and "n * unat w < 2 ^ 32" and "0 < unat w"
  shows "indexed_nets (of_nat i) (w, bits) = Inr (take (unat w) (drop (i * unat w) bits))"
proof -
  let ?k = "unat w"
  have "n \<le> n * ?k" using assms(4) by (cases ?k) auto
  with assms(1) have "i < n * ?k" by (rule less_le_trans)
  then have "i < 2 ^ 32" using assms(3) by (rule less_trans)
  then have i: "i < 2 ^ 64" by simp
  have ik: "i * ?k + ?k \<le> n * ?k"
    using assms(1) by (metis Suc_leI add.commute mult_Suc mult_le_mono1)
  have "unat (of_nat i :: cnt_t) = i" using i by (simp add: unat_of_nat)
  then have a: "unat (of_nat i * w) = i * ?k"
    using ik assms(3) by (subst unat_mult_lem [THEN iffD1]) auto
  then have b: "unat (of_nat i * w + w) = i * ?k + ?k"
    using ik assms(3) by (subst unat_add_lem [THEN iffD1]) auto
  have mapped: "mapR (\<lambda>j. if j < length bits then Inr (bits ! j) else Inl Undefined_behaviour)
      [i * ?k..<i * ?k + ?k] = Inr (map (\<lambda>j. bits ! j) [i * ?k..<i * ?k + ?k])"
    using ik assms(2) by (intro mapR_Inr_map) auto
  have drop_at: "drop (i * ?k) bits ! j = bits ! (i * ?k + j)" for j
    using ik assms(2) by (intro nth_drop) linarith
  note mapped
  also have "map (\<lambda>j. bits ! j) [i * ?k..<i * ?k + ?k] = take ?k (drop (i * ?k) bits)"
  proof (rule nth_equalityI)
    show "length (map (\<lambda>j. bits ! j) [i * ?k..<i * ?k + ?k]) = length (take ?k (drop (i * ?k) bits))"
      using ik assms(2) by simp
  qed (use ik assms(2) in \<open>simp add: drop_at\<close>)
  finally show ?thesis by (simp add: indexed_nets_def Let_def a b cong: if_cong)
qed

lemma indexed_nets_connected:
  assumes "terms_connected n inst terms" and "t \<in> set terms" and "i < n"
  shows "indexed_nets (of_nat i) (term_width t, net_bits inst t) = Inr (net_slice inst i t)"
proof -
  obtain nu where "term_width t = unit_size nu" "term_bits t = unat (unit_size nu)"
    "length (net_bits inst t) = n * term_bits t" "n * term_bits t < 2 ^ 32"
    using connected_term [OF assms(1,2)] by metis
  with indexed_nets_slice [OF assms(3), of "net_bits inst t" "unit_size nu"] unit_size_pos [of nu]
  show ?thesis by (simp add: net_slice_def)
qed

definition array_tokens ::
  "string \<Rightarrow> 'x sch_instance \<Rightarrow> string list \<Rightarrow> string list \<Rightarrow> nat \<Rightarrow> string list" where
  "array_tokens bit_name inst terms tokens i =
     bit_name # concat (map (net_slice inst i) terms) @ tokens"

lemma write_array_connected:
  assumes "terms_connected n inst terms" and n: "n = unat (unit_size nu)"
  shows "write_array nu (map (\<lambda>t. (term_width t, net_bits inst t)) terms) tokens out
    = (None, out @ concat (map (\<lambda>i. to_file_cdba
        (array_tokens (unit_name_bit nu (of_nat i) True Cdba) inst terms tokens i) True) [0..<n]))"
  unfolding write_array_def n [symmetric]
proof (rule forS_emits)
  fix i out assume "i \<in> set [0..<n]"
  then have i: "i < n" by simp
  have "mapR (indexed_nets (of_nat i)) (map (\<lambda>t. (term_width t, net_bits inst t)) terms)
      = Inr (map (net_slice inst i) terms)"
    using indexed_nets_connected [OF assms(1) _ i]
    by (simp add: mapR_eq_Inr list_all2_conv_all_nth)
  then show "tryS (array_line nu (map (\<lambda>t. (term_width t, net_bits inst t)) terms) tokens (of_nat i))
        (\<lambda>b. emit (to_file_cdba b True)) out
      = (None, out @ to_file_cdba
          (array_tokens (unit_name_bit nu (of_nat i) True Cdba) inst terms tokens i) True)"
    by (simp add: array_line_def array_tokens_def ls_put_def ls_puts_def)
qed

end
