(* ===== verification/Cdl.thy ===== *)
theory Cdl
  imports Netlist_Core
begin

text \<open>
  The CDL format: \<^verbatim>\<open>src/cbag/netlist/cdl.cpp\<close>.  An instance of several bits is written as one line per
  bit, each with its slice of the nets; instances from \<^verbatim>\<open>analogLib\<close> are left out.
\<close>

section \<open>The format\<close>

definition cdl_write_header ::
  "(string \<Rightarrow> string) \<Rightarrow> cnt_t \<Rightarrow> string list \<Rightarrow> bool \<Rightarrow> string \<Rightarrow> string outcome" where
  "cdl_write_header canon rmin inc_list shell out =
     (let incs = (if \<not> shell \<and> inc_list \<noteq> []
            then concat (map (\<lambda>fname. ''.INCLUDE '' @ canon fname @ endl) inc_list) @ endl else [])
      in emit (incs @
        ''*.BIPOLAR'' @ endl @
        ''*.RESI = '' @ cnt_to_string rmin @ endl @
        ''*.SCALE METER'' @ endl @
        ''*.MEGA'' @ endl @
        ''*.RESVAL'' @ endl @
        ''*.CAPVAL'' @ endl @
        ''*.DIOPERI'' @ endl @
        ''*.DIOAREA'' @ endl @
        ''*.EQUATION'' @ endl @
        ''.PARAM'' @ endl) out)"

definition get_cv_term_bits ::
  "lstream \<times> lstream \<Rightarrow> string list \<Rightarrow> string \<Rightarrow> (lstream \<times> lstream) result" where
  "get_cv_term_bits bs names ttype =
     foldR (\<lambda>bs name.
       bindR (parse_cdba_name_unit name) (\<lambda>ast.
         Inr (foldl (\<lambda>bs idx.
           let tmp = unit_name_bit ast (of_nat idx) False Cdba
           in (ls_put (fst bs) tmp, ls_put (snd bs) (tmp @ ttype))) bs [0..<unat (unit_size ast)]))) bs names"

definition cdl_write_cv_header ::
  "string \<Rightarrow> cellview_info \<Rightarrow> bool \<Rightarrow> bool \<Rightarrow> string \<Rightarrow> string outcome" where
  "cdl_write_cv_header name info shell write_subckt out =
     seqS (emit (endl @ endl) out)
       (tryS (bindR (get_cv_term_bits (ls_put (ls_put [] ''.SUBCKT'') name, ls_put [] ''*.PININFO'')
                       (ci_in_terms info) '':I'') (\<lambda>bs.
              bindR (get_cv_term_bits bs (ci_out_terms info) '':O'') (\<lambda>bs.
              get_cv_term_bits bs (ci_io_terms info) '':B'')))
        (\<lambda>bs out. seqS (emit (to_file_cdba (fst bs) True) out) (emit (to_file_cdl_cmd (snd bs) True))))"

definition cdl_write_cv_end :: "string \<Rightarrow> bool \<Rightarrow> string \<Rightarrow> string outcome" where
  "cdl_write_cv_end name write_subckt = emit (''.ENDS'' @ endl)"

definition append_nets :: "lstream \<Rightarrow> 'x sch_instance \<Rightarrow> string list \<Rightarrow> lstream result" where
  "append_nets b inst terms =
     foldR (\<lambda>b trm.
       bindR (find_net inst trm) (\<lambda>net.
       bindR (parse_cdba_name net) (\<lambda>ast.
       bindR (bits_of_name Cdba ast) (\<lambda>bits. Inr (ls_puts b bits))))) b terms"

definition merged_params :: "'x sch_instance \<Rightarrow> cellview_info \<Rightarrow> param_map" where
  "merged_params inst info =
     foldl (\<lambda>par_map p. fst (sm_insert_or_assign par_map (fst p) (snd p))) (ci_props info) (inst_params inst)"

definition cdl_cell_name_tokens :: "'x sch_instance \<Rightarrow> cellview_info \<Rightarrow> string list" where
  "cdl_cell_name_tokens inst info =
     [''/'', inst_cell_name inst] @ concat (map (\<lambda>p. write_param (fst p) (snd p)) (merged_params inst info))"

definition get_term_net_pairs ::
  "(cnt_t \<times> string list) list \<Rightarrow> 'x sch_instance \<Rightarrow> string list \<Rightarrow> (cnt_t \<times> string list) list result" where
  "get_term_net_pairs vec inst terms =
     foldR (\<lambda>vec trm. bindR (term_net_pair inst trm) (\<lambda>p. Inr (vec @ [p]))) vec terms"

definition cdl_write_instance ::
  "string \<Rightarrow> 'x sch_instance \<Rightarrow> cellview_info \<Rightarrow> string \<Rightarrow> string outcome" where
  "cdl_write_instance name inst info out =
     (if inst_lib_name inst \<noteq> ''analogLib''
      then tryS (parse_cdba_name_unit name) (\<lambda>inst_ast out.
        let n = unit_size inst_ast in
        if n = 1
        then tryS (bindR (append_nets (ls_put [] name) inst (ci_in_terms info)) (\<lambda>b.
                   bindR (append_nets b inst (ci_out_terms info)) (\<lambda>b.
                   append_nets b inst (ci_io_terms info))))
               (\<lambda>b. emit (to_file_cdba (ls_puts b (cdl_cell_name_tokens inst info)) True)) out
        else tryS (bindR (get_term_net_pairs [] inst (ci_in_terms info)) (\<lambda>v.
                   bindR (get_term_net_pairs v inst (ci_out_terms info)) (\<lambda>v.
                   get_term_net_pairs v inst (ci_io_terms info))))
               (\<lambda>term_net_vec. write_array inst_ast term_net_vec (cdl_cell_name_tokens inst info)) out) out
      else (None, out))"

definition cdl_append_netlist :: "string \<Rightarrow> string \<Rightarrow> string outcome" where
  "cdl_append_netlist netlist = emit (endl @ endl @ netlist)"

definition cdl_format :: "(string \<Rightarrow> string) \<Rightarrow> cnt_t \<Rightarrow> 'x netlister" where
  "cdl_format canon rmin =
     \<lparr>nl_write_header = cdl_write_header canon rmin, nl_write_end = (\<lambda>out. (None, out)),
      nl_write_cv_header = cdl_write_cv_header, nl_write_cv_end = cdl_write_cv_end,
      nl_write_instance = cdl_write_instance, nl_append_netlist = cdl_append_netlist\<rparr>"

section \<open>What is written\<close>

definition info_terms :: "cellview_info \<Rightarrow> string list" where
  "info_terms info = ci_in_terms info @ ci_out_terms info @ ci_io_terms info"

lemma get_term_net_pairs_mapR:
  "get_term_net_pairs vec inst terms = bindR (mapR (term_net_pair inst) terms) (\<lambda>ps. Inr (vec @ ps))"
proof (induction terms arbitrary: vec)
  case (Cons t terms)
  then show ?case
    by (cases "term_net_pair inst t"; cases "mapR (term_net_pair inst) terms")
      (simp_all add: get_term_net_pairs_def)
qed (simp add: get_term_net_pairs_def)

text \<open>With an instance of one bit, a net is its only slice.\<close>

lemma net_slice_single:
  assumes "terms_connected 1 inst terms" and "t \<in> set terms"
  shows "net_slice inst 0 t = net_bits inst t"
  using connected_term [OF assms] by (metis drop_0 mult_1 mult_zero_left net_slice_def take_all order_refl)

lemma append_nets_connected:
  assumes "terms_connected 1 inst terms"
  shows "append_nets b inst terms = Inr (b @ concat (map (net_slice inst 0) terms))"
  using assms
proof (induction terms arbitrary: b)
  case (Cons t terms)
  have inv: "sm_inv (inst_connections inst)" using Cons.prems by (simp add: terms_connected_def)
  obtain net nu na where f: "map_of (inst_connections inst) t = Some net" "parse_cdba_name net = Inr na"
    "bits_of_name Cdba na = Inr (net_bits inst t)"
    by (rule connected_term [OF Cons.prems, of t]) auto
  have "terms_connected 1 inst terms" using Cons.prems by (simp add: terms_connected_def)
  from Cons.IH [OF this, of "b @ net_bits inst t"] show ?case
    using f net_slice_single [OF Cons.prems, of t]
    by (simp add: append_nets_def find_net_eq [OF inv] ls_puts_def)
qed (simp add: append_nets_def)

definition cdl_inst_ready :: "string \<Rightarrow> 'x sch_instance \<Rightarrow> cellview_info \<Rightarrow> bool" where
  "cdl_inst_ready name inst info \<longleftrightarrow> inst_lib_name inst = ''analogLib'' \<or>
     (\<exists>nu. parse_cdba_name_unit name = Inr nu \<and>
        terms_connected (unat (unit_size nu)) inst (info_terms info))"

definition spice_inst_text ::
  "string \<Rightarrow> 'x sch_instance \<Rightarrow> string list \<Rightarrow> string list \<Rightarrow> string" where
  "spice_inst_text name inst terms tokens =
     (let nu = term_unit name; n = unat (unit_size nu) in
      concat (map (\<lambda>i. to_file_cdba
        (array_tokens (if n = 1 then name else unit_name_bit nu (of_nat i) True Cdba) inst terms tokens i)
        True) [0..<n]))"

definition cdl_inst_text :: "string \<Rightarrow> 'x sch_instance \<Rightarrow> cellview_info \<Rightarrow> string" where
  "cdl_inst_text name inst info =
     (if inst_lib_name inst = ''analogLib'' then []
      else spice_inst_text name inst (info_terms info) (cdl_cell_name_tokens inst info))"

lemma unat_unit_size_1: "unit_size nu = 1 \<longleftrightarrow> unat (unit_size nu) = 1"
  by (metis unat_1 word_unat_eq_iff)

lemma cdl_write_instance_text:
  assumes "cdl_inst_ready name inst info"
  shows "cdl_write_instance name inst info out = (None, out @ cdl_inst_text name inst info)"
proof (cases "inst_lib_name inst = ''analogLib''")
  case True
  then show ?thesis by (simp add: cdl_write_instance_def cdl_inst_text_def)
next
  case False
  then obtain nu where nu: "parse_cdba_name_unit name = Inr nu"
    and conn: "terms_connected (unat (unit_size nu)) inst (info_terms info)"
    using assms by (auto simp: cdl_inst_ready_def)
  have tu: "term_unit name = nu" using nu by (simp add: term_unit_def)
  show ?thesis
  proof (cases "unit_size nu = 1")
    case True
    then have "terms_connected 1 inst (ci_in_terms info)" "terms_connected 1 inst (ci_out_terms info)"
      "terms_connected 1 inst (ci_io_terms info)"
      using conn by (simp_all add: info_terms_def terms_connected_append)
    then show ?thesis using True False nu tu
      by (simp add: cdl_write_instance_def append_nets_connected cdl_inst_text_def spice_inst_text_def
          array_tokens_def info_terms_def ls_put_def ls_puts_def Let_def)
  next
    case n: False
    have "get_term_net_pairs [] inst (ci_in_terms info)
        = Inr (map (\<lambda>t. (term_width t, net_bits inst t)) (ci_in_terms info))"
      "get_term_net_pairs v inst (ci_out_terms info)
        = Inr (v @ map (\<lambda>t. (term_width t, net_bits inst t)) (ci_out_terms info))"
      "get_term_net_pairs v inst (ci_io_terms info)
        = Inr (v @ map (\<lambda>t. (term_width t, net_bits inst t)) (ci_io_terms info))" for v
      using conn
      by (simp_all add: get_term_net_pairs_mapR info_terms_def terms_connected_append
          term_net_pairs_connected [where n = "unat (unit_size nu)"])
    then show ?thesis using n False nu tu write_array_connected [OF conn refl]
      by (simp add: cdl_write_instance_def cdl_inst_text_def spice_inst_text_def info_terms_def Let_def
          unat_unit_size_1)
  qed
qed

text \<open>The header: all terminal bits on one line, and again with their directions on the next.\<close>

definition term_bit_names :: "string \<Rightarrow> string list" where
  "term_bit_names name =
     map (\<lambda>i. unit_name_bit (term_unit name) (of_nat i) False Cdba) [0..<unat (unit_size (term_unit name))]"

lemma fold_term_bits:
  "foldl (\<lambda>bs idx. let tmp = f idx in (ls_put (fst bs) tmp, ls_put (snd bs) (tmp @ ttype))) bs idxs
   = (fst bs @ map f idxs, snd bs @ map (\<lambda>i. f i @ ttype) idxs)"
  by (induction idxs arbitrary: bs) (simp_all add: Let_def ls_put_def)

lemma get_cv_term_bits_text:
  assumes "\<forall>n\<in>set names. \<exists>nu. parse_cdba_name_unit n = Inr nu"
  shows "get_cv_term_bits bs names ttype
    = Inr (fst bs @ concat (map term_bit_names names),
           snd bs @ map (\<lambda>b. b @ ttype) (concat (map term_bit_names names)))"
  using assms
proof (induction names arbitrary: bs)
  case (Cons n names)
  then obtain nu where "parse_cdba_name_unit n = Inr nu" by auto
  with Cons.IH Cons.prems show ?case
    by (simp add: get_cv_term_bits_def fold_term_bits term_bit_names_def term_unit_def o_def)
qed (simp add: get_cv_term_bits_def)

definition cdl_head_text :: "string \<Rightarrow> cellview_info \<Rightarrow> string" where
  "cdl_head_text name info =
     endl @ endl @
     to_file_cdba ([''.SUBCKT'', name] @ concat (map term_bit_names (info_terms info))) True @
     to_file_cdl_cmd ([''*.PININFO''] @
       map (\<lambda>b. b @ '':I'') (concat (map term_bit_names (ci_in_terms info))) @
       map (\<lambda>b. b @ '':O'') (concat (map term_bit_names (ci_out_terms info))) @
       map (\<lambda>b. b @ '':B'') (concat (map term_bit_names (ci_io_terms info)))) True"

definition terms_parse :: "cellview_info \<Rightarrow> bool" where
  "terms_parse info \<longleftrightarrow> (\<forall>t\<in>set (info_terms info). \<exists>nu. parse_cdba_name_unit t = Inr nu)"

lemma cdl_write_cv_header_text:
  assumes "terms_parse info"
  shows "cdl_write_cv_header name info shell subckt out = (None, out @ cdl_head_text name info)"
  using assms
  by (simp add: cdl_write_cv_header_def get_cv_term_bits_text terms_parse_def info_terms_def ball_Un
      cdl_head_text_def ls_put_def)

interpretation cdl: netlist_format "cdl_format canon rmin" cdl_inst_ready cdl_inst_text terms_parse
  "\<lambda>name info shell subckt. cdl_head_text name info" "\<lambda>name subckt. ''.ENDS'' @ endl"
  for canon rmin
  by unfold_locales
    (simp_all add: cdl_format_def cdl_write_instance_text cdl_write_cv_header_text cdl_write_cv_end_def)

section \<open>Instances that fit\<close>

text \<open>
  A name that parses as a unit parses as a repeated name too, with the same number of bits; so the
  invariant of the instances of a schematic is what the writers need.
\<close>

lemma p_mult_tag_alpha: "p_name_string s = P_ok b t \<Longrightarrow> p_mult_tag s = P_fail"
  using p_name_string_rest(2,3,5) [of s b t] alpha_not_special
  by (cases b) (auto simp: p_mult_tag_def p_seq_def p_char_def)

lemma parse_unit_rep:
  assumes "parse_cdba_name_unit s = Inr nu"
  shows "parse_cdba_name_rep s = Inr (Name_rep 1 (Unit nu))"
proof -
  have u: "s \<noteq> []" "p_name_unit s = P_ok nu []"
    using assms by (auto simp: parse_cdba_name_unit_def parse_with_ok)
  then obtain b t where "p_name_string s = P_ok b t" by (auto simp: p_name_unit_def parse_ok)
  then have "p_mult_tag s = P_fail" by (rule p_mult_tag_alpha)
  with u show ?thesis
    by (simp add: parse_cdba_name_rep_def parse_with_ok p_name_rep_def p_name_rep_with_def)
qed

lemma inst_wf_connected:
  assumes "inst_wf name inst" and "parse_cdba_name_unit name = Inr nu"
    and "\<forall>t\<in>set terms. map_of (inst_connections inst) t \<noteq> None"
  shows "terms_connected (unat (unit_size nu)) inst terms"
proof -
  have "rep_size (Name_rep 1 (Unit nu)) = unit_size nu" by simp
  with assms(1) parse_unit_rep [OF assms(2)] have inv: "sm_inv (inst_connections inst)"
    and fits: "\<forall>c\<in>set (inst_connections inst). conn_fits (unat (unit_size nu)) c"
    by (auto simp: inst_wf_def)
  have "\<exists>net. map_of (inst_connections inst) t = Some net \<and> conn_fits (unat (unit_size nu)) (t, net)"
    if t: "t \<in> set terms" for t
  proof -
    obtain net where net: "map_of (inst_connections inst) t = Some net" using assms(3) t by auto
    then have "(t, net) \<in> set (inst_connections inst)" by (rule map_of_SomeD)
    with fits net show ?thesis by blast
  qed
  with inv show ?thesis by (simp add: terms_connected_def)
qed

section \<open>Properties\<close>

text \<open>The master of an instance is known and each of its terminals is connected.\<close>

definition inst_complete :: "netlist_map_t \<Rightarrow> string \<times> 'x sch_instance \<Rightarrow> bool" where
  "inst_complete cell_map p \<longleftrightarrow> (\<exists>nu. parse_cdba_name_unit (fst p) = Inr nu) \<and>
     (\<exists>i. get_cv_info cell_map (inst_lib_name (snd p)) (inst_cell_name (snd p)) = Inr i \<and>
        (\<forall>t\<in>set (info_terms i). map_of (inst_connections (snd p)) t \<noteq> None))"

definition master_of :: "netlist_map_t \<Rightarrow> 'x sch_instance \<Rightarrow> cellview_info" where
  "master_of cell_map inst =
     (case get_cv_info cell_map (inst_lib_name inst) (inst_cell_name inst) of
        Inl e \<Rightarrow> make_cellview_info [] [] False | Inr i \<Rightarrow> i)"

lemma complete_connected:
  assumes "insts_wf insts" and "p \<in> set insts" and "inst_complete cell_map p"
  obtains nu i where "parse_cdba_name_unit (fst p) = Inr nu"
    and "get_cv_info cell_map (inst_lib_name (snd p)) (inst_cell_name (snd p)) = Inr i"
    and "terms_connected (unat (unit_size nu)) (snd p) (info_terms i)"
proof -
  obtain nu i where p: "parse_cdba_name_unit (fst p) = Inr nu"
    "get_cv_info cell_map (inst_lib_name (snd p)) (inst_cell_name (snd p)) = Inr i"
    "\<forall>t\<in>set (info_terms i). map_of (inst_connections (snd p)) t \<noteq> None"
    using assms(3) unfolding inst_complete_def by blast
  have "inst_wf (fst p) (snd p)" using assms(1,2) by (auto simp: insts_wf_def)
  from that [OF p(1,2) inst_wf_connected [OF this p(1,3)]] show thesis .
qed

text \<open>
  C4.  The CDL netlist of a schematic whose instances are well formed and complete is written without
  an error: the subcircuit header, then for every instance one line per bit of the instance, with the
  slice of every connected net that belongs to this bit, in the order of the master's terminals, and
  the end of the subcircuit.  In particular no net vector is indexed out of its bounds.
\<close>

theorem cdl_add_cellview_correct:
  fixes cv :: "('x, 'p, 's) cv_data"
  assumes terms: "terms_parse info" and wf: "insts_wf (cv_instances cv)"
    and complete: "\<forall>p\<in>set (cv_instances cv). inst_complete cell_map p"
  shows "add_cellview (cdl_format canon rmin) name cv info cell_map False write_subckt out
    = (None, out @ cdl_head_text name info @
        concat (map (\<lambda>p. if ci_cell_name (master_of cell_map (snd p)) = [] then []
          else cdl_inst_text (fst p) (snd p) (master_of cell_map (snd p))) (cv_instances cv)) @
        ''.ENDS'' @ endl)"
proof -
  have ready: "cdl.master_ready cell_map p" if mem: "p \<in> set (cv_instances cv)" for p
    by (rule complete_connected [OF wf mem bspec [OF complete mem]])
      (auto simp: cdl.master_ready_def cdl_inst_ready_def)
  have body: "cdl.master_text cell_map = (\<lambda>p. if ci_cell_name (master_of cell_map (snd p)) = [] then []
      else cdl_inst_text (fst p) (snd p) (master_of cell_map (snd p)))"
    by (auto simp: cdl.master_text_def master_of_def make_cellview_info_def split: sum.split)
  show ?thesis
    using cdl.add_cellview_text [OF terms, of False cv cell_map] ready by (simp add: body)
qed

definition example_map :: netlist_map_t where
  "example_map = [''lib'' \<mapsto> [''inv'' \<mapsto>
     (make_cellview_info ''lib'' ''inv'' False)\<lparr>ci_in_terms := [''in''], ci_io_terms := [''VDD'']\<rparr>]]"

lemma example_insts_unit:
  "parse_cdba_name_unit ''X<1:0>''
     = Inr \<lparr>nu_base = ''X'', nu_range = \<lparr>rg_start = 1, rg_stop = 0, rg_step = 1\<rparr>\<rparr>"
  by (simp add: parse_eval)

lemma example_complete: "\<forall>p\<in>set (cv_instances example_cv). inst_complete example_map p"
  by (simp add: example_cv_def example_insts_def inst_complete_def example_insts_unit get_cv_info_def
      example_map_def info_terms_def make_cellview_info_def)

lemma example_master:
  "master_of example_map example_inst =
     (make_cellview_info ''lib'' ''inv'' False)\<lparr>ci_in_terms := [''in''], ci_io_terms := [''VDD'']\<rparr>"
  by (simp add: master_of_def example_map_def get_cv_info_def example_insts_def)

lemma digits_0_1: "nat_to_string 0 = ''0''" "nat_to_string (Suc 0) = ''1''"
  by code_simp+

theorem cdl_add_cellview_correct_witness:
  "add_cellview (cdl_format id 2000) ''top'' example_cv (make_cellview_info ''lib'' ''top'' False)
     example_map False True []
   = (None, cdl_head_text ''top'' (make_cellview_info ''lib'' ''top'' False) @
        to_file_cdba [''X_1'', ''a<1>'', ''VDD'', ''/'', ''inv''] True @
        to_file_cdba [''X_0'', ''a<0>'', ''VDD'', ''/'', ''inv''] True @ ''.ENDS'' @ endl)"
proof -
  have terms: "terms_parse (make_cellview_info ''lib'' ''top'' False)"
    by (simp add: terms_parse_def info_terms_def make_cellview_info_def)
  have wf: "insts_wf (cv_instances example_cv)" using example_insts_wf by (simp add: example_cv_def)
  have insts: "cv_instances example_cv = [(''X<1:0>'', example_inst)]"
    by (simp add: example_cv_def example_insts_def)
  have "cdl_inst_text ''X<1:0>'' example_inst (master_of example_map example_inst)
      = to_file_cdba [''X_1'', ''a<1>'', ''VDD'', ''/'', ''inv''] True @
        to_file_cdba [''X_0'', ''a<0>'', ''VDD'', ''/'', ''inv''] True"
    unfolding example_master
    by (simp add: cdl_inst_text_def example_insts_def spice_inst_text_def term_unit_def example_insts_unit
        example_simps Let_def upt_conv_Cons array_tokens_def info_terms_def make_cellview_info_def
        net_slice_def net_bits_def term_bits_def cdl_cell_name_tokens_def merged_params_def
        unit_name_bit_def unit_is_vector_def range_empty_def range_at_def cnt_to_string_def digits_0_1)
  then show ?thesis
    using cdl_add_cellview_correct [OF terms wf example_complete, of id 2000 "''top''" True "[]"]
    by (simp add: insts example_master make_cellview_info_def)
qed

end
