(* ===== verification/Spectre.thy ===== *)
theory Spectre
  imports Cdl
begin

text \<open>
  The Spectre format: \<^verbatim>\<open>src/cbag/netlist/spectre.cpp\<close>.  It translates the cells and parameters of
  \<^verbatim>\<open>analogLib\<close>, skips instances of the cell \<^verbatim>\<open>gnd\<close>, and writes the net \<^verbatim>\<open>gnd!\<close> of a single instance as
  \<^verbatim>\<open>0\<close>.
\<close>

section \<open>The format\<close>

text \<open>The two maps that the constructor of the stream fills.\<close>

definition cdf2spectre_names :: "string \<rightharpoonup> string" where
  "cdf2spectre_names = map_of
     [(''cap'', ''capacitor''), (''idc'', ''isource''), (''ipulse'', ''isource''), (''isin'', ''isource''),
      (''res'', ''resistor''), (''vdc'', ''vsource''), (''vpulse'', ''vsource''), (''vsin'', ''vsource'')]"

definition cdf2spectre_props :: "string \<rightharpoonup> string" where
  "cdf2spectre_props = map_of
     [(''acm'', ''mag''), (''acp'', ''phase''), (''i1'', ''val0''), (''i2'', ''val1''), (''ia'', ''ampl''),
      (''idc'', ''dc''), (''per'', ''period''), (''pw'', ''width''), (''srcType'', ''type''),
      (''td'', ''delay''), (''v1'', ''val0''), (''v2'', ''val1''), (''va'', ''ampl''), (''vdc'', ''dc'')]"

definition spectre_write_header ::
  "(string \<Rightarrow> string) \<Rightarrow> string list \<Rightarrow> bool \<Rightarrow> string \<Rightarrow> string outcome" where
  "spectre_write_header canon inc_list shell out =
     (let incs = (if \<not> shell \<and> inc_list \<noteq> []
            then concat (map (\<lambda>fname. ''include '' @ [CHR 34] @ canon fname @ [CHR 34] @ endl) inc_list) @ endl
            else [])
      in emit (incs @ ''simulator lang=spectre'' @ endl) out)"

definition get_cv_pins :: "lstream \<Rightarrow> string list \<Rightarrow> lstream result" where
  "get_cv_pins b names =
     foldR (\<lambda>b name.
       bindR (parse_cdba_name_unit name) (\<lambda>ast.
         Inr (foldl (\<lambda>b idx. ls_put b (unit_name_bit ast (of_nat idx) False Cdba)) b
                [0..<unat (unit_size ast)]))) b names"

definition spectre_write_cv_header ::
  "string \<Rightarrow> cellview_info \<Rightarrow> bool \<Rightarrow> bool \<Rightarrow> string \<Rightarrow> string outcome" where
  "spectre_write_cv_header name info shell write_subckt out =
     seqS (emit (endl @ endl) out) (\<lambda>out.
       if write_subckt
       then tryS (bindR (get_cv_pins (ls_put (ls_put [] ''subckt'') name) (ci_in_terms info)) (\<lambda>b.
                  bindR (get_cv_pins b (ci_out_terms info)) (\<lambda>b. get_cv_pins b (ci_io_terms info))))
              (\<lambda>b. emit (to_file_cdba b True)) out
       else (None, out))"

definition spectre_write_cv_end :: "string \<Rightarrow> bool \<Rightarrow> string \<Rightarrow> string outcome" where
  "spectre_write_cv_end name write_subckt =
     (if write_subckt then emit (''ends '' @ name @ endl) else emit endl)"

definition append_nets1 :: "lstream \<Rightarrow> 'x sch_instance \<Rightarrow> string list \<Rightarrow> lstream result" where
  "append_nets1 b inst terms =
     foldR (\<lambda>b trm.
       bindR (find_net inst trm) (\<lambda>net.
         if net = ''gnd!'' then Inr (ls_put b ''0'')
         else bindR (parse_cdba_name net) (\<lambda>ast.
              bindR (bits_of_name Cdba ast) (\<lambda>bits. Inr (ls_puts b bits))))) b terms"

definition spectre_cell_name_tokens :: "'x sch_instance \<Rightarrow> cellview_info \<Rightarrow> string list" where
  "spectre_cell_name_tokens inst info =
     (let analog = inst_lib_name inst = ''analogLib'';
          rename = (\<lambda>m k. if analog then (case m k of None \<Rightarrow> k | Some k' \<Rightarrow> k') else k)
      in rename cdf2spectre_names (inst_cell_name inst) #
         concat (map (\<lambda>p. write_param (rename cdf2spectre_props (fst p)) (snd p)) (merged_params inst info)))"

definition get_term_net_pairs1 ::
  "(cnt_t \<times> string list) list \<Rightarrow> 'x sch_instance \<Rightarrow> string list \<Rightarrow> (cnt_t \<times> string list) list result" where
  "get_term_net_pairs1 vec inst terms =
     foldR (\<lambda>vec trm. bindR (term_net_pair inst trm) (\<lambda>p. Inr (vec @ [p]))) vec terms"

definition spectre_write_instance ::
  "string \<Rightarrow> 'x sch_instance \<Rightarrow> cellview_info \<Rightarrow> string \<Rightarrow> string outcome" where
  "spectre_write_instance name inst info out =
     (if inst_cell_name inst = ''gnd'' then (None, out)
      else tryS (parse_cdba_name_unit name) (\<lambda>inst_ast out.
        let n = unit_size inst_ast in
        if n = 1
        then tryS (bindR (append_nets1 (ls_put [] name) inst (ci_in_terms info)) (\<lambda>b.
                   bindR (append_nets1 b inst (ci_out_terms info)) (\<lambda>b.
                   append_nets1 b inst (ci_io_terms info))))
               (\<lambda>b. emit (to_file_cdba (ls_puts b (spectre_cell_name_tokens inst info)) True)) out
        else tryS (bindR (get_term_net_pairs1 [] inst (ci_in_terms info)) (\<lambda>v.
                   bindR (get_term_net_pairs1 v inst (ci_out_terms info)) (\<lambda>v.
                   get_term_net_pairs1 v inst (ci_io_terms info))))
               (\<lambda>term_net_vec. write_array inst_ast term_net_vec (spectre_cell_name_tokens inst info)) out) out)"

definition spectre_append_netlist :: "string \<Rightarrow> string \<Rightarrow> string outcome" where
  "spectre_append_netlist netlist = emit (endl @ endl @ netlist)"

definition spectre_format :: "(string \<Rightarrow> string) \<Rightarrow> 'x netlister" where
  "spectre_format canon =
     \<lparr>nl_write_header = spectre_write_header canon, nl_write_end = (\<lambda>out. (None, out)),
      nl_write_cv_header = spectre_write_cv_header, nl_write_cv_end = spectre_write_cv_end,
      nl_write_instance = spectre_write_instance, nl_append_netlist = spectre_append_netlist\<rparr>"

section \<open>What is written\<close>

text \<open>The tokens of a net of a single instance.\<close>

definition ground_net :: "'x sch_instance \<Rightarrow> string \<Rightarrow> string list" where
  "ground_net inst trm =
     (if map_of (inst_connections inst) trm = Some ''gnd!'' then [''0''] else net_bits inst trm)"

lemma append_nets1_connected:
  assumes "terms_connected 1 inst terms"
  shows "append_nets1 b inst terms = Inr (b @ concat (map (ground_net inst) terms))"
  using assms
proof (induction terms arbitrary: b)
  case (Cons t terms)
  have inv: "sm_inv (inst_connections inst)" using Cons.prems by (simp add: terms_connected_def)
  obtain net nu na where f: "map_of (inst_connections inst) t = Some net" "parse_cdba_name net = Inr na"
    "bits_of_name Cdba na = Inr (net_bits inst t)"
    by (rule connected_term [OF Cons.prems, of t]) auto
  have "terms_connected 1 inst terms" using Cons.prems by (simp add: terms_connected_def)
  from Cons.IH [OF this, of "b @ ground_net inst t"] show ?case
    using f by (cases "net = ''gnd!''")
      (simp_all add: append_nets1_def find_net_eq [OF inv] ls_puts_def ls_put_def ground_net_def)
qed (simp add: append_nets1_def)

definition spectre_inst_ready :: "string \<Rightarrow> 'x sch_instance \<Rightarrow> cellview_info \<Rightarrow> bool" where
  "spectre_inst_ready name inst info \<longleftrightarrow> inst_cell_name inst = ''gnd'' \<or>
     (\<exists>nu. parse_cdba_name_unit name = Inr nu \<and>
        terms_connected (unat (unit_size nu)) inst (info_terms info))"

definition spectre_inst_text :: "string \<Rightarrow> 'x sch_instance \<Rightarrow> cellview_info \<Rightarrow> string" where
  "spectre_inst_text name inst info =
     (if inst_cell_name inst = ''gnd'' then []
      else if unit_size (term_unit name) = 1
      then to_file_cdba (name # concat (map (ground_net inst) (info_terms info)) @
             spectre_cell_name_tokens inst info) True
      else spice_inst_text name inst (info_terms info) (spectre_cell_name_tokens inst info))"

lemma get_term_net_pairs1_eq: "get_term_net_pairs1 = get_term_net_pairs"
  by (intro ext) (simp add: get_term_net_pairs1_def get_term_net_pairs_def)

lemma spectre_write_instance_text:
  assumes "spectre_inst_ready name inst info"
  shows "spectre_write_instance name inst info out = (None, out @ spectre_inst_text name inst info)"
proof (cases "inst_cell_name inst = ''gnd''")
  case True
  then show ?thesis by (simp add: spectre_write_instance_def spectre_inst_text_def)
next
  case False
  then obtain nu where nu: "parse_cdba_name_unit name = Inr nu"
    and conn: "terms_connected (unat (unit_size nu)) inst (info_terms info)"
    using assms by (auto simp: spectre_inst_ready_def)
  have tu: "term_unit name = nu" using nu by (simp add: term_unit_def)
  show ?thesis
  proof (cases "unit_size nu = 1")
    case True
    then have "terms_connected 1 inst (ci_in_terms info)" "terms_connected 1 inst (ci_out_terms info)"
      "terms_connected 1 inst (ci_io_terms info)"
      using conn by (simp_all add: info_terms_def terms_connected_append)
    then show ?thesis using True False nu tu
      by (simp add: spectre_write_instance_def append_nets1_connected spectre_inst_text_def
          info_terms_def ls_put_def ls_puts_def Let_def)
  next
    case n: False
    have "get_term_net_pairs [] inst (ci_in_terms info)
        = Inr (map (\<lambda>t. (term_width t, net_bits inst t)) (ci_in_terms info))"
      "get_term_net_pairs v inst (ci_out_terms info)
        = Inr (v @ map (\<lambda>t. (term_width t, net_bits inst t)) (ci_out_terms info))"
      "get_term_net_pairs v inst (ci_io_terms info)
        = Inr (v @ map (\<lambda>t. (term_width t, net_bits inst t)) (ci_io_terms info))" for v
      using conn
      by (simp_all add: get_term_net_pairs_mapR info_terms_def terms_connected_append
          term_net_pairs_connected [where n = "unat (unit_size nu)"])
    then show ?thesis using n False nu tu write_array_connected [OF conn refl]
      by (simp add: spectre_write_instance_def spectre_inst_text_def spice_inst_text_def info_terms_def
          Let_def unat_unit_size_1 get_term_net_pairs1_eq)
  qed
qed

lemma get_cv_pins_text:
  assumes "\<forall>n\<in>set names. \<exists>nu. parse_cdba_name_unit n = Inr nu"
  shows "get_cv_pins b names = Inr (b @ concat (map term_bit_names names))"
  using assms
proof (induction names arbitrary: b)
  case (Cons n names)
  have pins: "foldl (\<lambda>b idx. ls_put b (f idx)) c idxs = c @ map f idxs" for f :: "nat \<Rightarrow> string" and c idxs
    by (induction idxs arbitrary: c) (simp_all add: ls_put_def)
  obtain nu where "parse_cdba_name_unit n = Inr nu" using Cons.prems by auto
  with Cons.IH Cons.prems show ?case
    by (simp add: get_cv_pins_def pins term_bit_names_def term_unit_def)
qed (simp add: get_cv_pins_def)

definition spectre_head_text :: "string \<Rightarrow> cellview_info \<Rightarrow> bool \<Rightarrow> string" where
  "spectre_head_text name info subckt =
     endl @ endl @ (if subckt
       then to_file_cdba ([''subckt'', name] @ concat (map term_bit_names (info_terms info))) True else [])"

definition spectre_end_text :: "string \<Rightarrow> bool \<Rightarrow> string" where
  "spectre_end_text name subckt = (if subckt then ''ends '' @ name @ endl else endl)"

lemma spectre_write_cv_header_text:
  assumes "terms_parse info"
  shows "spectre_write_cv_header name info shell subckt out
    = (None, out @ spectre_head_text name info subckt)"
  using assms
  by (simp add: spectre_write_cv_header_def get_cv_pins_text terms_parse_def info_terms_def ball_Un
      spectre_head_text_def ls_put_def)

interpretation spectre: netlist_format "spectre_format canon" spectre_inst_ready spectre_inst_text
  terms_parse "\<lambda>name info shell subckt. spectre_head_text name info subckt" spectre_end_text
  for canon
  by unfold_locales
    (simp_all add: spectre_format_def spectre_write_instance_text spectre_write_cv_header_text
      spectre_write_cv_end_def spectre_end_text_def)

section \<open>Properties\<close>

text \<open>
  C27.  The Spectre netlist of a schematic with well-formed and complete instances is written without
  an error.  On a line of a single instance the net \<^verbatim>\<open>gnd!\<close> appears as \<^verbatim>\<open>0\<close>; on the lines of an array
  the nets appear unchanged.
\<close>

theorem spectre_add_cellview_correct:
  fixes cv :: "('x, 'p, 's) cv_data"
  assumes terms: "terms_parse info" and wf: "insts_wf (cv_instances cv)"
    and complete: "\<forall>p\<in>set (cv_instances cv). inst_complete cell_map p"
  shows "add_cellview (spectre_format canon) name cv info cell_map False write_subckt out
    = (None, out @ spectre_head_text name info write_subckt @
        concat (map (\<lambda>p. if ci_cell_name (master_of cell_map (snd p)) = [] then []
          else spectre_inst_text (fst p) (snd p) (master_of cell_map (snd p))) (cv_instances cv)) @
        spectre_end_text name write_subckt)"
proof -
  have ready: "spectre.master_ready cell_map p" if mem: "p \<in> set (cv_instances cv)" for p
    by (rule complete_connected [OF wf mem bspec [OF complete mem]])
      (auto simp: spectre.master_ready_def spectre_inst_ready_def)
  have body: "spectre.master_text cell_map = (\<lambda>p. if ci_cell_name (master_of cell_map (snd p)) = [] then []
      else spectre_inst_text (fst p) (snd p) (master_of cell_map (snd p)))"
    by (auto simp: spectre.master_text_def master_of_def make_cellview_info_def split: sum.split)
  show ?thesis
    using spectre.add_cellview_text [OF terms, of False cv cell_map] ready by (simp add: body)
qed

theorem spectre_add_cellview_correct_witness:
  "\<exists>t. add_cellview (spectre_format id) ''top'' example_cv (make_cellview_info ''lib'' ''top'' False)
     example_map False False [] = (None, endl @ endl @ t @ endl) \<and> t \<noteq> []"
proof -
  have terms: "terms_parse (make_cellview_info ''lib'' ''top'' False)"
    by (simp add: terms_parse_def info_terms_def make_cellview_info_def)
  have wf: "insts_wf (cv_instances example_cv)" using example_insts_wf by (simp add: example_cv_def)
  have insts: "cv_instances example_cv = [(''X<1:0>'', example_inst)]"
    by (simp add: example_cv_def example_insts_def)
  have "spectre_inst_text ''X<1:0>'' example_inst (master_of example_map example_inst) \<noteq> []"
    unfolding example_master
    by (simp add: spectre_inst_text_def example_insts_def spice_inst_text_def term_unit_def example_insts_unit
        example_simps Let_def upt_conv_Cons array_tokens_def to_file_cdba_def to_file_helper_def endl_def)
  then show ?thesis
    using spectre_add_cellview_correct [OF terms wf example_complete, of id "''top''" False "[]"]
    by (simp add: insts example_master make_cellview_info_def spectre_head_text_def spectre_end_text_def)
qed

end
