(* ===== verification/Verilog.thy ===== *)
theory Verilog
  imports Cdl
begin

text \<open>
  The Verilog format: \<^verbatim>\<open>src/cbag/netlist/verilog.cpp\<close>.  A module has a port list and declarations of
  its inner nets; an instance of several bits is written as several instances, for which the nets are
  partitioned into names.
\<close>

section \<open>The format\<close>

definition verilog_write_header ::
  "(string \<Rightarrow> string) \<Rightarrow> string list \<Rightarrow> bool \<Rightarrow> string \<Rightarrow> string outcome" where
  "verilog_write_header canon inc_list shell out =
     (if \<not> shell
      then emit (concat (map (\<lambda>fname. ''`include '' @ [CHR 34] @ canon fname @ [CHR 34] @ endl) inc_list)) out
      else (None, out))"

text \<open>A file and the flag whether a port has been written.\<close>

type_synonym port_state = "string \<times> bool"

definition write_port :: "lstream \<Rightarrow> port_state \<Rightarrow> port_state outcome" where
  "write_port b st =
     (None, (fst st @ (if snd st then '','' @ endl else []) @ to_file_verilog b False, True))"

definition bus_range :: "ast_range \<Rightarrow> string" where
  "bus_range r = ''['' @ cnt_to_string (rg_start r) @ '':'' @ cnt_to_string (range_stop_include r) @ '']''"

definition cv_port_line :: "string \<Rightarrow> attr_table \<Rightarrow> string \<Rightarrow> string \<Rightarrow> lstream result" where
  "cv_port_line prefix attrs def_type trm =
     bindR (parse_cdba_name_unit trm) (\<lambda>ast.
       let type_str = get_net_type attrs (nu_base ast) def_type;
           b = ls_put (ls_put [] prefix) type_str in
       if unit_is_vector ast
       then (if rg_step (nu_range ast) \<noteq> 1 then Inl Invalid_argument
             else Inr (ls_put (ls_put b (bus_range (nu_range ast))) (nu_base ast)))
       else Inr (ls_put b (nu_base ast)))"

definition write_cv_ports ::
  "string list \<Rightarrow> string \<Rightarrow> attr_table \<Rightarrow> string \<Rightarrow> port_state \<Rightarrow> port_state outcome" where
  "write_cv_ports terms prefix attrs def_type =
     forS (\<lambda>trm. tryS (cv_port_line prefix attrs def_type trm) write_port) terms"

definition write_net :: "attr_table \<Rightarrow> string \<Rightarrow> string \<Rightarrow> string \<Rightarrow> string outcome" where
  "write_net attrs def_type net_name =
     tryS (parse_cdba_name_unit net_name) (\<lambda>ast.
       emit (get_net_type attrs (nu_base ast) def_type @
         (if unit_is_vector ast then '' '' @ bus_range (nu_range ast) else []) @
         '' '' @ nu_base ast @ '';'' @ endl))"

definition on_ports :: "(port_state \<Rightarrow> port_state outcome) \<Rightarrow> (port_state \<Rightarrow> string outcome)
    \<Rightarrow> port_state \<Rightarrow> string outcome" where
  "on_ports f g st = (case f st of (Some e, st') \<Rightarrow> (Some e, fst st') | (None, st') \<Rightarrow> g st')"

definition verilog_write_cv_header ::
  "string \<Rightarrow> cellview_info \<Rightarrow> bool \<Rightarrow> bool \<Rightarrow> string \<Rightarrow> string outcome" where
  "verilog_write_cv_header name info shell write_subckt out =
     (let def_type = ''wire''; attrs = ci_term_net_attrs info in
      seqS (emit (endl @ endl) out) (\<lambda>out.
      tryS (ls_append_last (ls_put (ls_put [] ''module'') name) ''('') (\<lambda>b out.
      seqS (emit (to_file_verilog b True) out) (\<lambda>out.
      on_ports (\<lambda>st.
        seqS (write_cv_ports (ci_in_terms info) ''    input '' attrs def_type st)
        (\<lambda>st. seqS (write_cv_ports (ci_out_terms info) ''    output'' attrs def_type st)
        (write_cv_ports (ci_io_terms info) ''    inout '' attrs def_type)))
        (\<lambda>st. seqS (emit ((if snd st then endl else []) @ '');'' @ endl) (fst st)) (\<lambda>out.
          if ci_nets info \<noteq> [] \<and> \<not> shell
          then seqS (emit endl out) (forS (write_net attrs def_type) (ci_nets info))
          else (None, out)))
        (out, False))) out))"

definition verilog_write_cv_end :: "string \<Rightarrow> bool \<Rightarrow> string \<Rightarrow> string outcome" where
  "verilog_write_cv_end name write_subckt = emit (endl @ ''endmodule'' @ endl)"

text \<open>The text of a net; printing a bus with steps runs a loop over its indices.\<close>

definition verilog_of_name :: "ast_name \<Rightarrow> string result" where
  "verilog_of_name na =
     (case name_to_string_verilog na of None \<Rightarrow> Inl Undefined_behaviour | Some s \<Rightarrow> Inr s)"

definition inst_port_line :: "'x sch_instance \<Rightarrow> string \<Rightarrow> lstream result" where
  "inst_port_line inst trm =
     bindR (find_net inst trm) (\<lambda>net.
     bindR (parse_cdba_name_unit trm) (\<lambda>term_ast.
     bindR (ls_append_last (ls_put [] ''    .'') (nu_base term_ast)) (\<lambda>b.
     bindR (ls_append_last b ''('') (\<lambda>b.
     bindR (parse_cdba_name net) (\<lambda>net_ast.
     bindR (verilog_of_name net_ast) (\<lambda>s. Inr (ls_put (ls_put b s) '')'')))))))"

definition append_inst_nets ::
  "'x sch_instance \<Rightarrow> string list \<Rightarrow> port_state \<Rightarrow> port_state outcome" where
  "append_inst_nets inst terms = forS (\<lambda>trm. tryS (inst_port_line inst trm) write_port) terms"

type_synonym term_parts = "string \<times> ast_name list"

definition term_net_parts :: "'x sch_instance \<Rightarrow> string \<Rightarrow> term_parts result" where
  "term_net_parts inst trm =
     bindR (find_net inst trm) (\<lambda>net.
     bindR (parse_cdba_name_unit trm) (\<lambda>ast_term.
     bindR (parse_cdba_name net) (\<lambda>ast_net.
       (case get_partition ast_net (unit_size ast_term) of
          None \<Rightarrow> Inl Undefined_behaviour
        | Some net_vec \<Rightarrow> Inr (nu_base ast_term, net_vec)))))"

definition split_array_inst_nets ::
  "term_parts list \<Rightarrow> 'x sch_instance \<Rightarrow> string list \<Rightarrow> term_parts list result" where
  "split_array_inst_nets vec inst terms =
     foldR (\<lambda>vec trm. bindR (term_net_parts inst trm) (\<lambda>p. Inr (vec @ [p]))) vec terms"

definition part_line :: "nat \<Rightarrow> bool \<times> term_parts \<Rightarrow> lstream result" where
  "part_line inst_idx p =
     (case p of (is_last, base, nets) \<Rightarrow>
       bindR (ls_append_last (ls_put [] ''    .'') base) (\<lambda>cur.
       bindR (ls_append_last cur ''('') (\<lambda>cur.
         if inst_idx < length nets
         then bindR (verilog_of_name (nets ! inst_idx)) (\<lambda>s.
                Inr (ls_put (ls_put cur s) (if is_last then '')'' else ''),'')))
         else Inl Undefined_behaviour)))"

definition write_split_instance ::
  "'x sch_instance \<Rightarrow> name_unit \<Rightarrow> term_parts list \<Rightarrow> nat \<Rightarrow> string \<Rightarrow> string outcome" where
  "write_split_instance inst inst_ast vec inst_idx out =
     seqS (emit (endl @ to_file_verilog
             [inst_cell_name inst, unit_name_bit inst_ast (of_nat inst_idx) True Verilog, ''(''] True) out)
       (\<lambda>out. seqS (forS (\<lambda>p. tryS (part_line inst_idx p) (\<lambda>b. emit (to_file_verilog b True)))
                      (mark_last vec) out)
          (emit ('');'' @ endl)))"

text \<open>The iterator before the end of the vector of nets is undefined when there are none.\<close>

definition verilog_write_instance ::
  "string \<Rightarrow> 'x sch_instance \<Rightarrow> cellview_info \<Rightarrow> string \<Rightarrow> string outcome" where
  "verilog_write_instance name inst info out =
     tryS (parse_cdba_name_unit name) (\<lambda>inst_ast out.
       let n = unit_size inst_ast in
       if n = 1
       then seqS (emit (endl @ to_file_verilog [inst_cell_name inst, name, ''(''] True) out) (\<lambda>out.
            on_ports (\<lambda>st. seqS (append_inst_nets inst (ci_in_terms info) st)
                (\<lambda>st. seqS (append_inst_nets inst (ci_out_terms info) st)
                (append_inst_nets inst (ci_io_terms info))))
              (\<lambda>st. emit ((if snd st then endl else []) @ '');'' @ endl) (fst st)) (out, False))
       else tryS (bindR (split_array_inst_nets [] inst (ci_in_terms info)) (\<lambda>v.
                  bindR (split_array_inst_nets v inst (ci_out_terms info)) (\<lambda>v.
                  bindR (split_array_inst_nets v inst (ci_io_terms info)) (\<lambda>v.
                    if v = [] then Inl Undefined_behaviour else Inr v))))
              (\<lambda>vec. forS (write_split_instance inst inst_ast vec) [0..<unat n]) out) out"

definition verilog_append_netlist :: "string \<Rightarrow> string \<Rightarrow> string outcome" where
  "verilog_append_netlist netlist = emit (endl @ endl @ netlist)"

definition verilog_format :: "(string \<Rightarrow> string) \<Rightarrow> 'x netlister" where
  "verilog_format canon =
     \<lparr>nl_write_header = verilog_write_header canon, nl_write_end = (\<lambda>out. (None, out)),
      nl_write_cv_header = verilog_write_cv_header, nl_write_cv_end = verilog_write_cv_end,
      nl_write_instance = verilog_write_instance, nl_append_netlist = verilog_append_netlist\<rparr>"

section \<open>Printing names\<close>

text \<open>Printing a name in Verilog syntax ends, the loop over the indices of a bus included.\<close>

lemma range_loop_tail:
  assumes "range_ok r" and "rg_step r \<noteq> 0" and "range_size r \<noteq> 1"
  shows "\<exists>idxs. range_loop (range_next (range_begin r)) (range_end r) = Some idxs"
proof -
  have all: "range_values r = Some (map (\<lambda>i. range_at r (of_nat i)) [0..<unat (range_size r)])"
    by (rule range_values_eq [OF assms(1)])
  have "range_size r \<noteq> 0" using range_size_pos [OF assms(1,2)] .
  then have "[0..<unat (range_size r)] \<noteq> []" by (simp add: unat_gt_0)
  with all have "range_values r \<noteq> Some []" by auto
  with all show ?thesis
    unfolding range_values_def by (subst (asm) (1 2) range_loop.simps) (auto split: if_splits bind_splits)
qed

lemma verilog_prints:
  "units_ok (rep_units r) \<Longrightarrow> rep_to_string_verilog r \<noteq> None"
  "units_ok (data_units d) \<Longrightarrow> data_to_string_verilog d \<noteq> None"
  "units_ok (name_units na) \<Longrightarrow> name_to_string_verilog na \<noteq> None"
proof (induction r and d and na rule: rep_size_data_size_name_size.induct)
  case (1 m d)
  then show ?case by (cases d) auto
next
  case (2 nu)
  then have ok: "range_ok (nu_range nu)" by simp
  show ?case
  proof (cases "unit_is_vector nu \<and> range_size (nu_range nu) \<noteq> 1")
    case True
    then obtain idxs where "range_loop (range_next (range_begin (nu_range nu))) (range_end (nu_range nu)) = Some idxs"
      using range_loop_tail [OF ok] by (auto simp: unit_is_vector_def range_empty_def)
    then show ?thesis by (simp add: unit_to_string_verilog_def Let_def)
  qed (auto simp: unit_to_string_verilog_def Let_def)
next
  case (4 reps)
  then have "all_some (map rep_to_string_verilog reps) = Some (map (the \<circ> rep_to_string_verilog) reps)"
    by (intro all_some_map) auto
  then show ?case by simp
qed simp

definition verilog_text :: "ast_name \<Rightarrow> string" where
  "verilog_text na = (case name_to_string_verilog na of None \<Rightarrow> [] | Some s \<Rightarrow> s)"

lemma verilog_of_name_ok: "name_ok na \<Longrightarrow> verilog_of_name na = Inr (verilog_text na)"
  using verilog_prints(3) [of na] by (auto simp: verilog_of_name_def verilog_text_def name_ok_def)

section \<open>Ports\<close>

fun ports_text :: "bool \<Rightarrow> string list list \<Rightarrow> string" where
  "ports_text has [] = []"
| "ports_text has (b # bs) = (if has then '','' @ endl else []) @ to_file_verilog b False @ ports_text True bs"

lemma ports_text_append:
  "ports_text has (bs @ cs) = ports_text has bs @ ports_text (has \<or> bs \<noteq> []) cs"
  by (induction bs arbitrary: has) auto

lemma write_ports:
  assumes "\<forall>x\<in>set xs. f x = Inr (g x)"
  shows "forS (\<lambda>x. tryS (f x) write_port) xs (out, has)
    = (None, (out @ ports_text has (map g xs), has \<or> xs \<noteq> []))"
  using assms by (induction xs arbitrary: out has) (auto simp: write_port_def)

definition port_tokens :: "string \<Rightarrow> attr_table \<Rightarrow> string \<Rightarrow> string list" where
  "port_tokens prefix attrs trm =
     [prefix, get_net_type attrs (nu_base (term_unit trm)) ''wire''] @
     (if unit_is_vector (term_unit trm) then [bus_range (nu_range (term_unit trm))] else []) @
     [nu_base (term_unit trm)]"

text \<open>A terminal that can be a port: its name parses, and a bus has step one.\<close>

definition port_ok :: "string \<Rightarrow> bool" where
  "port_ok trm \<longleftrightarrow> (\<exists>nu. parse_cdba_name_unit trm = Inr nu \<and>
     (unit_is_vector nu \<longrightarrow> rg_step (nu_range nu) = 1))"

lemma cv_port_line_ok:
  "port_ok trm \<Longrightarrow> cv_port_line prefix attrs ''wire'' trm = Inr (port_tokens prefix attrs trm)"
  by (auto simp: port_ok_def cv_port_line_def Let_def ls_put_def port_tokens_def term_unit_def)

definition header_ports :: "cellview_info \<Rightarrow> string list list" where
  "header_ports info =
     map (port_tokens ''    input '' (ci_term_net_attrs info)) (ci_in_terms info) @
     map (port_tokens ''    output'' (ci_term_net_attrs info)) (ci_out_terms info) @
     map (port_tokens ''    inout '' (ci_term_net_attrs info)) (ci_io_terms info)"

definition net_decl :: "attr_table \<Rightarrow> string \<Rightarrow> string" where
  "net_decl attrs net_name =
     (let nu = term_unit net_name in
      get_net_type attrs (nu_base nu) ''wire'' @
      (if unit_is_vector nu then '' '' @ bus_range (nu_range nu) else []) @ '' '' @ nu_base nu @ '';'' @ endl)"

definition close_ports :: "string list list \<Rightarrow> string" where
  "close_ports bs = ports_text False bs @ (if bs \<noteq> [] then endl else []) @ '');'' @ endl"

definition verilog_head_text :: "string \<Rightarrow> cellview_info \<Rightarrow> bool \<Rightarrow> bool \<Rightarrow> string" where
  "verilog_head_text name info shell subckt =
     endl @ endl @ to_file_verilog [''module'', name @ ''(''] True @ close_ports (header_ports info) @
     (if ci_nets info \<noteq> [] \<and> \<not> shell
      then endl @ concat (map (net_decl (ci_term_net_attrs info)) (ci_nets info)) else [])"

definition verilog_head_ready :: "cellview_info \<Rightarrow> bool" where
  "verilog_head_ready info \<longleftrightarrow> (\<forall>t\<in>set (info_terms info). port_ok t) \<and>
     (\<forall>n\<in>set (ci_nets info). \<exists>nu. parse_cdba_name_unit n = Inr nu)"

lemma write_cv_ports_ok:
  assumes "\<forall>t\<in>set terms. port_ok t"
  shows "write_cv_ports terms prefix attrs ''wire'' (out, has)
    = (None, (out @ ports_text has (map (port_tokens prefix attrs) terms), has \<or> terms \<noteq> []))"
  unfolding write_cv_ports_def using assms cv_port_line_ok by (intro write_ports) auto

lemma write_nets_ok:
  assumes "\<forall>n\<in>set nets. \<exists>nu. parse_cdba_name_unit n = Inr nu"
  shows "forS (write_net attrs ''wire'') nets out = (None, out @ concat (map (net_decl attrs) nets))"
  using assms
  by (intro forS_emits) (auto simp: write_net_def net_decl_def term_unit_def Let_def dest!: bspec)

lemma verilog_write_cv_header_text:
  assumes "verilog_head_ready info"
  shows "verilog_write_cv_header name info shell subckt out
    = (None, out @ verilog_head_text name info shell subckt)"
proof -
  have ports: "\<forall>t\<in>set (ci_in_terms info). port_ok t" "\<forall>t\<in>set (ci_out_terms info). port_ok t"
    "\<forall>t\<in>set (ci_io_terms info). port_ok t"
    and nets: "\<forall>n\<in>set (ci_nets info). \<exists>nu. parse_cdba_name_unit n = Inr nu"
    using assms by (auto simp: verilog_head_ready_def info_terms_def)
  show ?thesis
    by (simp add: verilog_write_cv_header_def ls_append_last_def ls_put_def on_ports_def Let_def
        write_cv_ports_ok [OF ports(1)] write_cv_ports_ok [OF ports(2)] write_cv_ports_ok [OF ports(3)]
        write_nets_ok [OF nets] verilog_head_text_def close_ports_def header_ports_def ports_text_append
        cong: if_cong)
qed

section \<open>Single instances\<close>

definition net_ast :: "'x sch_instance \<Rightarrow> string \<Rightarrow> ast_name" where
  "net_ast inst trm =
     (case map_of (inst_connections inst) trm of None \<Rightarrow> Name []
      | Some net \<Rightarrow> (case parse_cdba_name net of Inl e \<Rightarrow> Name [] | Inr na \<Rightarrow> na))"

definition inst_port_tokens :: "'x sch_instance \<Rightarrow> string \<Rightarrow> string list" where
  "inst_port_tokens inst trm =
     [''    .'' @ nu_base (term_unit trm) @ ''('', verilog_text (net_ast inst trm), '')'']"

lemma inst_port_line_ok:
  assumes "terms_connected n inst terms" and "t \<in> set terms"
  shows "inst_port_line inst t = Inr (inst_port_tokens inst t)"
proof -
  have inv: "sm_inv (inst_connections inst)" using assms by (simp add: terms_connected_def)
  obtain net nu na where f: "map_of (inst_connections inst) t = Some net"
    "parse_cdba_name_unit t = Inr nu" "parse_cdba_name net = Inr na"
    by (rule connected_term [OF assms])
  have "name_ok na"
    using printable_ok(3) [OF parse_cdba_name_printable [OF f(3)]] by (simp add: name_ok_def)
  then show ?thesis using f
    by (simp add: inst_port_line_def find_net_eq [OF inv] ls_append_last_def ls_put_def
        verilog_of_name_ok inst_port_tokens_def net_ast_def term_unit_def)
qed

lemma append_inst_nets_ok:
  assumes "terms_connected n inst terms"
  shows "append_inst_nets inst terms (out, has)
    = (None, (out @ ports_text has (map (inst_port_tokens inst) terms), has \<or> terms \<noteq> []))"
  unfolding append_inst_nets_def using inst_port_line_ok [OF assms] by (intro write_ports) auto

section \<open>Arrays\<close>

lemma concat_chunks:
  "(\<forall>x\<in>set xs. length (f x) = k) \<Longrightarrow> i < length xs \<Longrightarrow>
   f (xs ! i) = take k (drop (i * k) (concat (map f xs)))"
proof (induction xs arbitrary: i)
  case (Cons x xs)
  then show ?case by (cases i) simp_all
qed simp

lemma length_chunks: "(\<forall>x\<in>set xs. length (f x) = k) \<Longrightarrow> length (concat (map f xs)) = length xs * k"
  by (induction xs) auto

definition net_parts :: "'x sch_instance \<Rightarrow> string \<Rightarrow> ast_name list" where
  "net_parts inst trm =
     (case get_partition (net_ast inst trm) (term_width trm) of None \<Rightarrow> [] | Some outs \<Rightarrow> outs)"

lemma net_parts_spec:
  assumes "terms_connected n inst terms" and "t \<in> set terms" and "0 < n"
  shows "term_net_parts inst t = Inr (nu_base (term_unit t), net_parts inst t)"
    and "length (net_parts inst t) = n"
    and "i < n \<Longrightarrow> name_ok (net_parts inst t ! i)"
    and "i < n \<Longrightarrow> name_expand Cdba (net_parts inst t ! i) = net_slice inst i t"
proof -
  have inv: "sm_inv (inst_connections inst)" using assms by (simp add: terms_connected_def)
  obtain net nu na where f: "map_of (inst_connections inst) t = Some net"
    "parse_cdba_name_unit t = Inr nu" "parse_cdba_name net = Inr na"
    "net_bits inst t = name_expand Cdba na" "term_width t = unit_size nu"
    "term_bits t = unat (unit_size nu)" "length (net_bits inst t) = n * term_bits t"
    "n * term_bits t < 2 ^ 32"
    by (rule connected_term [OF assms(1,2)])
  have k: "0 < term_bits t" using f(6) unit_size_pos [of nu] by simp
  have "term_bits t \<le> n * term_bits t" using assms(3) by (cases n) auto
  then have k32: "term_bits t < 2 ^ 32" using f(8) by (rule le_less_trans)
  obtain outs where outs: "get_partition na (unit_size nu) = Some outs"
    "concat (map (name_expand Cdba) outs) = name_expand Cdba na"
    "unat (unit_size nu) dvd length (name_expand Cdba na) \<longrightarrow>
       (\<forall>out\<in>set outs. length (name_expand Cdba out) = unat (unit_size nu))"
    "\<forall>out\<in>set outs. name_ok out"
    using get_partition_spec [OF parse_cdba_name_printable [OF f(3)], of Cdba "unit_size nu"]
      f(4,6,7,8) k k32 by (auto simp: word_gt_0 unat_gt_0)
  have full: "\<forall>out\<in>set outs. length (name_expand Cdba out) = term_bits t"
    using outs(3) f(4,6,7) by simp
  have len: "length outs = n"
    using length_chunks [OF full] outs(2) f(4,7) k by simp
  have parts: "net_parts inst t = outs"
    using outs(1) f(1,3,5) by (simp add: net_parts_def net_ast_def)
  show "term_net_parts inst t = Inr (nu_base (term_unit t), net_parts inst t)"
    using f(1-3) outs(1) parts by (simp add: term_net_parts_def find_net_eq [OF inv] term_unit_def)
  show "length (net_parts inst t) = n" using len parts by simp
  show "name_ok (net_parts inst t ! i)" if "i < n" using that len parts outs(4) by simp
  show "name_expand Cdba (net_parts inst t ! i) = net_slice inst i t" if "i < n"
    using concat_chunks [OF full, of i] that len parts outs(2) f(4) by (simp add: net_slice_def)
qed

definition part_tokens :: "'x sch_instance \<Rightarrow> nat \<Rightarrow> bool \<times> string \<Rightarrow> string list" where
  "part_tokens inst i p =
     [''    .'' @ nu_base (term_unit (snd p)) @ ''('', verilog_text (net_parts inst (snd p) ! i),
      if fst p then '')'' else ''),'']"

definition split_inst_text :: "'x sch_instance \<Rightarrow> name_unit \<Rightarrow> string list \<Rightarrow> nat \<Rightarrow> string" where
  "split_inst_text inst nu terms i =
     endl @ to_file_verilog [inst_cell_name inst, unit_name_bit nu (of_nat i) True Verilog, ''(''] True @
     concat (map (\<lambda>p. to_file_verilog (part_tokens inst i p) True) (mark_last terms)) @ '');'' @ endl"

lemma mark_last_map: "mark_last (map g xs) = map (\<lambda>p. (fst p, g (snd p))) (mark_last xs)"
  by (simp add: mark_last_def)

lemma mark_last_mem: "p \<in> set (mark_last xs) \<Longrightarrow> snd p \<in> set xs"
  by (auto simp: mark_last_def)

lemma write_split_instance_ok:
  assumes "terms_connected n inst terms" and "i < n"
  shows "write_split_instance inst nu (map (\<lambda>t. (nu_base (term_unit t), net_parts inst t)) terms) i out
    = (None, out @ split_inst_text inst nu terms i)"
proof -
  have n: "0 < n" using assms(2) by simp
  have "part_line i (fst p, nu_base (term_unit (snd p)), net_parts inst (snd p))
      = Inr (part_tokens inst i p)" if "p \<in> set (mark_last terms)" for p
    using net_parts_spec(2,3) [OF assms(1) mark_last_mem [OF that] n] assms(2)
    by (simp add: part_line_def ls_append_last_def ls_put_def verilog_of_name_ok part_tokens_def)
  then have "forS (\<lambda>p. tryS (part_line i p) (\<lambda>b. emit (to_file_verilog b True)))
      (mark_last (map (\<lambda>t. (nu_base (term_unit t), net_parts inst t)) terms)) out'
      = (None, out' @ concat (map (\<lambda>p. to_file_verilog (part_tokens inst i p) True) (mark_last terms)))"
    for out'
    using forS_emits [of "mark_last (map (\<lambda>t. (nu_base (term_unit t), net_parts inst t)) terms)"
        "\<lambda>p. tryS (part_line i p) (\<lambda>b. emit (to_file_verilog b True))"
        "\<lambda>p. to_file_verilog (case part_line i p of Inl e \<Rightarrow> [] | Inr b \<Rightarrow> b) True" out']
    by (fastforce simp: mark_last_map o_def cong: map_cong)
  then show ?thesis by (simp add: write_split_instance_def split_inst_text_def)
qed

lemma split_array_inst_nets_ok:
  assumes "terms_connected n inst terms" and "0 < n"
  shows "split_array_inst_nets vec inst terms
    = Inr (vec @ map (\<lambda>t. (nu_base (term_unit t), net_parts inst t)) terms)"
  using assms
proof (induction terms arbitrary: vec)
  case (Cons t terms)
  have "terms_connected n inst terms" using Cons.prems(1) by (simp add: terms_connected_def)
  from Cons.IH [OF this Cons.prems(2)] net_parts_spec(1) [OF Cons.prems(1) _ Cons.prems(2), of t]
  show ?case by (simp add: split_array_inst_nets_def)
qed (simp add: split_array_inst_nets_def)

section \<open>Instances\<close>

definition verilog_inst_ready :: "string \<Rightarrow> 'x sch_instance \<Rightarrow> cellview_info \<Rightarrow> bool" where
  "verilog_inst_ready name inst info \<longleftrightarrow>
     (\<exists>nu. parse_cdba_name_unit name = Inr nu \<and>
        terms_connected (unat (unit_size nu)) inst (info_terms info) \<and>
        (unit_size nu \<noteq> 1 \<longrightarrow> info_terms info \<noteq> []))"

definition verilog_inst_text :: "string \<Rightarrow> 'x sch_instance \<Rightarrow> cellview_info \<Rightarrow> string" where
  "verilog_inst_text name inst info =
     (let nu = term_unit name in
      if unit_size nu = 1
      then endl @ to_file_verilog [inst_cell_name inst, name, ''(''] True @
           close_ports (map (inst_port_tokens inst) (info_terms info))
      else concat (map (split_inst_text inst nu (info_terms info)) [0..<unat (unit_size nu)]))"

lemma verilog_write_instance_text:
  assumes "verilog_inst_ready name inst info"
  shows "verilog_write_instance name inst info out = (None, out @ verilog_inst_text name inst info)"
proof -
  obtain nu where nu: "parse_cdba_name_unit name = Inr nu"
    and conn: "terms_connected (unat (unit_size nu)) inst (info_terms info)"
    and some: "unit_size nu \<noteq> 1 \<Longrightarrow> info_terms info \<noteq> []"
    using assms by (auto simp: verilog_inst_ready_def)
  have tu: "term_unit name = nu" using nu by (simp add: term_unit_def)
  have conns: "terms_connected (unat (unit_size nu)) inst (ci_in_terms info)"
    "terms_connected (unat (unit_size nu)) inst (ci_out_terms info)"
    "terms_connected (unat (unit_size nu)) inst (ci_io_terms info)"
    using conn by (simp_all add: info_terms_def terms_connected_append)
  show ?thesis
  proof (cases "unit_size nu = 1")
    case True
    then show ?thesis using nu tu
      by (simp add: verilog_write_instance_def on_ports_def append_inst_nets_ok [OF conns(1)]
          append_inst_nets_ok [OF conns(2)] append_inst_nets_ok [OF conns(3)] verilog_inst_text_def
          close_ports_def info_terms_def ports_text_append cong: if_cong)
  next
    case n: False
    let ?vec = "map (\<lambda>t. (nu_base (term_unit t), net_parts inst t)) (info_terms info)"
    have loop: "forS (write_split_instance inst nu ?vec) [0..<unat (unit_size nu)] out
        = (None, out @ concat (map (split_inst_text inst nu (info_terms info)) [0..<unat (unit_size nu)]))"
      using write_split_instance_ok [OF conn] by (intro forS_emits) auto
    have vec: "bindR (split_array_inst_nets [] inst (ci_in_terms info)) (\<lambda>v.
          bindR (split_array_inst_nets v inst (ci_out_terms info)) (\<lambda>v.
          bindR (split_array_inst_nets v inst (ci_io_terms info)) (\<lambda>v.
            if v = [] then Inl Undefined_behaviour else Inr v))) = Inr ?vec"
      using conns some [OF n] unit_size_pos [of nu]
      by (simp add: split_array_inst_nets_ok [where n = "unat (unit_size nu)"] info_terms_def)
    show ?thesis
      using n nu tu loop by (simp add: verilog_write_instance_def vec verilog_inst_text_def Let_def)
  qed
qed

interpretation verilog: netlist_format "verilog_format canon" verilog_inst_ready verilog_inst_text
  verilog_head_ready verilog_head_text "\<lambda>name subckt. endl @ ''endmodule'' @ endl"
  for canon
  by unfold_locales
    (simp_all add: verilog_format_def verilog_write_instance_text verilog_write_cv_header_text
      verilog_write_cv_end_def)

section \<open>Properties\<close>

text \<open>An array with a master that has terminals; of a master without any, the vector of nets is empty.\<close>

definition arrays_have_terms :: "netlist_map_t \<Rightarrow> string \<times> 'x sch_instance \<Rightarrow> bool" where
  "arrays_have_terms cell_map p \<longleftrightarrow>
     (unit_size (term_unit (fst p)) \<noteq> 1 \<longrightarrow> info_terms (master_of cell_map (snd p)) \<noteq> [])"

text \<open>
  C7.  The Verilog netlist of a schematic with well-formed and complete instances is written without
  an error.  An instance of \<open>n\<close> bits becomes \<open>n\<close> instances, and the name that the \<open>i\<close>-th of them gives
  to a terminal, found by the partition of the net, has exactly the bits that belong to bit \<open>i\<close>: the
  same slice that the CDL and Spectre writers append bit by bit.
\<close>

theorem verilog_add_cellview_correct:
  fixes cv :: "('x, 'p, 's) cv_data"
  assumes head: "verilog_head_ready info" and wf: "insts_wf (cv_instances cv)"
    and complete: "\<forall>p\<in>set (cv_instances cv). inst_complete cell_map p"
    and arrays: "\<forall>p\<in>set (cv_instances cv). arrays_have_terms cell_map p"
  shows "add_cellview (verilog_format canon) name cv info cell_map False write_subckt out
    = (None, out @ verilog_head_text name info False write_subckt @
        concat (map (\<lambda>p. if ci_cell_name (master_of cell_map (snd p)) = [] then []
          else verilog_inst_text (fst p) (snd p) (master_of cell_map (snd p))) (cv_instances cv)) @
        endl @ ''endmodule'' @ endl) \<and>
    (\<forall>p\<in>set (cv_instances cv). \<forall>t\<in>set (info_terms (master_of cell_map (snd p))).
       \<forall>i<unat (unit_size (term_unit (fst p))).
         name_expand Cdba (net_parts (snd p) t ! i) = net_slice (snd p) i t)" (is "?written \<and> ?parts")
proof -
  have ready: "verilog.master_ready cell_map p" if mem: "p \<in> set (cv_instances cv)" for p
  proof -
    obtain nu i where p: "parse_cdba_name_unit (fst p) = Inr nu"
      "get_cv_info cell_map (inst_lib_name (snd p)) (inst_cell_name (snd p)) = Inr i"
      "terms_connected (unat (unit_size nu)) (snd p) (info_terms i)"
      by (rule complete_connected [OF wf mem bspec [OF complete mem]])
    have "unit_size nu \<noteq> 1 \<longrightarrow> info_terms i \<noteq> []"
      using bspec [OF arrays mem] p(1,2) by (simp add: arrays_have_terms_def term_unit_def master_of_def)
    with p show ?thesis by (simp add: verilog.master_ready_def verilog_inst_ready_def)
  qed
  have body: "verilog.master_text cell_map = (\<lambda>p. if ci_cell_name (master_of cell_map (snd p)) = [] then []
      else verilog_inst_text (fst p) (snd p) (master_of cell_map (snd p)))"
    by (auto simp: verilog.master_text_def master_of_def make_cellview_info_def split: sum.split)
  have ?written
    using verilog.add_cellview_text [OF head, of False cv cell_map] ready by (simp add: body)
  moreover have "name_expand Cdba (net_parts (snd p) t ! i) = net_slice (snd p) i t"
    if mem: "p \<in> set (cv_instances cv)" and t: "t \<in> set (info_terms (master_of cell_map (snd p)))"
      and i: "i < unat (unit_size (term_unit (fst p)))" for p t i
  proof -
    obtain nu j where p: "parse_cdba_name_unit (fst p) = Inr nu"
      "get_cv_info cell_map (inst_lib_name (snd p)) (inst_cell_name (snd p)) = Inr j"
      "terms_connected (unat (unit_size nu)) (snd p) (info_terms j)"
      by (rule complete_connected [OF wf mem bspec [OF complete mem]])
    have "t \<in> set (info_terms j)" "i < unat (unit_size nu)"
      using t i p(1,2) by (simp_all add: term_unit_def master_of_def)
    with net_parts_spec(4) [OF p(3)] show ?thesis by simp
  qed
  ultimately show ?thesis by blast
qed

theorem verilog_add_cellview_correct_witness:
  "\<exists>t. add_cellview (verilog_format id) ''top'' example_cv (make_cellview_info ''lib'' ''top'' False)
     example_map False False [] = (None, endl @ endl @ t) \<and>
   name_expand Cdba (net_parts example_inst ''in'' ! 1) = [''a<0>'']"
proof -
  have head: "verilog_head_ready (make_cellview_info ''lib'' ''top'' False)"
    by (simp add: verilog_head_ready_def info_terms_def make_cellview_info_def)
  have wf: "insts_wf (cv_instances example_cv)" using example_insts_wf by (simp add: example_cv_def)
  have insts: "cv_instances example_cv = [(''X<1:0>'', example_inst)]"
    by (simp add: example_cv_def example_insts_def)
  have terms: "info_terms (master_of example_map example_inst) = [''in'', ''VDD'']"
    unfolding example_master by (simp add: info_terms_def make_cellview_info_def)
  have arrays: "\<forall>p\<in>set (cv_instances example_cv). arrays_have_terms example_map p"
    by (simp add: insts arrays_have_terms_def terms)
  have "1 < unat (unit_size (term_unit ''X<1:0>''))"
    by (simp add: term_unit_def example_insts_unit example_simps)
  with verilog_add_cellview_correct [OF head wf example_complete arrays, of id "''top''" False "[]"]
  have "name_expand Cdba (net_parts example_inst ''in'' ! 1) = net_slice example_inst 1 ''in''"
    by (simp add: insts terms)
  moreover have "net_slice example_inst 1 ''in'' = [''a<0>'']"
    by (simp add: example_insts_def net_slice_def net_bits_def term_bits_def example_simps
        term_unit_def)
  ultimately show ?thesis
    using verilog_add_cellview_correct [OF head wf example_complete arrays, of id "''top''" False "[]"]
    by (simp add: verilog_head_text_def)
qed

end
