(* ===== verification/Netlist.thy ===== *)
theory Netlist
  imports Spectre Verilog
begin

text \<open>
  The entry points of the netlister, \<^verbatim>\<open>include/cbag/netlist/netlist.h\<close> and
  \<^verbatim>\<open>src/cbag/netlist/netlist.cpp\<close>: the dispatch on the output format and the file that describes the
  primitives.  The YAML parser is a parameter that gives the contents of such a file.
\<close>

section \<open>Dispatch\<close>

datatype design_output =
  Out_layout | Out_gds | Out_schematic | Out_yaml | Out_cdl | Out_verilog | Out_systemverilog | Out_spectre

definition write_netlist ::
  "(string \<Rightarrow> string option) \<Rightarrow> (string \<Rightarrow> string) \<Rightarrow> ('x, 'p, 's) content list \<Rightarrow> design_output
     \<Rightarrow> netlist_map_t \<Rightarrow> string \<Rightarrow> string list \<Rightarrow> bool \<Rightarrow> bool \<Rightarrow> cnt_t \<Rightarrow> net_state outcome" where
  "write_netlist read_file canon contents format netlist_map append_file inc_list shell top_subckt rmin =
     (let run = (\<lambda>nl. write_netlist_helper read_file contents nl shell top_subckt inc_list append_file
                        ([], netlist_map))
      in case format of
        Out_cdl \<Rightarrow> run (cdl_format canon rmin)
      | Out_verilog \<Rightarrow> run (verilog_format canon)
      | Out_systemverilog \<Rightarrow> run (verilog_format canon)
      | Out_spectre \<Rightarrow> run (spectre_format canon)
      | _ \<Rightarrow> (Some Invalid_argument, ([], netlist_map)))"

text \<open>The file of primitives after YAML has parsed it, and the variables that \<^verbatim>\<open>read_prim_info\<close> sets.\<close>

record prim_file =
  pf_netlist_map :: netlist_map_t
  pf_inc_list :: "design_output \<rightharpoonup> string list"
  pf_prim_files :: "design_output \<rightharpoonup> string"

record prim_info =
  pi_inc_list :: "string list"
  pi_netlist_map :: netlist_map_t
  pi_append_file :: string

definition read_prim_info ::
  "(string \<Rightarrow> prim_file option) \<Rightarrow> string \<Rightarrow> design_output \<Rightarrow> prim_info \<Rightarrow> prim_info outcome" where
  "read_prim_info load prim_fname out_type st =
     (if prim_fname = [] then (None, st)
      else case load prim_fname of
        None \<Rightarrow> (Some Invalid_argument, st)
      | Some n \<Rightarrow>
          let st1 = st\<lparr>pi_netlist_map := pf_netlist_map n\<rparr> in
          (case pf_inc_list n out_type of
             None \<Rightarrow> (Some Out_of_range, st1)
           | Some incs \<Rightarrow>
               let st2 = st1\<lparr>pi_inc_list := incs\<rparr> in
               (case pf_prim_files n out_type of
                  None \<Rightarrow> (Some Out_of_range, st2)
                | Some f \<Rightarrow> (None, st2\<lparr>pi_append_file := f\<rparr>))))"

section \<open>Which cells are known\<close>

definition cell_known :: "netlist_map_t \<Rightarrow> string \<Rightarrow> string \<Rightarrow> bool" where
  "cell_known m lib cell \<longleftrightarrow> (\<exists>i. get_cv_info m lib cell = Inr i)"

text \<open>The cells that the entries of a content list add.\<close>

definition content_cells :: "('x, 'p, 's) content list \<Rightarrow> (string \<times> string) set" where
  "content_cells contents =
     {(cv_lib_name cv, cv_cell_name cv) |name cv netlist. (name, Some cv, netlist) \<in> set contents}"

lemma content_cells_simps [simp]:
  "content_cells [] = {}"
  "content_cells ((n, None, t) # es) = content_cells es"
  "content_cells ((n, Some cv, t) # es) = insert (cv_lib_name cv, cv_cell_name cv) (content_cells es)"
  by (auto simp: content_cells_def)

lemma record_known:
  "cell_known (record_cv_info m info) lib cell \<longleftrightarrow>
     cell_known m lib cell \<or> (lib = ci_lib_name info \<and> cell = ci_cell_name info)"
  by (auto simp: cell_known_def get_cv_info_def record_cv_info_def umap_emplace_def split: option.splits)

lemma record_keeps:
  "get_cv_info m lib cell = Inr i \<Longrightarrow> get_cv_info (record_cv_info m info) lib cell = Inr i"
  by (auto simp: get_cv_info_def record_cv_info_def umap_emplace_def split: option.splits)

lemma foldR_Inr_step: "foldR f s xs = Inr t \<Longrightarrow> x \<in> set xs \<Longrightarrow> \<exists>s t. f s x = Inr t"
  by (induction xs arbitrary: s) (auto simp: result_simps)

text \<open>The information of a cellview carries its names, and asks for the masters of its instances.\<close>

lemma info_terminals_names:
  assumes "foldR info_terminal st ts = Inr st'"
  shows "ci_lib_name (fst st') = ci_lib_name (fst st) \<and> ci_cell_name (fst st') = ci_cell_name (fst st)"
  by (rule foldR_invariant [OF assms])
    (auto simp: info_terminal_def Let_def result_simps split: term_type.splits if_splits)

lemma netlist_info_names:
  assumes "get_cv_netlist_info cv m compute = Inr info"
  shows "ci_lib_name info = cv_lib_name cv" and "ci_cell_name info = cv_cell_name cv"
  using assms info_terminals_names
  by (fastforce simp: get_cv_netlist_info_def result_simps make_cellview_info_def)+

lemma netlist_info_masters:
  assumes "get_cv_netlist_info cv m True = Inr info" and "p \<in> set (cv_instances cv)"
  shows "cell_known m (inst_lib_name (snd p)) (inst_cell_name (snd p))"
proof -
  obtain T st st' where "foldR (info_instance m True T) st (cv_instances cv) = Inr st'"
    using assms(1) by (auto simp: get_cv_netlist_info_def result_simps)
  from foldR_Inr_step [OF this assms(2)] show ?thesis
    by (auto simp: info_instance_def result_simps cell_known_def)
qed

section \<open>The list of cellviews\<close>

text \<open>An entry that is written without an error.\<close>

lemma netlist_entry_ok:
  assumes "netlist_entry nl shell subckt (b, name, ptr, t) st = (None, st')"
  shows "cell_known (snd st') lib cell \<longleftrightarrow>
      cell_known (snd st) lib cell \<or> (lib, cell) \<in> content_cells [(name, ptr, t)]"
    and "get_cv_info (snd st) lib cell = Inr i \<Longrightarrow> get_cv_info (snd st') lib cell = Inr i"
    and "\<lbrakk>ptr = Some cv; t = []; p \<in> set (cv_instances cv)\<rbrakk> \<Longrightarrow>
      cell_known (snd st) (inst_lib_name (snd p)) (inst_cell_name (snd p))"
proof -
  have "\<exists>info. get_cv_netlist_info cv (snd st) (t = []) = Inr info \<and> snd st' = record_cv_info (snd st) info"
    if "ptr = Some cv" for cv
    using assms that
    by (auto simp: netlist_entry_def tryS_def seqS_def on_file_def Let_def
        split: sum.splits prod.splits option.splits if_splits)
  then obtain info where i: "ptr = Some cv \<Longrightarrow>
      get_cv_netlist_info cv (snd st) (t = []) = Inr (info cv) \<and> snd st' = record_cv_info (snd st) (info cv)" for cv
    by metis
  have none: "ptr = None \<Longrightarrow> st' = st" using assms by (simp add: netlist_entry_def)
  show "cell_known (snd st') lib cell \<longleftrightarrow>
      cell_known (snd st) lib cell \<or> (lib, cell) \<in> content_cells [(name, ptr, t)]"
  proof (cases ptr)
    case (Some cv)
    with i [of cv] netlist_info_names [of cv "snd st" "t = []" "info cv"] show ?thesis
      by (auto simp: record_known)
  qed (use none in simp)
  show "get_cv_info (snd st') lib cell = Inr i" if "get_cv_info (snd st) lib cell = Inr i"
    using none i that by (cases ptr) (auto simp: record_keeps)
  show "cell_known (snd st) (inst_lib_name (snd p)) (inst_cell_name (snd p))"
    if "ptr = Some cv" "t = []" "p \<in> set (cv_instances cv)"
    using netlist_info_masters [of cv "snd st" "info cv" p] i [of cv] that by auto
qed

lemma content_cells_Cons: "content_cells (e # es) = content_cells [e] \<union> content_cells es"
  by (auto simp: content_cells_def)

lemma netlist_entries_step:
  assumes "forS (netlist_entry nl shell subckt) (e # es) st = (None, st')"
  obtains st1 where "netlist_entry nl shell subckt e st = (None, st1)"
    and "forS (netlist_entry nl shell subckt) es st1 = (None, st')"
  using assms by (cases "netlist_entry nl shell subckt e st") (auto simp: seqS_def split: option.splits)

lemma netlist_entries_known:
  assumes "forS (netlist_entry nl shell subckt) es st = (None, st')"
  shows "cell_known (snd st') lib cell \<longleftrightarrow>
      cell_known (snd st) lib cell \<or> (lib, cell) \<in> content_cells (map snd es)"
  using assms
proof (induction es arbitrary: st)
  case (Cons e es)
  obtain st1 where s: "netlist_entry nl shell subckt (fst e, snd e) st = (None, st1)"
    "forS (netlist_entry nl shell subckt) es st1 = (None, st')"
    using netlist_entries_step [OF Cons.prems] by auto
  obtain b n ptr t where "e = (b, n, ptr, t)" by (cases e)
  with Cons.IH [OF s(2)] netlist_entry_ok(1) [of nl shell subckt b n ptr t st st1 lib cell] s(1) show ?case
    using content_cells_Cons [of "snd e" "map snd es"] by auto
qed simp

lemma netlist_entries_keep:
  assumes "forS (netlist_entry nl shell subckt) es st = (None, st')" and "get_cv_info (snd st) lib cell = Inr i"
  shows "get_cv_info (snd st') lib cell = Inr i"
  using assms
proof (induction es arbitrary: st)
  case (Cons e es)
  obtain st1 where s: "netlist_entry nl shell subckt e st = (None, st1)"
    "forS (netlist_entry nl shell subckt) es st1 = (None, st')"
    by (rule netlist_entries_step [OF Cons.prems(1)])
  obtain b n ptr t where "e = (b, n, ptr, t)" by (cases e)
  with netlist_entry_ok(2) [of nl shell subckt b n ptr t st st1] s(1) Cons.prems(2)
  have "get_cv_info (snd st1) lib cell = Inr i" by simp
  then show ?case by (rule Cons.IH [OF s(2)])
qed simp

lemma netlist_entries_masters:
  assumes "forS (netlist_entry nl shell subckt) es st = (None, st')"
    and "k < length es" and "snd (es ! k) = (name, Some cv, [])" and "p \<in> set (cv_instances cv)"
  shows "cell_known (snd st) (inst_lib_name (snd p)) (inst_cell_name (snd p)) \<or>
      (inst_lib_name (snd p), inst_cell_name (snd p)) \<in> content_cells (take k (map snd es))"
proof -
  have split: "es = take k es @ es ! k # drop (Suc k) es" using assms(2) by (rule id_take_nth_drop)
  have "\<exists>st1 st2. forS (netlist_entry nl shell subckt) (take k es) st = (None, st1) \<and>
      netlist_entry nl shell subckt (es ! k) st1 = (None, st2)"
    using assms(1) unfolding arg_cong [OF split, of "\<lambda>xs. forS _ xs st = _"]
    by (auto simp: forS_append seqS_def split: option.splits prod.splits)
  then obtain st1 st2 where s: "forS (netlist_entry nl shell subckt) (take k es) st = (None, st1)"
    "netlist_entry nl shell subckt (es ! k) st1 = (None, st2)" by blast
  obtain b where "es ! k = (b, name, Some cv, [])" using assms(3) by (cases "es ! k") auto
  with netlist_entry_ok(3) [of nl shell subckt b name "Some cv" "[]" st1 st2 cv p] s(2) assms(4)
  have "cell_known (snd st1) (inst_lib_name (snd p)) (inst_cell_name (snd p))" by simp
  with netlist_entries_known [OF s(1)] show ?thesis by (simp add: take_map)
qed

section \<open>Properties\<close>

lemma on_file_map: "on_file f st = (e, st') \<Longrightarrow> snd st' = snd st"
  by (auto simp: on_file_def split: prod.splits)

lemma map_snd_mark_last [simp]: "map snd (mark_last xs) = xs"
  by (simp add: mark_last_def o_def map_nth)

lemma write_netlist_helper_entries:
  assumes "write_netlist_helper read_file contents nl shell subckt inc_list append_file st = (None, st')"
  obtains st1 st2 where "forS (netlist_entry nl shell subckt) (mark_last contents) st1 = (None, st2)"
    and "snd st1 = snd st" and "snd st2 = snd st'"
proof -
  obtain a b c where a: "on_file (nl_write_header nl inc_list shell) st = (None, a)"
    and b: "(if \<not> shell \<and> append_file \<noteq> []
           then (case read_file append_file of
                   None \<Rightarrow> (Some Invalid_argument, a)
                 | Some text \<Rightarrow> on_file (nl_append_netlist nl text) a)
           else (None, a)) = (None, b)"
    and c: "forS (netlist_entry nl shell subckt) (mark_last contents) b = (None, c)"
    and d: "on_file (nl_write_end nl) c = (None, st')"
    using assms unfolding write_netlist_helper_def seqS_def
    by (auto split: prod.splits option.splits if_splits)
  have "snd b = snd a" using b by (auto split: if_splits option.splits dest: on_file_map)
  with a c d on_file_map show thesis by (intro that [of b c]) metis+
qed

lemma write_netlist_entries:
  assumes "write_netlist read_file canon contents format m append_file inc_list shell subckt rmin
      = (None, (out, m'))"
  obtains nl out1 out2 where "forS (netlist_entry nl shell subckt) (mark_last contents) (out1, m) = (None, (out2, m'))"
proof -
  obtain nl where "write_netlist_helper read_file contents nl shell subckt inc_list append_file ([], m)
      = (None, (out, m'))"
    using assms by (auto simp: write_netlist_def Let_def split: design_output.splits)
  then show thesis by (rule write_netlist_helper_entries) (use that in \<open>metis snd_conv surj_pair\<close>)
qed

text \<open>
  C10.  A netlist, in whichever format, is written without an error only if every cell is defined before
  it is used: the master of every instance in an entry for which a netlist is generated is a cell that
  was known at the start or that an earlier entry of the list has added.  Afterwards exactly the cells
  known at the start and those of the list are known, and what was recorded before stays.
\<close>

theorem write_netlist_defines_before_use:
  assumes "write_netlist read_file canon contents format m append_file inc_list shell subckt rmin
      = (None, (out, m'))"
  shows "(\<forall>k<length contents. \<forall>name cv p. contents ! k = (name, Some cv, []) \<and> p \<in> set (cv_instances cv) \<longrightarrow>
      cell_known m (inst_lib_name (snd p)) (inst_cell_name (snd p)) \<or>
      (inst_lib_name (snd p), inst_cell_name (snd p)) \<in> content_cells (take k contents)) \<and>
    (cell_known m' lib cell \<longleftrightarrow> cell_known m lib cell \<or> (lib, cell) \<in> content_cells contents) \<and>
    (get_cv_info m lib cell = Inr i \<longrightarrow> get_cv_info m' lib cell = Inr i)"
proof (intro conjI impI)
  obtain nl out1 out2 where
    run: "forS (netlist_entry nl shell subckt) (mark_last contents) (out1, m) = (None, (out2, m'))"
    by (rule write_netlist_entries [OF assms])
  have len: "length (mark_last contents) = length contents"
    and nth: "k < length contents \<Longrightarrow> snd (mark_last contents ! k) = contents ! k" for k
    by (simp_all add: mark_last_def)
  show "\<forall>k<length contents. \<forall>name cv p. contents ! k = (name, Some cv, []) \<and> p \<in> set (cv_instances cv) \<longrightarrow>
      cell_known m (inst_lib_name (snd p)) (inst_cell_name (snd p)) \<or>
      (inst_lib_name (snd p), inst_cell_name (snd p)) \<in> content_cells (take k contents)"
    using netlist_entries_masters [OF run] nth by (simp add: len)
  show "cell_known m' lib cell \<longleftrightarrow> cell_known m lib cell \<or> (lib, cell) \<in> content_cells contents"
    using netlist_entries_known [OF run, of lib cell] by simp
  show "get_cv_info m' lib cell = Inr i" if "get_cv_info m lib cell = Inr i"
    using netlist_entries_keep [OF run, of lib cell i] that by simp
qed

text \<open>A leaf cell without terminals, and a cell above it that has an instance of it.\<close>

definition leaf_cv :: "(unit, unit, unit) cv_data" where
  "leaf_cv = example_cv\<lparr>cv_cell_name := ''leaf'', cv_terminals := [], cv_instances := []\<rparr>"

definition above_cv :: "(unit, unit, unit) cv_data" where
  "above_cv = leaf_cv\<lparr>cv_cell_name := ''above'', cv_instances :=
     [(''X0'', example_inst\<lparr>inst_cell_name := ''leaf'', inst_connections := []\<rparr>)]\<rparr>"

abbreviation example_contents :: "(unit, unit, unit) content list" where
  "example_contents \<equiv> [(''leaf'', Some leaf_cv, []), (''above'', Some above_cv, [])]"

theorem write_netlist_defines_before_use_witness:
  "\<exists>out m'. write_netlist (\<lambda>_. None) id example_contents Out_verilog (\<lambda>_. None) [] [] False True 2000
      = (None, (out, m')) \<and> cell_known m' ''lib'' ''leaf'' \<and> \<not> cell_known m' ''lib'' ''nand''"
proof -
  have parse: "parse_cdba_name_unit ''X0'' = Inr \<lparr>nu_base = ''X0'', nu_range = range_default\<rparr>"
    by (simp add: parse_eval)
  have size: "unit_size \<lparr>nu_base = ''X0'', nu_range = range_default\<rparr> = 1"
    by (simp add: unit_size_def range_default_def range_size_def)
  obtain out m' where w: "write_netlist (\<lambda>_. None) id example_contents Out_verilog (\<lambda>_. None) [] [] False True 2000
      = (None, (out, m'))"
    by (simp add: write_netlist_def write_netlist_helper_def on_file_def verilog_format_def
        verilog_write_header_def mark_last_def upt_conv_Cons netlist_entry_def leaf_cv_def above_cv_def
        get_cv_netlist_info_def make_cellview_info_def record_cv_info_def umap_emplace_def
        info_instance_def get_cv_info_def add_cellview_def nl_instance_step_def
        verilog_write_cv_header_def verilog_write_cv_end_def verilog_write_instance_def parse
        size Let_def on_ports_def append_inst_nets_def write_cv_ports_def ls_append_last_def ls_put_def
        example_insts_def example_cv_def)
  have "cell_known m' ''lib'' c \<longleftrightarrow> c = ''leaf'' \<or> c = ''above''" for c
    using write_netlist_defines_before_use [OF w, of "''lib''" c]
    by (simp add: leaf_cv_def above_cv_def example_cv_def cell_known_def get_cv_info_def)
  with w show ?thesis by (intro exI [of _ out] exI [of _ m']) simp
qed

end
