(* ===== verification/Gds_Math.thy ===== *)
theory Gds_Math
  imports Prelude Complex_Main
begin

unbundle bit_operations_syntax

text \<open>
  Numbers in GDSII files: \<^verbatim>\<open>src/cbag/gdsii/math.cpp\<close> and the two templates that write and read the
  bytes of an integer (\<^verbatim>\<open>include/cbag/gdsii/write_util.h\<close>, \<^verbatim>\<open>read_util.h\<close>).  A \<^verbatim>\<open>double\<close> is its bit
  pattern, as the union of the code reads it; \<open>dbl_val\<close> gives the number it stands for.  A GDSII real
  has a sign bit, an exponent of 16 in seven bits with bias 64, and a fraction of 56 bits.
\<close>

section \<open>Bytes\<close>

type_synonym byte = "8 word"

definition write_bytes :: "'a::len word \<Rightarrow> byte list" where
  "write_bytes val =
     map (\<lambda>bidx. ucast (drop_bit ((LENGTH('a) div 8 - 1 - bidx) * 8) val AND 0xff)) [0..<LENGTH('a) div 8]"

text \<open>At the end of the stream \<^verbatim>\<open>get\<close> returns minus one, which then counts as all bits set.\<close>

definition stream_get :: "byte list \<Rightarrow> int \<times> byte list" where
  "stream_get s = (case s of [] \<Rightarrow> (-1, []) | b # s' \<Rightarrow> (uint b, s'))"

fun read_loop :: "nat \<Rightarrow> 'a::len word \<Rightarrow> byte list \<Rightarrow> 'a word \<times> byte list" where
  "read_loop 0 ans s = (ans, s)"
| "read_loop (Suc k) ans s =
     (case stream_get s of (c, s') \<Rightarrow> read_loop k (ans OR push_bit (k * 8) (word_of_int c)) s')"

definition read_bytes :: "byte list \<Rightarrow> 'a::len word \<times> byte list" where
  "read_bytes s = read_loop (LENGTH('a) div 8) 0 s"

definition tail_bytes :: "nat \<Rightarrow> 'a::len word \<Rightarrow> byte list" where
  "tail_bytes k val = map (\<lambda>j. ucast (drop_bit (j * 8) val AND 0xff)) (rev [0..<k])"

lemma tail_bytes_simps:
  "tail_bytes 0 val = []"
  "tail_bytes (Suc k) val = ucast (drop_bit (k * 8) val AND 0xff) # tail_bytes k val"
  by (simp_all add: tail_bytes_def)

lemma write_bytes_tail: "write_bytes (val :: 'a::len word) = tail_bytes (LENGTH('a) div 8) val"
  unfolding write_bytes_def tail_bytes_def by (rule nth_equalityI) (simp_all add: rev_nth)

lemma low_byte:
  fixes val :: "'a::len word"
  assumes "k + 8 \<le> LENGTH('a)"
  shows "word_of_int (uint (ucast (drop_bit k val AND 0xff) :: byte)) = take_bit 8 (drop_bit k val)"
proof -
  have "drop_bit k val AND 0xff = take_bit 8 (drop_bit k val)"
    by (simp add: take_bit_eq_mask mask_eq_exp_minus_1)
  moreover have "word_of_int (uint (ucast (take_bit 8 w) :: byte)) = take_bit 8 w" for w :: "'a word"
    using assms by (intro bit_word_eqI) (auto simp: bit_simps)
  ultimately show ?thesis by simp
qed

lemma read_loop_tail_bytes:
  fixes val :: "'a::len word"
  assumes "k * 8 \<le> LENGTH('a)"
  shows "read_loop k ans (tail_bytes k val @ s) = (ans OR take_bit (k * 8) val, s)"
  using assms
proof (induction k arbitrary: ans)
  case (Suc k)
  have "push_bit (k * 8) (take_bit 8 (drop_bit (k * 8) val)) OR take_bit (k * 8) val
      = take_bit (Suc k * 8) val"
    using Suc.prems by (intro bit_word_eqI) (auto simp: bit_simps)
  moreover have "word_of_int (uint (ucast (drop_bit (k * 8) val AND 0xff) :: byte))
      = take_bit 8 (drop_bit (k * 8) val)"
    using Suc.prems by (intro low_byte) simp
  ultimately show ?case using Suc
    by (simp add: tail_bytes_simps stream_get_def or.assoc del: word_of_int_uint)
qed (simp add: tail_bytes_simps)

lemma read_write_bytes:
  assumes "8 dvd LENGTH('a::len)"
  shows "read_bytes (write_bytes (val :: 'a word) @ s) = (val, s)"
  using read_loop_tail_bytes [of "LENGTH('a) div 8" 0 val s] assms
  by (simp add: read_bytes_def write_bytes_tail)

lemma length_write_bytes [simp]: "length (write_bytes (val :: 'a::len word)) = LENGTH('a) div 8"
  by (simp add: write_bytes_def)

section \<open>Doubles\<close>

type_synonym dbl = "64 word"

definition dbl_exp :: "dbl \<Rightarrow> int" where
  "dbl_exp v = uint (take_bit 11 (drop_bit 52 v))"

definition dbl_frac :: "dbl \<Rightarrow> nat" where
  "dbl_frac v = unat (take_bit 52 v)"

definition dbl_sgn :: "dbl \<Rightarrow> real" where
  "dbl_sgn v = (if bit v 63 then -1 else 1)"

text \<open>\<^verbatim>\<open>one_64b << k\<close>\<close>

definition flag64 :: "nat \<Rightarrow> 64 word" where
  "flag64 k = push_bit k 1"

lemma bit_flag64 [simp]: "bit (flag64 k) n \<longleftrightarrow> n = k \<and> n < 64"
  by (auto simp: flag64_def bit_simps)

text \<open>The number that a finite double stands for.\<close>

definition dbl_val :: "dbl \<Rightarrow> real" where
  "dbl_val v = dbl_sgn v *
     (if dbl_exp v = 0 then real (dbl_frac v) * 2 powi (-1074)
      else real (2 ^ 52 + dbl_frac v) * 2 powi (dbl_exp v - 1075))"

definition dbl_is_zero :: "dbl \<Rightarrow> bool" where
  "dbl_is_zero v \<longleftrightarrow> take_bit 63 v = 0"

text \<open>The position of the highest bit.\<close>

fun top_bit :: "nat \<Rightarrow> nat" where
  "top_bit n = (if n < 2 then 0 else Suc (top_bit (n div 2)))"

declare top_bit.simps [simp del]

text \<open>
  \<^verbatim>\<open>std::frexp\<close> of a finite number other than zero: the bits of the fraction, which is in
  \<open>[0.5, 1)\<close> up to the sign, and the exponent of two.
\<close>

definition dbl_frexp :: "dbl \<Rightarrow> dbl \<times> int" where
  "dbl_frexp v =
     (let f = take_bit 52 v; half = push_bit 52 1022; sgn = v AND flag64 63 in
      if dbl_exp v = 0
      then (let k = 52 - top_bit (unat f) in (sgn OR half OR take_bit 52 (push_bit k f), - 1021 - int k))
      else (sgn OR half OR f, dbl_exp v - 1022))"

text \<open>The result of \<^verbatim>\<open>frexp\<close> on infinities and on what is no number has no specified exponent.\<close>

definition double_to_gds :: "dbl \<Rightarrow> 64 word result" where
  "double_to_gds v =
     (if dbl_is_zero v then Inr 0
      else if dbl_exp v = 2047 then Inl Undefined_behaviour
      else case dbl_frexp v of (frac_bits, exp_dbl) \<Rightarrow>
        let sgn = frac_bits AND flag64 63;
            tmp_flag = flag64 52;
            mantissa = push_bit 3 (tmp_flag OR (frac_bits AND (tmp_flag - 1)));
            shift_extra = 4 - (exp_dbl AND 3);
            mantissa = drop_bit (nat shift_extra) mantissa;
            exp_dbl = exp_dbl + (256 + shift_extra)
        in if 0 \<le> exp_dbl \<and> exp_dbl \<le> 508
           then Inr (sgn OR push_bit 56 (drop_bit 2 (word_of_int exp_dbl)) OR mantissa)
           else Inl Assertion_failed)"

text \<open>
  Conversion of an integer to \<^verbatim>\<open>double\<close> rounds to 53 bits, to the even neighbour in a tie.  The other
  operations are exact here: a power of 16 and a product with it, with exponents far from the limits.
\<close>

definition round53 :: "nat \<Rightarrow> nat" where
  "round53 m =
     (let k = top_bit m - 52; q = m div 2 ^ k; r = m mod 2 ^ k in
      if k = 0 then m
      else (if 2 ^ (k - 1) < r \<or> (r = 2 ^ (k - 1) \<and> odd q) then q + 1 else q) * 2 ^ k)"

definition gds_to_double :: "64 word \<Rightarrow> real" where
  "gds_to_double val =
     (if val = 0 then 0
      else
        let man_flag = flag64 56;
            sgn = val AND flag64 63;
            mantissa = val AND (man_flag - 1);
            exp = uint (drop_bit 56 (val AND NOT (flag64 63)));
            ans = real (round53 (unat mantissa)) * 16 powi (exp - 64 - 56 div 4)
        in if sgn \<noteq> 0 then ans * -1 else ans)"

section \<open>Rounding\<close>

lemma top_bit_double: "0 < m \<Longrightarrow> top_bit (2 * m) = Suc (top_bit m)"
  by (subst top_bit.simps) simp

lemma top_bit_mult_power: "0 < m \<Longrightarrow> top_bit (m * 2 ^ j) = top_bit m + j"
  by (induction j) (simp_all add: top_bit_double mult.left_commute [of m 2])

lemma top_bit_less: "m < 2 ^ k \<Longrightarrow> 0 < k \<Longrightarrow> top_bit m < k"
proof (induction m arbitrary: k rule: top_bit.induct)
  case (1 n)
  show ?case
  proof (cases "n < 2")
    case True
    then show ?thesis using 1 by (subst top_bit.simps) simp
  next
    case False
    then obtain j where k: "k = Suc j" and "0 < j"
      using 1(2,3) by (cases k; cases "k - 1") auto
    moreover have "n div 2 < 2 ^ j" using 1(2) k by simp
    ultimately show ?thesis using 1(1) [of j] False by (subst top_bit.simps) simp
  qed
qed

lemma round53_exact:
  assumes "m < 2 ^ 53"
  shows "round53 (m * 2 ^ j) = m * 2 ^ j"
proof (cases "m = 0")
  case False
  let ?k = "top_bit (m * 2 ^ j) - 52"
  have "top_bit m < 53" using assms by (rule top_bit_less) simp
  then have "?k \<le> j" using False by (simp add: top_bit_mult_power)
  then have "2 ^ ?k dvd m * 2 ^ j" by (simp add: le_imp_power_dvd)
  then show ?thesis by (simp add: round53_def Let_def)
qed (simp add: round53_def top_bit.simps)

section \<open>Fields of a GDSII real\<close>

lemma msb_mask: "flag64 52 - 1 = (mask 52 :: 64 word)" "flag64 56 - 1 = (mask 56 :: 64 word)"
  by (simp_all add: flag64_def mask_eq_exp_minus_1)

lemma frexp_normal:
  assumes "dbl_exp v \<noteq> 0"
  obtains fb where "dbl_frexp v = (fb, dbl_exp v - 1022)"
    and "fb AND flag64 63 = v AND flag64 63" and "take_bit 52 fb = take_bit 52 v"
proof -
  let ?fb = "(v AND flag64 63) OR push_bit 52 1022 OR take_bit 52 v"
  have "(push_bit 52 1022 :: 64 word) AND flag64 63 = 0" by (simp add: flag64_def)
  moreover have "take_bit 52 v AND flag64 63 = 0"
    by (intro bit_word_eqI) (auto simp: bit_simps)
  ultimately have "?fb AND flag64 63 = v AND flag64 63"
    by (simp add: bit.conj_disj_distrib2 and.assoc)
  moreover have "take_bit 52 (v AND flag64 63) = 0"
    by (intro bit_word_eqI) (auto simp: bit_simps)
  then have "take_bit 52 ?fb = take_bit 52 v" by (simp add: take_bit_push_bit)
  ultimately show thesis using assms that [of ?fb] by (simp add: dbl_frexp_def Let_def)
qed

lemma gds_fields:
  fixes v E m :: "64 word"
  assumes "take_bit 7 E = E" and "take_bit 56 m = m"
  defines "g \<equiv> (v AND flag64 63) OR push_bit 56 E OR m"
  shows "g AND flag64 63 = v AND flag64 63" and "g AND mask 56 = m"
    and "drop_bit 56 (g AND NOT (flag64 63)) = E"
proof -
  have E: "bit E i \<Longrightarrow> i < 7" for i using assms(1) by (metis bit_take_bit_iff)
  have m: "bit m i \<Longrightarrow> i < 56" for i using assms(2) by (metis bit_take_bit_iff)
  show "g AND flag64 63 = v AND flag64 63" "g AND mask 56 = m"
    "drop_bit 56 (g AND NOT (flag64 63)) = E"
    unfolding g_def by (intro bit_word_eqI; auto simp: bit_simps dest: E m)+
qed

lemma unat_shift:
  fixes x :: "64 word"
  assumes "unat x < 2 ^ 61"
  shows "unat (drop_bit k (push_bit 3 x)) = unat x * 8 div 2 ^ k"
proof -
  have "unat (push_bit 3 x) = unat x * 8"
    unfolding unsigned_push_bit_eq using assms by (simp add: push_bit_eq_mult take_bit_nat_eq_self)
  then show ?thesis by (simp only: unat_drop_bit_eq drop_bit_eq_div [where ?'a = nat])
qed

lemma word_of_nat_eqI: "unat x = n \<Longrightarrow> word_of_nat n = x"
  by auto

text \<open>The fraction with its leading bit, moved to where the exponent, a multiple of four, wants it.\<close>

lemma mantissa_unat:
  fixes fb :: "64 word"
  shows "unat (drop_bit k (push_bit 3 (flag64 52 OR (fb AND (flag64 52 - 1)))))
    = (2 ^ 52 + unat (take_bit 52 fb)) * 8 div 2 ^ k"
proof -
  have "flag64 52 OR take_bit 52 fb = flag64 52 + take_bit 52 fb"
    by (intro disjunctive_add_eq_or [symmetric] bit_word_eqI) (auto simp: bit_simps)
  moreover have lt: "unat (take_bit 52 fb) < 2 ^ 52"
    using take_bit_nat_less_exp [of 52 "unat fb"] by (simp add: unsigned_take_bit_eq)
  moreover have "unat (flag64 52) = 2 ^ 52" by (simp add: flag64_def)
  ultimately have "unat (flag64 52 OR take_bit 52 fb) = 2 ^ 52 + unat (take_bit 52 fb)"
    by (subst \<open>_ OR _ = _\<close>, subst unat_add_lem [THEN iffD1]) simp_all
  with lt show ?thesis
    unfolding msb_mask take_bit_eq_mask [symmetric] by (subst unat_shift) simp_all
qed

section \<open>Conversion of doubles\<close>

lemma dbl_frac_less: "dbl_frac v < 2 ^ 52"
  unfolding dbl_frac_def using take_bit_nat_less_exp [of 52 "unat v"] by (simp add: unsigned_take_bit_eq)

lemma dbl_exp_bounds: "0 \<le> dbl_exp v" "dbl_exp v < 2048"
  unfolding dbl_exp_def using take_bit_int_less_exp [of 11 "uint (drop_bit 52 v)"]
  by (simp_all add: unsigned_take_bit_eq)

lemma dbl_zero: "dbl_is_zero v \<Longrightarrow> dbl_exp v = 0 \<and> dbl_frac v = 0 \<and> dbl_val v = 0"
proof -
  assume "dbl_is_zero v"
  then have "\<not> bit v i" if "i < 63" for i
    using that by (metis bit_0_eq bit_take_bit_iff bot_apply bot_bool_def dbl_is_zero_def)
  then have "take_bit 11 (drop_bit 52 v) = 0" "take_bit 52 v = 0"
    by (auto intro!: bit_word_eqI simp: bit_simps)
  then show ?thesis by (simp add: dbl_exp_def dbl_frac_def dbl_val_def)
qed

lemma odd_frac: "odd (dbl_frac v) \<longleftrightarrow> bit v 0"
  by (simp add: dbl_frac_def flip: bit_0) (simp add: bit_simps)

text \<open>The value of the GDSII real with a sign bit, an exponent and a fraction.\<close>

lemma gds_to_double_fields:
  fixes v E m :: "64 word"
  assumes "take_bit 7 E = E" and "take_bit 56 m = m" and "m \<noteq> 0"
  shows "gds_to_double ((v AND flag64 63) OR push_bit 56 E OR m)
    = dbl_sgn v * (real (round53 (unat m)) * 16 powi (uint E - 78))"
proof -
  let ?g = "(v AND flag64 63) OR push_bit 56 E OR m"
  note f = gds_fields [OF assms(1,2), of v]
  have "?g \<noteq> 0" using f(2) assms(3) by auto
  moreover have "v AND flag64 63 = (if bit v 63 then flag64 63 else 0)"
    by (intro bit_word_eqI) (auto simp: bit_simps)
  then have "v AND flag64 63 \<noteq> 0 \<longleftrightarrow> bit v 63" by (simp add: flag64_def)
  ultimately show ?thesis
    using f by (simp add: gds_to_double_def Let_def msb_mask dbl_sgn_def)
qed

lemma drop_bit_word_of_int:
  assumes "0 \<le> y" and "y < 2 ^ 64"
  shows "drop_bit n (word_of_int y :: 64 word) = word_of_int (y div 2 ^ n)"
proof -
  have "y div 2 ^ n \<le> y div 1" using assms(1) by (intro zdiv_mono2) simp_all
  then have "0 \<le> y div 2 ^ n" "y div 2 ^ n < 2 ^ 64" using assms by (simp_all add: pos_imp_zdiv_nonneg_iff)
  then have "uint (word_of_int (y div 2 ^ n) :: 64 word) = y div 2 ^ n"
    unfolding unsigned_of_int by (simp add: take_bit_int_eq_self)
  moreover have "uint (word_of_int y :: 64 word) = y"
    unfolding unsigned_of_int using assms by (simp add: take_bit_int_eq_self)
  then have "uint (drop_bit n (word_of_int y :: 64 word)) = y div 2 ^ n"
    unfolding unsigned_drop_bit_eq
    using assms by (simp only: drop_bit_eq_div [where ?'a = int]) (simp add: take_bit_int_eq_self)
  ultimately show ?thesis by (metis word_of_int_uint)
qed

definition gds_range :: "dbl \<Rightarrow> bool" where
  "gds_range v \<longleftrightarrow> 762 \<le> dbl_exp v \<and> dbl_exp v \<le> 1273"

lemma double_to_gds_normal:
  assumes "\<not> dbl_is_zero v" and "dbl_exp v \<noteq> 0" and "dbl_exp v \<noteq> 2047"
  defines "q \<equiv> (dbl_exp v - 1022) div 4" and "r \<equiv> (dbl_exp v - 1022) mod 4"
  shows "double_to_gds v = (if gds_range v
      then Inr ((v AND flag64 63) OR push_bit 56 (word_of_int (q + 65)) OR
             word_of_nat ((2 ^ 52 + dbl_frac v) * 8 div 2 ^ nat (4 - r)))
      else Inl Assertion_failed)"
proof -
  obtain fb where fb: "dbl_frexp v = (fb, dbl_exp v - 1022)" "fb AND flag64 63 = v AND flag64 63"
    "take_bit 52 fb = take_bit 52 v"
    using frexp_normal [OF assms(2)] by blast
  have r: "(dbl_exp v - 1022) AND 3 = r"
    using take_bit_eq_mask [of 2 "dbl_exp v - 1022"] by (simp add: r_def take_bit_eq_mod mask_eq_exp_minus_1)
  have e: "dbl_exp v - 1022 + (256 + (4 - r)) = 4 * (q + 65)"
    unfolding q_def r_def by presburger
  have range: "0 \<le> 4 * (q + 65) \<and> 4 * (q + 65) \<le> 508 \<longleftrightarrow> gds_range v"
    unfolding q_def gds_range_def by presburger
  have "drop_bit 2 (word_of_int (4 * (q + 65)) :: 64 word) = word_of_int (q + 65)" if "gds_range v"
  proof -
    have "0 \<le> 4 * (q + 65)" "4 * (q + 65) \<le> 508" using range that by auto
    then show ?thesis by (subst drop_bit_word_of_int) simp_all
  qed
  moreover have mant: "drop_bit (nat (4 - r)) (push_bit 3 (flag64 52 OR (fb AND (flag64 52 - 1))))
      = word_of_nat ((2 ^ 52 + dbl_frac v) * 8 div 2 ^ nat (4 - r))"
    using mantissa_unat [of "nat (4 - r)" fb] fb(3) unfolding dbl_frac_def
    by (intro word_of_nat_eqI [symmetric]) simp
  ultimately show ?thesis
    unfolding double_to_gds_def fb(1) prod.case Let_def fb(2) r e range mant using assms(1,3)
    by (cases "gds_range v") (simp_all only: if_True if_False)
qed

lemma double_to_gds_subnormal:
  assumes "\<not> dbl_is_zero v" and "dbl_exp v = 0"
  shows "double_to_gds v = Inl Assertion_failed"
proof -
  obtain fb k where f: "dbl_frexp v = (fb, - 1021 - int k)"
    using assms(2) by (simp add: dbl_frexp_def Let_def)
  have "0 \<le> (- 1021 - int k) AND 3" by simp
  then have "\<not> 0 \<le> - 1021 - int k + (256 + (4 - ((- 1021 - int k) AND 3)))" by linarith
  then show ?thesis
    unfolding double_to_gds_def f prod.case Let_def using assms by simp
qed

text \<open>
  The fraction moves right by one to four places after it has moved left by three.  So one bit is lost
  if the exponent is a multiple of four and the last bit is set.
\<close>

definition loses_bit :: "dbl \<Rightarrow> bool" where
  "loses_bit v \<longleftrightarrow> dbl_exp v mod 4 = 2 \<and> bit v 0"

lemma shifted_mantissa:
  assumes "M < 2 ^ 53" and "0 \<le> r" and "r < 4"
  shows "M * 8 div 2 ^ nat (4 - r) = (if r = 0 then M div 2 else M * 2 ^ nat (r - 1))"
    and "round53 (M * 8 div 2 ^ nat (4 - r)) = M * 8 div 2 ^ nat (4 - r)"
proof -
  have div_eqs: "M * 8 div 16 = M div 2" "M * 8 div 8 = M" "M * 8 div 4 = M * 2" "M * 8 div 2 = M * 4"
    by presburger+
  have "r = 0 \<or> r = 1 \<or> r = 2 \<or> r = 3" using assms(2,3) by auto
  then show eq: "M * 8 div 2 ^ nat (4 - r) = (if r = 0 then M div 2 else M * 2 ^ nat (r - 1))"
    using div_eqs by (elim disjE) simp_all
  have "M div 2 < 2 ^ 53" using assms(1) by simp
  then show "round53 (M * 8 div 2 ^ nat (4 - r)) = M * 8 div 2 ^ nat (4 - r)"
    unfolding eq using round53_exact [of "M div 2" 0] round53_exact [OF assms(1)] by simp
qed

lemma powi_16: "(16 :: real) powi q = 2 powi (4 * q)"
proof -
  have "(2 :: real) powi 4 = 16" by simp
  then show ?thesis by (metis power_int_mult)
qed

lemma gds_value:
  assumes "gds_range v"
  defines "M \<equiv> 2 ^ 52 + dbl_frac v" and "r \<equiv> (dbl_exp v - 1022) mod 4" and "q \<equiv> (dbl_exp v - 1022) div 4"
  shows "gds_to_double ((v AND flag64 63) OR push_bit 56 (word_of_int (q + 65)) OR
      word_of_nat (M * 8 div 2 ^ nat (4 - r))) = dbl_sgn v * (real (M * 8 div 2 ^ nat (4 - r)) * 2 powi (4 * q - 52))"
proof -
  let ?m = "M * 8 div 2 ^ nat (4 - r)"
  have M: "2 ^ 52 \<le> M" "M < 2 ^ 53" unfolding M_def using dbl_frac_less [of v] by simp_all
  have r: "0 \<le> r" "r < 4" by (simp_all add: r_def)
  have "?m \<le> M * 8 div 2" using r by (intro div_le_mono2) (auto simp: self_le_power)
  then have m: "?m < 2 ^ 56" using M(2) by simp
  have "?m \<noteq> 0" using M(1) shifted_mantissa(1) [OF M(2) r] by (auto simp: div_eq_0_iff)
  moreover have um: "unat (word_of_nat ?m :: 64 word) = ?m"
    using m by (simp add: unsigned_of_nat take_bit_nat_eq_self)
  ultimately have "(word_of_nat ?m :: 64 word) \<noteq> 0" by (metis unsigned_0)
  moreover have "take_bit 56 (word_of_nat ?m :: 64 word) = word_of_nat ?m"
    using um m by (intro word_unat_eq_iff [THEN iffD2]) (simp add: unsigned_take_bit_eq take_bit_nat_eq_self)
  moreover have "0 \<le> q + 65" "q + 65 < 128"
    using assms(1) unfolding gds_range_def q_def by presburger+
  then have uE: "uint (word_of_int (q + 65) :: 64 word) = q + 65"
    unfolding unsigned_of_int by (simp add: take_bit_int_eq_self)
  moreover have "take_bit 7 (word_of_int (q + 65) :: 64 word) = word_of_int (q + 65)"
    using uE \<open>0 \<le> q + 65\<close> \<open>q + 65 < 128\<close>
    by (intro word_uint_eqI) (simp add: unsigned_take_bit_eq take_bit_int_eq_self)
  ultimately show ?thesis
    by (simp add: gds_to_double_fields um shifted_mantissa(2) [OF M(2) r] powi_16)
qed

lemma double_to_gds_spec:
  "case double_to_gds v of
     Inl e \<Rightarrow> \<not> (dbl_is_zero v \<or> gds_range v)
   | Inr g \<Rightarrow> (dbl_is_zero v \<or> gds_range v) \<and>
       \<bar>gds_to_double g - dbl_val v\<bar> \<le> \<bar>dbl_val v\<bar> / 2 ^ 52 \<and>
       (gds_to_double g = dbl_val v \<longleftrightarrow> \<not> loses_bit v)"
proof (cases "dbl_is_zero v")
  case True
  then show ?thesis using dbl_zero [OF True]
    by (simp add: double_to_gds_def gds_to_double_def loses_bit_def)
next
  case nonzero: False
  show ?thesis
  proof (cases "gds_range v")
    case False
    have "\<exists>e. double_to_gds v = Inl e"
      using False nonzero double_to_gds_normal [of v] double_to_gds_subnormal [of v]
      by (cases "dbl_exp v = 2047"; cases "dbl_exp v = 0") (auto simp: double_to_gds_def)
    with False nonzero show ?thesis by auto
  next
    case True
    define M r q where "M = 2 ^ 52 + dbl_frac v" and "r = (dbl_exp v - 1022) mod 4"
      and "q = (dbl_exp v - 1022) div 4"
    have M: "2 ^ 52 \<le> M" "M < 2 ^ 53" unfolding M_def using dbl_frac_less [of v] by simp_all
    have r: "0 \<le> r" "r < 4" by (simp_all add: r_def)
    have e: "dbl_exp v \<noteq> 0" "dbl_exp v \<noteq> 2047" "dbl_exp v - 1075 = 4 * q - 52 + (r - 1)"
      using True unfolding gds_range_def q_def r_def by presburger+
    obtain g where g: "double_to_gds v = Inr g"
      and gv: "gds_to_double g = dbl_sgn v * (real (M * 8 div 2 ^ nat (4 - r)) * 2 powi (4 * q - 52))"
      using double_to_gds_normal [OF nonzero e(1,2)] gds_value [OF True] True
      unfolding M_def r_def q_def by simp
    have val: "dbl_val v = dbl_sgn v * (real M * 2 powi (r - 1) * 2 powi (4 * q - 52))"
      using e(1) power_int_add [of "2 :: real" "4 * q - 52" "r - 1"]
      unfolding dbl_val_def e(3) M_def by (simp only: if_False) simp
    have loses: "loses_bit v \<longleftrightarrow> r = 0 \<and> odd M"
    proof -
      have "dbl_exp v mod 4 = 2 \<longleftrightarrow> r = 0" unfolding r_def by presburger
      then show ?thesis by (simp add: loses_bit_def M_def odd_frac)
    qed
    let ?p = "2 powi (4 * q - 52) :: real"
    have "?p > 0" by simp
    have sgn: "\<bar>dbl_sgn v\<bar> = 1" by (simp add: dbl_sgn_def)
    show ?thesis
    proof (cases "r = 0")
      case r0: True
      have half: "real (M div 2) = real M / 2 - (if odd M then 1 / 2 else 0)"
        by (cases "even M") (auto elim!: evenE oddE simp: field_simps)
      have gv: "gds_to_double g = dbl_val v - dbl_sgn v * ((if odd M then 1 / 2 else 0) * ?p)"
        unfolding gv val shifted_mantissa(1) [OF M(2) r] if_P [OF r0] half
        by (simp add: r0 left_diff_distrib right_diff_distrib power_int_minus)
      have "\<bar>gds_to_double g - dbl_val v\<bar> = (if odd M then 1 / 2 else 0) * ?p"
        unfolding gv using sgn by (simp add: abs_mult)
      moreover have "\<bar>dbl_val v\<bar> = real M / 2 * ?p"
        unfolding val using sgn r0 by (simp add: abs_mult power_int_minus)
      moreover have "(if odd M then 1 / 2 else 0) \<le> real M / 2 / 2 ^ 52"
        using M(1) by (simp add: of_nat_le_iff [of "2 ^ 52" M, symmetric, where ?'a = real] del: of_nat_le_iff)
      then have "(if odd M then 1 / 2 else 0) * ?p \<le> real M / 2 / 2 ^ 52 * ?p"
        by (rule mult_right_mono) simp
      then have "(if odd M then 1 / 2 else 0) * ?p \<le> real M / 2 * ?p / 2 ^ 52"
        by (simp only: times_divide_eq_left)
      ultimately have "\<bar>gds_to_double g - dbl_val v\<bar> \<le> \<bar>dbl_val v\<bar> / 2 ^ 52" by (simp only:)
      moreover have "gds_to_double g = dbl_val v \<longleftrightarrow> even M"
        unfolding gv by (simp add: dbl_sgn_def)
      ultimately show ?thesis using g True loses r0 by simp
    next
      case False
      have "2 powi (r - 1) = (2 :: real) ^ nat (r - 1)"
        using False r by (simp add: power_int_def)
      then have "gds_to_double g = dbl_val v"
        unfolding gv val using shifted_mantissa(1) [OF M(2) r] False by simp
      then show ?thesis using g False loses True by simp
    qed
  qed
qed

lemma top_bit_eq: "2 ^ k \<le> n \<Longrightarrow> n < 2 ^ Suc k \<Longrightarrow> top_bit n = k"
proof (induction k arbitrary: n)
  case (Suc k)
  then have "top_bit (n div 2) = k" by (intro Suc.IH) auto
  moreover have "2 \<le> (2 :: nat) ^ Suc k" by (rule self_le_power) simp_all
  then have "\<not> n < 2" using Suc.prems(1) by linarith
  ultimately show ?case by (subst top_bit.simps) simp
qed (simp add: top_bit.simps)

text \<open>A conversion without loss.\<close>

lemma double_to_gds_exact:
  assumes "gds_range v" and "\<not> loses_bit v"
  obtains g where "double_to_gds v = Inr g" and "gds_to_double g = dbl_val v"
  using double_to_gds_spec [of v] assms by (auto split: sum.splits)

text \<open>
  C32.  A double converts to a GDSII real exactly if it is zero or its exponent is in the range of
  GDSII.  The result differs from the number by at most one part in \<open>2 ^ 52\<close>, and it is the same
  number just if the conversion does not lose a bit.
\<close>

theorem double_to_gds_correct:
  "case double_to_gds v of
     Inl e \<Rightarrow> \<not> (dbl_is_zero v \<or> gds_range v)
   | Inr g \<Rightarrow> (dbl_is_zero v \<or> gds_range v) \<and>
       \<bar>gds_to_double g - dbl_val v\<bar> \<le> \<bar>dbl_val v\<bar> / 2 ^ 52 \<and>
       (gds_to_double g = dbl_val v \<longleftrightarrow> \<not> loses_bit v)"
  by (rule double_to_gds_spec)

end
