(* ===== verification/Transform.thy ===== *)
theory Transform
  imports Box Decimal
begin

unbundle bit_operations_syntax

text \<open>
  Transformations: \<^verbatim>\<open>src/cbag/common/transformation_util.cpp\<close> and
  \<^verbatim>\<open>include/cbag/enum/orientation.h\<close>.  The types \<^verbatim>\<open>axis_transformation\<close> and \<^verbatim>\<open>transformation\<close>
  are Boost.Polygon's, which is not in the repository: their operations are the fields of a record
  that the functions take as an argument, and \<open>xform_laws\<close> is what Boost documents about them.
\<close>

section \<open>Orientations\<close>

datatype orientation = OR0 | OR90 | OR180 | OR270 | OMX | OMXR90 | OMY | OMYR90

fun orientation_to_string :: "orientation \<Rightarrow> string" where
  "orientation_to_string OR0 = ''R0''"
| "orientation_to_string OR90 = ''R90''"
| "orientation_to_string OR180 = ''R180''"
| "orientation_to_string OR270 = ''R270''"
| "orientation_to_string OMX = ''MX''"
| "orientation_to_string OMXR90 = ''MXR90''"
| "orientation_to_string OMY = ''MY''"
| "orientation_to_string OMYR90 = ''MYR90''"

text \<open>Boost's enumerators by their values.\<close>

definition orientation_of_code :: "nat \<Rightarrow> orientation" where
  "orientation_of_code c = [OR0, OMY, OMX, OR180, OMXR90, OR270, OR90, OMYR90] ! (c mod 8)"

type_synonym point = "int \<times> int"

record 'x xform_ops =
  ax_invert :: "orientation \<Rightarrow> orientation"
  ax_plus :: "orientation \<Rightarrow> orientation \<Rightarrow> orientation"
  ax_transform :: "orientation \<Rightarrow> point \<Rightarrow> point"
  xo_make :: "orientation \<Rightarrow> 'x"
  xo_axis :: "'x \<Rightarrow> orientation"
  xo_set_axis :: "'x \<Rightarrow> orientation \<Rightarrow> 'x"
  xo_translation :: "'x \<Rightarrow> point"
  xo_set_translation :: "'x \<Rightarrow> point \<Rightarrow> 'x"
  xo_transform :: "'x \<Rightarrow> point \<Rightarrow> point"
  xo_invert :: "'x \<Rightarrow> 'x"
  xo_directions :: "'x \<Rightarrow> int \<times> int"

section \<open>The functions\<close>

definition neg_pt :: "point \<Rightarrow> point" where
  "neg_pt p = (- fst p, - snd p)"

definition add_pt :: "point \<Rightarrow> point \<Rightarrow> point" where
  "add_pt p q = (fst p + fst q, snd p + snd q)"

definition location :: "'x xform_ops \<Rightarrow> 'x \<Rightarrow> point" where
  "location T x = xo_transform T x (0, 0)"

definition get_coord :: "'x xform_ops \<Rightarrow> 'x \<Rightarrow> orient_2d \<Rightarrow> int" where
  "get_coord T x ori = (case ori of Horizontal \<Rightarrow> fst (location T x) | Vertical \<Rightarrow> snd (location T x))"

definition xform_x :: "'x xform_ops \<Rightarrow> 'x \<Rightarrow> int" where
  "xform_x T x = get_coord T x Horizontal"

definition xform_y :: "'x xform_ops \<Rightarrow> 'x \<Rightarrow> int" where
  "xform_y T x = get_coord T x Vertical"

definition make_xform :: "'x xform_ops \<Rightarrow> int \<Rightarrow> int \<Rightarrow> orientation \<Rightarrow> 'x" where
  "make_xform T dx dy ori =
     xo_set_translation T (xo_make T ori) (neg_pt (ax_transform T (ax_invert T ori) (dx, dy)))"

definition orient_code :: "'x xform_ops \<Rightarrow> 'x \<Rightarrow> int" where
  "orient_code T x =
     (case xo_directions T x of (hdir, vdir) \<Rightarrow> push_bit 1 (NOT vdir AND 3) OR (NOT hdir AND 1))"

definition orient :: "'x xform_ops \<Rightarrow> 'x \<Rightarrow> orientation" where
  "orient T x = orientation_of_code (nat (orient_code T x))"

definition set_location :: "'x xform_ops \<Rightarrow> 'x \<Rightarrow> int \<Rightarrow> int \<Rightarrow> 'x" where
  "set_location T x px py =
     xo_set_translation T x (neg_pt (ax_transform T (ax_invert T (xo_axis T x)) (px, py)))"

definition set_orient :: "'x xform_ops \<Rightarrow> 'x \<Rightarrow> orientation \<Rightarrow> 'x" where
  "set_orient T x ori =
     (let loc = location T x in set_location T (xo_set_axis T x ori) (fst loc) (snd loc))"

definition set_orient_code :: "'x xform_ops \<Rightarrow> 'x \<Rightarrow> nat \<Rightarrow> 'x" where
  "set_orient_code T x code = set_orient T x (orientation_of_code code)"

definition flips_xy :: "'x xform_ops \<Rightarrow> 'x \<Rightarrow> bool" where
  "flips_xy T x \<longleftrightarrow> orient_code T x AND 4 = 4"

definition axis_scale :: "'x xform_ops \<Rightarrow> 'x \<Rightarrow> int \<times> int" where
  "axis_scale T x =
     (let ocode = orient_code T x in (1 - 2 * (ocode AND 1), 1 - 2 * drop_bit 1 (ocode AND 2)))"

definition move_by :: "'x xform_ops \<Rightarrow> 'x \<Rightarrow> int \<Rightarrow> int \<Rightarrow> 'x" where
  "move_by T x dx dy =
     (let loc = location T x in set_location T x (fst loc + dx) (snd loc + dy))"

definition xform_inverse :: "'x xform_ops \<Rightarrow> 'x \<Rightarrow> 'x" where
  "xform_inverse T x = xo_invert T x"

definition transform_by :: "'x xform_ops \<Rightarrow> 'x \<Rightarrow> 'x \<Rightarrow> 'x" where
  "transform_by T x rhs =
     (let new_shift = xo_transform T rhs (location T x);
          atr = ax_plus T (xo_axis T x) (xo_axis T rhs)
      in set_location T (xo_set_axis T x atr) (fst new_shift) (snd new_shift))"

definition convert_array ::
  "'x xform_ops \<Rightarrow> 'x \<Rightarrow> cnt_t \<Rightarrow> cnt_t \<Rightarrow> int \<Rightarrow> int \<Rightarrow> cnt_t \<times> cnt_t \<times> int \<times> int" where
  "convert_array T x nx ny spx spy =
     (case xo_transform T (xform_inverse T x) (spx, spy) of (spx, spy) \<Rightarrow>
        if flips_xy T x then (ny, nx, spx, spy) else (nx, ny, spx, spy))"

definition convert_gds_array ::
  "'x xform_ops \<Rightarrow> 'x \<Rightarrow> cnt_t \<Rightarrow> cnt_t \<Rightarrow> int \<Rightarrow> int \<Rightarrow> cnt_t \<times> cnt_t \<times> int \<times> int" where
  "convert_gds_array T x gds_nx gds_ny gds_spx gds_spy =
     (case xo_transform T x (gds_spx, gds_spy) of (gds_spx, gds_spy) \<Rightarrow>
        if flips_xy T x then (gds_ny, gds_nx, gds_spx, gds_spy) else (gds_nx, gds_ny, gds_spx, gds_spy))"

definition xform_to_string :: "'x xform_ops \<Rightarrow> 'x \<Rightarrow> string" where
  "xform_to_string T x =
     (let loc = location T x; ori = orient T x in
      ''Transform('' @ int_to_string (fst loc) @ '', '' @ int_to_string (snd loc) @ '', '' @
      orientation_to_string ori @ '')'')"

section \<open>What Boost documents\<close>

text \<open>The image of a point under an axis transformation.\<close>

fun atr_image :: "orientation \<Rightarrow> point \<Rightarrow> point" where
  "atr_image OR0 (x, y) = (x, y)"
| "atr_image OR90 (x, y) = (- y, x)"
| "atr_image OR180 (x, y) = (- x, - y)"
| "atr_image OR270 (x, y) = (y, - x)"
| "atr_image OMX (x, y) = (x, - y)"
| "atr_image OMXR90 (x, y) = (y, x)"
| "atr_image OMY (x, y) = (- x, y)"
| "atr_image OMYR90 (x, y) = (- y, - x)"

text \<open>The directions of the two axes: west 0, east 1, south 2, north 3.\<close>

fun atr_directions :: "orientation \<Rightarrow> int \<times> int" where
  "atr_directions OR0 = (1, 3)"
| "atr_directions OMY = (0, 3)"
| "atr_directions OMX = (1, 2)"
| "atr_directions OR180 = (0, 2)"
| "atr_directions OMXR90 = (3, 1)"
| "atr_directions OR270 = (2, 1)"
| "atr_directions OR90 = (3, 0)"
| "atr_directions OMYR90 = (2, 0)"

text \<open>A transformation first subtracts its translation, then applies its axis transformation.\<close>

definition xform_laws :: "'x xform_ops \<Rightarrow> bool" where
  "xform_laws T \<longleftrightarrow>
     (\<forall>ori p. ax_transform T ori p = atr_image ori p) \<and>
     (\<forall>ori p. atr_image ori (atr_image (ax_invert T ori) p) = p) \<and>
     (\<forall>a b p. atr_image (ax_plus T a b) p = atr_image b (atr_image a p)) \<and>
     (\<forall>x p. xo_transform T x p = atr_image (xo_axis T x) (add_pt p (neg_pt (xo_translation T x)))) \<and>
     (\<forall>ori. xo_axis T (xo_make T ori) = ori) \<and>
     (\<forall>x ori. xo_axis T (xo_set_axis T x ori) = ori) \<and>
     (\<forall>x p. xo_axis T (xo_set_translation T x p) = xo_axis T x \<and>
            xo_translation T (xo_set_translation T x p) = p) \<and>
     (\<forall>x p. xo_transform T (xo_invert T x) (xo_transform T x p) = p \<and>
            xo_transform T x (xo_transform T (xo_invert T x) p) = p) \<and>
     (\<forall>x. xo_directions T x = atr_directions (xo_axis T x))"

lemma xform_lawsD:
  assumes "xform_laws T"
  shows "ax_transform T ori p = atr_image ori p"
    and "atr_image ori (atr_image (ax_invert T ori) p) = p"
    and "atr_image (ax_plus T a b) p = atr_image b (atr_image a p)"
    and "xo_transform T x p = atr_image (xo_axis T x) (add_pt p (neg_pt (xo_translation T x)))"
    and "xo_axis T (xo_make T ori) = ori"
    and "xo_axis T (xo_set_axis T x ori) = ori"
    and "xo_axis T (xo_set_translation T x p) = xo_axis T x"
    and "xo_translation T (xo_set_translation T x p) = p"
    and "xo_transform T (xo_invert T x) (xo_transform T x p) = p"
    and "xo_transform T x (xo_transform T (xo_invert T x) p) = p"
    and "xo_directions T x = atr_directions (xo_axis T x)"
  using assms unfolding xform_laws_def by blast+

lemma atr_image_add: "atr_image ori (add_pt p q) = add_pt (atr_image ori p) (atr_image ori q)"
  by (cases p; cases q; cases ori) (simp_all add: add_pt_def)

lemma atr_image_0 [simp]: "atr_image ori (0, 0) = (0, 0)"
  by (cases ori) simp_all

lemma neg_neg_pt [simp]: "neg_pt (neg_pt p) = p"
  by (simp add: neg_pt_def)

lemma add_pt_0 [simp]: "add_pt (0, 0) p = p"
  by (simp add: add_pt_def)

text \<open>A transformation acts as its axis transformation followed by a shift to its location.\<close>

lemma xform_affine:
  assumes "xform_laws T"
  shows "xo_transform T x p = add_pt (atr_image (xo_axis T x) p) (location T x)"
  by (simp add: xform_lawsD [OF assms] location_def atr_image_add)

lemma set_location_spec:
  assumes "xform_laws T"
  shows "xo_axis T (set_location T x px py) = xo_axis T x"
    and "location T (set_location T x px py) = (px, py)"
  by (simp_all add: xform_lawsD [OF assms] set_location_def location_def)

lemma make_xform_spec:
  assumes "xform_laws T"
  shows "xo_axis T (make_xform T dx dy ori) = ori" and "location T (make_xform T dx dy ori) = (dx, dy)"
  by (simp_all add: xform_lawsD [OF assms] make_xform_def location_def)

lemma set_axis_spec: "xform_laws T \<Longrightarrow> xo_axis T (xo_set_axis T x ori) = ori"
  by (rule xform_lawsD)

lemma move_by_spec:
  assumes "xform_laws T"
  shows "xo_axis T (move_by T x dx dy) = xo_axis T x"
    and "location T (move_by T x dx dy) = add_pt (location T x) (dx, dy)"
  by (simp_all add: move_by_def Let_def set_location_spec [OF assms] add_pt_def)

lemma set_orient_spec:
  assumes "xform_laws T"
  shows "xo_axis T (set_orient T x ori) = ori" and "location T (set_orient T x ori) = location T x"
  by (simp_all add: set_orient_def Let_def set_location_spec [OF assms] set_axis_spec [OF assms])

lemma transform_by_spec:
  assumes "xform_laws T"
  shows "xo_transform T (transform_by T x rhs) p = xo_transform T rhs (xo_transform T x p)"
  by (simp add: transform_by_def Let_def set_location_spec [OF assms] set_axis_spec [OF assms]
      xform_affine [OF assms] atr_image_add xform_lawsD(3) [OF assms]) (simp add: add_pt_def)

lemma orient_spec:
  assumes "xform_laws T"
  shows "orient T x = xo_axis T x" and "flips_xy T x \<longleftrightarrow> xo_axis T x \<in> {OR90, OR270, OMXR90, OMYR90}"
  by (cases "xo_axis T x"; simp add: xform_lawsD(11) [OF assms] orient_def orient_code_def orientation_of_code_def
      flips_xy_def)+

lemma convert_array_spec:
  assumes "xform_laws T"
  shows "convert_array T x nx ny spx spy =
    (case xo_transform T (xo_invert T x) (spx, spy) of (gx, gy) \<Rightarrow>
       if flips_xy T x then (ny, nx, gx, gy) else (nx, ny, gx, gy))"
  by (simp add: convert_array_def xform_inverse_def split: prod.split)

lemma convert_round_trip:
  assumes "xform_laws T"
  shows "(case convert_array T x nx ny spx spy of (gnx, gny, gx, gy) \<Rightarrow>
    convert_gds_array T x gnx gny gx gy) = (nx, ny, spx, spy)"
  using xform_lawsD(10) [OF assms, of x "(spx, spy)"]
  by (auto simp: convert_array_spec [OF assms] convert_gds_array_def split: prod.splits)

section \<open>Properties\<close>

text \<open>
  C39.  The functions on transformations compute what their names say, as maps of points: a made
  transformation turns and then shifts, \<^verbatim>\<open>transform_by\<close> is composition, \<^verbatim>\<open>move_by\<close> adds a shift,
  \<^verbatim>\<open>set_orient\<close> keeps the location, and the conversion of array parameters to GDSII and back gives the
  same parameters.
\<close>

theorem transformations_correct:
  assumes "xform_laws T"
  shows "xo_transform T (make_xform T dx dy ori) p = add_pt (atr_image ori p) (dx, dy) \<and>
    location T (make_xform T dx dy ori) = (dx, dy) \<and> orient T (make_xform T dx dy ori) = ori \<and>
    xo_transform T (transform_by T x rhs) p = xo_transform T rhs (xo_transform T x p) \<and>
    xo_transform T (move_by T x dx dy) p = add_pt (xo_transform T x p) (dx, dy) \<and>
    location T (set_orient T x ori) = location T x \<and> orient T (set_orient T x ori) = ori \<and>
    (case convert_array T x nx ny spx spy of (gnx, gny, gx, gy) \<Rightarrow>
       convert_gds_array T x gnx gny gx gy) = (nx, ny, spx, spy)"
proof -
  have "xo_transform T (move_by T x dx dy) p = add_pt (xo_transform T x p) (dx, dy)"
    by (simp add: xform_affine [OF assms] move_by_spec [OF assms]) (simp add: add_pt_def)
  moreover have "xo_transform T (make_xform T dx dy ori) p = add_pt (atr_image ori p) (dx, dy)"
    by (simp add: xform_affine [OF assms] make_xform_spec [OF assms])
  ultimately show ?thesis
    using assms
    by (simp add: transform_by_spec convert_round_trip orient_spec make_xform_spec set_orient_spec)
qed

text \<open>
  The pitch of an array is a difference of locations, but \<^verbatim>\<open>convert_array\<close> maps it like a point:
  for an instance that is only moved, the location is subtracted from the pitch.
\<close>

theorem convert_array_subtracts_location:
  assumes "xform_laws T"
  shows "convert_array T (make_xform T dx dy OR0) nx ny spx spy = (nx, ny, spx - dx, spy - dy)"
proof -
  let ?x = "make_xform T dx dy OR0"
  have "xo_transform T ?x (spx - dx, spy - dy) = (spx, spy)"
    by (simp add: xform_affine [OF assms] make_xform_spec [OF assms] add_pt_def)
  then have "xo_transform T (xo_invert T ?x) (spx, spy) = (spx - dx, spy - dy)"
    using xform_lawsD(9) [OF assms, of ?x "(spx - dx, spy - dy)"] by simp
  then show ?thesis
    by (simp add: convert_array_spec [OF assms] orient_spec [OF assms] make_xform_spec [OF assms])
qed

section \<open>An instance of the laws\<close>

text \<open>Transformations as pairs of an orientation and a translation.\<close>

fun pair_inverse :: "orientation \<Rightarrow> orientation" where
  "pair_inverse OR90 = OR270"
| "pair_inverse OR270 = OR90"
| "pair_inverse ori = ori"

definition pair_plus :: "orientation \<Rightarrow> orientation \<Rightarrow> orientation" where
  "pair_plus a b = hd (filter (\<lambda>c. atr_image c (1, 2) = atr_image b (atr_image a (1, 2)))
     [OR0, OR90, OR180, OR270, OMX, OMXR90, OMY, OMYR90])"

definition pair_ops :: "(orientation \<times> point) xform_ops" where
  "pair_ops = \<lparr>ax_invert = pair_inverse, ax_plus = pair_plus, ax_transform = atr_image,
     xo_make = (\<lambda>ori. (ori, (0, 0))), xo_axis = fst, xo_set_axis = (\<lambda>x ori. (ori, snd x)),
     xo_translation = snd, xo_set_translation = (\<lambda>x p. (fst x, p)),
     xo_transform = (\<lambda>x p. atr_image (fst x) (add_pt p (neg_pt (snd x)))),
     xo_invert = (\<lambda>x. (pair_inverse (fst x), neg_pt (atr_image (fst x) (snd x)))),
     xo_directions = atr_directions \<circ> fst\<rparr>"

lemma pair_inverse_image: "atr_image ori (atr_image (pair_inverse ori) p) = p"
  "atr_image (pair_inverse ori) (atr_image ori p) = p"
  by (cases p; cases ori; simp)+

lemma pair_plus_image: "atr_image (pair_plus a b) p = atr_image b (atr_image a p)"
  by (cases p; cases a; cases b; simp add: pair_plus_def)

lemma atr_image_neg: "atr_image ori (neg_pt p) = neg_pt (atr_image ori p)"
  by (cases p; cases ori; simp add: neg_pt_def)

lemma add_neg_pt [simp]: "add_pt (add_pt p q) (neg_pt q) = p" "add_pt (add_pt p (neg_pt q)) q = p"
  by (simp_all add: add_pt_def neg_pt_def)

lemma pair_ops_laws: "xform_laws pair_ops"
  unfolding xform_laws_def pair_ops_def
  by (auto simp: pair_inverse_image pair_plus_image atr_image_add atr_image_neg simp del: split_paired_All)

theorem transformations_correct_witness:
  "xo_transform pair_ops (make_xform pair_ops 3 5 OR90) (2, 1) = (2, 7) \<and>
   convert_gds_array pair_ops (make_xform pair_ops 3 5 OR90) 4 2 5 (-17) = (2, 4, 20, 10)"
proof -
  have "convert_array pair_ops (make_xform pair_ops 3 5 OR90) 2 4 20 10 = (4, 2, 5, -17)"
    by (simp add: pair_ops_def convert_array_def xform_inverse_def make_xform_def neg_pt_def add_pt_def
        flips_xy_def orient_code_def)
  then show ?thesis
    using transformations_correct [OF pair_ops_laws, of 3 5 OR90 "(2, 1)" "make_xform pair_ops 3 5 OR90"
        "make_xform pair_ops 3 5 OR90" 2 4 20 10]
    by (simp add: add_pt_def)
qed

theorem convert_array_subtracts_location_witness:
  "convert_array pair_ops (make_xform pair_ops 100 0 OR0) 2 1 10 0 = (2, 1, - 90, 0)"
  using convert_array_subtracts_location [OF pair_ops_laws, of 100 0 2 1 10 0] by simp

end
