(* ===== verification/Gds_Write.thy ===== *)
theory Gds_Write
  imports Gds_Math Transform Writers Util_Math
begin

unbundle bit_operations_syntax

text \<open>
  Writing GDSII records: \<^verbatim>\<open>src/cbag/gdsii/write_util.cpp\<close> and
  \<^verbatim>\<open>include/cbag/gdsii/record_type.h\<close>.  A stream is the list of the bytes written.  Coordinates are
  written as the 32 bits of their two's complement.  The product of two doubles is a parameter of the
  routines that compute one.
\<close>

section \<open>Record types\<close>

datatype record_type =
  HEADER | BGNLIB | LIBNAME | UNITS | ENDLIB | BGNSTR | STRNAME | ENDSTR | BOUNDARY | SREF | AREF | TEXT
| LAYER | DATATYPE | WIDTH | XY | ENDEL | SNAME | COLROW | TEXTTYPE | PRESENTATION | STRING | STRANS
| MAG | ANGLE | PROPATTR | PROPVALUE | BOX | BOXTYPE

fun record_code :: "record_type \<Rightarrow> 16 word" where
  "record_code HEADER = 0x0002"
| "record_code BGNLIB = 0x0102"
| "record_code LIBNAME = 0x0206"
| "record_code UNITS = 0x0305"
| "record_code ENDLIB = 0x0400"
| "record_code BGNSTR = 0x0502"
| "record_code STRNAME = 0x0606"
| "record_code ENDSTR = 0x0700"
| "record_code BOUNDARY = 0x0800"
| "record_code SREF = 0x0A00"
| "record_code AREF = 0x0B00"
| "record_code TEXT = 0x0C00"
| "record_code LAYER = 0x0D02"
| "record_code DATATYPE = 0x0E02"
| "record_code WIDTH = 0x0F03"
| "record_code XY = 0x1003"
| "record_code ENDEL = 0x1100"
| "record_code SNAME = 0x1206"
| "record_code COLROW = 0x1302"
| "record_code TEXTTYPE = 0x1602"
| "record_code PRESENTATION = 0x1701"
| "record_code STRING = 0x1906"
| "record_code STRANS = 0x1A01"
| "record_code MAG = 0x1B05"
| "record_code ANGLE = 0x1C05"
| "record_code PROPATTR = 0x2B02"
| "record_code PROPVALUE = 0x2C06"
| "record_code BOX = 0x2D00"
| "record_code BOXTYPE = 0x2E02"

fun record_name :: "record_type \<Rightarrow> string" where
  "record_name HEADER = ''HEADER''"
| "record_name BGNLIB = ''BGNLIB''"
| "record_name LIBNAME = ''LIBNAME''"
| "record_name UNITS = ''UNITS''"
| "record_name ENDLIB = ''ENDLIB''"
| "record_name BGNSTR = ''BGNSTR''"
| "record_name STRNAME = ''STRNAME''"
| "record_name ENDSTR = ''ENDSTR''"
| "record_name BOUNDARY = ''BOUNDARY''"
| "record_name SREF = ''SREF''"
| "record_name AREF = ''AREF''"
| "record_name TEXT = ''TEXT''"
| "record_name LAYER = ''LAYER''"
| "record_name DATATYPE = ''DATATYPE''"
| "record_name WIDTH = ''WIDTH''"
| "record_name XY = ''XY''"
| "record_name ENDEL = ''ENDEL''"
| "record_name SNAME = ''SNAME''"
| "record_name COLROW = ''COLROW''"
| "record_name TEXTTYPE = ''TEXTTYPE''"
| "record_name PRESENTATION = ''PRESENTATION''"
| "record_name STRING = ''STRING''"
| "record_name STRANS = ''STRANS''"
| "record_name MAG = ''MAG''"
| "record_name ANGLE = ''ANGLE''"
| "record_name PROPATTR = ''PROPATTR''"
| "record_name PROPVALUE = ''PROPVALUE''"
| "record_name BOX = ''BOX''"
| "record_name BOXTYPE = ''BOXTYPE''"

definition all_records :: "record_type list" where
  "all_records = [HEADER, BGNLIB, LIBNAME, UNITS, ENDLIB, BGNSTR, STRNAME, ENDSTR, BOUNDARY, SREF, AREF,
     TEXT, LAYER, DATATYPE, WIDTH, XY, ENDEL, SNAME, COLROW, TEXTTYPE, PRESENTATION, STRING, STRANS, MAG,
     ANGLE, PROPATTR, PROPVALUE, BOX, BOXTYPE]"

text \<open>An enumeration value that has been read from a file may be none of the enumerators.\<close>

definition record_to_string :: "16 word \<Rightarrow> string result" where
  "record_to_string rec =
     (case find (\<lambda>r. record_code r = rec) all_records of
        None \<Rightarrow> Inl Invalid_argument | Some r \<Rightarrow> Inr (record_name r))"

section \<open>Records\<close>

definition prop_inst_name :: "16 word" where
  "prop_inst_name = 1"

definition gds_version :: "16 word" where
  "gds_version = 5"

definition text_presentation :: "16 word" where
  "text_presentation = 5"

text \<open>The size field has 16 bits, so that rounding 65535 up to an even size gives zero.\<close>

definition gds_write ::
  "record_type \<Rightarrow> nat \<Rightarrow> 'a::len word list \<Rightarrow> byte list \<Rightarrow> byte list outcome" where
  "gds_write R num_data data out =
     (let unit_size = LENGTH('a) div 8;
          size_test = unit_size * num_data + 2 + 2 in
      if size_test > 65535 then (Some Assertion_failed, out)
      else
        let size = word_of_nat size_test :: 16 word;
            add_zero = (size mod 2 = 1);
            size = (if add_zero then size + 1 else size)
        in emit (write_bytes size @ write_bytes (record_code R) @ concat (map write_bytes data) @
             (if add_zero then [0] else [])) out)"

definition runS :: "('s \<Rightarrow> 's outcome) list \<Rightarrow> 's \<Rightarrow> 's outcome" where
  "runS fs = forS (\<lambda>f. f) fs"

definition write_grp_begin :: "record_type \<Rightarrow> 16 word list \<Rightarrow> byte list \<Rightarrow> byte list outcome" where
  "write_grp_begin R time_vec =
     (let data = time_vec @ time_vec in gds_write R (length data) data)"

definition write_empty :: "record_type \<Rightarrow> byte list \<Rightarrow> byte list outcome" where
  "write_empty R = gds_write R 0 ([] :: 16 word list)"

definition uchars :: "string \<Rightarrow> byte list" where
  "uchars name = map (\<lambda>c. of_char c) name"

definition write_name :: "record_type \<Rightarrow> string \<Rightarrow> byte list \<Rightarrow> byte list outcome" where
  "write_name R name = gds_write R (length name) (uchars name)"

definition write_int :: "record_type \<Rightarrow> 16 word \<Rightarrow> byte list \<Rightarrow> byte list outcome" where
  "write_int R val = gds_write R 1 [val]"

text \<open>\<^verbatim>\<open>interpret_as<uint32_t>\<close> of a coordinate, and the coordinates of points in order.\<close>

definition u32 :: "int \<Rightarrow> 32 word" where
  "u32 i = word_of_int i"

definition point_xys :: "point list \<Rightarrow> 32 word list" where
  "point_xys pts = concat (map (\<lambda>p. [u32 (fst p), u32 (snd p)]) pts)"

text \<open>The points and the first one again, which is undefined when there is none.\<close>

definition write_points :: "point list \<Rightarrow> byte list \<Rightarrow> byte list outcome" where
  "write_points pts out =
     (case pts of
        [] \<Rightarrow> (Some Undefined_behaviour, out)
      | p # _ \<Rightarrow> runS [gds_write XY (2 * (length pts + 1)) (point_xys pts),
                       emit (write_bytes (u32 (fst p))), emit (write_bytes (u32 (snd p)))] out)"

fun get_angle_flag :: "orientation \<Rightarrow> nat \<times> 16 word" where
  "get_angle_flag OR0 = (0, 0)"
| "get_angle_flag OR90 = (90, 0)"
| "get_angle_flag OR180 = (180, 0)"
| "get_angle_flag OR270 = (270, 0)"
| "get_angle_flag OMX = (0, 0x8000)"
| "get_angle_flag OMXR90 = (90, 0x8000)"
| "get_angle_flag OMY = (180, 0x8000)"
| "get_angle_flag OMYR90 = (270, 0x8000)"

text \<open>Conversion of an integer with at most 53 bits to \<^verbatim>\<open>double\<close> is exact.\<close>

definition dbl_of_nat :: "nat \<Rightarrow> dbl" where
  "dbl_of_nat n =
     (if n = 0 then 0
      else let t = top_bit n in
        push_bit 52 (word_of_nat (t + 1023)) OR take_bit 52 (push_bit (52 - t) (word_of_nat n)))"

definition dbl_of_int :: "int \<Rightarrow> dbl" where
  "dbl_of_int i = (if i < 0 then dbl_of_nat (nat (- i)) OR flag64 63 else dbl_of_nat (nat i))"

definition dbl_one :: dbl where
  "dbl_one = dbl_of_nat 1"

definition write_double :: "record_type \<Rightarrow> dbl \<Rightarrow> byte list \<Rightarrow> byte list outcome" where
  "write_double R d = tryS (double_to_gds d) (\<lambda>g. gds_write R 1 [g])"

text \<open>A product of a coordinate and an unsigned 64-bit number, stored in 32 bits.\<close>

definition mult_offset :: "int \<Rightarrow> cnt_t \<Rightarrow> int" where
  "mult_offset sp n = sint (ucast (word_of_int sp * n) :: 32 word)"

definition write_transform ::
  "'x xform_ops \<Rightarrow> 'x \<Rightarrow> dbl \<Rightarrow> cnt_t \<Rightarrow> cnt_t \<Rightarrow> int \<Rightarrow> int \<Rightarrow> byte list \<Rightarrow> byte list outcome" where
  "write_transform T xform mag nx ny spx spy =
     (case get_angle_flag (orient T xform) of (angle, bit_flag) \<Rightarrow>
       runS [write_int STRANS bit_flag,
         (if mag \<noteq> dbl_one then write_double MAG mag else (\<lambda>out. (None, out))),
         (if angle \<noteq> 0 then write_double ANGLE (dbl_of_nat angle) else (\<lambda>out. (None, out))),
         (if 1 < nx \<or> 1 < ny
          then (case convert_array T xform nx ny spx spy of (gds_nx, gds_ny, gds_spx, gds_spy) \<Rightarrow>
            let p1 = location T xform;
                p2 = xo_transform T xform (mult_offset gds_spx gds_nx, 0);
                p3 = xo_transform T xform (0, mult_offset gds_spy gds_ny)
            in runS [gds_write COLROW 2 [ucast gds_nx :: 16 word, ucast gds_ny],
                     gds_write XY 6 (point_xys [p1, p2, p3])])
          else gds_write XY 2 [u32 (xform_x T xform), u32 (xform_y T xform)])])"

section \<open>Elements\<close>

definition write_header :: "byte list \<Rightarrow> byte list outcome" where
  "write_header = write_int HEADER gds_version"

definition write_units :: "(dbl \<Rightarrow> dbl \<Rightarrow> dbl) \<Rightarrow> dbl \<Rightarrow> dbl \<Rightarrow> byte list \<Rightarrow> byte list outcome" where
  "write_units fmul resolution user_unit =
     tryS (double_to_gds resolution) (\<lambda>g1.
     tryS (double_to_gds (fmul resolution user_unit)) (\<lambda>g2. gds_write UNITS 2 [g1, g2]))"

definition write_lib_begin :: "16 word list \<Rightarrow> byte list \<Rightarrow> byte list outcome" where
  "write_lib_begin time_vec = write_grp_begin BGNLIB time_vec"

definition write_lib_name :: "string \<Rightarrow> byte list \<Rightarrow> byte list outcome" where
  "write_lib_name name = write_name LIBNAME name"

definition write_lib_end :: "byte list \<Rightarrow> byte list outcome" where
  "write_lib_end = write_empty ENDLIB"

definition write_struct_begin :: "16 word list \<Rightarrow> byte list \<Rightarrow> byte list outcome" where
  "write_struct_begin time_vec = write_grp_begin BGNSTR time_vec"

definition write_struct_name :: "string \<Rightarrow> byte list \<Rightarrow> byte list outcome" where
  "write_struct_name name = write_name STRNAME name"

definition write_struct_end :: "byte list \<Rightarrow> byte list outcome" where
  "write_struct_end = write_empty ENDSTR"

definition write_element_end :: "byte list \<Rightarrow> byte list outcome" where
  "write_element_end = write_empty ENDEL"

definition write_prop_inst_name :: "string \<Rightarrow> byte list \<Rightarrow> byte list outcome" where
  "write_prop_inst_name name = runS [write_int PROPATTR prop_inst_name, write_name PROPVALUE name]"

definition write_polygon ::
  "16 word \<Rightarrow> 16 word \<Rightarrow> point list \<Rightarrow> byte list \<Rightarrow> byte list outcome" where
  "write_polygon layer purpose poly =
     runS [write_empty BOUNDARY, write_int LAYER layer, write_int DATATYPE purpose, write_points poly,
       write_element_end]"

definition write_box :: "16 word \<Rightarrow> 16 word \<Rightarrow> box_t \<Rightarrow> byte list \<Rightarrow> byte list outcome" where
  "write_box layer purpose b =
     (let x0 = box_xl b; x1 = box_xh b; y0 = box_yl b; y1 = box_yh b in
      runS [write_empty BOX, write_int LAYER layer, write_int BOXTYPE purpose,
        gds_write XY 10 (point_xys [(x0, y0), (x1, y0), (x1, y1), (x0, y1), (x0, y0)]),
        write_element_end])"

definition write_arr_instance ::
  "'x xform_ops \<Rightarrow> string \<Rightarrow> string \<Rightarrow> 'x \<Rightarrow> cnt_t \<Rightarrow> cnt_t \<Rightarrow> int \<Rightarrow> int \<Rightarrow> byte list \<Rightarrow> byte list outcome" where
  "write_arr_instance T cell_name inst_name xform nx ny spx spy =
     runS [write_empty AREF, write_name SNAME cell_name, write_transform T xform dbl_one nx ny spx spy,
       write_prop_inst_name inst_name, write_element_end]"

definition gds_write_instance ::
  "'x xform_ops \<Rightarrow> string \<Rightarrow> string \<Rightarrow> 'x \<Rightarrow> cnt_t \<Rightarrow> cnt_t \<Rightarrow> int \<Rightarrow> int \<Rightarrow> byte list \<Rightarrow> byte list outcome" where
  "gds_write_instance T cell_name inst_name xform nx ny spx spy =
     (if 1 < nx \<or> 1 < ny then write_arr_instance T cell_name inst_name xform nx ny spx spy
      else runS [write_empty SREF, write_name SNAME cell_name, write_transform T xform dbl_one 1 1 0 0,
             write_prop_inst_name inst_name, write_element_end])"

definition gds_write_text ::
  "(dbl \<Rightarrow> dbl \<Rightarrow> dbl) \<Rightarrow> 'x xform_ops \<Rightarrow> 16 word \<Rightarrow> 16 word \<Rightarrow> string \<Rightarrow> 'x \<Rightarrow> int \<Rightarrow> dbl
     \<Rightarrow> byte list \<Rightarrow> byte list outcome" where
  "gds_write_text fmul T layer purpose text xform height resolution =
     runS [write_empty TEXT, write_int LAYER layer, write_int TEXTTYPE purpose,
       write_int PRESENTATION text_presentation,
       write_transform T xform (fmul (dbl_of_int height) resolution) 1 1 0 0,
       write_name STRING text, write_element_end]"

end
