(* ===== verification/Lay_Instance.thy ===== *)
theory Lay_Instance
  imports Params Transform
begin

text \<open>
  Layout instances: \<^verbatim>\<open>src/cbag/layout/instance.cpp\<close>.  The master of an instance is a cellview or a
  reference to one by names.  Cellviews are a type parameter; what the functions use of them, the name
  and the bounding box on a layer, is an argument.
\<close>

record cellview_ref =
  cr_lib :: string
  cr_cell :: string
  cr_view :: string
  cr_params :: param_map

datatype 'c lay_master = Master_cv 'c | Master_ref cellview_ref

record ('c, 'x) lay_instance =
  li_master :: "'c lay_master"
  li_name :: string
  li_xform :: 'x
  li_nx :: cnt_t
  li_ny :: cnt_t
  li_spx :: int
  li_spy :: int

definition make_cellview_ref :: "string \<Rightarrow> string \<Rightarrow> string \<Rightarrow> cellview_ref" where
  "make_cellview_ref lib cell view = \<lparr>cr_lib = lib, cr_cell = cell, cr_view = view, cr_params = []\<rparr>"

definition make_ref_instance ::
  "string \<Rightarrow> string \<Rightarrow> string \<Rightarrow> string \<Rightarrow> 'x \<Rightarrow> cnt_t \<Rightarrow> cnt_t \<Rightarrow> int \<Rightarrow> int \<Rightarrow> ('c, 'x) lay_instance" where
  "make_ref_instance name lib cell view xform nx ny spx spy =
     \<lparr>li_master = Master_ref (make_cellview_ref lib cell view), li_name = name, li_xform = xform,
      li_nx = nx, li_ny = ny, li_spx = spx, li_spy = spy\<rparr>"

definition make_cv_instance ::
  "string \<Rightarrow> 'c \<Rightarrow> 'x \<Rightarrow> cnt_t \<Rightarrow> cnt_t \<Rightarrow> int \<Rightarrow> int \<Rightarrow> ('c, 'x) lay_instance" where
  "make_cv_instance name master xform nx ny spx spy =
     \<lparr>li_master = Master_cv master, li_name = name, li_xform = xform,
      li_nx = nx, li_ny = ny, li_spx = spx, li_spy = spy\<rparr>"

fun master_equal :: "('c \<Rightarrow> 'c \<Rightarrow> bool) \<Rightarrow> 'c lay_master \<Rightarrow> 'c lay_master \<Rightarrow> bool" where
  "master_equal eq (Master_cv a) (Master_cv b) = eq a b"
| "master_equal eq (Master_ref a) (Master_ref b) = (a = b)"
| "master_equal eq _ _ = False"

definition lay_instance_equal ::
  "('c \<Rightarrow> 'c \<Rightarrow> bool) \<Rightarrow> ('c, 'x) lay_instance \<Rightarrow> ('c, 'x) lay_instance \<Rightarrow> bool" where
  "lay_instance_equal eq a b \<longleftrightarrow> master_equal eq (li_master a) (li_master b) \<and> li_name a = li_name b \<and>
     li_xform a = li_xform b \<and> li_nx a = li_nx b \<and> li_ny a = li_ny b \<and> li_spx a = li_spx b \<and>
     li_spy a = li_spy b"

definition li_is_reference :: "('c, 'x) lay_instance \<Rightarrow> bool" where
  "li_is_reference i = (case li_master i of Master_cv c \<Rightarrow> False | Master_ref r \<Rightarrow> True)"

definition li_get_cellview :: "('c, 'x) lay_instance \<Rightarrow> 'c option" where
  "li_get_cellview i = (case li_master i of Master_cv c \<Rightarrow> Some c | Master_ref r \<Rightarrow> None)"

definition li_get_lib_name :: "('c, 'x) lay_instance \<Rightarrow> string \<Rightarrow> string" where
  "li_get_lib_name i output_lib =
     (case li_master i of Master_cv c \<Rightarrow> output_lib | Master_ref r \<Rightarrow> cr_lib r)"

text \<open>The map of new names may be absent.\<close>

definition li_get_cell_name ::
  "('c \<Rightarrow> string) \<Rightarrow> ('c, 'x) lay_instance \<Rightarrow> (string \<rightharpoonup> string) option \<Rightarrow> string" where
  "li_get_cell_name cv_name i rename_map =
     (case li_master i of
        Master_cv c \<Rightarrow>
          (case rename_map of None \<Rightarrow> cv_name c
           | Some m \<Rightarrow> (case m (cv_name c) of None \<Rightarrow> cv_name c | Some n \<Rightarrow> n))
      | Master_ref r \<Rightarrow> cr_cell r)"

definition li_get_view_name :: "('c, 'x) lay_instance \<Rightarrow> string \<Rightarrow> string" where
  "li_get_view_name i default_view =
     (case li_master i of Master_cv c \<Rightarrow> default_view | Master_ref r \<Rightarrow> cr_view r)"

definition li_get_params :: "('c, 'x) lay_instance \<Rightarrow> param_map option" where
  "li_get_params i = (case li_master i of Master_cv c \<Rightarrow> None | Master_ref r \<Rightarrow> Some (cr_params r))"

definition li_get_bbox ::
  "(box_t \<Rightarrow> 'x \<Rightarrow> box_t) \<Rightarrow> ('c \<Rightarrow> string \<Rightarrow> string \<Rightarrow> box_t) \<Rightarrow> ('c, 'x) lay_instance
     \<Rightarrow> string \<Rightarrow> string \<Rightarrow> box_t" where
  "li_get_bbox bp_transform cv_bbox i layer purpose =
     box_transform bp_transform
       (case li_master i of Master_cv c \<Rightarrow> cv_bbox c layer purpose | Master_ref r \<Rightarrow> make_box 0 0 0 0)
       (li_xform i)"

definition li_set_master :: "('c, 'x) lay_instance \<Rightarrow> 'c \<Rightarrow> ('c, 'x) lay_instance" where
  "li_set_master i c = i\<lparr>li_master := Master_cv c\<rparr>"

definition li_set_param :: "('c, 'x) lay_instance \<Rightarrow> string \<Rightarrow> param_t \<Rightarrow> ('c, 'x) lay_instance" where
  "li_set_param i name val =
     (case li_master i of Master_cv c \<Rightarrow> i
      | Master_ref r \<Rightarrow> i\<lparr>li_master := Master_ref (r\<lparr>cr_params := set_param (cr_params r) name val\<rparr>)\<rparr>)"

end
