(* ===== verification/Gds_Read.thy ===== *)
theory Gds_Read
  imports Gds_Write Lay_Instance
begin

unbundle bit_operations_syntax

text \<open>
  Reading GDSII records: \<^verbatim>\<open>src/cbag/gdsii/read_util.cpp\<close>.  A reader takes the bytes that are left and
  returns a value and the bytes after it, or an error.  A record type that has been read is its
  16-bit code.
\<close>

section \<open>Readers\<close>

type_synonym 'a reader = "byte list \<Rightarrow> ('a \<times> byte list) result"

definition rret :: "'a \<Rightarrow> 'a reader" where
  "rret x s = Inr (x, s)"

definition rbind :: "'a reader \<Rightarrow> ('a \<Rightarrow> 'b reader) \<Rightarrow> 'b reader" where
  "rbind m f s = (case m s of Inl e \<Rightarrow> Inl e | Inr (x, s') \<Rightarrow> f x s')"

definition rfail :: "cbag_error \<Rightarrow> 'a reader" where
  "rfail e s = Inl e"

definition rbytes :: "'a::len word reader" where
  "rbytes s = Inr (read_bytes s)"

type_synonym rec_header = "16 word \<times> 64 word"

definition read_record_header :: "rec_header reader" where
  "read_record_header =
     rbind rbytes (\<lambda>size :: 16 word. rbind rbytes (\<lambda>record_val :: 16 word.
       rret (record_val, ucast size - 4)))"

text \<open>The stream cannot go back once it has failed at its end; then every byte to come is missing.\<close>

definition peek_record_header :: "rec_header reader" where
  "peek_record_header s =
     (case read_record_header s of
        Inl e \<Rightarrow> Inl e
      | Inr (ans, _) \<Rightarrow> Inr (ans, if length s < 4 then [] else s))"

definition check_record_header :: "record_type \<Rightarrow> nat \<Rightarrow> nat \<Rightarrow> 64 word reader" where
  "check_record_header R unit_size num_data =
     rbind read_record_header (\<lambda>(actual, size).
       if actual \<noteq> record_code R then rfail Runtime_error
       else
         let ans = size div of_nat unit_size in
         if size mod of_nat unit_size \<noteq> 0 then rfail Runtime_error
         else if num_data \<noteq> 0 \<and> ans \<noteq> of_nat num_data then rfail Runtime_error
         else rret ans)"

definition stream_ignore :: "64 word \<Rightarrow> unit reader" where
  "stream_ignore n s = Inr ((), drop (unat n) s)"

definition read_skip :: "record_type \<Rightarrow> nat \<Rightarrow> nat \<Rightarrow> unit reader" where
  "read_skip R unit_size num_data =
     rbind (check_record_header R unit_size num_data) (\<lambda>num. stream_ignore (num * of_nat unit_size))"

definition read_int :: "record_type \<Rightarrow> 16 word reader" where
  "read_int R = rbind (check_record_header R 2 1) (\<lambda>_. rbytes)"

definition read_col_row :: "(16 word \<times> 16 word) reader" where
  "read_col_row = rbind (check_record_header COLROW 2 2) (\<lambda>_.
     rbind rbytes (\<lambda>nx. rbind rbytes (\<lambda>ny. rret (nx, ny))))"

definition read_double :: "record_type \<Rightarrow> real reader" where
  "read_double R = rbind (check_record_header R 8 1) (\<lambda>_.
     rbind rbytes (\<lambda>g :: 64 word. rret (gds_to_double g)))"

fun read_chars :: "nat \<Rightarrow> string reader" where
  "read_chars 0 = rret []"
| "read_chars (Suc n) = rbind rbytes (\<lambda>b :: byte. rbind (read_chars n) (\<lambda>cs. rret (char_of (unat b) # cs)))"

text \<open>A size below four wraps to a number that no string can have.\<close>

definition read_name :: "record_type \<Rightarrow> string reader" where
  "read_name R = rbind (check_record_header R 1 0) (\<lambda>num.
     if 2 ^ 63 \<le> unat num then rfail Length_error else read_chars (unat num))"

definition read_grp_begin :: "record_type \<Rightarrow> unit reader" where
  "read_grp_begin R = read_skip R 2 12"

definition read_header :: "unit reader" where
  "read_header = read_skip HEADER 2 1"

definition read_lib_begin :: "unit reader" where
  "read_lib_begin = read_grp_begin BGNLIB"

definition read_lib_name :: "string reader" where
  "read_lib_name = read_name LIBNAME"

definition read_units :: "unit reader" where
  "read_units = read_skip UNITS 8 2"

definition read_struct_name :: "string reader" where
  "read_struct_name = read_name STRNAME"

definition read_ele_end :: "unit reader" where
  "read_ele_end = rbind (check_record_header ENDEL 2 0) (\<lambda>_. rret ())"

section \<open>Transformations\<close>

text \<open>Conversion of a \<^verbatim>\<open>double\<close> to \<^verbatim>\<open>int\<close> cuts off the fraction; out of range it is undefined.\<close>

definition dbl_to_int :: "real \<Rightarrow> int result" where
  "dbl_to_int x =
     (let i = (if x < 0 then - \<lfloor>- x\<rfloor> else \<lfloor>x\<rfloor>) in
      if int32 i then Inr i else Inl Undefined_behaviour)"

definition lift_result :: "'a result \<Rightarrow> 'a reader" where
  "lift_result r s = (case r of Inl e \<Rightarrow> Inl e | Inr x \<Rightarrow> Inr (x, s))"

text \<open>The magnification and the angle, each if there is a record of it.\<close>

definition read_mag_angle :: "(real \<times> real) reader" where
  "read_mag_angle =
     rbind peek_record_header (\<lambda>(rec, _).
       if rec = record_code MAG
       then rbind (read_double MAG) (\<lambda>mag.
            rbind peek_record_header (\<lambda>(rec, _).
              if rec = record_code ANGLE then rbind (read_double ANGLE) (\<lambda>a. rret (mag, a))
              else rret (mag, 0)))
       else if rec = record_code ANGLE then rbind (read_double ANGLE) (\<lambda>a. rret (1, a))
       else rret (1, 0))"

definition rotate_xform :: "'x xform_ops \<Rightarrow> 'x \<Rightarrow> int \<Rightarrow> 'x result" where
  "rotate_xform T x angle =
     (if angle = 0 then Inr x
      else if angle = 90 then Inr (transform_by T x (make_xform T 0 0 OR90))
      else if angle = 180 then Inr (transform_by T x (make_xform T 0 0 OR180))
      else if angle = 270 then Inr (transform_by T x (make_xform T 0 0 OR270))
      else Inl Runtime_error)"

definition read_transform_info :: "'x xform_ops \<Rightarrow> ('x \<times> real) reader" where
  "read_transform_info T =
     rbind (read_int STRANS) (\<lambda>bit_flag.
       let ans = make_xform T 0 0 OR0;
           ans = (if bit_flag AND push_bit 15 1 \<noteq> 0 then set_orient T ans OMX else ans)
       in rbind read_mag_angle (\<lambda>(mag, ang_dbl).
          rbind (lift_result (dbl_to_int ang_dbl)) (\<lambda>angle.
          rbind (lift_result (rotate_xform T ans angle)) (\<lambda>ans. rret (ans, mag)))))"

definition read_point :: "point reader" where
  "read_point = rbind rbytes (\<lambda>x :: 32 word. rbind rbytes (\<lambda>y :: 32 word. rret (sint x, sint y)))"

fun read_points :: "nat \<Rightarrow> point list reader" where
  "read_points 0 = rret []"
| "read_points (Suc n) = rbind read_point (\<lambda>p. rbind (read_points n) (\<lambda>ps. rret (p # ps)))"

definition read_transform_mag :: "'x xform_ops \<Rightarrow> ('x \<times> real) reader" where
  "read_transform_mag T =
     rbind (read_transform_info T) (\<lambda>(ans, mag).
     rbind (check_record_header XY 4 2) (\<lambda>_.
     rbind read_point (\<lambda>(x, y). rret (move_by T ans x y, mag))))"

definition read_transform :: "'x xform_ops \<Rightarrow> 'x reader" where
  "read_transform T = rbind (read_transform_mag T) (\<lambda>(x, _). rret x)"

section \<open>Elements\<close>

type_synonym gds_layer_t = "16 word \<times> 16 word"

definition read_text :: "'x xform_ops \<Rightarrow> (gds_layer_t \<times> 'x \<times> string \<times> real) reader" where
  "read_text T =
     rbind (read_int LAYER) (\<lambda>glay.
     rbind (read_int TEXTTYPE) (\<lambda>gpurp.
     rbind (read_skip PRESENTATION 2 1) (\<lambda>_.
     rbind (read_transform_mag T) (\<lambda>(xform, mag).
     rbind (read_name STRING) (\<lambda>text.
     rbind read_ele_end (\<lambda>_. rret ((glay, gpurp), xform, text, mag)))))))"

definition read_box :: "(gds_layer_t \<times> point list) reader" where
  "read_box =
     rbind (read_int LAYER) (\<lambda>glay.
     rbind (read_int BOXTYPE) (\<lambda>gpurp.
     rbind (check_record_header XY 4 10) (\<lambda>_.
     rbind (read_points 5) (\<lambda>pts.
     rbind read_ele_end (\<lambda>_. rret ((glay, gpurp), pts))))))"

text \<open>As for names, a wrapped size is too large for a vector of points.\<close>

definition read_boundary :: "(gds_layer_t \<times> point list) reader" where
  "read_boundary =
     rbind (read_int LAYER) (\<lambda>glay.
     rbind (read_int DATATYPE) (\<lambda>gpurp.
     rbind (check_record_header XY 4 0) (\<lambda>n. let num = n div 2 in
     if 2 ^ 60 \<le> unat num then rfail Length_error else
     rbind (read_points (unat num)) (\<lambda>pts.
     rbind read_ele_end (\<lambda>_. rret ((glay, gpurp), pts))))))"

text \<open>The name of an instance and the counter for those without one.\<close>

definition read_inst_name :: "64 word \<Rightarrow> (string \<times> 64 word) reader" where
  "read_inst_name cnt =
     rbind read_record_header (\<lambda>(rtype, _).
       if rtype = record_code ENDEL then rret (''X'' @ cnt_to_string cnt, cnt + 1)
       else if rtype = record_code PROPATTR
       then rbind rbytes (\<lambda>prop_code :: 16 word.
            if prop_code \<noteq> prop_inst_name then rfail Runtime_error
            else rbind (read_name PROPVALUE) (\<lambda>inst_name. rbind read_ele_end (\<lambda>_. rret (inst_name, cnt))))
       else rfail Runtime_error)"

definition read_instance ::
  "'x xform_ops \<Rightarrow> (string \<rightharpoonup> 'c) \<Rightarrow> 64 word \<Rightarrow> (('c, 'x) lay_instance \<times> 64 word) reader" where
  "read_instance T master_map cnt =
     rbind (read_name SNAME) (\<lambda>cell_name.
       (case master_map cell_name of
          None \<Rightarrow> rfail Runtime_error
        | Some master \<Rightarrow>
            rbind (read_transform T) (\<lambda>xform.
            rbind (read_inst_name cnt) (\<lambda>(inst_name, cnt).
            rret (make_cv_instance inst_name master xform 1 1 0 0, cnt)))))"

text \<open>Division of a coordinate by an unsigned 16-bit number, which is an \<^verbatim>\<open>int\<close> division.\<close>

definition div_coord :: "int \<Rightarrow> 16 word \<Rightarrow> int result" where
  "div_coord c n = (if n = 0 then Inl Undefined_behaviour else Inr (c sdiv uint n))"

definition read_arr_instance ::
  "'x xform_ops \<Rightarrow> (string \<rightharpoonup> 'c) \<Rightarrow> 64 word \<Rightarrow> (('c, 'x) lay_instance \<times> 64 word) reader" where
  "read_arr_instance T master_map cnt =
     rbind (read_name SNAME) (\<lambda>cell_name.
       (case master_map cell_name of
          None \<Rightarrow> rfail Runtime_error
        | Some master \<Rightarrow>
            rbind (read_transform_info T) (\<lambda>(xform, _).
            rbind read_col_row (\<lambda>(gds_nx, gds_ny).
            rbind (check_record_header XY 4 6) (\<lambda>_.
            rbind read_point (\<lambda>p0. rbind read_point (\<lambda>p1. rbind read_point (\<lambda>p2.
            rbind (read_inst_name cnt) (\<lambda>(inst_name, cnt).
              let xform = move_by T xform (fst p0) (snd p0) in
              rbind (lift_result (div_coord (fst p1) gds_nx)) (\<lambda>gds_spx.
              rbind (lift_result (div_coord (snd p2) gds_ny)) (\<lambda>gds_spy.
                case convert_gds_array T xform (ucast gds_nx) (ucast gds_ny) gds_spx gds_spy of
                  (nx, ny, spx, spy) \<Rightarrow>
                    rret (make_cv_instance inst_name master xform nx ny spx spy, cnt))))))))))))"

end
