(* ===== verification/Gds_Records.thy ===== *)
theory Gds_Records
  imports Gds_Read
begin

text \<open>
  The bytes of single GDSII records, what the writers append and what the readers get back from them.
\<close>

section \<open>Records\<close>

definition rec_bytes :: "record_type \<Rightarrow> nat \<Rightarrow> byte list \<Rightarrow> byte list" where
  "rec_bytes R n payload = write_bytes (word_of_nat (n + 4) :: 16 word) @ write_bytes (record_code R) @ payload"

lemma rbind_simps [simp]:
  "m s = Inr (x, s') \<Longrightarrow> rbind m f s = f x s'"
  "m s = Inl e \<Longrightarrow> rbind m f s = Inl e"
  by (simp_all add: rbind_def)

lemma rret_simp [simp]: "rret x s = Inr (x, s)"
  by (simp add: rret_def)

lemma rbytes_simps [simp]:
  "rbytes (write_bytes (v :: 16 word) @ s) = Inr (v, s)"
  "rbytes (write_bytes (w :: 32 word) @ s) = Inr (w, s)"
  "rbytes (write_bytes (x :: 64 word) @ s) = Inr (x, s)"
  by (simp_all add: rbytes_def read_write_bytes)

lemma read_record_header_rec [simp]:
  assumes "n + 4 < 2 ^ 16"
  shows "read_record_header (rec_bytes R n p @ s) = Inr ((record_code R, word_of_nat n), p @ s)"
proof -
  have "unat (word_of_nat (n + 4) :: 16 word) = n + 4"
    using assms unfolding unsigned_of_nat by (simp add: take_bit_nat_eq_self)
  then have "ucast (word_of_nat (n + 4) :: 16 word) = (word_of_nat (n + 4) :: 64 word)"
    by (metis of_nat_unat)
  then show ?thesis by (simp add: read_record_header_def rec_bytes_def)
qed

lemma unat_small: "j < 2 ^ 16 \<Longrightarrow> unat (word_of_nat j :: 64 word) = j"
  unfolding unsigned_of_nat by (simp add: take_bit_nat_eq_self)

lemma word_div_mod_small:
  assumes "k * m < 2 ^ 16" and "0 < k" and "k < 2 ^ 16"
  shows "(word_of_nat (k * m) :: 64 word) div word_of_nat k = word_of_nat m"
    and "(word_of_nat (k * m) :: 64 word) mod word_of_nat k = 0"
proof -
  have "m \<le> k * m" using assms(2) by simp
  then have "m < 2 ^ 16" using assms(1) by (rule le_less_trans)
  with assms show "(word_of_nat (k * m) :: 64 word) div word_of_nat k = word_of_nat m"
    "(word_of_nat (k * m) :: 64 word) mod word_of_nat k = 0"
    by (simp_all only: word_unat_eq_iff unat_div unat_mod unat_small unsigned_0) simp_all
qed

lemma check_record_header_rec:
  assumes "n + 4 < 2 ^ 16" and "0 < k" and "k < 2 ^ 16" and "n = k * m" and "num = 0 \<or> num = m"
  shows "check_record_header R k num (rec_bytes R n p @ s) = Inr (word_of_nat m, p @ s)"
  using assms word_div_mod_small [of k m]
  by (auto simp: check_record_header_def Let_def simp del: of_nat_mult)

text \<open>A writer that succeeds, by the bytes it writes.\<close>

definition writes :: "(byte list \<Rightarrow> byte list outcome) \<Rightarrow> byte list \<Rightarrow> bool" where
  "writes f b \<longleftrightarrow> (\<forall>out. f out = (None, out @ b))"

lemma writes_emit: "writes (emit b) b"
  by (simp add: writes_def)

lemma writes_nothing: "writes (\<lambda>out. (None, out)) []"
  by (simp add: writes_def)

lemma writes_runS: "list_all2 writes fs bs \<Longrightarrow> writes (runS fs) (concat bs)"
  by (induction fs bs rule: list_all2_induct) (simp_all add: writes_def runS_def)

lemma writes_record:
  fixes data :: "'a::len word list"
  assumes "n = LENGTH('a) div 8 * num" and "n + 4 < 2 ^ 16" and "even n"
  shows "writes (gds_write R num data) (rec_bytes R n (concat (map write_bytes data)))"
proof -
  have "(word_of_nat (n + 4) :: 16 word) mod 2 = 0"
    using assms(2,3) by (simp add: word_unat_eq_iff unat_mod unsigned_of_nat take_bit_nat_eq_self del: of_nat_add)
  then show ?thesis
    using assms unfolding writes_def gds_write_def Let_def assms(1) [symmetric]
    by (simp add: rec_bytes_def ac_simps)
qed

lemma writes_int: "writes (write_int R v) (rec_bytes R 2 (write_bytes v))"
  using writes_record [of 2 1 R "[v]"] by (simp add: write_int_def)

lemma writes_empty: "writes (write_empty R) (rec_bytes R 0 [])"
  using writes_record [of 0 0 R "[] :: 16 word list"] by (simp add: write_empty_def)

lemma read_int_rec [simp]: "read_int R (rec_bytes R 2 (write_bytes v) @ s) = Inr (v, s)"
  using check_record_header_rec [of 2 2 1 1 R "write_bytes v" s] by (simp add: read_int_def)

lemma read_skip_rec [simp]: "read_skip R 2 (Suc 0) (rec_bytes R 2 (write_bytes (v :: 16 word)) @ s) = Inr ((), s)"
  using check_record_header_rec [of 2 2 1 1 R "write_bytes v" s]
  by (simp add: read_skip_def stream_ignore_def)

lemma read_ele_end_rec [simp]: "read_ele_end (rec_bytes ENDEL 0 [] @ s) = Inr ((), s)"
  using check_record_header_rec [of 0 2 0 0 ENDEL "[]" s] by (simp add: read_ele_end_def)

section \<open>Names\<close>

definition padded :: "string \<Rightarrow> string" where
  "padded name = (if odd (length name) then name @ [CHR 0x00] else name)"

definition name_fits :: "string \<Rightarrow> bool" where
  "name_fits name \<longleftrightarrow> length name \<le> 65530"

lemma write_bytes_byte [simp]: "write_bytes (b :: byte) = [b]"
proof -
  have "b AND 0xff = take_bit 8 b" by (simp add: take_bit_eq_mask mask_eq_exp_minus_1)
  moreover have "take_bit 8 b = b" by (intro bit_word_eqI) (auto simp: bit_simps)
  ultimately have "b AND 0xff = b" by simp
  then show ?thesis by (simp add: write_bytes_def)
qed

lemma concat_bytes [simp]: "concat (map write_bytes bs) = (bs :: byte list)"
  by (induction bs) simp_all

lemma uchars_simps [simp]:
  "uchars (a @ b) = uchars a @ uchars b" "uchars [CHR 0x00] = [0]" "length (uchars a) = length a"
  by (simp_all add: uchars_def)

lemma writes_name:
  assumes "name_fits name"
  shows "writes (write_name R name) (rec_bytes R (length (padded name)) (uchars (padded name)))"
proof (cases "even (length name)")
  case True
  then show ?thesis
    using writes_record [of "length name" "length name" R "uchars name"] assms
    by (simp add: write_name_def padded_def name_fits_def)
next
  case False
  let ?n = "length name"
  have "(word_of_nat (?n + 4) :: 16 word) mod 2 = 1"
    using assms False
    by (simp add: word_unat_eq_iff unat_mod unsigned_of_nat take_bit_nat_eq_self name_fits_def
        odd_iff_mod_2_eq_one mod_add_left_eq [of _ 2 4, symmetric] del: of_nat_add)
  then show ?thesis
    using assms False unfolding writes_def write_name_def gds_write_def Let_def
    by (simp add: rec_bytes_def padded_def name_fits_def uchars_simps ac_simps)
qed

lemma length_padded: "name_fits name \<Longrightarrow> length (padded name) + 4 < 2 ^ 16" "even (length (padded name))"
  by (auto simp: padded_def name_fits_def)

lemma char_of_byte [simp]: "char_of (unat (of_char c :: byte)) = c"
proof -
  have "unat (word_of_nat (of_char c) :: byte) = of_char c"
    using nat_of_char_less_256 [of c] by (simp add: unsigned_of_nat take_bit_nat_eq_self)
  then show ?thesis by (simp add: of_nat_of_char)
qed

lemma read_chars_uchars: "read_chars (length cs) (uchars cs @ s) = Inr (cs, s)"
proof (induction cs)
  case (Cons c cs)
  have "rbytes (of_char c # uchars cs @ s) = Inr (of_char c :: byte, uchars cs @ s)"
    using read_write_bytes [where val = "of_char c :: byte" and s = "uchars cs @ s"] by (simp add: rbytes_def)
  with Cons show ?case by (simp add: uchars_def)
qed (simp add: uchars_def)

lemma read_name_rec:
  assumes "length name + 4 < 2 ^ 16"
  shows "read_name R (rec_bytes R (length name) (uchars name) @ s) = Inr (name, s)"
proof -
  have "check_record_header R 1 0 (rec_bytes R (length name) (uchars name) @ s)
      = Inr (word_of_nat (length name), uchars name @ s)"
    using assms by (intro check_record_header_rec) auto
  moreover have "unat (word_of_nat (length name) :: 64 word) = length name"
    using assms by (intro unat_small) simp
  ultimately show ?thesis
    using assms by (simp add: read_name_def read_chars_uchars)
qed

lemma read_padded [simp]:
  "name_fits name \<Longrightarrow>
   read_name R (rec_bytes R (length (padded name)) (uchars (padded name)) @ s) = Inr (padded name, s)"
  by (rule read_name_rec [OF length_padded(1)])

section \<open>Points\<close>

definition point_fits :: "point \<Rightarrow> bool" where
  "point_fits p \<longleftrightarrow> int32 (fst p) \<and> int32 (snd p)"

definition xy_bytes :: "point list \<Rightarrow> byte list" where
  "xy_bytes pts = concat (map write_bytes (point_xys pts))"

lemma sint_u32: "int32 i \<Longrightarrow> sint (u32 i) = i"
  unfolding u32_def int32_def signed_of_int by (simp add: signed_take_bit_int_eq_self)

lemma xy_bytes_simps [simp]:
  "xy_bytes [] = []"
  "xy_bytes (p # pts) = write_bytes (u32 (fst p)) @ write_bytes (u32 (snd p)) @ xy_bytes pts"
  by (simp_all add: xy_bytes_def point_xys_def)

lemma xy_bytes_append: "xy_bytes (ps @ qs) = xy_bytes ps @ xy_bytes qs"
  by (simp add: xy_bytes_def point_xys_def)

lemma read_point_xy:
  "point_fits p \<Longrightarrow> read_point (write_bytes (u32 (fst p)) @ write_bytes (u32 (snd p)) @ s) = Inr (p, s)"
  by (simp add: read_point_def sint_u32 point_fits_def)

lemma read_points_xy:
  "\<forall>p\<in>set pts. point_fits p \<Longrightarrow> read_points (length pts) (xy_bytes pts @ s) = Inr (pts, s)"
  by (induction pts) (simp_all add: read_point_xy)

lemma length_point_xys [simp]: "length (point_xys pts) = 2 * length pts"
  by (induction pts) (simp_all add: point_xys_def)

lemma writes_xy:
  assumes "8 * length pts + 4 < 2 ^ 16" and "m = 2 * length pts"
  shows "writes (gds_write XY m (point_xys pts)) (rec_bytes XY (8 * length pts) (xy_bytes pts))"
  using writes_record [of "8 * length pts" m XY "point_xys pts"] assms by (simp add: xy_bytes_def)

lemma check_xy_rec [simp]:
  "check_record_header XY 4 2 (rec_bytes XY 8 p @ s) = Inr (2, p @ s)"
  "check_record_header XY 4 6 (rec_bytes XY 24 p @ s) = Inr (6, p @ s)"
  "check_record_header XY 4 10 (rec_bytes XY 40 p @ s) = Inr (10, p @ s)"
proof -
  have "check_record_header XY 4 2 (rec_bytes XY 8 p @ s) = Inr (word_of_nat 2, p @ s)"
    "check_record_header XY 4 6 (rec_bytes XY 24 p @ s) = Inr (word_of_nat 6, p @ s)"
    "check_record_header XY 4 10 (rec_bytes XY 40 p @ s) = Inr (word_of_nat 10, p @ s)"
    by (rule check_record_header_rec; simp)+
  then show "check_record_header XY 4 2 (rec_bytes XY 8 p @ s) = Inr (2, p @ s)"
    "check_record_header XY 4 6 (rec_bytes XY 24 p @ s) = Inr (6, p @ s)"
    "check_record_header XY 4 10 (rec_bytes XY 40 p @ s) = Inr (10, p @ s)" by simp_all
qed

section \<open>Magnification and angle\<close>

definition dbl_converts :: "dbl \<Rightarrow> bool" where
  "dbl_converts d \<longleftrightarrow> (\<exists>g. double_to_gds d = Inr g)"

definition gds_of :: "dbl \<Rightarrow> 64 word" where
  "gds_of d = (case double_to_gds d of Inl e \<Rightarrow> 0 | Inr g \<Rightarrow> g)"

definition mag_part :: "dbl \<Rightarrow> byte list" where
  "mag_part mag = (if mag = dbl_one then [] else rec_bytes MAG 8 (write_bytes (gds_of mag)))"

definition angle_part :: "nat \<Rightarrow> byte list" where
  "angle_part angle = (if angle = 0 then [] else rec_bytes ANGLE 8 (write_bytes (gds_of (dbl_of_nat angle))))"

text \<open>The magnification that is read back.\<close>

definition mag_read :: "dbl \<Rightarrow> real" where
  "mag_read mag = (if mag = dbl_one then 1 else gds_to_double (gds_of mag))"

lemma writes_double: "dbl_converts d \<Longrightarrow> writes (write_double R d) (rec_bytes R 8 (write_bytes (gds_of d)))"
  using writes_record [of 8 1 R "[gds_of d]"]
  by (auto simp: dbl_converts_def gds_of_def write_double_def writes_def)

lemma read_double_rec [simp]: "read_double R (rec_bytes R 8 (write_bytes g) @ s) = Inr (gds_to_double g, s)"
  using check_record_header_rec [of 8 8 1 1 R "write_bytes g" s] by (simp add: read_double_def)

lemma peek_record_header_rec [simp]:
  "n + 4 < 2 ^ 16 \<Longrightarrow>
   peek_record_header (rec_bytes R n p @ s) = Inr ((record_code R, word_of_nat n), rec_bytes R n p @ s)"
  by (simp add: peek_record_header_def) (simp add: rec_bytes_def)

lemma angle_doubles:
  assumes "angle \<in> {90, 180, 270}"
  shows "dbl_converts (dbl_of_nat angle)" and "gds_to_double (gds_of (dbl_of_nat angle)) = real angle"
proof -
  have d: "dbl_of_nat 90 = 0x4056800000000000" "dbl_of_nat 180 = 0x4066800000000000"
    "dbl_of_nat 270 = 0x4070E00000000000"
    by (simp_all add: dbl_of_nat_def top_bit_eq [of 6 90] top_bit_eq [of 7 180] top_bit_eq [of 8 270])
  have "gds_range (dbl_of_nat angle)" "\<not> loses_bit (dbl_of_nat angle)"
    "dbl_val (dbl_of_nat angle) = real angle"
    using assms
    by (auto simp: d gds_range_def loses_bit_def dbl_exp_def dbl_val_def dbl_sgn_def dbl_frac_def
        power_int_def power_divide)
  then show "dbl_converts (dbl_of_nat angle)" "gds_to_double (gds_of (dbl_of_nat angle)) = real angle"
    by (auto simp: dbl_converts_def gds_of_def elim!: double_to_gds_exact)
qed

lemma read_mag_angle_rec:
  assumes "angle \<in> {0, 90, 180, 270}" and "R \<noteq> MAG" and "R \<noteq> ANGLE" and "n + 4 < 2 ^ 16"
  shows "read_mag_angle (mag_part mag @ angle_part angle @ rec_bytes R n p @ s)
    = Inr ((mag_read mag, real angle), rec_bytes R n p @ s)"
proof -
  have "record_code R \<noteq> record_code MAG" "record_code R \<noteq> record_code ANGLE"
    using assms(2,3) by (cases R; simp)+
  then show ?thesis
    using assms(1,4) angle_doubles(2) [of angle]
    by (auto simp: read_mag_angle_def mag_part_def angle_part_def mag_read_def)
qed

end
