(* ===== verification/Gds_Roundtrip.thy ===== *)
theory Gds_Roundtrip
  imports Gds_Records
begin

text \<open>
  What the GDSII readers make of what the GDSII writers have written.  Names of odd length come back
  with the zero byte that pads them, a polygon with its first point again at the end, an angle or a
  magnification through the conversion of doubles, and an array of instances with another pitch.
\<close>

section \<open>Transformations\<close>

lemma axis_eqI:
  assumes "xform_laws T" and "\<And>p. xo_transform T x p = add_pt (atr_image ori p) loc"
  shows "xo_axis T x = ori" and "location T x = loc"
proof -
  show loc: "location T x = loc" using assms(2) [of "(0, 0)"] by (simp add: location_def)
  have "add_pt (atr_image (xo_axis T x) (1, 2)) loc = add_pt (atr_image ori (1, 2)) loc"
    using assms(2) [of "(1, 2)"] xform_affine [OF assms(1), of x "(1, 2)"] loc by simp
  then show "xo_axis T x = ori"
    by (cases "xo_axis T x"; cases ori; simp add: add_pt_def)
qed

text \<open>The angle and the flag of an orientation give the orientation back.\<close>

lemma rotate_xform_angle:
  assumes "xform_laws T" and "get_angle_flag ori = (angle, flag)"
  obtains y where "rotate_xform T (if flag AND push_bit 15 1 \<noteq> 0 then set_orient T (make_xform T 0 0 OR0) OMX
      else make_xform T 0 0 OR0) (int angle) = Inr y"
    and "xo_axis T y = ori" and "location T y = (0, 0)"
proof -
  let ?base = "if flag AND push_bit 15 1 \<noteq> 0 then set_orient T (make_xform T 0 0 OR0) OMX
      else make_xform T 0 0 OR0"
  let ?f = "if flag AND push_bit 15 1 \<noteq> 0 then OMX else OR0"
  have base: "xo_transform T ?base p = atr_image ?f p" for p
    by (simp add: xform_affine [OF assms(1)] set_orient_spec [OF assms(1)] make_xform_spec [OF assms(1)] add_pt_def)
  have rot: "xo_transform T (transform_by T ?base (make_xform T 0 0 r)) p = atr_image r (atr_image ?f p)" for r p
    unfolding transform_by_spec [OF assms(1)] base
    by (simp add: xform_affine [OF assms(1)] make_xform_spec [OF assms(1)] add_pt_def)
  obtain y where y: "rotate_xform T ?base (int angle) = Inr y"
    and maps: "\<And>p. xo_transform T y p = atr_image ori p"
    using assms(2) base rot by (cases ori) (auto simp: rotate_xform_def)
  have "xo_axis T y = ori" "location T y = (0, 0)"
    using axis_eqI [OF assms(1), of y ori "(0, 0)"] maps by (simp_all add: add_pt_def)
  with y that show thesis by blast
qed

definition info_part :: "'x xform_ops \<Rightarrow> 'x \<Rightarrow> dbl \<Rightarrow> byte list" where
  "info_part T x mag =
     (case get_angle_flag (orient T x) of (angle, flag) \<Rightarrow>
       rec_bytes STRANS 2 (write_bytes flag) @ mag_part mag @ angle_part angle)"

lemma angle_flag_angle: "get_angle_flag ori = (angle, flag) \<Longrightarrow> angle \<in> {0, 90, 180, 270}"
  by (cases ori) auto

lemma read_transform_info_rec:
  assumes "xform_laws T" and "R \<noteq> MAG" and "R \<noteq> ANGLE" and "n + 4 < 2 ^ 16"
  obtains y where "read_transform_info T (info_part T x mag @ rec_bytes R n p @ s)
      = Inr ((y, mag_read mag), rec_bytes R n p @ s)"
    and "xo_axis T y = xo_axis T x" and "location T y = (0, 0)"
proof -
  obtain angle flag where af: "get_angle_flag (orient T x) = (angle, flag)" by fastforce
  obtain y where y: "rotate_xform T (if flag AND push_bit 15 1 \<noteq> 0 then set_orient T (make_xform T 0 0 OR0) OMX
      else make_xform T 0 0 OR0) (int angle) = Inr y" "xo_axis T y = orient T x" "location T y = (0, 0)"
    by (rule rotate_xform_angle [OF assms(1) af])
  have "dbl_to_int (real angle) = Inr (int angle)"
    using angle_flag_angle [OF af] by (auto simp: dbl_to_int_def int32_def)
  then have "read_transform_info T (info_part T x mag @ rec_bytes R n p @ s)
      = Inr ((y, mag_read mag), rec_bytes R n p @ s)"
    using y(1) read_mag_angle_rec [OF angle_flag_angle [OF af] assms(2-4)]
    by (simp add: read_transform_info_def info_part_def af lift_result_def Let_def)
  with y(2,3) that orient_spec(1) [OF assms(1)] show thesis by simp
qed

text \<open>The bytes of a single placement.\<close>

definition place_part :: "'x xform_ops \<Rightarrow> 'x \<Rightarrow> dbl \<Rightarrow> byte list" where
  "place_part T x mag = info_part T x mag @ rec_bytes XY 8 (xy_bytes [location T x])"

lemma writes_transform:
  assumes "mag = dbl_one \<or> dbl_converts mag"
  shows "writes (write_transform T x mag 1 1 0 0) (place_part T x mag)"
proof -
  obtain angle flag where af: "get_angle_flag (orient T x) = (angle, flag)" by fastforce
  have mag: "writes (if mag \<noteq> dbl_one then write_double MAG mag else (\<lambda>out. (None, out))) (mag_part mag)"
    using assms by (auto simp: mag_part_def writes_nothing intro: writes_double)
  have ang: "writes (if angle \<noteq> 0 then write_double ANGLE (dbl_of_nat angle) else (\<lambda>out. (None, out))) (angle_part angle)"
    using angle_flag_angle [OF af] by (auto simp: angle_part_def writes_nothing intro!: writes_double angle_doubles(1))
  have "writes (gds_write XY 2 [u32 (xform_x T x), u32 (xform_y T x)]) (rec_bytes XY 8 (xy_bytes [location T x]))"
    using writes_xy [of "[location T x]" 2]
    by (simp add: point_xys_def xform_x_def xform_y_def get_coord_def)
  then have "writes (runS [write_int STRANS flag,
      (if mag \<noteq> dbl_one then write_double MAG mag else (\<lambda>out. (None, out))),
      (if angle \<noteq> 0 then write_double ANGLE (dbl_of_nat angle) else (\<lambda>out. (None, out))),
      gds_write XY 2 [u32 (xform_x T x), u32 (xform_y T x)]]) (concat [rec_bytes STRANS 2 (write_bytes flag),
        mag_part mag, angle_part angle, rec_bytes XY 8 (xy_bytes [location T x])])"
    using mag ang by (intro writes_runS) (simp add: writes_int)
  then show ?thesis by (simp add: write_transform_def af place_part_def info_part_def writes_def)
qed

lemma read_transform_mag_rec:
  assumes "xform_laws T" and "point_fits (location T x)"
  obtains y where "read_transform_mag T (place_part T x mag @ s) = Inr ((y, mag_read mag), s)"
    and "xo_transform T y = xo_transform T x"
proof -
  obtain z where z: "read_transform_info T (info_part T x mag @ rec_bytes XY 8 (xy_bytes [location T x]) @ s)
      = Inr ((z, mag_read mag), rec_bytes XY 8 (xy_bytes [location T x]) @ s)"
    "xo_axis T z = xo_axis T x" "location T z = (0, 0)"
    by (rule read_transform_info_rec [OF assms(1), where R = XY and n = 8]) simp_all
  let ?y = "move_by T z (fst (location T x)) (snd (location T x))"
  have "xo_transform T ?y = xo_transform T x"
    by (rule ext) (simp add: xform_affine [OF assms(1)] move_by_spec [OF assms(1)] z)
  moreover have "read_point (xy_bytes [location T x] @ s) = Inr (location T x, s)"
    using read_point_xy [OF assms(2)] by simp
  then have "read_transform_mag T (place_part T x mag @ s) = Inr ((?y, mag_read mag), s)"
    using z(1) by (simp add: read_transform_mag_def place_part_def case_prod_beta del: xy_bytes_simps)
  ultimately show thesis using that by blast
qed

section \<open>Elements\<close>

text \<open>An element starts with a record that says what it is.\<close>

definition read_element :: "record_type \<Rightarrow> 'a reader \<Rightarrow> 'a reader" where
  "read_element R r = rbind read_record_header (\<lambda>(rec, _).
     if rec = record_code R then r else rfail Runtime_error)"

lemma read_element_rec [simp]: "read_element R r (rec_bytes R 0 [] @ s) = r s"
  by (simp add: read_element_def)

definition closed_points :: "point list \<Rightarrow> point list" where
  "closed_points pts = pts @ [hd pts]"

lemma writes_points:
  assumes "pts \<noteq> []" and "8 * length pts + 12 < 2 ^ 16"
  shows "writes (write_points pts) (rec_bytes XY (8 * length (closed_points pts)) (xy_bytes (closed_points pts)))"
proof -
  obtain p ps where pts: "pts = p # ps" using assms(1) by (cases pts) auto
  have even: "(word_of_nat (8 * (length pts + 1) + 4) :: 16 word) mod 2 = 0"
    using assms(2) by (simp add: word_unat_eq_iff unat_mod unsigned_of_nat take_bit_nat_eq_self del: of_nat_add)
  then have "writes (gds_write XY (2 * (length pts + 1)) (point_xys pts))
      (rec_bytes XY (8 * length (closed_points pts)) (xy_bytes pts))"
    using assms(2) unfolding writes_def gds_write_def Let_def
    by (simp add: rec_bytes_def xy_bytes_def closed_points_def ac_simps)
  then show ?thesis
    unfolding pts by (simp add: write_points_def runS_def writes_def closed_points_def xy_bytes_append rec_bytes_def)
qed

lemma read_boundary_rec:
  assumes "\<forall>p\<in>set pts. point_fits p" and "8 * length pts + 4 < 2 ^ 16"
  shows "read_boundary (rec_bytes LAYER 2 (write_bytes lay) @ rec_bytes DATATYPE 2 (write_bytes purp) @
      rec_bytes XY (8 * length pts) (xy_bytes pts) @ rec_bytes ENDEL 0 [] @ s) = Inr (((lay, purp), pts), s)"
proof -
  have "(word_of_nat (2 * length pts) :: 64 word) div 2 = word_of_nat (length pts)"
    using word_div_mod_small(1) [of 2 "length pts"] assms(2) by simp
  moreover have "check_record_header XY 4 0 (rec_bytes XY (8 * length pts) (xy_bytes pts) @ s')
      = Inr (word_of_nat (2 * length pts), xy_bytes pts @ s')" for s'
    using assms(2) by (intro check_record_header_rec) auto
  moreover have "unat (word_of_nat (length pts) :: 64 word) = length pts"
    using assms(2) by (intro unat_small) simp
  ultimately show ?thesis
    using assms by (simp add: read_boundary_def Let_def read_points_xy del: of_nat_mult)
qed

text \<open>
  A polygon of up to 8189 points with 32-bit coordinates, and a box, come back from the bytes
  written for them: the layer and the points, the first one repeated at the end; nothing of what
  follows in the file is consumed.
\<close>

theorem gds_polygon_round_trip:
  assumes "pts \<noteq> []" and "length pts \<le> 8189" and "\<forall>p\<in>set pts. point_fits p"
    and "point_fits (box_xl b, box_yl b)" and "point_fits (box_xh b, box_yh b)"
  shows "(\<exists>bs. \<forall>out s. write_polygon layer purpose pts out = (None, out @ bs) \<and>
      read_element BOUNDARY read_boundary (bs @ s) = Inr (((layer, purpose), closed_points pts), s)) \<and>
    (\<exists>bs. \<forall>out s. write_box layer purpose b out = (None, out @ bs) \<and>
      read_element BOX read_box (bs @ s) = Inr (((layer, purpose),
        [(box_xl b, box_yl b), (box_xh b, box_yl b), (box_xh b, box_yh b), (box_xl b, box_yh b),
         (box_xl b, box_yl b)]), s))"
proof (intro conjI exI allI)
  fix out s
  have "writes (write_polygon layer purpose pts) (concat [rec_bytes BOUNDARY 0 [],
      rec_bytes LAYER 2 (write_bytes layer), rec_bytes DATATYPE 2 (write_bytes purpose),
      rec_bytes XY (8 * length (closed_points pts)) (xy_bytes (closed_points pts)), rec_bytes ENDEL 0 []])"
    unfolding write_polygon_def write_element_end_def
    using writes_points [of pts] assms(1,2) by (intro writes_runS) (simp add: writes_empty writes_int)
  then show "write_polygon layer purpose pts out = (None, out @ concat [rec_bytes BOUNDARY 0 [],
      rec_bytes LAYER 2 (write_bytes layer), rec_bytes DATATYPE 2 (write_bytes purpose),
      rec_bytes XY (8 * length (closed_points pts)) (xy_bytes (closed_points pts)), rec_bytes ENDEL 0 []])"
    by (simp add: writes_def)
  have "\<forall>p\<in>set (closed_points pts). point_fits p"
    using assms(1,3) by (auto simp: closed_points_def)
  then show "read_element BOUNDARY read_boundary (concat [rec_bytes BOUNDARY 0 [],
      rec_bytes LAYER 2 (write_bytes layer), rec_bytes DATATYPE 2 (write_bytes purpose),
      rec_bytes XY (8 * length (closed_points pts)) (xy_bytes (closed_points pts)), rec_bytes ENDEL 0 []] @ s)
      = Inr (((layer, purpose), closed_points pts), s)"
    using read_boundary_rec [of "closed_points pts" layer purpose s] assms(2)
    by (simp add: closed_points_def)
next
  fix out s
  let ?pts = "[(box_xl b, box_yl b), (box_xh b, box_yl b), (box_xh b, box_yh b), (box_xl b, box_yh b),
    (box_xl b, box_yl b)]"
  let ?bs = "concat [rec_bytes BOX 0 [], rec_bytes LAYER 2 (write_bytes layer),
    rec_bytes BOXTYPE 2 (write_bytes purpose), rec_bytes XY 40 (xy_bytes ?pts), rec_bytes ENDEL 0 []]"
  have "writes (write_box layer purpose b) ?bs"
    unfolding write_box_def Let_def write_element_end_def
    using writes_xy [of ?pts 10] by (intro writes_runS) (simp add: writes_empty writes_int)
  then show "write_box layer purpose b out = (None, out @ ?bs)" by (simp add: writes_def)
  have "\<forall>p\<in>set ?pts. point_fits p" using assms(4,5) by (simp add: point_fits_def)
  moreover have "length ?pts = 5" by simp
  ultimately have "read_points 5 (xy_bytes ?pts @ rec_bytes ENDEL 0 [] @ s) = Inr (?pts, rec_bytes ENDEL 0 [] @ s)"
    by (metis read_points_xy)
  then show "read_element BOX read_box (?bs @ s) = Inr (((layer, purpose), ?pts), s)"
    by (simp add: read_box_def del: xy_bytes_simps)
qed

theorem gds_polygon_round_trip_witness:
  "\<exists>bs. write_polygon 20 46 [(0, 0), (10, 0), (0, -5)] [] = (None, bs) \<and>
     read_element BOUNDARY read_boundary bs = Inr (((20, 46), [(0, 0), (10, 0), (0, -5), (0, 0)]), [])"
proof -
  let ?pts = "[(0, 0), (10, 0), (0, -5)] :: point list"
  obtain bs where "\<forall>out s. write_polygon 20 46 ?pts out = (None, out @ bs) \<and>
      read_element BOUNDARY read_boundary (bs @ s) = Inr (((20, 46), closed_points ?pts), s)"
    using gds_polygon_round_trip [of ?pts "make_box 0 0 1 1" 20 46]
    by (auto simp: point_fits_def int32_def make_box_def box_xl_def box_xh_def box_yl_def box_yh_def)
  from this [rule_format, of "[]" "[]"] show ?thesis by (simp add: closed_points_def)
qed

section \<open>Text and instances\<close>

lemma mag_read_bound:
  assumes "mag = dbl_one \<or> dbl_converts mag"
  shows "\<bar>mag_read mag - dbl_val mag\<bar> \<le> \<bar>dbl_val mag\<bar> / 2 ^ 52"
proof (cases "mag = dbl_one")
  case True
  have "dbl_one = 0x3FF0000000000000" by (simp add: dbl_one_def dbl_of_nat_def top_bit.simps)
  moreover have "dbl_val 0x3FF0000000000000 = 1"
    by (simp add: dbl_val_def dbl_exp_def dbl_frac_def dbl_sgn_def power_int_def power_divide)
  ultimately have "dbl_val dbl_one = 1" by simp
  with True show ?thesis by (simp add: mag_read_def)
next
  case False
  with assms double_to_gds_spec [of mag] show ?thesis
    by (auto simp: mag_read_def gds_of_def dbl_converts_def)
qed

text \<open>
  C18.  A label comes back with its layer, its text, padded to an even length, the same transformation
  in each of the eight orientations, and a height that differs by at most one part in \<open>2 ^ 52\<close>.
\<close>

theorem gds_text_round_trip:
  assumes "xform_laws T" and "point_fits (location T x)" and "name_fits text"
    and "mag = fmul (dbl_of_int height) resolution" and "mag = dbl_one \<or> dbl_converts mag"
  shows "\<exists>bs. \<forall>out s. gds_write_text fmul T layer purpose text x height resolution out = (None, out @ bs) \<and>
      (\<exists>y h. read_element TEXT (read_text T) (bs @ s) = Inr (((layer, purpose), y, padded text, h), s) \<and>
        xo_transform T y = xo_transform T x \<and> \<bar>h - dbl_val mag\<bar> \<le> \<bar>dbl_val mag\<bar> / 2 ^ 52)"
proof (rule exI, intro allI conjI)
  fix out s
  let ?name = "rec_bytes STRING (length (padded text)) (uchars (padded text))"
  let ?bs = "concat [rec_bytes TEXT 0 [], rec_bytes LAYER 2 (write_bytes layer),
    rec_bytes TEXTTYPE 2 (write_bytes purpose), rec_bytes PRESENTATION 2 (write_bytes text_presentation),
    place_part T x mag, ?name, rec_bytes ENDEL 0 []]"
  have "writes (gds_write_text fmul T layer purpose text x height resolution) ?bs"
    unfolding gds_write_text_def write_element_end_def assms(4) [symmetric]
    using assms(3,5) by (intro writes_runS) (simp add: writes_empty writes_int writes_transform writes_name)
  then show "gds_write_text fmul T layer purpose text x height resolution out = (None, out @ ?bs)"
    by (simp add: writes_def)
  obtain y where y: "read_transform_mag T (place_part T x mag @ ?name @ rec_bytes ENDEL 0 [] @ s)
      = Inr ((y, mag_read mag), ?name @ rec_bytes ENDEL 0 [] @ s)" "xo_transform T y = xo_transform T x"
    by (rule read_transform_mag_rec [OF assms(1,2)])
  have "read_element TEXT (read_text T) (?bs @ s) = Inr (((layer, purpose), y, padded text, mag_read mag), s)"
    using y(1) assms(3) by (simp add: read_text_def)
  then show "\<exists>y h. read_element TEXT (read_text T) (?bs @ s) = Inr (((layer, purpose), y, padded text, h), s) \<and>
      xo_transform T y = xo_transform T x \<and> \<bar>h - dbl_val mag\<bar> \<le> \<bar>dbl_val mag\<bar> / 2 ^ 52"
    using y(2) mag_read_bound [OF assms(5)] by blast
qed

theorem gds_text_round_trip_witness:
  "\<exists>bs y h. read_element TEXT (read_text pair_ops) bs = Inr (((7, 0), y, ''vss'' @ [CHR 0x00], h), []) \<and>
     xo_transform pair_ops y (10, 0) = (3, 15)"
proof -
  have "point_fits (location pair_ops (make_xform pair_ops 3 5 OR90))" "name_fits ''vss''"
    by (simp_all add: make_xform_spec [OF pair_ops_laws] point_fits_def int32_def name_fits_def)
  from gds_text_round_trip [OF pair_ops_laws this, where fmul = "\<lambda>a b. dbl_one" and height = 20 and mag = dbl_one
      and resolution = "0x3F50624DD2F1A9FC" and layer = 7 and purpose = 0]
  obtain bs where "\<forall>s. \<exists>y h. read_element TEXT (read_text pair_ops) (bs @ s)
      = Inr (((7, 0), y, padded ''vss'', h), s) \<and>
      xo_transform pair_ops y = xo_transform pair_ops (make_xform pair_ops 3 5 OR90)"
    by blast
  then obtain y h where "read_element TEXT (read_text pair_ops) (bs @ []) = Inr (((7, 0), y, padded ''vss'', h), [])"
    and "xo_transform pair_ops y (10, 0) = xo_transform pair_ops (make_xform pair_ops 3 5 OR90) (10, 0)" by metis
  then show ?thesis
    by (intro exI [of _ bs] exI [of _ y] exI [of _ h])
      (simp add: padded_def xform_affine [OF pair_ops_laws] make_xform_spec [OF pair_ops_laws] add_pt_def)
qed

definition inst_end_part :: "string \<Rightarrow> byte list" where
  "inst_end_part inst_name = rec_bytes PROPATTR 2 (write_bytes prop_inst_name) @
     rec_bytes PROPVALUE (length (padded inst_name)) (uchars (padded inst_name)) @ rec_bytes ENDEL 0 []"

lemma writes_inst_end:
  assumes "name_fits inst_name"
  shows "writes (runS [write_prop_inst_name inst_name, write_element_end]) (inst_end_part inst_name)"
proof -
  have "writes (runS [write_int PROPATTR prop_inst_name, write_name PROPVALUE inst_name, write_element_end])
      (concat [rec_bytes PROPATTR 2 (write_bytes prop_inst_name),
        rec_bytes PROPVALUE (length (padded inst_name)) (uchars (padded inst_name)), rec_bytes ENDEL 0 []])"
    using assms by (intro writes_runS) (simp add: write_element_end_def writes_empty writes_int writes_name)
  moreover have "runS [write_prop_inst_name inst_name, write_element_end]
      = runS [write_int PROPATTR prop_inst_name, write_name PROPVALUE inst_name, write_element_end]"
    by (rule ext) (simp add: write_prop_inst_name_def runS_def seqS_def split: prod.splits option.splits)
  ultimately show ?thesis by (simp add: inst_end_part_def)
qed

lemma read_inst_name_rec:
  "name_fits inst_name \<Longrightarrow> read_inst_name cnt (inst_end_part inst_name @ s) = Inr ((padded inst_name, cnt), s)"
  by (simp add: read_inst_name_def inst_end_part_def)

lemma runS_append: "runS (fs @ gs) out = seqS (runS fs out) (runS gs)"
  by (simp add: runS_def forS_append)

lemma writes_append: "writes (runS fs) a \<Longrightarrow> writes (runS gs) b \<Longrightarrow> writes (runS (fs @ gs)) (a @ b)"
  by (simp add: writes_def runS_append)

text \<open>
  An array is written with the points that its transformation gives to the ends of its columns and rows.
  The reader divides the coordinates of these points by the numbers of columns and rows, without undoing
  the transformation, and takes the quotients for the pitch in the frame of the instance.
\<close>

definition array_ends :: "'x xform_ops \<Rightarrow> 'x \<Rightarrow> cnt_t \<times> cnt_t \<times> int \<times> int \<Rightarrow> point \<times> point" where
  "array_ends T x = (\<lambda>(gnx, gny, gspx, gspy).
     (xo_transform T x (gspx * int (unat gnx), 0), xo_transform T x (0, gspy * int (unat gny))))"

definition pitch_read :: "'x xform_ops \<Rightarrow> 'x \<Rightarrow> cnt_t \<times> cnt_t \<times> int \<times> int \<Rightarrow> int \<times> int" where
  "pitch_read T x g =
     xo_transform T x (fst (fst (array_ends T x g)) sdiv int (unat (fst g)),
       snd (snd (array_ends T x g)) sdiv int (unat (fst (snd g))))"

text \<open>An array with at least one column and row whose numbers and points fit into the records of an array.\<close>

definition array_fits :: "'x xform_ops \<Rightarrow> 'x \<Rightarrow> cnt_t \<Rightarrow> cnt_t \<Rightarrow> int \<Rightarrow> int \<Rightarrow> bool" where
  "array_fits T x nx ny spx spy \<longleftrightarrow> 0 < nx \<and> nx < 2 ^ 16 \<and> 0 < ny \<and> ny < 2 ^ 16 \<and>
     (case convert_array T x nx ny spx spy of (gnx, gny, gspx, gspy) \<Rightarrow>
        int32 (gspx * int (unat gnx)) \<and> int32 (gspy * int (unat gny))) \<and>
     point_fits (fst (array_ends T x (convert_array T x nx ny spx spy))) \<and>
     point_fits (snd (array_ends T x (convert_array T x nx ny spx spy)))"

lemma mult_offset_exact:
  assumes "int32 (sp * int (unat n))"
  shows "mult_offset sp n = sp * int (unat n)"
proof -
  have product: "word_of_int sp * n = word_of_int (sp * int (unat n))" by simp
  have narrow: "(ucast (word_of_int i :: 64 word) :: 32 word) = word_of_int i" for i
    by (intro bit_word_eqI) (simp add: bit_simps)
  show ?thesis unfolding mult_offset_def product narrow by (rule sint_u32 [unfolded u32_def, OF assms])
qed

definition array_part :: "'x xform_ops \<Rightarrow> 'x \<Rightarrow> cnt_t \<times> cnt_t \<times> int \<times> int \<Rightarrow> byte list" where
  "array_part T x g = info_part T x dbl_one @
     rec_bytes COLROW 4 (write_bytes (ucast (fst g) :: 16 word) @ write_bytes (ucast (fst (snd g)) :: 16 word)) @
     rec_bytes XY 24 (xy_bytes [location T x, fst (array_ends T x g), snd (array_ends T x g)])"

lemma writes_array:
  assumes "1 < nx \<or> 1 < ny" and "array_fits T x nx ny spx spy"
  shows "writes (write_transform T x dbl_one nx ny spx spy) (array_part T x (convert_array T x nx ny spx spy))"
proof -
  obtain angle flag where af: "get_angle_flag (orient T x) = (angle, flag)" by fastforce
  obtain gnx gny gspx gspy where g: "convert_array T x nx ny spx spy = (gnx, gny, gspx, gspy)"
    by (cases "convert_array T x nx ny spx spy")
  let ?pts = "[location T x, fst (array_ends T x (gnx, gny, gspx, gspy)), snd (array_ends T x (gnx, gny, gspx, gspy))]"
  let ?cr = "[ucast gnx :: 16 word, ucast gny]"
  have ends: "[location T x, xo_transform T x (mult_offset gspx gnx, 0), xo_transform T x (0, mult_offset gspy gny)] = ?pts"
    using assms(2) by (simp add: array_fits_def g array_ends_def mult_offset_exact)
  have ang: "writes (if angle \<noteq> 0 then write_double ANGLE (dbl_of_nat angle) else (\<lambda>out. (None, out))) (angle_part angle)"
    using angle_flag_angle [OF af] by (auto simp: angle_part_def writes_nothing intro!: writes_double angle_doubles(1))
  have col: "writes (gds_write COLROW 2 ?cr) (rec_bytes COLROW 4 (concat (map write_bytes ?cr)))"
    by (rule writes_record) simp_all
  have "writes (gds_write XY 6 (point_xys ?pts)) (rec_bytes XY 24 (xy_bytes ?pts))"
    using writes_xy [of ?pts 6] by simp
  then have "writes (runS [gds_write COLROW 2 ?cr, gds_write XY 6 (point_xys ?pts)])
      (concat [rec_bytes COLROW 4 (concat (map write_bytes ?cr)), rec_bytes XY 24 (xy_bytes ?pts)])"
    using col by (intro writes_runS) simp
  then have "writes (runS [write_int STRANS flag, (\<lambda>out. (None, out)),
      (if angle \<noteq> 0 then write_double ANGLE (dbl_of_nat angle) else (\<lambda>out. (None, out))),
      runS [gds_write COLROW 2 ?cr, gds_write XY 6 (point_xys ?pts)]])
      (concat [rec_bytes STRANS 2 (write_bytes flag), [], angle_part angle,
        concat [rec_bytes COLROW 4 (concat (map write_bytes ?cr)), rec_bytes XY 24 (xy_bytes ?pts)]])"
    using ang by (intro writes_runS) (simp add: writes_int writes_nothing)
  then show ?thesis
    using assms(1)
    by (simp add: write_transform_def af g ends array_part_def info_part_def mag_part_def writes_def Let_def
        del: xy_bytes_simps)
qed

lemma read_col_row_rec:
  "read_col_row (rec_bytes COLROW 4 (write_bytes a @ write_bytes b) @ s) = Inr ((a, b), s)"
proof -
  have "check_record_header COLROW 2 2 (rec_bytes COLROW 4 (write_bytes a @ write_bytes b) @ s)
      = Inr (word_of_nat 2, (write_bytes a @ write_bytes b) @ s)"
    by (rule check_record_header_rec) simp_all
  then show ?thesis by (simp add: read_col_row_def del: of_nat_numeral)
qed

lemma small_count:
  assumes "(n :: cnt_t) < 2 ^ 16"
  shows "uint (ucast n :: 16 word) = int (unat n)" and "ucast (ucast n :: 16 word) = n"
proof -
  have "uint n < 2 ^ 16" using assms by (simp add: word_less_def)
  then have "take_bit 16 (uint n) = uint n" by (simp add: take_bit_int_eq_self_iff)
  then show "uint (ucast n :: 16 word) = int (unat n)" by (simp add: unsigned_ucast_eq)
  then show "ucast (ucast n :: 16 word) = n" by (simp add: word_uint_eq_iff unsigned_ucast_eq unsigned_take_bit_eq)
qed

lemma read_array:
  assumes "xform_laws T" and "point_fits (location T x)" and "array_fits T x nx ny spx spy"
    and "name_fits cell_name" and "name_fits inst_name"
  obtains y where "xo_transform T y = xo_transform T x"
    and "read_arr_instance T master_map cnt (rec_bytes SNAME (length (padded cell_name)) (uchars (padded cell_name)) @
        array_part T x (convert_array T x nx ny spx spy) @ inst_end_part inst_name @ s) =
      (case master_map (padded cell_name) of None \<Rightarrow> Inl Runtime_error
       | Some master \<Rightarrow> Inr ((make_cv_instance (padded inst_name) master y nx ny
           (fst (pitch_read T x (convert_array T x nx ny spx spy))) (snd (pitch_read T x (convert_array T x nx ny spx spy))), cnt), s))"
proof -
  obtain gnx gny gspx gspy where g: "convert_array T x nx ny spx spy = (gnx, gny, gspx, gspy)"
    by (cases "convert_array T x nx ny spx spy")
  let ?ends = "array_ends T x (gnx, gny, gspx, gspy)"
  let ?cr = "write_bytes (ucast gnx :: 16 word) @ write_bytes (ucast gny :: 16 word)"
  let ?rest = "rec_bytes XY 24 (xy_bytes [location T x, fst ?ends, snd ?ends]) @ inst_end_part inst_name @ s"
  obtain z where z: "read_transform_info T (info_part T x dbl_one @ rec_bytes COLROW 4 ?cr @ ?rest)
      = Inr ((z, mag_read dbl_one), rec_bytes COLROW 4 ?cr @ ?rest)"
    "xo_axis T z = xo_axis T x" "location T z = (0, 0)"
    by (rule read_transform_info_rec [OF assms(1), where R = COLROW and n = 4]) simp_all
  let ?y = "move_by T z (fst (location T x)) (snd (location T x))"
  have y: "xo_transform T ?y = xo_transform T x"
    by (rule ext) (simp add: xform_affine [OF assms(1)] move_by_spec [OF assms(1)] z)
  have axis: "xo_axis T ?y = xo_axis T x"
    by (rule axis_eqI(1) [OF assms(1)]) (simp add: y xform_affine [OF assms(1)])
  have flips: "flips_xy T ?y = flips_xy T x"
    by (simp add: orient_spec(2) [OF assms(1)] axis)
  have fits: "point_fits (location T x)" "point_fits (fst ?ends)" "point_fits (snd ?ends)"
    using assms(2,3) by (simp_all add: array_fits_def g)
  have counts: "(gnx, gny) = (if flips_xy T x then (ny, nx) else (nx, ny))"
    using g by (auto simp: convert_array_def split: prod.splits if_splits)
  then have small: "gnx < 2 ^ 16" "gny < 2 ^ 16" "gnx \<noteq> 0" "gny \<noteq> 0"
    using assms(3) by (auto simp: array_fits_def split: if_splits)
  have nz: "(ucast gnx :: 16 word) \<noteq> 0" "(ucast gny :: 16 word) \<noteq> 0"
    using small small_count(2) [of gnx] small_count(2) [of gny] by auto
  have pts: "read_point (xy_bytes [location T x, fst ?ends, snd ?ends] @ t)
      = Inr (location T x, xy_bytes [fst ?ends, snd ?ends] @ t)"
    "read_point (xy_bytes [fst ?ends, snd ?ends] @ t) = Inr (fst ?ends, xy_bytes [snd ?ends] @ t)"
    "read_point (xy_bytes [snd ?ends] @ t) = Inr (snd ?ends, t)" for t
    using fits by (simp_all add: read_point_xy)
  have "convert_gds_array T ?y gnx gny (fst (fst ?ends) sdiv int (unat gnx)) (snd (snd ?ends) sdiv int (unat gny))
      = (nx, ny, fst (pitch_read T x (gnx, gny, gspx, gspy)), snd (pitch_read T x (gnx, gny, gspx, gspy)))"
    using counts by (simp add: convert_gds_array_def y flips pitch_read_def split: prod.split if_splits)
  then have "read_arr_instance T master_map cnt (rec_bytes SNAME (length (padded cell_name)) (uchars (padded cell_name)) @
        array_part T x (convert_array T x nx ny spx spy) @ inst_end_part inst_name @ s) =
      (case master_map (padded cell_name) of None \<Rightarrow> Inl Runtime_error
       | Some master \<Rightarrow> Inr ((make_cv_instance (padded inst_name) master ?y nx ny
           (fst (pitch_read T x (convert_array T x nx ny spx spy))) (snd (pitch_read T x (convert_array T x nx ny spx spy))), cnt), s))"
    using z(1) assms(4,5) nz small
    by (simp add: read_arr_instance_def g array_part_def read_col_row_rec pts read_inst_name_rec rfail_def div_coord_def
        lift_result_def small_count Let_def case_prod_beta del: xy_bytes_simps split: option.split)
  with y show thesis by (rule that)
qed

lemma pitch_read_unturned:
  assumes "xform_laws T" and "orient T x = OR0" and "location T x = (lx, ly)"
  shows "pitch_read T x (convert_array T x nx ny spx spy) =
    (lx + (lx + (spx - lx) * int (unat nx)) sdiv int (unat nx), ly + (ly + (spy - ly) * int (unat ny)) sdiv int (unat ny))"
proof -
  have aff: "xo_transform T x p = add_pt p (lx, ly)" for p
    using assms by (cases p) (simp add: xform_affine [OF assms(1)] orient_spec(1) [OF assms(1)])
  have "xo_transform T x (spx - lx, spy - ly) = (spx, spy)" by (simp add: aff add_pt_def)
  then have "xo_transform T (xo_invert T x) (spx, spy) = (spx - lx, spy - ly)"
    using xform_lawsD(9) [OF assms(1), of x "(spx - lx, spy - ly)"] by simp
  then have "convert_array T x nx ny spx spy = (nx, ny, spx - lx, spy - ly)"
    using assms(2) by (simp add: convert_array_spec [OF assms(1)] orient_spec [OF assms(1)])
  then show ?thesis by (simp add: pitch_read_def array_ends_def aff add_pt_def ac_simps)
qed

text \<open>
  C20.  A single instance comes back with the same transformation and with its own name and the name
  of its master, padded to an even length; the master is looked up under the padded name.  So does an
  array of instances, with its numbers of columns and rows, but its pitch is \<open>pitch_read\<close>: for an array
  that is not turned it is that of the array only if the array is at the origin, and otherwise differs
  by the quotients of the coordinates of its location and the numbers of columns and rows.
\<close>

theorem gds_instance_round_trip:
  assumes "xform_laws T" and "point_fits (location T x)" and "name_fits cell_name" and "name_fits inst_name"
    and "nx \<le> 1 \<and> ny \<le> 1 \<or> array_fits T x nx ny spx spy"
  shows "\<exists>bs. \<forall>out s. gds_write_instance T cell_name inst_name x nx ny spx spy out = (None, out @ bs) \<and>
      (\<exists>y px py. xo_transform T y = xo_transform T x \<and>
        (if nx \<le> 1 \<and> ny \<le> 1
         then read_element SREF (read_instance T master_map cnt) (bs @ s) =
          (case master_map (padded cell_name) of None \<Rightarrow> Inl Runtime_error
           | Some master \<Rightarrow> Inr ((make_cv_instance (padded inst_name) master y 1 1 0 0, cnt), s))
         else read_element AREF (read_arr_instance T master_map cnt) (bs @ s) =
          (case master_map (padded cell_name) of None \<Rightarrow> Inl Runtime_error
           | Some master \<Rightarrow> Inr ((make_cv_instance (padded inst_name) master y nx ny px py, cnt), s)) \<and>
          (px, py) = pitch_read T x (convert_array T x nx ny spx spy) \<and>
          (orient T x = OR0 \<longrightarrow>
            px = fst (location T x) + (fst (location T x) + (spx - fst (location T x)) * int (unat nx)) sdiv int (unat nx) \<and>
            py = snd (location T x) + (snd (location T x) + (spy - snd (location T x)) * int (unat ny)) sdiv int (unat ny))))"
proof (cases "nx \<le> 1 \<and> ny \<le> 1")
  case True
  let ?sname = "rec_bytes SNAME (length (padded cell_name)) (uchars (padded cell_name))"
  let ?bs = "concat [rec_bytes SREF 0 [], ?sname, place_part T x dbl_one] @ inst_end_part inst_name"
  have "writes (runS ([write_empty SREF, write_name SNAME cell_name, write_transform T x dbl_one 1 1 0 0] @
      [write_prop_inst_name inst_name, write_element_end])) ?bs"
    using assms(3,4) by (intro writes_append writes_runS writes_inst_end)
      (simp_all add: writes_empty writes_transform writes_name)
  then have run: "gds_write_instance T cell_name inst_name x nx ny spx spy out = (None, out @ ?bs)" for out
    using True by (simp add: gds_write_instance_def writes_def not_less [symmetric])
  have "\<exists>y. xo_transform T y = xo_transform T x \<and>
      read_element SREF (read_instance T master_map cnt) (?bs @ s) =
      (case master_map (padded cell_name) of None \<Rightarrow> Inl Runtime_error
       | Some master \<Rightarrow> Inr ((make_cv_instance (padded inst_name) master y 1 1 0 0, cnt), s))" for s
  proof -
    obtain y where y: "read_transform_mag T (place_part T x dbl_one @ inst_end_part inst_name @ s)
        = Inr ((y, mag_read dbl_one), inst_end_part inst_name @ s)" "xo_transform T y = xo_transform T x"
      by (rule read_transform_mag_rec [OF assms(1,2)])
    then show ?thesis
      using assms(3,4)
      by (intro exI [of _ y])
        (simp add: read_instance_def read_transform_def read_inst_name_rec rfail_def split: option.split)
  qed
  with run True show ?thesis by (intro exI [of _ ?bs]) auto
next
  case False
  then have arr: "1 < nx \<or> 1 < ny" "array_fits T x nx ny spx spy" using assms(5) by (auto simp: not_le)
  let ?g = "convert_array T x nx ny spx spy"
  let ?sname = "rec_bytes SNAME (length (padded cell_name)) (uchars (padded cell_name))"
  let ?bs = "concat [rec_bytes AREF 0 [], ?sname, array_part T x ?g] @ inst_end_part inst_name"
  have "writes (runS ([write_empty AREF, write_name SNAME cell_name, write_transform T x dbl_one nx ny spx spy] @
      [write_prop_inst_name inst_name, write_element_end])) ?bs"
    using assms(3,4) by (intro writes_append writes_runS writes_inst_end)
      (simp_all add: writes_empty writes_array [OF arr] writes_name)
  then have run: "gds_write_instance T cell_name inst_name x nx ny spx spy out = (None, out @ ?bs)" for out
    using arr(1) by (simp add: gds_write_instance_def write_arr_instance_def writes_def)
  have "\<exists>y. xo_transform T y = xo_transform T x \<and>
      read_element AREF (read_arr_instance T master_map cnt) (?bs @ s) =
      (case master_map (padded cell_name) of None \<Rightarrow> Inl Runtime_error
       | Some master \<Rightarrow> Inr ((make_cv_instance (padded inst_name) master y nx ny
           (fst (pitch_read T x ?g)) (snd (pitch_read T x ?g)), cnt), s))" for s
    by (rule read_array [OF assms(1,2) arr(2) assms(3,4), of master_map cnt s]) (auto intro: exI)
  note read = this
  have unturned: "orient T x = OR0 \<longrightarrow> pitch_read T x ?g =
      (fst (location T x) + (fst (location T x) + (spx - fst (location T x)) * int (unat nx)) sdiv int (unat nx),
       snd (location T x) + (snd (location T x) + (spy - snd (location T x)) * int (unat ny)) sdiv int (unat ny))"
    using pitch_read_unturned [OF assms(1), of x "fst (location T x)" "snd (location T x)"] by simp
  show ?thesis unfolding if_not_P [OF False]
  proof (intro exI [of _ ?bs] allI conjI)
    fix s
    from read obtain y where "xo_transform T y = xo_transform T x"
      "read_element AREF (read_arr_instance T master_map cnt) (?bs @ s) =
      (case master_map (padded cell_name) of None \<Rightarrow> Inl Runtime_error
       | Some master \<Rightarrow> Inr ((make_cv_instance (padded inst_name) master y nx ny
           (fst (pitch_read T x ?g)) (snd (pitch_read T x ?g)), cnt), s))" by blast
    with unturned show "\<exists>y px py. xo_transform T y = xo_transform T x \<and>
        (read_element AREF (read_arr_instance T master_map cnt) (?bs @ s) =
          (case master_map (padded cell_name) of None \<Rightarrow> Inl Runtime_error
           | Some master \<Rightarrow> Inr ((make_cv_instance (padded inst_name) master y nx ny px py, cnt), s)) \<and>
          (px, py) = pitch_read T x ?g \<and>
          (orient T x = OR0 \<longrightarrow>
            px = fst (location T x) + (fst (location T x) + (spx - fst (location T x)) * int (unat nx)) sdiv int (unat nx) \<and>
            py = snd (location T x) + (snd (location T x) + (spy - snd (location T x)) * int (unat ny)) sdiv int (unat ny)))"
      by (intro exI [of _ y] exI [of _ "fst (pitch_read T x ?g)"] exI [of _ "snd (pitch_read T x ?g)"]) auto
  qed (rule run)
qed

text \<open>
  An instance that is turned, and an array of two instances at a distance of 10 that is at (100, 0): its
  pitch is read as 60.
\<close>

theorem gds_instance_round_trip_witness:
  "(\<exists>bs y. read_element SREF (read_instance pair_ops [''inv'' @ [CHR 0x00] \<mapsto> True] 4) bs
     = Inr ((make_cv_instance (''X0'') True y 1 1 0 0, 4), []) \<and>
     xo_transform pair_ops y (10, 0) = (3, 15)) \<and>
   (\<exists>bs y py. gds_write_instance pair_ops ''inv'' ''X0'' (make_xform pair_ops 100 0 OR0) 2 1 10 0 [] = (None, bs) \<and>
     read_element AREF (read_arr_instance pair_ops [''inv'' @ [CHR 0x00] \<mapsto> True] 4) bs
     = Inr ((make_cv_instance (''X0'') True y 2 1 60 py, 4), []))"
proof
  let ?map = "[''inv'' @ [CHR 0x00] \<mapsto> True]"
  have names: "name_fits ''inv''" "name_fits ''X0''" by (simp_all add: name_fits_def)
  show "\<exists>bs y. read_element SREF (read_instance pair_ops ?map 4) bs
     = Inr ((make_cv_instance (''X0'') True y 1 1 0 0, 4), []) \<and> xo_transform pair_ops y (10, 0) = (3, 15)"
  proof -
    let ?x = "make_xform pair_ops 3 5 OR90"
    have "point_fits (location pair_ops ?x)"
      by (simp add: make_xform_spec [OF pair_ops_laws] point_fits_def int32_def)
    note round_trip = gds_instance_round_trip [OF pair_ops_laws this names, of 1 1 0 0 ?map 4]
    have one: "((1 :: cnt_t) \<le> 1 \<and> (1 :: cnt_t) \<le> 1) = True" by simp
    obtain bs where "\<forall>s. \<exists>y. xo_transform pair_ops y = xo_transform pair_ops ?x \<and>
        read_element SREF (read_instance pair_ops ?map 4) (bs @ s) =
          (case ?map (padded ''inv'') of None \<Rightarrow> Inl Runtime_error
           | Some master \<Rightarrow> Inr ((make_cv_instance (padded ''X0'') master y 1 1 0 0, 4), s))"
      using round_trip [unfolded one if_True] by blast
    then have "\<exists>y. xo_transform pair_ops y = xo_transform pair_ops ?x \<and>
        read_element SREF (read_instance pair_ops ?map 4) (bs @ []) =
          (case ?map (padded ''inv'') of None \<Rightarrow> Inl Runtime_error
           | Some master \<Rightarrow> Inr ((make_cv_instance (padded ''X0'') master y 1 1 0 0, 4), []))" by blast
    then obtain y where "xo_transform pair_ops y = xo_transform pair_ops ?x"
      "read_element SREF (read_instance pair_ops ?map 4) bs = Inr ((make_cv_instance (''X0'') True y 1 1 0 0, 4), [])"
      by (auto simp: padded_def)
    then show ?thesis
      by (intro exI [of _ bs] exI [of _ y])
        (simp add: xform_affine [OF pair_ops_laws] make_xform_spec [OF pair_ops_laws] add_pt_def)
  qed
  let ?x = "make_xform pair_ops 100 0 OR0"
  have x: "location pair_ops ?x = (100, 0)" "orient pair_ops ?x = OR0"
    by (simp_all add: make_xform_spec [OF pair_ops_laws] orient_spec [OF pair_ops_laws])
  have "convert_array pair_ops ?x 2 1 10 0 = (2, 1, - 90, 0)"
    using convert_array_subtracts_location [OF pair_ops_laws, of 100 0 2 1 10 0] by simp
  then have fits: "array_fits pair_ops ?x 2 1 10 0"
    by (simp add: array_fits_def array_ends_def int32_def point_fits_def xform_affine [OF pair_ops_laws]
        make_xform_spec [OF pair_ops_laws] add_pt_def)
  have loc: "point_fits (location pair_ops ?x)" by (simp add: x point_fits_def int32_def)
  note round_trip = gds_instance_round_trip [OF pair_ops_laws loc names disjI2 [OF fits], of ?map 4]
  have two: "((2 :: cnt_t) \<le> 1 \<and> (1 :: cnt_t) \<le> 1) = False" by (simp add: word_le_def)
  obtain bs where bs: "\<forall>out s. gds_write_instance pair_ops ''inv'' ''X0'' ?x 2 1 10 0 out = (None, out @ bs) \<and>
      (\<exists>y px py. read_element AREF (read_arr_instance pair_ops ?map 4) (bs @ s) =
        (case ?map (padded ''inv'') of None \<Rightarrow> Inl Runtime_error
         | Some master \<Rightarrow> Inr ((make_cv_instance (padded ''X0'') master y 2 1 px py, 4), s)) \<and>
        px = fst (100 :: int, 0 :: int) + (fst (100 :: int, 0 :: int) + (10 - fst (100 :: int, 0 :: int)) * int (unat (2 :: cnt_t))) sdiv int (unat (2 :: cnt_t)))"
    using round_trip [unfolded two if_False x] by blast
  from bs [rule_format, of "[]" "[]"] obtain y px py where
    "read_element AREF (read_arr_instance pair_ops ?map 4) (bs @ []) =
        (case ?map (padded ''inv'') of None \<Rightarrow> Inl Runtime_error
         | Some master \<Rightarrow> Inr ((make_cv_instance (padded ''X0'') master y 2 1 px py, 4), []))"
    "px = fst (100 :: int, 0 :: int) + (fst (100 :: int, 0 :: int) + (10 - fst (100 :: int, 0 :: int)) * int (unat (2 :: cnt_t))) sdiv int (unat (2 :: cnt_t))"
    by blast
  then have "read_element AREF (read_arr_instance pair_ops ?map 4) bs = Inr ((make_cv_instance (''X0'') True y 2 1 60 py, 4), [])"
    by (simp add: padded_def signed_divide_int_def)
  moreover have "gds_write_instance pair_ops ''inv'' ''X0'' ?x 2 1 10 0 [] = (None, bs)"
    using bs [rule_format, of "[]" "[]"] by simp
  ultimately show "\<exists>bs y py. gds_write_instance pair_ops ''inv'' ''X0'' ?x 2 1 10 0 [] = (None, bs) \<and>
     read_element AREF (read_arr_instance pair_ops ?map 4) bs = Inr ((make_cv_instance (''X0'') True y 2 1 60 py, 4), [])"
    by blast
qed

end
