(* ===== verification/Unique_Heap.thy ===== *)
theory Unique_Heap
  imports Prelude "HOL-Library.Product_Lexorder"
begin

text \<open>
  The priority queue without duplicates of \<^verbatim>\<open>include/cbag/util/unique_heap.h\<close>: a
  \<^verbatim>\<open>std::priority_queue\<close>, kept here as a list with a greatest element first, and the set of its
  items.  \<^verbatim>\<open>push\<close> and \<^verbatim>\<open>emplace\<close> differ only in how the element is built.
\<close>

record 'a unique_heap =
  uh_heap :: "'a list"
  uh_items :: "'a set"

definition uh_new :: "'a unique_heap" where
  "uh_new = \<lparr>uh_heap = [], uh_items = {}\<rparr>"

definition uh_empty :: "'a unique_heap \<Rightarrow> bool" where
  "uh_empty h \<longleftrightarrow> uh_heap h = []"

definition uh_size :: "'a unique_heap \<Rightarrow> nat" where
  "uh_size h = length (uh_heap h)"

text \<open>Insertion into the priority queue.\<close>

fun pq_push :: "'a::linorder \<Rightarrow> 'a list \<Rightarrow> 'a list" where
  "pq_push x [] = [x]"
| "pq_push x (y # ys) = (if y \<le> x then x # y # ys else y # pq_push x ys)"

definition uh_push :: "'a::linorder unique_heap \<Rightarrow> 'a \<Rightarrow> 'a unique_heap" where
  "uh_push h val =
     (if val \<in> uh_items h then h
      else \<lparr>uh_heap = pq_push val (uh_heap h), uh_items = insert val (uh_items h)\<rparr>)"

definition uh_top :: "'a unique_heap \<Rightarrow> 'a" where
  "uh_top h = hd (uh_heap h)"

definition uh_pop :: "'a unique_heap \<Rightarrow> 'a unique_heap" where
  "uh_pop h = \<lparr>uh_heap = tl (uh_heap h), uh_items = uh_items h - {uh_top h}\<rparr>"

section \<open>It is a set whose greatest element is known\<close>

definition uh_inv :: "'a::linorder unique_heap \<Rightarrow> bool" where
  "uh_inv h \<longleftrightarrow> sorted_wrt (>) (uh_heap h) \<and> uh_items h = set (uh_heap h)"

lemma set_pq_push [simp]: "set (pq_push x ys) = insert x (set ys)"
  by (induction ys) auto

lemma sorted_pq_push: "sorted_wrt (>) ys \<Longrightarrow> x \<notin> set ys \<Longrightarrow> sorted_wrt (>) (pq_push x ys)"
  by (induction ys) auto

lemma distinct_descending: "sorted_wrt (>) (xs :: 'a::linorder list) \<Longrightarrow> distinct xs"
  by (induction xs) auto

lemma uh_inv_new: "uh_inv uh_new"
  by (simp add: uh_inv_def uh_new_def)

lemma uh_push_spec:
  assumes "uh_inv h"
  shows "uh_inv (uh_push h x)" and "uh_items (uh_push h x) = insert x (uh_items h)"
  using assms by (auto simp: uh_inv_def uh_push_def sorted_pq_push)

lemma uh_top_spec:
  assumes "uh_inv h" and "\<not> uh_empty h"
  shows "uh_top h = Max (uh_items h)"
proof -
  obtain y ys where h: "uh_heap h = y # ys" using assms(2) by (cases "uh_heap h") (auto simp: uh_empty_def)
  have "Max (insert y (set ys)) = y"
    using assms(1) by (intro Max_eqI) (auto simp: uh_inv_def h)
  then show ?thesis using assms(1) by (simp add: uh_inv_def uh_top_def h)
qed

lemma uh_pop_spec:
  assumes "uh_inv h" and "\<not> uh_empty h"
  shows "uh_inv (uh_pop h)" and "uh_items (uh_pop h) = uh_items h - {Max (uh_items h)}"
proof -
  obtain y ys where h: "uh_heap h = y # ys" using assms(2) by (cases "uh_heap h") (auto simp: uh_empty_def)
  then show "uh_inv (uh_pop h)" using assms(1) by (auto simp: uh_inv_def uh_pop_def uh_top_def)
  show "uh_items (uh_pop h) = uh_items h - {Max (uh_items h)}"
    by (simp add: uh_pop_def uh_top_spec [OF assms, symmetric])
qed

text \<open>
  C37.  From a new heap on, the operations act on the set of the items: \<^verbatim>\<open>push\<close> inserts, \<^verbatim>\<open>top\<close> is the
  greatest element, \<^verbatim>\<open>pop\<close> removes it, \<^verbatim>\<open>size\<close> counts, and a heap is empty when its set is.
\<close>

theorem unique_heap_refines_set:
  "uh_inv uh_new \<and> uh_items uh_new = {} \<and>
   (if uh_inv h
    then uh_inv (uh_push h x) \<and> uh_items (uh_push h x) = insert x (uh_items h) \<and>
      uh_size h = card (uh_items h) \<and> (uh_empty h \<longleftrightarrow> uh_items h = {}) \<and>
      (if uh_empty h then True
       else uh_top h = Max (uh_items h) \<and> uh_inv (uh_pop h) \<and>
         uh_items (uh_pop h) = uh_items h - {Max (uh_items h)})
    else True)"
proof -
  have "uh_size h = card (uh_items h)" "uh_empty h \<longleftrightarrow> uh_items h = {}" if "uh_inv h"
  proof -
    have "distinct (uh_heap h)" using that by (simp add: uh_inv_def distinct_descending)
    then show "uh_size h = card (uh_items h)" "uh_empty h \<longleftrightarrow> uh_items h = {}"
      using that by (auto simp: uh_inv_def uh_size_def uh_empty_def distinct_card)
  qed
  then show ?thesis
    using uh_inv_new by (simp add: uh_new_def uh_push_spec uh_top_spec uh_pop_spec)
qed

end
