(* ===== verification/Via_Info.thy ===== *)
theory Via_Info
  imports Box Unique_Heap
begin

text \<open>
  Vias and the search for the one with most cuts: \<^verbatim>\<open>src/cbag/layout/via_param.cpp\<close>,
  \<^verbatim>\<open>via_param_util.cpp\<close> and \<^verbatim>\<open>via_info.cpp\<close>.  Arrays of two numbers that are indexed by an
  orientation or by a direction are pairs.  The search is a partial function, because its loop does
  not end on every input.
\<close>

section \<open>Vectors and directions\<close>

type_synonym vec_t = "int \<times> int"

datatype direction = LOWER | UPPER

fun flip_dir :: "direction \<Rightarrow> direction" where
  "flip_dir LOWER = UPPER"
| "flip_dir UPPER = LOWER"

definition get_adj_level :: "direction \<Rightarrow> int \<Rightarrow> int" where
  "get_adj_level vdir level = level + 1 - 2 * (case vdir of LOWER \<Rightarrow> 0 | UPPER \<Rightarrow> 1)"

fun at_orient :: "'a \<times> 'a \<Rightarrow> orient_2d \<Rightarrow> 'a" where
  "at_orient v Horizontal = fst v"
| "at_orient v Vertical = snd v"

fun set_orient_at :: "'a \<times> 'a \<Rightarrow> orient_2d \<Rightarrow> 'a \<Rightarrow> 'a \<times> 'a" where
  "set_orient_at v Horizontal x = (x, snd v)"
| "set_orient_at v Vertical x = (fst v, x)"

fun at_dir :: "'a \<times> 'a \<Rightarrow> direction \<Rightarrow> 'a" where
  "at_dir v LOWER = fst v"
| "at_dir v UPPER = snd v"

text \<open>The pair with one value at a direction and another one at the opposite.\<close>

fun dir_pair :: "direction \<Rightarrow> 'a \<Rightarrow> 'a \<Rightarrow> 'a \<times> 'a" where
  "dir_pair LOWER x y = (x, y)"
| "dir_pair UPPER x y = (y, x)"

fun orient_pair :: "orient_2d \<Rightarrow> 'a \<Rightarrow> 'a \<Rightarrow> 'a \<times> 'a" where
  "orient_pair Horizontal x y = (x, y)"
| "orient_pair Vertical x y = (y, x)"

text \<open>The product of an unsigned count and a number, and what is left of it in a 32-bit number.\<close>

definition cnt_of_int :: "int \<Rightarrow> cnt_t" where
  "cnt_of_int i = word_of_int i"

definition offset_of_cnt :: "cnt_t \<Rightarrow> int" where
  "offset_of_cnt c = sint (ucast c :: 32 word)"

lemma offset_of_small: "- (2 ^ 31) \<le> i \<Longrightarrow> i < 2 ^ 31 \<Longrightarrow> offset_of_cnt (cnt_of_int i) = i"
proof -
  assume a: "- (2 ^ 31) \<le> i" "i < 2 ^ 31"
  have "(ucast (word_of_int i :: 64 word) :: 32 word) = word_of_int i"
    by (intro bit_word_eqI) (simp add: bit_simps)
  moreover have "sint (word_of_int i :: 32 word) = i"
    using a unfolding signed_of_int by (simp add: signed_take_bit_int_eq_self)
  ultimately show ?thesis by (simp add: offset_of_cnt_def cnt_of_int_def)
qed

section \<open>Via parameters\<close>

record via_param =
  vp_num :: "cnt_t \<times> cnt_t"
  vp_cut_dim :: vec_t
  vp_cut_spacing :: vec_t
  vp_enc :: "vec_t \<times> vec_t"
  vp_off :: "vec_t \<times> vec_t"

definition set_via_enc_offset :: "int \<Rightarrow> int \<Rightarrow> int \<Rightarrow> int \<Rightarrow> vec_t \<times> vec_t" where
  "set_via_enc_offset encl encr enct encb =
     (let enc = ((encr + encl) sdiv 2, (enct + encb) sdiv 2)
      in (enc, (encr - fst enc, enct - snd enc)))"

definition no_via :: via_param where
  "no_via = \<lparr>vp_num = (0, 0), vp_cut_dim = (0, 0), vp_cut_spacing = (0, 0),
     vp_enc = ((0, 0), (0, 0)), vp_off = ((0, 0), (0, 0))\<rparr>"

definition make_via_param ::
  "cnt_t \<Rightarrow> cnt_t \<Rightarrow> int \<Rightarrow> int \<Rightarrow> int \<Rightarrow> int \<Rightarrow> int \<Rightarrow> int \<Rightarrow> int \<Rightarrow> int \<Rightarrow> int \<Rightarrow> int \<Rightarrow> int \<Rightarrow> int \<Rightarrow> via_param"
where
  "make_via_param vnx vny w h vspx vspy enc1l enc1r enc1t enc1b enc2l enc2r enc2t enc2b =
     (let (e1, o1) = set_via_enc_offset enc1l enc1r enc1t enc1b;
          (e2, o2) = set_via_enc_offset enc2l enc2r enc2t enc2b
      in \<lparr>vp_num = (vnx, vny), vp_cut_dim = (w, h), vp_cut_spacing = (vspx, vspy),
          vp_enc = (e1, e2), vp_off = (o1, o2)\<rparr>)"

definition vp_empty :: "via_param \<Rightarrow> bool" where
  "vp_empty p \<longleftrightarrow> fst (vp_num p) = 0"

definition vp_arr_dim :: "via_param \<Rightarrow> orient_2d \<Rightarrow> int" where
  "vp_arr_dim p orient =
     (let sp = at_orient (vp_cut_spacing p) orient in
      offset_of_cnt (at_orient (vp_num p) orient * cnt_of_int (at_orient (vp_cut_dim p) orient + sp) - cnt_of_int sp))"

definition vp_metal_dim :: "via_param \<Rightarrow> orient_2d \<Rightarrow> direction \<Rightarrow> int" where
  "vp_metal_dim p orient vdir = vp_arr_dim p orient + 2 * at_orient (at_dir (vp_enc p) vdir) orient"

definition vp_get_box :: "via_param \<Rightarrow> int \<times> int \<Rightarrow> direction \<Rightarrow> box_t" where
  "vp_get_box p loc vdir =
     (let w2 = vp_metal_dim p Horizontal vdir sdiv 2; h2 = vp_metal_dim p Vertical vdir sdiv 2
      in make_box (fst loc - w2) (snd loc - h2) (fst loc + w2) (snd loc + h2))"

definition vp_via_extensions :: "via_param \<Rightarrow> vec_t \<Rightarrow> direction \<Rightarrow> orient_2d \<Rightarrow> orient_2d \<Rightarrow> int \<times> int" where
  "vp_via_extensions p dim vdir ex_dir adj_ex_dir =
     dir_pair vdir ((vp_metal_dim p ex_dir vdir - at_orient dim ex_dir) sdiv 2)
       ((vp_metal_dim p adj_ex_dir (flip_dir vdir) - at_orient dim adj_ex_dir) sdiv 2)"

section \<open>Rules of a via\<close>

record venc_data =
  vd_width :: int
  vd_enc_list :: "vec_t list"

type_synonym venc_info = "venc_data list"

record via_info =
  vi_cut_dim :: vec_t
  vi_sp :: vec_t
  vi_sp2_list :: "vec_t list"
  vi_sp3_list :: "vec_t list"
  vi_enc_list :: "venc_info \<times> venc_info"

definition make_via_info ::
  "vec_t \<Rightarrow> vec_t \<Rightarrow> vec_t list \<Rightarrow> vec_t list \<Rightarrow> venc_info \<times> venc_info \<Rightarrow> via_info" where
  "make_via_info cdim s s2_list s3_list e_list =
     (let sp2 = (if s2_list = [] then [s] else s2_list);
          sp3 = (if s3_list = [] then sp2 else s3_list)
      in \<lparr>vi_cut_dim = cdim, vi_sp = s, vi_sp2_list = sp2, vi_sp3_list = sp3, vi_enc_list = e_list\<rparr>)"

definition MAX_INT :: int where
  "MAX_INT = 2147483647"

definition get_n_max :: "int \<Rightarrow> int \<Rightarrow> int \<Rightarrow> cnt_t result" where
  "get_n_max dim w sp =
     (if sp = MAX_INT then Inr (if dim > w then 1 else 0)
      else if w + sp = 0 then Inl Undefined_behaviour
      else Inr (cnt_of_int ((dim + sp) sdiv (w + sp))))"

fun get_enc_list :: "venc_info \<Rightarrow> int \<Rightarrow> vec_t list result" where
  "get_enc_list [] width = Inl Undefined_behaviour"
| "get_enc_list [d] width = Inr (vd_enc_list d)"
| "get_enc_list (d # ds) width = (if width \<le> vd_width d then Inr (vd_enc_list d) else get_enc_list ds width)"

definition enc_dim :: "vec_t \<Rightarrow> vec_t \<Rightarrow> vec_t" where
  "enc_dim enc_vec arr_dim = (2 * fst enc_vec + fst arr_dim, 2 * snd enc_vec + snd arr_dim)"

definition enc_passes :: "vec_t \<Rightarrow> vec_t \<Rightarrow> orient_2d \<Rightarrow> bool \<Rightarrow> vec_t \<Rightarrow> bool" where
  "enc_passes bdim arr_dim dir ext enc_vec \<longleftrightarrow>
     at_orient (enc_dim enc_vec arr_dim) (perpendicular dir) \<le> at_orient bdim (perpendicular dir) \<and>
     (ext \<or> at_orient (enc_dim enc_vec arr_dim) dir \<le> at_orient bdim dir)"

definition vi_metal_dim :: "vec_t \<Rightarrow> vec_t \<Rightarrow> venc_info \<Rightarrow> orient_2d \<Rightarrow> bool \<Rightarrow> vec_t result" where
  "vi_metal_dim bdim arr_dim enc_info dir ext =
     (let wire_w = at_orient bdim (perpendicular dir) in
      bindR (get_enc_list enc_info wire_w) (\<lambda>encs.
        let opt = foldl (\<lambda>a enc_vec. if enc_passes bdim arr_dim dir ext enc_vec
                    then min a (at_orient (enc_dim enc_vec arr_dim) dir) else a) MAX_INT encs
        in Inr (if opt = MAX_INT then (0, 0)
                else orient_pair dir (max opt (at_orient bdim dir)) wire_w)))"

definition vi_arr_dim :: "cnt_t \<Rightarrow> int \<Rightarrow> int \<Rightarrow> int" where
  "vi_arr_dim n w sp =
     (if sp = MAX_INT then (if n \<noteq> 1 then 0 else w)
      else offset_of_cnt (n * cnt_of_int (w + sp) - cnt_of_int sp))"

section \<open>The search\<close>

text \<open>
  The best spacing so far for a number of cuts.  The metal dimensions are those of the given layer and
  of the adjacent one; a negative spacing says that there is none yet.
\<close>

record opt_state =
  os_arr_dim :: vec_t
  os_mdim :: vec_t
  os_adj_mdim :: vec_t
  os_sp :: vec_t

definition opt_start :: opt_state where
  "opt_start = \<lparr>os_arr_dim = (0, 0), os_mdim = (MAX_INT, MAX_INT), os_adj_mdim = (MAX_INT, MAX_INT),
     os_sp = (-1, -1)\<rparr>"

definition sp_list_for :: "via_info \<Rightarrow> cnt_t \<times> cnt_t \<Rightarrow> vec_t list" where
  "sp_list_for vi num =
     (if fst num = 2 \<and> snd num = 2 then vi_sp2_list vi
      else if fst num > 1 \<and> snd num > 1 then vi_sp3_list vi
      else [vi_sp vi])"

definition opt_step ::
  "via_info \<Rightarrow> vec_t \<Rightarrow> orient_2d \<Rightarrow> orient_2d \<Rightarrow> bool \<Rightarrow> cnt_t \<times> cnt_t \<Rightarrow> opt_state \<Rightarrow> vec_t \<Rightarrow> opt_state result"
where
  "opt_step vi bdim dir adj_dir ext num st sp_via =
     (let arr_dim = (vi_arr_dim (fst num) (fst (vi_cut_dim vi)) (fst sp_via),
                     vi_arr_dim (snd num) (snd (vi_cut_dim vi)) (snd sp_via)) in
      if fst arr_dim = 0 \<or> snd arr_dim = 0 then Inr st
      else bindR (vi_metal_dim bdim arr_dim (fst (vi_enc_list vi)) dir ext) (\<lambda>m_dim.
        if fst m_dim = 0 then Inr st
        else bindR (vi_metal_dim bdim arr_dim (snd (vi_enc_list vi)) adj_dir ext) (\<lambda>adj_m_dim.
          if fst adj_m_dim = 0 then Inr st
          else if at_orient m_dim dir \<le> at_orient (os_mdim st) dir \<and>
                  at_orient adj_m_dim adj_dir \<le> at_orient (os_adj_mdim st) adj_dir
          then Inr \<lparr>os_arr_dim = arr_dim, os_mdim = m_dim, os_adj_mdim = adj_m_dim, os_sp = sp_via\<rparr>
          else Inr st)))"

definition opt_via ::
  "via_info \<Rightarrow> vec_t \<Rightarrow> orient_2d \<Rightarrow> orient_2d \<Rightarrow> bool \<Rightarrow> cnt_t \<times> cnt_t \<Rightarrow> opt_state result" where
  "opt_via vi bdim dir adj_dir ext num =
     foldR (opt_step vi bdim dir adj_dir ext num) opt_start (sp_list_for vi num)"

definition via_solution :: "via_info \<Rightarrow> direction \<Rightarrow> cnt_t \<times> cnt_t \<Rightarrow> opt_state \<Rightarrow> via_param" where
  "via_solution vi vdir num st =
     (let sp = (if fst num = 1 then 0 else fst (os_sp st), if snd num = 1 then 0 else snd (os_sp st));
          opt_mdim = dir_pair vdir (os_mdim st) (os_adj_mdim st);
          arr = os_arr_dim st;
          enc1x = (fst (fst opt_mdim) - fst arr) sdiv 2;
          enc1y = (snd (fst opt_mdim) - snd arr) sdiv 2;
          enc2x = (fst (snd opt_mdim) - fst arr) sdiv 2;
          enc2y = (snd (snd opt_mdim) - snd arr) sdiv 2
      in make_via_param (fst num) (snd num) (fst (vi_cut_dim vi)) (snd (vi_cut_dim vi)) (fst sp) (snd sp)
           enc1x enc1x enc1y enc1y enc2x enc2x enc2y enc2y)"

type_synonym via_heap = "(cnt_t \<times> cnt_t \<times> cnt_t) unique_heap"

text \<open>What the loop adds to the heap when the numbers it has taken from there fail.\<close>

definition via_expand :: "cnt_t \<Rightarrow> cnt_t \<Rightarrow> via_heap \<Rightarrow> via_heap" where
  "via_expand nx_max ny_max heap =
     (let heap = (if nx_max > 1 then uh_push heap ((nx_max - 1) * ny_max, nx_max - 1, ny_max) else heap)
      in (if ny_max > 1 then uh_push heap (nx_max * (ny_max - 1), nx_max, ny_max - 1) else heap))"

partial_function (option) via_search ::
  "via_info \<Rightarrow> vec_t \<Rightarrow> direction \<Rightarrow> orient_2d \<Rightarrow> orient_2d \<Rightarrow> bool \<Rightarrow> cnt_t \<Rightarrow> cnt_t \<Rightarrow> via_heap
     \<Rightarrow> via_param result option" where
  "via_search vi bdim vdir dir adj_dir ext nx_max ny_max heap =
     (if uh_empty heap then Some (Inr no_via)
      else (case opt_via vi bdim dir adj_dir ext (snd (uh_top heap)) of
              Inl e \<Rightarrow> Some (Inl e)
            | Inr st \<Rightarrow>
                if fst (os_sp st) < 0
                then via_search vi bdim vdir dir adj_dir ext nx_max ny_max
                       (uh_pop (via_expand nx_max ny_max heap))
                else Some (Inr (via_solution vi vdir (snd (uh_top heap)) st))))"

definition min_spacing :: "via_info \<Rightarrow> vec_t" where
  "min_spacing vi =
     foldl (\<lambda>m arr. (min (fst m) (fst arr), min (snd m) (snd arr))) (vi_sp vi) (vi_sp2_list vi @ vi_sp3_list vi)"

definition vi_get_via_param ::
  "via_info \<Rightarrow> vec_t \<Rightarrow> direction \<Rightarrow> orient_2d \<Rightarrow> orient_2d \<Rightarrow> bool \<Rightarrow> via_param result option" where
  "vi_get_via_param vi bdim vdir ex_dir ex_adj_dir ext =
     (let min_sp = min_spacing vi in
      (case bindR (get_n_max (fst bdim) (fst (vi_cut_dim vi)) (fst min_sp)) (\<lambda>nx_max.
            bindR (get_n_max (snd bdim) (snd (vi_cut_dim vi)) (snd min_sp)) (\<lambda>ny_max. Inr (nx_max, ny_max))) of
         Inl e \<Rightarrow> Some (Inl e)
       | Inr (nx_max, ny_max) \<Rightarrow>
           if nx_max = 0 \<or> ny_max = 0 then Some (Inr no_via)
           else via_search vi bdim vdir ex_dir ex_adj_dir ext nx_max ny_max
                  (uh_push uh_new (nx_max * ny_max, nx_max, ny_max))))"

end
