(* ===== verification/Via_Search.thy ===== *)
theory Via_Search
  imports Via_Info
begin

text \<open>
  What the search for a via finds, and when it ends.  The loop only ever tries three numbers of cuts:
  the largest one, and those with one column or one row less.
\<close>

section \<open>Legal vias\<close>

definition via_rules_ok :: "via_info \<Rightarrow> bool" where
  "via_rules_ok vi \<longleftrightarrow>
     (let num = (\<lambda>i. 0 \<le> i \<and> i < 2 ^ 31) in
      0 < fst (vi_cut_dim vi) \<and> fst (vi_cut_dim vi) < 2 ^ 31 \<and>
      0 < snd (vi_cut_dim vi) \<and> snd (vi_cut_dim vi) < 2 ^ 31 \<and>
      (\<forall>sp\<in>set (vi_sp vi # vi_sp2_list vi @ vi_sp3_list vi). num (fst sp) \<and> num (snd sp)) \<and>
      (\<forall>encs\<in>{fst (vi_enc_list vi), snd (vi_enc_list vi)}. encs \<noteq> [] \<and>
        (\<forall>d\<in>set encs. \<forall>e\<in>set (vd_enc_list d). 0 \<le> fst e \<and> 0 \<le> snd e)))"

definition enc_le :: "vec_t \<Rightarrow> vec_t \<Rightarrow> bool" where
  "enc_le e f \<longleftrightarrow> fst e \<le> fst f \<and> snd e \<le> snd f"

definition vp_arr :: "via_param \<Rightarrow> vec_t" where
  "vp_arr p = (vp_arr_dim p Horizontal, vp_arr_dim p Vertical)"

text \<open>
  One layer of a via: its enclosure of the cuts is at least one that the rules for the width of the
  wire list, this one fits into the wire, and the metal is not wider than the wire.
\<close>

definition layer_legal ::
  "venc_info \<Rightarrow> vec_t \<Rightarrow> orient_2d \<Rightarrow> bool \<Rightarrow> direction \<Rightarrow> via_param \<Rightarrow> bool" where
  "layer_legal enc_info bdim dir ext vdir p \<longleftrightarrow>
     (\<exists>encs e. get_enc_list enc_info (at_orient bdim (perpendicular dir)) = Inr encs \<and> e \<in> set encs \<and>
        enc_passes bdim (vp_arr p) dir ext e \<and> enc_le e (at_dir (vp_enc p) vdir)) \<and>
     vp_metal_dim p (perpendicular dir) vdir \<le> at_orient bdim (perpendicular dir)"

definition via_legal ::
  "via_info \<Rightarrow> vec_t \<Rightarrow> direction \<Rightarrow> orient_2d \<Rightarrow> orient_2d \<Rightarrow> bool \<Rightarrow> via_param \<Rightarrow> bool" where
  "via_legal vi bdim vdir dir adj_dir ext p \<longleftrightarrow>
     1 \<le> fst (vp_num p) \<and> 1 \<le> snd (vp_num p) \<and> vp_cut_dim p = vi_cut_dim vi \<and>
     (\<exists>sp\<in>set (sp_list_for vi (vp_num p)).
        fst (vp_cut_spacing p) = (if fst (vp_num p) = 1 then 0 else fst sp) \<and>
        snd (vp_cut_spacing p) = (if snd (vp_num p) = 1 then 0 else snd sp)) \<and>
     layer_legal (fst (vi_enc_list vi)) bdim dir ext vdir p \<and>
     layer_legal (snd (vi_enc_list vi)) bdim adj_dir ext (flip_dir vdir) p"

section \<open>One number of cuts\<close>

lemma get_enc_list_mem:
  "ds \<noteq> [] \<Longrightarrow> \<exists>d\<in>set ds. get_enc_list ds w = Inr (vd_enc_list d)"
  by (induction ds w rule: get_enc_list.induct) auto

lemma foldl_min_mem:
  "foldl (\<lambda>a x. if P x then min a (f x) else a) a xs = a \<or>
   (\<exists>x\<in>set xs. P x \<and> foldl (\<lambda>a x. if P x then min a (f x) else a) a xs = f x)"
proof (induction xs rule: rev_induct)
  case (snoc x xs)
  then show ?case by (auto simp: min_def)
qed simp

lemma perp_simps [simp]: "perpendicular Horizontal = Vertical" "perpendicular Vertical = Horizontal"
  by (simp_all add: perpendicular_def)

lemma at_orient_pair [simp]:
  "at_orient (orient_pair dir x y) dir = x" "at_orient (orient_pair dir x y) (perpendicular dir) = y"
  by (cases dir; simp)+

lemma vi_metal_dim_spec:
  assumes "vi_metal_dim bdim arr enc_info dir ext = Inr m" and "fst m \<noteq> 0"
  obtains encs e where "get_enc_list enc_info (at_orient bdim (perpendicular dir)) = Inr encs" and "e \<in> set encs"
    and "enc_passes bdim arr dir ext e"
    and "at_orient m dir = max (at_orient (enc_dim e arr) dir) (at_orient bdim dir)"
    and "at_orient m (perpendicular dir) = at_orient bdim (perpendicular dir)"
proof -
  obtain encs where encs: "get_enc_list enc_info (at_orient bdim (perpendicular dir)) = Inr encs"
    using assms(1) by (auto simp: vi_metal_dim_def Let_def result_simps)
  define opt where "opt = foldl (\<lambda>a e. if enc_passes bdim arr dir ext e
    then min a (at_orient (enc_dim e arr) dir) else a) MAX_INT encs"
  have m: "m = (if opt = MAX_INT then (0, 0)
      else orient_pair dir (max opt (at_orient bdim dir)) (at_orient bdim (perpendicular dir)))"
    using assms(1) encs by (auto simp: vi_metal_dim_def Let_def opt_def)
  then have "opt \<noteq> MAX_INT" using assms(2) by auto
  moreover have "opt = MAX_INT \<or> (\<exists>e\<in>set encs. enc_passes bdim arr dir ext e \<and> opt = at_orient (enc_dim e arr) dir)"
    unfolding opt_def by (rule foldl_min_mem)
  ultimately obtain e where "e \<in> set encs" "enc_passes bdim arr dir ext e" "opt = at_orient (enc_dim e arr) dir"
    by blast
  with encs m \<open>opt \<noteq> MAX_INT\<close> that show thesis by simp
qed

lemma vi_metal_dim_defined: "enc_info \<noteq> [] \<Longrightarrow> \<exists>m. vi_metal_dim bdim arr enc_info dir ext = Inr m"
  using get_enc_list_mem [of enc_info "at_orient bdim (perpendicular dir)"]
  by (auto simp: vi_metal_dim_def Let_def)

text \<open>What is known of a state with a spacing in it.\<close>

definition os_arr_of :: "via_info \<Rightarrow> cnt_t \<times> cnt_t \<Rightarrow> vec_t \<Rightarrow> vec_t" where
  "os_arr_of vi num sp =
     (vi_arr_dim (fst num) (fst (vi_cut_dim vi)) (fst sp), vi_arr_dim (snd num) (snd (vi_cut_dim vi)) (snd sp))"

definition os_good ::
  "via_info \<Rightarrow> vec_t \<Rightarrow> orient_2d \<Rightarrow> orient_2d \<Rightarrow> bool \<Rightarrow> cnt_t \<times> cnt_t \<Rightarrow> opt_state \<Rightarrow> bool" where
  "os_good vi bdim dir adj_dir ext num st \<longleftrightarrow>
     os_sp st \<in> set (sp_list_for vi num) \<and> fst (os_arr_dim st) \<noteq> 0 \<and> snd (os_arr_dim st) \<noteq> 0 \<and> os_arr_dim st = os_arr_of vi num (os_sp st) \<and>
     vi_metal_dim bdim (os_arr_dim st) (fst (vi_enc_list vi)) dir ext = Inr (os_mdim st) \<and> fst (os_mdim st) \<noteq> 0 \<and>
     vi_metal_dim bdim (os_arr_dim st) (snd (vi_enc_list vi)) adj_dir ext = Inr (os_adj_mdim st) \<and>
     fst (os_adj_mdim st) \<noteq> 0"

lemma opt_via_good:
  assumes "opt_via vi bdim dir adj_dir ext num = Inr st" and "\<not> fst (os_sp st) < 0"
  shows "os_good vi bdim dir adj_dir ext num st"
proof -
  have "st = opt_start \<or> os_good vi bdim dir adj_dir ext num st"
    using assms(1) unfolding opt_via_def
  proof (rule foldR_invariant)
    fix s sp s'
    assume sp: "sp \<in> set (sp_list_for vi num)" and s: "s = opt_start \<or> os_good vi bdim dir adj_dir ext num s"
      and step: "opt_step vi bdim dir adj_dir ext num s sp = Inr s'"
    show "s' = opt_start \<or> os_good vi bdim dir adj_dir ext num s'"
    proof (cases "s' = s")
      case False
      with step sp show ?thesis
        by (auto simp: opt_step_def Let_def os_arr_of_def [symmetric] result_simps os_good_def split: if_splits)
    qed (use s in simp)
  qed simp
  with assms(2) show ?thesis by (auto simp: opt_start_def)
qed

lemma opt_via_defined:
  assumes "fst (vi_enc_list vi) \<noteq> []" and "snd (vi_enc_list vi) \<noteq> []"
  shows "\<exists>st. opt_via vi bdim dir adj_dir ext num = Inr st"
proof -
  have "\<exists>f. \<forall>arr. vi_metal_dim bdim arr (fst (vi_enc_list vi)) dir ext = Inr (f arr)"
    "\<exists>g. \<forall>arr. vi_metal_dim bdim arr (snd (vi_enc_list vi)) adj_dir ext = Inr (g arr)"
    by (intro choice allI vi_metal_dim_defined assms)+
  then obtain f g where fg: "\<And>arr. vi_metal_dim bdim arr (fst (vi_enc_list vi)) dir ext = Inr (f arr)"
    "\<And>arr. vi_metal_dim bdim arr (snd (vi_enc_list vi)) adj_dir ext = Inr (g arr)" by blast
  have step: "\<exists>s'. opt_step vi bdim dir adj_dir ext num s sp = Inr s'" for s sp
    by (simp add: opt_step_def Let_def fg)
  have "\<exists>s'. foldR (opt_step vi bdim dir adj_dir ext num) s sps = Inr s'" for s sps
  proof (induction sps arbitrary: s)
    case (Cons sp sps)
    obtain s' where "opt_step vi bdim dir adj_dir ext num s sp = Inr s'" using step by blast
    with Cons show ?case by simp
  qed simp
  then show ?thesis by (simp add: opt_via_def)
qed

section \<open>What the search returns\<close>

lemma at_orient_eqI: "at_orient v dir = at_orient w dir \<Longrightarrow> at_orient v (perpendicular dir) = at_orient w (perpendicular dir) \<Longrightarrow> v = w"
  by (cases dir; cases v; cases w) simp_all

lemma sdiv2_ge: "2 * e \<le> (d :: int) \<Longrightarrow> e \<le> d sdiv 2"
  by (auto simp: signed_divide_int_def sgn_if zdiv_zminus1_eq_if split: if_splits)

lemma sdiv2_le: "0 \<le> (d :: int) \<Longrightarrow> 2 * (d sdiv 2) \<le> d"
  by (auto simp: signed_divide_int_def sgn_if)

lemma set_via_enc_twice: "set_via_enc_offset x x y y = ((x, y), (0, 0))"
proof -
  have "(z + z) sdiv 2 = z" for z :: int by (auto simp: signed_divide_int_def sgn_if)
  then show ?thesis by (simp only: set_via_enc_offset_def Let_def prod.sel diff_self)
qed

lemma via_solution_simps [simp]:
  "vp_num (via_solution vi vdir num st) = num"
  "vp_cut_dim (via_solution vi vdir num st) = vi_cut_dim vi"
  "vp_cut_spacing (via_solution vi vdir num st) =
     (if fst num = 1 then 0 else fst (os_sp st), if snd num = 1 then 0 else snd (os_sp st))"
  "at_dir (vp_enc (via_solution vi vdir num st)) vdir =
     ((fst (os_mdim st) - fst (os_arr_dim st)) sdiv 2, (snd (os_mdim st) - snd (os_arr_dim st)) sdiv 2)"
  "at_dir (vp_enc (via_solution vi vdir num st)) (flip_dir vdir) =
     ((fst (os_adj_mdim st) - fst (os_arr_dim st)) sdiv 2, (snd (os_adj_mdim st) - snd (os_arr_dim st)) sdiv 2)"
  by (cases vdir; simp only: via_solution_def make_via_param_def set_via_enc_twice Let_def prod.case dir_pair.simps
      via_param.simps at_dir.simps flip_dir.simps prod.sel prod.collapse)+

lemma sp_list_mem: "sp \<in> set (sp_list_for vi num) \<Longrightarrow> sp \<in> set (vi_sp vi # vi_sp2_list vi @ vi_sp3_list vi)"
  by (auto simp: sp_list_for_def split: if_splits)

text \<open>The array that is recomputed from the parameters is the one that the search has used.\<close>

lemma arr_dim_again:
  assumes "0 < w" and "w < 2 ^ 31" and "vi_arr_dim n w sp \<noteq> 0"
  shows "offset_of_cnt (n * cnt_of_int (w + (if n = 1 then 0 else sp)) - cnt_of_int (if n = 1 then 0 else sp))
    = vi_arr_dim n w sp"
proof -
  have w: "offset_of_cnt (cnt_of_int w) = w" using assms by (intro offset_of_small) auto
  have "cnt_of_int (w + sp) - cnt_of_int sp = cnt_of_int w" by (simp add: cnt_of_int_def)
  then show ?thesis using assms(3) w by (auto simp: vi_arr_dim_def cnt_of_int_def split: if_splits)
qed

lemma vp_arr_solution:
  assumes "via_rules_ok vi" and "os_good vi bdim dir adj_dir ext num st"
  shows "vp_arr (via_solution vi vdir num st) = os_arr_dim st"
proof (rule prod_eqI)
  have arr: "os_arr_dim st = os_arr_of vi num (os_sp st)" "fst (os_arr_dim st) \<noteq> 0" "snd (os_arr_dim st) \<noteq> 0"
    using assms(2) unfolding os_good_def by blast+
  have w: "0 < fst (vi_cut_dim vi)" "fst (vi_cut_dim vi) < 2 ^ 31" "0 < snd (vi_cut_dim vi)" "snd (vi_cut_dim vi) < 2 ^ 31"
    using assms(1) by (simp_all add: via_rules_ok_def Let_def)
  show "fst (vp_arr (via_solution vi vdir num st)) = fst (os_arr_dim st)"
    using arr_dim_again [OF w(1,2), of "fst num" "fst (os_sp st)"] arr(2)
    by (simp add: vp_arr_def vp_arr_dim_def Let_def arr(1) os_arr_of_def)
  show "snd (vp_arr (via_solution vi vdir num st)) = snd (os_arr_dim st)"
    using arr_dim_again [OF w(3,4), of "snd num" "snd (os_sp st)"] arr(3)
    by (simp add: vp_arr_def vp_arr_dim_def Let_def arr(1) os_arr_of_def)
qed

lemma layer_legal_solution:
  assumes "encs \<noteq> []" and "\<forall>d\<in>set encs. \<forall>e\<in>set (vd_enc_list d). 0 \<le> fst e \<and> 0 \<le> snd e"
    and "vi_metal_dim bdim (vp_arr p) encs dir ext = Inr m" and "fst m \<noteq> 0"
    and "at_dir (vp_enc p) vdir = ((fst m - fst (vp_arr p)) sdiv 2, (snd m - snd (vp_arr p)) sdiv 2)"
  shows "layer_legal encs bdim dir ext vdir p"
proof -
  obtain es e where es: "get_enc_list encs (at_orient bdim (perpendicular dir)) = Inr es" "e \<in> set es"
    and e: "enc_passes bdim (vp_arr p) dir ext e"
    and m: "at_orient m dir = max (at_orient (enc_dim e (vp_arr p)) dir) (at_orient bdim dir)"
      "at_orient m (perpendicular dir) = at_orient bdim (perpendicular dir)"
    by (rule vi_metal_dim_spec [OF assms(3,4)])
  have e0: "0 \<le> fst e" "0 \<le> snd e"
    using get_enc_list_mem [OF assms(1), of "at_orient bdim (perpendicular dir)"] es assms(2) by auto
  have "at_orient (enc_dim e (vp_arr p)) o' \<le> at_orient m o'" for o'
    using e m by (cases dir; cases o') (auto simp: enc_passes_def)
  from this [of Horizontal] this [of Vertical]
  have d: "2 * fst e \<le> fst m - fst (vp_arr p)" "2 * snd e \<le> snd m - snd (vp_arr p)"
    by (simp_all add: enc_dim_def)
  then have "enc_le e (at_dir (vp_enc p) vdir)"
    unfolding enc_le_def assms(5) using sdiv2_ge by simp
  moreover have "vp_metal_dim p o' vdir \<le> at_orient m o'" for o'
    unfolding vp_metal_dim_def assms(5)
    using sdiv2_le [of "fst m - fst (vp_arr p)"] sdiv2_le [of "snd m - snd (vp_arr p)"] d e0
    by (cases o') (simp_all add: vp_arr_def)
  from this [of "perpendicular dir"] m(2)
  have "vp_metal_dim p (perpendicular dir) vdir \<le> at_orient bdim (perpendicular dir)" by simp
  ultimately show ?thesis unfolding layer_legal_def using es e by blast
qed

lemma via_legal_solution:
  assumes "via_rules_ok vi" and "os_good vi bdim dir adj_dir ext num st" and "1 \<le> fst num" and "1 \<le> snd num"
  shows "via_legal vi bdim vdir dir adj_dir ext (via_solution vi vdir num st)"
proof -
  note arr = vp_arr_solution [OF assms(1,2), of vdir]
  have encs: "fst (vi_enc_list vi) \<noteq> []" "snd (vi_enc_list vi) \<noteq> []"
    "\<forall>d\<in>set (fst (vi_enc_list vi)). \<forall>e\<in>set (vd_enc_list d). 0 \<le> fst e \<and> 0 \<le> snd e"
    "\<forall>d\<in>set (snd (vi_enc_list vi)). \<forall>e\<in>set (vd_enc_list d). 0 \<le> fst e \<and> 0 \<le> snd e"
    using assms(1) by (simp_all add: via_rules_ok_def Let_def)
  have "os_sp st \<in> set (sp_list_for vi num)"
    and m: "vi_metal_dim bdim (os_arr_dim st) (fst (vi_enc_list vi)) dir ext = Inr (os_mdim st)" "fst (os_mdim st) \<noteq> 0"
    and am: "vi_metal_dim bdim (os_arr_dim st) (snd (vi_enc_list vi)) adj_dir ext = Inr (os_adj_mdim st)"
      "fst (os_adj_mdim st) \<noteq> 0"
    using assms(2) unfolding os_good_def by blast+
  moreover have "layer_legal (fst (vi_enc_list vi)) bdim dir ext vdir (via_solution vi vdir num st)"
    by (rule layer_legal_solution [OF encs(1,3) _ m(2)]) (simp_all add: arr m(1))
  moreover have "layer_legal (snd (vi_enc_list vi)) bdim adj_dir ext (flip_dir vdir) (via_solution vi vdir num st)"
    by (rule layer_legal_solution [OF encs(2,4) _ am(2)]) (simp_all add: arr am(1))
  ultimately show ?thesis
    using assms(3,4) unfolding via_legal_def via_solution_simps prod.sel by blast
qed

section \<open>The loop\<close>

definition heap_ok :: "via_heap \<Rightarrow> bool" where
  "heap_ok h \<longleftrightarrow> uh_inv h \<and> (\<forall>x\<in>uh_items h. 1 \<le> fst (snd x) \<and> 1 \<le> snd (snd x))"

lemma heap_ok_top:
  assumes "heap_ok h" and "\<not> uh_empty h"
  shows "1 \<le> fst (snd (uh_top h))" and "1 \<le> snd (snd (uh_top h))"
proof -
  have "uh_top h \<in> uh_items h"
    using assms by (cases "uh_heap h") (auto simp: heap_ok_def uh_inv_def uh_top_def uh_empty_def)
  then show "1 \<le> fst (snd (uh_top h))" and "1 \<le> snd (snd (uh_top h))"
    using assms(1) by (auto simp: heap_ok_def)
qed

lemma word_pred_ge: "1 < (n :: cnt_t) \<Longrightarrow> 1 \<le> n - 1"
  by (simp add: word_le_nat_alt word_less_nat_alt unat_sub_if')

lemma heap_ok_step:
  assumes "heap_ok h" and "\<not> uh_empty h" and "1 \<le> nx" and "1 \<le> ny"
  shows "heap_ok (uh_pop (via_expand nx ny h))"
proof -
  have push: "heap_ok (uh_push g x)" if "heap_ok g" "1 \<le> fst (snd x)" "1 \<le> snd (snd x)" for g x
    using that by (auto simp: heap_ok_def uh_push_spec)
  have ok: "heap_ok (via_expand nx ny h)"
    unfolding via_expand_def Let_def using assms by (auto intro!: push simp: word_pred_ge)
  moreover have "\<not> uh_empty (uh_push g x)" if "\<not> uh_empty g" for g and x :: "cnt_t \<times> cnt_t \<times> cnt_t"
    using that by (cases "uh_heap g") (auto simp: uh_empty_def uh_push_def)
  then have "\<not> uh_empty (via_expand nx ny h)" using assms(2) by (simp add: via_expand_def Let_def)
  ultimately show ?thesis by (auto simp: heap_ok_def uh_pop_spec)
qed

lemma via_search_legal:
  assumes "via_search vi bdim vdir dir adj_dir ext nx ny h = Some (Inr p)"
    and "via_rules_ok vi" and "1 \<le> nx" and "1 \<le> ny" and "heap_ok h"
  shows "p = no_via \<or> via_legal vi bdim vdir dir adj_dir ext p"
proof -
  define P where "P = (\<lambda>vi bdim vdir dir adj_dir ext (nx :: cnt_t) (ny :: cnt_t) h (r :: via_param result). r = Inr p \<longrightarrow> via_rules_ok vi \<longrightarrow> 1 \<le> nx \<longrightarrow>
    1 \<le> ny \<longrightarrow> heap_ok h \<longrightarrow> p = no_via \<or> via_legal vi bdim vdir dir adj_dir ext p)"
  have "P vi bdim vdir dir adj_dir ext nx ny h (Inr p)"
  proof (rule via_search.raw_induct [where P = P, OF _ assms(1)])
    fix srch vi bdim vdir dir adj_dir ext nx ny h r
    assume IH: "\<And>vi bdim vdir dir adj_dir ext nx ny h r. srch vi bdim vdir dir adj_dir ext nx ny h = Some r \<Longrightarrow>
        P vi bdim vdir dir adj_dir ext nx ny h r"
      and step: "(if uh_empty h then Some (Inr no_via)
        else case opt_via vi bdim dir adj_dir ext (snd (uh_top h)) of Inl e \<Rightarrow> Some (Inl e)
          | Inr st \<Rightarrow> if fst (os_sp st) < 0
              then srch vi bdim vdir dir adj_dir ext nx ny (uh_pop (via_expand nx ny h))
              else Some (Inr (via_solution vi vdir (snd (uh_top h)) st))) = Some r"
    show "P vi bdim vdir dir adj_dir ext nx ny h r"
      unfolding P_def
    proof (intro impI)
      assume *: "r = Inr p" "via_rules_ok vi" "1 \<le> nx" "1 \<le> ny" "heap_ok h"
      show "p = no_via \<or> via_legal vi bdim vdir dir adj_dir ext p"
      proof (cases "uh_empty h")
        case False
        then obtain st where st: "opt_via vi bdim dir adj_dir ext (snd (uh_top h)) = Inr st"
          using step * by (auto split: sum.splits)
        show ?thesis
        proof (cases "fst (os_sp st) < 0")
          case True
          then show ?thesis
            using IH [of vi bdim vdir dir adj_dir ext nx ny "uh_pop (via_expand nx ny h)" r] step * False st
              heap_ok_step [OF *(5) False *(3,4)] by (simp add: P_def)
        next
          case neg: False
          then have "p = via_solution vi vdir (snd (uh_top h)) st" using step * False st by simp
          then show ?thesis
            using via_legal_solution [OF *(2) opt_via_good [OF st neg]] heap_ok_top [OF *(5) False] by simp
        qed
      qed (use step * in simp)
    qed
  qed
  with assms show ?thesis by (simp add: P_def)
qed

text \<open>
  C11.  A via that the search returns is legal, for sensible rules: it has at least one cut in each
  direction, a spacing from the table for its numbers of cuts, and on both layers an enclosure that
  the rules list and the wire admits.  The enclosures of the bottom layer are always used for the
  layer that is asked for, also when that is the upper one.
\<close>

theorem vi_get_via_param_legal:
  assumes "via_rules_ok vi" and "vi_get_via_param vi bdim vdir dir adj_dir ext = Some (Inr p)"
  shows "vp_empty p \<or> via_legal vi bdim vdir dir adj_dir ext p"
proof (cases "p = no_via")
  case False
  then obtain nx ny where nz: "nx \<noteq> 0" "ny \<noteq> 0"
    and search: "via_search vi bdim vdir dir adj_dir ext nx ny (uh_push uh_new (nx * ny, nx, ny)) = Some (Inr p)"
    using assms(2) by (auto simp: vi_get_via_param_def Let_def result_simps split: sum.splits if_splits)
  have one: "1 \<le> nx" "1 \<le> ny" using nz by (simp_all add: word_le_nat_alt Suc_le_eq word_gt_0 unat_gt_0)
  have "heap_ok (uh_push uh_new (nx * ny, nx, ny))"
    using one by (simp add: heap_ok_def uh_push_spec uh_inv_new) (simp add: uh_new_def)
  from via_search_legal [OF search assms(1) one this] False show ?thesis by simp
qed (simp add: vp_empty_def no_via_def)

section \<open>When it ends\<close>

definition via_fails :: "via_info \<Rightarrow> vec_t \<Rightarrow> orient_2d \<Rightarrow> orient_2d \<Rightarrow> bool \<Rightarrow> cnt_t \<times> cnt_t \<Rightarrow> bool" where
  "via_fails vi bdim dir adj_dir ext num \<longleftrightarrow>
     (case opt_via vi bdim dir adj_dir ext num of Inl e \<Rightarrow> False | Inr st \<Rightarrow> fst (os_sp st) < 0)"

lemma via_search_fail:
  "\<not> uh_empty h \<Longrightarrow> via_fails vi bdim dir adj_dir ext (snd (uh_top h)) \<Longrightarrow>
   via_search vi bdim vdir dir adj_dir ext nx ny h
     = via_search vi bdim vdir dir adj_dir ext nx ny (uh_pop (via_expand nx ny h))"
  by (subst via_search.simps) (simp add: via_fails_def split: sum.splits)

lemma via_search_stop:
  "uh_empty h \<or> \<not> via_fails vi bdim dir adj_dir ext (snd (uh_top h)) \<Longrightarrow>
   via_search vi bdim vdir dir adj_dir ext nx ny h \<noteq> None"
  by (subst via_search.simps) (auto simp: via_fails_def split: sum.splits)

lemma via_search_loops:
  assumes "\<not> uh_empty h" and "via_fails vi bdim dir adj_dir ext (snd (uh_top h))"
    and "uh_pop (via_expand nx ny h) = h"
  shows "via_search vi bdim vdir dir adj_dir ext nx ny h = None"
proof (rule ccontr)
  assume "via_search vi bdim vdir dir adj_dir ext nx ny h \<noteq> None"
  then obtain r where r: "via_search vi bdim vdir dir adj_dir ext nx ny h = Some r" by blast
  define P where "P = (\<lambda>vi' bdim' (vdir' :: direction) dir' adj_dir' ext' nx' ny' h' (r :: via_param result).
    (vi', bdim', dir', adj_dir', ext', nx', ny', h') \<noteq> (vi, bdim, dir, adj_dir, ext, nx, ny, h))"
  have "P vi bdim vdir dir adj_dir ext nx ny h r"
  proof (rule via_search.raw_induct [where P = P, OF _ r])
    fix srch vi' bdim' vdir' dir' adj_dir' ext' nx' ny' h' r
    assume IH: "\<And>vi bdim vdir dir adj_dir ext nx ny h r. srch vi bdim vdir dir adj_dir ext nx ny h = Some r \<Longrightarrow>
        P vi bdim vdir dir adj_dir ext nx ny h r"
      and step: "(if uh_empty h' then Some (Inr no_via)
        else case opt_via vi' bdim' dir' adj_dir' ext' (snd (uh_top h')) of Inl e \<Rightarrow> Some (Inl e)
          | Inr st \<Rightarrow> if fst (os_sp st) < 0
              then srch vi' bdim' vdir' dir' adj_dir' ext' nx' ny' (uh_pop (via_expand nx' ny' h'))
              else Some (Inr (via_solution vi' vdir' (snd (uh_top h')) st))) = Some r"
    show "P vi' bdim' vdir' dir' adj_dir' ext' nx' ny' h' r"
      unfolding P_def
    proof
      assume "(vi', bdim', dir', adj_dir', ext', nx', ny', h') = (vi, bdim, dir, adj_dir, ext, nx, ny, h)"
      then have eq: "vi' = vi" "bdim' = bdim" "dir' = dir" "adj_dir' = adj_dir" "ext' = ext" "nx' = nx" "ny' = ny"
        "h' = h" by simp_all
      have "srch vi bdim vdir' dir adj_dir ext nx ny h = Some r"
        using step assms unfolding eq by (auto simp: via_fails_def split: sum.splits)
      from IH [OF this] show False by (simp add: P_def)
    qed
  qed
  then show False by (simp add: P_def)
qed

text \<open>The heaps that occur.\<close>

lemma heap_two:
  assumes "(a :: 'a::linorder) < f" and "b < f" and "a \<noteq> b"
  shows "uh_pop (uh_push (uh_push \<lparr>uh_heap = [f], uh_items = {f}\<rparr> a) b)
      = \<lparr>uh_heap = [max a b, min a b], uh_items = {max a b, min a b}\<rparr>"
    and "uh_pop (uh_push (uh_push \<lparr>uh_heap = [max a b, min a b], uh_items = {max a b, min a b}\<rparr> a) b)
      = \<lparr>uh_heap = [min a b], uh_items = {min a b}\<rparr>"
    and "uh_pop (uh_push (uh_push \<lparr>uh_heap = [min a b], uh_items = {min a b}\<rparr> a) b)
      = \<lparr>uh_heap = [min a b], uh_items = {min a b}\<rparr>"
  using assms by (cases a b rule: linorder_cases; auto simp: uh_pop_def uh_push_def uh_top_def)+

lemma heap_one:
  assumes "(a :: 'a::linorder) < f"
  shows "uh_pop (uh_push \<lparr>uh_heap = [f], uh_items = {f}\<rparr> a) = \<lparr>uh_heap = [a], uh_items = {a}\<rparr>"
    and "uh_pop (uh_push \<lparr>uh_heap = [a], uh_items = {a}\<rparr> a) = \<lparr>uh_heap = [], uh_items = {}\<rparr>"
  using assms by (auto simp: uh_pop_def uh_push_def uh_top_def)

lemma heap_single [simp]:
  "\<not> uh_empty \<lparr>uh_heap = x # xs, uh_items = s\<rparr>" "uh_top \<lparr>uh_heap = x # xs, uh_items = s\<rparr> = x"
  "uh_empty \<lparr>uh_heap = [], uh_items = s\<rparr>"
  "uh_pop \<lparr>uh_heap = [x], uh_items = {x}\<rparr> = \<lparr>uh_heap = [], uh_items = {}\<rparr>"
  "uh_push uh_new x = \<lparr>uh_heap = [x], uh_items = {x}\<rparr>"
  by (simp_all add: uh_empty_def uh_top_def uh_pop_def uh_push_def uh_new_def)

lemma less_products:
  fixes nx ny :: cnt_t
  assumes "unat nx * unat ny < 2 ^ 64" and "1 \<le> nx" and "1 \<le> ny"
  shows "1 < nx \<Longrightarrow> (nx - 1) * ny < nx * ny" and "1 < ny \<Longrightarrow> nx * (ny - 1) < nx * ny"
proof -
  have u: "unat (nx * ny) = unat nx * unat ny" using assms(1) by (intro unat_mult_lem [THEN iffD1]) simp
  have pos: "0 < unat nx" "0 < unat ny" using assms(2,3) by (simp_all add: word_le_nat_alt)
  have dec: "unat (a - 1) = unat a - 1" if "1 < a" for a :: cnt_t
    using that by (simp add: word_less_nat_alt unat_sub_if')
  show "(nx - 1) * ny < nx * ny" if "1 < nx"
  proof -
    have "(unat nx - 1) * unat ny < unat nx * unat ny" using pos by simp
    moreover from less_trans [OF this assms(1)] have "unat ((nx - 1) * ny) = (unat nx - 1) * unat ny"
      using unat_mult_lem [of "nx - 1" ny] by (simp add: dec [OF that])
    ultimately show ?thesis by (simp add: word_less_nat_alt u)
  qed
  show "nx * (ny - 1) < nx * ny" if "1 < ny"
  proof -
    have "unat nx * (unat ny - 1) < unat nx * unat ny" using pos by simp
    moreover from less_trans [OF this assms(1)] have "unat (nx * (ny - 1)) = unat nx * (unat ny - 1)"
      using unat_mult_lem [of nx "ny - 1"] by (simp add: dec [OF that])
    ultimately show ?thesis by (simp add: word_less_nat_alt u)
  qed
qed

lemma via_search_returns:
  fixes nx ny :: cnt_t
  assumes small: "unat nx * unat ny < 2 ^ 64" and one: "1 \<le> nx" "1 \<le> ny"
  shows "via_search vi bdim vdir dir adj_dir ext nx ny (uh_push uh_new (nx * ny, nx, ny)) = None \<longleftrightarrow>
    1 < nx \<and> 1 < ny \<and> via_fails vi bdim dir adj_dir ext (nx, ny) \<and>
    via_fails vi bdim dir adj_dir ext (nx - 1, ny) \<and> via_fails vi bdim dir adj_dir ext (nx, ny - 1)"
    (is "?S (uh_push uh_new ?f) = None \<longleftrightarrow> 1 < nx \<and> 1 < ny \<and> ?fails (nx, ny) \<and> ?fails (nx - 1, ny) \<and> ?fails (nx, ny - 1)")
proof (cases "?fails (nx, ny)")
  case False
  then have "?S (uh_push uh_new ?f) \<noteq> None" by (intro via_search_stop) simp
  with False show ?thesis by blast
next
  case fail: True
  let ?a = "((nx - 1) * ny, nx - 1, ny)" and ?b = "(nx * (ny - 1), nx, ny - 1)"
  let ?F = "\<lparr>uh_heap = [?f], uh_items = {?f}\<rparr>"
  note less = less_products [OF small one]
  have first: "?S (uh_push uh_new ?f) = ?S (uh_pop (via_expand nx ny ?F))"
    using fail by (simp only: heap_single(5)) (intro via_search_fail, simp_all)
  consider (both) "1 < nx" "1 < ny" | (x) "1 < nx" "ny = 1" | (y) "nx = 1" "1 < ny" | (none) "nx = 1" "ny = 1"
    using one by (metis order_le_imp_less_or_eq)
  then show ?thesis
  proof cases
    case both
    have ab: "?a < ?f" "?b < ?f" "?a \<noteq> ?b" using less both by simp_all
    let ?M = "max ?a ?b" and ?m = "min ?a ?b"
    have ex: "via_expand nx ny h = uh_push (uh_push h ?a) ?b" for h using both by (simp add: via_expand_def Let_def)
    have two: "?S (uh_push uh_new ?f) = ?S \<lparr>uh_heap = [?M, ?m], uh_items = {?M, ?m}\<rparr>"
      unfolding first ex by (simp only: heap_two(1) [OF ab])
    have ends: "?fails (snd ?M) \<and> ?fails (snd ?m) \<longleftrightarrow> ?fails (nx - 1, ny) \<and> ?fails (nx, ny - 1)"
      by (cases "?a \<le> ?b") (auto simp: max_def min_def)
    show ?thesis
    proof (cases "?fails (snd ?M)")
      case False
      then have "?S \<lparr>uh_heap = [?M, ?m], uh_items = {?M, ?m}\<rparr> \<noteq> None"
        by (intro via_search_stop) (simp only: heap_single(2) simp_thms)
      then show ?thesis unfolding two using False ends by blast
    next
      case failM: True
      have three: "?S (uh_push uh_new ?f) = ?S \<lparr>uh_heap = [?m], uh_items = {?m}\<rparr>"
        unfolding two using failM
        by (subst via_search_fail) (simp_all only: heap_single(1,2) ex heap_two(2) [OF ab] simp_thms)
      show ?thesis
      proof (cases "?fails (snd ?m)")
        case False
        then have "?S \<lparr>uh_heap = [?m], uh_items = {?m}\<rparr> \<noteq> None"
          by (intro via_search_stop) (simp only: heap_single(2) simp_thms)
        then show ?thesis unfolding three using False ends by blast
      next
        case True
        then have "?S \<lparr>uh_heap = [?m], uh_items = {?m}\<rparr> = None"
          by (intro via_search_loops) (simp_all only: heap_single(1,2) ex heap_two(3) [OF ab] simp_thms)
        then show ?thesis unfolding three using True failM ends both fail by blast
      qed
    qed
  next
    case x
    have "?S (uh_pop (via_expand nx ny ?F)) = ?S \<lparr>uh_heap = [?a], uh_items = {?a}\<rparr>"
      using x heap_one(1) [of ?a ?f] less by (simp add: via_expand_def Let_def)
    moreover have "\<dots> \<noteq> None"
    proof (cases "?fails (snd ?a)")
      case True
      have "?S \<lparr>uh_heap = [?a], uh_items = {?a}\<rparr> = ?S \<lparr>uh_heap = [], uh_items = {}\<rparr>"
        using x True heap_one(2) [of ?a ?f] less by (subst via_search_fail) (simp_all add: via_expand_def Let_def)
      then show ?thesis using via_search_stop [of "\<lparr>uh_heap = [], uh_items = {}\<rparr>"] by simp
    qed (use via_search_stop in simp)
    ultimately show ?thesis using first x by simp
  next
    case y
    have "?S (uh_pop (via_expand nx ny ?F)) = ?S \<lparr>uh_heap = [?b], uh_items = {?b}\<rparr>"
      using y heap_one(1) [of ?b ?f] less by (simp add: via_expand_def Let_def)
    moreover have "\<dots> \<noteq> None"
    proof (cases "?fails (snd ?b)")
      case True
      have "?S \<lparr>uh_heap = [?b], uh_items = {?b}\<rparr> = ?S \<lparr>uh_heap = [], uh_items = {}\<rparr>"
        using y True heap_one(2) [of ?b ?f] less by (subst via_search_fail) (simp_all add: via_expand_def Let_def)
      then show ?thesis using via_search_stop [of "\<lparr>uh_heap = [], uh_items = {}\<rparr>"] by simp
    qed (use via_search_stop in simp)
    ultimately show ?thesis using first y by simp
  next
    case none
    then have "?S (uh_pop (via_expand nx ny ?F)) = ?S \<lparr>uh_heap = [], uh_items = {}\<rparr>"
      by (simp add: via_expand_def)
    with first none show ?thesis using via_search_stop [of "\<lparr>uh_heap = [], uh_items = {}\<rparr>"] by simp
  qed
qed

lemma min_spacing_range:
  assumes "via_rules_ok vi"
  shows "0 \<le> fst (min_spacing vi)" "fst (min_spacing vi) < 2 ^ 31"
    "0 \<le> snd (min_spacing vi)" "snd (min_spacing vi) < 2 ^ 31"
proof -
  define ok where "ok = (\<lambda>v :: vec_t. 0 \<le> fst v \<and> fst v < 2 ^ 31 \<and> 0 \<le> snd v \<and> snd v < 2 ^ 31)"
  have "ok (foldl (\<lambda>m arr. (min (fst m) (fst arr), min (snd m) (snd arr))) v vs)"
    if "ok v" "\<forall>w\<in>set vs. ok w" for v vs
    using that
  proof (induction vs arbitrary: v)
    case (Cons w vs)
    then have "ok (min (fst v) (fst w), min (snd v) (snd w))" by (auto simp: ok_def)
    with Cons show ?case by simp
  qed simp
  moreover have "\<forall>w\<in>set (vi_sp vi # vi_sp2_list vi @ vi_sp3_list vi). ok w"
    using assms by (simp add: via_rules_ok_def Let_def ok_def)
  ultimately have "ok (min_spacing vi)" by (simp add: min_spacing_def)
  then show "0 \<le> fst (min_spacing vi)" "fst (min_spacing vi) < 2 ^ 31"
    "0 \<le> snd (min_spacing vi)" "snd (min_spacing vi) < 2 ^ 31" by (simp_all add: ok_def)
qed

lemma get_n_max_range:
  assumes "0 \<le> dim" and "dim < 2 ^ 31" and "0 < w" and "0 \<le> sp" and "sp < 2 ^ 31"
  obtains n where "get_n_max dim w sp = Inr n" and "unat n < 2 ^ 32"
proof (cases "sp = MAX_INT")
  case True
  with that show thesis by (auto simp: get_n_max_def split: if_splits)
next
  case False
  let ?q = "(dim + sp) sdiv (w + sp)"
  have q: "?q = (dim + sp) div (w + sp)" using assms by (auto simp: signed_divide_int_def sgn_if)
  have "0 \<le> ?q" "?q < 2 ^ 32"
    using div_le_self [of "dim + sp" "w + sp"] assms unfolding q by auto
  then have "unat (cnt_of_int ?q) < 2 ^ 32"
    unfolding cnt_of_int_def by (simp add: unat_eq_nat_uint unsigned_of_int take_bit_int_eq_self)
  with False assms that show thesis by (simp add: get_n_max_def)
qed

text \<open>
  C12.  The search never returns exactly when at least two columns and two rows of cuts would have room
  and all of the largest number, the one with a column less and the one with a row less violate the
  rules on enclosures; on all other inputs it does return.
\<close>

theorem vi_get_via_param_hangs:
  assumes "via_rules_ok vi" and "0 \<le> fst bdim" and "fst bdim < 2 ^ 31" and "0 \<le> snd bdim" and "snd bdim < 2 ^ 31"
  shows "vi_get_via_param vi bdim vdir dir adj_dir ext = None \<longleftrightarrow>
    (\<exists>nx ny. get_n_max (fst bdim) (fst (vi_cut_dim vi)) (fst (min_spacing vi)) = Inr nx \<and>
       get_n_max (snd bdim) (snd (vi_cut_dim vi)) (snd (min_spacing vi)) = Inr ny \<and> 1 < nx \<and> 1 < ny \<and>
       (\<forall>num\<in>{(nx, ny), (nx - 1, ny), (nx, ny - 1)}. via_fails vi bdim dir adj_dir ext num))"
proof -
  have w: "0 < fst (vi_cut_dim vi)" "0 < snd (vi_cut_dim vi)"
    using assms(1) by (simp_all add: via_rules_ok_def Let_def)
  note sp = min_spacing_range [OF assms(1)]
  obtain nx where nx: "get_n_max (fst bdim) (fst (vi_cut_dim vi)) (fst (min_spacing vi)) = Inr nx" "unat nx < 2 ^ 32"
    by (rule get_n_max_range [OF assms(2,3) w(1) sp(1,2)])
  obtain ny where ny: "get_n_max (snd bdim) (snd (vi_cut_dim vi)) (snd (min_spacing vi)) = Inr ny" "unat ny < 2 ^ 32"
    by (rule get_n_max_range [OF assms(4,5) w(2) sp(3,4)])
  have "unat nx * unat ny < 2 ^ 32 * 2 ^ 32" by (rule mult_strict_mono) (use nx ny in simp_all)
  then have small: "unat nx * unat ny < 2 ^ 64" by (simp flip: power_add)
  have get: "vi_get_via_param vi bdim vdir dir adj_dir ext = (if nx = 0 \<or> ny = 0 then Some (Inr no_via)
      else via_search vi bdim vdir dir adj_dir ext nx ny (uh_push uh_new (nx * ny, nx, ny)))"
    by (simp add: vi_get_via_param_def Let_def nx ny)
  show ?thesis
  proof (cases "nx = 0 \<or> ny = 0")
    case True
    then show ?thesis unfolding get using nx ny by auto
  next
    case False
    then have "1 \<le> nx" "1 \<le> ny" by (simp_all add: word_le_nat_alt Suc_le_eq word_gt_0 unat_gt_0)
    from via_search_returns [OF small this, of vi bdim vdir dir adj_dir ext] False
    show ?thesis unfolding get nx(1) ny(1) by simp
  qed
qed

text \<open>Cuts of width 10 whose enclosure does not fit into a wire of width 50.\<close>

definition tight_rules :: via_info where
  "tight_rules = make_via_info (10, 10) (10, 10) [] []
     ([\<lparr>vd_width = MAX_INT, vd_enc_list = [(40, 40)]\<rparr>], [\<lparr>vd_width = MAX_INT, vd_enc_list = [(0, 0)]\<rparr>])"

lemma tight_rules_ok: "via_rules_ok tight_rules"
  by (simp add: tight_rules_def via_rules_ok_def make_via_info_def Let_def MAX_INT_def)

theorem vi_get_via_param_hangs_witness:
  "vi_get_via_param tight_rules (50, 50) LOWER Horizontal Vertical True = None"
proof -
  have n: "get_n_max 50 10 10 = Inr 3" by code_simp
  have sp: "min_spacing tight_rules = (10, 10)" "vi_cut_dim tight_rules = (10, 10)" by code_simp+
  have "via_fails tight_rules (50, 50) Horizontal Vertical True num"
    if "num \<in> {(3, 3), (3 - 1, 3), (3, 3 - 1)}" for num
    using that by (elim insertE emptyE) (hypsubst, code_simp)+
  with vi_get_via_param_hangs [OF tight_rules_ok, of "(50, 50)" LOWER Horizontal Vertical True]
  show ?thesis by (simp add: n sp)
qed

definition easy_rules :: via_info where
  "easy_rules = make_via_info (10, 10) (10, 10) [] []
     ([\<lparr>vd_width = MAX_INT, vd_enc_list = [(5, 0), (0, 5)]\<rparr>], [\<lparr>vd_width = MAX_INT, vd_enc_list = [(0, 0)]\<rparr>])"

theorem vi_get_via_param_legal_witness:
  "\<exists>p. vi_get_via_param easy_rules (52, 50) LOWER Horizontal Vertical True = Some (Inr p) \<and> vp_num p = (3, 3) \<and>
     (vp_empty p \<or> via_legal easy_rules (52, 50) LOWER Horizontal Vertical True p)"
proof -
  have ok: "via_rules_ok easy_rules"
    by (simp add: easy_rules_def via_rules_ok_def make_via_info_def Let_def MAX_INT_def)
  have n: "get_n_max 52 10 10 = Inr 3" "get_n_max 50 10 10 = Inr 3" by code_simp+
  have sp: "min_spacing easy_rules = (10, 10)" "vi_cut_dim easy_rules = (10, 10)" by code_simp+
  have "\<not> via_fails easy_rules (52, 50) Horizontal Vertical True (3, 3)" by code_simp
  moreover have "\<exists>st. opt_via easy_rules (52, 50) Horizontal Vertical True (3, 3) = Inr st"
    by (rule opt_via_defined) code_simp+
  ultimately obtain st where st: "opt_via easy_rules (52, 50) Horizontal Vertical True (3, 3) = Inr st"
    "\<not> fst (os_sp st) < 0" by (auto simp: via_fails_def)
  have "vi_get_via_param easy_rules (52, 50) LOWER Horizontal Vertical True
      = Some (Inr (via_solution easy_rules LOWER (3, 3) st))"
    by (simp add: vi_get_via_param_def n sp) (subst via_search.simps, simp add: st)
  then show ?thesis using vi_get_via_param_legal [OF ok] by fastforce
qed

end
