(* ===== verification/Lp_Lookup.thy ===== *)
theory Lp_Lookup
  imports Prelude
begin

text \<open>
  The identifiers of layers and purposes: \<^verbatim>\<open>src/cbag/layout/lp_lookup.cpp\<close> and its users in
  \<^verbatim>\<open>tech_util.cpp\<close>.  The constructor takes the maps that
  \<open>read_lp_lookup\<close> of the theory on files decodes.  A \<^verbatim>\<open>std::unordered_map\<close> is the list of its entries in the order in which it
  is iterated; \<open>map_of\<close> finds an entry, and \<^verbatim>\<open>emplace\<close> adds one only if there is none of its key.
\<close>

section \<open>Layers and purposes\<close>

type_synonym lay_t = "32 word"
type_synonym purp_t = "32 word"
type_synonym layer_t = "lay_t \<times> purp_t"

definition um_emplace :: "('k \<times> 'v) list \<Rightarrow> 'k \<Rightarrow> 'v \<Rightarrow> ('k \<times> 'v) list" where
  "um_emplace m k v = (case map_of m k of None \<Rightarrow> m @ [(k, v)] | Some w \<Rightarrow> m)"

lemma map_of_um_emplace:
  "map_of (um_emplace m k v) = (case map_of m k of None \<Rightarrow> (map_of m)(k \<mapsto> v) | Some w \<Rightarrow> map_of m)"
  by (rule ext) (auto simp: um_emplace_def map_add_def split: option.split)

record lp_lookup =
  lp_default_purpose :: purp_t
  lp_pin_purpose :: purp_t
  lp_lay_map :: "(string \<times> lay_t) list"
  lp_purp_map :: "(string \<times> purp_t) list"

definition make_lp_lookup ::
  "(string \<times> lay_t) list \<Rightarrow> (string \<times> purp_t) list \<Rightarrow> string \<Rightarrow> string \<Rightarrow> lp_lookup result" where
  "make_lp_lookup lay_map purp_map def_purp pin_purp =
     (case map_of purp_map def_purp of
        None \<Rightarrow> Inl Out_of_range
      | Some default_purpose \<Rightarrow>
          (case map_of purp_map pin_purp of
             None \<Rightarrow> Inl Out_of_range
           | Some pin_purpose \<Rightarrow>
               Inr \<lparr>lp_default_purpose = default_purpose, lp_pin_purpose = pin_purpose,
                    lp_lay_map = lay_map, lp_purp_map = purp_map\<rparr>))"

text \<open>The name of an identifier that is in no entry is read through the iterator past the end.\<close>

definition find_name :: "(string \<times> 32 word) list \<Rightarrow> 32 word \<Rightarrow> string result" where
  "find_name m i =
     (case filter (\<lambda>v. i = snd v) m of [] \<Rightarrow> Inl Undefined_behaviour | v # vs \<Rightarrow> Inr (fst v))"

definition lp_get_layer_name :: "lp_lookup \<Rightarrow> lay_t \<Rightarrow> string result" where
  "lp_get_layer_name lp lay_id = find_name (lp_lay_map lp) lay_id"

definition lp_get_purpose_name :: "lp_lookup \<Rightarrow> purp_t \<Rightarrow> string result" where
  "lp_get_purpose_name lp purp_id = find_name (lp_purp_map lp) purp_id"

definition lp_get_layer_id :: "lp_lookup \<Rightarrow> string \<Rightarrow> lay_t option" where
  "lp_get_layer_id lp layer = map_of (lp_lay_map lp) layer"

definition lp_get_purpose_id :: "lp_lookup \<Rightarrow> string \<Rightarrow> purp_t option" where
  "lp_get_purpose_id lp purpose =
     (if purpose = [] then Some (lp_default_purpose lp) else map_of (lp_purp_map lp) purpose)"

definition at_or_throw :: "'a option \<Rightarrow> 'a result" where
  "at_or_throw ans = (case ans of None \<Rightarrow> Inl Out_of_range | Some x \<Rightarrow> Inr x)"

definition lp_layer_id_at :: "lp_lookup \<Rightarrow> string \<Rightarrow> lay_t result" where
  "lp_layer_id_at lp layer = at_or_throw (lp_get_layer_id lp layer)"

definition lp_purpose_id_at :: "lp_lookup \<Rightarrow> string \<Rightarrow> purp_t result" where
  "lp_purpose_id_at lp purpose = at_or_throw (lp_get_purpose_id lp purpose)"

definition lp_layer_t_at :: "lp_lookup \<Rightarrow> string \<Rightarrow> string \<Rightarrow> layer_t result" where
  "lp_layer_t_at lp layer purpose =
     bindR (lp_layer_id_at lp layer) (\<lambda>l. bindR (lp_purpose_id_at lp purpose) (\<lambda>p. Inr (l, p)))"

end
