(* ===== verification/Via.thy ===== *)
theory Via
  imports Via_Info Lp_Lookup Transform
begin

text \<open>
  Placed vias and the choice among the kinds of a via: \<^verbatim>\<open>src/cbag/layout/via_lookup.cpp\<close>,
  \<^verbatim>\<open>via.cpp\<close>, \<^verbatim>\<open>via_util.cpp\<close> and \<^verbatim>\<open>include/cbag/layout/via_util.h\<close>.
\<close>

section \<open>Lookup\<close>

record via_lookup =
  vl_lp_map :: "(string \<times> layer_t \<times> layer_t \<times> layer_t) list"
  vl_id_map :: "((layer_t \<times> layer_t) \<times> string) list"
  vl_info_map :: "(string \<times> via_info list) list"

definition via_info_at :: "(string \<times> via_info list) list \<Rightarrow> string \<Rightarrow> via_info list result" where
  "via_info_at info_map via_id = at_or_throw (map_of info_map via_id)"

definition vl_via_layer_purpose :: "via_lookup \<Rightarrow> string \<Rightarrow> (layer_t \<times> layer_t \<times> layer_t) result" where
  "vl_via_layer_purpose vl key = at_or_throw (map_of (vl_lp_map vl) key)"

definition vl_get_via_id :: "via_lookup \<Rightarrow> direction \<Rightarrow> layer_t \<Rightarrow> layer_t \<Rightarrow> string result" where
  "vl_get_via_id vl vdir layer adj_layer = at_or_throw (map_of (vl_id_map vl) (dir_pair vdir layer adj_layer))"

definition get_via_score :: "via_param \<Rightarrow> 64 word" where
  "get_via_score p = fst (vp_num p) * snd (vp_num p) * word_of_int (fst (vp_cut_dim p)) * word_of_int (snd (vp_cut_dim p))"

text \<open>The best via so far, its score, and the extent of its metal on the two layers.\<close>

type_synonym best_via = "via_param \<times> 64 word \<times> vec_t"

definition better_via :: "direction \<Rightarrow> orient_2d \<Rightarrow> orient_2d \<Rightarrow> best_via \<Rightarrow> via_param \<Rightarrow> best_via" where
  "better_via vdir ex_dir adj_ex_dir st p =
     (case st of (ans, opt_score, opt_ext_dim) \<Rightarrow>
        let cur_score = get_via_score p;
            cur_ext_dim = dir_pair vdir (vp_metal_dim p ex_dir vdir) (vp_metal_dim p adj_ex_dir (flip_dir vdir))
        in if cur_score > opt_score \<or>
              (cur_score > 0 \<and> cur_score = opt_score \<and> fst cur_ext_dim \<le> fst opt_ext_dim \<and>
               snd cur_ext_dim \<le> snd opt_ext_dim)
           then (p, cur_score, cur_ext_dim) else st)"

fun best_of_infos ::
  "vec_t \<Rightarrow> direction \<Rightarrow> orient_2d \<Rightarrow> orient_2d \<Rightarrow> bool \<Rightarrow> best_via \<Rightarrow> via_info list \<Rightarrow> best_via result option"
where
  "best_of_infos bdim vdir ex_dir adj_ex_dir ext st [] = Some (Inr st)"
| "best_of_infos bdim vdir ex_dir adj_ex_dir ext st (vinfo # infos) =
     (case vi_get_via_param vinfo bdim vdir ex_dir adj_ex_dir ext of
        None \<Rightarrow> None
      | Some (Inl e) \<Rightarrow> Some (Inl e)
      | Some (Inr p) \<Rightarrow>
          best_of_infos bdim vdir ex_dir adj_ex_dir ext (better_via vdir ex_dir adj_ex_dir st p) infos)"

definition vl_get_via_param ::
  "via_lookup \<Rightarrow> vec_t \<Rightarrow> string \<Rightarrow> direction \<Rightarrow> orient_2d \<Rightarrow> orient_2d \<Rightarrow> bool \<Rightarrow> via_param result option" where
  "vl_get_via_param vl bdim via_id vdir ex_dir adj_ex_dir ext =
     (case via_info_at (vl_info_map vl) via_id of
        Inl e \<Rightarrow> Some (Inl e)
      | Inr infos \<Rightarrow>
          map_option (\<lambda>r. bindR r (\<lambda>st. Inr (fst st)))
            (best_of_infos bdim vdir ex_dir adj_ex_dir ext (no_via, 0, (0, 0)) infos))"

section \<open>Placed vias\<close>

record 'x via =
  via_id :: string
  via_params :: via_param
  via_xform :: 'x

definition make_via :: "'x \<Rightarrow> string \<Rightarrow> via_param \<Rightarrow> 'x via" where
  "make_via xform name params = \<lparr>via_id = name, via_params = params, via_xform = xform\<rparr>"

text \<open>The conversions of a box with \<^verbatim>\<open>coord_t\<close> corners are the identity.\<close>

definition get_via_box :: "(box_t \<Rightarrow> 'x \<Rightarrow> box_t) \<Rightarrow> 'x \<Rightarrow> via_param \<Rightarrow> vec_t \<Rightarrow> vec_t \<Rightarrow> box_t" where
  "get_via_box bp_transform xform params off enc =
     (let via_w = vp_arr_dim params Horizontal;
          via_h = vp_arr_dim params Vertical;
          xl = fst off - via_w sdiv 2 - fst enc;
          yl = snd off - via_h sdiv 2 - snd enc;
          xh = xl + via_w + 2 * fst enc;
          yh = yl + via_h + 2 * snd enc
      in box_transform bp_transform (make_box xl yl xh yh) xform)"

definition get_bot_box :: "(box_t \<Rightarrow> 'x \<Rightarrow> box_t) \<Rightarrow> 'x via \<Rightarrow> box_t" where
  "get_bot_box bp_transform v =
     get_via_box bp_transform (via_xform v) (via_params v) (fst (vp_off (via_params v))) (fst (vp_enc (via_params v)))"

definition get_top_box :: "(box_t \<Rightarrow> 'x \<Rightarrow> box_t) \<Rightarrow> 'x via \<Rightarrow> box_t" where
  "get_top_box bp_transform v =
     get_via_box bp_transform (via_xform v) (via_params v) (snd (vp_off (via_params v))) (snd (vp_enc (via_params v)))"

text \<open>The offset of the first cut is an unsigned number, negated when it is stored in a signed one.\<close>

definition cut_start :: "cnt_t \<Rightarrow> int \<Rightarrow> int \<Rightarrow> int" where
  "cut_start n w sp =
     (let off = (n * cnt_of_int (w + sp) - cnt_of_int sp) div 2 in offset_of_cnt (- off))"

definition get_via_cuts :: "(box_t \<Rightarrow> 'x \<Rightarrow> box_t) \<Rightarrow> 'x via \<Rightarrow> box_t list" where
  "get_via_cuts bp_transform v =
     (let p = via_params v;
          vw = fst (vp_cut_dim p); vh = snd (vp_cut_dim p);
          spx = fst (vp_cut_spacing p); spy = snd (vp_cut_spacing p);
          dx0 = cut_start (fst (vp_num p)) vw spx;
          dy0 = cut_start (snd (vp_num p)) vh spy;
          cut_box = make_box 0 0 vw vh
      in concat (map (\<lambda>xidx. map (\<lambda>yidx.
           box_move_by (box_transform bp_transform cut_box (via_xform v))
             (dx0 + int xidx * spx) (dy0 + int yidx * spy)) [0..<unat (snd (vp_num p))]) [0..<unat (fst (vp_num p))]))"

section \<open>Where the cuts are\<close>

lemma concat_grid_nth:
  "i < m \<Longrightarrow> j < n \<Longrightarrow> concat (map (\<lambda>x. map (f x) [0..<n]) [0..<m]) ! (i * n + j) = f i j"
proof (induction m arbitrary: i)
  case (Suc m)
  have len: "length (concat (map (\<lambda>x. map (f x) [0..<n]) [0..<m])) = m * n"
    by (induction m) simp_all
  show ?case
  proof (cases "i < m")
    case True
    have "i * n + j < Suc i * n" using Suc.prems by simp
    also have "\<dots> \<le> m * n" using True by (intro mult_right_mono) auto
    finally show ?thesis using True Suc by (simp add: nth_append len)
  next
    case False
    with Suc.prems have "i = m" by simp
    with Suc.prems show ?thesis by (simp add: nth_append len)
  qed
qed simp

lemma vp_arr_dim_small:
  assumes "1 \<le> unat n" and "0 < w" and "0 \<le> sp" and "int (unat n) * (w + sp) < 2 ^ 31"
  shows "offset_of_cnt (n * cnt_of_int (w + sp) - cnt_of_int sp) = int (unat n) * (w + sp) - sp"
proof -
  define k where "k = int (unat n) * (w + sp)"
  have "n * cnt_of_int (w + sp) - cnt_of_int sp = cnt_of_int (k - sp)"
    by (simp add: cnt_of_int_def k_def)
  moreover have "1 \<le> int (unat n)" using assms(1) by linarith
  then have "1 * (w + sp) \<le> k" unfolding k_def by (rule mult_right_mono) (use assms in simp)
  then have "offset_of_cnt (cnt_of_int (k - sp)) = k - sp"
    using assms(2-4) unfolding k_def [symmetric] by (intro offset_of_small) auto
  ultimately show ?thesis by (simp add: k_def)
qed

text \<open>
  The cuts of a via are placed at the distance of the spacing from one corner to the next, where
  the pitch should be the width of a cut and the spacing: from the first cut to the last one the array
  is by one cut width per column, and one cut height per row, narrower than the array of the metal.
\<close>

theorem get_via_cuts_too_narrow:
  fixes v :: "'x via"
  assumes "p = via_params v" and "1 \<le> unat (fst (vp_num p))" and "1 \<le> unat (snd (vp_num p))"
    and "0 < fst (vp_cut_dim p)" and "0 < snd (vp_cut_dim p)"
    and "0 \<le> fst (vp_cut_spacing p)" and "0 \<le> snd (vp_cut_spacing p)"
    and "int (unat (fst (vp_num p))) * (fst (vp_cut_dim p) + fst (vp_cut_spacing p)) < 2 ^ 31"
    and "int (unat (snd (vp_num p))) * (snd (vp_cut_dim p) + snd (vp_cut_spacing p)) < 2 ^ 31"
  shows "box_xl (last (get_via_cuts tr v)) - box_xl (hd (get_via_cuts tr v))
      = vp_arr_dim p Horizontal - int (unat (fst (vp_num p))) * fst (vp_cut_dim p) \<and>
    box_yl (last (get_via_cuts tr v)) - box_yl (hd (get_via_cuts tr v))
      = vp_arr_dim p Vertical - int (unat (snd (vp_num p))) * snd (vp_cut_dim p)"
proof -
  obtain m n where mn: "unat (fst (vp_num p)) = Suc m" "unat (snd (vp_num p)) = Suc n"
    using assms(2,3) by (metis Suc_le_D One_nat_def)
  let ?R = "box_transform tr (make_box 0 0 (fst (vp_cut_dim p)) (snd (vp_cut_dim p))) (via_xform v)"
  let ?c = "\<lambda>i j. box_move_by ?R
    (cut_start (fst (vp_num p)) (fst (vp_cut_dim p)) (fst (vp_cut_spacing p)) + int i * fst (vp_cut_spacing p))
    (cut_start (snd (vp_num p)) (snd (vp_cut_dim p)) (snd (vp_cut_spacing p)) + int j * snd (vp_cut_spacing p))"
  have cuts: "get_via_cuts tr v = concat (map (\<lambda>i. map (?c i) [0..<Suc n]) [0..<Suc m])"
    unfolding get_via_cuts_def Let_def mn [symmetric] assms(1) ..
  have "length (get_via_cuts tr v) = Suc m * Suc n"
    unfolding cuts by (induction m) simp_all
  then have ne: "get_via_cuts tr v \<noteq> []" and len: "length (get_via_cuts tr v) - 1 = m * Suc n + n"
    by (auto simp: length_0_conv [symmetric] simp del: length_0_conv)
  have "get_via_cuts tr v ! (0 * Suc n + 0) = ?c 0 0" "get_via_cuts tr v ! (m * Suc n + n) = ?c m n"
    unfolding cuts by (rule concat_grid_nth; simp)+
  then have first: "hd (get_via_cuts tr v) = ?c 0 0" and final: "last (get_via_cuts tr v) = ?c m n"
    unfolding hd_conv_nth [OF ne] last_conv_nth [OF ne] len by simp_all
  have arr: "vp_arr_dim p Horizontal = int (Suc m) * (fst (vp_cut_dim p) + fst (vp_cut_spacing p)) - fst (vp_cut_spacing p)"
    "vp_arr_dim p Vertical = int (Suc n) * (snd (vp_cut_dim p) + snd (vp_cut_spacing p)) - snd (vp_cut_spacing p)"
    using vp_arr_dim_small [OF assms(2,4,6,8)] vp_arr_dim_small [OF assms(3,5,7,9)]
    by (simp_all add: vp_arr_dim_def Let_def mn)
  have diff: "box_xl (box_move_by b (x + k) (y + l)) - box_xl (box_move_by b x y) = k"
    "box_yl (box_move_by b (x + k) (y + l)) - box_yl (box_move_by b x y) = l" for b x y k l
    by (simp_all add: box_move_by_def box_move_by_orient_def box_xl_def box_yl_def Let_def)
  have "box_xl (last (get_via_cuts tr v)) - box_xl (hd (get_via_cuts tr v)) = int m * fst (vp_cut_spacing p)"
    "box_yl (last (get_via_cuts tr v)) - box_yl (hd (get_via_cuts tr v)) = int n * snd (vp_cut_spacing p)"
    unfolding first final
    using diff [where x = "cut_start (fst (vp_num p)) (fst (vp_cut_dim p)) (fst (vp_cut_spacing p))"
        and y = "cut_start (snd (vp_num p)) (snd (vp_cut_dim p)) (snd (vp_cut_spacing p))"
        and k = "int m * fst (vp_cut_spacing p)" and l = "int n * snd (vp_cut_spacing p)" and b = ?R]
    by simp_all
  then show ?thesis unfolding arr mn by (simp add: algebra_simps)
qed

text \<open>Two cuts of width 32 with spacing 42: the second starts at 42 instead of 74.\<close>

theorem get_via_cuts_too_narrow_witness:
  "(let v = make_via () ''M2_M1'' (make_via_param 2 1 32 32 42 0 14 14 14 14 14 14 14 14);
        cuts = get_via_cuts (\<lambda>b x. b) v
    in box_xl (last cuts) - box_xl (hd cuts) = 42 \<and> vp_arr_dim (via_params v) Horizontal = 106)"
proof -
  let ?p = "make_via_param 2 1 32 32 42 0 14 14 14 14 14 14 14 14"
  let ?v = "make_via () ''M2_M1'' ?p"
  have p: "vp_num ?p = (2, 1)" "vp_cut_dim ?p = (32, 32)" "vp_cut_spacing ?p = (42, 0)" "via_params ?v = ?p"
    by (simp_all add: make_via_param_def make_via_def split: prod.split)
  have "vp_arr_dim ?p Horizontal = 106" by code_simp
  then show ?thesis
    using get_via_cuts_too_narrow [of ?p ?v "\<lambda>b x. b"] by (simp add: Let_def p)
qed

end
