(* ===== verification/Tech.thy ===== *)
theory Tech
  imports Via
begin

unbundle bit_operations_syntax

text \<open>
  The technology information: \<^verbatim>\<open>src/cbag/layout/len_info.cpp\<close>, \<^verbatim>\<open>tech.cpp\<close> and
  \<^verbatim>\<open>tech_util.cpp\<close>.  The constructor, which reads a file, is in the
  theory on files.
\<close>

section \<open>Minimum lengths\<close>

text \<open>Entries of a width or a dimension, an area and a length.\<close>

type_synonym max_len_data = "int \<times> int \<times> int"

record len_info =
  w_al_list :: "max_len_data list"
  md_al_list :: "max_len_data list"

definition ceilR :: "int \<Rightarrow> int \<Rightarrow> int result" where
  "ceilR x y = (if word_of_int y = (0 :: 32 word) then Inl Undefined_behaviour
     else Inr (util_ceil x (word_of_int y)))"

fun get_min_len_width :: "int \<Rightarrow> max_len_data list \<Rightarrow> int result" where
  "get_min_len_width w [] = Inr 0"
| "get_min_len_width w ((width, area, min_len) # vec) =
     (if w \<le> width then bindR (ceilR area w) (\<lambda>c. Inr (max min_len c)) else get_min_len_width w vec)"

fun get_min_len_max_dim :: "int \<Rightarrow> int \<Rightarrow> max_len_data list \<Rightarrow> int result" where
  "get_min_len_max_dim w ans [] = Inr ans"
| "get_min_len_max_dim w ans ((max_dim, area, min_len) # vec) =
     (if max w ans > max_dim then Inr ans
      else bindR (ceilR area w) (\<lambda>c. get_min_len_max_dim w (max ans (max min_len c)) vec))"

definition to_even :: "int \<Rightarrow> bool \<Rightarrow> int" where
  "to_even ans ev = ans + (ans AND of_bool ev)"

definition len_get_min_length :: "len_info \<Rightarrow> int \<Rightarrow> bool \<Rightarrow> int result" where
  "len_get_min_length li w ev =
     bindR (get_min_len_width w (w_al_list li)) (\<lambda>ans.
     bindR (get_min_len_max_dim w ans (md_al_list li)) (\<lambda>ans. Inr (to_even ans ev)))"

section \<open>Technologies\<close>

datatype space_type = DIFF_COLOR | SAME_COLOR | LINE_END

definition get_space_type :: "bool \<Rightarrow> space_type" where
  "get_space_type same_color = (if same_color then SAME_COLOR else DIFF_COLOR)"

type_synonym sp_map_t = "(layer_t \<times> (int \<times> int) list) list"

record tech =
  tech_lib :: string
  tech_layout_unit :: "64 word"
  tech_resolution :: "64 word"
  tech_use_flip_parity :: bool
  tech_make_pin :: bool
  tech_lp :: lp_lookup
  tech_vlookup :: via_lookup
  tech_sp_grp :: "(space_type \<times> sp_map_t) list"
  tech_sp_sc_type :: space_type
  tech_len_map :: "(layer_t \<times> len_info) list"
  tech_bot_layer :: int
  tech_lp_list :: "layer_t list list"
  tech_lev_map :: "(layer_t \<times> int) list"
  tech_color_map :: "(lay_t \<times> lay_t \<times> cnt_t) list"

definition make_lp_list :: "(string \<times> string) list list \<Rightarrow> lp_lookup \<Rightarrow> layer_t list list result" where
  "make_lp_list lay_lists lp =
     mapR (mapR (\<lambda>(lay_str, purp_str).
       bindR (at_or_throw (lp_get_layer_id lp lay_str)) (\<lambda>lid.
       bindR (at_or_throw (lp_get_purpose_id lp purp_str)) (\<lambda>pid. Inr (lid, pid))))) lay_lists"

definition make_lev_map :: "int \<Rightarrow> layer_t list list \<Rightarrow> (layer_t \<times> int) list" where
  "make_lev_map bottom lay_lists =
     fst (foldl (\<lambda>(m, lay) lps. (foldl (\<lambda>m lp. um_emplace m lp lay) m lps, lay + 1)) ([], bottom) lay_lists)"

definition tech_get_layer_name :: "tech \<Rightarrow> lay_t \<Rightarrow> string result" where
  "tech_get_layer_name t lay_id = lp_get_layer_name (tech_lp t) lay_id"

definition tech_get_purpose_name :: "tech \<Rightarrow> purp_t \<Rightarrow> string result" where
  "tech_get_purpose_name t purp_id = lp_get_purpose_name (tech_lp t) purp_id"

definition tech_get_layer_id :: "tech \<Rightarrow> string \<Rightarrow> lay_t option" where
  "tech_get_layer_id t layer = lp_get_layer_id (tech_lp t) layer"

definition tech_get_purpose_id :: "tech \<Rightarrow> string \<Rightarrow> purp_t option" where
  "tech_get_purpose_id t purpose = lp_get_purpose_id (tech_lp t) purpose"

definition tech_default_purpose :: "tech \<Rightarrow> purp_t" where
  "tech_default_purpose t = lp_default_purpose (tech_lp t)"

definition tech_pin_purpose :: "tech \<Rightarrow> purp_t" where
  "tech_pin_purpose t = lp_pin_purpose (tech_lp t)"

definition tech_get_level :: "tech \<Rightarrow> layer_t \<Rightarrow> int option" where
  "tech_get_level t key = map_of (tech_lev_map t) key"

text \<open>A level below the lowest one becomes a huge index.\<close>

definition get_lay_purp_list :: "tech \<Rightarrow> int \<Rightarrow> layer_t list result" where
  "get_lay_purp_list t level =
     (let idx = unat (word_of_int (level - tech_bot_layer t) :: 64 word) in
      if length (tech_lp_list t) \<le> idx then Inl Out_of_range else Inr (tech_lp_list t ! idx))"

text \<open>The last entry of an empty table is undefined.\<close>

fun space_at :: "int \<Rightarrow> (int \<times> int) list \<Rightarrow> (int \<times> int) list \<Rightarrow> int result" where
  "space_at width all [] = (if all = [] then Inl Undefined_behaviour else Inr (snd (last all)))"
| "space_at width all ((w_spec, sp) # rest) = (if width \<le> w_spec then Inr sp else space_at width all rest)"

definition tech_get_min_space :: "tech \<Rightarrow> layer_t \<Rightarrow> int \<Rightarrow> space_type \<Rightarrow> bool \<Rightarrow> int result" where
  "tech_get_min_space t key width sp_type ev =
     (case map_of (tech_sp_grp t) (if sp_type = SAME_COLOR then tech_sp_sc_type t else sp_type) of
        None \<Rightarrow> Inl Out_of_range
      | Some cur_map \<Rightarrow>
          (case map_of cur_map key of
             None \<Rightarrow> Inr 0
           | Some w_sp_list \<Rightarrow> bindR (space_at width w_sp_list w_sp_list) (\<lambda>sp. Inr (to_even sp ev))))"

definition tech_get_min_length :: "tech \<Rightarrow> layer_t \<Rightarrow> int \<Rightarrow> bool \<Rightarrow> int result" where
  "tech_get_min_length t key width ev =
     (case map_of (tech_len_map t) key of None \<Rightarrow> Inr 0 | Some li \<Rightarrow> len_get_min_length li width ev)"

definition tech_get_via_id :: "tech \<Rightarrow> direction \<Rightarrow> layer_t \<Rightarrow> layer_t \<Rightarrow> string result" where
  "tech_get_via_id t vdir layer adj_layer = vl_get_via_id (tech_vlookup t) vdir layer adj_layer"

definition tech_via_layer_purpose :: "tech \<Rightarrow> string \<Rightarrow> (layer_t \<times> layer_t \<times> layer_t) result" where
  "tech_via_layer_purpose t key = vl_via_layer_purpose (tech_vlookup t) key"

definition tech_get_via_param ::
  "tech \<Rightarrow> vec_t \<Rightarrow> string \<Rightarrow> direction \<Rightarrow> orient_2d \<Rightarrow> orient_2d \<Rightarrow> bool \<Rightarrow> via_param result option" where
  "tech_get_via_param t bdim name vdir ex_dir adj_ex_dir ext =
     vl_get_via_param (tech_vlookup t) bdim name vdir ex_dir adj_ex_dir ext"

section \<open>Helpers\<close>

definition tech_layer_id_at :: "tech \<Rightarrow> string \<Rightarrow> lay_t result" where
  "tech_layer_id_at t layer = at_or_throw (tech_get_layer_id t layer)"

definition tech_purpose_id_at :: "tech \<Rightarrow> string \<Rightarrow> purp_t result" where
  "tech_purpose_id_at t purpose = at_or_throw (tech_get_purpose_id t purpose)"

definition tech_layer_t_at :: "tech \<Rightarrow> string \<Rightarrow> string \<Rightarrow> layer_t result" where
  "tech_layer_t_at t layer purpose =
     bindR (tech_layer_id_at t layer) (\<lambda>l. bindR (tech_purpose_id_at t purpose) (\<lambda>p. Inr (l, p)))"

definition first_of :: "'a list \<Rightarrow> 'a result" where
  "first_of xs = (case xs of [] \<Rightarrow> Inl Undefined_behaviour | x # ys \<Rightarrow> Inr x)"

definition get_test_lay_purp :: "tech \<Rightarrow> int \<Rightarrow> layer_t result" where
  "get_test_lay_purp t level = bindR (get_lay_purp_list t level) first_of"

definition get_pin_purpose_name :: "tech \<Rightarrow> string result" where
  "get_pin_purpose_name t = tech_get_purpose_name t (tech_pin_purpose t)"

definition get_default_purpose_name :: "tech \<Rightarrow> string result" where
  "get_default_purpose_name t = tech_get_purpose_name t (tech_default_purpose t)"

definition get_min_length_of :: "tech \<Rightarrow> string \<Rightarrow> string \<Rightarrow> int \<Rightarrow> bool \<Rightarrow> int result" where
  "get_min_length_of t layer purpose width ev =
     bindR (tech_layer_t_at t layer purpose) (\<lambda>key. tech_get_min_length t key width ev)"

section \<open>The rules on lengths\<close>

text \<open>Tables that make sense: areas, lengths and the width are positive numbers that fit.\<close>

definition len_data_ok :: "int \<Rightarrow> max_len_data \<Rightarrow> bool" where
  "len_data_ok w d \<longleftrightarrow> (case d of (limit, area, min_len) \<Rightarrow> 0 \<le> area \<and> area + w < 2 ^ 31 \<and> 0 \<le> min_len)"

lemma ceilR_positive:
  assumes "0 < w" and "0 \<le> area" and "area + w < 2 ^ 31"
  obtains c where "ceilR area w = Inr c" and "area \<le> c * w" and "0 \<le> c"
proof -
  have w: "uint (word_of_int w :: 32 word) = w" using assms by (intro uint_of_small) auto
  then have pos: "(0 :: 32 word) < word_of_int w" using assms(1) by (simp only: word_less_def unsigned_0)
  define c where "c = (area + w - 1) div w"
  have "util_ceil area (word_of_int w) = c"
    using util_ceil_nonneg [OF assms(2) _ pos] assms w by (simp add: c_def)
  then have "ceilR area w = Inr c" using pos unfolding ceilR_def by auto
  moreover have "area \<le> c * w"
  proof -
    have "(area + w - 1) mod w < w" using assms(1) by simp
    then have "area + w - 1 < c * w + w"
      using div_mult_mod_eq [of "area + w - 1" w] unfolding c_def by linarith
    then show ?thesis by simp
  qed
  moreover have "0 \<le> c" using assms by (simp add: c_def pos_imp_zdiv_nonneg_iff)
  ultimately show thesis by (rule that)
qed

text \<open>The first entry whose limit is not below the width.\<close>

definition width_rule :: "int \<Rightarrow> max_len_data list \<Rightarrow> max_len_data option" where
  "width_rule w vec = find (\<lambda>d. w \<le> fst d) vec"

definition rule_holds :: "int \<Rightarrow> int \<Rightarrow> max_len_data \<Rightarrow> bool" where
  "rule_holds w len d \<longleftrightarrow> snd (snd d) \<le> len \<and> fst (snd d) \<le> len * w"

lemma rule_holds_mono: "rule_holds w l d \<Longrightarrow> l \<le> l' \<Longrightarrow> 0 < w \<Longrightarrow> rule_holds w l' d"
  unfolding rule_holds_def by (meson order_trans mult_right_mono less_imp_le)

lemma get_min_len_width_rule:
  assumes "0 < w" and "\<forall>d\<in>set vec. len_data_ok w d"
  shows "\<exists>len. get_min_len_width w vec = Inr len \<and> 0 \<le> len \<and> pred_option (rule_holds w len) (width_rule w vec)"
  using assms
proof (induction w vec rule: get_min_len_width.induct)
  case (1 w)
  then show ?case by (simp add: width_rule_def)
next
  case (2 w width area min_len vec)
  show ?case
  proof (cases "w \<le> width")
    case True
    have "0 \<le> area" "area + w < 2 ^ 31" using 2(3) by (simp_all add: len_data_ok_def)
    then obtain c where c: "ceilR area w = Inr c" "area \<le> c * w" "0 \<le> c" by (rule ceilR_positive [OF 2(2)])
    have "area \<le> max min_len c * w"
      by (rule order_trans [OF c(2)]) (use 2(2) in \<open>simp add: mult_right_mono\<close>)
    with True c show ?thesis
      by (intro exI [of _ "max min_len c"]) (auto simp: width_rule_def rule_holds_def)
  next
    case False
    then have "width_rule w ((width, area, min_len) # vec) = width_rule w vec" by (simp add: width_rule_def)
    with False 2 show ?thesis by simp
  qed
qed

lemma get_min_len_max_dim_rules:
  assumes "0 < w" and "\<forall>d\<in>set vec. len_data_ok w d" and "sorted_wrt (\<lambda>a b. fst b \<le> fst a) vec" and "0 \<le> ans"
  shows "\<exists>len. get_min_len_max_dim w ans vec = Inr len \<and> ans \<le> len \<and>
    (\<forall>d\<in>set vec. max w len \<le> fst d \<longrightarrow> rule_holds w len d)"
  using assms
proof (induction w ans vec rule: get_min_len_max_dim.induct)
  case (1 w ans)
  then show ?case by simp
next
  case (2 w ans max_dim area min_len vec)
  show ?case
  proof (cases "max w ans > max_dim")
    case True
    with 2(4) show ?thesis by (intro exI [of _ ans]) auto
  next
    case False
    have "0 \<le> area" "area + w < 2 ^ 31" using 2(3) by (simp_all add: len_data_ok_def)
    then obtain c where c: "ceilR area w = Inr c" "area \<le> c * w" "0 \<le> c" by (rule ceilR_positive [OF 2(2)])
    let ?ans = "max ans (max min_len c)"
    have "area \<le> ?ans * w"
      by (rule order_trans [OF c(2)]) (use 2(2) in \<open>simp add: mult_right_mono\<close>)
    then have head: "rule_holds w ?ans (max_dim, area, min_len)" by (simp add: rule_holds_def)
    obtain len where len: "get_min_len_max_dim w ?ans vec = Inr len" "?ans \<le> len"
      "\<forall>d\<in>set vec. max w len \<le> fst d \<longrightarrow> rule_holds w len d"
      using 2(1) [OF False c(1) 2(2)] 2(3-5) by (auto simp: le_max_iff_disj)
    show ?thesis
      using False c len rule_holds_mono [OF head len(2) 2(2)] by (intro exI [of _ len]) auto
  qed
qed

lemma to_even_spec: "ans \<le> to_even ans ev" "to_even ans ev \<le> ans + of_bool ev" "ev \<Longrightarrow> even (to_even ans ev)"
  by (auto simp: to_even_def and_one_eq)

text \<open>
  C38.  The minimum length of a wire obeys the rules of the table: the length and the area of the first
  entry for its width, and those of every entry on the larger dimension, if the entries are in
  descending order of their limits.  It is even if that is asked for.
\<close>

theorem get_min_length_obeys_rules:
  assumes "0 < w" and "\<forall>d\<in>set (w_al_list li) \<union> set (md_al_list li). len_data_ok w d"
    and "sorted_wrt (\<lambda>a b. fst b \<le> fst a) (md_al_list li)"
  shows "\<exists>len. len_get_min_length li w ev = Inr len \<and> 0 \<le> len \<and> (ev \<longrightarrow> even len) \<and>
    pred_option (rule_holds w len) (width_rule w (w_al_list li)) \<and>
    (\<forall>d\<in>set (md_al_list li). max w len \<le> fst d \<longrightarrow> rule_holds w len d)"
proof -
  obtain l1 where l1: "get_min_len_width w (w_al_list li) = Inr l1" "0 \<le> l1"
    "pred_option (rule_holds w l1) (width_rule w (w_al_list li))"
    using get_min_len_width_rule [OF assms(1)] assms(2) by blast
  obtain l2 where l2: "get_min_len_max_dim w l1 (md_al_list li) = Inr l2" "l1 \<le> l2"
    "\<forall>d\<in>set (md_al_list li). max w l2 \<le> fst d \<longrightarrow> rule_holds w l2 d"
    using get_min_len_max_dim_rules [OF assms(1) _ assms(3) l1(2)] assms(2) by blast
  let ?len = "to_even l2 ev"
  have le: "l2 \<le> ?len" "l1 \<le> ?len" using l2(2) to_even_spec(1) [of l2 ev] by simp_all
  have "pred_option (rule_holds w ?len) (width_rule w (w_al_list li))"
    using l1(3) rule_holds_mono [OF _ le(2) assms(1)] by (auto simp: option.pred_set)
  moreover have "\<forall>d\<in>set (md_al_list li). max w ?len \<le> fst d \<longrightarrow> rule_holds w ?len d"
    using l2(3) le(1) rule_holds_mono [OF _ le(1) assms(1)] by fastforce
  ultimately show ?thesis
    using l1(1,2) l2(1) le(2) to_even_spec(3) [of ev l2] by (auto simp: len_get_min_length_def)
qed

theorem get_min_length_obeys_rules_witness:
  "\<exists>len. len_get_min_length \<lparr>w_al_list = [(1000, 6176, 10)], md_al_list = [(1000, 6176, 10)]\<rparr> 20 True
     = Inr len \<and> even len \<and> 6176 \<le> len * 20"
  using get_min_length_obeys_rules [of 20 "\<lparr>w_al_list = [(1000, 6176, 10)], md_al_list = [(1000, 6176, 10)]\<rparr>" True]
  by (auto simp: len_data_ok_def width_rule_def rule_holds_def)

end
