(* ===== verification/Intervals.thy ===== *)
theory Intervals
  imports Sorted_Vector
begin

text \<open>
  The class template \<^verbatim>\<open>disjoint_intvs<>\<close> of \<^verbatim>\<open>include/cbag/util/interval.h\<close>: a set of disjoint
  half-open integer intervals kept in a sorted vector under the comparison ``ends before the other
  starts''.  The instance \<^verbatim>\<open>std::array<offset_t, 2>\<close> is modelled, the only one the library uses; keys
  are intervals as well.  The abstraction \<open>di_cover\<close> is the set of integers covered.
\<close>

type_synonym intv = "int \<times> int"

section \<open>The operations\<close>

definition nonempty :: "intv \<Rightarrow> bool" where
  "nonempty i \<longleftrightarrow> fst i < snd i"

definition intv_transform :: "intv \<Rightarrow> int \<Rightarrow> int \<Rightarrow> intv" where
  "intv_transform i scale shift =
     (if scale \<ge> 0 then (scale * fst i + shift, scale * snd i + shift)
      else (scale * snd i + shift, scale * fst i + shift))"

definition intv_comp :: "intv \<Rightarrow> intv \<Rightarrow> bool" where
  "intv_comp lhs rhs \<longleftrightarrow> snd lhs \<le> fst rhs"

definition di_overlap_range :: "intv list \<Rightarrow> intv \<Rightarrow> nat \<times> nat" where
  "di_overlap_range d key = sv_equal_range intv_comp intv_comp d key"

definition di_start :: "intv list \<Rightarrow> int result" where
  "di_start d = bindR (sv_at_front d) (\<lambda>i. Inr (fst i))"

definition di_stop :: "intv list \<Rightarrow> int result" where
  "di_stop d = bindR (sv_at_back d) (\<lambda>i. Inr (snd i))"

definition di_find_exact :: "intv list \<Rightarrow> intv \<Rightarrow> nat" where
  "di_find_exact d key = sv_find_exact intv_comp (=) d key"

definition di_contains :: "intv list \<Rightarrow> intv \<Rightarrow> bool" where
  "di_contains d key \<longleftrightarrow> di_find_exact d key \<noteq> length d"

definition di_overlaps :: "intv list \<Rightarrow> intv \<Rightarrow> bool" where
  "di_overlaps d key \<longleftrightarrow> sv_equal_size intv_comp intv_comp d key > 0"

definition di_covers :: "intv list \<Rightarrow> intv \<Rightarrow> bool" where
  "di_covers d key \<longleftrightarrow> sv_equal_size intv_comp intv_comp d key = 1"

text \<open>The loop of \<^verbatim>\<open>intersect_helper\<close> over the overlapping intervals.\<close>

definition di_intersect_push :: "intv \<Rightarrow> intv list \<Rightarrow> intv \<Rightarrow> intv list result" where
  "di_intersect_push intv ans i =
     (let start = max (fst intv) (fst i); stop = min (snd intv) (snd i)
      in if start < stop then sv_push_back intv_comp ans (start, stop) else Inr ans)"

text \<open>
  \<^verbatim>\<open>intersect_helper\<close> on the intervals from \<^verbatim>\<open>first\<close> on: the new result and the intervals left
  after \<^verbatim>\<open>first\<close> has been moved to the last overlapping one.
\<close>

definition di_intersect_helper :: "intv list \<Rightarrow> intv \<Rightarrow> intv list \<Rightarrow> (intv list \<times> intv list) result" where
  "di_intersect_helper ans intv rest =
     (case sv_equal_range intv_comp intv_comp rest intv of (start_iter, stop_iter) \<Rightarrow>
       bindR (foldR (di_intersect_push intv) ans (take (stop_iter - start_iter) (drop start_iter rest)))
         (\<lambda>ans'. Inr (ans', drop (if start_iter = stop_iter then start_iter else stop_iter - 1) rest)))"

lemma di_intersect_helper_length:
  "di_intersect_helper ans i rest = Inr (ans', rest') \<Longrightarrow> length rest' \<le> length rest"
  by (auto simp: di_intersect_helper_def result_simps split: prod.splits)

function di_intersect_loop :: "intv list \<Rightarrow> intv list \<Rightarrow> intv list \<Rightarrow> intv list result" where
  "di_intersect_loop ans xs ys =
     (if xs = [] \<or> ys = [] then Inr ans
      else if length xs \<le> length ys
      then (case di_intersect_helper ans (hd xs) ys of
              Inl e \<Rightarrow> Inl e
            | Inr (ans', ys') \<Rightarrow> di_intersect_loop ans' (tl xs) ys')
      else (case di_intersect_helper ans (hd ys) xs of
              Inl e \<Rightarrow> Inl e
            | Inr (ans', xs') \<Rightarrow> di_intersect_loop ans' xs' (tl ys)))"
  by pat_completeness auto
termination
proof (relation "measure (\<lambda>(ans, xs, ys). length xs + length ys)", goal_cases)
  case (2 ans xs ys p ans' ys')
  then have "length ys' \<le> length ys" by (auto dest: di_intersect_helper_length)
  with 2 show ?case by (cases xs) auto
next
  case (3 ans xs ys p ans' xs')
  then have "length xs' \<le> length xs" by (auto dest: di_intersect_helper_length)
  with 3 show ?case by (cases ys) auto
qed simp

definition di_get_intersection :: "intv list \<Rightarrow> intv list \<Rightarrow> intv list result" where
  "di_get_intersection d other = di_intersect_loop [] d other"

text \<open>One step of the loop of \<^verbatim>\<open>get_complement\<close> over the intervals; the state is \<^verbatim>\<open>ans\<close> and \<^verbatim>\<open>lower\<close>.\<close>

definition di_complement_step :: "intv list \<times> int \<Rightarrow> intv \<Rightarrow> (intv list \<times> int) result" where
  "di_complement_step s item =
     bindR (if snd s < fst item then sv_push_back intv_comp (fst s) (snd s, fst item) else Inr (fst s))
       (\<lambda>ans. Inr (ans, snd item))"

definition di_get_complement :: "intv list \<Rightarrow> intv \<Rightarrow> intv list result" where
  "di_get_complement d key =
     (let lower = fst key; upper = snd key in
      if d = [] then sv_push_back intv_comp [] (lower, upper)
      else bindR (di_start d) (\<lambda>a. bindR (di_stop d) (\<lambda>b.
        if a < lower \<or> upper < b then Inl Out_of_range
        else bindR (foldR di_complement_step ([], lower) d) (\<lambda>(ans, lower').
          if lower' < upper then sv_push_back intv_comp ans (lower', upper) else Inr ans))))"

definition di_get_transform :: "intv list \<Rightarrow> int \<Rightarrow> int \<Rightarrow> intv list result" where
  "di_get_transform d scale shift =
     (if scale > 0 then foldR (\<lambda>ans i. sv_push_back intv_comp ans (intv_transform i scale shift)) [] d
      else if scale < 0
      then foldR (\<lambda>ans i. sv_push_back intv_comp ans (intv_transform i scale shift)) [] (rev d)
      else Inr [])"

definition di_remove :: "intv list \<Rightarrow> intv \<Rightarrow> intv list \<times> bool" where
  "di_remove d key =
     (let iter = di_find_exact d key
      in if iter = length d then (d, False) else (sv_erase d iter, True))"

definition di_remove_overlaps :: "intv list \<Rightarrow> intv \<Rightarrow> intv list \<times> bool" where
  "di_remove_overlaps d key =
     (case di_overlap_range d key of (start_iter, stop_iter) \<Rightarrow>
        if start_iter = stop_iter then (d, False) else (sv_erase_range d start_iter stop_iter, True))"

definition di_subtract :: "intv list \<Rightarrow> intv \<Rightarrow> intv list \<times> bool" where
  "di_subtract d key =
     (case di_overlap_range d key of (start_iter, stop_iter) \<Rightarrow>
      let overlap_size = stop_iter - start_iter in
      if overlap_size = 0 then (d, False)
      else
        let k_start = fst key; k_stop = snd key;
            cut = fst (d ! start_iter) < k_start;
            d1 = (if cut then d[start_iter := (fst (d ! start_iter), k_start)] else d);
            start_iter1 = (if cut then start_iter + 1 else start_iter);
            overlap_size1 = (if cut then overlap_size - 1 else overlap_size) in
        if cut \<and> overlap_size1 = 0 then (d1, True)
        else
          let last_iter = stop_iter - 1 in
          if k_stop < snd (d1 ! last_iter)
          then (let d2 = d1[last_iter := (k_stop, snd (d1 ! last_iter))] in
                if overlap_size1 - 1 = 0 then (d2, True)
                else (sv_erase_range d2 start_iter1 last_iter, True))
          else (sv_erase_range d1 start_iter1 stop_iter, True))"

definition di_emplace :: "intv list \<Rightarrow> bool \<Rightarrow> bool \<Rightarrow> intv \<Rightarrow> (intv list \<times> bool) result" where
  "di_emplace d merge abut item =
     (let i_start = fst item; i_stop = snd item in
      if \<not> nonempty item then Inl Invalid_argument
      else
        (case (if abut \<and> merge then di_overlap_range d (i_start - 1, i_stop + 1)
               else di_overlap_range d item) of (start_iter, stop_iter) \<Rightarrow>
          if start_iter = stop_iter then Inr (fst (sv_insert_unique intv_comp d item), True)
          else if merge then
            (let ovl_start = fst (d ! start_iter); ovl_stop = snd (d ! (stop_iter - 1));
                 d1 = d[start_iter := (min i_start ovl_start, max i_stop ovl_stop)] in
             if stop_iter > start_iter + 1
             then Inr (sv_erase_range d1 (start_iter + 1) stop_iter, True) else Inr (d1, True))
          else Inr (d, False)))"

section \<open>Invariant and abstraction\<close>

definition di_inv :: "intv list \<Rightarrow> bool" where
  "di_inv d \<longleftrightarrow> sorted_wrt intv_comp d \<and> (\<forall>i\<in>set d. nonempty i)"

definition di_cover :: "intv list \<Rightarrow> int set" where
  "di_cover d = (\<Union>i\<in>set d. {fst i..<snd i})"

lemma di_inv_Nil [simp]: "di_inv []"
  by (simp add: di_inv_def)

lemma di_cover_Nil [simp]: "di_cover [] = {}"
  by (simp add: di_cover_def)

lemma di_cover_Cons [simp]: "di_cover (i # d) = {fst i..<snd i} \<union> di_cover d"
  by (simp add: di_cover_def)

lemma di_cover_append [simp]: "di_cover (us @ vs) = di_cover us \<union> di_cover vs"
  by (simp add: di_cover_def)

lemma di_cover_empty_iff: "di_cover us = {} \<longleftrightarrow> (\<forall>i\<in>set us. \<not> nonempty i)"
  by (auto simp: di_cover_def nonempty_def)

lemma di_inv_append:
  "di_inv (us @ vs) \<longleftrightarrow> di_inv us \<and> di_inv vs \<and> (\<forall>i\<in>set us. \<forall>j\<in>set vs. snd i \<le> fst j)"
  by (auto simp: di_inv_def sorted_wrt_append intv_comp_def)

lemma di_inv_Cons: "di_inv (i # d) \<longleftrightarrow> nonempty i \<and> di_inv d \<and> (\<forall>j\<in>set d. snd i \<le> fst j)"
  by (auto simp: di_inv_def intv_comp_def)

lemmas di_inv_simps = di_inv_append di_inv_Cons

lemma di_nonempty: "di_inv d \<Longrightarrow> i \<in> set d \<Longrightarrow> fst i < snd i"
  by (auto simp: di_inv_def nonempty_def)

text \<open>In a set of disjoint intervals a bound on the first interval is a bound on all of them.\<close>

lemma di_above_hd:
  assumes "di_inv d" and "i \<in> set d"
  shows "fst (hd d) \<le> fst i" and "snd (hd d) \<le> snd i"
proof -
  from assms obtain j d' where d: "d = j # d'" by (cases d) auto
  have "i = j \<or> snd j \<le> fst i \<and> fst j < snd j \<and> fst i < snd i"
    using assms di_nonempty [OF assms(1)] by (auto simp: d di_inv_Cons)
  then show "fst (hd d) \<le> fst i" "snd (hd d) \<le> snd i" by (auto simp: d)
qed

definition key_overlaps :: "intv \<Rightarrow> intv \<Rightarrow> bool" where
  "key_overlaps key i \<longleftrightarrow> fst key < snd i \<and> fst i < snd key"

text \<open>A key splits the intervals: those before it, those overlapping it, those after it.\<close>

lemma di_split:
  assumes "di_inv d" and "fst key \<le> snd key"
  obtains us ms vs where "d = us @ ms @ vs" and "\<forall>i\<in>set us. snd i \<le> fst key"
    and "\<forall>i\<in>set ms. key_overlaps key i" and "\<forall>i\<in>set vs. snd key \<le> fst i"
    and "di_overlap_range d key = (length us, length us + length ms)"
proof -
  obtain us rest where d: "d = us @ rest" and lb: "us = takeWhile (\<lambda>i. snd i \<le> fst key) d"
    and us: "\<forall>i\<in>set us. snd i \<le> fst key" and hd1: "rest = [] \<or> \<not> snd (hd rest) \<le> fst key"
    by (rule takeWhile_split)
  obtain ms vs where r: "rest = ms @ vs" and ub: "ms = takeWhile (\<lambda>i. \<not> snd key \<le> fst i) rest"
    and ms: "\<forall>i\<in>set ms. \<not> snd key \<le> fst i" and hd2: "vs = [] \<or> \<not> \<not> snd key \<le> fst (hd vs)"
    by (rule takeWhile_split)
  note inv = assms(1) [unfolded d r di_inv_append]
  have rest: "\<forall>i\<in>set rest. fst key < snd i"
    using hd1 di_above_hd(2) [of rest] assms(1) d by (fastforce simp: di_inv_append)
  have vs: "\<forall>i\<in>set vs. snd key \<le> fst i"
    using hd2 di_above_hd(1) [of vs] inv by fastforce
  have "\<forall>i\<in>set us. \<not> snd key \<le> fst i"
    using us assms(2) inv di_nonempty [of us] by fastforce
  then have "length (takeWhile (\<lambda>i. \<not> snd key \<le> fst i) d) = length us + length ms"
    using length_takeWhile_partition [of "us @ ms" "\<lambda>i. \<not> snd key \<le> fst i" vs] ms hd2 d r
    by auto
  then have "di_overlap_range d key = (length us, length us + length ms)"
    by (simp add: di_overlap_range_def sv_equal_range_def sv_lower_bound_def sv_upper_bound_def
        intv_comp_def lb)
  with d r us ms rest vs show thesis by (intro that [of us ms vs]) (auto simp: key_overlaps_def)
qed

lemma key_overlaps_iff:
  "nonempty key \<Longrightarrow> nonempty i \<Longrightarrow> key_overlaps key i \<longleftrightarrow> {fst key..<snd key} \<inter> {fst i..<snd i} \<noteq> {}"
  by (auto simp: key_overlaps_def nonempty_def disjoint_iff)

section \<open>Adding an interval\<close>

lemma di_insert_gap:
  assumes inv: "di_inv (us @ vs)" and us: "\<forall>i\<in>set us. snd i \<le> fst item"
    and vs: "\<forall>i\<in>set vs. snd item \<le> fst i" and ne: "nonempty item"
  shows "fst (sv_insert_unique intv_comp (us @ vs) item) = us @ item # vs"
proof -
  have "vs = [] \<or> \<not> snd (hd vs) \<le> fst item"
    using vs ne inv di_nonempty [of vs "hd vs"] by (cases vs) (auto simp: nonempty_def di_inv_append)
  then have "sv_lower_bound intv_comp (us @ vs) item = length us"
    unfolding sv_lower_bound_def intv_comp_def
    using us by (intro length_takeWhile_partition) auto
  with vs show ?thesis
    by (cases vs) (auto simp: sv_insert_unique_def sv_insert_force_def intv_comp_def Let_def)
qed

lemma di_gap_inv:
  assumes "di_inv (us @ vs)" and "\<forall>i\<in>set us. snd i \<le> fst item"
    and "\<forall>i\<in>set vs. snd item \<le> fst i" and "nonempty item"
  shows "di_inv (us @ item # vs)"
  using assms by (auto simp: di_inv_simps)

text \<open>
  Replacing the intervals between \<open>us\<close> and \<open>vs\<close> by their hull with the item.  They overlap the key,
  which is the item, widened by one on both sides when abutting intervals are to be merged.
\<close>

lemma di_hull:
  assumes inv: "di_inv (us @ ms @ vs)" and ms: "ms \<noteq> []" and ne: "nonempty item"
    and w: "0 \<le> w" "w \<le> 1" and key: "key = (fst item - w, snd item + w)"
    and us: "\<forall>i\<in>set us. snd i \<le> fst key" and ov: "\<forall>i\<in>set ms. key_overlaps key i"
    and vs: "\<forall>i\<in>set vs. snd key \<le> fst i"
    and hull: "hull = (min (fst item) (fst (hd ms)), max (snd item) (snd (last ms)))"
  shows "di_inv (us @ hull # vs)"
    and "di_cover (us @ hull # vs) = di_cover (us @ ms @ vs) \<union> {fst item..<snd item}"
proof -
  note parts = inv [unfolded di_inv_append]
  have h: "hd ms \<in> set ms" "last ms \<in> set ms" using ms by simp_all
  have "nonempty hull" using ne hull by (auto simp: nonempty_def)
  moreover have "\<forall>i\<in>set us. snd i \<le> fst hull" using us key w parts h hull by fastforce
  moreover have "\<forall>i\<in>set vs. snd hull \<le> fst i" using vs key w parts h hull by fastforce
  moreover have "di_inv (us @ vs)" using parts by (auto simp: di_inv_append)
  ultimately show "di_inv (us @ hull # vs)" by (intro di_gap_inv)
  have bounds: "fst (hd ms) \<le> fst i \<and> snd i \<le> snd (last ms)" if "i \<in> set ms" for i
  proof -
    from ms obtain ls l where l: "ms = ls @ [l]" by (cases ms rule: rev_cases) auto
    have "snd i \<le> snd l" using that parts l by (auto simp: di_inv_simps nonempty_def)
    with di_above_hd(1) [of ms i] that parts l show ?thesis by auto
  qed
  have "{fst hull..<snd hull} = di_cover ms \<union> {fst item..<snd item}"
  proof
    have "x \<in> {fst (hd ms)..<snd (hd ms)} \<union> {fst (last ms)..<snd (last ms)} \<union> {fst item..<snd item}"
      if "x \<in> {fst hull..<snd hull}" for x
      using that ov h key w by (auto simp: hull key_overlaps_def)
    then show "{fst hull..<snd hull} \<subseteq> di_cover ms \<union> {fst item..<snd item}"
      using h by (fastforce simp: di_cover_def)
    show "di_cover ms \<union> {fst item..<snd item} \<subseteq> {fst hull..<snd hull}"
      using bounds by (fastforce simp: di_cover_def hull)
  qed
  then show "di_cover (us @ hull # vs) = di_cover (us @ ms @ vs) \<union> {fst item..<snd item}"
    by auto
qed

lemma di_replace_mid:
  assumes "ms \<noteq> []"
  shows "sv_erase_range ((us @ ms @ vs)[length us := x]) (length us + 1) (length us + length ms)
           = us @ x # vs"
    and "length ms = 1 \<Longrightarrow> (us @ ms @ vs)[length us := x] = us @ x # vs"
  using assms by (cases ms; simp add: sv_erase_range_def list_update_append)+

lemma di_emplace_spec:
  assumes inv: "di_inv d" and ne: "nonempty item"
  obtains d' ok where "di_emplace d merge abut item = Inr (d', ok)" and "di_inv d'"
    and "ok \<longleftrightarrow> merge \<or> {fst item..<snd item} \<inter> di_cover d = {}"
    and "di_cover d' = (if ok then di_cover d \<union> {fst item..<snd item} else di_cover d)"
proof -
  define w :: int where "w = (if abut \<and> merge then 1 else 0)"
  define key where "key = (fst item - w, snd item + w)"
  have w: "0 \<le> w" "w \<le> 1" "\<not> merge \<Longrightarrow> w = 0" by (auto simp: w_def)
  have key_le: "fst key \<le> snd key" using ne w by (auto simp: key_def nonempty_def)
  obtain us ms vs where d: "d = us @ ms @ vs" and us: "\<forall>i\<in>set us. snd i \<le> fst key"
    and ms: "\<forall>i\<in>set ms. key_overlaps key i" and vs: "\<forall>i\<in>set vs. snd key \<le> fst i"
    and r: "di_overlap_range d key = (length us, length us + length ms)"
    by (rule di_split [OF inv key_le])
  have range: "(if abut \<and> merge then di_overlap_range d (fst item - 1, snd item + 1)
      else di_overlap_range d item) = (length us, length us + length ms)"
    using r by (auto simp: key_def w_def)
  have emplace: "di_emplace d merge abut item =
      (if ms = [] then Inr (fst (sv_insert_unique intv_comp d item), True)
       else if merge then
         (let d1 = d[length us := (min (fst item) (fst (d ! length us)),
                                   max (snd item) (snd (d ! (length us + length ms - 1))))] in
          if length ms > 1
          then Inr (sv_erase_range d1 (length us + 1) (length us + length ms), True) else Inr (d1, True))
       else Inr (d, False))"
    using ne by (simp add: di_emplace_def Let_def range)
  have disj: "{fst item..<snd item} \<inter> di_cover (us @ vs) = {}"
    using us vs w by (fastforce simp: di_cover_def key_def)
  show thesis
  proof (cases "ms = []")
    case True
    have uv: "di_inv (us @ vs)" "\<forall>i\<in>set us. snd i \<le> fst item" "\<forall>i\<in>set vs. snd item \<le> fst i"
      using inv d True us vs w by (auto simp: key_def)
    have "di_emplace d merge abut item = Inr (us @ item # vs, True)"
      using di_insert_gap [OF uv ne] True d emplace by simp
    then show ?thesis
      by (rule that) (use di_gap_inv [OF uv ne] disj True d in auto)
  next
    case False
    show ?thesis
    proof (cases merge)
      case True
      define hull where "hull = (min (fst item) (fst (hd ms)), max (snd item) (snd (last ms)))"
      have at: "d ! length us = hd ms" "d ! (length us + length ms - 1) = last ms"
        using False d by (simp_all add: nth_mid_hd nth_mid_last)
      have "di_emplace d merge abut item =
          (if length ms > 1
           then Inr (sv_erase_range (d[length us := hull]) (length us + 1) (length us + length ms), True)
           else Inr (d[length us := hull], True))"
        using False True at by (subst emplace) (simp add: hull_def)
      moreover have "length ms > 1 \<or> length ms = 1" using False by (cases ms) auto
      ultimately have "di_emplace d merge abut item = Inr (us @ hull # vs, True)"
        using di_replace_mid [OF False, of us vs hull] d by auto
      moreover note di_hull [OF inv [unfolded d] False ne w(1,2) key_def us ms vs hull_def]
      ultimately show ?thesis using that True d by simp
    next
      case merge: False
      then have emp: "di_emplace d merge abut item = Inr (d, False)"
        using False by (subst emplace) simp
      have "{fst item..<snd item} \<inter> {fst (hd ms)..<snd (hd ms)} \<noteq> {}"
        using False ms inv d ne w(3) [OF merge] key_overlaps_iff [of item "hd ms"]
        by (auto simp: key_def di_inv_def)
      moreover have "{fst (hd ms)..<snd (hd ms)} \<subseteq> di_cover d"
        using False d by (cases ms) auto
      ultimately have "{fst item..<snd item} \<inter> di_cover d \<noteq> {}"
        by blast
      with emp show ?thesis using that [of d False] inv merge by simp
    qed
  qed
qed

section \<open>Taking intervals away\<close>

text \<open>The effect of \<open>di_subtract\<close> on the overlapping intervals.\<close>

definition di_trim :: "intv \<Rightarrow> intv list \<Rightarrow> intv list" where
  "di_trim key ms =
     (let l = (if fst (hd ms) < fst key then [(fst (hd ms), fst key)] else []) in
      if l \<noteq> [] \<and> length ms = 1 then l
      else l @ (if snd key < snd (last ms) then [(snd key, snd (last ms))] else []))"

lemma di_subtract_trim:
  assumes r: "di_overlap_range d key = (length us, length us + length ms)" and d: "d = us @ ms @ vs"
  shows "di_subtract d key = (if ms = [] then (d, False) else (us @ di_trim key ms @ vs, True))"
proof -
  consider "ms = []" | m where "ms = [m]" | m mid l where "ms = m # mid @ [l]"
    by (cases ms; cases "tl ms" rule: rev_cases) auto
  then show ?thesis
  proof cases
    case 1
    with r show ?thesis by (simp add: di_subtract_def Let_def)
  next
    case 2
    with r d show ?thesis
      by (auto simp: di_subtract_def Let_def sv_erase_range_def di_trim_def list_update_append)
  next
    case 3
    with r d show ?thesis
      by (auto simp: di_subtract_def Let_def sv_erase_range_def di_trim_def list_update_append
          nth_append)
  qed
qed

lemma di_trim_cases:
  assumes "ms \<noteq> []"
  obtains m where "ms = [m]" | m mid l where "ms = m # mid @ [l]"
  using assms by (cases ms; cases "tl ms" rule: rev_cases) auto

lemma di_trim_inv:
  assumes "di_inv ms" and "\<forall>i\<in>set ms. key_overlaps key i" and "ms \<noteq> []" and "nonempty key"
  shows "di_inv (di_trim key ms)"
    and "\<forall>i\<in>set (di_trim key ms). fst (hd ms) \<le> fst i \<and> snd i \<le> snd (last ms)"
  using assms(1,2,4)
  by (cases rule: di_trim_cases [OF assms(3)];
      auto simp: di_trim_def Let_def di_inv_simps nonempty_def key_overlaps_def)+

lemma di_last_bounds:
  assumes "di_inv ms" and "i \<in> set ms" and "i \<noteq> last ms"
  shows "snd i \<le> fst (last ms)"
  using assms by (cases ms rule: rev_cases) (auto simp: di_inv_simps)

lemma di_hd_bounds:
  assumes "di_inv ms" and "i \<in> set ms" and "i \<noteq> hd ms"
  shows "snd (hd ms) \<le> fst i"
  using assms by (cases ms) (auto simp: di_inv_simps)

lemma di_trim_cover:
  assumes inv: "di_inv ms" and ov: "\<forall>i\<in>set ms. key_overlaps key i" and ne: "ms \<noteq> []"
    and key: "nonempty key"
  shows "di_cover (di_trim key ms) =
    di_cover ms - {fst key..<if \<exists>i\<in>set ms. fst i < fst key \<and> snd key < snd i
                             then snd (last ms) else snd key}"
proof -
  show ?thesis
  proof (cases rule: di_trim_cases [OF ne])
    case (1 m)
    with assms show ?thesis
      by (auto simp: di_trim_def nonempty_def key_overlaps_def di_inv_simps)
  next
    case (2 m mid l)
    have mid: "fst key \<le> fst i \<and> snd i \<le> snd key \<and> snd m \<le> fst i \<and> snd i \<le> fst l"
      if "i \<in> set mid" for i
      using inv ov that unfolding 2 by (fastforce simp: di_inv_simps key_overlaps_def)
    have ends: "snd m \<le> fst l" "fst key < snd m" "fst l < snd key" "fst m < snd m" "fst l < snd l"
      using inv ov 2 by (auto simp: di_inv_simps key_overlaps_def nonempty_def)
    then have none: "\<not> (\<exists>i\<in>set ms. fst i < fst key \<and> snd key < snd i)"
      using mid 2 by fastforce
    have "di_cover mid \<subseteq> {fst key..<snd key}" using mid by (fastforce simp: di_cover_def)
    moreover have "di_cover (di_trim key ms) =
        {fst m..<min (snd m) (fst key)} \<union> {max (fst l) (snd key)..<snd l}"
      using 2 ends by (auto simp: di_trim_def)
    ultimately show ?thesis using none ends 2 by auto
  qed
qed

lemma di_cover_disjoint_left: "\<forall>i\<in>set us. snd i \<le> a \<Longrightarrow> di_cover us - {a..<b} = di_cover us"
  by (fastforce simp: di_cover_def)

lemma di_cover_disjoint_right: "\<forall>i\<in>set vs. b \<le> fst i \<Longrightarrow> di_cover vs - {a..<b} = di_cover vs"
  by (fastforce simp: di_cover_def)

lemma di_subtract_spec:
  assumes inv: "di_inv d" and key: "nonempty key"
  obtains d' where
    "di_subtract d key = (d', di_cover d \<inter> {fst key..<snd key} \<noteq> {})" and "di_inv d'"
    and "\<forall>i\<in>set d. \<not> (fst i < fst key \<and> snd key < snd i) \<Longrightarrow>
         di_cover d' = di_cover d - {fst key..<snd key}"
    and "\<And>i. i \<in> set d \<Longrightarrow> fst i < fst key \<Longrightarrow> snd key < snd i \<Longrightarrow>
         di_cover d' = di_cover d - {fst key..<snd i}"
proof -
  obtain us ms vs where d: "d = us @ ms @ vs" and us: "\<forall>i\<in>set us. snd i \<le> fst key"
    and ms: "\<forall>i\<in>set ms. key_overlaps key i" and vs: "\<forall>i\<in>set vs. snd key \<le> fst i"
    and r: "di_overlap_range d key = (length us, length us + length ms)"
    using key by (auto simp: nonempty_def intro: di_split [OF inv, of key])
  note parts = inv [unfolded d di_inv_append]
  note sub = di_subtract_trim [OF r d]
  have disj: "di_cover us \<inter> {fst key..<snd key} = {}" "di_cover vs \<inter> {fst key..<snd key} = {}"
    using us vs by (fastforce simp: di_cover_def)+
  show thesis
  proof (cases "ms = []")
    case True
    have "\<not> (fst i < fst key \<and> snd key < snd i)" if "i \<in> set d" for i
      using that d True us vs key by (auto simp: nonempty_def)
    with True sub disj d inv show ?thesis by (intro that [of d]) auto
  next
    case False
    let ?d' = "us @ di_trim key ms @ vs"
    have h: "hd ms \<in> set ms" "last ms \<in> set ms" using False by simp_all
    have inv_ms: "di_inv ms" using parts by simp
    note trim = di_trim_inv [OF inv_ms ms False key] di_trim_cover [OF inv_ms ms False key]
    have meets: "{fst (hd ms)..<snd (hd ms)} \<inter> {fst key..<snd key} \<noteq> {}"
      using key_overlaps_iff [OF key, of "hd ms"] h ms parts by (auto simp: di_inv_def)
    then have hit: "di_cover d \<inter> {fst key..<snd key} \<noteq> {}"
      using h(1) by (fastforce simp: d di_cover_def)
    have left: "snd i \<le> fst j" if "i \<in> set us" "j \<in> set (di_trim key ms)" for i j
    proof -
      have "snd i \<le> fst (hd ms)" using that(1) parts h(1) by auto
      also have "\<dots> \<le> fst j" using that(2) trim(2) by auto
      finally show ?thesis .
    qed
    have right: "snd i \<le> fst j" if "i \<in> set (di_trim key ms)" "j \<in> set vs" for i j
    proof -
      have "snd i \<le> snd (last ms)" using that(1) trim(2) by auto
      also have "\<dots> \<le> fst j" using that(2) parts h(2) by auto
      finally show ?thesis .
    qed
    have inv': "di_inv ?d'"
      using parts trim(1) left right by (simp add: di_inv_append ball_Un)
    have no_hole: "di_cover ?d' = di_cover d - {fst key..<snd key}"
      if "\<forall>i\<in>set d. \<not> (fst i < fst key \<and> snd key < snd i)"
    proof -
      have "\<not> (\<exists>i\<in>set ms. fst i < fst key \<and> snd key < snd i)" using that d by auto
      then show ?thesis using trim(3) parts disj d by auto
    qed
    have hole: "di_cover ?d' = di_cover d - {fst key..<snd i}"
      if i: "i \<in> set d" "fst i < fst key" "snd key < snd i" for i
    proof -
      have im: "i \<in> set ms" using i d us vs key by (fastforce simp: nonempty_def)
      have "i = last ms"
        using di_last_bounds [of ms i] parts im i ms h by (fastforce simp: key_overlaps_def)
      moreover have "\<exists>i\<in>set ms. fst i < fst key \<and> snd key < snd i" using im i by blast
      moreover have "\<forall>j\<in>set vs. snd i \<le> fst j" using parts im by auto
      ultimately show ?thesis
        using trim(3) parts us d
          di_cover_disjoint_left [of us "fst key" "snd i"]
          di_cover_disjoint_right [of vs "snd i" "fst key"]
        by auto
    qed
    show ?thesis
      by (rule that [of ?d']) (use False sub hit inv' no_hole hole in simp_all)
  qed
qed

lemma di_remove_overlaps_spec:
  assumes inv: "di_inv d" and key: "fst key \<le> snd key"
  shows "di_remove_overlaps d key =
    (filter (\<lambda>i. \<not> key_overlaps key i) d, \<exists>i\<in>set d. key_overlaps key i)"
proof -
  obtain us ms vs where d: "d = us @ ms @ vs" and us: "\<forall>i\<in>set us. snd i \<le> fst key"
    and ms: "\<forall>i\<in>set ms. key_overlaps key i" and vs: "\<forall>i\<in>set vs. snd key \<le> fst i"
    and r: "di_overlap_range d key = (length us, length us + length ms)"
    by (rule di_split [OF inv key])
  have "\<forall>i\<in>set (us @ vs). \<not> key_overlaps key i"
    using us vs by (fastforce simp: key_overlaps_def)
  then have "filter (\<lambda>i. \<not> key_overlaps key i) d = us @ vs"
    and "(\<exists>i\<in>set d. key_overlaps key i) \<longleftrightarrow> ms \<noteq> []"
    using d ms by (cases ms; auto simp: filter_id_conv filter_empty_conv)+
  with r d show ?thesis
    by (auto simp: di_remove_overlaps_def sv_erase_range_def)
qed

section \<open>Queries\<close>

lemma di_overlap_count:
  assumes inv: "di_inv d" and key: "fst key \<le> snd key"
  shows "sv_equal_size intv_comp intv_comp d key = int (length (filter (key_overlaps key) d))"
proof -
  obtain us ms vs where d: "d = us @ ms @ vs" and us: "\<forall>i\<in>set us. snd i \<le> fst key"
    and ms: "\<forall>i\<in>set ms. key_overlaps key i" and vs: "\<forall>i\<in>set vs. snd key \<le> fst i"
    and r: "di_overlap_range d key = (length us, length us + length ms)"
    by (rule di_split [OF inv key])
  have "\<forall>i\<in>set us \<union> set vs. \<not> key_overlaps key i"
    using us vs by (fastforce simp: key_overlaps_def)
  then have "filter (key_overlaps key) d = ms" using d ms by (simp add: filter_empty_conv)
  with r show ?thesis by (simp add: sv_equal_size_def di_overlap_range_def Let_def)
qed

lemma di_overlaps_iff:
  assumes "di_inv d" and "nonempty key"
  shows "di_overlaps d key \<longleftrightarrow> di_cover d \<inter> {fst key..<snd key} \<noteq> {}"
proof -
  have "di_overlaps d key \<longleftrightarrow> (\<exists>i\<in>set d. key_overlaps key i)"
    using assms by (simp add: di_overlaps_def di_overlap_count nonempty_def filter_empty_conv)
  also have "\<dots> \<longleftrightarrow> (\<exists>i\<in>set d. {fst key..<snd key} \<inter> {fst i..<snd i} \<noteq> {})"
  proof (rule bex_cong [OF refl])
    fix i assume "i \<in> set d"
    with assms show "key_overlaps key i \<longleftrightarrow> {fst key..<snd key} \<inter> {fst i..<snd i} \<noteq> {}"
      by (intro key_overlaps_iff) (auto simp: di_inv_def)
  qed
  also have "\<dots> \<longleftrightarrow> di_cover d \<inter> {fst key..<snd key} \<noteq> {}" unfolding di_cover_def by blast
  finally show ?thesis .
qed

lemma di_contains_iff:
  assumes "di_inv d" and "nonempty key"
  shows "di_contains d key \<longleftrightarrow> key \<in> set d"
proof
  assume "di_contains d key"
  then show "key \<in> set d"
    by (auto simp: di_contains_def di_find_exact_def sv_find_exact_def sv_lower_bound_def Let_def
        split: if_splits) (metis length_takeWhile_le nth_mem le_neq_implies_less)
next
  assume "key \<in> set d"
  then obtain us vs where d: "d = us @ key # vs" by (meson split_list)
  have "\<forall>i\<in>set us. intv_comp i key" using assms d by (auto simp: di_inv_def sorted_wrt_append)
  then have "sv_lower_bound intv_comp d key = length us"
    unfolding sv_lower_bound_def d
    using assms by (intro length_takeWhile_partition) (auto simp: intv_comp_def nonempty_def)
  with d show "di_contains d key"
    by (simp add: di_contains_def di_find_exact_def sv_find_exact_def)
qed

section \<open>Building a result with \<^verbatim>\<open>push_back\<close>\<close>

lemma di_push:
  assumes "di_inv ans" and "\<forall>a\<in>set ans. snd a \<le> fst item" and "nonempty item"
  shows "sv_push_back intv_comp ans item = Inr (ans @ [item])" and "di_inv (ans @ [item])"
proof -
  have "\<not> intv_comp item (last ans)" if "ans \<noteq> []"
  proof -
    have "last ans \<in> set ans" using that by simp
    with assms di_nonempty [of ans "last ans"] show ?thesis
      by (auto simp: intv_comp_def nonempty_def)
  qed
  then show "sv_push_back intv_comp ans item = Inr (ans @ [item])"
    by (auto simp: sv_push_back_def)
  show "di_inv (ans @ [item])" using assms by (auto simp: di_inv_simps)
qed

text \<open>The loop of \<open>di_get_complement\<close>, with the gaps found so far in \<open>ans\<close>.\<close>

lemma di_complement_loop:
  assumes "di_inv d" and "di_inv ans" and "\<forall>a\<in>set ans. snd a \<le> lower"
    and "\<forall>i\<in>set d. lower \<le> fst i"
  shows "\<exists>ans' lower'. foldR di_complement_step (ans, lower) d = Inr (ans', lower') \<and>
    lower' = (if d = [] then lower else snd (last d)) \<and> di_inv ans' \<and>
    (\<forall>a\<in>set ans'. snd a \<le> lower') \<and>
    di_cover ans' = di_cover ans \<union> ({lower..<lower'} - di_cover d)"
  using assms
proof (induction d arbitrary: ans lower)
  case Nil
  then show ?case by simp
next
  case (Cons i d)
  define ans1 where "ans1 = (if lower < fst i then ans @ [(lower, fst i)] else ans)"
  have i: "fst i < snd i" "lower \<le> fst i" "\<forall>j\<in>set d. snd i \<le> fst j" "di_inv d"
    using Cons.prems by (auto simp: di_inv_Cons nonempty_def)
  have step: "di_complement_step (ans, lower) i = Inr (ans1, snd i)"
    using Cons.prems di_push(1) [of ans "(lower, fst i)"]
    by (auto simp: di_complement_step_def ans1_def nonempty_def)
  have inv1: "di_inv ans1"
    using Cons.prems di_push(2) [of ans "(lower, fst i)"] by (auto simp: ans1_def nonempty_def)
  have "snd a \<le> snd i" if "a \<in> set ans" for a
    using that Cons.prems(3) i(1,2) by (meson less_imp_le order_trans)
  then have below: "\<forall>a\<in>set ans1. snd a \<le> snd i" using i(1) by (auto simp: ans1_def)
  have cover1: "di_cover ans1 = di_cover ans \<union> {lower..<fst i}" by (auto simp: ans1_def)
  obtain ans' lower' where loop: "foldR di_complement_step (ans1, snd i) d = Inr (ans', lower')"
    and low: "lower' = (if d = [] then snd i else snd (last d))" and inv': "di_inv ans'"
    and below': "\<forall>a\<in>set ans'. snd a \<le> lower'"
    and cover': "di_cover ans' = di_cover ans1 \<union> ({snd i..<lower'} - di_cover d)"
    using Cons.IH [OF i(4) inv1 below i(3)] by auto
  have "snd i \<le> lower'"
  proof (cases "d = []")
    case False
    then have "last d \<in> set d" by simp
    with i False low di_nonempty [OF i(4)] show ?thesis by fastforce
  qed (use low in simp)
  moreover have "di_cover d \<inter> {..<snd i} = {}" using i(3) by (fastforce simp: di_cover_def)
  ultimately have "di_cover ans' = di_cover ans \<union> ({lower..<lower'} - di_cover (i # d))"
    using cover' cover1 i(1,2) by fastforce
  with loop step low inv' below' show ?case by auto
qed

section \<open>Intersection\<close>

lemma di_intersect_fold:
  assumes "di_inv ms" and "di_inv ans" and "\<forall>m\<in>set ms. key_overlaps x m" and "nonempty x"
    and "\<forall>a\<in>set ans. \<forall>m\<in>set ms. snd a \<le> max (fst x) (fst m)"
  shows "\<exists>ans'. foldR (di_intersect_push x) ans ms = Inr ans' \<and> di_inv ans' \<and>
    (\<forall>a\<in>set ans'. a \<in> set ans \<or> snd a \<le> snd x) \<and>
    di_cover ans' = di_cover ans \<union> ({fst x..<snd x} \<inter> di_cover ms)"
  using assms
proof (induction ms arbitrary: ans)
  case (Cons m ms)
  let ?i = "(max (fst x) (fst m), min (snd x) (snd m))"
  have ne: "nonempty ?i"
    using Cons.prems by (auto simp: nonempty_def key_overlaps_def di_inv_Cons)
  have push: "di_intersect_push x ans m = Inr (ans @ [?i])" "di_inv (ans @ [?i])"
    using Cons.prems di_push [of ans ?i] ne by (auto simp: di_intersect_push_def nonempty_def)
  have "\<forall>a\<in>set (ans @ [?i]). \<forall>m\<in>set ms. snd a \<le> max (fst x) (fst m)"
    using Cons.prems by (fastforce simp: di_inv_Cons)
  then obtain ans' where "foldR (di_intersect_push x) (ans @ [?i]) ms = Inr ans'" "di_inv ans'"
    "\<forall>a\<in>set ans'. a \<in> set (ans @ [?i]) \<or> snd a \<le> snd x"
    "di_cover ans' = di_cover (ans @ [?i]) \<union> ({fst x..<snd x} \<inter> di_cover ms)"
    using Cons.IH [of "ans @ [?i]"] Cons.prems push by (auto simp: di_inv_Cons)
  with push show ?case by (auto 0 3)
qed simp

lemma di_intersect_helper_spec:
  assumes inv: "di_inv ans" "di_inv ys" and x: "nonempty x"
    and sep: "\<forall>a\<in>set ans. \<forall>y\<in>set ys. snd a \<le> max (fst x) (fst y)"
  obtains ans' ys' where "di_intersect_helper ans x ys = Inr (ans', ys')" and "di_inv ans'"
    and "di_inv ys'" and "set ys' \<subseteq> set ys" and "\<forall>a\<in>set ans'. a \<in> set ans \<or> snd a \<le> snd x"
    and "di_cover ans' = di_cover ans \<union> ({fst x..<snd x} \<inter> di_cover ys)"
    and "{snd x..} \<inter> di_cover ys' = {snd x..} \<inter> di_cover ys"
proof -
  have x_le: "fst x \<le> snd x" using x by (simp add: nonempty_def)
  obtain us ms vs where ys: "ys = us @ ms @ vs" and us: "\<forall>i\<in>set us. snd i \<le> fst x"
    and ms: "\<forall>i\<in>set ms. key_overlaps x i" and vs: "\<forall>i\<in>set vs. snd x \<le> fst i"
    and r: "di_overlap_range ys x = (length us, length us + length ms)"
    by (rule di_split [OF inv(2) x_le])
  define ys' where "ys' = (if ms = [] then vs else last ms # vs)"
  note parts = inv(2) [unfolded ys di_inv_append]
  obtain ans' where fold: "foldR (di_intersect_push x) ans ms = Inr ans'" and inv': "di_inv ans'"
    and below: "\<forall>a\<in>set ans'. a \<in> set ans \<or> snd a \<le> snd x"
    and cover: "di_cover ans' = di_cover ans \<union> ({fst x..<snd x} \<inter> di_cover ms)"
    using di_intersect_fold [OF _ inv(1) ms x] parts sep ys by auto
  have "drop (length us + length ms - 1) ys = last ms # vs" if "ms \<noteq> []"
    using that by (cases ms rule: rev_cases) (auto simp: ys)
  then have helper: "di_intersect_helper ans x ys = Inr (ans', ys')"
    using r fold ys by (auto simp: di_intersect_helper_def di_overlap_range_def ys'_def)
  have inv_ys': "di_inv ys'" "set ys' \<subseteq> set ys"
  proof -
    have "nonempty (last ms) \<and> (\<forall>j\<in>set vs. snd (last ms) \<le> fst j)" if "ms \<noteq> []"
      using parts last_in_set [OF that] by (auto simp: di_inv_def)
    then show "di_inv ys'" using parts by (auto simp: ys'_def di_inv_Cons)
  qed (auto simp: ys'_def ys)
  have disj: "{fst x..<snd x} \<inter> di_cover us = {}" "{fst x..<snd x} \<inter> di_cover vs = {}"
    "{snd x..} \<inter> di_cover us = {}"
    using us vs x_le by (fastforce simp: di_cover_def)+
  have last_only: "{snd x..} \<inter> di_cover ms = {snd x..} \<inter> {fst (last ms)..<snd (last ms)}" if "ms \<noteq> []"
  proof -
    have "fst (last ms) < snd x" using ms that by (auto simp: key_overlaps_def)
    then have "snd i \<le> snd x" if "i \<in> set ms" "i \<noteq> last ms" for i
      using di_last_bounds [of ms i] parts that by auto
    then show ?thesis using that by (fastforce simp: di_cover_def)
  qed
  have "{snd x..} \<inter> di_cover ys' = {snd x..} \<inter> di_cover ys"
  proof (cases "ms = []")
    case False
    with last_only disj(3) show ?thesis by (simp add: ys ys'_def Int_Un_distrib)
  qed (use disj(3) in \<open>simp add: ys ys'_def Int_Un_distrib\<close>)
  moreover have "di_cover ans' = di_cover ans \<union> ({fst x..<snd x} \<inter> di_cover ys)"
    using cover disj by (simp add: ys Int_Un_distrib)
  ultimately show thesis
    using helper inv' inv_ys' below by (intro that)
qed

lemma di_intersect_loop_spec:
  assumes "di_inv ans" and "di_inv xs" and "di_inv ys"
    and "\<forall>a\<in>set ans. \<forall>x\<in>set xs. \<forall>y\<in>set ys. snd a \<le> max (fst x) (fst y)"
  shows "\<exists>r. di_intersect_loop ans xs ys = Inr r \<and> di_inv r \<and>
    di_cover r = di_cover ans \<union> (di_cover xs \<inter> di_cover ys)"
  using assms
proof (induction ans xs ys rule: di_intersect_loop.induct)
  case (1 ans xs ys)
  show ?case
  proof (cases "xs = [] \<or> ys = []")
    case True
    with "1.prems" show ?thesis by (auto simp: di_intersect_loop.simps [of ans])
  next
    case False
    then obtain x xt y yt where xs: "xs = x # xt" and ys: "ys = y # yt"
      by (auto simp: neq_Nil_conv)
    note X = "1.prems"(2) [unfolded xs di_inv_Cons] and Y = "1.prems"(3) [unfolded ys di_inv_Cons]
    show ?thesis
    proof (cases "length xs \<le> length ys")
      case True
      have "\<forall>a\<in>set ans. \<forall>y\<in>set ys. snd a \<le> max (fst x) (fst y)" using "1.prems"(4) xs by auto
      then obtain ans' ys' where h: "di_intersect_helper ans x ys = Inr (ans', ys')" "di_inv ans'"
        "di_inv ys'" "set ys' \<subseteq> set ys" "\<forall>a\<in>set ans'. a \<in> set ans \<or> snd a \<le> snd x"
        and c: "di_cover ans' = di_cover ans \<union> ({fst x..<snd x} \<inter> di_cover ys)"
        "{snd x..} \<inter> di_cover ys' = {snd x..} \<inter> di_cover ys"
        using "1.prems" X by (auto intro: di_intersect_helper_spec [of ans ys x])
      have "\<forall>a\<in>set ans'. \<forall>x'\<in>set xt. \<forall>y\<in>set ys'. snd a \<le> max (fst x') (fst y)"
        using h X "1.prems"(4) xs by (fastforce simp: le_max_iff_disj)
      then obtain r where r: "di_intersect_loop ans' xt ys' = Inr r" "di_inv r"
        "di_cover r = di_cover ans' \<union> (di_cover xt \<inter> di_cover ys')"
        using "1.IH"(1) [of "(ans', ys')" ans' ys'] False True h X xs by auto
      have "di_cover xt \<subseteq> {snd x..}" using X by (fastforce simp: di_cover_def)
      then have "di_cover xt \<inter> di_cover ys' = di_cover xt \<inter> di_cover ys" using c(2) by blast
      with r c(1) False True h(1) xs show ?thesis
        by (subst di_intersect_loop.simps) (auto simp: Int_Un_distrib2)
    next
      case le: False
      have "\<forall>a\<in>set ans. \<forall>x\<in>set xs. snd a \<le> max (fst y) (fst x)"
        using "1.prems"(4) ys by (auto simp: max.commute)
      then obtain ans' xs' where h: "di_intersect_helper ans y xs = Inr (ans', xs')" "di_inv ans'"
        "di_inv xs'" "set xs' \<subseteq> set xs" "\<forall>a\<in>set ans'. a \<in> set ans \<or> snd a \<le> snd y"
        and c: "di_cover ans' = di_cover ans \<union> ({fst y..<snd y} \<inter> di_cover xs)"
        "{snd y..} \<inter> di_cover xs' = {snd y..} \<inter> di_cover xs"
        using "1.prems" Y by (auto intro: di_intersect_helper_spec [of ans xs y])
      have "\<forall>a\<in>set ans'. \<forall>x\<in>set xs'. \<forall>y'\<in>set yt. snd a \<le> max (fst x) (fst y')"
        using h Y "1.prems"(4) ys by (fastforce simp: le_max_iff_disj)
      then obtain r where r: "di_intersect_loop ans' xs' yt = Inr r" "di_inv r"
        "di_cover r = di_cover ans' \<union> (di_cover xs' \<inter> di_cover yt)"
        using "1.IH"(2) [of "(ans', xs')" ans' xs'] False le h Y ys by auto
      have "di_cover yt \<subseteq> {snd y..}" using Y by (fastforce simp: di_cover_def)
      then have "di_cover xs' \<inter> di_cover yt = di_cover xs \<inter> di_cover yt" using c(2) by blast
      with r c(1) False le h(1) ys show ?thesis
        by (subst di_intersect_loop.simps) (auto simp: Int_Un_distrib)
    qed
  qed
qed

section \<open>Interface: a store of disjoint intervals\<close>

text \<open>
  What the clients of the class rely on when they only add intervals without merging
  (\<^verbatim>\<open>track_info\<close>, the interval lists of the layout): an addition either is refused and changes
  nothing, or the new interval is disjoint from the covered set and joins it.
\<close>

locale disjoint_store =
  fixes invar :: "'s \<Rightarrow> bool"
    and cover :: "'s \<Rightarrow> int set"
    and add :: "'s \<Rightarrow> intv \<Rightarrow> ('s \<times> bool) result"
  assumes add_ok: "invar s \<Longrightarrow> nonempty i \<Longrightarrow> \<exists>s' ok. add s i = Inr (s', ok)"
    and add_invar: "invar s \<Longrightarrow> add s i = Inr (s', ok) \<Longrightarrow> invar s'"
    and add_flag: "invar s \<Longrightarrow> add s i = Inr (s', ok) \<Longrightarrow>
          ok \<longleftrightarrow> cover s \<inter> {fst i..<snd i} = {}"
    and add_cover: "invar s \<Longrightarrow> add s i = Inr (s', ok) \<Longrightarrow>
          cover s' = (if ok then cover s \<union> {fst i..<snd i} else cover s)"
begin

text \<open>Adding all intervals of a list; the flag tells whether every addition succeeded.\<close>

definition add_step :: "'s \<times> bool \<Rightarrow> intv \<Rightarrow> ('s \<times> bool) result" where
  "add_step s i = bindR (add (fst s) i) (\<lambda>r. Inr (fst r, snd s \<and> snd r))"

definition add_list :: "'s \<Rightarrow> intv list \<Rightarrow> ('s \<times> bool) result" where
  "add_list s is = foldR add_step (s, True) is"

lemma add_list_acc:
  assumes "invar s" and "\<forall>i\<in>set is. nonempty i"
  shows "\<exists>s' ok'. foldR add_step (s, ok) is = Inr (s', ok') \<and> invar s' \<and>
    (ok' \<longrightarrow> ok \<and> cover s' = cover s \<union> di_cover is) \<and>
    (ok \<and> di_inv is \<and> cover s \<inter> di_cover is = {} \<longrightarrow> ok')"
  using assms
proof (induction "is" arbitrary: s ok)
  case (Cons i "is")
  then obtain s1 b where add: "add s i = Inr (s1, b)" using add_ok by fastforce
  note a = add_invar [OF Cons.prems(1) add] add_flag [OF Cons.prems(1) add]
    add_cover [OF Cons.prems(1) add]
  have ne: "\<forall>i\<in>set is. nonempty i" using Cons.prems(2) by simp
  obtain s' ok' where r: "foldR add_step (s1, ok \<and> b) is = Inr (s', ok')" "invar s'"
    and ok: "ok' \<longrightarrow> (ok \<and> b) \<and> cover s' = cover s1 \<union> di_cover is"
    "(ok \<and> b) \<and> di_inv is \<and> cover s1 \<inter> di_cover is = {} \<longrightarrow> ok'"
    using Cons.IH [OF a(1) ne, of "ok \<and> b"] by metis
  have "ok'" if h: "ok \<and> di_inv (i # is) \<and> cover s \<inter> di_cover (i # is) = {}"
  proof -
    have "{fst i..<snd i} \<inter> di_cover is = {}"
      using h by (fastforce simp: di_inv_Cons di_cover_def)
    moreover have b using h a(2) by (simp add: Int_Un_distrib)
    ultimately show ?thesis using h ok(2) a(3) by (simp add: di_inv_Cons Int_Un_distrib Int_Un_distrib2)
  qed
  moreover have "ok' \<longrightarrow> ok \<and> cover s' = cover s \<union> di_cover (i # is)"
    using ok(1) a(3) by (cases b) (simp_all add: Un_assoc)
  moreover have "foldR add_step (s, ok) (i # is) = Inr (s', ok')"
    using r(1) add by (simp add: add_step_def)
  ultimately show ?case using r(2) by blast
qed simp

lemma add_list_correct:
  assumes "invar s" and "\<forall>i\<in>set is. nonempty i"
  obtains s' ok where "add_list s is = Inr (s', ok)" and "invar s'"
    and "ok \<longrightarrow> cover s' = cover s \<union> di_cover is"
    and "di_inv is \<and> cover s \<inter> di_cover is = {} \<longrightarrow> ok"
  using add_list_acc [OF assms, of True] unfolding add_list_def by metis

end

interpretation plain_intvs: disjoint_store di_inv di_cover "\<lambda>d. di_emplace d False False"
proof
  fix d i d' ok
  assume d: "di_inv d"
  show "nonempty i \<Longrightarrow> \<exists>d' ok. di_emplace d False False i = Inr (d', ok)"
    by (metis di_emplace_spec [OF d, of i False False])
  assume e: "di_emplace d False False i = Inr (d', ok)"
  then have ne: "nonempty i" by (auto simp: di_emplace_def Let_def split: if_splits)
  obtain d1 ok1 where s: "di_emplace d False False i = Inr (d1, ok1)" "di_inv d1"
    "ok1 \<longleftrightarrow> False \<or> {fst i..<snd i} \<inter> di_cover d = {}"
    "di_cover d1 = (if ok1 then di_cover d \<union> {fst i..<snd i} else di_cover d)"
    by (rule di_emplace_spec [OF d ne])
  have eq: "d1 = d'" "ok1 = ok" using s(1) e by simp_all
  show "di_inv d'" using s(2) eq by simp
  show "ok \<longleftrightarrow> di_cover d \<inter> {fst i..<snd i} = {}" using s(3) eq by (simp add: Int_commute)
  show "di_cover d' = (if ok then di_cover d \<union> {fst i..<snd i} else di_cover d)"
    using s(4) eq by simp
qed

section \<open>Properties\<close>

text \<open>
  C31.  \<^verbatim>\<open>emplace\<close> throws exactly on an empty interval.  Otherwise the intervals stay disjoint and
  sorted; without merging the interval is added exactly when it meets none of the others, with
  merging always; and the covered set grows by exactly the new interval, or not at all.
\<close>

theorem di_emplace_correct:
  assumes "di_inv d"
  shows "case di_emplace d merge abut item of
      Inl e \<Rightarrow> e = Invalid_argument \<and> \<not> nonempty item
    | Inr (d', ok) \<Rightarrow> nonempty item \<and> di_inv d' \<and>
        (ok \<longleftrightarrow> merge \<or> {fst item..<snd item} \<inter> di_cover d = {}) \<and>
        di_cover d' = (if ok then di_cover d \<union> {fst item..<snd item} else di_cover d)"
proof (cases "nonempty item")
  case True
  then show ?thesis by (rule di_emplace_spec [OF assms, of item merge abut]) (simp add: True)
qed (simp add: di_emplace_def)

theorem di_emplace_correct_witness:
  "case di_emplace [(0, 2), (5, 7)] True True (2, 4) of
      Inl e \<Rightarrow> False
    | Inr (d', ok) \<Rightarrow> di_inv d' \<and> ok \<and> di_cover d' = {0..<2} \<union> {5..<7} \<union> {2..<4}"
  using di_emplace_correct [of "[(0, 2), (5, 7)]" "(2, 4)" True True]
  by (auto simp: di_inv_def intv_comp_def nonempty_def split: sum.splits)

text \<open>
  \<^verbatim>\<open>subtract\<close> reports whether the key meets the covered set and keeps the intervals disjoint
  and sorted.  When no interval reaches beyond the key on both sides it removes exactly the key; when
  one does, everything from the start of the key to the end of that interval is removed: the
  remainder on the right of the key is lost.
\<close>

theorem di_subtract_correct:
  assumes "di_inv d" and "nonempty key"
  shows "case di_subtract d key of (d', ok) \<Rightarrow>
    (ok \<longleftrightarrow> di_cover d \<inter> {fst key..<snd key} \<noteq> {}) \<and> di_inv d' \<and>
    ((\<forall>i\<in>set d. fst key \<le> fst i \<or> snd i \<le> snd key) \<longrightarrow>
       di_cover d' = di_cover d - {fst key..<snd key}) \<and>
    (\<forall>i\<in>set d. fst i < fst key \<and> snd key < snd i \<longrightarrow>
       di_cover d' = di_cover d - {fst key..<snd i})"
  by (rule di_subtract_spec [OF assms]) (simp add: not_less)

theorem di_subtract_correct_witness:
  "case di_subtract [(0, 10)] (3, 5) of (d', ok) \<Rightarrow>
    ok \<and> di_inv d' \<and> di_cover d' = {0..<10} - {3..<10}"
  using di_subtract_correct [of "[(0, 10)]" "(3, 5)"]
  by (auto simp: di_inv_def nonempty_def)

text \<open>
  \<^verbatim>\<open>get_intersection\<close>, which swaps the roles of the two operands so that the shorter one is
  walked and the longer one searched, never throws, although it builds its result with
  \<^verbatim>\<open>push_back\<close>; the result is well formed and covers exactly the common points.
\<close>

theorem di_get_intersection_correct:
  assumes "di_inv d" and "di_inv other"
  shows "case di_get_intersection d other of
      Inl e \<Rightarrow> False
    | Inr r \<Rightarrow> di_inv r \<and> di_cover r = di_cover d \<inter> di_cover other"
  using di_intersect_loop_spec [OF di_inv_Nil assms] by (auto simp: di_get_intersection_def)

theorem di_get_intersection_correct_witness:
  "case di_get_intersection [(0, 4), (6, 9)] [(2, 7)] of
      Inl e \<Rightarrow> False
    | Inr r \<Rightarrow> di_inv r \<and> di_cover r = ({0..<4} \<union> {6..<9}) \<inter> {2..<7}"
  using di_get_intersection_correct [of "[(0, 4), (6, 9)]" "[(2, 7)]"]
  by (simp add: di_inv_def intv_comp_def nonempty_def split: sum.splits)

text \<open>
  \<^verbatim>\<open>get_complement\<close> throws \<^verbatim>\<open>std::out_of_range\<close> exactly when the intervals reach outside the
  given bounds; otherwise it returns the well-formed intervals of the uncovered points between the
  bounds.
\<close>

theorem di_get_complement_correct:
  assumes "di_inv d" and "nonempty key"
  shows "case di_get_complement d key of
      Inl e \<Rightarrow> e = Out_of_range \<and> \<not> di_cover d \<subseteq> {fst key..<snd key}
    | Inr r \<Rightarrow> di_inv r \<and> di_cover d \<subseteq> {fst key..<snd key} \<and>
        di_cover r = {fst key..<snd key} - di_cover d"
proof (cases d)
  case Nil
  then show ?thesis using assms(2) by (simp add: di_get_complement_def Let_def sv_push_back_def di_inv_Cons)
next
  case (Cons i d')
  have ends: "di_start d = Inr (fst (hd d))" "di_stop d = Inr (snd (last d))" "d \<noteq> []"
    using Cons by (simp_all add: di_start_def di_stop_def sv_at_front_def sv_at_back_def)
  have bounds: "fst (hd d) \<le> fst j \<and> snd j \<le> snd (last d)" if "j \<in> set d" for j
    using di_above_hd(1) [OF assms(1) that] di_last_bounds [OF assms(1) that]
      di_nonempty [OF assms(1), of "last d"] ends(3) by fastforce
  have hl: "hd d \<in> set d" "last d \<in> set d" using ends by simp_all
  have inside: "di_cover d \<subseteq> {fst key..<snd key} \<longleftrightarrow> fst key \<le> fst (hd d) \<and> snd (last d) \<le> snd key"
  proof
    assume sub: "di_cover d \<subseteq> {fst key..<snd key}"
    have "fst (hd d) \<in> di_cover d" "snd (last d) - 1 \<in> di_cover d"
      using hl di_nonempty [OF assms(1)] by (force simp: di_cover_def)+
    with sub show "fst key \<le> fst (hd d) \<and> snd (last d) \<le> snd key" by fastforce
  next
    assume "fst key \<le> fst (hd d) \<and> snd (last d) \<le> snd key"
    with bounds show "di_cover d \<subseteq> {fst key..<snd key}" by (fastforce simp: di_cover_def)
  qed
  show ?thesis
  proof (cases "di_cover d \<subseteq> {fst key..<snd key}")
    case False
    with inside ends show ?thesis by (auto simp: di_get_complement_def Let_def not_le)
  next
    case True
    then have le: "fst key \<le> fst (hd d)" "snd (last d) \<le> snd key" using inside by auto
    have "\<forall>i\<in>set d. fst key \<le> fst i" using le bounds by fastforce
    then obtain ans where loop: "foldR di_complement_step ([], fst key) d = Inr (ans, snd (last d))"
      and ans: "di_inv ans" "\<forall>a\<in>set ans. snd a \<le> snd (last d)"
      "di_cover ans = {fst key..<snd (last d)} - di_cover d"
      using di_complement_loop [OF assms(1) di_inv_Nil, of "fst key"] ends by auto
    have above: "di_cover d \<inter> {snd (last d)..<snd key} = {}"
      using bounds by (fastforce simp: di_cover_def)
    have "fst key \<le> snd (last d)" using le bounds [OF hl(2)] di_nonempty [OF assms(1) hl(2)] by linarith
    then have "{fst key..<snd key} - di_cover d = di_cover ans \<union> {snd (last d)..<snd key}"
      using ans(3) above le(2) by auto
    moreover have "snd (last d) < snd key \<Longrightarrow> nonempty (snd (last d), snd key)"
      by (simp add: nonempty_def)
    ultimately show ?thesis
      using di_push [of ans "(snd (last d), snd key)"] ans(1,2) True loop ends le
      by (auto simp: di_get_complement_def Let_def not_less [symmetric])
  qed
qed

theorem di_get_complement_correct_witness:
  "case di_get_complement [(1, 3), (5, 7)] (0, 9) of
      Inl e \<Rightarrow> False
    | Inr r \<Rightarrow> di_inv r \<and> di_cover r = {0..<9} - ({1..<3} \<union> {5..<7})"
  using di_get_complement_correct [of "[(1, 3), (5, 7)]" "(0, 9)"]
  by (auto simp: di_inv_def intv_comp_def nonempty_def split: sum.splits)

end
