(* ===== verification/Track.thy ===== *)
theory Track
  imports Tech Intervals
begin

unbundle bit_operations_syntax

text \<open>
  Wire widths and routing tracks: \<^verbatim>\<open>src/cbag/layout/wire_width.cpp\<close>, \<^verbatim>\<open>track_info.cpp\<close> and
  \<^verbatim>\<open>track_info_util.cpp\<close>, and the helpers of \<^verbatim>\<open>tech_util.cpp\<close> on wires.  Positions are counted in half
  tracks.
\<close>

section \<open>Wire widths\<close>

text \<open>A wire is a list of metal strips, each with its half-track index and its width.\<close>

type_synonym wire_width = "(int \<times> int) list"

text \<open>
  Half-track indices have 64 bits and coordinates 32.  A length that is computed from half tracks is
  narrowed when it is stored, which keeps its low 32 bits.
\<close>

definition to_offset :: "int \<Rightarrow> int" where
  "to_offset i = offset_of_cnt (cnt_of_int i)"

lemma to_offset_int32 [simp]: "int32 i \<Longrightarrow> to_offset i = i"
  by (simp add: to_offset_def int32_def offset_of_small)

definition ww_edge_width :: "wire_width \<Rightarrow> int result" where
  "ww_edge_width ws = bindR (first_of ws) (\<lambda>p. Inr (snd p))"

definition ww_total_width :: "wire_width \<Rightarrow> int \<Rightarrow> int result" where
  "ww_total_width ws half_pitch =
     bindR (first_of ws) (\<lambda>(htr, w). Inr (to_offset (w + half_pitch * (fst (last ws) - htr))))"

definition get_min_length_wire :: "tech \<Rightarrow> int \<Rightarrow> wire_width \<Rightarrow> bool \<Rightarrow> int result" where
  "get_min_length_wire t level wire_w ev =
     bindR (get_test_lay_purp t level) (\<lambda>key.
       foldR (\<lambda>ans w. bindR (tech_get_min_length t key w ev) (\<lambda>l. Inr (max ans l))) 0 (map snd wire_w))"

definition get_min_space_wire :: "tech \<Rightarrow> int \<Rightarrow> wire_width \<Rightarrow> space_type \<Rightarrow> bool \<Rightarrow> int result" where
  "get_min_space_wire t level wire_w sp_type ev =
     bindR (get_test_lay_purp t level) (\<lambda>key.
     bindR (ww_edge_width wire_w) (\<lambda>w. tech_get_min_space t key w sp_type ev))"

section \<open>Tracks\<close>

record track_info =
  ti_dir :: orient_2d
  ti_w :: int
  ti_sp :: int
  ti_offset :: int
  ti_par_scale :: int
  ti_par_offset :: int
  ti_blk_pitch :: "int \<times> int"
  ti_w_intvs :: "intv list"

definition make_track_info :: "orient_2d \<Rightarrow> int \<Rightarrow> int \<Rightarrow> intv list \<Rightarrow> track_info result" where
  "make_track_info tr_dir tr_w tr_sp intv_list =
     bindR (foldR (\<lambda>d intv. bindR (di_emplace d False False intv)
               (\<lambda>(d, success). if success then Inr d else Inl Invalid_argument)) [] intv_list) (\<lambda>w_intvs.
       Inr \<lparr>ti_dir = tr_dir, ti_w = tr_w, ti_sp = tr_sp, ti_offset = (tr_w + tr_sp) sdiv 2, ti_par_scale = 1,
         ti_par_offset = 0, ti_blk_pitch = (tr_w + tr_sp, (tr_w + tr_sp) sdiv 2), ti_w_intvs = w_intvs\<rparr>)"

definition ti_compatible :: "track_info \<Rightarrow> track_info \<Rightarrow> bool" where
  "ti_compatible a b \<longleftrightarrow> ti_dir a = ti_dir b \<and> ti_w a = ti_w b \<and> ti_sp a = ti_sp b \<and> ti_offset a = ti_offset b"

definition ti_pitch :: "track_info \<Rightarrow> int" where
  "ti_pitch ti = ti_w ti + ti_sp ti"

definition ti_get_blk_pitch :: "track_info \<Rightarrow> bool \<Rightarrow> int" where
  "ti_get_blk_pitch ti half_blk = (if half_blk then snd (ti_blk_pitch ti) else fst (ti_blk_pitch ti))"

definition ti_wire_span :: "track_info \<Rightarrow> cnt_t \<Rightarrow> int" where
  "ti_wire_span ti num_tr = ti_w ti + offset_of_cnt (num_tr - 1) * ti_pitch ti"

definition ti_wire_width :: "track_info \<Rightarrow> cnt_t \<Rightarrow> wire_width" where
  "ti_wire_width ti num_tr = [(0, ti_wire_span ti num_tr)]"

definition ti_space_to_htr :: "track_info \<Rightarrow> int \<Rightarrow> cnt_t result" where
  "ti_space_to_htr ti space =
     bindR (ceilR (max (space - ti_sp ti) 0) (ti_pitch ti sdiv 2)) (\<lambda>c. Inr (cnt_of_int c))"

section \<open>Positions\<close>

datatype round_mode = R_LESS | R_LESS_EQ | R_NEAREST | R_GREATER_EQ | R_GREATER | R_NONE

fun round_code :: "round_mode \<Rightarrow> int" where
  "round_code R_LESS = -2"
| "round_code R_LESS_EQ = -1"
| "round_code R_NEAREST = 0"
| "round_code R_GREATER_EQ = 1"
| "round_code R_GREATER = 2"
| "round_code R_NONE = 3"

definition round_quot :: "int \<Rightarrow> int \<Rightarrow> int \<Rightarrow> round_mode \<Rightarrow> int result" where
  "round_quot q r modulus mode =
     (case mode of
        R_LESS \<Rightarrow> Inr (q - of_bool (r = 0))
      | R_LESS_EQ \<Rightarrow> Inr q
      | R_NEAREST \<Rightarrow>
          (let mod2 = modulus sdiv 2 in
           Inr (q + of_bool (r > mod2 \<or> (r = mod2 \<and> modulus AND 1 = 0 \<and> (q + 1) AND 1 = 0))))
      | R_GREATER_EQ \<Rightarrow> Inr (q + of_bool (r \<noteq> 0))
      | R_GREATER \<Rightarrow> Inr (q + of_bool (r = 0))
      | R_NONE \<Rightarrow> if r \<noteq> 0 then Inl Invalid_argument else Inr q)"

definition coord_to_htr :: "int \<Rightarrow> int \<Rightarrow> int \<Rightarrow> round_mode \<Rightarrow> bool \<Rightarrow> int result" where
  "coord_to_htr coord pitch off mode ev =
     (let modulus = drop_bit (1 - of_bool ev) pitch;
          delta = coord - off
      in if modulus = 0 then Inl Undefined_behaviour
         else round_quot (delta sdiv modulus) (delta smod modulus) modulus mode)"

definition ti_coord_to_htr :: "track_info \<Rightarrow> int \<Rightarrow> round_mode \<Rightarrow> bool \<Rightarrow> int result" where
  "ti_coord_to_htr ti coord mode ev = coord_to_htr coord (ti_pitch ti) (ti_offset ti) mode ev"

definition find_next_htr :: "track_info \<Rightarrow> int \<Rightarrow> cnt_t \<Rightarrow> round_mode \<Rightarrow> bool \<Rightarrow> int result" where
  "find_next_htr ti coord ntr mode ev =
     (if mode = R_NEAREST \<or> mode = R_NONE then Inl Invalid_argument
      else bindR (ww_total_width (ti_wire_width ti ntr) (ti_pitch ti sdiv 2)) (\<lambda>wire_w.
        ti_coord_to_htr ti (coord + sign (round_code mode) * (wire_w sdiv 2)) mode ev))"

definition htr_to_coord :: "track_info \<Rightarrow> int \<Rightarrow> int" where
  "htr_to_coord ti htr = to_offset ((ti_pitch ti sdiv 2) * htr + ti_offset ti)"

definition get_min_space_htr :: "track_info \<Rightarrow> tech \<Rightarrow> int \<Rightarrow> cnt_t \<Rightarrow> bool \<Rightarrow> bool \<Rightarrow> cnt_t result" where
  "get_min_space_htr ti t level num_tr same_color ev =
     (let p2 = ti_pitch ti sdiv 2;
          wire_w = ti_wire_width ti num_tr;
          span = ti_wire_span ti num_tr
      in bindR (ww_total_width wire_w p2) (\<lambda>total.
         bindR (get_min_space_wire t level wire_w (get_space_type same_color) ev) (\<lambda>sp.
           ti_space_to_htr ti (max 0 (sp - (span - total) sdiv 2)))))"

definition transform_htr :: "'x xform_ops \<Rightarrow> track_info \<Rightarrow> int \<Rightarrow> 'x \<Rightarrow> int result" where
  "transform_htr T ti htr xform =
     (if flips_xy T xform then Inl Invalid_argument
      else let pdir = perpendicular (ti_dir ti); scale = at_orient (axis_scale T xform) pdir in
        bindR (ti_coord_to_htr ti (get_coord T xform pdir) R_NONE False) (\<lambda>h. Inr (scale * htr + h)))"

section \<open>Rounding\<close>

text \<open>What each mode promises of the position of the half track, at a distance \<open>m\<close> of its neighbours.\<close>

fun rounds :: "round_mode \<Rightarrow> int \<Rightarrow> int \<Rightarrow> int \<Rightarrow> bool" where
  "rounds R_LESS m pos coord \<longleftrightarrow> pos < coord \<and> coord \<le> pos + m"
| "rounds R_LESS_EQ m pos coord \<longleftrightarrow> pos \<le> coord \<and> coord < pos + m"
| "rounds R_NEAREST m pos coord \<longleftrightarrow> 2 * \<bar>pos - coord\<bar> \<le> m"
| "rounds R_GREATER_EQ m pos coord \<longleftrightarrow> pos - m < coord \<and> coord \<le> pos"
| "rounds R_GREATER m pos coord \<longleftrightarrow> pos - m \<le> coord \<and> coord < pos"
| "rounds R_NONE m pos coord \<longleftrightarrow> pos = coord"

lemma round_quot_rounds:
  assumes "0 < m" and "0 \<le> r" and "r < m" and "round_quot q r m mode = Inr h"
  shows "rounds (if mode = R_GREATER \<and> r \<noteq> 0 then R_LESS_EQ else mode) m (m * h + off) (m * q + r + off)"
proof -
  have half: "m sdiv 2 = m div 2" using assms(1) by (simp add: signed_divide_int_def)
  show ?thesis
    using assms
    by (cases mode) (auto simp: round_quot_def Let_def half and_one_eq algebra_simps split: if_splits)
qed

text \<open>The quotient in exact arithmetic, in units of the modulus.\<close>

lemma coord_to_htr_exact:
  assumes "0 < m" and "m = drop_bit (1 - of_bool ev) pitch"
  shows "off \<le> coord \<Longrightarrow> (case coord_to_htr coord pitch off mode ev of
             Inl e \<Rightarrow> mode = R_NONE \<and> (coord - off) mod m \<noteq> 0
           | Inr h \<Rightarrow> rounds (if mode = R_GREATER \<and> (coord - off) mod m \<noteq> 0 then R_LESS_EQ else mode)
               m (m * h + off) coord)"
    and "coord < off \<Longrightarrow> (coord - off) mod m \<noteq> 0 \<Longrightarrow>
      \<exists>h. coord_to_htr coord pitch off R_LESS_EQ ev = Inr h \<and> coord < m * h + off \<and> m * h + off < coord + m"
proof -
  assume "off \<le> coord"
  let ?q = "(coord - off) div m" and ?r = "(coord - off) mod m"
  have sq: "(coord - off) sdiv m = ?q" "(coord - off) smod m = ?r"
    using \<open>off \<le> coord\<close> assms(1)
    by (simp_all add: signed_divide_int_def signed_modulo_int_def sgn_if minus_div_mult_eq_mod mult.commute)
  have eq: "m * ?q + ?r + off = coord" by simp
  have get: "coord_to_htr coord pitch off mode ev = round_quot ?q ?r m mode"
    unfolding coord_to_htr_def Let_def assms(2) [symmetric] sq using assms(1) by simp
  show "case coord_to_htr coord pitch off mode ev of
             Inl e \<Rightarrow> mode = R_NONE \<and> (coord - off) mod m \<noteq> 0
           | Inr h \<Rightarrow> rounds (if mode = R_GREATER \<and> (coord - off) mod m \<noteq> 0 then R_LESS_EQ else mode)
               m (m * h + off) coord"
  proof (cases "round_quot ?q ?r m mode")
    case (Inl e)
    then have "mode = R_NONE \<and> ?r \<noteq> 0" by (cases mode) (auto simp: round_quot_def Let_def split: if_splits)
    then show ?thesis unfolding get Inl by simp
  next
    case (Inr h)
    then show ?thesis
      using round_quot_rounds [OF assms(1) _ _ Inr, of off] assms(1) unfolding get eq by simp
  qed
next
  assume below: "coord < off" and between: "(coord - off) mod m \<noteq> 0"
  define d where "d = off - coord"
  have d: "0 < d" "coord - off = - d" using below by (simp_all add: d_def)
  have q: "(coord - off) sdiv m = - (d div m)"
    using d assms(1) by (simp add: signed_divide_int_def sgn_if)
  have "d mod m \<noteq> 0" using between unfolding d(2) by (metis dvd_minus_iff mod_0_imp_dvd dvd_imp_mod_0)
  then have "0 < d mod m" using pos_mod_sign [OF assms(1), of d] by linarith
  then have "m * (d div m) < d \<and> d < m * (d div m) + m"
    using mult_div_mod_eq [of m d] pos_mod_bound [OF assms(1), of d] by linarith
  then have "coord < m * - (d div m) + off \<and> m * - (d div m) + off < coord + m" by (simp add: d_def)
  moreover have "coord_to_htr coord pitch off R_LESS_EQ ev = Inr (- (d div m))"
    unfolding coord_to_htr_def Let_def assms(2) [symmetric] q using assms(1) by (simp add: round_quot_def)
  ultimately show "\<exists>h. coord_to_htr coord pitch off R_LESS_EQ ev = Inr h \<and> coord < m * h + off \<and> m * h + off < coord + m"
    by blast
qed

lemma rounds_near:
  "rounds mode m pos coord \<Longrightarrow> 0 < m \<Longrightarrow> coord - m \<le> pos \<and> pos \<le> coord + m"
  by (cases mode) (auto simp: abs_if split: if_splits)

lemma int32_between: "int32 a \<Longrightarrow> int32 b \<Longrightarrow> a \<le> i \<Longrightarrow> i \<le> b \<Longrightarrow> int32 i"
  by (simp add: int32_def)

lemma htr_to_coord_exact:
  "int32 (ti_pitch ti div 2 * h + ti_offset ti) \<Longrightarrow> 0 \<le> ti_pitch ti \<Longrightarrow>
   htr_to_coord ti h = ti_pitch ti div 2 * h + ti_offset ti"
  by (cases "ti_pitch ti = 0") (simp_all add: htr_to_coord_def signed_divide_int_def sgn_if)


text \<open>
  Half tracks at a distance of 60 from an offset of 60: 250 is nearest to half track 3, and whole track 2
  at 300 is returned as index 2, which is the half track at 180.
\<close>

definition htr_example :: track_info where
  "htr_example = \<lparr>ti_dir = Vertical, ti_w = 60, ti_sp = 60, ti_offset = 60, ti_par_scale = 1, ti_par_offset = 0,
     ti_blk_pitch = (120, 60), ti_w_intvs = []\<rparr>"


end
