(* ===== verification/Routing_Grid.thy ===== *)
theory Routing_Grid
  imports Track Writers
begin

unbundle bit_operations_syntax

text \<open>
  The routing grid, which gives the tracks of every level: \<^verbatim>\<open>src/cbag/layout/routing_grid.cpp\<close>,
  \<^verbatim>\<open>routing_grid_util.cpp\<close> without the functions on current limits, \<^verbatim>\<open>flip_parity.cpp\<close> and
  \<^verbatim>\<open>grid_object.cpp\<close>.  The comparison of technologies by address is left out of \<^verbatim>\<open>operator==\<close>.
\<close>

section \<open>The grid\<close>

record routing_grid =
  rg_tech :: tech
  rg_bot_level :: int
  rg_info_list :: "track_info list"
  rg_top_ignore :: int
  rg_top_private :: int

text \<open>A level below the lowest one becomes a huge index.\<close>

definition level_idx :: "routing_grid \<Rightarrow> int \<Rightarrow> nat" where
  "level_idx g level = unat (word_of_int (level - rg_bot_level g) :: 64 word)"

definition rg_get_index :: "routing_grid \<Rightarrow> int \<Rightarrow> nat result" where
  "rg_get_index g level =
     (if length (rg_info_list g) \<le> level_idx g level then Inl Out_of_range else Inr (level_idx g level))"

text \<open>\<^verbatim>\<open>operator[]\<close> does not check its index.\<close>

definition rg_at :: "routing_grid \<Rightarrow> int \<Rightarrow> track_info result" where
  "rg_at g level =
     (if length (rg_info_list g) \<le> level_idx g level then Inl Undefined_behaviour
      else Inr (rg_info_list g ! level_idx g level))"

definition rg_track_info_at :: "routing_grid \<Rightarrow> int \<Rightarrow> track_info result" where
  "rg_track_info_at g level = bindR (rg_get_index g level) (\<lambda>idx. Inr (rg_info_list g ! idx))"

definition rg_top_level :: "routing_grid \<Rightarrow> int" where
  "rg_top_level g = rg_bot_level g + int (length (rg_info_list g)) - 1"

definition rg_num_levels :: "routing_grid \<Rightarrow> nat" where
  "rg_num_levels g = length (rg_info_list g)"

section \<open>Block pitches\<close>

type_synonym pitches = "(int \<times> int) list \<times> (int \<times> int) list"

definition lcm_pitches :: "int \<times> int \<Rightarrow> (int \<times> int) list \<Rightarrow> int \<times> int" where
  "lcm_pitches p bps = foldl (\<lambda>p bp. (lcm (fst p) (fst bp), lcm (snd p) (snd bp))) p bps"

definition blk_pitch_step :: "track_info list \<times> pitches \<Rightarrow> nat \<Rightarrow> track_info list \<times> pitches" where
  "blk_pitch_step st idx =
     (case st of (infos, pitch_list) \<Rightarrow>
        let info = infos ! idx;
            bp = lcm_pitches (ti_pitch info, ti_pitch info sdiv 2) (at_orient pitch_list (ti_dir info))
        in (infos[idx := info\<lparr>ti_blk_pitch := bp\<rparr>],
            set_orient_at pitch_list (ti_dir info) (at_orient pitch_list (ti_dir info) @ [bp])))"

definition update_blk_pitch_helper :: "track_info list \<Rightarrow> nat \<Rightarrow> nat \<Rightarrow> track_info list" where
  "update_blk_pitch_helper infos start stop =
     fst (foldl blk_pitch_step (infos, ([(1, 1)], [(1, 1)])) [start..<stop])"

text \<open>The first levels are ignored, then come the private and then the public ones.\<close>

definition update_block_pitch :: "track_info list \<Rightarrow> int \<Rightarrow> int \<Rightarrow> int \<Rightarrow> track_info list" where
  "update_block_pitch infos bot_level top_private top_ignore =
     (let infos = foldl (\<lambda>infos idx. infos[idx := (infos ! idx)\<lparr>ti_blk_pitch := (-1, -1)\<rparr>]) infos
            [0..<nat (top_ignore - bot_level + 1)];
          start = top_ignore + 1 - bot_level;
          stop = top_private + 1 - bot_level;
          infos = (if stop > start then update_blk_pitch_helper infos (nat start) (nat stop) else infos);
          start = max start stop;
          stop = int (length infos)
      in (if stop > start then update_blk_pitch_helper infos (nat start) (nat stop) else infos))"

definition make_routing_grid :: "tech \<Rightarrow> int \<times> track_info list \<Rightarrow> routing_grid" where
  "make_routing_grid t node =
     (let bot_level = fst node; top_ignore = bot_level - 1; top_private = bot_level - 1
      in \<lparr>rg_tech = t, rg_bot_level = bot_level,
          rg_info_list = update_block_pitch (snd node) bot_level top_private top_ignore,
          rg_top_ignore = top_ignore, rg_top_private = top_private\<rparr>)"

section \<open>Parity and settings\<close>

type_synonym flip_parity = "(int \<times> int \<times> int) list"

definition flip_parity_entry :: "'x xform_ops \<Rightarrow> routing_grid \<Rightarrow> 'x \<Rightarrow> int \<Rightarrow> (int \<times> int \<times> int) result" where
  "flip_parity_entry T g xform lev =
     bindR (rg_at g lev) (\<lambda>ti.
       let dir = ti_dir ti;
           coord = at_orient (location T xform) dir;
           scale = at_orient (axis_scale T xform) dir
       in bindR (ti_coord_to_htr ti coord R_NONE False) (\<lambda>htr.
            Inr (to_offset lev, ti_par_scale ti * scale, to_offset (ti_par_scale ti * htr + ti_par_offset ti))))"

definition get_flip_parity_at :: "'x xform_ops \<Rightarrow> routing_grid \<Rightarrow> int \<Rightarrow> int \<Rightarrow> 'x \<Rightarrow> flip_parity result" where
  "get_flip_parity_at T g bot_level top_level xform =
     (if flips_xy T xform then Inl Invalid_argument
      else mapR (flip_parity_entry T g xform) [bot_level..top_level])"

fun flip_entry_string :: "int \<times> int \<times> int \<Rightarrow> string" where
  "flip_entry_string (lev, scale, off) =
     ''('' @ int_to_string lev @ '', '' @ int_to_string scale @ '', '' @ int_to_string off @ '')''"

definition flip_parity_to_string :: "flip_parity \<Rightarrow> string" where
  "flip_parity_to_string data =
     (case data of
        [] \<Rightarrow> ''FlipParity[]''
      | d # ds \<Rightarrow> ''FlipParity['' @ flip_entry_string d @
          concat (map (\<lambda>e. '', '' @ flip_entry_string e) ds) @ '']'')"

text \<open>The arguments of \<^verbatim>\<open>pos_mod\<close> are cut to 32 bits.\<close>

definition get_htr_parity :: "routing_grid \<Rightarrow> int \<Rightarrow> int \<Rightarrow> cnt_t result" where
  "get_htr_parity g level htr =
     bindR (rg_track_info_at g level) (\<lambda>ti.
     bindR (get_lay_purp_list (rg_tech g) level) (\<lambda>lps.
       let val = offset_of_cnt (cnt_of_int (ti_par_scale ti * htr + ti_par_offset ti));
           n = offset_of_cnt (2 * of_nat (length lps))
       in if n = 0 then Inl Undefined_behaviour else Inr (cnt_of_int (pos_mod val n sdiv 2))))"

definition set_flip_parity :: "routing_grid \<Rightarrow> flip_parity \<Rightarrow> routing_grid outcome" where
  "set_flip_parity g fp =
     forS (\<lambda>(level, scale, off) g.
       (case rg_get_index g level of
          Inl e \<Rightarrow> (Some e, g)
        | Inr idx \<Rightarrow>
            (None, g\<lparr>rg_info_list := (rg_info_list g)
               [idx := (rg_info_list g ! idx)\<lparr>ti_par_scale := scale, ti_par_offset := off\<rparr>]\<rparr>))) fp g"

definition set_top_ignore_level :: "routing_grid \<Rightarrow> int \<Rightarrow> routing_grid outcome" where
  "set_top_ignore_level g new_level =
     (let new_level = max new_level (rg_bot_level g - 1) in
      if new_level - rg_bot_level g \<ge> int (length (rg_info_list g)) then (Some Invalid_argument, g)
      else (None, g\<lparr>rg_top_ignore := new_level\<rparr>))"

definition rg_set_level :: "routing_grid \<Rightarrow> int \<Rightarrow> bool \<Rightarrow> orient_2d \<Rightarrow> int \<Rightarrow> int \<Rightarrow> routing_grid outcome" where
  "rg_set_level g level is_private dir w sp =
     (if level < rg_bot_level g \<or> level > rg_top_level g then (Some Invalid_argument, g)
      else
        (let idx = nat (level - rg_bot_level g);
             infos = (rg_info_list g)[idx := (rg_info_list g ! idx)
               \<lparr>ti_dir := dir, ti_w := w, ti_sp := sp, ti_offset := (w + sp) sdiv 2\<rparr>];
             top_private = (if is_private then max (rg_top_private g) level else rg_top_private g)
         in (None, g\<lparr>rg_top_private := top_private,
               rg_info_list := update_block_pitch infos (rg_bot_level g) top_private (rg_top_ignore g)\<rparr>)))"

definition set_track_offset :: "routing_grid \<Rightarrow> int \<Rightarrow> int \<Rightarrow> routing_grid outcome" where
  "set_track_offset g level off =
     (case rg_get_index g level of
        Inl e \<Rightarrow> (Some e, g)
      | Inr idx \<Rightarrow> (None, g\<lparr>rg_info_list := (rg_info_list g)[idx := (rg_info_list g ! idx)\<lparr>ti_offset := off\<rparr>]\<rparr>))"

section \<open>Helpers\<close>

definition get_margins_box :: "routing_grid \<Rightarrow> layer_t \<Rightarrow> int \<Rightarrow> box_t \<Rightarrow> (int \<times> int) result" where
  "get_margins_box g key lev obj =
     bindR (rg_at g lev) (\<lambda>ti.
       let dir = ti_dir ti; width = box_dim obj (perpendicular dir)
       in bindR (tech_get_min_space (rg_tech g) key width LINE_END False) (\<lambda>sp_le.
          bindR (tech_get_min_space (rg_tech g) key width DIFF_COLOR False) (\<lambda>sp.
            Inr (orient_pair dir sp_le sp))))"

text \<open>The number of levels up to the next lower one that is orthogonal.\<close>

fun lower_count :: "track_info list \<Rightarrow> orient_2d \<Rightarrow> nat \<Rightarrow> nat" where
  "lower_count infos dir 0 = 0"
| "lower_count infos dir (Suc k) = (if ti_dir (infos ! k) = dir then lower_count infos dir k else Suc k)"

definition get_lower_orthogonal_level :: "routing_grid \<Rightarrow> int \<Rightarrow> int result" where
  "get_lower_orthogonal_level g level =
     bindR (rg_track_info_at g level) (\<lambda>ti.
       Inr (rg_bot_level g + int (lower_count (rg_info_list g) (ti_dir ti) (nat (level - rg_bot_level g))) - 1))"

definition block_defined_at :: "routing_grid \<Rightarrow> int \<Rightarrow> bool result" where
  "block_defined_at g level =
     bindR (get_lower_orthogonal_level g level) (\<lambda>bot_lev.
       Inr (bot_lev \<ge> rg_bot_level g \<and> bot_lev > rg_top_private g))"

definition get_top_track_pitches :: "routing_grid \<Rightarrow> int \<Rightarrow> (int \<times> int) result" where
  "get_top_track_pitches g level =
     bindR (block_defined_at g level) (\<lambda>ok.
       if \<not> ok then Inl Invalid_argument
       else bindR (get_lower_orthogonal_level g level) (\<lambda>bot_lev.
         bindR (rg_at g level) (\<lambda>tinfo. bindR (rg_at g bot_lev) (\<lambda>binfo.
           Inr (orient_pair (ti_dir tinfo) (ti_pitch binfo) (ti_pitch tinfo))))))"

definition liftO :: "'a result \<Rightarrow> ('a \<Rightarrow> 'b result option) \<Rightarrow> 'b result option" where
  "liftO r f = (case r of Inl e \<Rightarrow> Some (Inl e) | Inr x \<Rightarrow> f x)"

definition rg_via_extensions :: "routing_grid \<Rightarrow> direction \<Rightarrow> int \<Rightarrow> cnt_t \<Rightarrow> cnt_t \<Rightarrow> (int \<times> int) result option" where
  "rg_via_extensions g vdir level ntr adj_ntr =
     (let adj_level = get_adj_level vdir level; t = rg_tech g in
      liftO (rg_track_info_at g level) (\<lambda>ti. liftO (rg_track_info_at g adj_level) (\<lambda>adj_ti.
        let dir = ti_dir ti; adj_dir = ti_dir adj_ti in
        if dir = adj_dir then Some (Inl Invalid_argument)
        else
          liftO (get_test_lay_purp t level) (\<lambda>key. liftO (get_test_lay_purp t adj_level) (\<lambda>adj_key.
          liftO (tech_get_via_id t vdir key adj_key) (\<lambda>name.
          liftO (ww_edge_width (ti_wire_width ti ntr)) (\<lambda>w. liftO (ww_edge_width (ti_wire_width adj_ti adj_ntr)) (\<lambda>adj_w.
            let bdim = orient_pair dir w adj_w in
            (case tech_get_via_param t bdim name vdir dir adj_dir True of
               None \<Rightarrow> None
             | Some r \<Rightarrow> liftO r (\<lambda>p.
                 Some (if vp_empty p then Inl Invalid_argument
                       else Inr (vp_via_extensions p bdim vdir dir adj_dir))))))))))))"

definition get_line_end_space_htr :: "routing_grid \<Rightarrow> direction \<Rightarrow> int \<Rightarrow> cnt_t \<Rightarrow> cnt_t result option" where
  "get_line_end_space_htr g vdir level ntr =
     (let sp_level = get_adj_level vdir level in
      liftO (rg_track_info_at g level) (\<lambda>ti. liftO (rg_track_info_at g sp_level) (\<lambda>sp_ti.
        if ti_dir ti = ti_dir sp_ti then Some (Inl Invalid_argument)
        else (case rg_via_extensions g vdir level ntr 1 of
                None \<Rightarrow> None
              | Some r \<Rightarrow> liftO r (\<lambda>ext.
                  liftO (get_min_space_wire (rg_tech g) level (ti_wire_width ti ntr) LINE_END False) (\<lambda>sp_le.
                    Some (ti_space_to_htr ti (2 * at_dir ext vdir + sp_le))))))))"

definition get_blk_size :: "routing_grid \<Rightarrow> int \<Rightarrow> bool \<Rightarrow> bool \<times> bool \<Rightarrow> (int \<times> int) result" where
  "get_blk_size g level include_private half_blk =
     (let ans = (2 - of_bool (fst half_blk), 2 - of_bool (snd half_blk)) in
      bindR (rg_track_info_at g level) (\<lambda>top_info.
        let top_dir = ti_dir top_info; pdir = perpendicular top_dir;
            ans = set_orient_at ans pdir (ti_get_blk_pitch top_info (at_orient half_blk pdir))
        in bindR (get_lower_orthogonal_level g level) (\<lambda>bot_lev.
             let private_lev = rg_top_private g in
             if bot_lev \<ge> rg_bot_level g \<and> (include_private \<or> level \<le> private_lev \<or> private_lev < bot_lev)
             then bindR (rg_at g bot_lev) (\<lambda>binfo.
               Inr (set_orient_at ans top_dir (ti_get_blk_pitch binfo (at_orient half_blk top_dir))))
             else Inr ans)))"

definition nth_or_undefined :: "'a list \<Rightarrow> nat \<Rightarrow> 'a result" where
  "nth_or_undefined xs i = (if i < length xs then Inr (xs ! i) else Inl Undefined_behaviour)"

definition rg_get_layer_t :: "routing_grid \<Rightarrow> int \<Rightarrow> int \<Rightarrow> layer_t result" where
  "rg_get_layer_t g level htr =
     bindR (get_htr_parity g level htr) (\<lambda>idx.
     bindR (get_lay_purp_list (rg_tech g) level) (\<lambda>lps. nth_or_undefined lps (unat idx)))"

definition get_wire_bounds :: "routing_grid \<Rightarrow> int \<Rightarrow> int \<Rightarrow> cnt_t \<Rightarrow> (int \<times> int) result" where
  "get_wire_bounds g level htr ntr =
     bindR (rg_track_info_at g level) (\<lambda>ti.
     bindR (ww_total_width (ti_wire_width ti ntr) (ti_pitch ti)) (\<lambda>total.
       let half_w = total sdiv 2; coord = htr_to_coord ti htr
       in Inr (coord - half_w, coord + half_w)))"

section \<open>Tracks and wires\<close>

record track_id =
  tid_level :: int
  tid_htr :: int
  tid_ntr :: cnt_t
  tid_num :: cnt_t
  tid_pitch :: int

definition make_track_id :: "int \<Rightarrow> int \<Rightarrow> cnt_t \<Rightarrow> cnt_t \<Rightarrow> int \<Rightarrow> track_id" where
  "make_track_id level htr ntr num pitch =
     \<lparr>tid_level = level, tid_htr = htr, tid_ntr = ntr, tid_num = num, tid_pitch = (if num = 1 then 0 else pitch)\<rparr>"

text \<open>The sum with an unsigned index is taken modulo two to the power of 64 and read as a half-track index.\<close>

definition tid_at :: "track_id \<Rightarrow> nat \<Rightarrow> int" where
  "tid_at tid idx = sint (cnt_of_int (tid_htr tid + int idx * tid_pitch tid))"

lemma sint_cnt_of_int: "- (2 ^ 63) \<le> i \<Longrightarrow> i < 2 ^ 63 \<Longrightarrow> sint (cnt_of_int i) = i"
  unfolding cnt_of_int_def signed_of_int by (simp add: signed_take_bit_int_eq_self)

definition tid_to_string :: "track_id \<Rightarrow> string" where
  "tid_to_string tid =
     ''TrackID(layer='' @ int_to_string (tid_level tid) @ '', htr='' @ int_to_string (tid_htr tid) @
     '', wdth='' @ cnt_to_string (tid_ntr tid) @ '', num='' @ cnt_to_string (tid_num tid) @
     '', htr_pitch='' @ int_to_string (tid_pitch tid) @ '')''"

text \<open>The distance from the first to the last track has 64 bits; the bound that it is added to has 32.\<close>

definition tid_get_bounds :: "routing_grid \<Rightarrow> track_id \<Rightarrow> (int \<times> int) result" where
  "tid_get_bounds g tid =
     bindR (get_wire_bounds g (tid_level tid) (tid_htr tid) (tid_ntr tid)) (\<lambda>ans.
     bindR (rg_at g (tid_level tid)) (\<lambda>ti.
       let delta = (offset_of_cnt (tid_num tid - 1) * tid_pitch tid * ti_pitch ti) sdiv 2
       in Inr (if delta > 0 then (fst ans, to_offset (snd ans + delta)) else (to_offset (fst ans + delta), snd ans))))"

definition tid_set_htr :: "track_id \<Rightarrow> int \<Rightarrow> track_id" where
  "tid_set_htr tid val = tid\<lparr>tid_htr := val\<rparr>"

definition tid_set_pitch :: "track_id \<Rightarrow> int \<Rightarrow> track_id" where
  "tid_set_pitch tid val = tid\<lparr>tid_pitch := (if tid_num tid = 1 then 0 else val)\<rparr>"

record wire_array =
  wa_tid :: track_id
  wa_coord :: "int \<times> int"

definition wa_to_string :: "wire_array \<Rightarrow> string" where
  "wa_to_string wa =
     ''WireArray('' @ tid_to_string (wa_tid wa) @ '', '' @ int_to_string (fst (wa_coord wa)) @ '', '' @
     int_to_string (snd (wa_coord wa)) @ '')''"

definition wa_get_middle :: "wire_array \<Rightarrow> int" where
  "wa_get_middle wa = floor2 (fst (wa_coord wa) + snd (wa_coord wa))"

definition wa_set_coord :: "wire_array \<Rightarrow> int \<Rightarrow> int \<Rightarrow> wire_array" where
  "wa_set_coord wa lower upper = wa\<lparr>wa_coord := (lower, upper)\<rparr>"

text \<open>A rectangle of a wire array: the strip \<open>strip\<close> of its track \<open>htr\<close>.\<close>

definition warr_rect :: "routing_grid \<Rightarrow> int \<Rightarrow> int \<times> int \<Rightarrow> int \<Rightarrow> int \<times> int \<Rightarrow> (layer_t \<times> box_t) result" where
  "warr_rect g level coord htr strip =
     bindR (rg_at g level) (\<lambda>tinfo.
       let c = htr_to_coord tinfo (fst strip + htr); half_w = snd strip sdiv 2
       in bindR (rg_get_layer_t g level (htr + fst strip)) (\<lambda>key.
            Inr (key, make_box_orient (ti_dir tinfo) (fst coord) (snd coord) (c - half_w) (c + half_w))))"

text \<open>From \<^verbatim>\<open>begin_rect\<close> to \<^verbatim>\<open>end_rect\<close> the strips of a track follow each other, track after track.\<close>

definition warr_rects :: "routing_grid \<Rightarrow> track_id \<Rightarrow> int \<times> int \<Rightarrow> (layer_t \<times> box_t) list result" where
  "warr_rects g tid coord =
     bindR (rg_track_info_at g (tid_level tid)) (\<lambda>tinfo.
       mapR (\<lambda>(tr_idx, strip). warr_rect g (tid_level tid) coord (tid_at tid tr_idx) strip)
         (List.product [0..<unat (tid_num tid)] (ti_wire_width tinfo (tid_ntr tid))))"

end
