(* ===== verification/Grid_Props.thy ===== *)
theory Grid_Props
  imports Routing_Grid
begin

text \<open>
  Properties of the routing grid: block pitches, the layers of the tracks, and the bounds of wire
  arrays.
\<close>

section \<open>Block pitches\<close>

lemma lcm_pitches_dvd:
  "fst p dvd fst (lcm_pitches p bps)" "snd p dvd snd (lcm_pitches p bps)"
  "bp \<in> set bps \<Longrightarrow> fst bp dvd fst (lcm_pitches p bps)" "bp \<in> set bps \<Longrightarrow> snd bp dvd snd (lcm_pitches p bps)"
proof -
  have "fst p dvd fst (lcm_pitches p bps) \<and> snd p dvd snd (lcm_pitches p bps) \<and>
      (\<forall>bp\<in>set bps. fst bp dvd fst (lcm_pitches p bps) \<and> snd bp dvd snd (lcm_pitches p bps))"
  proof (induction bps rule: rev_induct)
    case (snoc b bps)
    then show ?case by (auto simp: lcm_pitches_def intro: dvd_trans)
  qed (simp add: lcm_pitches_def)
  then show "fst p dvd fst (lcm_pitches p bps)" "snd p dvd snd (lcm_pitches p bps)"
    "bp \<in> set bps \<Longrightarrow> fst bp dvd fst (lcm_pitches p bps)" "bp \<in> set bps \<Longrightarrow> snd bp dvd snd (lcm_pitches p bps)"
    by blast+
qed

definition pair_dvd :: "int \<times> int \<Rightarrow> int \<times> int \<Rightarrow> bool" where
  "pair_dvd p q \<longleftrightarrow> fst p dvd fst q \<and> snd p dvd snd q"

lemma pair_dvd_refl [simp]: "pair_dvd p p"
  by (simp add: pair_dvd_def)

text \<open>The levels from \<open>start\<close> on that have been treated, \<open>n\<close> being the next one.\<close>

definition blk_inv :: "track_info list \<Rightarrow> nat \<Rightarrow> nat \<Rightarrow> track_info list \<times> pitches \<Rightarrow> bool" where
  "blk_inv infos start n st \<longleftrightarrow>
     length (fst st) = length infos \<and>
     (\<forall>i<length infos. \<exists>bp. fst st ! i = (infos ! i)\<lparr>ti_blk_pitch := bp\<rparr>) \<and>
     (\<forall>i. start \<le> i \<and> i < n \<longrightarrow> ti_blk_pitch (fst st ! i) \<in> set (at_orient (snd st) (ti_dir (infos ! i)))) \<and>
     (\<forall>i. start \<le> i \<and> i < n \<longrightarrow>
        pair_dvd (ti_pitch (infos ! i), ti_pitch (infos ! i) sdiv 2) (ti_blk_pitch (fst st ! i))) \<and>
     (\<forall>i j. start \<le> i \<and> i \<le> j \<and> j < n \<and> ti_dir (infos ! i) = ti_dir (infos ! j) \<longrightarrow>
        pair_dvd (ti_blk_pitch (fst st ! i)) (ti_blk_pitch (fst st ! j)))"

lemma at_set_orient: "at_orient (set_orient_at v d x) d' = (if d' = d then x else at_orient v d')"
  by (cases d; cases d'; cases v) simp_all

lemma blk_inv_step:
  assumes "blk_inv infos start n st" and "start \<le> n" and "n < length infos"
  shows "blk_inv infos start (Suc n) (blk_pitch_step st n)"
proof -
  obtain ts pl where st: "st = (ts, pl)" by (cases st)
  obtain b where b: "ts ! n = (infos ! n)\<lparr>ti_blk_pitch := b\<rparr>" using assms by (auto simp: blk_inv_def st)
  let ?d = "ti_dir (infos ! n)" and ?p = "(ti_pitch (infos ! n), ti_pitch (infos ! n) sdiv 2)"
  let ?bp = "lcm_pitches ?p (at_orient pl ?d)"
  have same: "ti_dir (ts ! n) = ?d" "ti_pitch (ts ! n) = ti_pitch (infos ! n)" by (simp_all add: b ti_pitch_def)
  have step: "blk_pitch_step st n = (ts[n := (ts ! n)\<lparr>ti_blk_pitch := ?bp\<rparr>], set_orient_at pl ?d (at_orient pl ?d @ [?bp]))"
    by (simp add: blk_pitch_step_def st Let_def same)
  have own: "pair_dvd ?p ?bp" using lcm_pitches_dvd(1,2) [of ?p "at_orient pl ?d"] by (simp add: pair_dvd_def)
  have below: "pair_dvd (ti_blk_pitch (ts ! i)) ?bp" if "start \<le> i" "i < n" "ti_dir (infos ! i) = ?d" for i
    using assms(1) that lcm_pitches_dvd(3,4) [of "ti_blk_pitch (ts ! i)" "at_orient pl ?d" ?p]
    by (auto simp: blk_inv_def st pair_dvd_def)
  have len: "length ts = length infos" using assms(1) by (simp add: blk_inv_def st)
  show ?thesis
    unfolding blk_inv_def step fst_conv snd_conv
  proof (intro conjI allI impI)
    show "length (ts[n := (ts ! n)\<lparr>ti_blk_pitch := ?bp\<rparr>]) = length infos" using len by simp
  next
    fix i assume "i < length infos"
    with assms(1) len show "\<exists>bp. ts[n := (ts ! n)\<lparr>ti_blk_pitch := ?bp\<rparr>] ! i = (infos ! i)\<lparr>ti_blk_pitch := bp\<rparr>"
    proof (cases "i = n")
      case True
      with len assms(3) show ?thesis by (intro exI [of _ ?bp]) (simp add: b)
    qed (auto simp: blk_inv_def st)
  next
    fix i assume "start \<le> i \<and> i < Suc n"
    with assms(1,3) len show "ti_blk_pitch (ts[n := (ts ! n)\<lparr>ti_blk_pitch := ?bp\<rparr>] ! i)
        \<in> set (at_orient (set_orient_at pl ?d (at_orient pl ?d @ [?bp])) (ti_dir (infos ! i)))"
      by (cases "i = n") (auto simp: blk_inv_def st at_set_orient)
  next
    fix i assume "start \<le> i \<and> i < Suc n"
    with assms(1,3) len own show "pair_dvd (ti_pitch (infos ! i), ti_pitch (infos ! i) sdiv 2)
        (ti_blk_pitch (ts[n := (ts ! n)\<lparr>ti_blk_pitch := ?bp\<rparr>] ! i))"
      by (cases "i = n") (auto simp: blk_inv_def st)
  next
    fix i j assume ij: "start \<le> i \<and> i \<le> j \<and> j < Suc n \<and> ti_dir (infos ! i) = ti_dir (infos ! j)"
    let ?ts = "ts[n := (ts ! n)\<lparr>ti_blk_pitch := ?bp\<rparr>]"
    consider (new) "j = n" | (old) "j < n" "i < n" using ij by linarith
    then show "pair_dvd (ti_blk_pitch (?ts ! i)) (ti_blk_pitch (?ts ! j))"
    proof cases
      case new
      with ij below len assms(3) show ?thesis by (cases "i = n") auto
    next
      case old
      with ij assms(1) len show ?thesis by (simp add: blk_inv_def st)
    qed
  qed
qed

lemma blk_inv_helper:
  assumes "start \<le> n" and "n \<le> length infos"
  shows "blk_inv infos start n (foldl blk_pitch_step (infos, ([(1, 1)], [(1, 1)])) [start..<n])"
  using assms
proof (induction n rule: dec_induct)
  case base
  have "\<exists>bp. infos ! i = (infos ! i)\<lparr>ti_blk_pitch := bp\<rparr>" for i
    by (rule exI [of _ "ti_blk_pitch (infos ! i)"]) simp
  then show ?case by (auto simp: blk_inv_def)
next
  case (step n)
  then show ?case using blk_inv_step [of infos start n] by simp
qed

text \<open>
  C33.  In a new routing grid the block pitch of a level is a multiple of the pitch of its tracks and of
  the block pitches of all lower levels in the same direction, and the same holds of the half block
  pitches and half pitches; nothing else in the description of a level is changed.
\<close>

theorem block_pitches_are_multiples:
  assumes "i \<le> j" and "j < length infos" and "ti_dir (infos ! i) = ti_dir (infos ! j)"
    and "g = make_routing_grid t (bot_level, infos)"
  shows "ti_get_blk_pitch (rg_info_list g ! i) half dvd ti_get_blk_pitch (rg_info_list g ! j) half \<and>
    (if half then ti_pitch (infos ! j) sdiv 2 else ti_pitch (infos ! j)) dvd ti_get_blk_pitch (rg_info_list g ! j) half \<and>
    (\<exists>bp. rg_info_list g ! j = (infos ! j)\<lparr>ti_blk_pitch := bp\<rparr>) \<and> rg_num_levels g = length infos"
proof -
  let ?st = "foldl blk_pitch_step (infos, ([(1, 1)], [(1, 1)])) [0..<length infos]"
  have inv: "blk_inv infos 0 (length infos) ?st" by (rule blk_inv_helper) simp_all
  have list: "rg_info_list g = fst ?st"
    using assms(2) by (simp add: assms(4) make_routing_grid_def update_block_pitch_def update_blk_pitch_helper_def Let_def)
  have "pair_dvd (ti_blk_pitch (fst ?st ! i)) (ti_blk_pitch (fst ?st ! j))"
    "pair_dvd (ti_pitch (infos ! j), ti_pitch (infos ! j) sdiv 2) (ti_blk_pitch (fst ?st ! j))"
    "\<exists>bp. fst ?st ! j = (infos ! j)\<lparr>ti_blk_pitch := bp\<rparr>" "length (fst ?st) = length infos"
    using inv assms(1-3) by (simp_all add: blk_inv_def)
  then show ?thesis by (simp add: list rg_num_levels_def ti_get_blk_pitch_def pair_dvd_def)
qed

theorem block_pitches_are_multiples_witness:
  "\<forall>t. (let mk = (\<lambda>w sp. \<lparr>ti_dir = Vertical, ti_w = w, ti_sp = sp, ti_offset = 0, ti_par_scale = 1, ti_par_offset = 0,
        ti_blk_pitch = (1, 1), ti_w_intvs = []\<rparr>);
        g = make_routing_grid t (1, [mk 60 60, mk 90 90])
    in 120 dvd ti_get_blk_pitch (rg_info_list g ! 1) False \<and> 180 dvd ti_get_blk_pitch (rg_info_list g ! 1) False)" (is "\<forall>t. ?W t")
proof
  fix t
  let ?mk = "\<lambda>w sp. \<lparr>ti_dir = Vertical, ti_w = w, ti_sp = sp, ti_offset = 0, ti_par_scale = 1, ti_par_offset = 0,
        ti_blk_pitch = (1, 1), ti_w_intvs = []\<rparr>"
  let ?g = "make_routing_grid t (1, [?mk 60 60, ?mk 90 90])"
  have "120 dvd ti_get_blk_pitch (rg_info_list ?g ! 0) False"
    using block_pitches_are_multiples [of 0 0 "[?mk 60 60, ?mk 90 90]" ?g t 1 False] by (simp add: ti_pitch_def)
  then show "?W t"
    using block_pitches_are_multiples [of 0 1 "[?mk 60 60, ?mk 90 90]" ?g t 1 False]
    by (auto simp: ti_pitch_def Let_def intro: dvd_trans)
qed

section \<open>Layers of tracks\<close>

lemma offset_range: "- (2 ^ 31) \<le> offset_of_cnt c" "offset_of_cnt c < 2 ^ 31"
  using sint_greater_eq [of "ucast c :: 32 word"] sint_less [of "ucast c :: 32 word"]
  by (simp_all add: offset_of_cnt_def)

lemma get_htr_parity_spec:
  assumes "rg_track_info_at g level = Inr ti" and "get_lay_purp_list (rg_tech g) level = Inr lps"
    and "lps \<noteq> []" and "length lps < 2 ^ 30"
  shows "get_htr_parity g level htr = Inr (cnt_of_int
      ((offset_of_cnt (cnt_of_int (ti_par_scale ti * htr + ti_par_offset ti)) mod (2 * int (length lps))) div 2))"
proof -
  let ?n = "2 * int (length lps)" and ?v = "offset_of_cnt (cnt_of_int (ti_par_scale ti * htr + ti_par_offset ti))"
  have n: "0 < ?n" "?n < 2 ^ 31" using assms(3,4) by simp_all
  have cast: "offset_of_cnt (2 * of_nat (length lps)) = ?n"
  proof -
    have "2 * of_nat (length lps) = cnt_of_int ?n" by (simp add: cnt_of_int_def)
    moreover have "offset_of_cnt (cnt_of_int ?n) = ?n" using n by (intro offset_of_small) auto
    ultimately show ?thesis by simp
  qed
  have mod: "pos_mod ?v ?n = ?v mod ?n" using n by (intro pos_mod_eq) (auto simp: int32_def)
  have "0 \<le> ?v mod ?n" using n(1) by simp
  then have "(?v mod ?n) sdiv 2 = (?v mod ?n) div 2" by (simp add: signed_divide_int_def sgn_if)
  with n show ?thesis by (simp add: get_htr_parity_def assms(1,2) Let_def cast mod)
qed

text \<open>
  The layer of a half track is always found: the index that is computed from the parity of the
  half track is within the list of the layers of its level, although the access is not checked.  Two
  half tracks have each layer in turn.
\<close>

theorem get_layer_t_in_bounds:
  assumes "rg_track_info_at g level = Inr ti" and "get_lay_purp_list (rg_tech g) level = Inr lps"
    and "lps \<noteq> []" and "length lps < 2 ^ 30" and "int32 (ti_par_scale ti * htr + ti_par_offset ti)"
  shows "\<exists>idx. rg_get_layer_t g level htr = Inr (lps ! idx) \<and> idx < length lps \<and>
    int idx = ((ti_par_scale ti * htr + ti_par_offset ti) div 2) mod int (length lps)"
proof -
  define v where "v = ti_par_scale ti * htr + ti_par_offset ti"
  define L where "L = int (length lps)"
  have L: "0 < L" "2 * L < 2 ^ 31" using assms(3,4) by (simp_all add: L_def)
  have v: "offset_of_cnt (cnt_of_int v) = v"
    using assms(5) by (intro offset_of_small) (auto simp: int32_def v_def)
  let ?idx = "nat ((v div 2) mod L)"
  have idx: "int ?idx = (v div 2) mod L" "?idx < length lps" using L by (simp_all add: nat_less_iff L_def)
  have half: "(v mod (2 * L)) div 2 = (v div 2) mod L"
  proof -
    have "v mod (2 * L) = 2 * (v div 2 mod L) + v mod 2" using L(1) by (simp add: zmod_zmult2_eq)
    moreover have "(2 * x + v mod 2) div 2 = x" for x :: int by simp
    ultimately show ?thesis by simp
  qed
  have par: "get_htr_parity g level htr = Inr (cnt_of_int (int ?idx))"
    using get_htr_parity_spec [OF assms(1-4), of htr] idx(1) half by (simp add: v v_def [symmetric] L_def [symmetric])
  have "unat (cnt_of_int (int ?idx)) = ?idx"
  proof -
    have "?idx < 2 ^ 64" by (rule less_trans [OF less_trans [OF idx(2) assms(4)]]) simp
    then have "unat (of_nat ?idx :: cnt_t) = ?idx" unfolding unsigned_of_nat by (simp add: take_bit_nat_eq_self)
    then show ?thesis by (simp only: cnt_of_int_def of_int_of_nat_eq)
  qed
  then have "rg_get_layer_t g level htr = Inr (lps ! ?idx)"
    using idx(2) by (simp add: rg_get_layer_t_def par assms(2) nth_or_undefined_def)
  with idx show ?thesis unfolding v_def L_def by blast
qed

text \<open>A grid with one level and two layers.\<close>

definition small_tech :: tech where
  "small_tech = \<lparr>tech_lib = [], tech_layout_unit = 0, tech_resolution = 0, tech_use_flip_parity = False,
     tech_make_pin = False, tech_lp = \<lparr>lp_default_purpose = 0, lp_pin_purpose = 0, lp_lay_map = [], lp_purp_map = []\<rparr>,
     tech_vlookup = \<lparr>vl_lp_map = [], vl_id_map = [], vl_info_map = []\<rparr>, tech_sp_grp = [],
     tech_sp_sc_type = DIFF_COLOR, tech_len_map = [], tech_bot_layer = 1, tech_lp_list = [[(60, 0), (61, 0)]],
     tech_lev_map = [], tech_color_map = []\<rparr>"

definition small_track :: track_info where
  "small_track = \<lparr>ti_dir = Vertical, ti_w = 60, ti_sp = 60, ti_offset = 60, ti_par_scale = 1, ti_par_offset = 0,
     ti_blk_pitch = (120, 60), ti_w_intvs = []\<rparr>"

definition small_grid :: routing_grid where
  "small_grid = \<lparr>rg_tech = small_tech, rg_bot_level = 1, rg_info_list = [small_track], rg_top_ignore = 0, rg_top_private = 0\<rparr>"

lemma small_grid_simps:
  "rg_track_info_at small_grid 1 = Inr small_track" "rg_at small_grid 1 = Inr small_track"
  "get_lay_purp_list (rg_tech small_grid) 1 = Inr [(60, 0), (61, 0)]"
  by (simp_all add: rg_track_info_at_def rg_get_index_def rg_at_def level_idx_def small_grid_def small_tech_def
      get_lay_purp_list_def)

theorem get_layer_t_in_bounds_witness: "rg_get_layer_t small_grid 1 7 = Inr (61, 0)"
proof -
  obtain idx where "rg_get_layer_t small_grid 1 7 = Inr ([(60, 0), (61, 0)] ! idx)" "int idx = 1"
    using get_layer_t_in_bounds [OF small_grid_simps(1,3), of 7] by (auto simp: small_track_def int32_def)
  then show ?thesis by simp
qed

section \<open>Wire arrays\<close>

lemma sdiv2_double: "(2 * y) sdiv 2 = (y :: int)"
  by (auto simp: signed_divide_int_def sgn_if)

lemma perp_interval:
  "box_intv (make_box_orient dir a b c d) dir = (a, b)" "box_intv (make_box_orient dir a b c d) (perpendicular dir) = (c, d)"
  by (cases dir; simp add: make_box_orient_def make_box_def)+

text \<open>The exact center of the \<open>i\<close>-th track of an identifier, for tracks at a distance of \<open>2 * k\<close>.\<close>

definition track_center :: "track_info \<Rightarrow> int \<Rightarrow> track_id \<Rightarrow> int \<Rightarrow> int" where
  "track_center ti k tid i = k * (tid_htr tid + i * tid_pitch tid) + ti_offset ti"

lemma track_center_between:
  assumes "0 \<le> k" and "0 \<le> i" and "i \<le> n"
  shows "min (track_center ti k tid 0) (track_center ti k tid n) \<le> track_center ti k tid i"
    and "track_center ti k tid i \<le> max (track_center ti k tid 0) (track_center ti k tid n)"
proof -
  have eq: "track_center ti k tid j = track_center ti k tid 0 + j * (tid_pitch tid * k)" for j
    by (simp add: track_center_def algebra_simps)
  have "0 \<le> i * (tid_pitch tid * k) \<and> i * (tid_pitch tid * k) \<le> n * (tid_pitch tid * k) \<or>
      i * (tid_pitch tid * k) \<le> 0 \<and> n * (tid_pitch tid * k) \<le> i * (tid_pitch tid * k)"
  proof (cases "0 \<le> tid_pitch tid")
    case True
    then show ?thesis using assms by (intro disjI1 conjI mult_right_mono mult_nonneg_nonneg) simp_all
  next
    case False
    then have "tid_pitch tid * k \<le> 0" using assms(1) by (simp add: mult_nonpos_nonneg)
    then show ?thesis
      using assms(2,3) by (intro disjI2 conjI mult_right_mono_neg) (simp_all add: mult_nonneg_nonpos)
  qed
  then show "min (track_center ti k tid 0) (track_center ti k tid n) \<le> track_center ti k tid i"
    and "track_center ti k tid i \<le> max (track_center ti k tid 0) (track_center ti k tid n)"
    unfolding eq [of i] eq [of n] by linarith+
qed

lemma htr_to_coord_tid_at:
  assumes "ti_pitch ti = 2 * k" and "0 < k" and "int32 (ti_offset ti)" and "int32 (track_center ti k tid (int i))"
  shows "htr_to_coord ti (tid_at tid i) = track_center ti k tid (int i)"
proof -
  let ?h = "tid_htr tid + int i * tid_pitch tid"
  have "\<bar>?h\<bar> \<le> k * \<bar>?h\<bar>" using assms(2) mult_right_mono [of 1 k "\<bar>?h\<bar>"] by simp
  also have "\<dots> = \<bar>k * ?h\<bar>" using assms(2) by (simp add: abs_mult)
  also have "k * ?h = track_center ti k tid (int i) - ti_offset ti" by (simp add: track_center_def)
  finally have "\<bar>?h\<bar> < 2 ^ 33" using assms(3,4) by (simp add: int32_def abs_if split: if_splits)
  then have "tid_at tid i = ?h" unfolding tid_at_def by (intro sint_cnt_of_int) (simp_all add: abs_if split: if_splits)
  then show ?thesis
    using to_offset_int32 [OF assms(4)] sdiv2_double [of k]
    by (simp add: htr_to_coord_def assms(1) track_center_def)
qed

lemma offset_of_num:
  assumes "1 \<le> unat n" and "unat n \<le> 2 ^ 31"
  shows "offset_of_cnt (n - 1) = int (unat n) - 1"
proof -
  have "n - 1 = cnt_of_int (int (unat n) - 1)" by (simp add: cnt_of_int_def)
  moreover have "offset_of_cnt (cnt_of_int (int (unat n) - 1)) = int (unat n) - 1"
  proof (rule offset_of_small)
    have "int (unat n) \<le> int (2 ^ 31)" using assms(2) by (simp only: of_nat_le_iff)
    then show "int (unat n) - 1 < 2 ^ 31" by simp
    have "- (2 ^ 31) \<le> x - 1" if "0 \<le> x" for x :: int using that by simp
    from this [OF of_nat_0_le_iff] show "- (2 ^ 31) \<le> int (unat n) - 1" .
  qed
  ultimately show ?thesis by simp
qed

lemma tid_get_bounds_exact:
  assumes "rg_track_info_at g (tid_level tid) = Inr ti" and "rg_at g (tid_level tid) = Inr ti"
    and "ti_pitch ti = 2 * k" and "0 < k" and "1 \<le> unat (tid_num tid)" and "unat (tid_num tid) \<le> 2 ^ 31"
    and "int32 (ti_offset ti)" and "int32 (ti_wire_span ti (tid_ntr tid))"
    and range: "\<forall>i\<in>{0, int (unat (tid_num tid)) - 1}.
      int32 (track_center ti k tid i - ti_wire_span ti (tid_ntr tid) sdiv 2) \<and>
      int32 (track_center ti k tid i) \<and> int32 (track_center ti k tid i + ti_wire_span ti (tid_ntr tid) sdiv 2)"
    and "tid_get_bounds g tid = Inr bounds"
  shows "bounds = (min (track_center ti k tid 0) (track_center ti k tid (int (unat (tid_num tid)) - 1)) -
      ti_wire_span ti (tid_ntr tid) sdiv 2,
    max (track_center ti k tid 0) (track_center ti k tid (int (unat (tid_num tid)) - 1)) +
      ti_wire_span ti (tid_ntr tid) sdiv 2)"
proof -
  let ?half = "ti_wire_span ti (tid_ntr tid) sdiv 2" and ?last = "int (unat (tid_num tid)) - 1"
  define delta where "delta = ?last * tid_pitch tid * k"
  have "?last * tid_pitch tid * (2 * k) = 2 * delta" by (simp add: delta_def)
  then have half_delta: "(offset_of_cnt (tid_num tid - 1) * tid_pitch tid * ti_pitch ti) sdiv 2 = delta"
    unfolding offset_of_num [OF assms(5,6)] assms(3) by (simp only: sdiv2_double)
  have eq: "track_center ti k tid ?last = track_center ti k tid 0 + delta"
    by (simp add: track_center_def delta_def algebra_simps)
  have first: "htr_to_coord ti (tid_htr tid) = track_center ti k tid 0"
    using bspec [OF range, of 0] to_offset_int32 [of "track_center ti k tid 0"] sdiv2_double [of k]
    by (simp add: htr_to_coord_def assms(3) track_center_def)
  have "bounds = (if delta > 0 then (track_center ti k tid 0 - ?half, to_offset (track_center ti k tid 0 + ?half + delta))
      else (to_offset (track_center ti k tid 0 - ?half + delta), track_center ti k tid 0 + ?half))"
    using assms(10)
    by (simp add: tid_get_bounds_def get_wire_bounds_def assms(1,2,8) ww_total_width_def ti_wire_width_def first_of_def
        first half_delta Let_def split: if_splits)
  moreover have "int32 (track_center ti k tid 0 + ?half + delta)" "int32 (track_center ti k tid 0 - ?half + delta)"
    using bspec [OF range, of ?last] unfolding eq by (simp_all add: algebra_simps)
  ultimately show ?thesis unfolding eq by auto
qed


text \<open>
  Beyond the range the bound of the last track and the center of its wire wrap around on their own: no
  rectangle of these two tracks ends below the upper bound but the one that wrapped around, and that
  one starts below the lower bound.
\<close>

lemma wire_array_wraps:
  "let tid = make_track_id 1 35791392 1 2 2
   in tid_get_bounds small_grid tid = Inr (2147483550, - 2147483566) \<and>
      map_sum id (map (box_h \<circ> snd)) (warr_rects small_grid tid (0, 500)) =
        Inr [(2147483550, 2147483610), (- 2147483626, - 2147483566)]"
  by code_simp


end
