(* ===== verification/Geo_Index.thy ===== *)
theory Geo_Index
  imports Transform
begin

text \<open>
  The spatial index of the shapes on a level: \<^verbatim>\<open>src/cbag/layout/geo_object.cpp\<close>,
  \<^verbatim>\<open>geo_instance.cpp\<close>, \<^verbatim>\<open>geo_index.cpp\<close> and \<^verbatim>\<open>geo_iterator.cpp\<close>.  The R-tree is Boost's: it is the
  list of its values, in the order in which it gives them.  An instance in an index holds the index of
  its master, as it is when the instance is inserted.  What Boost.Polygon does with shapes is a record
  of functions, like the operations on transformations.
\<close>

section \<open>Shapes\<close>

datatype shape = Sh_box box_t | Sh_poly90 "point list" | Sh_poly45 "point list" | Sh_poly "point list"

text \<open>
  \<^verbatim>\<open>bp::transform\<close> on boxes and polygons, \<^verbatim>\<open>bp::extents\<close>, which fails on an empty polygon, and
  whether \<^verbatim>\<open>v & test_box\<close> is not empty.
\<close>

record 'x geo_ops =
  go_transform_box :: "box_t \<Rightarrow> 'x \<Rightarrow> box_t"
  go_transform_pts :: "point list \<Rightarrow> 'x \<Rightarrow> point list"
  go_extents :: "point list \<Rightarrow> box_t option"
  go_meets :: "shape \<Rightarrow> box_t \<Rightarrow> bool"

fun shape_extents :: "'x geo_ops \<Rightarrow> shape \<Rightarrow> box_t" where
  "shape_extents G (Sh_box b) = b"
| "shape_extents G (Sh_poly90 pts) = (case go_extents G pts of None \<Rightarrow> invalid_box | Some b \<Rightarrow> b)"
| "shape_extents G (Sh_poly45 pts) = (case go_extents G pts of None \<Rightarrow> invalid_box | Some b \<Rightarrow> b)"
| "shape_extents G (Sh_poly pts) = (case go_extents G pts of None \<Rightarrow> invalid_box | Some b \<Rightarrow> b)"

fun shape_transform :: "'x geo_ops \<Rightarrow> 'x \<Rightarrow> shape \<Rightarrow> shape" where
  "shape_transform G x (Sh_box b) = Sh_box (go_transform_box G b x)"
| "shape_transform G x (Sh_poly90 pts) = Sh_poly90 (go_transform_pts G pts x)"
| "shape_transform G x (Sh_poly45 pts) = Sh_poly45 (go_transform_pts G pts x)"
| "shape_transform G x (Sh_poly pts) = Sh_poly (go_transform_pts G pts x)"

section \<open>Objects and indices\<close>

datatype 'x geo_val = Gv_shape shape | Gv_inst "'x geo_object list" 'x
  and 'x geo_object = Geo_object (go_val: "'x geo_val") (go_spx: int) (go_spy: int) (go_bnd: box_t)

type_synonym 'x geo_index = "'x geo_object list"

definition gi_empty :: "'x geo_index \<Rightarrow> bool" where
  "gi_empty idx \<longleftrightarrow> idx = []"

text \<open>The bounds of an empty tree are the inverse box.\<close>

definition gi_get_bbox :: "'x geo_index \<Rightarrow> box_t" where
  "gi_get_bbox idx =
     foldl (\<lambda>b obj. make_box (min (box_xl b) (box_xl (go_bnd obj))) (min (box_yl b) (box_yl (go_bnd obj)))
                (max (box_xh b) (box_xh (go_bnd obj))) (max (box_yh b) (box_yh (go_bnd obj))))
       (make_box (2 ^ 31 - 1) (2 ^ 31 - 1) (- (2 ^ 31)) (- (2 ^ 31))) idx"

definition geo_instance_bbox :: "'x geo_ops \<Rightarrow> 'x geo_index \<Rightarrow> 'x \<Rightarrow> box_t" where
  "geo_instance_bbox G master xform = box_transform (go_transform_box G) (gi_get_bbox master) xform"

fun geo_val_bbox :: "'x geo_ops \<Rightarrow> 'x geo_val \<Rightarrow> box_t" where
  "geo_val_bbox G (Gv_shape s) = shape_extents G s"
| "geo_val_bbox G (Gv_inst master xform) = geo_instance_bbox G master xform"

definition get_bnd_box :: "'x geo_ops \<Rightarrow> 'x geo_val \<Rightarrow> int \<Rightarrow> int \<Rightarrow> box_t result" where
  "get_bnd_box G val spx spy =
     (let box = geo_val_bbox G val in
      if \<not> box_is_valid box then Inl Invalid_argument
      else Inr (make_box (box_xl box - spx) (box_yl box - spy) (box_xh box + spx) (box_yh box + spy)))"

definition make_geo_object :: "'x geo_ops \<Rightarrow> 'x geo_val \<Rightarrow> int \<Rightarrow> int \<Rightarrow> 'x geo_object result" where
  "make_geo_object G val spx spy = bindR (get_bnd_box G val spx spy) (\<lambda>b. Inr (Geo_object val spx spy b))"

definition gi_insert :: "'x geo_ops \<Rightarrow> 'x geo_index \<Rightarrow> shape \<Rightarrow> int \<Rightarrow> int \<Rightarrow> 'x geo_index result" where
  "gi_insert G idx s spx spy = bindR (make_geo_object G (Gv_shape s) spx spy) (\<lambda>obj. Inr (idx @ [obj]))"

definition gi_insert_inst :: "'x geo_ops \<Rightarrow> 'x geo_index \<Rightarrow> 'x geo_index \<Rightarrow> 'x \<Rightarrow> 'x geo_index result" where
  "gi_insert_inst G idx master xform =
     (if gi_empty master then Inr idx
      else bindR (make_geo_object G (Gv_inst master xform) 0 0) (\<lambda>obj. Inr (idx @ [obj])))"

section \<open>The iterator\<close>

text \<open>\<^verbatim>\<open>bgi::intersects\<close>: closed boxes with a common point.\<close>

definition boxes_touch :: "box_t \<Rightarrow> box_t \<Rightarrow> bool" where
  "boxes_touch a b \<longleftrightarrow> box_xl a \<le> box_xh b \<and> box_xl b \<le> box_xh a \<and> box_yl a \<le> box_yh b \<and> box_yl b \<le> box_yh a"

definition gi_query :: "'x geo_index \<Rightarrow> box_t \<Rightarrow> int \<Rightarrow> int \<Rightarrow> 'x geo_object list" where
  "gi_query idx r spx spy =
     filter (\<lambda>obj. boxes_touch (go_bnd obj)
       (make_box (box_xl r - spx) (box_yl r - spy) (box_xh r + spx) (box_yh r + spy))) idx"

text \<open>
  The box with its margins, the values that the query has not passed yet, the transformation of what is
  returned, the iterator of the instance at the head of these values, and the current value.
\<close>

datatype 'x geo_iter =
  Geo_iter box_t int int "'x geo_object list" 'x (gt_inner: "'x geo_iter option") (gt_val: "shape option")

fun gt_cur :: "'x geo_iter \<Rightarrow> 'x geo_object list" where
  "gt_cur (Geo_iter r spx spy cur x inner v) = cur"

definition gt_has_next :: "'x geo_iter \<Rightarrow> bool" where
  "gt_has_next it \<longleftrightarrow> gt_cur it \<noteq> []"

text \<open>The margins and the box that \<^verbatim>\<open>geo_instance::begin_intersect\<close> uses for the master.\<close>

definition inst_margins :: "'x xform_ops \<Rightarrow> 'x \<Rightarrow> int \<Rightarrow> int \<Rightarrow> int \<times> int" where
  "inst_margins T x spx spy = (if flips_xy T x then (spy, spx) else (spx, spy))"

definition inst_box :: "'x xform_ops \<Rightarrow> 'x geo_ops \<Rightarrow> 'x \<Rightarrow> box_t \<Rightarrow> box_t" where
  "inst_box T G x r = box_transform (go_transform_box G) r (xform_inverse T x)"

definition inst_query :: "'x xform_ops \<Rightarrow> 'x geo_ops \<Rightarrow> 'x geo_index \<Rightarrow> 'x \<Rightarrow> box_t \<Rightarrow> int \<Rightarrow> int \<Rightarrow> 'x geo_object list" where
  "inst_query T G master x r spx spy =
     (case inst_margins T x spx spy of (spx', spy') \<Rightarrow> gi_query master (inst_box T G x r) spx' spy')"

definition shape_found :: "'x geo_ops \<Rightarrow> box_t \<Rightarrow> int \<Rightarrow> int \<Rightarrow> 'x geo_object \<Rightarrow> shape \<Rightarrow> bool" where
  "shape_found G r spx spy obj s \<longleftrightarrow> go_meets G s (box_expand r (max spx (go_spx obj)) (max spy (go_spy obj)))"

fun obj_weight :: "'x geo_object \<Rightarrow> nat" where
  "obj_weight (Geo_object (Gv_shape s) spx spy b) = 1"
| "obj_weight (Geo_object (Gv_inst master x) spx spy b) = 2 + sum_list (map obj_weight master)"

definition objs_weight :: "'x geo_object list \<Rightarrow> nat" where
  "objs_weight objs = sum_list (map obj_weight objs)"

lemma objs_weight_simps [simp]:
  "objs_weight [] = 0" "objs_weight (obj # objs) = obj_weight obj + objs_weight objs"
  by (simp_all add: objs_weight_def)

lemma objs_weight_filter: "objs_weight (filter P objs) \<le> objs_weight objs"
  by (induction objs) auto

lemma obj_weight_inst: "go_val obj = Gv_inst master x \<Longrightarrow> obj_weight obj = 2 + objs_weight master"
  by (cases obj) (simp add: objs_weight_def)

lemma obj_weight_pos: "0 < obj_weight obj"
  by (cases obj rule: obj_weight.cases) simp_all

lemma inst_query_weight: "objs_weight (inst_query T G master x r spx spy) \<le> objs_weight master"
  by (simp add: inst_query_def gi_query_def objs_weight_filter split: prod.split)

function settle :: "'x xform_ops \<Rightarrow> 'x geo_ops \<Rightarrow> 'x geo_iter \<Rightarrow> 'x geo_iter" where
  "settle T G (Geo_iter r spx spy [] x None v) = Geo_iter r spx spy [] x None v"
| "settle T G (Geo_iter r spx spy (obj # objs) x None v) =
     (case go_val obj of
        Gv_inst master mx \<Rightarrow>
          settle T G (Geo_iter r spx spy (obj # objs) x
            (Some (settle T G (Geo_iter (inst_box T G mx r) (fst (inst_margins T mx spx spy))
               (snd (inst_margins T mx spx spy)) (inst_query T G master mx r spx spy) mx None None))) v)
      | Gv_shape s \<Rightarrow>
          if shape_found G r spx spy obj s
          then Geo_iter r spx spy (obj # objs) x None (Some (shape_transform G x s))
          else settle T G (Geo_iter r spx spy objs x None v))"
| "settle T G (Geo_iter r spx spy [] x (Some inner) v) = Geo_iter r spx spy [] x (Some inner) v"
| "settle T G (Geo_iter r spx spy (obj # objs) x (Some inner) v) =
     (if gt_has_next inner
      then Geo_iter r spx spy (obj # objs) x (Some inner) (map_option (shape_transform G x) (gt_val inner))
      else settle T G (Geo_iter r spx spy objs x None v))"
  by pat_completeness auto

lemma weights_decrease:
  "go_val obj = Gv_inst master mx \<Longrightarrow>
     2 * objs_weight (inst_query T G master mx r spx spy) < 2 * obj_weight obj + 2 * k"
  "Suc 0 < 2 * obj_weight obj"
  using inst_query_weight [of T G master mx r spx spy] obj_weight_pos [of obj] by (simp_all add: obj_weight_inst)

termination settle
  by (relation "measure (\<lambda>(T, G, it). 2 * objs_weight (gt_cur it) + (case gt_inner it of None \<Rightarrow> 1 | Some i \<Rightarrow> 0))")
    (auto simp: weights_decrease obj_weight_pos)

definition gi_begin_intersect ::
  "'x xform_ops \<Rightarrow> 'x geo_ops \<Rightarrow> 'x geo_index \<Rightarrow> box_t \<Rightarrow> int \<Rightarrow> int \<Rightarrow> 'x \<Rightarrow> 'x geo_iter" where
  "gi_begin_intersect T G idx r spx spy xform =
     settle T G (Geo_iter r spx spy (gi_query idx r spx spy) xform None None)"

definition inst_begin_intersect ::
  "'x xform_ops \<Rightarrow> 'x geo_ops \<Rightarrow> 'x geo_index \<Rightarrow> 'x \<Rightarrow> box_t \<Rightarrow> int \<Rightarrow> int \<Rightarrow> 'x geo_iter" where
  "inst_begin_intersect T G master xform r spx spy =
     (case inst_margins T xform spx spy of (spx_new, spy_new) \<Rightarrow>
        gi_begin_intersect T G master (inst_box T G xform r) spx_new spy_new xform)"

lemma settle_inst:
  "go_val obj = Gv_inst master mx \<Longrightarrow>
   settle T G (Geo_iter r spx spy (obj # objs) x None v) =
     settle T G (Geo_iter r spx spy (obj # objs) x (Some (inst_begin_intersect T G master mx r spx spy)) v)"
  by (simp add: inst_begin_intersect_def gi_begin_intersect_def inst_query_def split: prod.split)

text \<open>\<^verbatim>\<open>operator++\<close>, which advances the innermost iterator.\<close>

fun gt_next :: "'x xform_ops \<Rightarrow> 'x geo_ops \<Rightarrow> 'x geo_iter \<Rightarrow> 'x geo_iter" where
  "gt_next T G (Geo_iter r spx spy cur x None v) = settle T G (Geo_iter r spx spy (tl cur) x None v)"
| "gt_next T G (Geo_iter r spx spy cur x (Some inner) v) =
     settle T G (Geo_iter r spx spy cur x (Some (gt_next T G inner)) v)"

text \<open>The loop of a caller that visits all shapes.\<close>

partial_function (option) gt_all :: "'x xform_ops \<Rightarrow> 'x geo_ops \<Rightarrow> 'x geo_iter \<Rightarrow> shape option list option" where
  "gt_all T G it =
     (if \<not> gt_has_next it then Some []
      else Option.bind (gt_all T G (gt_next T G it)) (\<lambda>vs. Some (gt_val it # vs)))"

section \<open>What the iterator yields\<close>

text \<open>The shapes near a box among some objects, those of an instance in the place of the instance.\<close>

function shapes_near ::
  "'x xform_ops \<Rightarrow> 'x geo_ops \<Rightarrow> box_t \<Rightarrow> int \<Rightarrow> int \<Rightarrow> 'x geo_object list \<Rightarrow> shape list" where
  "shapes_near T G r spx spy [] = []"
| "shapes_near T G r spx spy (obj # objs) =
     (case go_val obj of
        Gv_shape s \<Rightarrow> if shape_found G r spx spy obj s then [s] else []
      | Gv_inst master mx \<Rightarrow>
          map (shape_transform G mx)
            (shapes_near T G (inst_box T G mx r) (fst (inst_margins T mx spx spy)) (snd (inst_margins T mx spx spy))
              (inst_query T G master mx r spx spy))) @
     shapes_near T G r spx spy objs"
  by pat_completeness auto

lemma inst_query_less: "go_val obj = Gv_inst master mx \<Longrightarrow> objs_weight (inst_query T G master mx r spx spy) < obj_weight obj + k"
  using inst_query_weight [of T G master mx r spx spy] by (simp add: obj_weight_inst)

termination shapes_near
  by (relation "measure (\<lambda>(T, G, r, spx, spy, objs). objs_weight objs)") (auto simp: inst_query_less obj_weight_pos)

definition shapes_in_index ::
  "'x xform_ops \<Rightarrow> 'x geo_ops \<Rightarrow> 'x geo_index \<Rightarrow> box_t \<Rightarrow> int \<Rightarrow> int \<Rightarrow> 'x \<Rightarrow> shape list" where
  "shapes_in_index T G idx r spx spy xform =
     map (shape_transform G xform) (shapes_near T G r spx spy (gi_query idx r spx spy))"

text \<open>The shapes that an iterator has still to yield.\<close>

fun gt_rest :: "'x xform_ops \<Rightarrow> 'x geo_ops \<Rightarrow> 'x geo_iter \<Rightarrow> shape list" where
  "gt_rest T G (Geo_iter r spx spy cur x None v) = map (shape_transform G x) (shapes_near T G r spx spy cur)"
| "gt_rest T G (Geo_iter r spx spy cur x (Some inner) v) =
     (if cur = [] then [] else map (shape_transform G x) (gt_rest T G inner @ shapes_near T G r spx spy (tl cur)))"

text \<open>An iterator at a shape, or past the end.\<close>

fun settled :: "'x xform_ops \<Rightarrow> 'x geo_ops \<Rightarrow> 'x geo_iter \<Rightarrow> bool" where
  "settled T G (Geo_iter r spx spy [] x inner v) \<longleftrightarrow> inner = None"
| "settled T G (Geo_iter r spx spy (obj # objs) x None v) \<longleftrightarrow>
     (\<exists>s. go_val obj = Gv_shape s \<and> shape_found G r spx spy obj s \<and> v = Some (shape_transform G x s))"
| "settled T G (Geo_iter r spx spy (obj # objs) x (Some inner) v) \<longleftrightarrow>
     settled T G inner \<and> gt_has_next inner \<and> v = map_option (shape_transform G x) (gt_val inner)"

text \<open>Iterators as the operations make them: with a settled inner iterator, if any.\<close>

fun inner_ok :: "'x xform_ops \<Rightarrow> 'x geo_ops \<Rightarrow> 'x geo_iter \<Rightarrow> bool" where
  "inner_ok T G (Geo_iter r spx spy cur x None v) \<longleftrightarrow> True"
| "inner_ok T G (Geo_iter r spx spy cur x (Some inner) v) \<longleftrightarrow> cur \<noteq> [] \<and> settled T G inner"

lemma settled_rest:
  "settled T G it \<Longrightarrow> (gt_has_next it \<longleftrightarrow> gt_rest T G it \<noteq> []) \<and>
     (gt_has_next it \<longrightarrow> gt_val it = Some (hd (gt_rest T G it)))"
  by (induction T G it rule: settled.induct) (auto simp: gt_has_next_def hd_map)

lemma settle_spec:
  "inner_ok T G it \<Longrightarrow> settled T G (settle T G it) \<and> gt_rest T G (settle T G it) = gt_rest T G it"
proof (induction T G it rule: settle.induct)
  case (2 T G r spx spy obj objs x v)
  then show ?case by (auto split: geo_val.splits)
next
  case (4 T G r spx spy obj objs x inner v)
  then show ?case using settled_rest [of T G inner] by auto
qed auto

lemma gt_next_spec:
  "settled T G it \<Longrightarrow> gt_has_next it \<Longrightarrow>
   settled T G (gt_next T G it) \<and> gt_rest T G (gt_next T G it) = tl (gt_rest T G it)"
proof (induction T G it rule: gt_next.induct)
  case (1 T G r spx spy cur x v)
  then obtain obj objs where "cur = obj # objs" by (cases cur) (auto simp: gt_has_next_def)
  with 1 show ?case using settle_spec [of T G "Geo_iter r spx spy objs x None v"] by auto
next
  case (2 T G r spx spy cur x inner v)
  then obtain obj objs where "cur = obj # objs" by (cases cur) (auto simp: gt_has_next_def)
  with 2 show ?case
    using settle_spec [of T G "Geo_iter r spx spy cur x (Some (gt_next T G inner)) v"] settled_rest [of T G inner]
    by (auto simp: map_tl simp del: settle.simps)
qed

lemma gt_all_settled: "settled T G it \<Longrightarrow> gt_all T G it = Some (map Some (gt_rest T G it))"
proof (induction "gt_rest T G it" arbitrary: it)
  case Nil
  then show ?case using settled_rest [of T G it] by (subst gt_all.simps) auto
next
  case (Cons s rest)
  then have "gt_has_next it" "gt_val it = Some s"
    using settled_rest [of T G it] Cons.hyps(2) [symmetric] by simp_all
  moreover have "gt_rest T G (gt_next T G it) = rest" "settled T G (gt_next T G it)"
    using gt_next_spec [of T G it] Cons.prems \<open>gt_has_next it\<close> Cons.hyps(2) [symmetric] by simp_all
  ultimately show ?case
    using Cons.hyps(1) [of "gt_next T G it"] Cons.hyps(2) [symmetric] by (subst gt_all.simps) simp
qed

text \<open>
  C25.  The loop over the shapes of an index near a box ends, and visits exactly the shapes that are
  found by descending into the instances: those of an object in the place of the object, with the
  transformations of all instances above it.
\<close>

theorem geo_iteration_complete:
  "gt_all T G (gi_begin_intersect T G idx r spx spy xform) = Some (map Some (shapes_in_index T G idx r spx spy xform))"
proof -
  let ?it = "Geo_iter r spx spy (gi_query idx r spx spy) xform None None"
  have "settled T G (settle T G ?it)" "gt_rest T G (settle T G ?it) = shapes_in_index T G idx r spx spy xform"
    using settle_spec [of T G ?it] by (simp_all add: shapes_in_index_def)
  then show ?thesis using gt_all_settled [of T G "settle T G ?it"] by (simp add: gi_begin_intersect_def)
qed

end
