(* ===== verification/Binary_Iterator.thy ===== *)
theory Binary_Iterator
  imports Prelude
begin

text \<open>
  The search for a number that passes a test, first by doubling and then by halving:
  \<^verbatim>\<open>include/cbag/util/binary_iterator.h\<close> for the type \<^verbatim>\<open>cnt_t\<close>, and the loop that its users
  write around it.
\<close>

section \<open>The iterator\<close>

record bin_iter =
  bi_low :: cnt_t
  bi_high :: "cnt_t option"
  bi_current :: cnt_t
  bi_marker :: "cnt_t option"

definition bi_between :: "cnt_t \<Rightarrow> cnt_t \<Rightarrow> bin_iter" where
  "bi_between low high =
     \<lparr>bi_low = low, bi_high = Some high, bi_current = (high + low) div 2, bi_marker = None\<rparr>"

definition bi_from :: "cnt_t \<Rightarrow> bin_iter" where
  "bi_from low = \<lparr>bi_low = low, bi_high = None, bi_current = low, bi_marker = None\<rparr>"

definition bi_has_next :: "bin_iter \<Rightarrow> bool" where
  "bi_has_next it \<longleftrightarrow> (case bi_high it of None \<Rightarrow> True | Some h \<Rightarrow> bi_low it < h)"

definition bi_up :: "bin_iter \<Rightarrow> bin_iter" where
  "bi_up it =
     (let low = bi_current it + 1 in
      it\<lparr>bi_low := low,
         bi_current := (case bi_high it of
             Some h \<Rightarrow> (low + h) div 2
           | None \<Rightarrow> if bi_current it > 0 then bi_current it * 2 else bi_current it + 1)\<rparr>)"

definition bi_down :: "bin_iter \<Rightarrow> bin_iter" where
  "bi_down it = it\<lparr>bi_high := Some (bi_current it), bi_current := (bi_low it + bi_current it) div 2\<rparr>"

definition bi_save :: "bin_iter \<Rightarrow> bin_iter" where
  "bi_save it = it\<lparr>bi_marker := Some (bi_current it)\<rparr>"

partial_function (option) bi_search :: "(cnt_t \<Rightarrow> bool) \<Rightarrow> bin_iter \<Rightarrow> bin_iter option" where
  "bi_search ok it =
     (if \<not> bi_has_next it then Some it
      else if ok (bi_current it) then bi_search ok (bi_down (bi_save it))
      else bi_search ok (bi_up it))"

section \<open>Halving\<close>

lemma unat_succ: "unat (c :: cnt_t) < 2 ^ 63 \<Longrightarrow> unat (c + 1) = unat c + 1"
proof -
  assume "unat c < 2 ^ 63"
  then have "unat c + unat (1 :: cnt_t) < 2 ^ LENGTH(64)" by simp
  from unat_add_lem [THEN iffD1, OF this] show ?thesis by simp
qed

text \<open>
  What the search promises: the number passes the test, lies between the bounds, and the number before
  it fails unless it is the lower bound.
\<close>

definition search_result :: "(cnt_t \<Rightarrow> bool) \<Rightarrow> cnt_t \<Rightarrow> cnt_t \<Rightarrow> bin_iter \<Rightarrow> bool" where
  "search_result ok lower upper it \<longleftrightarrow>
     (\<exists>n. bi_marker it = Some n \<and> ok n \<and> lower \<le> n \<and> n \<le> upper \<and> (n = lower \<or> \<not> ok (n - 1)))"

lemma search_result_mono: "search_result ok lower u it \<Longrightarrow> u \<le> u' \<Longrightarrow> search_result ok lower u' it"
  unfolding search_result_def by (blast intro: order.trans)

lemma word_mid:
  fixes l h :: cnt_t
  assumes "l < h" and "unat h < 2 ^ 63"
  shows "l \<le> (l + h) div 2" and "(l + h) div 2 < h" and "unat ((l + h) div 2 + 1) = unat ((l + h) div 2) + 1"
proof -
  have lh: "unat l < unat h" using assms(1) by (simp add: word_less_nat_alt)
  have "unat (l + h) = unat l + unat h"
    using lh assms(2) by (intro unat_add_lem [THEN iffD1]) simp
  then have mid: "unat ((l + h) div 2) = (unat l + unat h) div 2" by (simp add: unat_div)
  show "l \<le> (l + h) div 2" "(l + h) div 2 < h"
    using lh mid by (simp_all add: word_le_nat_alt word_less_nat_alt)
  show "unat ((l + h) div 2 + 1) = unat ((l + h) div 2) + 1"
    by (rule unat_succ) (use lh mid assms(2) in linarith)
qed

lemma bi_search_halving:
  assumes "unat h < 2 ^ 63" and "l \<le> h" and "lower \<le> l" and "ok h" and "l = lower \<or> \<not> ok (l - 1)"
  shows "\<exists>it. bi_search ok \<lparr>bi_low = l, bi_high = Some h, bi_current = (l + h) div 2, bi_marker = Some h\<rparr> = Some it \<and>
    search_result ok lower h it"
  using assms
proof (induction "unat h - unat l" arbitrary: l h rule: less_induct)
  case less
  let ?it = "\<lparr>bi_low = l, bi_high = Some h, bi_current = (l + h) div 2, bi_marker = Some h\<rparr>"
  let ?m = "(l + h) div 2"
  show ?case
  proof (cases "l < h")
    case False
    then have "l = h" using less.prems(2) by simp
    then show ?thesis
      using less.prems
      by (subst bi_search.simps) (auto simp: bi_has_next_def search_result_def)
  next
    case True
    note mid = word_mid [OF True less.prems(1)]
    show ?thesis
    proof (cases "ok ?m")
      case ok: True
      have "unat ?m - unat l < unat h - unat l" "unat ?m < 2 ^ 63"
        using mid(1,2) less.prems(1) by (simp_all add: word_le_nat_alt word_less_nat_alt)
      from less.hyps [OF this(1) this(2) mid(1) less.prems(3) ok less.prems(5)]
      obtain it where "bi_search ok \<lparr>bi_low = l, bi_high = Some ?m, bi_current = (l + ?m) div 2, bi_marker = Some ?m\<rparr> = Some it"
        "search_result ok lower ?m it" by blast
      moreover from this(2) mid(2) have "search_result ok lower h it"
        by (rule search_result_mono [OF _ less_imp_le])
      ultimately show ?thesis
        using True ok by (subst bi_search.simps) (simp add: bi_has_next_def bi_down_def bi_save_def)
    next
      case fail: False
      have le: "?m + 1 \<le> h" "lower \<le> ?m + 1" "unat h - unat (?m + 1) < unat h - unat l"
        using mid less.prems(3) True by (auto simp: word_le_nat_alt word_less_nat_alt)
      have "?m + 1 = lower \<or> \<not> ok (?m + 1 - 1)" using fail by simp
      from less.hyps [OF le(3) less.prems(1) le(1,2) less.prems(4) this]
      obtain it where "bi_search ok \<lparr>bi_low = ?m + 1, bi_high = Some h, bi_current = (?m + 1 + h) div 2, bi_marker = Some h\<rparr> = Some it"
        "search_result ok lower h it" by blast
      then show ?thesis
        using True fail by (subst bi_search.simps) (simp add: bi_has_next_def bi_up_def Let_def)
    qed
  qed
qed

section \<open>Doubling\<close>

definition next_count :: "nat \<Rightarrow> nat" where
  "next_count n = (if n > 0 then 2 * n else 1)"

lemma next_count_gt: "n < next_count n"
  by (simp add: next_count_def)

lemma next_count_pow_ge: "n \<le> (next_count ^^ k) n"
  by (induction k) (auto simp: next_count_gt intro: less_imp_le [OF le_less_trans])

lemma bi_search_doubling:
  assumes "(next_count ^^ k) (unat c) < 2 ^ 63" and "ok (of_nat ((next_count ^^ k) (unat c)))"
    and "l \<le> c" and "lower \<le> l" and "l = lower \<or> \<not> ok (l - 1)"
  shows "\<exists>it upper. bi_search ok \<lparr>bi_low = l, bi_high = None, bi_current = c, bi_marker = None\<rparr> = Some it \<and>
    search_result ok lower upper it \<and> unat upper \<le> (next_count ^^ k) (unat c)"
  using assms
proof (induction k arbitrary: c l)
  case 0
  have "unat c < 2 ^ 63" "ok c" using "0.prems" by simp_all
  with bi_search_halving [OF this(1) "0.prems"(3,4) this(2) "0.prems"(5)] obtain it where
    "bi_search ok \<lparr>bi_low = l, bi_high = Some c, bi_current = (l + c) div 2, bi_marker = Some c\<rparr> = Some it"
    "search_result ok lower c it" by blast
  then show ?case
    using \<open>ok c\<close> by (subst bi_search.simps) (auto simp: bi_has_next_def bi_down_def bi_save_def)
next
  case (Suc k)
  have bound: "unat c < 2 ^ 63" "next_count (unat c) < 2 ^ 63"
    using Suc.prems(1) next_count_pow_ge [of "unat c" "Suc k"] next_count_pow_ge [of "next_count (unat c)" k]
    by (simp_all add: funpow_swap1)
  show ?case
  proof (cases "ok c")
    case True
    with bi_search_halving [OF bound(1) Suc.prems(3,4) True Suc.prems(5)] obtain it where
      "bi_search ok \<lparr>bi_low = l, bi_high = Some c, bi_current = (l + c) div 2, bi_marker = Some c\<rparr> = Some it"
      "search_result ok lower c it" by blast
    then show ?thesis
      using True next_count_pow_ge [of "unat c" "Suc k"]
      by (subst bi_search.simps) (auto simp: bi_has_next_def bi_down_def bi_save_def)
  next
    case False
    define d where "d = (if c > 0 then c * 2 else c + 1)"
    have d: "unat d = next_count (unat c)"
    proof (cases "c > 0")
      case True
      have "unat (c * 2) = unat c * 2"
        using bound(2) True by (intro unat_mult_lem [THEN iffD1, of c 2, simplified]) (simp add: next_count_def word_less_nat_alt)
      with True show ?thesis by (simp add: d_def next_count_def word_less_nat_alt)
    next
      case False
      then have "c = 0" by (simp add: word_gt_0)
      then show ?thesis by (simp add: d_def next_count_def)
    qed
    have c1: "unat (c + 1) = unat c + 1"
      by (rule unat_succ) (rule bound(1))
    have le: "c + 1 \<le> d" using next_count_gt [of "unat c"] by (simp add: word_le_nat_alt d c1)
    have low: "lower \<le> c + 1" using Suc.prems(3,4) by (simp add: word_le_nat_alt c1)
    have chain: "(next_count ^^ k) (unat d) = (next_count ^^ Suc k) (unat c)" by (simp add: d funpow_swap1)
    have "c + 1 = lower \<or> \<not> ok (c + 1 - 1)" using False by simp
    from Suc.IH [OF _ _ le low this] Suc.prems(1,2) chain obtain it upper where
      "bi_search ok \<lparr>bi_low = c + 1, bi_high = None, bi_current = d, bi_marker = None\<rparr> = Some it"
      "search_result ok lower upper it" "unat upper \<le> (next_count ^^ Suc k) (unat c)" by auto
    then show ?thesis
      using False by (subst bi_search.simps) (auto simp: bi_has_next_def bi_up_def Let_def d_def)
  qed
qed

lemma bi_search_returns:
  assumes "(next_count ^^ k) (unat c) < 2 ^ 63" and "ok (of_nat ((next_count ^^ k) (unat c)))"
  shows "\<exists>it n. bi_search ok (bi_from c) = Some it \<and> bi_marker it = Some n \<and> ok n \<and> c \<le> n \<and>
    unat n \<le> (next_count ^^ k) (unat c) \<and> (n = c \<or> \<not> ok (n - 1))"
proof -
  from bi_search_doubling [of k c ok c c, OF assms] obtain it upper where
    it: "bi_search ok (bi_from c) = Some it" "search_result ok c upper it"
      "unat upper \<le> (next_count ^^ k) (unat c)" by (auto simp: bi_from_def)
  then show ?thesis by (fastforce simp: search_result_def word_le_nat_alt)
qed

end
