(* ===== verification/Lay_Cellview.thy ===== *)
theory Lay_Cellview
  imports Geo_Index Routing_Grid Lay_Instance Binary_Iterator
begin

text \<open>
  Layout cellviews: \<^verbatim>\<open>src/cbag/layout/cellview.cpp\<close> and the figures they hold, in
  \<^verbatim>\<open>geometry.cpp\<close>, \<^verbatim>\<open>pin.cpp\<close>, \<^verbatim>\<open>label.cpp\<close>, \<^verbatim>\<open>boundary.cpp\<close>, \<^verbatim>\<open>blockage.cpp\<close> and
  \<^verbatim>\<open>via_wrapper.cpp\<close>.  The masters of instances are a type parameter, of which the index of a level
  is used.  The polygon sets of a geometry are Boost's: they are what has been inserted into them.
\<close>

section \<open>Figures\<close>

datatype geometry_mode = POLY90 | POLY45 | POLY

datatype geo_item = Gi_shape shape | Gi_set45 "point list list"

record geometry =
  geo_mode :: geometry_mode
  geo_data :: "geo_item list"

definition make_geometry :: "geometry_mode \<Rightarrow> geometry" where
  "make_geometry mode = \<lparr>geo_mode = mode, geo_data = []\<rparr>"

definition insert_item :: "geometry \<Rightarrow> geo_item \<Rightarrow> geometry" where
  "insert_item g item = g\<lparr>geo_data := geo_data g @ [item]\<rparr>"

fun geo_add_shape :: "geometry \<Rightarrow> geo_item \<Rightarrow> geometry result" where
  "geo_add_shape g (Gi_shape (Sh_box b)) = Inr (insert_item g (Gi_shape (Sh_box b)))"
| "geo_add_shape g (Gi_shape (Sh_poly90 pts)) = Inr (insert_item g (Gi_shape (Sh_poly90 pts)))"
| "geo_add_shape g (Gi_shape (Sh_poly45 pts)) =
     (if geo_mode g = POLY90 then Inl Invalid_argument else Inr (insert_item g (Gi_shape (Sh_poly45 pts))))"
| "geo_add_shape g (Gi_shape (Sh_poly pts)) =
     (if geo_mode g = POLY then Inr (insert_item g (Gi_shape (Sh_poly pts))) else Inl Invalid_argument)"
| "geo_add_shape g (Gi_set45 parts) =
     (if geo_mode g = POLY90 then Inl Invalid_argument else Inr (insert_item g (Gi_set45 parts)))"

record pin =
  pin_box :: box_t
  pin_net :: string
  pin_label :: string

record 'x label =
  lb_key :: layer_t
  lb_xform :: 'x
  lb_text :: string
  lb_height :: int

datatype boundary_type = Bnd_PR | Bnd_snap

record boundary =
  bd_type :: boundary_type
  bd_pts :: "point list"

datatype blockage_type =
  Blk_routing | Blk_via | Blk_placement | Blk_wiring | Blk_fill | Blk_slot | Blk_pin | Blk_feed_thru | Blk_screen

text \<open>
  The constructor of a blockage assigns the layer to its own parameter, which hides the field, so that
  the field is never initialised.
\<close>

record blockage =
  bl_type :: blockage_type
  bl_layer :: "lay_t option"
  bl_pts :: "point list"

definition make_blockage :: "blockage_type \<Rightarrow> lay_t \<Rightarrow> point list \<Rightarrow> blockage" where
  "make_blockage type layer pts =
     (let layer = (if type = Blk_placement then 0 else layer)
      in \<lparr>bl_type = type, bl_layer = None, bl_pts = pts\<rparr>)"

definition bl_get_layer :: "blockage \<Rightarrow> lay_t result" where
  "bl_get_layer b = (case bl_layer b of None \<Rightarrow> Inl Undefined_behaviour | Some l \<Rightarrow> Inr l)"

record 'x via_wrapper =
  vw_via :: "'x via"
  vw_add_layers :: bool

section \<open>Cellviews\<close>

text \<open>
  What the functions take from Boost.Polygon besides the functions on shapes: the polygons of a set of
  45-degree polygons, the extents of a geometry, and the polygons it decomposes into.
\<close>

record 'x lay_ops = "'x geo_ops" +
  lo_set45 :: "point list list \<Rightarrow> point list list"
  lo_extents :: "geometry \<Rightarrow> box_t option"
  lo_polygons :: "geometry \<Rightarrow> point list list"

record ('c, 'x) lay_cellview =
  lv_inst_name_cnt :: cnt_t
  lv_geo_mode :: geometry_mode
  lv_grid :: routing_grid
  lv_name :: string
  lv_index_list :: "'x geo_index list"
  lv_geo_map :: "(layer_t \<times> geometry) list"
  lv_inst_map :: "(string \<times> ('c, 'x) lay_instance) list"
  lv_pin_map :: "(lay_t \<times> pin list) list"
  lv_via_list :: "'x via list"
  lv_lay_block_map :: "(lay_t \<times> blockage list) list"
  lv_area_block_list :: "blockage list"
  lv_boundary_list :: "boundary list"
  lv_label_list :: "'x label list"

definition make_lay_cellview :: "routing_grid \<Rightarrow> string \<Rightarrow> geometry_mode \<Rightarrow> ('c, 'x) lay_cellview" where
  "make_lay_cellview grid name mode =
     \<lparr>lv_inst_name_cnt = 0, lv_geo_mode = mode, lv_grid = grid, lv_name = name,
      lv_index_list = replicate (rg_num_levels grid) [], lv_geo_map = [], lv_inst_map = [], lv_pin_map = [],
      lv_via_list = [], lv_lay_block_map = [], lv_area_block_list = [], lv_boundary_list = [], lv_label_list = []\<rparr>"

definition lv_tech :: "('c, 'x) lay_cellview \<Rightarrow> tech" where
  "lv_tech cv = rg_tech (lv_grid cv)"

definition lv_empty :: "('c, 'x) lay_cellview \<Rightarrow> bool" where
  "lv_empty cv \<longleftrightarrow> lv_geo_map cv = [] \<and> lv_inst_map cv = [] \<and> lv_via_list cv = [] \<and> lv_lay_block_map cv = [] \<and>
     lv_area_block_list cv = [] \<and> lv_boundary_list cv = [] \<and> lv_pin_map cv = []"

definition lv_set_geometry_mode :: "('c, 'x) lay_cellview \<Rightarrow> geometry_mode \<Rightarrow> ('c, 'x) lay_cellview outcome" where
  "lv_set_geometry_mode cv new_mode =
     (if \<not> lv_empty cv then (Some Runtime_error, cv) else (None, cv\<lparr>lv_geo_mode := new_mode\<rparr>))"

definition lv_find_geometry :: "('c, 'x) lay_cellview \<Rightarrow> layer_t \<Rightarrow> geometry option" where
  "lv_find_geometry cv key = map_of (lv_geo_map cv) key"

text \<open>The index of a level; the position in the list is not checked.\<close>

definition lv_get_geo_index :: "('c, 'x) lay_cellview \<Rightarrow> int \<Rightarrow> 'x geo_index result" where
  "lv_get_geo_index cv lev = nth_or_undefined (lv_index_list cv) (level_idx (lv_grid cv) lev)"

definition lv_set_geo_index :: "('c, 'x) lay_cellview \<Rightarrow> int \<Rightarrow> 'x geo_index \<Rightarrow> ('c, 'x) lay_cellview" where
  "lv_set_geo_index cv lev idx = cv\<lparr>lv_index_list := (lv_index_list cv)[level_idx (lv_grid cv) lev := idx]\<rparr>"

text \<open>An entry of an unordered map that is found, changed in place.\<close>

definition um_change :: "('k \<times> 'v) list \<Rightarrow> 'k \<Rightarrow> ('v \<Rightarrow> 'v) \<Rightarrow> ('k \<times> 'v) list" where
  "um_change m k f = map (\<lambda>(k', v). (k', if k' = k then f v else v)) m"

lemma map_of_um_change: "map_of (um_change m k f) k' = map_option (if k' = k then f else id) (map_of m k')"
  by (induction m) (auto simp: um_change_def)

subsection \<open>Instances\<close>

definition inst_cnt_name :: "cnt_t \<Rightarrow> string" where
  "inst_cnt_name n = ''X'' @ cnt_to_string n"

definition name_free :: "('c, 'x) lay_cellview \<Rightarrow> cnt_t \<Rightarrow> bool" where
  "name_free cv n \<longleftrightarrow> map_of (lv_inst_map cv) (inst_cnt_name n) = None"

text \<open>The value \<open>None\<close> says that the search for a free name does not end.\<close>

definition lv_add_inst :: "('c, 'x) lay_cellview \<Rightarrow> ('c, 'x) lay_instance \<Rightarrow> ('c, 'x) lay_cellview outcome option" where
  "lv_add_inst cv inst =
     (if li_name inst \<noteq> [] \<and> map_of (lv_inst_map cv) (li_name inst) = None
      then Some (None, cv\<lparr>lv_inst_map := um_emplace (lv_inst_map cv) (li_name inst) inst\<rparr>)
      else map_option (\<lambda>it.
          (case bi_marker it of
             None \<Rightarrow> (Some Undefined_behaviour, cv)
           | Some n \<Rightarrow> (None, cv\<lparr>lv_inst_name_cnt := n,
               lv_inst_map := um_emplace (lv_inst_map cv) (inst_cnt_name n) inst\<rparr>)))
        (bi_search (name_free cv) (bi_from (lv_inst_name_cnt cv))))"

text \<open>One level of an array of instances: the index of the parent and the moving transformation.\<close>

type_synonym 'x index_state = "'x geo_index \<times> 'x"

definition index_place ::
  "'x xform_ops \<Rightarrow> 'x lay_ops \<Rightarrow> 'x geo_index \<Rightarrow> int \<Rightarrow> 'x index_state \<Rightarrow> 'x index_state outcome" where
  "index_place T G inst_index spy st =
     (case gi_insert_inst (geo_ops.truncate G) (fst st) inst_index (snd st) of
        Inl e \<Rightarrow> (Some e, st)
      | Inr idx \<Rightarrow> (None, (idx, move_by T (snd st) 0 spy)))"

definition index_column ::
  "'x xform_ops \<Rightarrow> 'x lay_ops \<Rightarrow> 'x geo_index \<Rightarrow> ('c, 'x) lay_instance \<Rightarrow> 'x index_state \<Rightarrow> 'x index_state outcome" where
  "index_column T G inst_index inst st =
     (let tot_dy = offset_of_cnt (cnt_of_int (li_spy inst) * li_ny inst) in
      seqS (forS (\<lambda>iy. index_place T G inst_index (li_spy inst)) [0..<unat (li_ny inst)] st) (\<lambda>st.
        (None, (fst st, move_by T (move_by T (snd st) 0 (- tot_dy)) (li_spx inst) 0))))"

definition index_level ::
  "'x xform_ops \<Rightarrow> 'x lay_ops \<Rightarrow> 'x geo_index \<Rightarrow> ('c, 'x) lay_instance \<Rightarrow> 'x index_state \<Rightarrow> 'x index_state outcome" where
  "index_level T G inst_index inst st =
     (let tot_dx = offset_of_cnt (cnt_of_int (li_spx inst) * li_nx inst) in
      seqS (forS (\<lambda>ix. index_column T G inst_index inst) [0..<unat (li_nx inst)] st) (\<lambda>st.
        (None, (fst st, move_by T (snd st) (- tot_dx) 0))))"

definition index_instance ::
  "'x xform_ops \<Rightarrow> 'x lay_ops \<Rightarrow> ('c \<Rightarrow> int \<Rightarrow> 'x geo_index result) \<Rightarrow> 'c \<Rightarrow> ('c, 'x) lay_instance \<Rightarrow> int
     \<Rightarrow> ('c, 'x) lay_cellview \<times> 'x \<Rightarrow> (('c, 'x) lay_cellview \<times> 'x) outcome" where
  "index_instance T G master_index master inst lev st =
     tryS (lv_get_geo_index (fst st) lev) (\<lambda>idx st.
       tryS (master_index master lev) (\<lambda>inst_index st.
         (case index_level T G inst_index inst (idx, snd st) of
            (e, (idx', x)) \<Rightarrow> (e, (lv_set_geo_index (fst st) lev idx', x)))) st) st"

definition lv_add_instance ::
  "'x xform_ops \<Rightarrow> 'x lay_ops \<Rightarrow> ('c \<Rightarrow> int \<Rightarrow> 'x geo_index result) \<Rightarrow> ('c, 'x) lay_cellview
     \<Rightarrow> ('c, 'x) lay_instance \<Rightarrow> ('c, 'x) lay_cellview outcome option" where
  "lv_add_instance T G master_index cv inst =
     map_option (\<lambda>r. seqS r (\<lambda>cv.
       (case li_get_cellview inst of
          None \<Rightarrow> (None, cv)
        | Some master \<Rightarrow>
            (case forS (index_instance T G master_index master inst)
                [rg_bot_level (lv_grid cv)..rg_top_level (lv_grid cv)] (cv, li_xform inst) of
               (e, (cv', x)) \<Rightarrow> (e, cv')))))
     (lv_add_inst cv inst)"

subsection \<open>Shapes\<close>

definition lv_make_geometry :: "('c, 'x) lay_cellview \<Rightarrow> layer_t \<Rightarrow> ('c, 'x) lay_cellview" where
  "lv_make_geometry cv key =
     (case map_of (lv_geo_map cv) key of
        None \<Rightarrow> cv\<lparr>lv_geo_map := um_emplace (lv_geo_map cv) key (make_geometry (lv_geo_mode cv))\<rparr>
      | Some g \<Rightarrow> cv)"

definition geometry_at :: "('c, 'x) lay_cellview \<Rightarrow> layer_t \<Rightarrow> geometry" where
  "geometry_at cv key = (case map_of (lv_geo_map cv) key of None \<Rightarrow> make_geometry (lv_geo_mode cv) | Some g \<Rightarrow> g)"

definition lv_geo_insert :: "layer_t \<Rightarrow> geo_item \<Rightarrow> ('c, 'x) lay_cellview \<Rightarrow> ('c, 'x) lay_cellview outcome" where
  "lv_geo_insert key item cv =
     (let cv = lv_make_geometry cv key in
      tryS (geo_add_shape (geometry_at cv key) item) (\<lambda>g cv.
        (None, cv\<lparr>lv_geo_map := um_change (lv_geo_map cv) key (\<lambda>_. g)\<rparr>)) cv)"

fun get_margins :: "routing_grid \<Rightarrow> layer_t \<Rightarrow> int \<Rightarrow> shape \<Rightarrow> (int \<times> int) result" where
  "get_margins grid key lev (Sh_box b) = get_margins_box grid key lev b"
| "get_margins grid key lev (Sh_poly90 pts) = Inr (0, 0)"
| "get_margins grid key lev (Sh_poly45 pts) = Inr (0, 0)"
| "get_margins grid key lev (Sh_poly pts) = Inr (0, 0)"

definition lv_index_insert ::
  "'x lay_ops \<Rightarrow> layer_t \<Rightarrow> int \<Rightarrow> shape \<Rightarrow> ('c, 'x) lay_cellview \<Rightarrow> ('c, 'x) lay_cellview outcome" where
  "lv_index_insert G key lev s cv =
     tryS (lv_get_geo_index cv lev) (\<lambda>idx cv.
       tryS (get_margins (lv_grid cv) key lev s) (\<lambda>(spx, spy) cv.
         tryS (gi_insert (geo_ops.truncate G) idx s spx spy) (\<lambda>idx cv.
           (None, lv_set_geo_index cv lev idx)) cv) cv) cv"

text \<open>The polygons that a set is indexed by, or the shape itself.\<close>

fun item_shapes :: "'x lay_ops \<Rightarrow> geo_item \<Rightarrow> shape list" where
  "item_shapes G (Gi_shape s) = [s]"
| "item_shapes G (Gi_set45 parts) = map Sh_poly45 (lo_set45 G parts)"

definition lv_add_shape ::
  "'x lay_ops \<Rightarrow> layer_t \<Rightarrow> geo_item \<Rightarrow> ('c, 'x) lay_cellview \<Rightarrow> ('c, 'x) lay_cellview outcome" where
  "lv_add_shape G key item cv =
     seqS (lv_geo_insert key item cv) (\<lambda>cv.
       (case tech_get_level (lv_tech cv) key of
          None \<Rightarrow> (None, cv)
        | Some lev \<Rightarrow> tryS (lv_get_geo_index cv lev) (\<lambda>idx. forS (lv_index_insert G key lev) (item_shapes G item)) cv))"

definition lv_add_warr ::
  "'x lay_ops \<Rightarrow> track_id \<Rightarrow> int \<times> int \<Rightarrow> ('c, 'x) lay_cellview \<Rightarrow> ('c, 'x) lay_cellview outcome" where
  "lv_add_warr G tid coord cv =
     (let grid = lv_grid cv; lev = tid_level tid in
      tryS (lv_get_geo_index cv lev) (\<lambda>idx.
        tryS (rg_track_info_at grid lev) (\<lambda>tinfo.
          forS (\<lambda>(tr_idx, strip).
              tryS (warr_rect grid lev coord (tid_at tid tr_idx) strip) (\<lambda>(key, box) cv.
                seqS (lv_geo_insert key (Gi_shape (Sh_box box)) cv) (lv_index_insert G key lev (Sh_box box))))
            (List.product [0..<unat (tid_num tid)] (ti_wire_width tinfo (tid_ntr tid))))) cv)"

subsection \<open>Pins, labels, blockages, boundaries, vias\<close>

definition lv_add_pin :: "lay_t \<Rightarrow> string \<Rightarrow> string \<Rightarrow> box_t \<Rightarrow> ('c, 'x) lay_cellview \<Rightarrow> ('c, 'x) lay_cellview" where
  "lv_add_pin lay_id net lab bbox cv =
     cv\<lparr>lv_pin_map := um_change (um_emplace (lv_pin_map cv) lay_id []) lay_id
          (\<lambda>pins. pins @ [\<lparr>pin_box = bbox, pin_net = net, pin_label = lab\<rparr>])\<rparr>"

definition lv_add_label :: "layer_t \<Rightarrow> 'x \<Rightarrow> string \<Rightarrow> int \<Rightarrow> ('c, 'x) lay_cellview \<Rightarrow> ('c, 'x) lay_cellview" where
  "lv_add_label key xform lab height cv =
     cv\<lparr>lv_label_list := lv_label_list cv @ [\<lparr>lb_key = key, lb_xform = xform, lb_text = lab, lb_height = height\<rparr>]\<rparr>"

definition lv_add_blockage :: "blockage \<Rightarrow> ('c, 'x) lay_cellview \<Rightarrow> ('c, 'x) lay_cellview outcome" where
  "lv_add_blockage obj cv =
     (if bl_type obj = Blk_placement
      then (None, cv\<lparr>lv_area_block_list := lv_area_block_list cv @ [obj]\<rparr>)
      else tryS (bl_get_layer obj) (\<lambda>layer cv.
        (None, cv\<lparr>lv_lay_block_map := um_change (um_emplace (lv_lay_block_map cv) layer []) layer
           (\<lambda>bs. bs @ [obj])\<rparr>)) cv)"

definition lv_add_boundary :: "boundary \<Rightarrow> ('c, 'x) lay_cellview \<Rightarrow> ('c, 'x) lay_cellview" where
  "lv_add_boundary obj cv = cv\<lparr>lv_boundary_list := lv_boundary_list cv @ [obj]\<rparr>"

definition lv_add_via ::
  "'x lay_ops \<Rightarrow> 'x via_wrapper \<Rightarrow> ('c, 'x) lay_cellview \<Rightarrow> ('c, 'x) lay_cellview outcome" where
  "lv_add_via G obj cv =
     (let v = vw_via obj; cv = cv\<lparr>lv_via_list := lv_via_list cv @ [v]\<rparr> in
      if \<not> vw_add_layers obj then (None, cv)
      else tryS (tech_via_layer_purpose (lv_tech cv) (via_id v)) (\<lambda>(bot_key, unused, top_key) cv.
        seqS (lv_add_shape G bot_key (Gi_shape (Sh_box (get_bot_box (go_transform_box G) v))) cv)
          (lv_add_shape G top_key (Gi_shape (Sh_box (get_top_box (go_transform_box G) v))))) cv)"

end
