(* ===== verification/Lay_Cv_Props.thy ===== *)
theory Lay_Cv_Props
  imports Lay_Cellview
begin

text \<open>
  Properties of layout cellviews: the names of instances, and where arrays of instances are entered
  into the index of a level.
\<close>

section \<open>Names of instances\<close>

text \<open>
  C19.  An instance is added under the name it asks for if that is not empty and not in use.  Otherwise
  the search for a name ends, as soon as one of the counts that it reaches by doubling is free, and
  the instance gets the name of a free count, not below the last one: the last one itself, or a count
  whose predecessor is in use.  Nothing else is changed.
\<close>

theorem add_inst_gets_fresh_name:
  assumes "(next_count ^^ k) (unat (lv_inst_name_cnt cv)) < 2 ^ 63"
    and "name_free cv (of_nat ((next_count ^^ k) (unat (lv_inst_name_cnt cv))))"
  shows "\<exists>name cnt. map_of (lv_inst_map cv) name = None \<and>
    lv_add_inst cv inst =
      Some (None, cv\<lparr>lv_inst_name_cnt := cnt, lv_inst_map := lv_inst_map cv @ [(name, inst)]\<rparr>) \<and>
    (if li_name inst \<noteq> [] \<and> map_of (lv_inst_map cv) (li_name inst) = None
     then name = li_name inst \<and> cnt = lv_inst_name_cnt cv
     else name = inst_cnt_name cnt \<and> lv_inst_name_cnt cv \<le> cnt \<and>
       (cnt = lv_inst_name_cnt cv \<or> \<not> name_free cv (cnt - 1)))"
proof (cases "li_name inst \<noteq> [] \<and> map_of (lv_inst_map cv) (li_name inst) = None")
  case True
  then have "lv_add_inst cv inst = Some (None, cv\<lparr>lv_inst_name_cnt := lv_inst_name_cnt cv,
      lv_inst_map := lv_inst_map cv @ [(li_name inst, inst)]\<rparr>)"
    by (simp add: lv_add_inst_def um_emplace_def)
  with True show ?thesis by (intro exI [of _ "li_name inst"] exI [of _ "lv_inst_name_cnt cv"]) simp
next
  case False
  from bi_search_returns [where ok = "name_free cv", OF assms] obtain it n where it:
    "bi_search (name_free cv) (bi_from (lv_inst_name_cnt cv)) = Some it" "bi_marker it = Some n"
    "name_free cv n" "lv_inst_name_cnt cv \<le> n" "n = lv_inst_name_cnt cv \<or> \<not> name_free cv (n - 1)" by blast
  have "lv_add_inst cv inst = Some (None, cv\<lparr>lv_inst_name_cnt := n,
      lv_inst_map := lv_inst_map cv @ [(inst_cnt_name n, inst)]\<rparr>)"
    unfolding lv_add_inst_def if_not_P [OF False] it(1)
    using it(2,3) by (simp add: um_emplace_def name_free_def)
  with False it show ?thesis
    by (intro exI [of _ "inst_cnt_name n"] exI [of _ n]) (auto simp: name_free_def)
qed

text \<open>In a cellview with the instances X0, X1 and X2 an instance without a name becomes X3.\<close>

definition three_insts :: "(unit, unit) lay_cellview" where
  "three_insts =
     (let inst = make_cv_instance [] () () 1 1 0 0 in
      (make_lay_cellview undefined ''top'' POLY90)
        \<lparr>lv_inst_name_cnt := 2, lv_inst_map := [(''X0'', inst), (''X1'', inst), (''X2'', inst)]\<rparr>)"

theorem add_inst_gets_fresh_name_witness:
  "\<exists>name. map_of (lv_inst_map three_insts) name = None \<and>
     map_option (lv_inst_map \<circ> snd) (lv_add_inst three_insts (make_cv_instance [] () () 1 1 0 0)) =
       Some (lv_inst_map three_insts @ [(name, make_cv_instance [] () () 1 1 0 0)])"
proof -
  have cnt: "lv_inst_name_cnt three_insts = 2" by (simp add: three_insts_def Let_def)
  have "(next_count ^^ 1) (unat (lv_inst_name_cnt three_insts)) = 4" by (simp add: cnt next_count_def)
  moreover have "inst_cnt_name 4 = ''X4''" by code_simp
  then have "name_free three_insts (of_nat 4)" by (simp add: name_free_def three_insts_def Let_def)
  ultimately show ?thesis
    using add_inst_gets_fresh_name [of 1 three_insts "make_cv_instance [] () () 1 1 0 0"] by auto
qed

section \<open>Arrays of instances\<close>

lemma gi_insert_inst_eq:
  "idx' \<noteq> [] \<Longrightarrow> gi_insert_inst G idx idx' x = Inr res \<Longrightarrow>
   \<exists>b. res = idx @ [Geo_object (Gv_inst idx' x) 0 0 b]"
  by (auto simp: gi_insert_inst_def gi_empty_def make_geo_object_def result_simps)

text \<open>An object that places an index, with the orientation of a transformation, at a point.\<close>

definition placed_at :: "'x xform_ops \<Rightarrow> 'x geo_index \<Rightarrow> 'x \<Rightarrow> point \<Rightarrow> 'x geo_object \<Rightarrow> bool" where
  "placed_at T master x p obj \<longleftrightarrow>
     (\<exists>y b. obj = Geo_object (Gv_inst master y) 0 0 b \<and> xo_axis T y = xo_axis T x \<and> location T y = p)"

lemma placed_at_cong: "xo_axis T y = xo_axis T x \<Longrightarrow> placed_at T master y = placed_at T master x"
  by (intro ext) (simp add: placed_at_def)

lemma index_place_None:
  "index_place T G inst_index spy (idx, x) = (None, st) \<longleftrightarrow>
     (\<exists>idx'. gi_insert_inst (geo_ops.truncate G) idx inst_index x = Inr idx' \<and> st = (idx', move_by T x 0 spy))"
  by (auto simp: index_place_def split: sum.splits)

lemma index_row_places:
  assumes "xform_laws T" and "inst_index \<noteq> []"
    and "forS (\<lambda>iy. index_place T G inst_index spy) ns (idx, x) = (None, (idx', x'))"
  shows "\<exists>objs. idx' = idx @ objs \<and>
    list_all2 (placed_at T inst_index x) (map (\<lambda>j. add_pt (location T x) (0, int j * spy)) [0..<length ns]) objs \<and>
    xo_axis T x' = xo_axis T x \<and> location T x' = add_pt (location T x) (0, int (length ns) * spy)"
  using assms(3)
proof (induction ns arbitrary: idx x)
  case Nil
  then show ?case by (simp add: add_pt_def)
next
  case (Cons n ns)
  then obtain idx1 where ins: "gi_insert_inst (geo_ops.truncate G) idx inst_index x = Inr idx1"
    and rest: "forS (\<lambda>iy. index_place T G inst_index spy) ns (idx1, move_by T x 0 spy) = (None, (idx', x'))"
    unfolding forS.simps seqS_eq_None index_place_None by blast
  obtain b where idx1: "idx1 = idx @ [Geo_object (Gv_inst inst_index x) 0 0 b]"
    using gi_insert_inst_eq [OF assms(2) ins] by blast
  note mv = move_by_spec [OF assms(1), of x 0 spy]
  have shift: "add_pt (location T (move_by T x 0 spy)) (0, int j * spy) = add_pt (location T x) (0, int (Suc j) * spy)" for j
    by (simp add: mv add_pt_def algebra_simps)
  from Cons.IH [OF rest] obtain objs where objs: "idx' = idx1 @ objs"
    "list_all2 (placed_at T inst_index x)
      (map (\<lambda>j. add_pt (location T x) (0, int (Suc j) * spy)) [0..<length ns]) objs"
    "xo_axis T x' = xo_axis T x" "location T x' = add_pt (location T x) (0, int (Suc (length ns)) * spy)"
    unfolding shift placed_at_cong [OF mv(1)] mv(1) by blast
  have "placed_at T inst_index x (add_pt (location T x) (0, int 0 * spy)) (Geo_object (Gv_inst inst_index x) 0 0 b)"
    by (simp add: placed_at_def add_pt_def)
  with objs idx1 show ?case
    by (intro exI [of _ "Geo_object (Gv_inst inst_index x) 0 0 b # objs"]) (simp add: map_upt_Suc del: upt_Suc)
qed

lemma offset_of_total:
  assumes "- (2 ^ 31) \<le> sp * int (unat n)" and "sp * int (unat n) < 2 ^ 31"
  shows "offset_of_cnt (cnt_of_int sp * n) = sp * int (unat n)"
proof -
  have "cnt_of_int sp * n = cnt_of_int (sp * int (unat n))" by (simp add: cnt_of_int_def)
  with offset_of_small [OF assms] show ?thesis by simp
qed

lemma index_column_places:
  assumes "xform_laws T" and "inst_index \<noteq> []"
    and "- (2 ^ 31) \<le> li_spy inst * int (unat (li_ny inst))" and "li_spy inst * int (unat (li_ny inst)) < 2 ^ 31"
    and "index_column T G inst_index inst (idx, x) = (None, (idx', x'))"
  shows "\<exists>objs. idx' = idx @ objs \<and>
    list_all2 (placed_at T inst_index x)
      (map (\<lambda>j. add_pt (location T x) (0, int j * li_spy inst)) [0..<unat (li_ny inst)]) objs \<and>
    xo_axis T x' = xo_axis T x \<and> location T x' = add_pt (location T x) (li_spx inst, 0)"
proof -
  obtain x1 where row: "forS (\<lambda>iy. index_place T G inst_index (li_spy inst)) [0..<unat (li_ny inst)] (idx, x) = (None, (idx', x1))"
    and x': "x' = move_by T (move_by T x1 0 (- (li_spy inst * int (unat (li_ny inst))))) (li_spx inst) 0"
    using assms(5) unfolding index_column_def Let_def seqS_eq_None offset_of_total [OF assms(3,4)] by auto
  show ?thesis
    using index_row_places [OF assms(1,2) row] by (auto simp: x' move_by_spec [OF assms(1)] add_pt_def)
qed

lemma index_columns_place:
  assumes "xform_laws T" and "inst_index \<noteq> []"
    and "- (2 ^ 31) \<le> li_spy inst * int (unat (li_ny inst))" and "li_spy inst * int (unat (li_ny inst)) < 2 ^ 31"
    and "forS (\<lambda>ix. index_column T G inst_index inst) ns (idx, x) = (None, (idx', x'))"
  shows "\<exists>objs. idx' = idx @ objs \<and>
    list_all2 (placed_at T inst_index x)
      (concat (map (\<lambda>i. map (\<lambda>j. add_pt (location T x) (int i * li_spx inst, int j * li_spy inst)) [0..<unat (li_ny inst)])
        [0..<length ns])) objs \<and>
    xo_axis T x' = xo_axis T x \<and> location T x' = add_pt (location T x) (int (length ns) * li_spx inst, 0)"
  using assms(5)
proof (induction ns arbitrary: idx x)
  case Nil
  then show ?case by (simp add: add_pt_def)
next
  case (Cons n ns)
  then obtain idx1 x1 where col: "index_column T G inst_index inst (idx, x) = (None, (idx1, x1))"
    and rest: "forS (\<lambda>ix. index_column T G inst_index inst) ns (idx1, x1) = (None, (idx', x'))"
    unfolding forS.simps seqS_eq_None by auto
  from index_column_places [OF assms(1-4) col] obtain first where first: "idx1 = idx @ first"
    "list_all2 (placed_at T inst_index x)
      (map (\<lambda>j. add_pt (location T x) (0, int j * li_spy inst)) [0..<unat (li_ny inst)]) first"
    and x1: "xo_axis T x1 = xo_axis T x" "location T x1 = add_pt (location T x) (li_spx inst, 0)" by blast
  have shift: "add_pt (location T x1) (int i * li_spx inst, y) = add_pt (location T x) (int (Suc i) * li_spx inst, y)" for i y
    by (simp add: x1 add_pt_def algebra_simps)
  from Cons.IH [OF rest] obtain objs where objs: "idx' = idx1 @ objs"
    "list_all2 (placed_at T inst_index x)
      (concat (map (\<lambda>i. map (\<lambda>j. add_pt (location T x) (int (Suc i) * li_spx inst, int j * li_spy inst))
        [0..<unat (li_ny inst)]) [0..<length ns])) objs"
    "xo_axis T x' = xo_axis T x" "location T x' = add_pt (location T x) (int (Suc (length ns)) * li_spx inst, 0)"
    unfolding shift placed_at_cong [OF x1(1)] x1(1) by blast
  with first show ?case
    by (intro exI [of _ "first @ objs"]) (simp add: map_upt_Suc list_all2_appendI del: upt_Suc)
qed

text \<open>
  C34.  On each level an array of instances enters the index of its master once for every column and row,
  at the location of the instance shifted by the spacings, with the orientation of the instance.
  Afterwards the transformation is back where it was, so that the next level starts from there again.
\<close>

theorem array_index_places:
  assumes "xform_laws T" and "inst_index \<noteq> []"
    and "- (2 ^ 31) \<le> li_spx inst * int (unat (li_nx inst))" and "li_spx inst * int (unat (li_nx inst)) < 2 ^ 31"
    and "- (2 ^ 31) \<le> li_spy inst * int (unat (li_ny inst))" and "li_spy inst * int (unat (li_ny inst)) < 2 ^ 31"
    and "index_level T G inst_index inst (idx, x) = (None, (idx', x'))"
  shows "\<exists>objs. idx' = idx @ objs \<and>
    list_all2 (placed_at T inst_index x)
      (concat (map (\<lambda>i. map (\<lambda>j. add_pt (location T x) (int i * li_spx inst, int j * li_spy inst)) [0..<unat (li_ny inst)])
        [0..<unat (li_nx inst)])) objs \<and>
    xo_axis T x' = xo_axis T x \<and> location T x' = location T x"
proof -
  obtain x1 where cols: "forS (\<lambda>ix. index_column T G inst_index inst) [0..<unat (li_nx inst)] (idx, x) = (None, (idx', x1))"
    and x': "x' = move_by T x1 (- (li_spx inst * int (unat (li_nx inst)))) 0"
    using assms(7) unfolding index_level_def Let_def seqS_eq_None offset_of_total [OF assms(3,4)] by auto
  show ?thesis
    using index_columns_place [OF assms(1,2,5,6) cols] by (auto simp: x' move_by_spec [OF assms(1)] add_pt_def)
qed

text \<open>An array of two columns and one row, whose master has one box on the level.\<close>

definition box_ops :: "(orientation \<times> point) lay_ops" where
  "box_ops = \<lparr>go_transform_box = (\<lambda>b x. let p = xo_transform pair_ops x (box_xl b, box_yl b);
       q = xo_transform pair_ops x (box_xh b, box_yh b)
       in make_box (min (fst p) (fst q)) (min (snd p) (snd q)) (max (fst p) (fst q)) (max (snd p) (snd q))),
     go_transform_pts = (\<lambda>pts x. map (xo_transform pair_ops x) pts), go_extents = (\<lambda>pts. None),
     go_meets = (\<lambda>s b. True), lo_set45 = (\<lambda>parts. parts), lo_extents = (\<lambda>g. None), lo_polygons = (\<lambda>g. [])\<rparr>"

theorem array_index_places_witness:
  "(let master = [Geo_object (Gv_shape (Sh_box (make_box 0 0 10 10))) 0 0 (make_box 0 0 10 10)];
        inst = make_cv_instance ''I0'' () (OR0, (-3, -5)) 2 1 100 50;
        st = snd (index_level pair_ops box_ops master inst ([], li_xform inst))
    in length (fst st) = 2 \<and> location pair_ops (snd st) = (3, 5))"
proof -
  let ?master = "[Geo_object (Gv_shape (Sh_box (make_box 0 0 10 10))) 0 0 (make_box 0 0 10 10)] :: (orientation \<times> point) geo_index"
  let ?inst = "make_cv_instance ''I0'' () (OR0, (-3, -5)) 2 1 100 50"
  let ?st = "snd (index_level pair_ops box_ops ?master ?inst ([], li_xform ?inst))"
  have "fst (index_level pair_ops box_ops ?master ?inst ([], li_xform ?inst)) = None" by code_simp
  then have run: "index_level pair_ops box_ops ?master ?inst ([], li_xform ?inst) = (None, (fst ?st, snd ?st))"
    by (metis prod.collapse)
  have inst: "li_spx ?inst = 100" "li_spy ?inst = 50" "unat (li_nx ?inst) = 2" "unat (li_ny ?inst) = 1"
    by (simp_all add: make_cv_instance_def)
  have loc: "location pair_ops (li_xform ?inst) = (3, 5)"
    by (simp add: make_cv_instance_def location_def pair_ops_def add_pt_def neg_pt_def)
  from array_index_places [OF pair_ops_laws _ _ _ _ _ run]
  show ?thesis unfolding inst loc Let_def by (auto dest: list_all2_lengthD)
qed

end
