(* ===== verification/Lay_Util.thy ===== *)
theory Lay_Util
  imports Lay_Cellview
begin

text \<open>
  What users of layout cellviews call: \<^verbatim>\<open>src/cbag/layout/cellview_util.cpp\<close>, \<^verbatim>\<open>cellview_poly.cpp\<close>,
  \<^verbatim>\<open>include/cbag/layout/cellview_poly.h\<close> and \<^verbatim>\<open>cv_obj_ref.h\<close>.  An operation that looks for vias may not
  end, as the search does not always end: its outcome is an option.
\<close>

section \<open>Operations that may not end\<close>

definition seqO :: "'s outcome option \<Rightarrow> ('s \<Rightarrow> 's outcome option) \<Rightarrow> 's outcome option" where
  "seqO m f = (case m of None \<Rightarrow> None | Some (None, s) \<Rightarrow> f s | Some (Some e, s) \<Rightarrow> Some (Some e, s))"

definition tryO :: "'a result \<Rightarrow> ('a \<Rightarrow> 's \<Rightarrow> 's outcome option) \<Rightarrow> 's \<Rightarrow> 's outcome option" where
  "tryO r f s = (case r of Inl e \<Rightarrow> Some (Some e, s) | Inr x \<Rightarrow> f x s)"

fun forO :: "('a \<Rightarrow> 's \<Rightarrow> 's outcome option) \<Rightarrow> 'a list \<Rightarrow> 's \<Rightarrow> 's outcome option" where
  "forO f [] s = Some (None, s)"
| "forO f (x # xs) s = seqO (f x s) (forO f xs)"

text \<open>A step on the first component of a state.\<close>

definition on_fst :: "('s \<Rightarrow> 's outcome) \<Rightarrow> 's \<times> 'a \<Rightarrow> ('s \<times> 'a) outcome" where
  "on_fst f st = (case f (fst st) of (e, s) \<Rightarrow> (e, (s, snd st)))"

lemma seqO_eq_None: "seqO m f = Some (None, s) \<longleftrightarrow> (\<exists>t. m = Some (None, t) \<and> f t = Some (None, s))"
  by (auto simp: seqO_def split: option.splits)

lemma tryO_eq_None: "tryO r f s = Some (None, t) \<longleftrightarrow> (\<exists>x. r = Inr x \<and> f x s = Some (None, t))"
  by (auto simp: tryO_def split: sum.splits)

lemma seqO_simps [simp]:
  "seqO (Some (None, s)) f = f s" "seqO (Some (Some e, s)) f = Some (Some e, s)" "seqO None f = None"
  by (simp_all add: seqO_def)

lemma tryO_simps [simp]: "tryO (Inr x) f s = f x s" "tryO (Inl e) f s = Some (Some e, s)"
  by (simp_all add: tryO_def)

lemma forO_invariant:
  assumes "forO f xs s = Some (None, t)" and "P s"
    and "\<And>x s s'. x \<in> set xs \<Longrightarrow> P s \<Longrightarrow> f x s = Some (None, s') \<Longrightarrow> P s'"
  shows "P t"
  using assms
proof (induction xs arbitrary: s)
  case (Cons x xs)
  then obtain s' where "f x s = Some (None, s')" and rest: "forO f xs s' = Some (None, t)"
    by (auto simp: seqO_eq_None)
  with Cons.prems have "P s'" by auto
  with rest show ?case using Cons.prems(3) by (intro Cons.IH) auto
qed simp

section \<open>Objects that are added now or later\<close>

text \<open>
  The parent of a reference is a shared pointer to the cellview, which is the state here: the reference
  says whether it is set.  A shape may be committed again, any other object only once.
\<close>

record 'o cv_obj_ref =
  or_parent :: bool
  or_obj :: 'o

definition or_editable :: "'o cv_obj_ref \<Rightarrow> bool" where
  "or_editable r = or_parent r"

definition or_commit :: "('o \<Rightarrow> 's \<Rightarrow> 's outcome option) \<Rightarrow> 'o cv_obj_ref \<Rightarrow> 's \<Rightarrow> ('s \<times> 'o cv_obj_ref) outcome option" where
  "or_commit add_obj r cv =
     (if or_editable r
      then map_option (\<lambda>(e, cv'). (e, (cv', if e = None then r\<lparr>or_parent := False\<rparr> else r))) (add_obj (or_obj r) cv)
      else Some (None, (cv, r)))"

definition make_obj_ref :: "('o \<Rightarrow> 's \<Rightarrow> 's outcome option) \<Rightarrow> 'o \<Rightarrow> bool \<Rightarrow> 's \<Rightarrow> ('s \<times> 'o cv_obj_ref) outcome option" where
  "make_obj_ref add_obj obj commit cv =
     (let r = \<lparr>or_parent = True, or_obj = obj\<rparr> in if commit then or_commit add_obj r cv else Some (None, (cv, r)))"

record shape_ref =
  sr_parent :: bool
  sr_key :: layer_t
  sr_obj :: geo_item

definition sr_commit :: "'x lay_ops \<Rightarrow> shape_ref \<Rightarrow> ('c, 'x) lay_cellview \<Rightarrow> ('c, 'x) lay_cellview outcome" where
  "sr_commit G r cv = (if sr_parent r then lv_add_shape G (sr_key r) (sr_obj r) cv else (None, cv))"

definition make_shape_ref ::
  "'x lay_ops \<Rightarrow> layer_t \<Rightarrow> geo_item \<Rightarrow> bool \<Rightarrow> ('c, 'x) lay_cellview \<Rightarrow> (('c, 'x) lay_cellview \<times> shape_ref) outcome" where
  "make_shape_ref G key obj add_now cv =
     (let r = \<lparr>sr_parent = True, sr_key = key, sr_obj = obj\<rparr> in
      if add_now then (case sr_commit G r cv of (e, cv') \<Rightarrow> (e, (cv', r))) else (None, (cv, r)))"

text \<open>An exception before the reference exists leaves no reference.\<close>

definition withR :: "'a result \<Rightarrow> ('a \<Rightarrow> 's \<Rightarrow> ('s \<times> 'r) outcome) \<Rightarrow> 's \<Rightarrow> ('s \<times> 'r option) outcome" where
  "withR r f s = (case r of Inl e \<Rightarrow> (Some e, (s, None)) | Inr x \<Rightarrow> (case f x s of (e, (s', y)) \<Rightarrow> (e, (s', Some y))))"

section \<open>Shapes\<close>

definition lu_add_polygon ::
  "'x lay_ops \<Rightarrow> ('c, 'x) lay_cellview \<Rightarrow> string \<Rightarrow> string \<Rightarrow> geo_item \<Rightarrow> bool
     \<Rightarrow> (('c, 'x) lay_cellview \<times> shape_ref option) outcome" where
  "lu_add_polygon G cv layer purpose poly commit =
     withR (tech_layer_t_at (lv_tech cv) layer purpose) (\<lambda>key. make_shape_ref G key poly commit) cv"

definition lu_add_rect ::
  "'x lay_ops \<Rightarrow> ('c, 'x) lay_cellview \<Rightarrow> string \<Rightarrow> string \<Rightarrow> box_t \<Rightarrow> bool
     \<Rightarrow> (('c, 'x) lay_cellview \<times> shape_ref option) outcome" where
  "lu_add_rect G cv layer purpose bbox commit =
     withR (tech_layer_t_at (lv_tech cv) layer purpose) (\<lambda>key. make_shape_ref G key (Gi_shape (Sh_box bbox)) commit) cv"

definition lu_add_poly90 ::
  "'x lay_ops \<Rightarrow> ('c, 'x) lay_cellview \<Rightarrow> string \<Rightarrow> string \<Rightarrow> point list \<Rightarrow> bool
     \<Rightarrow> (('c, 'x) lay_cellview \<times> shape_ref option) outcome" where
  "lu_add_poly90 G cv layer purpose pts commit = lu_add_polygon G cv layer purpose (Gi_shape (Sh_poly90 pts)) commit"

definition lu_add_poly45 ::
  "'x lay_ops \<Rightarrow> ('c, 'x) lay_cellview \<Rightarrow> string \<Rightarrow> string \<Rightarrow> point list \<Rightarrow> bool
     \<Rightarrow> (('c, 'x) lay_cellview \<times> shape_ref option) outcome" where
  "lu_add_poly45 G cv layer purpose pts commit = lu_add_polygon G cv layer purpose (Gi_shape (Sh_poly45 pts)) commit"

definition lu_add_poly ::
  "'x lay_ops \<Rightarrow> ('c, 'x) lay_cellview \<Rightarrow> string \<Rightarrow> string \<Rightarrow> point list \<Rightarrow> bool
     \<Rightarrow> (('c, 'x) lay_cellview \<times> shape_ref option) outcome" where
  "lu_add_poly G cv layer purpose pts commit = lu_add_polygon G cv layer purpose (Gi_shape (Sh_poly pts)) commit"

text \<open>The whole height of a column is an unsigned number that is cut to 32 bits when it is negated.\<close>

definition rect_column ::
  "'x lay_ops \<Rightarrow> layer_t \<Rightarrow> cnt_t \<times> cnt_t \<Rightarrow> int \<times> int \<Rightarrow> ('c, 'x) lay_cellview \<times> box_t
     \<Rightarrow> (('c, 'x) lay_cellview \<times> box_t) outcome" where
  "rect_column G key num sp st =
     (let tot_dy = snd num * cnt_of_int (snd sp) in
      seqS (forS (\<lambda>yidx st. seqS (on_fst (lv_add_shape G key (Gi_shape (Sh_box (snd st)))) st)
             (\<lambda>st. (None, (fst st, box_move_by (snd st) 0 (snd sp))))) [0..<unat (snd num)] st)
        (\<lambda>st. (None, (fst st, box_move_by (box_move_by (snd st) 0 (offset_of_cnt (- tot_dy))) (fst sp) 0))))"

definition add_rect_arr ::
  "'x lay_ops \<Rightarrow> layer_t \<Rightarrow> box_t \<Rightarrow> cnt_t \<times> cnt_t \<Rightarrow> int \<times> int \<Rightarrow> ('c, 'x) lay_cellview \<Rightarrow> ('c, 'x) lay_cellview outcome" where
  "add_rect_arr G key box num sp cv =
     (case forS (\<lambda>xidx. rect_column G key num sp) [0..<unat (fst num)] (cv, box) of (e, st) \<Rightarrow> (e, fst st))"

definition lu_add_rect_arr ::
  "'x lay_ops \<Rightarrow> ('c, 'x) lay_cellview \<Rightarrow> string \<Rightarrow> string \<Rightarrow> box_t \<Rightarrow> cnt_t \<Rightarrow> cnt_t \<Rightarrow> int \<Rightarrow> int
     \<Rightarrow> ('c, 'x) lay_cellview outcome" where
  "lu_add_rect_arr G cv layer purpose box nx ny spx spy =
     tryS (tech_layer_t_at (lv_tech cv) layer purpose) (\<lambda>key. add_rect_arr G key box (nx, ny) (spx, spy)) cv"

definition lu_add_warr :: "'x lay_ops \<Rightarrow> wire_array \<Rightarrow> ('c, 'x) lay_cellview \<Rightarrow> ('c, 'x) lay_cellview outcome" where
  "lu_add_warr G warr cv = lv_add_warr G (wa_tid warr) (wa_coord warr) cv"

section \<open>Blockages, boundaries, instances, labels, pins\<close>

definition retO :: "('o \<Rightarrow> 's \<Rightarrow> 's outcome) \<Rightarrow> 'o \<Rightarrow> 's \<Rightarrow> 's outcome option" where
  "retO f obj s = Some (f obj s)"

text \<open>A layer that does not exist becomes layer 0.\<close>

definition lu_add_blockage ::
  "('c, 'x) lay_cellview \<Rightarrow> string \<Rightarrow> blockage_type \<Rightarrow> point list \<Rightarrow> bool
     \<Rightarrow> (('c, 'x) lay_cellview \<times> blockage cv_obj_ref) outcome option" where
  "lu_add_blockage cv layer blk_type pts commit =
     (let lay_id = (case tech_get_layer_id (lv_tech cv) layer of None \<Rightarrow> 0 | Some l \<Rightarrow> l)
      in make_obj_ref (retO lv_add_blockage) (make_blockage blk_type lay_id pts) commit cv)"

definition lu_add_boundary ::
  "('c, 'x) lay_cellview \<Rightarrow> boundary_type \<Rightarrow> point list \<Rightarrow> bool
     \<Rightarrow> (('c, 'x) lay_cellview \<times> boundary cv_obj_ref) outcome option" where
  "lu_add_boundary cv bnd_type pts commit =
     make_obj_ref (retO (\<lambda>obj cv. (None, lv_add_boundary obj cv))) \<lparr>bd_type = bnd_type, bd_pts = pts\<rparr> commit cv"

definition lu_add_prim_instance ::
  "'x xform_ops \<Rightarrow> 'x lay_ops \<Rightarrow> ('c \<Rightarrow> int \<Rightarrow> 'x geo_index result) \<Rightarrow> ('c, 'x) lay_cellview \<Rightarrow> string \<Rightarrow> string
     \<Rightarrow> string \<Rightarrow> string \<Rightarrow> 'x \<Rightarrow> cnt_t \<Rightarrow> cnt_t \<Rightarrow> int \<Rightarrow> int \<Rightarrow> bool
     \<Rightarrow> (('c, 'x) lay_cellview \<times> ('c, 'x) lay_instance cv_obj_ref) outcome option" where
  "lu_add_prim_instance T G master_index cv lib cell view name xform nx ny spx spy commit =
     make_obj_ref (\<lambda>obj cv. lv_add_instance T G master_index cv obj)
       (make_ref_instance name lib cell view xform nx ny spx spy) commit cv"

definition lu_add_instance ::
  "'x xform_ops \<Rightarrow> 'x lay_ops \<Rightarrow> ('c \<Rightarrow> int \<Rightarrow> 'x geo_index result) \<Rightarrow> ('c, 'x) lay_cellview \<Rightarrow> 'c
     \<Rightarrow> string \<Rightarrow> 'x \<Rightarrow> cnt_t \<Rightarrow> cnt_t \<Rightarrow> int \<Rightarrow> int \<Rightarrow> bool
     \<Rightarrow> (('c, 'x) lay_cellview \<times> ('c, 'x) lay_instance cv_obj_ref) outcome option" where
  "lu_add_instance T G master_index cv master name xform nx ny spx spy commit =
     make_obj_ref (\<lambda>obj cv. lv_add_instance T G master_index cv obj)
       (make_cv_instance name master xform nx ny spx spy) commit cv"

definition lu_add_label ::
  "string \<Rightarrow> string \<Rightarrow> 'x \<Rightarrow> string \<Rightarrow> int \<Rightarrow> ('c, 'x) lay_cellview \<Rightarrow> ('c, 'x) lay_cellview outcome" where
  "lu_add_label layer purpose xform lab text_h cv =
     tryS (tech_layer_t_at (lv_tech cv) layer purpose) (\<lambda>key cv. (None, lv_add_label key xform lab text_h cv)) cv"

definition lu_add_pin ::
  "string \<Rightarrow> string \<Rightarrow> string \<Rightarrow> box_t \<Rightarrow> ('c, 'x) lay_cellview \<Rightarrow> ('c, 'x) lay_cellview outcome" where
  "lu_add_pin layer net lab bbox cv =
     tryS (tech_layer_id_at (lv_tech cv) layer) (\<lambda>lay_id cv. (None, lv_add_pin lay_id net lab bbox cv)) cv"

text \<open>
  The pins of a wire array.  From one track to the next the half-track index grows by the pitch of the
  array times that of the tracks, which is a length.
\<close>

definition pin_track ::
  "string \<Rightarrow> string \<Rightarrow> int \<Rightarrow> int \<times> int \<Rightarrow> track_info \<Rightarrow> wire_width \<Rightarrow> int
     \<Rightarrow> ('c, 'x) lay_cellview \<Rightarrow> ('c, 'x) lay_cellview outcome" where
  "pin_track net lab level coord tinfo winfo cur_htr cv =
     tryS (rg_get_layer_t (lv_grid cv) level cur_htr) (\<lambda>key cv.
       (None, foldl (\<lambda>cv (rel_htr, wire_w).
          let half_w = wire_w sdiv 2; center = htr_to_coord tinfo (cur_htr + rel_htr)
          in lv_add_pin (fst key) net lab
               (make_box_orient (ti_dir tinfo) (fst coord) (snd coord) (center - half_w) (center + half_w)) cv) cv winfo)) cv"

definition add_pin_arr ::
  "string \<Rightarrow> string \<Rightarrow> wire_array \<Rightarrow> ('c, 'x) lay_cellview \<Rightarrow> ('c, 'x) lay_cellview outcome" where
  "add_pin_arr net lab warr cv =
     (let tid = wa_tid warr; level = tid_level tid in
      tryS (rg_track_info_at (lv_grid cv) level) (\<lambda>tinfo cv.
        let winfo = ti_wire_width tinfo (tid_ntr tid);
            htr_pitch = (tid_pitch tid * ti_pitch tinfo) sdiv 2
        in forS (\<lambda>idx. pin_track net lab level (wa_coord warr) tinfo winfo (tid_htr tid + int idx * htr_pitch))
             [0..<unat (tid_num tid)] cv) cv)"

section \<open>Bounding boxes\<close>

definition geo_get_bbox :: "'x lay_ops \<Rightarrow> geometry \<Rightarrow> box_t" where
  "geo_get_bbox G g = (case lo_extents G g of None \<Rightarrow> invalid_box | Some b \<Rightarrow> b)"

text \<open>\<^verbatim>\<open>bp::encompass\<close> is \<open>encompass\<close>, and the boxes of the masters are \<open>cv_bbox\<close>.\<close>

definition lu_get_bbox ::
  "(box_t \<Rightarrow> box_t \<Rightarrow> box_t) \<Rightarrow> 'x lay_ops \<Rightarrow> ('c \<Rightarrow> string \<Rightarrow> string \<Rightarrow> box_t) \<Rightarrow> ('c, 'x) lay_cellview
     \<Rightarrow> string \<Rightarrow> string \<Rightarrow> box_t result" where
  "lu_get_bbox encompass G cv_bbox cv layer purpose =
     bindR (tech_layer_t_at (lv_tech cv) layer purpose) (\<lambda>key.
       let ans = (case lv_find_geometry cv key of
                    None \<Rightarrow> invalid_box
                  | Some g \<Rightarrow> box_merge encompass invalid_box (geo_get_bbox G g))
       in Inr (foldl (\<lambda>ans (name, inst).
                 box_merge encompass ans (li_get_bbox (go_transform_box G) cv_bbox inst layer purpose))
               ans (lv_inst_map cv)))"

end
