(* ===== verification/Lay_Connect.thy ===== *)
theory Lay_Connect
  imports Lay_Util
begin

text \<open>
  Vias in layout cellviews and the connection of wires to tracks:
  \<^verbatim>\<open>src/cbag/layout/cellview_util.cpp\<close>, from \<^verbatim>\<open>add_via\<close> to \<^verbatim>\<open>connect_warr_track\<close>.
\<close>

section \<open>Vias\<close>

definition lu_add_via ::
  "'x lay_ops \<Rightarrow> ('c, 'x) lay_cellview \<Rightarrow> 'x \<Rightarrow> string \<Rightarrow> via_param \<Rightarrow> bool \<Rightarrow> bool
     \<Rightarrow> (('c, 'x) lay_cellview \<times> 'x via_wrapper cv_obj_ref) outcome option" where
  "lu_add_via G cv xform name params add_layers commit =
     make_obj_ref (retO (lv_add_via G)) \<lparr>vw_via = make_via xform name params, vw_add_layers = add_layers\<rparr> commit cv"

definition add_via_arr ::
  "'x xform_ops \<Rightarrow> 'x lay_ops \<Rightarrow> 'x \<Rightarrow> string \<Rightarrow> via_param \<Rightarrow> bool \<Rightarrow> cnt_t \<times> cnt_t \<Rightarrow> int \<times> int
     \<Rightarrow> ('c, 'x) lay_cellview \<Rightarrow> ('c, 'x) lay_cellview outcome" where
  "add_via_arr T G xform name params add_layers num sp =
     forS (\<lambda>xidx. forS (\<lambda>yidx. lv_add_via G
         \<lparr>vw_via = make_via (move_by T xform (int xidx * fst sp) (int yidx * snd sp)) name params,
          vw_add_layers = add_layers\<rparr>) [0..<unat (snd num)]) [0..<unat (fst num)]"

section \<open>Vias where two track arrays cross\<close>

text \<open>A pair of intervals, one for each of the two levels.\<close>

type_synonym spans = "(int \<times> int) \<times> (int \<times> int)"

definition no_span :: "int \<times> int" where
  "no_span = (2 ^ 31 - 1, - (2 ^ 31))"

definition span_add :: "int \<times> int \<Rightarrow> int \<times> int \<Rightarrow> int \<times> int" where
  "span_add s t = (min (fst s) (fst t), max (snd s) (snd t))"

definition boxes_cross :: "orient_2d \<Rightarrow> orient_2d \<Rightarrow> box_t \<Rightarrow> box_t \<Rightarrow> bool" where
  "boxes_cross dir0 dir1 box0 box1 \<longleftrightarrow>
     (let via_box = box_intersect box0 box1 in
      box_dim via_box dir0 = box_dim box1 dir0 \<and> box_dim via_box dir1 = box_dim box0 dir1)"

definition box_vec :: "box_t \<Rightarrow> vec_t" where
  "box_vec b = (box_dim b Horizontal, box_dim b Vertical)"

text \<open>The metal of a via on the two wires, along each of them.\<close>

definition via_spans :: "via_param \<Rightarrow> box_t \<Rightarrow> orient_2d \<Rightarrow> orient_2d \<Rightarrow> spans" where
  "via_spans p via_box dir0 dir1 =
     (let via_ext = vp_via_extensions p (box_vec via_box) LOWER dir0 dir1
      in ((box_lower via_box dir0 - fst via_ext, box_upper via_box dir0 + fst via_ext),
          (box_lower via_box dir1 - snd via_ext, box_upper via_box dir1 + snd via_ext)))"

definition spans_inside :: "spans \<Rightarrow> orient_2d \<Rightarrow> orient_2d \<Rightarrow> box_t \<Rightarrow> box_t \<Rightarrow> bool" where
  "spans_inside s dir0 dir1 box0 box1 \<longleftrightarrow>
     box_lower box0 dir0 \<le> fst (fst s) \<and> box_upper box0 dir0 \<ge> snd (fst s) \<and>
     box_lower box1 dir1 \<le> fst (snd s) \<and> box_upper box1 dir1 \<ge> snd (snd s)"

definition cross_via :: "'x xform_ops \<Rightarrow> box_t \<Rightarrow> string \<Rightarrow> via_param \<Rightarrow> 'x via_wrapper" where
  "cross_via T via_box name p =
     \<lparr>vw_via = make_via (make_xform T (box_xm via_box) (box_ym via_box) OR0) name p, vw_add_layers = False\<rparr>"

text \<open>One rectangle of the lower array and one of the upper array.\<close>

definition cross_step ::
  "'x xform_ops \<Rightarrow> 'x lay_ops \<Rightarrow> tech \<Rightarrow> orient_2d \<Rightarrow> orient_2d \<Rightarrow> bool \<Rightarrow> bool
     \<Rightarrow> layer_t \<times> box_t \<Rightarrow> layer_t \<times> box_t
     \<Rightarrow> ('c, 'x) lay_cellview \<times> spans \<Rightarrow> (('c, 'x) lay_cellview \<times> spans) outcome option" where
  "cross_step T G t dir0 dir1 ext contain r0 r1 st =
     (case (r0, r1) of ((lay0, box0), (lay1, box1)) \<Rightarrow>
        let via_box = box_intersect box0 box1 in
        if \<not> boxes_cross dir0 dir1 box0 box1 then Some (None, st)
        else tryO (tech_get_via_id t LOWER lay0 lay1) (\<lambda>name st.
          (case tech_get_via_param t (box_vec via_box) name LOWER dir0 dir1 ext of
             None \<Rightarrow> None
           | Some r \<Rightarrow> tryO r (\<lambda>p st.
               let s = via_spans p via_box dir0 dir1 in
               if vp_empty p \<or> contain \<and> \<not> spans_inside s dir0 dir1 box0 box1 then Some (None, st)
               else Some (seqS (on_fst (lv_add_via G (cross_via T via_box name p)) st) (\<lambda>st.
                 (None, (fst st, (span_add (fst (snd st)) (fst s), span_add (snd (snd st)) (snd s))))))) st)) st)"

text \<open>A loop over the rectangles of a track array, which are computed as they are needed.\<close>

definition for_rects ::
  "routing_grid \<Rightarrow> track_id \<Rightarrow> int \<times> int \<Rightarrow> (layer_t \<times> box_t \<Rightarrow> 's \<Rightarrow> 's outcome option) \<Rightarrow> 's \<Rightarrow> 's outcome option" where
  "for_rects g tid coord body =
     tryO (rg_track_info_at g (tid_level tid)) (\<lambda>tinfo.
       forO (\<lambda>(tr_idx, strip). tryO (warr_rect g (tid_level tid) coord (tid_at tid tr_idx) strip) body)
         (List.product [0..<unat (tid_num tid)] (ti_wire_width tinfo (tid_ntr tid))))"

definition cross_tracks ::
  "'x xform_ops \<Rightarrow> 'x lay_ops \<Rightarrow> track_id \<Rightarrow> track_id \<Rightarrow> int \<times> int \<Rightarrow> int \<times> int \<Rightarrow> bool \<Rightarrow> bool
     \<Rightarrow> ('c, 'x) lay_cellview \<times> spans \<Rightarrow> (('c, 'x) lay_cellview \<times> spans) outcome option" where
  "cross_tracks T G tid0 tid1 coord0 coord1 ext contain st =
     (let grid = lv_grid (fst st) in
      tryO (rg_track_info_at grid (tid_level tid0)) (\<lambda>tinfo0. tryO (rg_track_info_at grid (tid_level tid1)) (\<lambda>tinfo1 st.
        let dir0 = ti_dir tinfo0; dir1 = ti_dir tinfo1 in
        if dir0 = dir1 then Some (Some Invalid_argument, st)
        else for_rects grid tid0 coord0 (\<lambda>r0.
          for_rects grid tid1 coord1 (cross_step T G (rg_tech grid) dir0 dir1 ext contain r0)) st)) st)"

definition add_via_on_intersections ::
  "'x xform_ops \<Rightarrow> 'x lay_ops \<Rightarrow> track_id \<Rightarrow> track_id \<Rightarrow> int \<times> int \<Rightarrow> int \<times> int \<Rightarrow> bool \<Rightarrow> bool
     \<Rightarrow> ('c, 'x) lay_cellview \<Rightarrow> (('c, 'x) lay_cellview \<times> spans) outcome option" where
  "add_via_on_intersections T G tid1 tid2 coord1 coord2 ext contain cv =
     (let diff = tid_level tid1 - tid_level tid2; st = (cv, (no_span, no_span)) in
      if \<bar>diff\<bar> \<noteq> 1 then Some (Some Invalid_argument, st)
      else if diff > 0 then cross_tracks T G tid2 tid1 coord2 coord1 ext contain st
      else cross_tracks T G tid1 tid2 coord1 coord2 ext contain st)"

definition add_via_on_wires ::
  "'x xform_ops \<Rightarrow> 'x lay_ops \<Rightarrow> wire_array \<Rightarrow> wire_array \<Rightarrow> bool \<Rightarrow> bool
     \<Rightarrow> ('c, 'x) lay_cellview \<Rightarrow> (('c, 'x) lay_cellview \<times> spans) outcome option" where
  "add_via_on_wires T G warr1 warr2 ext contain =
     add_via_on_intersections T G (wa_tid warr1) (wa_tid warr2) (wa_coord warr1) (wa_coord warr2) ext contain"

section \<open>Connections\<close>

datatype min_len_mode = ML_LOWER | ML_MIDDLE | ML_UPPER | ML_NONE

text \<open>The span of the track after the correction to the minimum length.\<close>

definition min_len_correct :: "tech \<Rightarrow> int \<Rightarrow> wire_width \<Rightarrow> min_len_mode \<Rightarrow> int \<times> int \<Rightarrow> (int \<times> int) result" where
  "min_len_correct t level ww mode s =
     (let tr_len = snd s - fst s in
      (case mode of
         ML_LOWER \<Rightarrow> bindR (get_min_length_wire t level ww False) (\<lambda>l. Inr (snd s - max tr_len l, snd s))
       | ML_UPPER \<Rightarrow> bindR (get_min_length_wire t level ww False) (\<lambda>l. Inr (fst s, fst s + max tr_len l))
       | ML_MIDDLE \<Rightarrow> bindR (get_min_length_wire t level ww True) (\<lambda>l.
           let tr_len = max tr_len l; lo = (fst s + snd s - tr_len) sdiv 2 in Inr (lo, lo + tr_len))
       | ML_NONE \<Rightarrow> Inr s))"

definition span_include :: "int \<times> int \<Rightarrow> int option \<times> int option \<Rightarrow> int \<times> int" where
  "span_include s e =
     ((case fst e of None \<Rightarrow> fst s | Some v \<Rightarrow> min (fst s) v), (case snd e of None \<Rightarrow> snd s | Some v \<Rightarrow> max (snd s) v))"

text \<open>An interval with its lower or its upper end moved.\<close>

definition span_shift :: "int \<times> int \<Rightarrow> int \<Rightarrow> int \<times> int" where
  "span_shift s d = (if d > 0 then (fst s, snd s + d) else (fst s + d, snd s))"

definition on_dirs :: "direction \<Rightarrow> (int \<times> int \<Rightarrow> int \<times> int) \<Rightarrow> (int \<times> int \<Rightarrow> int \<times> int) \<Rightarrow> spans \<Rightarrow> spans" where
  "on_dirs vdir f g s = dir_pair vdir (f (at_dir s vdir)) (g (at_dir s (flip_dir vdir)))"

text \<open>
  The vias from an array of boxes to one rectangle of the tracks.  That the search found no via is not
  noticed.  The extensions are an array indexed by levels, which is read with orientations here.
\<close>

definition connect_rect ::
  "'x xform_ops \<Rightarrow> 'x lay_ops \<Rightarrow> tech \<Rightarrow> direction \<Rightarrow> layer_t \<Rightarrow> box_t \<Rightarrow> cnt_t \<Rightarrow> int \<Rightarrow> orient_2d
     \<Rightarrow> layer_t \<times> box_t \<Rightarrow> ('c, 'x) lay_cellview \<times> spans \<Rightarrow> (('c, 'x) lay_cellview \<times> spans) outcome option" where
  "connect_rect T G t vdir key box num_box sp_box tr_dir r st =
     (case r of (tr_key, tr_box) \<Rightarrow>
        let p_dir = perpendicular tr_dir in
        tryO (tech_get_via_id t vdir key tr_key) (\<lambda>name st.
          let via_box = make_box_orient tr_dir (box_lower box tr_dir) (box_upper box tr_dir)
                (box_lower tr_box p_dir) (box_upper tr_box p_dir);
              via_dim = box_vec via_box
          in (case tech_get_via_param t via_dim name vdir p_dir tr_dir True of
                None \<Rightarrow> None
              | Some res \<Rightarrow> tryO res (\<lambda>p st.
                  let xform = make_xform T (box_xm via_box) (box_ym via_box) OR0;
                      via_ext = vp_via_extensions p via_dim vdir p_dir tr_dir;
                      grow = (\<lambda>dir s. span_add s (box_lower via_box dir - at_orient via_ext dir,
                        box_upper via_box dir + at_orient via_ext dir))
                  in Some (seqS (on_fst (add_via_arr T G xform name p False (orient_pair tr_dir num_box 1)
                              (orient_pair tr_dir sp_box 0)) st)
                       (\<lambda>st. (None, (fst st, on_dirs vdir (grow p_dir) (grow tr_dir) (snd st)))))) st)) st)"

definition connect_box_track ::
  "'x xform_ops \<Rightarrow> 'x lay_ops \<Rightarrow> direction \<Rightarrow> layer_t \<Rightarrow> box_t \<Rightarrow> cnt_t \<times> cnt_t \<Rightarrow> int \<times> int \<Rightarrow> track_id
     \<Rightarrow> int option \<times> int option \<Rightarrow> int option \<times> int option \<Rightarrow> min_len_mode
     \<Rightarrow> ('c, 'x) lay_cellview \<Rightarrow> (('c, 'x) lay_cellview \<times> spans) outcome option" where
  "connect_box_track T G vdir key box num sp tid box_ext tr_ext mode cv =
     (let grid = lv_grid cv; level = tid_level tid in
      tryO (rg_track_info_at grid level) (\<lambda>tinfo st.
        let tr_dir = ti_dir tinfo;
            p_dir = perpendicular tr_dir;
            num_box = at_orient num tr_dir;
            sp_box = at_orient sp tr_dir;
            delta = offset_of_cnt (cnt_of_int sp_box * (num_box - 1));
            p_delta = offset_of_cnt (cnt_of_int (at_orient sp p_dir) * (at_orient num p_dir - 1));
            start = dir_pair vdir (span_shift (box_intv box p_dir) p_delta) (span_shift (box_intv box tr_dir) delta)
        in seqO (for_rects grid tid (snd start)
                  (connect_rect T G (rg_tech grid) vdir key box num_box sp_box tr_dir) (fst st, start)) (\<lambda>st.
           let ans = on_dirs vdir (\<lambda>s. span_include s box_ext) (\<lambda>s. span_include s tr_ext) (snd st) in
           tryO (min_len_correct (rg_tech grid) level (ti_wire_width tinfo (tid_ntr tid)) mode (at_dir ans (flip_dir vdir)))
             (\<lambda>tr_span st.
               let ans = dir_pair vdir (at_dir ans vdir) tr_span;
                   new_box = make_box_orient tr_dir (box_lower box tr_dir) (box_upper box tr_dir)
                     (fst (at_dir ans vdir)) (snd (at_dir ans vdir))
               in Some (seqS (on_fst (add_rect_arr G key new_box (orient_pair tr_dir num_box 1)
                          (orient_pair tr_dir sp_box 0)) (fst st, ans))
                    (on_fst (lv_add_warr G tid tr_span))))
             (fst st, ans))) (cv, ((0, 0), (0, 0))))"

definition connect_warr_track ::
  "'x xform_ops \<Rightarrow> 'x lay_ops \<Rightarrow> wire_array \<Rightarrow> track_id \<Rightarrow> int option \<times> int option \<Rightarrow> int option \<times> int option
     \<Rightarrow> ('c, 'x) lay_cellview \<Rightarrow> (('c, 'x) lay_cellview \<times> spans) outcome option" where
  "connect_warr_track T G warr tid w_ext tr_ext cv =
     (let w_tid = wa_tid warr; inf_bnds = (- (2 ^ 31), 2 ^ 31 - 1) in
      seqO (add_via_on_intersections T G w_tid tid inf_bnds inf_bnds True False cv) (\<lambda>st.
        let w_vdir = (if tid_level w_tid - tid_level tid > 0 then UPPER else LOWER);
            ans = on_dirs w_vdir (\<lambda>s. span_include (span_add s (wa_coord warr)) w_ext)
                    (\<lambda>s. span_include s tr_ext) (snd st)
        in Some (seqS (on_fst (lv_add_warr G w_tid (at_dir ans w_vdir)) (fst st, ans))
             (on_fst (lv_add_warr G tid (at_dir ans (flip_dir w_vdir)))))))"

end
