(* ===== verification/Lay_Connect_Props.thy ===== *)
theory Lay_Connect_Props
  imports Lay_Connect Lay_Cv_Props Grid_Props
begin

text \<open>
  Properties of the operations on layout cellviews: which vias are drawn where two track arrays cross,
  and where the pins of a wire array are.
\<close>

section \<open>Vias on intersections\<close>

text \<open>The boxes of the two wires, the kind of the via and its parameters.\<close>

type_synonym via_site = "box_t \<times> box_t \<times> string \<times> via_param"

fun site_via :: "'x xform_ops \<Rightarrow> via_site \<Rightarrow> 'x via" where
  "site_via T (box0, box1, name, p) = vw_via (cross_via T (box_intersect box0 box1) name p)"

fun site_spans :: "orient_2d \<Rightarrow> orient_2d \<Rightarrow> via_site \<Rightarrow> spans" where
  "site_spans dir0 dir1 (box0, box1, name, p) = via_spans p (box_intersect box0 box1) dir0 dir1"

text \<open>Where a via has to be: two rectangles that cross, a kind of via, and a via that fits.\<close>

definition is_site ::
  "tech \<Rightarrow> orient_2d \<Rightarrow> orient_2d \<Rightarrow> bool \<Rightarrow> bool \<Rightarrow> layer_t \<times> box_t \<Rightarrow> layer_t \<times> box_t \<Rightarrow> via_site \<Rightarrow> bool" where
  "is_site t dir0 dir1 ext contain r0 r1 s \<longleftrightarrow>
     (\<exists>name p. s = (snd r0, snd r1, name, p) \<and> boxes_cross dir0 dir1 (snd r0) (snd r1) \<and>
        tech_get_via_id t LOWER (fst r0) (fst r1) = Inr name \<and>
        tech_get_via_param t (box_vec (box_intersect (snd r0) (snd r1))) name LOWER dir0 dir1 ext = Some (Inr p) \<and>
        \<not> vp_empty p \<and> (contain \<longrightarrow> spans_inside (site_spans dir0 dir1 s) dir0 dir1 (snd r0) (snd r1)))"

definition rect_of :: "routing_grid \<Rightarrow> track_id \<Rightarrow> int \<times> int \<Rightarrow> layer_t \<times> box_t \<Rightarrow> bool" where
  "rect_of g tid coord r \<longleftrightarrow> (\<exists>rs. warr_rects g tid coord = Inr rs \<and> r \<in> set rs)"

definition span_le :: "int \<times> int \<Rightarrow> int \<times> int \<Rightarrow> bool" where
  "span_le s t \<longleftrightarrow> fst t \<le> fst s \<and> snd s \<le> snd t"

definition spans_le :: "spans \<Rightarrow> spans \<Rightarrow> bool" where
  "spans_le s t \<longleftrightarrow> span_le (fst s) (fst t) \<and> span_le (snd s) (snd t)"

definition add_site ::
  "'x xform_ops \<Rightarrow> orient_2d \<Rightarrow> orient_2d \<Rightarrow> ('c, 'x) lay_cellview \<times> spans \<Rightarrow> via_site \<Rightarrow> ('c, 'x) lay_cellview \<times> spans"
where
  "add_site T dir0 dir1 st s =
     ((fst st)\<lparr>lv_via_list := lv_via_list (fst st) @ [site_via T s]\<rparr>,
      (span_add (fst (snd st)) (fst (site_spans dir0 dir1 s)), span_add (snd (snd st)) (snd (site_spans dir0 dir1 s))))"

lemma lv_add_via_plain:
  "lv_add_via G (cross_via T b name p) cv = (None, cv\<lparr>lv_via_list := lv_via_list cv @ [vw_via (cross_via T b name p)]\<rparr>)"
  by (simp add: lv_add_via_def cross_via_def Let_def)

lemma cross_step_adds:
  assumes "cross_step T G t dir0 dir1 ext contain r0 r1 st = Some (None, st')"
  shows "\<exists>ss. st' = foldl (add_site T dir0 dir1) st ss \<and> set ss = {s. is_site t dir0 dir1 ext contain r0 r1 s}"
proof -
  obtain l0 b0 l1 b1 where r: "r0 = (l0, b0)" "r1 = (l1, b1)" by (cases r0; cases r1)
  show ?thesis
  proof (cases "boxes_cross dir0 dir1 b0 b1")
    case True
    then obtain name p where np: "tech_get_via_id t LOWER l0 l1 = Inr name"
      "tech_get_via_param t (box_vec (box_intersect b0 b1)) name LOWER dir0 dir1 ext = Some (Inr p)"
      using assms by (auto simp: cross_step_def r Let_def tryO_eq_None split: option.splits)
    let ?s = "(b0, b1, name, p)"
    have site: "is_site t dir0 dir1 ext contain r0 r1 s \<longleftrightarrow> s = ?s \<and> \<not> vp_empty p \<and>
        (contain \<longrightarrow> spans_inside (site_spans dir0 dir1 ?s) dir0 dir1 b0 b1)" for s
      using True np by (auto simp: is_site_def r)
    show ?thesis
    proof (cases "vp_empty p \<or> contain \<and> \<not> spans_inside (site_spans dir0 dir1 ?s) dir0 dir1 b0 b1")
      case True
      then have "st' = st" using assms \<open>boxes_cross dir0 dir1 b0 b1\<close> np by (simp add: cross_step_def r Let_def)
      with True show ?thesis by (intro exI [of _ "[]"]) (auto simp: site)
    next
      case False
      then have "st' = add_site T dir0 dir1 st ?s"
        using assms \<open>boxes_cross dir0 dir1 b0 b1\<close> np
        by (auto simp: cross_step_def r Let_def on_fst_def lv_add_via_plain add_site_def)
      with False show ?thesis by (intro exI [of _ "[?s]"]) (auto simp: site)
    qed
  next
    case False
    then have "st' = st" using assms by (simp add: cross_step_def r Let_def)
    with False show ?thesis by (intro exI [of _ "[]"]) (auto simp: is_site_def r)
  qed
qed

text \<open>A loop over rectangles whose body adds some things.\<close>

lemma for_adds:
  assumes "forO (\<lambda>k. tryO (rect k) body) ks st = Some (None, st')"
    and "\<And>r st st'. body r st = Some (None, st') \<Longrightarrow> \<exists>ss. st' = foldl addf st ss \<and> set ss = F r"
  shows "\<exists>rs ss. mapR rect ks = Inr rs \<and> st' = foldl addf st ss \<and> set ss = (\<Union>r\<in>set rs. F r)"
  using assms(1)
proof (induction ks arbitrary: st)
  case Nil
  then show ?case by (intro exI [of _ "[]"]) simp
next
  case (Cons k ks)
  then obtain r st1 where r: "rect k = Inr r" "body r st = Some (None, st1)"
    and rest: "forO (\<lambda>k. tryO (rect k) body) ks st1 = Some (None, st')"
    by (auto simp: seqO_eq_None tryO_eq_None)
  obtain ss1 where "st1 = foldl addf st ss1" "set ss1 = F r" using assms(2) [OF r(2)] by blast
  moreover obtain rs ss where "mapR rect ks = Inr rs" "st' = foldl addf st1 ss" "set ss = (\<Union>r\<in>set rs. F r)"
    using Cons.IH [OF rest] by blast
  ultimately show ?case using r(1) by (intro exI [of _ "r # rs"] exI [of _ "ss1 @ ss"]) simp
qed

lemma for_rects_adds:
  assumes "for_rects g tid coord body st = Some (None, st')"
    and "\<And>r st st'. body r st = Some (None, st') \<Longrightarrow> \<exists>ss. st' = foldl addf st ss \<and> set ss = F r"
  shows "\<exists>ss. st' = foldl addf st ss \<and> set ss = {s. \<exists>r. rect_of g tid coord r \<and> s \<in> F r}"
proof -
  obtain tinfo where tinfo: "rg_track_info_at g (tid_level tid) = Inr tinfo"
    and run: "forO (\<lambda>k. tryO (case k of (tr_idx, strip) \<Rightarrow> warr_rect g (tid_level tid) coord (tid_at tid tr_idx) strip) body)
      (List.product [0..<unat (tid_num tid)] (ti_wire_width tinfo (tid_ntr tid))) st = Some (None, st')"
    using assms(1) by (auto simp: for_rects_def tryO_eq_None case_prod_unfold)
  obtain rs ss where rs: "mapR (\<lambda>k. case k of (tr_idx, strip) \<Rightarrow> warr_rect g (tid_level tid) coord (tid_at tid tr_idx) strip)
      (List.product [0..<unat (tid_num tid)] (ti_wire_width tinfo (tid_ntr tid))) = Inr rs"
    and ss: "st' = foldl addf st ss" "set ss = (\<Union>r\<in>set rs. F r)"
    using for_adds [where addf = addf and F = F, OF run] assms(2) by blast
  then have "warr_rects g tid coord = Inr rs" using tinfo by (simp add: warr_rects_def)
  with ss show ?thesis by (intro exI [of _ ss]) (auto simp: rect_of_def)
qed

lemma add_sites_cellview:
  "fst (foldl (add_site T dir0 dir1) st ss)
    = (fst st)\<lparr>lv_via_list := lv_via_list (fst st) @ map (site_via T) ss\<rparr>"
  by (induction ss arbitrary: st) (simp_all add: add_site_def)

lemma spans_le_trans: "spans_le s t \<Longrightarrow> spans_le t u \<Longrightarrow> spans_le s u"
  unfolding spans_le_def span_le_def by linarith

lemma add_sites_spans:
  "spans_le (snd st) (snd (foldl (add_site T dir0 dir1) st ss)) \<and>
   (\<forall>s\<in>set ss. spans_le (site_spans dir0 dir1 s) (snd (foldl (add_site T dir0 dir1) st ss)))"
proof (induction ss arbitrary: st)
  case Nil
  then show ?case by (simp add: spans_le_def span_le_def)
next
  case (Cons s ss)
  have "spans_le (snd st) (snd (add_site T dir0 dir1 st s))"
    "spans_le (site_spans dir0 dir1 s) (snd (add_site T dir0 dir1 st s))"
    by (simp_all add: add_site_def spans_le_def span_le_def span_add_def)
  then show ?case using Cons.IH [of "add_site T dir0 dir1 st s"] by (auto intro: spans_le_trans)
qed

lemma cross_tracks_adds:
  assumes "cross_tracks T G tid0 tid1 coord0 coord1 ext contain st = Some (None, st')"
  shows "\<exists>tinfo0 tinfo1 ss. rg_track_info_at (lv_grid (fst st)) (tid_level tid0) = Inr tinfo0 \<and>
    rg_track_info_at (lv_grid (fst st)) (tid_level tid1) = Inr tinfo1 \<and> ti_dir tinfo0 \<noteq> ti_dir tinfo1 \<and>
    st' = foldl (add_site T (ti_dir tinfo0) (ti_dir tinfo1)) st ss \<and>
    set ss = {s. \<exists>r0 r1. rect_of (lv_grid (fst st)) tid0 coord0 r0 \<and> rect_of (lv_grid (fst st)) tid1 coord1 r1 \<and>
      is_site (lv_tech (fst st)) (ti_dir tinfo0) (ti_dir tinfo1) ext contain r0 r1 s}"
proof -
  obtain tinfo0 tinfo1 where ti: "rg_track_info_at (lv_grid (fst st)) (tid_level tid0) = Inr tinfo0"
      "rg_track_info_at (lv_grid (fst st)) (tid_level tid1) = Inr tinfo1" "ti_dir tinfo0 \<noteq> ti_dir tinfo1"
    and run: "for_rects (lv_grid (fst st)) tid0 coord0 (\<lambda>r0. for_rects (lv_grid (fst st)) tid1 coord1
      (cross_step T G (lv_tech (fst st)) (ti_dir tinfo0) (ti_dir tinfo1) ext contain r0)) st = Some (None, st')"
    using assms by (auto simp: cross_tracks_def Let_def tryO_eq_None lv_tech_def split: if_splits)
  have "\<exists>ss. st' = foldl (add_site T (ti_dir tinfo0) (ti_dir tinfo1)) st ss \<and>
     set ss = {s. \<exists>r0. rect_of (lv_grid (fst st)) tid0 coord0 r0 \<and>
       s \<in> {s. \<exists>r1. rect_of (lv_grid (fst st)) tid1 coord1 r1 \<and>
         s \<in> {s. is_site (lv_tech (fst st)) (ti_dir tinfo0) (ti_dir tinfo1) ext contain r0 r1 s}}}"
    using run by (elim for_rects_adds cross_step_adds)
  with ti show ?thesis by auto
qed

text \<open>The lower and the upper one of two arrays.\<close>

definition lower_upper :: "track_id \<Rightarrow> int \<times> int \<Rightarrow> track_id \<Rightarrow> int \<times> int \<Rightarrow> (track_id \<times> int \<times> int) \<times> (track_id \<times> int \<times> int)" where
  "lower_upper tid1 coord1 tid2 coord2 =
     (if tid_level tid1 < tid_level tid2 then ((tid1, coord1), (tid2, coord2)) else ((tid2, coord2), (tid1, coord1)))"

text \<open>
  C22.  Where the wires of two neighbouring levels cross, vias are drawn exactly at the pairs of
  rectangles that cross completely, for which the technology has a via that fits and, on demand, whose
  metal stays on both wires.  Nothing else is changed, and the metal of every via along the wires
  is within the spans that are returned.
\<close>

theorem add_via_on_intersections_sites:
  assumes "add_via_on_intersections T G tid1 tid2 coord1 coord2 ext contain cv = Some (None, (cv', ans))"
    and "lower_upper tid1 coord1 tid2 coord2 = ((tid0, c0), (tidu, cu))"
  shows "\<exists>tinfo0 tinfou sites. rg_track_info_at (lv_grid cv) (tid_level tid0) = Inr tinfo0 \<and>
    rg_track_info_at (lv_grid cv) (tid_level tidu) = Inr tinfou \<and> tid_level tidu = tid_level tid0 + 1 \<and>
    cv' = cv\<lparr>lv_via_list := lv_via_list cv @ map (site_via T) sites\<rparr> \<and>
    (\<forall>s. s \<in> set sites \<longleftrightarrow> (\<exists>r0 r1. rect_of (lv_grid cv) tid0 c0 r0 \<and> rect_of (lv_grid cv) tidu cu r1 \<and>
       is_site (lv_tech cv) (ti_dir tinfo0) (ti_dir tinfou) ext contain r0 r1 s)) \<and>
    (\<forall>s\<in>set sites. spans_le (site_spans (ti_dir tinfo0) (ti_dir tinfou) s) ans) \<and>
    (sites = [] \<longrightarrow> ans = (no_span, no_span))"
proof -
  let ?st = "(cv, (no_span, no_span))"
  have lev: "tid_level tidu = tid_level tid0 + 1"
    and run: "cross_tracks T G tid0 tidu c0 cu ext contain ?st = Some (None, (cv', ans))"
    using assms by (auto simp: add_via_on_intersections_def lower_upper_def Let_def split: if_splits)
  obtain tinfo0 tinfou sites where ti: "rg_track_info_at (lv_grid cv) (tid_level tid0) = Inr tinfo0"
      "rg_track_info_at (lv_grid cv) (tid_level tidu) = Inr tinfou"
    and eq: "(cv', ans) = foldl (add_site T (ti_dir tinfo0) (ti_dir tinfou)) ?st sites"
    and sites: "set sites = {s. \<exists>r0 r1. rect_of (lv_grid cv) tid0 c0 r0 \<and> rect_of (lv_grid cv) tidu cu r1 \<and>
       is_site (lv_tech cv) (ti_dir tinfo0) (ti_dir tinfou) ext contain r0 r1 s}"
    using cross_tracks_adds [OF run] by auto
  have "cv' = cv\<lparr>lv_via_list := lv_via_list cv @ map (site_via T) sites\<rparr>"
    using add_sites_cellview [of T "ti_dir tinfo0" "ti_dir tinfou" ?st sites] eq [symmetric] by simp
  moreover have "\<forall>s\<in>set sites. spans_le (site_spans (ti_dir tinfo0) (ti_dir tinfou) s) ans"
    using add_sites_spans [of ?st T "ti_dir tinfo0" "ti_dir tinfou" sites] eq [symmetric] by simp
  moreover have "sites = [] \<longrightarrow> ans = (no_span, no_span)" using eq by auto
  ultimately show ?thesis using ti lev sites
    by (intro exI [of _ tinfo0] exI [of _ tinfou] exI [of _ sites]) simp
qed

text \<open>Two vertical wires that one horizontal wire of the next level crosses.\<close>

definition mesh_tech :: tech where
  "mesh_tech = \<lparr>tech_lib = [], tech_layout_unit = 0, tech_resolution = 0, tech_use_flip_parity = False,
     tech_make_pin = False, tech_lp = \<lparr>lp_default_purpose = 0, lp_pin_purpose = 0, lp_lay_map = [], lp_purp_map = []\<rparr>,
     tech_vlookup = \<lparr>vl_lp_map = [], vl_id_map = [(((60, 0), (61, 0)), ''V1'')],
       vl_info_map = [(''V1'', [make_via_info (10, 10) (10, 10) [] []
         ([\<lparr>vd_width = MAX_INT, vd_enc_list = [(5, 0), (0, 5)]\<rparr>], [\<lparr>vd_width = MAX_INT, vd_enc_list = [(0, 0)]\<rparr>])])]\<rparr>,
     tech_sp_grp = [], tech_sp_sc_type = DIFF_COLOR, tech_len_map = [], tech_bot_layer = 1,
     tech_lp_list = [[(60, 0)], [(61, 0)]], tech_lev_map = [], tech_color_map = []\<rparr>"

definition mesh_track :: "orient_2d \<Rightarrow> track_info" where
  "mesh_track dir = \<lparr>ti_dir = dir, ti_w = 60, ti_sp = 60, ti_offset = 60, ti_par_scale = 1, ti_par_offset = 0,
     ti_blk_pitch = (120, 60), ti_w_intvs = []\<rparr>"

definition mesh_cv :: "(unit, orientation \<times> point) lay_cellview" where
  "mesh_cv = make_lay_cellview \<lparr>rg_tech = mesh_tech, rg_bot_level = 1,
     rg_info_list = [mesh_track Vertical, mesh_track Horizontal], rg_top_ignore = 0, rg_top_private = 0\<rparr> ''mesh'' POLY90"

declare via_search.simps [code]

definition mesh_tracks :: "track_id \<times> track_id" where
  "mesh_tracks = (make_track_id 1 0 1 2 2, make_track_id 2 0 1 1 0)"

definition mesh_vias :: "((unit, orientation \<times> point) lay_cellview \<times> spans) outcome option" where
  "mesh_vias = add_via_on_intersections pair_ops box_ops (fst mesh_tracks) (snd mesh_tracks) (0, 500) (0, 500) True True mesh_cv"

lemma mesh_run:
  "(case mesh_vias of
      Some (None, (cv', ans)) \<Rightarrow> map (\<lambda>v. (location pair_ops (via_xform v), via_id v)) (lv_via_list cv')
        = [((60, 60), ''V1''), ((180, 60), ''V1'')]
    | _ \<Rightarrow> False)"
  by code_simp

theorem add_via_on_intersections_sites_witness:
  "\<exists>cv' ans sites. mesh_vias = Some (None, (cv', ans)) \<and> lv_via_list cv' = map (site_via pair_ops) sites \<and>
     length sites = 2 \<and> (\<forall>s\<in>set sites. spans_le (site_spans Vertical Horizontal s) ans)"
proof -
  obtain cv' ans where run: "mesh_vias = Some (None, (cv', ans))"
    and two: "length (lv_via_list cv') = 2"
    using mesh_run by (auto split: option.splits dest: arg_cong [where f = length])
  have lu: "lower_upper (fst mesh_tracks) (0, 500) (snd mesh_tracks) (0, 500) = ((fst mesh_tracks, (0, 500)), (snd mesh_tracks, (0, 500)))"
    by (simp add: lower_upper_def mesh_tracks_def make_track_id_def)
  have ti: "rg_track_info_at (lv_grid mesh_cv) (tid_level (fst mesh_tracks)) = Inr (mesh_track Vertical)"
    "rg_track_info_at (lv_grid mesh_cv) (tid_level (snd mesh_tracks)) = Inr (mesh_track Horizontal)" by code_simp+
  from add_via_on_intersections_sites [OF run [unfolded mesh_vias_def] lu]
  obtain tinfo0 tinfou sites where s: "rg_track_info_at (lv_grid mesh_cv) (tid_level (fst mesh_tracks)) = Inr tinfo0"
      "rg_track_info_at (lv_grid mesh_cv) (tid_level (snd mesh_tracks)) = Inr tinfou"
      "cv' = mesh_cv\<lparr>lv_via_list := lv_via_list mesh_cv @ map (site_via pair_ops) sites\<rparr>"
      "\<forall>s\<in>set sites. spans_le (site_spans (ti_dir tinfo0) (ti_dir tinfou) s) ans" by (elim exE conjE)
  have dir: "ti_dir tinfo0 = Vertical" "ti_dir tinfou = Horizontal" using s(1,2) unfolding ti by (auto simp: mesh_track_def)
  have "lv_via_list cv' = map (site_via pair_ops) sites" by (simp add: s(3) mesh_cv_def make_lay_cellview_def)
  with run two s(4) show ?thesis unfolding dir by (intro exI [of _ cv'] exI [of _ ans] exI [of _ sites]) auto
qed

section \<open>Pins of wire arrays\<close>

text \<open>The pin box of a strip of a wire, and the rectangle that \<^verbatim>\<open>add_warr\<close> draws for it.\<close>

definition pin_box_at :: "track_info \<Rightarrow> int \<times> int \<Rightarrow> int \<Rightarrow> int \<times> int \<Rightarrow> box_t" where
  "pin_box_at tinfo coord htr strip =
     (let half_w = snd strip sdiv 2; center = htr_to_coord tinfo (htr + fst strip)
      in make_box_orient (ti_dir tinfo) (fst coord) (snd coord) (center - half_w) (center + half_w))"

lemma warr_rect_box:
  "warr_rect g level coord htr strip = Inr r \<Longrightarrow> rg_at g level = Inr tinfo \<Longrightarrow> snd r = pin_box_at tinfo coord htr strip"
  by (auto simp: warr_rect_def pin_box_at_def Let_def result_simps add.commute)

lemma forS_zip:
  assumes "forS f xs s = (None, t)" and "\<And>x s t. x \<in> set xs \<Longrightarrow> f x s = (None, t) \<Longrightarrow> \<exists>y. t = h x y s"
  shows "\<exists>ys. length ys = length xs \<and> t = foldl (\<lambda>s (x, y). h x y s) s (zip xs ys)"
  using assms
proof (induction xs arbitrary: s)
  case (Cons x xs)
  then obtain u where u: "f x s = (None, u)" and rest: "forS f xs u = (None, t)" by (auto simp: seqS_eq_None)
  obtain y where "u = h x y s" using Cons.prems(2) [OF _ u] by auto
  moreover obtain ys where "length ys = length xs" "t = foldl (\<lambda>s (x, y). h x y s) u (zip xs ys)"
    using Cons.IH [OF rest Cons.prems(2)] by auto
  ultimately show ?case by (intro exI [of _ "y # ys"]) simp
qed simp

lemma move_make_box:
  "box_move_by_orient (make_box_orient dir a b c d) dir 0 e = make_box_orient dir a b (c + e) (d + e)"
  by (cases dir) (simp_all add: box_move_by_orient_def make_box_orient_def make_box_def)

text \<open>
  The pins of an array of wires are on the wires for the first track only.  Each further pin is
  moved away from its wire, by the square of the distance of half-tracks instead of the distance:
  the step from track to track is a length that is added to a half-track index.  The centers of the
  wires and of the pins are taken to be coordinates of 32 bits; otherwise they wrap around as well.
\<close>

theorem add_pin_arr_off_track:
  assumes "rg_track_info_at (lv_grid cv) (tid_level (wa_tid warr)) = Inr tinfo" and "ti_pitch tinfo = 2 * k" and "0 < k"
    and "int32 (ti_offset tinfo)"
    and range: "\<forall>i<unat (tid_num (wa_tid warr)). int32 (track_center tinfo k (wa_tid warr) (int i)) \<and>
      int32 (track_center tinfo k (wa_tid warr) (int i) + int i * tid_pitch (wa_tid warr) * k * (k - 1))"
    and "add_pin_arr net lab warr cv = (None, cv')"
  shows "\<exists>lays. length lays = unat (tid_num (wa_tid warr)) \<and>
    cv' = foldl (\<lambda>cv (i, lay). foldl (\<lambda>cv strip. lv_add_pin lay net lab
        (box_move_by_orient (pin_box_at tinfo (wa_coord warr) (tid_at (wa_tid warr) i) strip) (ti_dir tinfo) 0
          (int i * tid_pitch (wa_tid warr) * k * (k - 1))) cv) cv (ti_wire_width tinfo (tid_ntr (wa_tid warr))))
      cv (zip [0..<length lays] lays)"
proof -
  let ?tid = "wa_tid warr" and ?ww = "ti_wire_width tinfo (tid_ntr (wa_tid warr))"
  let ?box = "\<lambda>i strip. box_move_by_orient (pin_box_at tinfo (wa_coord warr) (tid_at ?tid i) strip) (ti_dir tinfo) 0
          (int i * tid_pitch ?tid * k * (k - 1))"
  have k: "ti_pitch tinfo sdiv 2 = k" "(tid_pitch ?tid * ti_pitch tinfo) sdiv 2 = tid_pitch ?tid * k"
    using sdiv2_double [of k] sdiv2_double [of "tid_pitch ?tid * k"] by (simp_all add: assms(2) mult.left_commute)
  have box: "pin_box_at tinfo (wa_coord warr) (tid_htr ?tid + int i * (tid_pitch ?tid * k)) strip = ?box i strip"
    if i: "i < unat (tid_num ?tid)" and strip: "strip \<in> set ?ww" for i strip
  proof -
    let ?c = "track_center tinfo k ?tid (int i)" and ?shift = "int i * tid_pitch ?tid * k * (k - 1)"
    have "k * (tid_htr ?tid + int i * (tid_pitch ?tid * k)) + ti_offset tinfo = ?c + ?shift"
      by (simp add: track_center_def algebra_simps)
    then have pin: "htr_to_coord tinfo (tid_htr ?tid + int i * (tid_pitch ?tid * k)) = ?c + ?shift"
      using range i by (simp add: htr_to_coord_def k)
    have "htr_to_coord tinfo (tid_at ?tid i) = ?c" using htr_to_coord_tid_at [OF assms(2-4)] range i by simp
    moreover have "fst strip = 0" using strip by (simp add: ti_wire_width_def)
    ultimately show ?thesis unfolding pin_box_at_def Let_def move_make_box
      by (simp only: pin add_0_right) (simp add: algebra_simps)
  qed
  have run: "forS (\<lambda>idx. pin_track net lab (tid_level ?tid) (wa_coord warr) tinfo ?ww
      (tid_htr ?tid + int idx * (tid_pitch ?tid * k))) [0..<unat (tid_num ?tid)] cv = (None, cv')"
    using assms(1,6) by (simp add: add_pin_arr_def Let_def k)
  have step: "\<exists>lay. t = foldl (\<lambda>cv strip. lv_add_pin lay net lab (?box i strip) cv) s ?ww"
    if i: "i \<in> set [0..<unat (tid_num ?tid)]"
      and track: "pin_track net lab (tid_level ?tid) (wa_coord warr) tinfo ?ww (tid_htr ?tid + int i * (tid_pitch ?tid * k)) s = (None, t)"
    for i s t
  proof -
    from track obtain key where "t = foldl (\<lambda>cv strip. lv_add_pin (fst key) net lab
        (pin_box_at tinfo (wa_coord warr) (tid_htr ?tid + int i * (tid_pitch ?tid * k)) strip) cv) s ?ww"
      by (auto simp: pin_track_def tryS_def pin_box_at_def case_prod_unfold Let_def split: sum.splits)
    moreover have "foldl (\<lambda>cv strip. lv_add_pin (fst key) net lab
        (pin_box_at tinfo (wa_coord warr) (tid_htr ?tid + int i * (tid_pitch ?tid * k)) strip) cv) s ?ww
      = foldl (\<lambda>cv strip. lv_add_pin (fst key) net lab (?box i strip) cv) s ?ww"
      using i box [of i] by (intro foldl_cong) auto
    ultimately show ?thesis by auto
  qed
  have "\<exists>lays. length lays = length [0..<unat (tid_num ?tid)] \<and>
      cv' = foldl (\<lambda>cv (i, lay). foldl (\<lambda>cv strip. lv_add_pin lay net lab (?box i strip) cv) cv ?ww) cv
        (zip [0..<unat (tid_num ?tid)] lays)"
    using run by (rule forS_zip) (rule step)
  then show ?thesis by auto
qed

text \<open>Two tracks at a distance of 120: the second pin is at 7260 instead of 180.\<close>

theorem add_pin_arr_off_track_witness:
  "\<exists>lay0 lay1. snd (add_pin_arr ''a'' ''a'' \<lparr>wa_tid = fst mesh_tracks, wa_coord = (0, 500)\<rparr> mesh_cv)
     = lv_add_pin lay1 ''a'' ''a'' (make_box 7230 0 7290 500) (lv_add_pin lay0 ''a'' ''a'' (make_box 30 0 90 500) mesh_cv)"
proof -
  let ?wa = "\<lparr>wa_tid = fst mesh_tracks, wa_coord = (0, 500)\<rparr> :: wire_array"
  have "fst (add_pin_arr ''a'' ''a'' ?wa mesh_cv) = None" by code_simp
  then have run: "add_pin_arr ''a'' ''a'' ?wa mesh_cv = (None, snd (add_pin_arr ''a'' ''a'' ?wa mesh_cv))"
    by (metis prod.collapse)
  have ti: "rg_track_info_at (lv_grid mesh_cv) (tid_level (wa_tid ?wa)) = Inr (mesh_track Vertical)" by code_simp
  have ww: "ti_wire_width (mesh_track Vertical) (tid_ntr (wa_tid ?wa)) = [(0, 60)]" by code_simp
  have num: "unat (tid_num (wa_tid ?wa)) = Suc (Suc 0)" by (simp add: mesh_tracks_def make_track_id_def)
  have box: "box_move_by_orient (pin_box_at (mesh_track Vertical) (0, 500) (tid_at (fst mesh_tracks) 0) (0, 60))
      (ti_dir (mesh_track Vertical)) 0 0 = make_box 30 0 90 500"
    "box_move_by_orient (pin_box_at (mesh_track Vertical) (0, 500) (tid_at (fst mesh_tracks) (Suc 0)) (0, 60))
      (ti_dir (mesh_track Vertical)) 0 (3540 * (int (Suc 0) * tid_pitch (fst mesh_tracks))) = make_box 7230 0 7290 500"
    by code_simp+
  have pitch: "ti_pitch (mesh_track Vertical) = 2 * 60" "ti_offset (mesh_track Vertical) = 60"
    by (simp_all add: mesh_track_def ti_pitch_def)
  have "int32 (track_center (mesh_track Vertical) 60 (wa_tid ?wa) (int i)) \<and>
      int32 (track_center (mesh_track Vertical) 60 (wa_tid ?wa) (int i) + int i * tid_pitch (wa_tid ?wa) * 60 * (60 - 1))"
    if "i = 0 \<or> i = 1" for i
    using that by (auto simp: int32_def track_center_def pitch(2) mesh_tracks_def make_track_id_def)
  then have range: "\<forall>i<unat (tid_num (wa_tid ?wa)). int32 (track_center (mesh_track Vertical) 60 (wa_tid ?wa) (int i)) \<and>
      int32 (track_center (mesh_track Vertical) 60 (wa_tid ?wa) (int i) + int i * tid_pitch (wa_tid ?wa) * 60 * (60 - 1))"
    unfolding num by (auto simp only: less_Suc_eq not_less0 One_nat_def)
  have "int32 (ti_offset (mesh_track Vertical))" by (simp add: pitch(2) int32_def)
  from add_pin_arr_off_track [OF ti pitch(1) _ this range run] show ?thesis
    unfolding num ww by (auto simp: length_Suc_conv box simp del: of_nat_Suc) blast
qed

end
