(* ===== verification/Path.thy ===== *)
theory Path
  imports Lay_Util
begin

text \<open>
  Paths with angles of 45 degrees: \<^verbatim>\<open>src/cbag/layout/vector45.cpp\<close>, \<^verbatim>\<open>path_util.cpp\<close> and
  \<^verbatim>\<open>include/cbag/layout/path_util.h\<close>.  The length \<^verbatim>\<open>round(x / root2)\<close>, computed in floating point, is
  an argument \<open>diag\<close> of the functions.  A set of polygons is the list of what is inserted into it.
\<close>

section \<open>Vectors\<close>

record vector45 =
  v_dx :: int
  v_dy :: int

definition vec45 :: "int \<Rightarrow> int \<Rightarrow> vector45" where
  "vec45 dx dy = \<lparr>v_dx = dx, v_dy = dy\<rparr>"

definition sign45 :: "int \<Rightarrow> int" where
  "sign45 x = of_bool (x > 0) - of_bool (x < 0)"

definition get_rotate90 :: "vector45 \<Rightarrow> vector45" where
  "get_rotate90 v = vec45 (v_dy v) (- v_dx v)"

definition get_norm45 :: "vector45 \<Rightarrow> vector45" where
  "get_norm45 v = vec45 (sign45 (v_dx v)) (sign45 (v_dy v))"

definition get_rotate90_norm :: "vector45 \<Rightarrow> vector45" where
  "get_rotate90_norm v = vec45 (sign45 (v_dy v)) (sign45 (- v_dx v))"

definition v45_valid :: "vector45 \<Rightarrow> bool" where
  "v45_valid v \<longleftrightarrow> v_dx v = 0 \<or> v_dy v = 0 \<or> \<bar>v_dx v\<bar> = \<bar>v_dy v\<bar>"

definition is_45_or_invalid :: "vector45 \<Rightarrow> bool" where
  "is_45_or_invalid v \<longleftrightarrow> v_dx v \<noteq> 0 \<and> v_dy v \<noteq> 0"

definition v45_invert :: "vector45 \<Rightarrow> vector45" where
  "v45_invert v = v\<lparr>v_dx := - v_dx v, v_dy := - v_dy v\<rparr>"

definition v45_rotate90 :: "vector45 \<Rightarrow> vector45" where
  "v45_rotate90 v = v\<lparr>v_dx := v_dy v, v_dy := - v_dx v\<rparr>"

definition v45_normalize :: "vector45 \<Rightarrow> vector45" where
  "v45_normalize v = v\<lparr>v_dx := sign45 (v_dx v), v_dy := sign45 (v_dy v)\<rparr>"

definition v45_rotate90_norm :: "vector45 \<Rightarrow> vector45" where
  "v45_rotate90_norm v = v\<lparr>v_dx := sign45 (v_dy v), v_dy := sign45 (- v_dx v)\<rparr>"

definition v45_to_string :: "vector45 \<Rightarrow> string" where
  "v45_to_string v = ''['' @ int_to_string (v_dx v) @ ''; '' @ int_to_string (v_dy v) @ '']''"

section \<open>One segment\<close>

datatype end_style = ES_truncate | ES_extend | ES_round | ES_triangle

definition pt_along :: "int \<Rightarrow> int \<Rightarrow> vector45 \<Rightarrow> int \<Rightarrow> vector45 \<Rightarrow> int \<Rightarrow> point" where
  "pt_along x y p a n b = (x - v_dx p * a + v_dx n * b, y - v_dy p * a + v_dy n * b)"

fun add_path_points ::
  "point list \<Rightarrow> int \<Rightarrow> int \<Rightarrow> vector45 \<Rightarrow> vector45 \<Rightarrow> bool \<Rightarrow> end_style \<Rightarrow> int \<Rightarrow> int \<Rightarrow> point list"
where
  "add_path_points vec x y p n is_45 ES_truncate w_main w_norm =
     vec @ [(x + v_dx n * w_main, y + v_dy n * w_main), (x - v_dx n * w_main, y - v_dy n * w_main)]"
| "add_path_points vec x y p n is_45 ES_extend w_main w_norm =
     vec @ [(x - (v_dx p - v_dx n) * w_main, y - (v_dy p - v_dy n) * w_main),
            (x - (v_dx p + v_dx n) * w_main, y - (v_dy p + v_dy n) * w_main)]"
| "add_path_points vec x y p n is_45 ES_triangle w_main w_norm =
     vec @ [(x + v_dx n * w_main, y + v_dy n * w_main), (x - w_main * v_dx p, y - w_main * v_dy p),
            (x - v_dx n * w_main, y - v_dy n * w_main)]"
| "add_path_points vec x y p n is_45 ES_round w_main w_norm =
     vec @ [pt_along x y p w_norm n w_main, pt_along x y p w_main n w_norm,
            pt_along x y p w_main n (- w_norm), pt_along x y p w_norm n (- w_main)]"

text \<open>This function is not called.\<close>

definition get_style :: "end_style \<Rightarrow> int \<Rightarrow> bool \<Rightarrow> end_style" where
  "get_style ans half_width is_45 =
     (if ans = ES_round
      then (if half_width = 1 then if is_45 then ES_triangle else ES_extend
            else if half_width = 2 then if is_45 then ES_extend else ES_triangle
            else ES_round)
      else ans)"

definition path_to_poly45 ::
  "(int \<Rightarrow> int) \<Rightarrow> int \<Rightarrow> int \<Rightarrow> int \<Rightarrow> int \<Rightarrow> int \<Rightarrow> end_style \<Rightarrow> end_style \<Rightarrow> point list result" where
  "path_to_poly45 diag x0 y0 x1 y1 half_width sty0 sty1 =
     (let p_norm = v45_normalize (vec45 (x1 - x0) (y1 - y0)) in
      if half_width = 0 \<or> v_dx p_norm = 0 \<and> v_dy p_norm = 0 then Inr []
      else if \<not> v45_valid p_norm then Inl Invalid_argument
      else
        (let is_45 = is_45_or_invalid p_norm;
             n_norm = get_rotate90 p_norm;
             half_diag = diag half_width;
             (w_main, w_norm) = (if is_45 then (half_diag, half_width - half_diag)
                                 else (half_width, 2 * half_diag - half_width));
             ans = add_path_points [] x0 y0 p_norm n_norm is_45 sty0 w_main w_norm
         in Inr (add_path_points ans x1 y1 (v45_invert p_norm) (v45_invert n_norm) is_45 sty1 w_main w_norm)))"

section \<open>Paths and buses\<close>

definition make_path ::
  "(int \<Rightarrow> int) \<Rightarrow> point list \<Rightarrow> int \<Rightarrow> end_style \<Rightarrow> end_style \<Rightarrow> end_style \<Rightarrow> point list list result" where
  "make_path diag pts half_width s0 s1 sm =
     (let n = length pts in
      if n < 2 then Inl Invalid_argument
      else mapR (\<lambda>istart.
        let c0 = (if istart = 0 then s0 else sm);
            c1 = (if istart = n - 2 then s1 else sm);
            c = pts ! istart; d = pts ! (istart + 1)
        in path_to_poly45 diag (fst c) (snd c) (fst d) (snd d) half_width c0 c1) [0..<n - 1])"

text \<open>
  The distances of the wires from the path.  The code writes them into storage that is reserved but
  has no elements yet, and reads them from there; here they are elements.
\<close>

fun bus_deltas :: "int \<Rightarrow> int list \<Rightarrow> int list \<Rightarrow> int list" where
  "bus_deltas d (w # w' # widths) (s # spaces) = d # bus_deltas (d + s + (w + w') sdiv 2) (w' # widths) spaces"
| "bus_deltas d widths spaces = [d]"

definition bus_scale :: "(int \<Rightarrow> int) \<Rightarrow> vector45 \<Rightarrow> int \<Rightarrow> int" where
  "bus_scale diag v delta = (if is_45_or_invalid v then diag delta else delta)"

definition shift_along :: "point \<Rightarrow> vector45 \<Rightarrow> int \<Rightarrow> point" where
  "shift_along p v k = (fst p + v_dx v * k, snd p + v_dy v * k)"

definition vec_between :: "point \<Rightarrow> point \<Rightarrow> vector45" where
  "vec_between p q = vec45 (fst q - fst p) (snd q - snd p)"

text \<open>One wire along the segment before the point \<open>c\<close>: its polygon and where it ends.\<close>

definition bus_wire ::
  "(int \<Rightarrow> int) \<Rightarrow> point \<Rightarrow> vector45 \<Rightarrow> vector45 \<Rightarrow> end_style \<Rightarrow> end_style \<Rightarrow> int \<times> int \<times> point
     \<Rightarrow> (point list \<times> point) result" where
  "bus_wire diag c s0 s1 sty0 sty1 wire =
     (case wire of (delta, width, prev) \<Rightarrow>
        let dir1 = get_rotate90 s1;
            t = shift_along c dir1 (bus_scale diag dir1 delta);
            pdx = fst t - fst prev; pdy = snd t - snd prev;
            det = v_dx s0 * v_dy s1 - v_dy s0 * v_dx s1
        in if det = 0 then Inl Undefined_behaviour
           else
             (let k = (pdx * v_dy s1 - pdy * v_dx s1) sdiv det; new = shift_along prev s0 k in
              bindR (path_to_poly45 diag (fst prev) (snd prev) (fst new) (snd new) (width sdiv 2) sty0 sty1)
                (\<lambda>vec. Inr (vec, new))))"

definition bus_segment ::
  "(int \<Rightarrow> int) \<Rightarrow> int list \<Rightarrow> int list \<Rightarrow> end_style \<Rightarrow> end_style \<Rightarrow> point list
     \<Rightarrow> point list list \<times> point list \<Rightarrow> nat \<Rightarrow> (point list list \<times> point list) result" where
  "bus_segment diag deltas widths style0 stylem pts st nidx =
     (case st of (ans, prev_pts) \<Rightarrow>
        let sty0 = (if nidx = 2 then style0 else stylem);
            s0 = v45_normalize (vec_between (pts ! (nidx - 2)) (pts ! (nidx - 1)));
            s1 = v45_normalize (vec_between (pts ! (nidx - 1)) (pts ! nidx))
        in bindR (mapR (bus_wire diag (pts ! nidx) s0 s1 sty0 stylem) (zip deltas (zip widths prev_pts)))
             (\<lambda>wires. Inr (ans @ map fst wires, map snd wires)))"

definition make_path45_bus ::
  "(int \<Rightarrow> int) \<Rightarrow> point list \<Rightarrow> int list \<Rightarrow> int list \<Rightarrow> end_style \<Rightarrow> end_style \<Rightarrow> end_style \<Rightarrow> point list list result" where
  "make_path45_bus diag pts widths spaces style0 style1 stylem =
     (let n_pts = length pts in
      if n_pts < 2 then Inl Invalid_argument
      else if length widths \<noteq> length spaces + 1 then Inl Invalid_argument
      else
        (let tot_width = sum_list widths + sum_list spaces;
             deltas = bus_deltas ((- tot_width + hd widths) sdiv 2) widths spaces;
             s0 = v45_rotate90_norm (vec_between (pts ! 0) (pts ! 1));
             prev_pts = map (\<lambda>delta. shift_along (pts ! 0) s0 (bus_scale diag s0 delta)) deltas
         in bindR (foldR (bus_segment diag deltas widths style0 stylem pts) ([], prev_pts) [2..<n_pts])
              (\<lambda>(ans, prev_pts).
                let sty0 = (if n_pts = 2 then style0 else stylem);
                    final = pts ! (n_pts - 1);
                    s0 = v45_rotate90_norm (vec_between (pts ! (n_pts - 2)) final)
                in bindR (mapR (\<lambda>(delta, width, prev).
                       let t = shift_along final s0 (bus_scale diag s0 delta)
                       in path_to_poly45 diag (fst prev) (snd prev) (fst t) (snd t) (width sdiv 2) sty0 style1)
                     (zip deltas (zip widths prev_pts)))
                   (\<lambda>polys. Inr (ans @ polys)))))"

definition lu_add_path ::
  "(int \<Rightarrow> int) \<Rightarrow> 'x lay_ops \<Rightarrow> ('c, 'x) lay_cellview \<Rightarrow> string \<Rightarrow> string \<Rightarrow> point list \<Rightarrow> int
     \<Rightarrow> end_style \<Rightarrow> end_style \<Rightarrow> end_style \<Rightarrow> bool \<Rightarrow> (('c, 'x) lay_cellview \<times> shape_ref option) outcome" where
  "lu_add_path diag G cv layer purpose pts half_width style0 style1 stylem commit =
     (case make_path diag pts half_width style0 style1 stylem of
        Inl e \<Rightarrow> (Some e, (cv, None))
      | Inr polys \<Rightarrow> lu_add_polygon G cv layer purpose (Gi_set45 polys) commit)"

definition lu_add_path45_bus ::
  "(int \<Rightarrow> int) \<Rightarrow> 'x lay_ops \<Rightarrow> ('c, 'x) lay_cellview \<Rightarrow> string \<Rightarrow> string \<Rightarrow> point list \<Rightarrow> int list \<Rightarrow> int list
     \<Rightarrow> end_style \<Rightarrow> end_style \<Rightarrow> end_style \<Rightarrow> bool \<Rightarrow> (('c, 'x) lay_cellview \<times> shape_ref option) outcome" where
  "lu_add_path45_bus diag G cv layer purpose pts widths spaces style0 style1 stylem commit =
     (case make_path45_bus diag pts widths spaces style0 style1 stylem of
        Inl e \<Rightarrow> (Some e, (cv, None))
      | Inr polys \<Rightarrow> lu_add_polygon G cv layer purpose (Gi_set45 polys) commit)"

section \<open>The polygon of a segment\<close>

text \<open>The edges of a closed polygon.\<close>

definition poly_edges :: "point list \<Rightarrow> vector45 list" where
  "poly_edges pts = map2 vec_between pts (rotate1 pts)"

definition half_diag_ok :: "(int \<Rightarrow> int) \<Rightarrow> int \<Rightarrow> bool" where
  "half_diag_ok diag w \<longleftrightarrow> 0 < w \<and> 0 \<le> diag w \<and> diag w \<le> w \<and> w \<le> 2 * diag w"

lemma edges_path:
  "(\<forall>e\<in>set (map2 vec_between (x # xs) (xs @ [y])). P e) \<longleftrightarrow>
     successively (\<lambda>p q. P (vec_between p q)) (x # xs) \<and> P (vec_between (last (x # xs)) y)"
  by (induction xs arbitrary: x) auto

lemma edges_closed:
  assumes "pts \<noteq> []"
  shows "(\<forall>e\<in>set (poly_edges pts). P e) \<longleftrightarrow>
     successively (\<lambda>p q. P (vec_between p q)) pts \<and> P (vec_between (last pts) (hd pts))"
proof -
  obtain x xs where "pts = x # xs" using assms by (cases pts) auto
  then show ?thesis using edges_path [of x xs x P] by (simp only: poly_edges_def rotate1.simps list.sel)
qed

text \<open>The points at an end, by their coordinates along the segment and across.\<close>

definition pt_of :: "point \<Rightarrow> vector45 \<Rightarrow> int \<times> int \<Rightarrow> point" where
  "pt_of c p ab = (fst c + v_dx p * fst ab + v_dy p * snd ab, snd c + v_dy p * fst ab - v_dx p * snd ab)"

fun cap_reach :: "end_style \<Rightarrow> int \<Rightarrow> int \<Rightarrow> int" where
  "cap_reach ES_extend m r = m"
| "cap_reach ES_round m r = r"
| "cap_reach sty m r = 0"

fun cap_points :: "end_style \<Rightarrow> int \<Rightarrow> int \<Rightarrow> (int \<times> int) list" where
  "cap_points ES_truncate m r = [(0, m), (0, - m)]"
| "cap_points ES_extend m r = [(- m, m), (- m, - m)]"
| "cap_points ES_triangle m r = [(0, m), (- m, 0), (0, - m)]"
| "cap_points ES_round m r = [(- r, m), (- m, r), (- m, - r), (- r, - m)]"

lemma add_path_points_cap:
  "add_path_points vec x y p (get_rotate90 p) is_45 sty m r = vec @ map (pt_of (x, y) p) (cap_points sty m r)"
  by (cases sty) (simp_all add: pt_of_def pt_along_def get_rotate90_def vec45_def algebra_simps)

definition unit45 :: "vector45 \<Rightarrow> bool" where
  "unit45 p \<longleftrightarrow> v_dx p \<in> {-1, 0, 1} \<and> v_dy p \<in> {-1, 0, 1} \<and> (v_dx p \<noteq> 0 \<or> v_dy p \<noteq> 0)"

lemma vec_between_pt_of:
  "vec_between (pt_of c p ab) (pt_of c p cd) = vec_between (0, 0) (pt_of (0, 0) p (fst cd - fst ab, snd cd - snd ab))"
  by (simp add: vec_between_def pt_of_def vec45_def algebra_simps)

lemma pt_of_valid: "unit45 p \<Longrightarrow> a = 0 \<or> b = 0 \<or> \<bar>a\<bar> = \<bar>b\<bar> \<Longrightarrow> v45_valid (vec_between (0, 0) (pt_of (0, 0) p (a, b)))"
  by (auto simp: unit45_def v45_valid_def vec_between_def pt_of_def vec45_def)

lemma cap_valid:
  "unit45 p \<Longrightarrow> successively (\<lambda>p q. v45_valid (vec_between p q)) (map (pt_of c p) (cap_points sty m r))"
  using abs_minus_commute [of m r] by (cases sty) (simp_all add: vec_between_pt_of pt_of_valid)

lemma cap_ends:
  "cap_points sty m r \<noteq> []" "hd (cap_points sty m r) = (- cap_reach sty m r, m)"
  "last (cap_points sty m r) = (- cap_reach sty m r, - m)"
  "2 \<le> length (cap_points sty m r)" "length (cap_points sty m r) \<le> 4"
  by (cases sty; simp)+

lemma normalize_unit:
  "(x0, y0) \<noteq> (x1, y1) \<Longrightarrow> unit45 (v45_normalize (vec45 (x1 - x0) (y1 - y0)))"
  by (auto simp: unit45_def v45_normalize_def vec45_def sign45_def)

lemma unit45_simps:
  "unit45 p \<Longrightarrow> v45_valid p" "unit45 p \<Longrightarrow> \<not> (v_dx p = 0 \<and> v_dy p = 0)" "unit45 p \<Longrightarrow> unit45 (v45_invert p)"
  "v45_invert (get_rotate90 p) = get_rotate90 (v45_invert p)"
  by (auto simp: unit45_def v45_valid_def v45_invert_def get_rotate90_def vec45_def)

text \<open>Prolonging a vector does not change whether it has one of the directions.\<close>

lemma valid_prolonged:
  assumes "0 \<le> c"
  shows "v45_valid (vec45 (dx + sign45 dx * c) (dy + sign45 dy * c)) \<longleftrightarrow> v45_valid (vec45 dx dy)"
proof -
  have "\<bar>z + sign45 z * c\<bar> = \<bar>z\<bar> + \<bar>sign45 z\<bar> * c" "z + sign45 z * c = 0 \<longleftrightarrow> z = 0" "\<bar>sign45 z\<bar> = of_bool (z \<noteq> 0)" for z
    using assms by (auto simp: sign45_def)
  then show ?thesis by (auto simp: v45_valid_def vec45_def)
qed

lemma valid_neg: "v45_valid (vec45 (- a) (- b)) \<longleftrightarrow> v45_valid (vec45 a b)"
  by (auto simp: v45_valid_def vec45_def)

text \<open>
  C36.  The polygon of a segment has from four to eight points, for all combinations of end styles, and
  all its edges are horizontal, vertical or diagonal if and only if the segment itself is.  A segment
  in any other direction is drawn as well, with a polygon that is not one of 45 degrees: the test for
  it comes after the vector has been normalized, and never fails.
\<close>

theorem path_edges_45:
  assumes "half_diag_ok diag half_width" and "(x0, y0) \<noteq> (x1, y1)"
  shows "\<exists>pts. path_to_poly45 diag x0 y0 x1 y1 half_width sty0 sty1 = Inr pts \<and> 4 \<le> length pts \<and> length pts \<le> 8 \<and>
    ((\<forall>e\<in>set (poly_edges pts). v45_valid e) \<longleftrightarrow> v45_valid (vec45 (x1 - x0) (y1 - y0)))"
proof -
  let ?d = "vec45 (x1 - x0) (y1 - y0)" let ?p = "v45_normalize ?d"
  note unit = normalize_unit [OF assms(2)]
  have w: "half_width \<noteq> 0" using assms(1) by (simp add: half_diag_ok_def)
  obtain m r where mr: "(m, r) = (if is_45_or_invalid ?p then (diag half_width, half_width - diag half_width)
      else (half_width, 2 * diag half_width - half_width))" by (metis prod.exhaust)
  have mr0: "0 \<le> m" "0 \<le> r" using mr assms(1) by (auto simp: half_diag_ok_def split: if_splits)
  let ?A = "map (pt_of (x0, y0) ?p) (cap_points sty0 m r)" and ?B = "map (pt_of (x1, y1) (v45_invert ?p)) (cap_points sty1 m r)"
  have path: "path_to_poly45 diag x0 y0 x1 y1 half_width sty0 sty1 = Inr (?A @ ?B)"
    using w unit45_simps(1,2) [OF unit]
    by (auto simp: path_to_poly45_def Let_def mr [symmetric] unit45_simps(4) add_path_points_cap)
  define c where "c = cap_reach sty0 m r + cap_reach sty1 m r"
  have c: "0 \<le> c" unfolding c_def using mr0 by (cases sty0; cases sty1) simp_all
  have "vec_between (last ?A) (hd ?B) = vec45 (x1 - x0 + sign45 (x1 - x0) * c) (y1 - y0 + sign45 (y1 - y0) * c)"
    "vec_between (last ?B) (hd ?A) = vec45 (- (x1 - x0 + sign45 (x1 - x0) * c)) (- (y1 - y0 + sign45 (y1 - y0) * c))"
    unfolding c_def
    by (simp_all add: last_map hd_map cap_ends vec_between_def pt_of_def v45_invert_def v45_normalize_def vec45_def algebra_simps)
  then have "(\<forall>e\<in>set (poly_edges (?A @ ?B)). v45_valid e) \<longleftrightarrow> v45_valid ?d"
    using valid_prolonged [OF c] cap_ends(1) [of sty0 m r] cap_ends(1) [of sty1 m r]
    by (simp add: edges_closed successively_append_iff cap_valid unit unit45_simps(3) valid_neg del: minus_add_distrib)
  moreover have "4 \<le> length (?A @ ?B)" "length (?A @ ?B) \<le> 8"
    using cap_ends(4,5) [of sty0 m r] cap_ends(4,5) [of sty1 m r] by simp_all
  ultimately show ?thesis using path by blast
qed

text \<open>
  A diagonal segment with one square and one round end, and one with the slope 1/3, where the length
  of half the diagonal of 10 is 7.
\<close>

theorem path_edges_45_witness:
  "(case path_to_poly45 (\<lambda>w. 7) 0 0 100 100 10 ES_extend ES_round of Inl e \<Rightarrow> False
    | Inr pts \<Rightarrow> length pts \<le> 8 \<and> (\<forall>e\<in>set (poly_edges pts). v45_valid e)) \<and>
   (case path_to_poly45 (\<lambda>w. 7) 0 0 300 100 10 ES_extend ES_round of Inl e \<Rightarrow> False
    | Inr pts \<Rightarrow> \<not> (\<forall>e\<in>set (poly_edges pts). v45_valid e))"
proof -
  have ok: "half_diag_ok (\<lambda>w. 7) 10" by (simp add: half_diag_ok_def)
  have "v45_valid (vec45 (100 - 0) (100 - 0))" "\<not> v45_valid (vec45 (300 - 0) (100 - 0))"
    by (simp_all add: v45_valid_def vec45_def)
  with path_edges_45 [OF ok, of 0 0 100 100 ES_extend ES_round] path_edges_45 [OF ok, of 0 0 300 100 ES_extend ES_round]
  show ?thesis by auto
qed

section \<open>Buses\<close>

lemma bus_deltas_ne: "bus_deltas d widths spaces \<noteq> []"
  by (cases "(d, widths, spaces)" rule: bus_deltas.cases) simp_all

text \<open>
  A bus along a path that goes straight on at its second corner, or turns back there, divides by
  zero, although a single path is drawn there like anywhere else.
\<close>

theorem bus_straight_on_undefined:
  assumes "length widths = length spaces + 1"
    and "v45_normalize (vec_between p0 p1) = d"
    and "v45_normalize (vec_between p1 p2) = d \<or> v45_normalize (vec_between p1 p2) = v45_invert d"
  shows "make_path45_bus diag (p0 # p1 # p2 # pts) widths spaces style0 style1 stylem = Inl Undefined_behaviour"
proof -
  let ?d' = "v45_normalize (vec_between p1 p2)" and ?pts = "p0 # p1 # p2 # pts"
  have wire: "bus_wire diag p2 d ?d' sty0 stylem wire = Inl Undefined_behaviour" for sty0 wire
    using assms(3) by (cases wire) (auto simp: bus_wire_def v45_invert_def Let_def)
  obtain w ws where w: "widths = w # ws" using assms(1) by (cases widths) auto
  have seg: "bus_segment diag (d0 # ds) widths style0 stylem ?pts (ans, q # qs) 2 = Inl Undefined_behaviour" for d0 ds ans q qs
    by (simp add: bus_segment_def assms(2) w wire Let_def numeral_2_eq_2 split: prod.split)
  obtain d0 ds where ds: "bus_deltas ((- (sum_list widths + sum_list spaces) + hd widths) sdiv 2) widths spaces = d0 # ds"
    using bus_deltas_ne by (metis neq_Nil_conv)
  have two: "[2..<length ?pts] = 2 # [3..<length ?pts]" by (subst upt_conv_Cons) simp_all
  show ?thesis unfolding make_path45_bus_def Let_def ds two using assms(1) by (simp add: seg)
qed

theorem bus_straight_on_undefined_witness:
  "make_path45_bus (\<lambda>w. w) [(0, 0), (100, 0), (200, 0)] [10, 10] [20] ES_truncate ES_truncate ES_round = Inl Undefined_behaviour"
  by (rule bus_straight_on_undefined [where d = "vec45 1 0"])
    (simp_all add: v45_normalize_def vec_between_def vec45_def sign45_def)

end
