(* ===== verification/Held_Writer.thy ===== *)
theory Held_Writer
  imports Writers
begin

text \<open>
  The polygons of a geometry are given by Boost to a container that writes them, the \<^verbatim>\<open>polygon_writer\<close> of
  \<^verbatim>\<open>src/cbag/gdsii/write.cpp\<close> and that of \<^verbatim>\<open>include/cbag/oa/oa_polygon.h\<close>.  Both hold back the last polygon:
  \<open>push\<close> writes the one that is held and holds the new one, \<open>emit\<close> writes the one that is held.
\<close>

locale held_writer =
  fixes emit :: "'w \<Rightarrow> 's \<Rightarrow> 's outcome"
    and hold :: "'v \<Rightarrow> 'w \<Rightarrow> 'w"
    and push :: "'v \<Rightarrow> 'w \<times> 's \<Rightarrow> ('w \<times> 's) outcome"
  assumes hold_hold: "hold v (hold u w) = hold v w"
    and push: "push v (w, s) =
      (case emit w s of (Some e, s') \<Rightarrow> (Some e, (w, s')) | (None, s') \<Rightarrow> (None, (hold v w, s')))"
begin

text \<open>Filling such a writer and then writing what it holds is to write all in their order.\<close>

lemma fill:
  "(case forS push vs (w, s) of (e, (w', s')) \<Rightarrow> seqS (e, s') (emit w'))
     = seqS (emit w s) (forS (\<lambda>v. emit (hold v w)) vs)"
proof (induction vs arbitrary: w s)
  case Nil
  then show ?case by (cases "emit w s"; cases "fst (emit w s)") (auto simp: seqS_def)
next
  case (Cons v vs)
  obtain e s1 where r: "emit w s = (e, s1)" by fastforce
  show ?case
  proof (cases e)
    case None
    have "(\<lambda>u. emit (hold u (hold v w))) = (\<lambda>u. emit (hold u w))" by (simp add: hold_hold)
    with Cons.IH [of "hold v w" s1] show ?thesis by (simp add: push r None)
  qed (simp add: push r)
qed

end

end
