(* ===== verification/Gds_Lib.thy ===== *)
theory Gds_Lib
  imports Gds_Read Lay_Util Held_Writer
begin

text \<open>
  Whole GDSII libraries: \<^verbatim>\<open>src/cbag/gdsii/parse_map.cpp\<close>, \<^verbatim>\<open>write.cpp\<close>, \<^verbatim>\<open>read.cpp\<close> and the headers
  \<^verbatim>\<open>include/cbag/gdsii/parse_map.h\<close>, \<^verbatim>\<open>write.h\<close> and \<^verbatim>\<open>read.h\<close>.  Parameters are the file system, which
  gives the contents of a file or an error, Boost's tokenizer, and arithmetic on doubles.
\<close>

section \<open>Map files\<close>

text \<open>\<^verbatim>\<open>std::getline\<close> until it fails: a line break at the end of the file starts no further line.\<close>

fun lines_of :: "string \<Rightarrow> string \<Rightarrow> string list" where
  "lines_of acc [] = (if acc = [] then [] else [acc])"
| "lines_of acc (c # cs) = (if c = CHR 0x0A then acc # lines_of [] cs else lines_of (acc @ [c]) cs)"

text \<open>\<^verbatim>\<open>std::stoi\<close>: blanks, a sign, and digits, of which there must be one; the rest is ignored.\<close>

definition is_blank :: "char \<Rightarrow> bool" where
  "is_blank c \<longleftrightarrow> c \<in> {CHR '' '', CHR 0x09, CHR 0x0A, CHR 0x0B, CHR 0x0C, CHR 0x0D}"

definition digit_of :: "char \<Rightarrow> int option" where
  "digit_of c = (let n = of_char c :: nat in if 48 \<le> n \<and> n \<le> 57 then Some (int n - 48) else None)"

definition digits_value :: "string \<Rightarrow> int option" where
  "digits_value s =
     (case takeWhile (\<lambda>c. digit_of c \<noteq> None) s of
        [] \<Rightarrow> None
      | ds \<Rightarrow> Some (foldl (\<lambda>v c. 10 * v + (case digit_of c of None \<Rightarrow> 0 | Some d \<Rightarrow> d)) 0 ds))"

definition stoi :: "string \<Rightarrow> int result" where
  "stoi s =
     (let t = dropWhile is_blank s;
          v = (case t of
                 [] \<Rightarrow> None
               | c # cs \<Rightarrow> if c = CHR ''-'' then map_option uminus (digits_value cs)
                           else if c = CHR ''+'' then digits_value cs else digits_value t)
      in (case v of None \<Rightarrow> Inl Invalid_argument | Some i \<Rightarrow> if int32 i then Inr i else Inl Out_of_range))"

definition gds_to_int :: "string \<Rightarrow> 16 word result" where
  "gds_to_int s = (case stoi s of Inl e \<Rightarrow> Inl Runtime_error | Inr i \<Rightarrow> Inr (word_of_int i))"

text \<open>Four tokens, of which the last two are numbers.\<close>

definition parse_map_line :: "string list \<Rightarrow> (string \<times> string \<times> 16 word \<times> 16 word) result" where
  "parse_map_line toks =
     (case toks of
        val1 # val2 # t3 # rest \<Rightarrow>
          bindR (gds_to_int t3) (\<lambda>lay_id.
            (case rest of
               [] \<Rightarrow> Inl Runtime_error
             | t4 # rest' \<Rightarrow> bindR (gds_to_int t4) (\<lambda>purp_id. Inr (val1, val2, lay_id, purp_id))))
      | _ \<Rightarrow> Inl Runtime_error)"

type_synonym files = "string \<Rightarrow> string result"
type_synonym tokenizer = "string \<Rightarrow> string list"

definition process_file ::
  "files \<Rightarrow> tokenizer \<Rightarrow> string \<Rightarrow> (string \<times> string \<times> 16 word \<times> 16 word \<Rightarrow> 's \<Rightarrow> 's) \<Rightarrow> 's \<Rightarrow> 's result" where
  "process_file fs tok fname f s0 =
     bindR (fs fname) (\<lambda>contents.
       foldR (\<lambda>s line.
         if line \<noteq> [] \<and> hd line \<noteq> CHR ''#''
         then bindR (parse_map_line (tok line)) (\<lambda>entry. Inr (f entry s)) else Inr s)
         s0 (lines_of [] contents))"

section \<open>Writing\<close>

record gds_lookup =
  gl_lay_map :: "(layer_t \<times> gds_layer_t) list"
  gl_bnd_map :: "(boundary_type \<times> gds_layer_t) list"

definition bnd_type_of :: "string \<Rightarrow> string \<Rightarrow> boundary_type option" where
  "bnd_type_of s1 s2 =
     (if s1 = ''Boundary'' then if s2 = ''PR'' then Some Bnd_PR else if s2 = ''snap'' then Some Bnd_snap else None
      else None)"

definition tech_lay_purp :: "tech \<Rightarrow> string \<Rightarrow> string \<Rightarrow> layer_t option" where
  "tech_lay_purp t s1 s2 =
     (case (tech_get_layer_id t s1, tech_get_purpose_id t s2) of
        (Some lay, Some purp) \<Rightarrow> Some (lay, purp) | _ \<Rightarrow> None)"

definition parse_layer_map :: "files \<Rightarrow> tokenizer \<Rightarrow> string \<Rightarrow> tech \<Rightarrow> (layer_t \<times> gds_layer_t) list result" where
  "parse_layer_map fs tok fname t =
     process_file fs tok fname (\<lambda>(s1, s2, g) m.
       case tech_lay_purp t s1 s2 of None \<Rightarrow> m | Some k \<Rightarrow> um_emplace m k g) []"

definition parse_obj_map :: "files \<Rightarrow> tokenizer \<Rightarrow> string \<Rightarrow> (boundary_type \<times> gds_layer_t) list result" where
  "parse_obj_map fs tok fname =
     process_file fs tok fname (\<lambda>(s1, s2, g) m.
       case bnd_type_of s1 s2 of None \<Rightarrow> m | Some b \<Rightarrow> um_emplace m b g) []"

definition make_gds_lookup :: "files \<Rightarrow> tokenizer \<Rightarrow> tech \<Rightarrow> string \<Rightarrow> string \<Rightarrow> gds_lookup result" where
  "make_gds_lookup fs tok t lay_map_file obj_map_file =
     bindR (parse_layer_map fs tok lay_map_file t) (\<lambda>lm.
     bindR (parse_obj_map fs tok obj_map_file) (\<lambda>bm. Inr \<lparr>gl_lay_map = lm, gl_bnd_map = bm\<rparr>))"

definition gl_get_layer :: "gds_lookup \<Rightarrow> layer_t \<Rightarrow> gds_layer_t option" where
  "gl_get_layer l key = map_of (gl_lay_map l) key"

definition gl_get_boundary :: "gds_lookup \<Rightarrow> boundary_type \<Rightarrow> gds_layer_t option" where
  "gl_get_boundary l bnd_type = map_of (gl_bnd_map l) bnd_type"

text \<open>The local time of the system clock, with the year and the month as \<^verbatim>\<open>std::tm\<close> counts them.\<close>

definition get_gds_time :: "int \<times> int \<times> int \<times> int \<times> int \<times> int \<Rightarrow> 16 word list" where
  "get_gds_time tm =
     (case tm of (year, mon, mday, hour, minute, sec) \<Rightarrow>
        map word_of_int [year, mon + 1, mday, hour, minute, sec])"

definition write_gds_start ::
  "(dbl \<Rightarrow> dbl \<Rightarrow> dbl) \<Rightarrow> string \<Rightarrow> dbl \<Rightarrow> dbl \<Rightarrow> 16 word list \<Rightarrow> byte list \<Rightarrow> byte list outcome" where
  "write_gds_start fmul lib_name resolution user_unit time_vec =
     runS [write_header, write_lib_begin time_vec, write_lib_name lib_name, write_units fmul resolution user_unit]"

definition write_gds_stop :: "byte list \<Rightarrow> byte list outcome" where
  "write_gds_stop = write_lib_end"

text \<open>
  The writer that Boost fills with polygons holds back the last one until the next one comes, as Boost
  may still change it.
\<close>

record gds_writer =
  gw_layer :: "16 word"
  gw_purpose :: "16 word"
  gw_last :: "point list"

definition make_gds_writer :: "gds_layer_t \<Rightarrow> gds_writer" where
  "make_gds_writer g = \<lparr>gw_layer = fst g, gw_purpose = snd g, gw_last = []\<rparr>"

definition gw_record_last :: "gds_writer \<Rightarrow> byte list \<Rightarrow> byte list outcome" where
  "gw_record_last w out =
     (if length (gw_last w) > 0 then write_polygon (gw_layer w) (gw_purpose w) (gw_last w) out else (None, out))"

definition gw_push_back :: "point list \<Rightarrow> gds_writer \<times> byte list \<Rightarrow> (gds_writer \<times> byte list) outcome" where
  "gw_push_back v st =
     (case gw_record_last (fst st) (snd st) of
        (Some e, out) \<Rightarrow> (Some e, (fst st, out))
      | (None, out) \<Rightarrow> (None, ((fst st)\<lparr>gw_last := v\<rparr>, out)))"

interpretation gds_held: held_writer gw_record_last "\<lambda>v w. w\<lparr>gw_last := v\<rparr>" gw_push_back
  by unfold_locales (auto simp: gw_push_back_def split: option.split prod.split)

definition write_lay_geometry ::
  "'x lay_ops \<Rightarrow> gds_layer_t \<Rightarrow> geometry \<Rightarrow> byte list \<Rightarrow> byte list outcome" where
  "write_lay_geometry G g geo out =
     (case forS gw_push_back (lo_polygons G geo) (make_gds_writer g, out) of
        (e, (w, out)) \<Rightarrow> seqS (e, out) (gw_record_last w))"

definition write_lay_via ::
  "'x lay_ops \<Rightarrow> tech \<Rightarrow> gds_lookup \<Rightarrow> 'x via \<Rightarrow> byte list \<Rightarrow> byte list outcome" where
  "write_lay_via G t lookup v =
     tryS (tech_via_layer_purpose t (via_id v)) (\<lambda>(lay1_key, cut_key, lay2_key) out.
       (case (gl_get_layer lookup lay1_key, gl_get_layer lookup lay2_key, gl_get_layer lookup cut_key) of
          (Some g1, Some g2, Some gc) \<Rightarrow>
            runS ([write_box (fst g1) (snd g1) (get_bot_box (go_transform_box G) v),
                   write_box (fst g2) (snd g2) (get_top_box (go_transform_box G) v)] @
                  map (write_box (fst gc) (snd gc)) (get_via_cuts (go_transform_box G) v)) out
        | _ \<Rightarrow> (None, out)))"

definition write_lay_pin ::
  "(dbl \<Rightarrow> dbl \<Rightarrow> dbl) \<Rightarrow> 'x xform_ops \<Rightarrow> gds_layer_t \<Rightarrow> pin \<Rightarrow> bool \<Rightarrow> dbl \<Rightarrow> byte list \<Rightarrow> byte list outcome" where
  "write_lay_pin fmul T g p make_pin_obj resolution out =
     (let b = pin_box p in
      if \<not> box_is_physical b then (None, out)
      else
        (let xc = box_xm b; yc = box_ym b; w = box_width b; text_h = box_height b;
             (xform, text_h) = (if text_h > w then (make_xform T xc yc OR90, w) else (make_xform T xc yc OR0, text_h))
         in runS ([gds_write_text fmul T (fst g) (snd g) (pin_label p) xform text_h resolution] @
                  (if make_pin_obj then [write_box (fst g) (snd g) b] else [])) out))"

text \<open>The layer and the purpose of a label are written as they are, cut to 16 bits.\<close>

definition write_lay_label ::
  "(dbl \<Rightarrow> dbl \<Rightarrow> dbl) \<Rightarrow> 'x xform_ops \<Rightarrow> 'x label \<Rightarrow> dbl \<Rightarrow> byte list \<Rightarrow> byte list outcome" where
  "write_lay_label fmul T lab resolution =
     gds_write_text fmul T (ucast (fst (lb_key lab))) (ucast (snd (lb_key lab))) (lb_text lab) (lb_xform lab)
       (lb_height lab) resolution"

definition write_cell_inst ::
  "'x xform_ops \<Rightarrow> ('c \<Rightarrow> string) \<Rightarrow> (string \<rightharpoonup> string) \<Rightarrow> string \<times> ('c, 'x) lay_instance \<Rightarrow> byte list \<Rightarrow> byte list outcome" where
  "write_cell_inst T cv_name rename_map e =
     (case e of (inst_name, inst) \<Rightarrow>
        gds_write_instance T (li_get_cell_name cv_name inst (Some rename_map)) inst_name (li_xform inst)
          (li_nx inst) (li_ny inst) (li_spx inst) (li_spy inst))"

definition write_cell_geometry ::
  "'x lay_ops \<Rightarrow> gds_lookup \<Rightarrow> layer_t \<times> geometry \<Rightarrow> byte list \<Rightarrow> byte list outcome" where
  "write_cell_geometry G lookup e out =
     (case e of (key, geo) \<Rightarrow>
        (case gl_get_layer lookup key of None \<Rightarrow> (None, out) | Some g \<Rightarrow> write_lay_geometry G g geo out))"

definition write_cell_pins ::
  "(dbl \<Rightarrow> dbl \<Rightarrow> dbl) \<Rightarrow> 'x xform_ops \<Rightarrow> tech \<Rightarrow> gds_lookup \<Rightarrow> lay_t \<times> pin list \<Rightarrow> byte list \<Rightarrow> byte list outcome" where
  "write_cell_pins fmul T t lookup e out =
     (case e of (lay, pins) \<Rightarrow>
        (case gl_get_layer lookup (lay, tech_pin_purpose t) of
           None \<Rightarrow> (None, out)
         | Some g \<Rightarrow> forS (\<lambda>p. write_lay_pin fmul T g p (tech_make_pin t) (tech_resolution t)) pins out))"

definition write_cell_boundary :: "gds_lookup \<Rightarrow> boundary \<Rightarrow> byte list \<Rightarrow> byte list outcome" where
  "write_cell_boundary lookup b out =
     (case gl_get_boundary lookup (bd_type b) of
        None \<Rightarrow> (None, out) | Some g \<Rightarrow> write_polygon (fst g) (snd g) (bd_pts b) out)"

definition write_lay_cellview ::
  "(dbl \<Rightarrow> dbl \<Rightarrow> dbl) \<Rightarrow> 'x xform_ops \<Rightarrow> 'x lay_ops \<Rightarrow> ('c \<Rightarrow> string) \<Rightarrow> string \<Rightarrow> ('c, 'x) lay_cellview
     \<Rightarrow> (string \<rightharpoonup> string) \<Rightarrow> 16 word list \<Rightarrow> gds_lookup \<Rightarrow> byte list \<Rightarrow> byte list outcome" where
  "write_lay_cellview fmul T G cv_name cell_name cv rename_map time_vec lookup =
     (let t = lv_tech cv in
      runS [write_struct_begin time_vec, write_struct_name cell_name,
        forS (write_cell_inst T cv_name rename_map) (lv_inst_map cv),
        forS (write_cell_geometry G lookup) (lv_geo_map cv),
        forS (write_lay_via G t lookup) (lv_via_list cv),
        forS (write_cell_pins fmul T t lookup) (lv_pin_map cv),
        forS (\<lambda>lab. write_lay_label fmul T lab (tech_resolution t)) (lv_label_list cv),
        forS (write_cell_boundary lookup) (lv_boundary_list cv),
        write_struct_end])"

text \<open>
  A library: the cells under their new names, in an order in which masters come first.  The file has
  been opened, or that has failed.
\<close>

definition write_gds_cell ::
  "(dbl \<Rightarrow> dbl \<Rightarrow> dbl) \<Rightarrow> 'x xform_ops \<Rightarrow> 'x lay_ops \<Rightarrow> ('c \<Rightarrow> string) \<Rightarrow> 16 word list \<Rightarrow> gds_lookup
     \<Rightarrow> string \<times> ('c, 'x) lay_cellview \<Rightarrow> byte list \<times> (string \<rightharpoonup> string) \<Rightarrow> (byte list \<times> (string \<rightharpoonup> string)) outcome" where
  "write_gds_cell fmul T G cv_name time_vec lookup cell st =
     (case cell of (cv_cell_name, cv) \<Rightarrow>
        seqS (on_fst (write_lay_cellview fmul T G cv_name cv_cell_name cv (snd st) time_vec lookup) st)
          (\<lambda>st. (None, (fst st, (snd st)(lv_name cv \<mapsto> cv_cell_name)))))"

definition write_gds_cells ::
  "(dbl \<Rightarrow> dbl \<Rightarrow> dbl) \<Rightarrow> 'x xform_ops \<Rightarrow> 'x lay_ops \<Rightarrow> ('c \<Rightarrow> string) \<Rightarrow> files \<Rightarrow> tokenizer \<Rightarrow> 16 word list
     \<Rightarrow> string \<Rightarrow> string \<Rightarrow> (string \<times> ('c, 'x) lay_cellview) list \<Rightarrow> byte list \<Rightarrow> byte list outcome" where
  "write_gds_cells fmul T G cv_name fs tok time_vec layer_map obj_map cells out =
     (case cells of
        [] \<Rightarrow> (None, out)
      | c # _ \<Rightarrow>
          tryS (make_gds_lookup fs tok (lv_tech (snd c)) layer_map obj_map) (\<lambda>lookup out.
            (case forS (write_gds_cell fmul T G cv_name time_vec lookup) cells (out, Map.empty) of
               (e, st) \<Rightarrow> (e, fst st))) out)"

definition implement_gds ::
  "(dbl \<Rightarrow> dbl \<Rightarrow> dbl) \<Rightarrow> 'x xform_ops \<Rightarrow> 'x lay_ops \<Rightarrow> ('c \<Rightarrow> string) \<Rightarrow> files \<Rightarrow> tokenizer
     \<Rightarrow> int \<times> int \<times> int \<times> int \<times> int \<times> int \<Rightarrow> unit result \<Rightarrow> string \<Rightarrow> string \<Rightarrow> string \<Rightarrow> dbl \<Rightarrow> dbl
     \<Rightarrow> (string \<times> ('c, 'x) lay_cellview) list \<Rightarrow> byte list outcome" where
  "implement_gds fmul T G cv_name fs tok tm opened lib_name layer_map obj_map resolution user_unit cells =
     (let time_vec = get_gds_time tm in
      tryS opened (\<lambda>_. runS [write_gds_start fmul lib_name resolution user_unit time_vec,
        write_gds_cells fmul T G cv_name fs tok time_vec layer_map obj_map cells, write_gds_stop]) [])"

section \<open>Reading\<close>

record gds_rlookup =
  gr_lay_map :: "(gds_layer_t \<times> layer_t) list"
  gr_bnd_map :: "(gds_layer_t \<times> boundary_type) list"

definition get_gds_to_lay_map :: "files \<Rightarrow> tokenizer \<Rightarrow> string \<Rightarrow> tech \<Rightarrow> (gds_layer_t \<times> layer_t) list result" where
  "get_gds_to_lay_map fs tok fname t =
     process_file fs tok fname (\<lambda>(s1, s2, g) m.
       case tech_lay_purp t s1 s2 of None \<Rightarrow> m | Some k \<Rightarrow> um_emplace m g k) []"

definition get_gds_to_bnd_map :: "files \<Rightarrow> tokenizer \<Rightarrow> string \<Rightarrow> (gds_layer_t \<times> boundary_type) list result" where
  "get_gds_to_bnd_map fs tok fname =
     process_file fs tok fname (\<lambda>(s1, s2, g) m.
       case bnd_type_of s1 s2 of None \<Rightarrow> m | Some b \<Rightarrow> um_emplace m g b) []"

definition make_gds_rlookup :: "files \<Rightarrow> tokenizer \<Rightarrow> string \<Rightarrow> string \<Rightarrow> tech \<Rightarrow> gds_rlookup result" where
  "make_gds_rlookup fs tok lay_fname obj_fname t =
     bindR (get_gds_to_lay_map fs tok lay_fname t) (\<lambda>lm.
     bindR (get_gds_to_bnd_map fs tok obj_fname) (\<lambda>bm. Inr \<lparr>gr_lay_map = lm, gr_bnd_map = bm\<rparr>))"

datatype gds_mapping = Map_layer layer_t | Map_boundary boundary_type | Map_none

definition gr_get_mapping :: "gds_rlookup \<Rightarrow> gds_layer_t \<Rightarrow> gds_mapping" where
  "gr_get_mapping r key =
     (case map_of (gr_lay_map r) key of
        Some k \<Rightarrow> Map_layer k
      | None \<Rightarrow> (case map_of (gr_bnd_map r) key of Some b \<Rightarrow> Map_boundary b | None \<Rightarrow> Map_none))"

definition gr_get_layer_t :: "gds_rlookup \<Rightarrow> gds_layer_t \<Rightarrow> layer_t result" where
  "gr_get_layer_t r key = (case map_of (gr_lay_map r) key of None \<Rightarrow> Inl Runtime_error | Some k \<Rightarrow> Inr k)"

definition read_gds_start :: "string reader" where
  "read_gds_start =
     rbind read_header (\<lambda>_. rbind read_lib_begin (\<lambda>_. rbind read_lib_name (\<lambda>ans. rbind read_units (\<lambda>_. rret ans))))"

definition gds_add_object ::
  "'x lay_ops \<Rightarrow> gds_rlookup \<Rightarrow> gds_layer_t \<times> point list \<Rightarrow> ('c, 'x) lay_cellview \<Rightarrow> ('c, 'x) lay_cellview outcome" where
  "gds_add_object G rmap obj cv =
     (case gr_get_mapping rmap (fst obj) of
        Map_layer k \<Rightarrow> lv_add_shape G k (Gi_shape (Sh_poly (snd obj))) cv
      | Map_boundary b \<Rightarrow> (None, lv_add_boundary \<lparr>bd_type = b, bd_pts = snd obj\<rparr> cv)
      | Map_none \<Rightarrow> (None, cv))"

text \<open>The state of the reader of a cell: the cell, the number of unnamed instances, and what is left.\<close>

type_synonym ('c, 'x) cell_state = "('c, 'x) lay_cellview \<times> 64 word \<times> byte list"

definition finish :: "('c, 'x) lay_cellview outcome \<Rightarrow> 64 word \<Rightarrow> byte list \<Rightarrow> ('c, 'x) cell_state result" where
  "finish r cnt s = (case r of (None, cv) \<Rightarrow> Inr (cv, cnt, s) | (Some e, cv) \<Rightarrow> Inl e)"

definition read_cell_text ::
  "(real \<Rightarrow> dbl \<Rightarrow> real) \<Rightarrow> 'x xform_ops \<Rightarrow> gds_rlookup \<Rightarrow> ('c, 'x) cell_state \<Rightarrow> ('c, 'x) cell_state result" where
  "read_cell_text fdiv T rmap st =
     (case st of (cv, cnt, s) \<Rightarrow>
        bindR (read_text T s) (\<lambda>((key, xform, text, text_h_dbl), s).
        bindR (dbl_to_int (fdiv text_h_dbl (tech_resolution (lv_tech cv)))) (\<lambda>text_h.
        bindR (gr_get_layer_t rmap key) (\<lambda>k. Inr (lv_add_label k xform text text_h cv, cnt, s)))))"

definition read_cell_inst ::
  "'x xform_ops \<Rightarrow> 'x lay_ops \<Rightarrow> ('c \<Rightarrow> int \<Rightarrow> 'x geo_index result)
     \<Rightarrow> (64 word \<Rightarrow> (('c, 'x) lay_instance \<times> 64 word) reader) \<Rightarrow> ('c, 'x) cell_state
     \<Rightarrow> ('c, 'x) cell_state result option" where
  "read_cell_inst T G master_index rd st =
     (case st of (cv, cnt, s) \<Rightarrow>
        (case rd cnt s of
           Inl e \<Rightarrow> Some (Inl e)
         | Inr ((inst, cnt), s) \<Rightarrow> map_option (\<lambda>r. finish r cnt s) (lv_add_instance T G master_index cv inst)))"

definition read_cell_object ::
  "'x lay_ops \<Rightarrow> gds_rlookup \<Rightarrow> (gds_layer_t \<times> point list) reader \<Rightarrow> ('c, 'x) cell_state \<Rightarrow> ('c, 'x) cell_state result" where
  "read_cell_object G rmap rd st =
     (case st of (cv, cnt, s) \<Rightarrow>
        bindR (rd s) (\<lambda>(obj, s). finish (gds_add_object G rmap obj cv) cnt s))"

definition read_cell_element ::
  "(real \<Rightarrow> dbl \<Rightarrow> real) \<Rightarrow> 'x xform_ops \<Rightarrow> 'x lay_ops \<Rightarrow> ('c \<Rightarrow> int \<Rightarrow> 'x geo_index result) \<Rightarrow> gds_rlookup
     \<Rightarrow> (string \<rightharpoonup> 'c) \<Rightarrow> 16 word \<Rightarrow> ('c, 'x) cell_state \<Rightarrow> ('c, 'x) cell_state result option" where
  "read_cell_element fdiv T G master_index rmap master_map rtype st =
     (if rtype = record_code TEXT then Some (read_cell_text fdiv T rmap st)
      else if rtype = record_code SREF then read_cell_inst T G master_index (read_instance T master_map) st
      else if rtype = record_code AREF then read_cell_inst T G master_index (read_arr_instance T master_map) st
      else if rtype = record_code BOX then Some (read_cell_object G rmap read_box st)
      else if rtype = record_code BOUNDARY then Some (read_cell_object G rmap read_boundary st)
      else Some (Inl Runtime_error))"

text \<open>The loop over the elements of a cell; the value \<open>None\<close> says that it does not end.\<close>

partial_function (option) read_cell_loop ::
  "(real \<Rightarrow> dbl \<Rightarrow> real) \<Rightarrow> 'x xform_ops \<Rightarrow> 'x lay_ops \<Rightarrow> ('c \<Rightarrow> int \<Rightarrow> 'x geo_index result) \<Rightarrow> gds_rlookup
     \<Rightarrow> (string \<rightharpoonup> 'c) \<Rightarrow> ('c, 'x) cell_state \<Rightarrow> (('c, 'x) lay_cellview \<times> byte list) result option" where
  "read_cell_loop fdiv T G master_index rmap master_map st =
     (case read_record_header (snd (snd st)) of
        Inl e \<Rightarrow> Some (Inl e)
      | Inr (h, s) \<Rightarrow>
          if fst h = record_code ENDSTR then Some (Inr (fst st, s))
          else Option.bind (read_cell_element fdiv T G master_index rmap master_map (fst h) (fst st, fst (snd st), s))
            (\<lambda>r. (case r of Inl e \<Rightarrow> Some (Inl e) | Inr st' \<Rightarrow> read_cell_loop fdiv T G master_index rmap master_map st')))"

definition read_lay_cellview ::
  "(real \<Rightarrow> dbl \<Rightarrow> real) \<Rightarrow> 'x xform_ops \<Rightarrow> 'x lay_ops \<Rightarrow> ('c \<Rightarrow> int \<Rightarrow> 'x geo_index result) \<Rightarrow> routing_grid
     \<Rightarrow> gds_rlookup \<Rightarrow> (string \<rightharpoonup> 'c) \<Rightarrow> byte list \<Rightarrow> ((string \<times> ('c, 'x) lay_cellview) \<times> byte list) result option" where
  "read_lay_cellview fdiv T G master_index g rmap master_map s =
     (case read_struct_name s of
        Inl e \<Rightarrow> Some (Inl e)
      | Inr (cell_name, s) \<Rightarrow>
          map_option (\<lambda>r. bindR r (\<lambda>(cv, s). Inr ((cell_name, cv), s)))
            (read_cell_loop fdiv T G master_index rmap master_map (make_lay_cellview g cell_name POLY, 0, s)))"

text \<open>
  The cells that have been read are shared with the instances of later ones: a pointer to a cell is its
  position in the list.
\<close>

type_synonym 'x cells = "(nat, 'x) lay_cellview list"

definition cell_index :: "'x cells \<Rightarrow> nat \<Rightarrow> int \<Rightarrow> 'x geo_index result" where
  "cell_index cells i lev = bindR (nth_or_undefined cells i) (\<lambda>cv. lv_get_geo_index cv lev)"

partial_function (option) read_gds_loop ::
  "(real \<Rightarrow> dbl \<Rightarrow> real) \<Rightarrow> 'x xform_ops \<Rightarrow> 'x lay_ops \<Rightarrow> routing_grid \<Rightarrow> gds_rlookup \<Rightarrow> byte list
     \<Rightarrow> 'x cells \<times> (string \<times> nat) list \<Rightarrow> ('x cells \<times> (string \<times> nat) list) outcome option" where
  "read_gds_loop fdiv T G g rmap s st =
     (case read_record_header s of
        Inl e \<Rightarrow> Some (Some e, st)
      | Inr (h, s) \<Rightarrow>
          if fst h = record_code BGNSTR
          then Option.bind (read_lay_cellview fdiv T G (cell_index (fst st)) g rmap (map_of (snd st)) (drop (unat (snd h)) s))
            (\<lambda>r. (case r of
                Inl e \<Rightarrow> Some (Some e, st)
              | Inr (cell, s) \<Rightarrow> read_gds_loop fdiv T G g rmap s
                  (fst st @ [snd cell], um_emplace (snd st) (fst cell) (length (fst st)))))
          else if fst h = record_code ENDLIB then Some (None, st)
          else Some (Some Runtime_error, st))"

definition read_gds ::
  "(real \<Rightarrow> dbl \<Rightarrow> real) \<Rightarrow> 'x xform_ops \<Rightarrow> 'x lay_ops \<Rightarrow> files \<Rightarrow> tokenizer \<Rightarrow> byte list result \<Rightarrow> string \<Rightarrow> string
     \<Rightarrow> routing_grid \<Rightarrow> 'x cells outcome option" where
  "read_gds fdiv T G fs tok contents layer_map obj_map g =
     (case bindR contents read_gds_start of
        Inl e \<Rightarrow> Some (Some e, [])
      | Inr (lib_name, s) \<Rightarrow>
          (case make_gds_rlookup fs tok layer_map obj_map (rg_tech g) of
             Inl e \<Rightarrow> Some (Some e, [])
           | Inr rmap \<Rightarrow> map_option (\<lambda>(e, st). (e, fst st)) (read_gds_loop fdiv T G g rmap s ([], []))))"

end
