(* ===== verification/Gds_Lib_Props.thy ===== *)
theory Gds_Lib_Props
  imports Gds_Lib Gds_Roundtrip
begin

text \<open>
  What is read back from a GDSII library that has been written: the figures of its cells, for cells
  without instances, pins and labels.
\<close>

section \<open>Figures\<close>

datatype fig_key = Key_layer layer_t | Key_boundary boundary_type

datatype figure = Fig_poly "point list" | Fig_box box_t

definition box_corners :: "box_t \<Rightarrow> point list" where
  "box_corners b = [(box_xl b, box_yl b), (box_xh b, box_yl b), (box_xh b, box_yh b), (box_xl b, box_yh b),
     (box_xl b, box_yl b)]"

fun fig_points :: "figure \<Rightarrow> point list" where
  "fig_points (Fig_poly pts) = closed_points pts"
| "fig_points (Fig_box b) = box_corners b"

fun fig_fits :: "figure \<Rightarrow> bool" where
  "fig_fits (Fig_poly pts) \<longleftrightarrow> pts \<noteq> [] \<and> length pts \<le> 8189 \<and> (\<forall>p\<in>set pts. point_fits p)"
| "fig_fits (Fig_box b) \<longleftrightarrow> point_fits (box_xl b, box_yl b) \<and> point_fits (box_xh b, box_yh b)"

fun fig_write :: "gds_layer_t \<Rightarrow> figure \<Rightarrow> byte list \<Rightarrow> byte list outcome" where
  "fig_write g (Fig_poly pts) = write_polygon (fst g) (snd g) pts"
| "fig_write g (Fig_box b) = write_box (fst g) (snd g) b"

fun fig_bytes :: "gds_layer_t \<times> figure \<Rightarrow> byte list" where
  "fig_bytes (g, Fig_poly pts) = rec_bytes BOUNDARY 0 [] @ rec_bytes LAYER 2 (write_bytes (fst g)) @
     rec_bytes DATATYPE 2 (write_bytes (snd g)) @
     rec_bytes XY (8 * length (closed_points pts)) (xy_bytes (closed_points pts)) @ rec_bytes ENDEL 0 []"
| "fig_bytes (g, Fig_box b) = rec_bytes BOX 0 [] @ rec_bytes LAYER 2 (write_bytes (fst g)) @
     rec_bytes BOXTYPE 2 (write_bytes (snd g)) @ rec_bytes XY 40 (xy_bytes (box_corners b)) @ rec_bytes ENDEL 0 []"

lemma writes_fig: "fig_fits f \<Longrightarrow> writes (fig_write g f) (fig_bytes (g, f))"
proof (cases f)
  case (Fig_poly pts)
  assume "fig_fits f"
  then have "writes (write_polygon (fst g) (snd g) pts) (concat [rec_bytes BOUNDARY 0 [],
      rec_bytes LAYER 2 (write_bytes (fst g)), rec_bytes DATATYPE 2 (write_bytes (snd g)),
      rec_bytes XY (8 * length (closed_points pts)) (xy_bytes (closed_points pts)), rec_bytes ENDEL 0 []])"
    unfolding write_polygon_def write_element_end_def
    using writes_points [of pts] Fig_poly by (intro writes_runS) (simp add: writes_empty writes_int)
  then show ?thesis by (simp add: Fig_poly)
next
  case (Fig_box b)
  have "writes (write_box (fst g) (snd g) b) (concat [rec_bytes BOX 0 [], rec_bytes LAYER 2 (write_bytes (fst g)),
    rec_bytes BOXTYPE 2 (write_bytes (snd g)), rec_bytes XY 40 (xy_bytes (box_corners b)), rec_bytes ENDEL 0 []])"
    unfolding write_box_def Let_def write_element_end_def box_corners_def
    using writes_xy [of "box_corners b" 10] by (intro writes_runS) (simp add: writes_empty writes_int box_corners_def)
  then show ?thesis by (simp add: Fig_box)
qed

definition reads_as :: "byte list \<Rightarrow> gds_layer_t \<times> figure \<Rightarrow> bool" where
  "reads_as b gf \<longleftrightarrow> (\<forall>s. \<exists>n s' rd. read_record_header (b @ s) = Inr ((n, 0), s') \<and>
     (n = record_code BOUNDARY \<and> rd = read_boundary \<or> n = record_code BOX \<and> rd = read_box) \<and>
     rd s' = Inr ((fst gf, fig_points (snd gf)), s))"

lemma reads_fig: "fig_fits f \<Longrightarrow> reads_as (fig_bytes (g, f)) (g, f)"
proof (cases f)
  case (Fig_poly pts)
  assume "fig_fits f"
  then have "\<forall>p\<in>set (closed_points pts). point_fits p" "8 * length (closed_points pts) + 4 < 2 ^ 16"
    using Fig_poly by (auto simp: closed_points_def)
  then show ?thesis
    by (auto simp: reads_as_def Fig_poly read_boundary_rec)
next
  case (Fig_box b)
  assume "fig_fits f"
  then have "\<forall>p\<in>set (box_corners b). point_fits p" by (simp add: Fig_box box_corners_def point_fits_def)
  moreover have "length (box_corners b) = 5" by (simp add: box_corners_def)
  ultimately have "read_points 5 (xy_bytes (box_corners b) @ s) = Inr (box_corners b, s)" for s
    by (metis read_points_xy)
  then show ?thesis by (auto simp: reads_as_def Fig_box read_box_def)
qed

section \<open>Cells\<close>

text \<open>The figures that are written for a cell, with the layers and boundary types that they come from.\<close>

definition via_figures :: "'x lay_ops \<Rightarrow> tech \<Rightarrow> gds_lookup \<Rightarrow> 'x via \<Rightarrow> (fig_key \<times> figure) list" where
  "via_figures G t lookup v =
     (case tech_via_layer_purpose t (via_id v) of
        Inl e \<Rightarrow> []
      | Inr (k1, kc, k2) \<Rightarrow>
          if gl_get_layer lookup k1 = None \<or> gl_get_layer lookup k2 = None \<or> gl_get_layer lookup kc = None then []
          else [(Key_layer k1, Fig_box (get_bot_box (go_transform_box G) v)),
                (Key_layer k2, Fig_box (get_top_box (go_transform_box G) v))] @
               map (\<lambda>b. (Key_layer kc, Fig_box b)) (get_via_cuts (go_transform_box G) v))"

fun key_layer :: "gds_lookup \<Rightarrow> fig_key \<Rightarrow> gds_layer_t option" where
  "key_layer lookup (Key_layer k) = gl_get_layer lookup k"
| "key_layer lookup (Key_boundary b) = gl_get_boundary lookup b"

definition geo_figures :: "'x lay_ops \<Rightarrow> layer_t \<times> geometry \<Rightarrow> (fig_key \<times> figure) list" where
  "geo_figures G e = map (\<lambda>pts. (Key_layer (fst e), Fig_poly pts)) (filter (\<lambda>pts. pts \<noteq> []) (lo_polygons G (snd e)))"

definition bnd_figures :: "boundary \<Rightarrow> (fig_key \<times> figure) list" where
  "bnd_figures b = [(Key_boundary (bd_type b), Fig_poly (bd_pts b))]"

definition all_figures :: "'x lay_ops \<Rightarrow> gds_lookup \<Rightarrow> ('c, 'x) lay_cellview \<Rightarrow> (fig_key \<times> figure) list" where
  "all_figures G lookup cv =
     concat (map (geo_figures G) (lv_geo_map cv)) @
     concat (map (via_figures G (lv_tech cv) lookup) (lv_via_list cv)) @
     concat (map bnd_figures (lv_boundary_list cv))"

text \<open>Those whose layer or boundary type is in the map.\<close>

definition cell_figures :: "'x lay_ops \<Rightarrow> gds_lookup \<Rightarrow> ('c, 'x) lay_cellview \<Rightarrow> (fig_key \<times> figure) list" where
  "cell_figures G lookup cv = filter (\<lambda>e. key_layer lookup (fst e) \<noteq> None) (all_figures G lookup cv)"

text \<open>The figures of a cell as they are added to a new cell.\<close>

fun add_figure :: "'x lay_ops \<Rightarrow> fig_key \<times> figure \<Rightarrow> ('c, 'x) lay_cellview \<Rightarrow> ('c, 'x) lay_cellview outcome" where
  "add_figure G (Key_layer k, f) cv = lv_add_shape G k (Gi_shape (Sh_poly (fig_points f))) cv"
| "add_figure G (Key_boundary b, f) cv = (None, lv_add_boundary \<lparr>bd_type = b, bd_pts = fig_points f\<rparr> cv)"

definition cell_again ::
  "'x lay_ops \<Rightarrow> gds_lookup \<Rightarrow> routing_grid \<Rightarrow> string \<times> ('c, 'x) lay_cellview \<Rightarrow> (nat, 'x) lay_cellview outcome" where
  "cell_again G lookup g cell =
     forS (add_figure G) (cell_figures G lookup (snd cell)) (make_lay_cellview g (padded (fst cell)) POLY)"

definition maps_inverse :: "gds_lookup \<Rightarrow> gds_rlookup \<Rightarrow> bool" where
  "maps_inverse lookup rmap \<longleftrightarrow>
     (\<forall>k gl. gl_get_layer lookup k = Some gl \<longrightarrow> gr_get_mapping rmap gl = Map_layer k) \<and>
     (\<forall>b gl. gl_get_boundary lookup b = Some gl \<longrightarrow> gr_get_mapping rmap gl = Map_boundary b)"

text \<open>Cells that are nothing but figures, all of which fit into the format.\<close>

definition plain_cell :: "'x lay_ops \<Rightarrow> gds_lookup \<Rightarrow> string \<times> ('c, 'x) lay_cellview \<Rightarrow> bool" where
  "plain_cell G lookup cell \<longleftrightarrow>
     (let cv = snd cell in
      name_fits (fst cell) \<and> lv_inst_map cv = [] \<and> lv_pin_map cv = [] \<and> lv_label_list cv = [] \<and>
      (\<forall>v\<in>set (lv_via_list cv). \<exists>k. tech_via_layer_purpose (lv_tech cv) (via_id v) = Inr k) \<and>
      (\<forall>e\<in>set (cell_figures G lookup cv). fig_fits (snd e)))"

definition gds_of_fig :: "gds_lookup \<Rightarrow> fig_key \<times> figure \<Rightarrow> gds_layer_t \<times> figure" where
  "gds_of_fig lookup e = (the (key_layer lookup (fst e)), snd e)"

lemma gds_add_figure:
  "maps_inverse lookup rmap \<Longrightarrow> key_layer lookup (fst e) \<noteq> None \<Longrightarrow>
   gds_add_object G rmap (fst (gds_of_fig lookup e), fig_points (snd e)) cv = add_figure G e cv"
  by (cases e; cases "fst e") (auto simp: maps_inverse_def gds_of_fig_def gds_add_object_def)

lemma read_cell_figure:
  assumes "fig_fits (snd e)" and "maps_inverse lookup rmap" and "key_layer lookup (fst e) \<noteq> None"
  shows "read_cell_loop fdiv T G mi rmap mm (cv, cnt, fig_bytes (gds_of_fig lookup e) @ s) =
    (case add_figure G e cv of (None, cv') \<Rightarrow> read_cell_loop fdiv T G mi rmap mm (cv', cnt, s) | (Some err, cv') \<Rightarrow> Some (Inl err))"
proof -
  have "reads_as (fig_bytes (gds_of_fig lookup e)) (gds_of_fig lookup e)"
    using reads_fig [OF assms(1)] by (simp add: gds_of_fig_def)
  then obtain n s' rd where rd: "read_record_header (fig_bytes (gds_of_fig lookup e) @ s) = Inr ((n, 0), s')"
    "n = record_code BOUNDARY \<and> rd = read_boundary \<or> n = record_code BOX \<and> rd = read_box"
    "rd s' = Inr ((fst (gds_of_fig lookup e), fig_points (snd e)), s)"
    unfolding reads_as_def by (metis gds_of_fig_def snd_conv)
  have "read_cell_element fdiv T G mi rmap mm n (cv, cnt, s') = Some (finish (add_figure G e cv) cnt s)"
    using rd(2,3) gds_add_figure [OF assms(2,3), of G cv]
    by (auto simp: read_cell_element_def read_cell_object_def)
  moreover have "n \<noteq> record_code ENDSTR" using rd(2) by auto
  ultimately show ?thesis
    by (subst read_cell_loop.simps) (auto simp: rd(1) finish_def split: prod.split option.split)
qed

lemma read_cell_figures:
  assumes "\<forall>e\<in>set es. fig_fits (snd e) \<and> key_layer lookup (fst e) \<noteq> None" and "maps_inverse lookup rmap"
  shows "read_cell_loop fdiv T G mi rmap mm (cv, cnt, concat (map (fig_bytes \<circ> gds_of_fig lookup) es) @ rec_bytes ENDSTR 0 [] @ s) =
    (case forS (add_figure G) es cv of (None, cv') \<Rightarrow> Some (Inr (cv', s)) | (Some err, cv') \<Rightarrow> Some (Inl err))"
  using assms(1)
proof (induction es arbitrary: cv)
  case Nil
  then show ?case by (subst read_cell_loop.simps) simp
next
  case (Cons e es)
  then show ?case
    by (auto simp: read_cell_figure [OF _ assms(2)] seqS_def split: prod.split option.split)
qed

section \<open>What is written\<close>

lemma writes_forS: "(\<And>x. x \<in> set xs \<Longrightarrow> writes (f x) (b x)) \<Longrightarrow> writes (forS f xs) (concat (map b xs))"
  unfolding writes_def by (auto intro: forS_emits)

lemma writes_forS_Nil: "writes (forS f []) []"
  by (simp add: writes_def)

definition figs_bytes :: "gds_lookup \<Rightarrow> (fig_key \<times> figure) list \<Rightarrow> byte list" where
  "figs_bytes lookup es = concat (map (fig_bytes \<circ> gds_of_fig lookup) (filter (\<lambda>e. key_layer lookup (fst e) \<noteq> None) es))"

lemma figs_bytes_simps:
  "figs_bytes lookup [] = []" "figs_bytes lookup (as @ bs) = figs_bytes lookup as @ figs_bytes lookup bs"
  "figs_bytes lookup (concat (map f xs)) = concat (map (\<lambda>x. figs_bytes lookup (f x)) xs)"
proof -
  show app: "figs_bytes lookup (as @ bs) = figs_bytes lookup as @ figs_bytes lookup bs" for as bs
    by (simp add: figs_bytes_def)
  show nil: "figs_bytes lookup [] = []" by (simp add: figs_bytes_def)
  show "figs_bytes lookup (concat (map f xs)) = concat (map (\<lambda>x. figs_bytes lookup (f x)) xs)"
    by (induction xs) (simp_all add: app nil)
qed

definition figs_fit :: "gds_lookup \<Rightarrow> (fig_key \<times> figure) list \<Rightarrow> bool" where
  "figs_fit lookup es \<longleftrightarrow> (\<forall>e\<in>set es. key_layer lookup (fst e) \<noteq> None \<longrightarrow> fig_fits (snd e))"

lemma figs_fit_simps:
  "figs_fit lookup (as @ bs) \<longleftrightarrow> figs_fit lookup as \<and> figs_fit lookup bs"
  "figs_fit lookup (concat (map f xs)) \<longleftrightarrow> (\<forall>x\<in>set xs. figs_fit lookup (f x))"
  by (auto simp: figs_fit_def)

lemma figs_fit_filter:
  "figs_fit lookup es \<longleftrightarrow> (\<forall>e\<in>set (filter (\<lambda>e. key_layer lookup (fst e) \<noteq> None) es). fig_fits (snd e))"
  by (simp only: figs_fit_def set_filter Ball_def mem_Collect_eq imp_conjL)

text \<open>A geometry is written as if each polygon were written at once; those without points are left out.\<close>

lemma write_lay_geometry_direct: "write_lay_geometry G g geo =
    forS (\<lambda>pts. if pts = [] then (\<lambda>out. (None, out)) else write_polygon (fst g) (snd g) pts) (lo_polygons G geo)"
proof
  have one: "(\<lambda>v. gw_record_last (make_gds_writer g\<lparr>gw_last := v\<rparr>)) =
      (\<lambda>pts. if pts = [] then (\<lambda>out. (None, out)) else write_polygon (fst g) (snd g) pts)"
    by (intro ext) (simp add: gw_record_last_def make_gds_writer_def)
  fix out
  have start: "gw_record_last (make_gds_writer g) out = (None, out)"
    by (simp add: gw_record_last_def make_gds_writer_def)
  show "write_lay_geometry G g geo out =
      forS (\<lambda>pts. if pts = [] then (\<lambda>out. (None, out)) else write_polygon (fst g) (snd g) pts) (lo_polygons G geo) out"
    using gds_held.fill [of "lo_polygons G geo" "make_gds_writer g" out]
    unfolding write_lay_geometry_def one start by simp
qed

lemma writes_geometry:
  assumes "figs_fit lookup (geo_figures G e)"
  shows "writes (write_cell_geometry G lookup e) (figs_bytes lookup (geo_figures G e))"
proof (cases "gl_get_layer lookup (fst e)")
  case None
  then have "figs_bytes lookup (geo_figures G e) = []"
    by (simp add: figs_bytes_def geo_figures_def filter_map comp_def)
  with None show ?thesis by (simp add: write_cell_geometry_def writes_def case_prod_unfold)
next
  case (Some g)
  have "writes (if pts = [] then (\<lambda>out. (None, out)) else write_polygon (fst g) (snd g) pts)
      (if pts = [] then [] else fig_bytes (g, Fig_poly pts))" if "pts \<in> set (lo_polygons G (snd e))" for pts
  proof (cases "pts = []")
    case False
    then have "fig_fits (Fig_poly pts)"
      using assms that Some by (auto simp: figs_fit_def geo_figures_def simp del: fig_fits.simps)
    then show ?thesis using writes_fig [of "Fig_poly pts" g] False by simp
  qed (simp add: writes_nothing)
  then have "writes (write_lay_geometry G g (snd e))
      (concat (map (\<lambda>pts. if pts = [] then [] else fig_bytes (g, Fig_poly pts)) (lo_polygons G (snd e))))"
    unfolding write_lay_geometry_direct by (rule writes_forS)
  moreover have "concat (map (\<lambda>pts. if pts = [] then [] else fig_bytes (g, Fig_poly pts)) ps)
      = figs_bytes lookup (map (\<lambda>pts. (Key_layer (fst e), Fig_poly pts)) (filter (\<lambda>pts. pts \<noteq> []) ps))" for ps
    by (induction ps) (simp_all add: figs_bytes_def Some gds_of_fig_def)
  ultimately show ?thesis
    by (simp add: write_cell_geometry_def Some writes_def geo_figures_def case_prod_unfold)
qed

lemma writes_via:
  assumes "figs_fit lookup (via_figures G t lookup v)" and "\<exists>k. tech_via_layer_purpose t (via_id v) = Inr k"
  shows "writes (write_lay_via G t lookup v) (figs_bytes lookup (via_figures G t lookup v))"
proof -
  obtain k1 kc k2 where k: "tech_via_layer_purpose t (via_id v) = Inr (k1, kc, k2)" using assms(2) by auto
  show ?thesis
  proof (cases "gl_get_layer lookup k1 = None \<or> gl_get_layer lookup k2 = None \<or> gl_get_layer lookup kc = None")
    case True
    then show ?thesis
      by (auto simp: write_lay_via_def k via_figures_def figs_bytes_simps writes_def split: option.split)
  next
    case False
    then obtain g1 g2 gc where g: "gl_get_layer lookup k1 = Some g1" "gl_get_layer lookup k2 = Some g2"
      "gl_get_layer lookup kc = Some gc" by auto
    let ?cuts = "get_via_cuts (go_transform_box G) v"
    have fits: "fig_fits (Fig_box (get_bot_box (go_transform_box G) v))" "fig_fits (Fig_box (get_top_box (go_transform_box G) v))"
      "\<forall>b\<in>set ?cuts. fig_fits (Fig_box b)"
      using assms(1) by (auto simp: figs_fit_def via_figures_def k g)
    have box: "fig_fits (Fig_box b) \<Longrightarrow> writes (write_box (fst g) (snd g) b) (fig_bytes (g, Fig_box b))" for g b
      using writes_fig [of "Fig_box b" g] by simp
    have "writes (runS ([write_box (fst g1) (snd g1) (get_bot_box (go_transform_box G) v),
          write_box (fst g2) (snd g2) (get_top_box (go_transform_box G) v)] @ map (write_box (fst gc) (snd gc)) ?cuts))
        (concat ([fig_bytes (g1, Fig_box (get_bot_box (go_transform_box G) v)),
          fig_bytes (g2, Fig_box (get_top_box (go_transform_box G) v))] @ map (\<lambda>b. fig_bytes (gc, Fig_box b)) ?cuts))"
      using fits box
      by (intro writes_runS list_all2_appendI) (simp_all add: list_all2_map1 list_all2_map2 list_all2_same del: fig_bytes.simps)
    moreover have "figs_bytes lookup (map (\<lambda>b. (Key_layer kc, Fig_box b)) bs) = concat (map (\<lambda>b. fig_bytes (gc, Fig_box b)) bs)" for bs
      by (induction bs) (simp_all add: figs_bytes_def g gds_of_fig_def)
    ultimately show ?thesis
      by (simp add: write_lay_via_def k g via_figures_def figs_bytes_def gds_of_fig_def writes_def del: fig_bytes.simps)
  qed
qed

lemma writes_boundary:
  assumes "figs_fit lookup (bnd_figures b)"
  shows "writes (write_cell_boundary lookup b) (figs_bytes lookup (bnd_figures b))"
proof (cases "gl_get_boundary lookup (bd_type b)")
  case None
  then show ?thesis by (simp add: write_cell_boundary_def figs_bytes_def writes_def bnd_figures_def)
next
  case (Some g)
  then have "fig_fits (Fig_poly (bd_pts b))" using assms by (simp add: figs_fit_def bnd_figures_def)
  from writes_fig [OF this, of g] Some show ?thesis
    by (simp add: write_cell_boundary_def figs_bytes_def gds_of_fig_def writes_def bnd_figures_def)
qed

definition time_ok :: "16 word list \<Rightarrow> bool" where
  "time_ok time_vec \<longleftrightarrow> length time_vec = 6"

definition group_bytes :: "record_type \<Rightarrow> 16 word list \<Rightarrow> byte list" where
  "group_bytes R time_vec = rec_bytes R 24 (concat (map write_bytes (time_vec @ time_vec)))"

lemma writes_group: "time_ok time_vec \<Longrightarrow> writes (write_grp_begin R time_vec) (group_bytes R time_vec)"
  unfolding write_grp_begin_def Let_def group_bytes_def by (rule writes_record) (simp_all add: time_ok_def)

definition name_bytes :: "record_type \<Rightarrow> string \<Rightarrow> byte list" where
  "name_bytes R name = rec_bytes R (length (padded name)) (uchars (padded name))"

lemma writes_cell:
  assumes "plain_cell G lookup (name, cv)" and "time_ok time_vec"
  shows "writes (write_lay_cellview fmul T G cv_name name cv rename_map time_vec lookup)
    (group_bytes BGNSTR time_vec @ name_bytes STRNAME name @
     concat (map (fig_bytes \<circ> gds_of_fig lookup) (cell_figures G lookup cv)) @ rec_bytes ENDSTR 0 [])"
proof -
  have fits: "figs_fit lookup (all_figures G lookup cv)"
    using assms(1) unfolding plain_cell_def Let_def cell_figures_def figs_fit_filter by simp
  have geo: "writes (forS (write_cell_geometry G lookup) (lv_geo_map cv))
      (figs_bytes lookup (concat (map (geo_figures G) (lv_geo_map cv))))"
    unfolding figs_bytes_simps using fits
    by (intro writes_forS writes_geometry) (simp add: all_figures_def figs_fit_simps)
  have via: "writes (forS (write_lay_via G (lv_tech cv) lookup) (lv_via_list cv))
      (figs_bytes lookup (concat (map (via_figures G (lv_tech cv) lookup) (lv_via_list cv))))"
    unfolding figs_bytes_simps using fits assms(1)
    by (intro writes_forS writes_via) (simp_all add: all_figures_def figs_fit_simps plain_cell_def Let_def)
  have bnd: "writes (forS (write_cell_boundary lookup) (lv_boundary_list cv))
      (figs_bytes lookup (concat (map bnd_figures (lv_boundary_list cv))))"
    unfolding figs_bytes_simps using fits
    by (intro writes_forS writes_boundary) (simp add: all_figures_def figs_fit_simps)
  have name: "name_fits name" and empty: "lv_inst_map cv = []" "lv_pin_map cv = []" "lv_label_list cv = []"
    using assms(1) by (simp_all add: plain_cell_def Let_def)
  have "writes (write_lay_cellview fmul T G cv_name name cv rename_map time_vec lookup)
      (concat [group_bytes BGNSTR time_vec, name_bytes STRNAME name, [],
        figs_bytes lookup (concat (map (geo_figures G) (lv_geo_map cv))),
        figs_bytes lookup (concat (map (via_figures G (lv_tech cv) lookup) (lv_via_list cv))), [], [],
        figs_bytes lookup (concat (map bnd_figures (lv_boundary_list cv))), rec_bytes ENDSTR 0 []])"
    unfolding write_lay_cellview_def Let_def empty write_struct_begin_def write_struct_name_def write_struct_end_def
    using geo via bnd writes_group [OF assms(2)] name
    by (intro writes_runS) (simp add: writes_empty writes_name name_bytes_def writes_forS_Nil)
  moreover have "concat (map (fig_bytes \<circ> gds_of_fig lookup) (cell_figures G lookup cv))
    = figs_bytes lookup (all_figures G lookup cv)"
    by (simp only: figs_bytes_def cell_figures_def)
  ultimately show ?thesis by (simp add: figs_bytes_simps(2) all_figures_def)
qed

section \<open>Libraries\<close>

lemma read_skip_group: "time_ok time_vec \<Longrightarrow> read_skip R 2 12 (group_bytes R time_vec @ s) = Inr ((), s)"
proof -
  assume t: "time_ok time_vec"
  have len: "length (write_bytes (v :: 16 word)) = 2" for v by (simp add: write_bytes_def)
  have "length (concat (map write_bytes (time_vec @ time_vec))) = 24"
    using t by (simp add: length_concat comp_def len time_ok_def sum_list_triv)
  moreover have "check_record_header R 2 12 (group_bytes R time_vec @ s)
      = Inr (word_of_nat 12, concat (map write_bytes (time_vec @ time_vec)) @ s)"
    unfolding group_bytes_def by (rule check_record_header_rec) simp_all
  ultimately show ?thesis by (simp add: read_skip_def stream_ignore_def)
qed

lemma read_group_header:
  "time_ok time_vec \<Longrightarrow> \<exists>n p. read_record_header (group_bytes R time_vec @ s) = Inr ((record_code R, n), p @ s) \<and> length p = unat n"
proof -
  assume t: "time_ok time_vec"
  have len: "length (write_bytes (v :: 16 word)) = 2" for v by (simp add: write_bytes_def)
  have "length (concat (map write_bytes (time_vec @ time_vec))) = 24"
    using t by (simp add: length_concat comp_def len time_ok_def sum_list_triv)
  then show ?thesis
    by (intro exI [of _ "word_of_nat 24"] exI [of _ "concat (map write_bytes (time_vec @ time_vec))"])
      (simp add: group_bytes_def)
qed

lemma read_gds_cell:
  assumes "plain_cell G lookup (name, cv)" and "time_ok time_vec" and "maps_inverse lookup rmap"
    and "cell_again G lookup g (name, cv) = (None, cv')"
  shows "read_gds_loop fdiv T G g rmap ((group_bytes BGNSTR time_vec @ name_bytes STRNAME name @
      concat (map (fig_bytes \<circ> gds_of_fig lookup) (cell_figures G lookup cv)) @ rec_bytes ENDSTR 0 []) @ s) (cells, m)
    = read_gds_loop fdiv T G g rmap s (cells @ [cv'], um_emplace m (padded name) (length cells))"
proof -
  let ?rest = "concat (map (fig_bytes \<circ> gds_of_fig lookup) (cell_figures G lookup cv)) @ rec_bytes ENDSTR 0 [] @ s"
  obtain n p where head: "read_record_header (group_bytes BGNSTR time_vec @ name_bytes STRNAME name @ ?rest)
      = Inr ((record_code BGNSTR, n), p @ name_bytes STRNAME name @ ?rest)" "length p = unat n"
    using read_group_header [OF assms(2)] by blast
  have figs: "\<forall>e\<in>set (cell_figures G lookup cv). fig_fits (snd e) \<and> key_layer lookup (fst e) \<noteq> None"
    using assms(1) by (auto simp: plain_cell_def Let_def cell_figures_def)
  have "read_struct_name (name_bytes STRNAME name @ ?rest) = Inr (padded name, ?rest)"
    using assms(1) by (simp add: read_struct_name_def name_bytes_def plain_cell_def Let_def)
  then have "read_lay_cellview fdiv T G (cell_index cells) g rmap (map_of m) (name_bytes STRNAME name @ ?rest)
      = Some (Inr ((padded name, cv'), s))"
    using read_cell_figures [OF figs assms(3), where T = T and fdiv = fdiv and G = G and cnt = 0 and s = s
        and mi = "cell_index cells" and mm = "map_of m" and cv = "make_lay_cellview g (padded name) POLY"] assms(4)
    by (simp add: read_lay_cellview_def cell_again_def)
  with head show ?thesis
    by (subst read_gds_loop.simps) simp
qed

lemma read_gds_cells:
  assumes "\<forall>c\<in>set cells. plain_cell G lookup c \<and> fst (cell_again G lookup g c) = None"
    and "time_ok time_vec" and "maps_inverse lookup rmap"
  shows "\<exists>bs m'. (\<forall>out rn. \<exists>rn'. forS (write_gds_cell fmul T G cv_name time_vec lookup) cells (out, rn) = (None, (out @ bs, rn'))) \<and>
    (\<forall>s. read_gds_loop fdiv T G g rmap (bs @ s) (done_cells, m) =
       read_gds_loop fdiv T G g rmap s (done_cells @ map (\<lambda>c. snd (cell_again G lookup g c)) cells, m'))"
  using assms(1)
proof (induction cells arbitrary: done_cells m)
  case Nil
  then show ?case by (intro exI [of _ "[]"] exI [of _ m]) simp
next
  case (Cons c cells)
  obtain name cv where c: "c = (name, cv)" by (cases c)
  define cv' where "cv' = snd (cell_again G lookup g c)"
  have again: "cell_again G lookup g (name, cv) = (None, cv')" using Cons.prems by (simp add: cv'_def c prod_eq_iff)
  let ?b = "group_bytes BGNSTR time_vec @ name_bytes STRNAME name @
    concat (map (fig_bytes \<circ> gds_of_fig lookup) (cell_figures G lookup cv)) @ rec_bytes ENDSTR 0 []"
  obtain bs m' where rest: "\<forall>out rn. \<exists>rn'. forS (write_gds_cell fmul T G cv_name time_vec lookup) cells (out, rn) = (None, (out @ bs, rn'))"
    "\<forall>s. read_gds_loop fdiv T G g rmap (bs @ s) (done_cells @ [cv'], um_emplace m (padded name) (length done_cells)) =
       read_gds_loop fdiv T G g rmap s ((done_cells @ [cv']) @ map (\<lambda>c. snd (cell_again G lookup g c)) cells, m')"
    using Cons.IH [of "done_cells @ [cv']" "um_emplace m (padded name) (length done_cells)"] Cons.prems by auto
  have written: "\<exists>rn'. forS (write_gds_cell fmul T G cv_name time_vec lookup) (c # cells) (out, rn) = (None, (out @ ?b @ bs, rn'))" for out rn
  proof -
    have "write_lay_cellview fmul T G cv_name name cv rn time_vec lookup out = (None, out @ ?b)"
      using writes_cell [of G lookup name cv time_vec fmul T cv_name rn] Cons.prems assms(2) by (simp add: writes_def c)
    then have "write_gds_cell fmul T G cv_name time_vec lookup c (out, rn) = (None, (out @ ?b, rn(lv_name cv \<mapsto> name)))"
      by (simp add: write_gds_cell_def on_fst_def c)
    moreover obtain rn' where "forS (write_gds_cell fmul T G cv_name time_vec lookup) cells (out @ ?b, rn(lv_name cv \<mapsto> name))
        = (None, ((out @ ?b) @ bs, rn'))" using rest(1) by blast
    ultimately show ?thesis by (simp del: append_assoc)
  qed
  have "read_gds_loop fdiv T G g rmap (?b @ bs @ s) (done_cells, m) =
       read_gds_loop fdiv T G g rmap s (done_cells @ map (\<lambda>c. snd (cell_again G lookup g c)) (c # cells), m')" for s
    using read_gds_cell [OF _ assms(2,3) again, of fdiv T "bs @ s" done_cells m] rest(2) Cons.prems
    by (simp add: c cv'_def del: append_assoc) (simp add: append_assoc)
  with written show ?case by (intro exI [of _ "?b @ bs"] exI [of _ m']) (simp only: append_assoc, blast)
qed

definition start_bytes :: "string \<Rightarrow> 64 word \<Rightarrow> 64 word \<Rightarrow> 16 word list \<Rightarrow> byte list" where
  "start_bytes lib_name g1 g2 time_vec =
     rec_bytes HEADER 2 (write_bytes gds_version) @ group_bytes BGNLIB time_vec @ name_bytes LIBNAME lib_name @
     rec_bytes UNITS 16 (write_bytes g1 @ write_bytes g2)"

lemma writes_start:
  assumes "name_fits lib_name" and "time_ok time_vec" and "double_to_gds resolution = Inr g1"
    and "double_to_gds (fmul resolution user_unit) = Inr g2"
  shows "writes (write_gds_start fmul lib_name resolution user_unit time_vec) (start_bytes lib_name g1 g2 time_vec)"
proof -
  have "writes (gds_write UNITS 2 [g1, g2]) (rec_bytes UNITS 16 (write_bytes g1 @ write_bytes g2))"
    using writes_record [of 16 2 UNITS "[g1, g2]"] by simp
  then have "writes (write_units fmul resolution user_unit) (rec_bytes UNITS 16 (write_bytes g1 @ write_bytes g2))"
    by (simp add: writes_def write_units_def assms(3,4))
  then have "writes (write_gds_start fmul lib_name resolution user_unit time_vec)
      (concat [rec_bytes HEADER 2 (write_bytes gds_version), group_bytes BGNLIB time_vec, name_bytes LIBNAME lib_name,
        rec_bytes UNITS 16 (write_bytes g1 @ write_bytes g2)])"
    unfolding write_gds_start_def write_header_def write_lib_begin_def write_lib_name_def name_bytes_def
    using assms(1,2) by (intro writes_runS) (simp add: writes_int writes_group writes_name)
  then show ?thesis by (simp add: start_bytes_def)
qed

lemma read_start:
  assumes "name_fits lib_name" and "time_ok time_vec"
  shows "read_gds_start (start_bytes lib_name g1 g2 time_vec @ s) = Inr (padded lib_name, s)"
proof -
  have len: "length (write_bytes (v :: 64 word)) = 8" for v by (simp add: write_bytes_def)
  have "check_record_header UNITS 8 2 (rec_bytes UNITS 16 (write_bytes g1 @ write_bytes g2) @ s)
      = Inr (word_of_nat 2, (write_bytes g1 @ write_bytes g2) @ s)"
    by (rule check_record_header_rec) simp_all
  then have "read_skip UNITS 8 2 (rec_bytes UNITS 16 (write_bytes g1 @ write_bytes g2) @ s) = Inr ((), s)"
    by (simp add: read_skip_def stream_ignore_def len)
  then show ?thesis
    using assms
    by (simp add: read_gds_start_def start_bytes_def read_header_def read_lib_begin_def read_grp_begin_def
        read_lib_name_def read_units_def read_skip_group name_bytes_def)
qed

text \<open>
  C5.  A library of cells that consist of shapes, vias and boundaries is read back from the bytes that
  are written for it: the same cells in the same order, each with all its figures whose layer or
  boundary type is in the map files, as polygons on the same layer and as boundaries of the same type.
  Polygons come back closed, their first point being repeated, the boxes of a via as polygons, and
  names padded to an even length.
\<close>

theorem gds_library_round_trip:
  assumes "make_gds_lookup fs tok (lv_tech (snd (hd cells))) layer_map obj_map = Inr lookup"
    and "make_gds_rlookup fs tok layer_map obj_map (rg_tech g) = Inr rmap" and "maps_inverse lookup rmap"
    and "\<forall>c\<in>set cells. plain_cell G lookup c \<and> fst (cell_again G lookup g c) = None"
    and "name_fits lib_name" and "dbl_converts resolution" and "dbl_converts (fmul resolution user_unit)"
  shows "\<exists>bs. implement_gds fmul T G cv_name fs tok tm (Inr ()) lib_name layer_map obj_map resolution user_unit cells = (None, bs) \<and>
    read_gds fdiv T G fs tok (Inr bs) layer_map obj_map g = Some (None, map (\<lambda>c. snd (cell_again G lookup g c)) cells)"
proof -
  let ?tv = "get_gds_time tm"
  have tv: "time_ok ?tv" by (simp add: time_ok_def get_gds_time_def split: prod.split)
  obtain g1 g2 where gs: "double_to_gds resolution = Inr g1" "double_to_gds (fmul resolution user_unit) = Inr g2"
    using assms(6,7) by (auto simp: dbl_converts_def)
  obtain bs m' where bs: "\<forall>out rn. \<exists>rn'. forS (write_gds_cell fmul T G cv_name ?tv lookup) cells (out, rn) = (None, (out @ bs, rn'))"
    "\<forall>s. read_gds_loop fdiv T G g rmap (bs @ s) ([], []) =
       read_gds_loop fdiv T G g rmap s ([] @ map (\<lambda>c. snd (cell_again G lookup g c)) cells, m')"
    using read_gds_cells [OF assms(4) tv assms(3)] by metis
  have "writes (write_gds_cells fmul T G cv_name fs tok ?tv layer_map obj_map cells) bs"
    unfolding writes_def
  proof
    fix out
    obtain rn' where "forS (write_gds_cell fmul T G cv_name ?tv lookup) cells (out, Map.empty) = (None, (out @ bs, rn'))"
      using bs(1) by blast
    with assms(1) show "write_gds_cells fmul T G cv_name fs tok ?tv layer_map obj_map cells out = (None, out @ bs)"
      by (cases cells) (simp_all add: write_gds_cells_def)
  qed
  then have "writes (runS [write_gds_start fmul lib_name resolution user_unit ?tv,
      write_gds_cells fmul T G cv_name fs tok ?tv layer_map obj_map cells, write_gds_stop])
      (concat [start_bytes lib_name g1 g2 ?tv, bs, rec_bytes ENDLIB 0 []])"
    using writes_start [where fmul = fmul, OF assms(5) tv gs]
    by (intro writes_runS) (simp add: write_gds_stop_def write_lib_end_def writes_empty)
  then have "implement_gds fmul T G cv_name fs tok tm (Inr ()) lib_name layer_map obj_map resolution user_unit cells
      = (None, start_bytes lib_name g1 g2 ?tv @ bs @ rec_bytes ENDLIB 0 [])"
    by (simp add: implement_gds_def writes_def)
  moreover have "read_gds_loop fdiv T G g rmap (rec_bytes ENDLIB 0 []) st = Some (None, st)" for st
    using read_record_header_rec [of 0 ENDLIB "[]" "[]"] by (subst read_gds_loop.simps) simp
  then have "read_gds_loop fdiv T G g rmap (bs @ rec_bytes ENDLIB 0 []) ([], [])
      = Some (None, (map (\<lambda>c. snd (cell_again G lookup g c)) cells, m'))"
    using bs(2) by simp
  then have "read_gds fdiv T G fs tok (Inr (start_bytes lib_name g1 g2 ?tv @ bs @ rec_bytes ENDLIB 0 [])) layer_map obj_map g
      = Some (None, map (\<lambda>c. snd (cell_again G lookup g c)) cells)"
    by (simp add: read_gds_def read_start [OF assms(5) tv] assms(2))
  ultimately show ?thesis by blast
qed

text \<open>A cell with one square and a boundary of the same shape.\<close>

fun words_of :: "string \<Rightarrow> string \<Rightarrow> string list" where
  "words_of acc [] = (if acc = [] then [] else [acc])"
| "words_of acc (c # cs) =
     (if c = CHR '' '' then (if acc = [] then words_of [] cs else acc # words_of [] cs) else words_of (acc @ [c]) cs)"

definition unit_square :: "point list" where
  "unit_square = [(0, 0), (10, 0), (10, 10), (0, 10)]"

definition square_ops :: "(orientation \<times> point) lay_ops" where
  "square_ops = \<lparr>go_transform_box = (\<lambda>b x. b), go_transform_pts = (\<lambda>pts x. pts), go_extents = (\<lambda>pts. Some (make_box 0 0 10 10)),
     go_meets = (\<lambda>s b. True), lo_set45 = (\<lambda>parts. parts), lo_extents = (\<lambda>g. None), lo_polygons = (\<lambda>g. [unit_square])\<rparr>"

definition square_grid :: routing_grid where
  "square_grid = \<lparr>rg_tech = \<lparr>tech_lib = [], tech_layout_unit = 0, tech_resolution = 0, tech_use_flip_parity = False,
       tech_make_pin = False, tech_lp = \<lparr>lp_default_purpose = 0, lp_pin_purpose = 0, lp_lay_map = [(''M1'', 60)],
         lp_purp_map = [(''drawing'', 7)]\<rparr>,
       tech_vlookup = \<lparr>vl_lp_map = [], vl_id_map = [], vl_info_map = []\<rparr>, tech_sp_grp = [],
       tech_sp_sc_type = DIFF_COLOR, tech_len_map = [], tech_bot_layer = 1, tech_lp_list = [], tech_lev_map = [], tech_color_map = []\<rparr>,
     rg_bot_level = 1, rg_info_list = [], rg_top_ignore = 0, rg_top_private = 0\<rparr>"

definition square_cell :: "(unit, orientation \<times> point) lay_cellview" where
  "square_cell = (make_lay_cellview square_grid ''sq'' POLY90)
     \<lparr>lv_geo_map := [((60, 7), make_geometry POLY90)], lv_boundary_list := [\<lparr>bd_type = Bnd_PR, bd_pts = unit_square\<rparr>]\<rparr>"

definition square_files :: files where
  "square_files fname = (if fname = ''lay'' then Inr (''M1 drawing 20 46'' @ [CHR 0x0A]) else Inr ''Boundary PR 10 1'')"

theorem gds_library_round_trip_witness:
  "\<exists>bs cv. implement_gds (\<lambda>a b. a) pair_ops square_ops (\<lambda>c. []) square_files (words_of []) (124, 0, 1, 0, 0, 0) (Inr ())
       ''lib'' ''lay'' ''obj'' 0x3F50624DD2F1A9FC 0 [(''sq'', square_cell)] = (None, bs) \<and>
     read_gds (\<lambda>a b. a) pair_ops square_ops square_files (words_of []) (Inr bs) ''lay'' ''obj'' square_grid = Some (None, [cv]) \<and>
     lv_geo_map cv = [((60, 7), \<lparr>geo_mode = POLY, geo_data = [Gi_shape (Sh_poly (unit_square @ [(0, 0)]))]\<rparr>)] \<and>
     lv_boundary_list cv = [\<lparr>bd_type = Bnd_PR, bd_pts = unit_square @ [(0, 0)]\<rparr>]"
proof -
  let ?lookup = "\<lparr>gl_lay_map = [((60, 7), (20, 46))], gl_bnd_map = [(Bnd_PR, (10, 1))]\<rparr>"
  let ?rmap = "\<lparr>gr_lay_map = [((20, 46), (60, 7))], gr_bnd_map = [((10, 1), Bnd_PR)]\<rparr>"
  let ?cv = "snd (cell_again square_ops ?lookup square_grid (''sq'', square_cell))"
  have tech: "lv_tech (snd (hd [(''sq'', square_cell)])) = rg_tech square_grid"
    by (simp add: lv_tech_def square_cell_def make_lay_cellview_def)
  have lookup: "make_gds_lookup square_files (words_of []) (rg_tech square_grid) ''lay'' ''obj'' = Inr ?lookup" by code_simp
  have rmap: "make_gds_rlookup square_files (words_of []) ''lay'' ''obj'' (rg_tech square_grid) = Inr ?rmap" by code_simp
  have inv: "maps_inverse ?lookup ?rmap"
    by (auto simp: maps_inverse_def gl_get_layer_def gl_get_boundary_def gr_get_mapping_def split: if_splits)
  have figs: "cell_figures square_ops ?lookup square_cell
      = [(Key_layer (60, 7), Fig_poly unit_square), (Key_boundary Bnd_PR, Fig_poly unit_square)]" by code_simp
  have plain: "plain_cell square_ops ?lookup (''sq'', square_cell)"
    by (simp add: plain_cell_def figs Let_def name_fits_def)
      (simp add: square_cell_def make_lay_cellview_def unit_square_def point_fits_def int32_def)
  have again: "fst (cell_again square_ops ?lookup square_grid (''sq'', square_cell)) = None" by code_simp
  have cv: "lv_geo_map ?cv = [((60, 7), \<lparr>geo_mode = POLY, geo_data = [Gi_shape (Sh_poly (unit_square @ [(0, 0)]))]\<rparr>)]"
    "lv_boundary_list ?cv = [\<lparr>bd_type = Bnd_PR, bd_pts = unit_square @ [(0, 0)]\<rparr>]" by code_simp+
  have "double_to_gds 0x3F50624DD2F1A9FC = Inr (projr (double_to_gds 0x3F50624DD2F1A9FC))" by code_simp
  then have dbl: "dbl_converts 0x3F50624DD2F1A9FC" unfolding dbl_converts_def ..
  have "\<forall>c\<in>set [(''sq'', square_cell)]. plain_cell square_ops ?lookup c \<and> fst (cell_again square_ops ?lookup square_grid c) = None"
    using plain again by simp
  from gds_library_round_trip [OF lookup [folded tech] rmap inv this _ dbl, where fmul = "\<lambda>a b. a" and T = pair_ops
      and cv_name = "\<lambda>c. []" and lib_name = "''lib''" and user_unit = 0 and tm = "(124, 0, 1, 0, 0, 0)" and fdiv = "\<lambda>a b. a"]
  show ?thesis using cv dbl by (auto simp: name_fits_def)
qed

end
