(* ===== verification/Sch_Figures.thy ===== *)
theory Sch_Figures
  imports Schematic Transform Lp_Lookup
begin

text \<open>
  The figures of schematics: \<^verbatim>\<open>shape_base\<close> and the shapes derived from it, texts, pins and the two
  variants \<^verbatim>\<open>shape_t\<close> and \<^verbatim>\<open>pin_fig_t\<close> of \<^verbatim>\<open>include/cbag/schematic\<close>, with their constructors in
  \<^verbatim>\<open>src/cbag/schematic\<close>.  Derivation is extension of records.
\<close>

section \<open>Enumerations\<close>

text \<open>
  Enumerations with an underlying type of 8 bits.  A value of the type that is no enumerator is the last
  constructor of each.
\<close>

datatype font_t = Font_euroStyle | Font_gothic | Font_math | Font_roman | Font_script | Font_stick
  | Font_fixed | Font_swedish | Font_milSpec | Font_other "8 word"

datatype path_style = Style_truncate | Style_extend | Style_round | Style_variable
  | Style_other "8 word"

datatype text_align = Align_upperLeft | Align_centerLeft | Align_lowerLeft | Align_upperCenter
  | Align_centerCenter | Align_lowerCenter | Align_upperRight | Align_centerRight | Align_lowerRight
  | Align_other "8 word"

datatype term_attr_type = Attr_name | Attr_hasPins | Attr_numBits | Attr_other "8 word"

datatype text_disp_format = Disp_name | Disp_value | Disp_nameValue | Disp_other "8 word"

text \<open>Conversions from and to the underlying type.\<close>

definition enum_of_code :: "'e list \<Rightarrow> (8 word \<Rightarrow> 'e) \<Rightarrow> 8 word \<Rightarrow> 'e" where
  "enum_of_code enumerators other w =
     (if unat w < length enumerators then enumerators ! unat w else other w)"

fun font_code :: "font_t \<Rightarrow> 8 word" where
  "font_code Font_euroStyle = 0"
| "font_code Font_gothic = 1"
| "font_code Font_math = 2"
| "font_code Font_roman = 3"
| "font_code Font_script = 4"
| "font_code Font_stick = 5"
| "font_code Font_fixed = 6"
| "font_code Font_swedish = 7"
| "font_code Font_milSpec = 8"
| "font_code (Font_other w) = w"

definition font_of_code :: "8 word \<Rightarrow> font_t" where
  "font_of_code = enum_of_code [Font_euroStyle, Font_gothic, Font_math, Font_roman, Font_script,
     Font_stick, Font_fixed, Font_swedish, Font_milSpec] Font_other"

fun style_code :: "path_style \<Rightarrow> 8 word" where
  "style_code Style_truncate = 0"
| "style_code Style_extend = 1"
| "style_code Style_round = 2"
| "style_code Style_variable = 3"
| "style_code (Style_other w) = w"

definition style_of_code :: "8 word \<Rightarrow> path_style" where
  "style_of_code =
     enum_of_code [Style_truncate, Style_extend, Style_round, Style_variable] Style_other"

fun align_code :: "text_align \<Rightarrow> 8 word" where
  "align_code Align_upperLeft = 0"
| "align_code Align_centerLeft = 1"
| "align_code Align_lowerLeft = 2"
| "align_code Align_upperCenter = 3"
| "align_code Align_centerCenter = 4"
| "align_code Align_lowerCenter = 5"
| "align_code Align_upperRight = 6"
| "align_code Align_centerRight = 7"
| "align_code Align_lowerRight = 8"
| "align_code (Align_other w) = w"

definition align_of_code :: "8 word \<Rightarrow> text_align" where
  "align_of_code = enum_of_code [Align_upperLeft, Align_centerLeft, Align_lowerLeft, Align_upperCenter,
     Align_centerCenter, Align_lowerCenter, Align_upperRight, Align_centerRight, Align_lowerRight]
     Align_other"

fun attr_code :: "term_attr_type \<Rightarrow> 8 word" where
  "attr_code Attr_name = 0"
| "attr_code Attr_hasPins = 1"
| "attr_code Attr_numBits = 2"
| "attr_code (Attr_other w) = w"

definition attr_of_code :: "8 word \<Rightarrow> term_attr_type" where
  "attr_of_code = enum_of_code [Attr_name, Attr_hasPins, Attr_numBits] Attr_other"

fun disp_code :: "text_disp_format \<Rightarrow> 8 word" where
  "disp_code Disp_name = 0"
| "disp_code Disp_value = 1"
| "disp_code Disp_nameValue = 2"
| "disp_code (Disp_other w) = w"

definition disp_of_code :: "8 word \<Rightarrow> text_disp_format" where
  "disp_of_code = enum_of_code [Disp_name, Disp_value, Disp_nameValue] Disp_other"

fun sig_code :: "sig_type \<Rightarrow> 8 word" where
  "sig_code Sig_signal = 0"
| "sig_code Sig_power = 1"
| "sig_code Sig_ground = 2"
| "sig_code Sig_clock = 3"
| "sig_code Sig_tieOff = 4"
| "sig_code Sig_tieHi = 5"
| "sig_code Sig_tieLo = 6"
| "sig_code Sig_analog = 7"
| "sig_code Sig_scan = 8"
| "sig_code Sig_reset = 9"
| "sig_code (Sig_other w) = w"

definition sig_of_code :: "8 word \<Rightarrow> sig_type" where
  "sig_of_code = enum_of_code [Sig_signal, Sig_power, Sig_ground, Sig_clock, Sig_tieOff, Sig_tieHi,
     Sig_tieLo, Sig_analog, Sig_scan, Sig_reset] Sig_other"

fun term_code :: "term_type \<Rightarrow> 8 word" where
  "term_code Term_input = 0"
| "term_code Term_output = 1"
| "term_code Term_inout = 2"
| "term_code Term_switch = 3"
| "term_code Term_jumper = 4"
| "term_code Term_unused = 5"
| "term_code Term_tristate = 6"
| "term_code (Term_other w) = w"

definition term_of_code :: "8 word \<Rightarrow> term_type" where
  "term_of_code = enum_of_code [Term_input, Term_output, Term_inout, Term_switch, Term_jumper,
     Term_unused, Term_tristate] Term_other"

lemmas of_code_defs =
  font_of_code_def style_of_code_def align_of_code_def attr_of_code_def disp_of_code_def
  sig_of_code_def term_of_code_def enum_of_code_def

text \<open>Boost's enumeration of orientations, by its values; it has no others.\<close>

fun orientation_code :: "orientation \<Rightarrow> nat" where
  "orientation_code OR0 = 0"
| "orientation_code OMY = 1"
| "orientation_code OMX = 2"
| "orientation_code OR180 = 3"
| "orientation_code OMXR90 = 4"
| "orientation_code OR270 = 5"
| "orientation_code OR90 = 6"
| "orientation_code OMYR90 = 7"

lemma orientation_of_code_code [simp]: "orientation_of_code (orientation_code ori) = ori"
  by (cases ori) (simp_all add: orientation_of_code_def)

lemma orientation_code_less: "orientation_code ori \<le> 7"
  by (cases ori) simp_all

section \<open>Shapes\<close>

record shape_base =
  sh_layer :: lay_t
  sh_purpose :: purp_t
  sh_net :: string

type_synonym dist_t = "32 word"

definition make_shape_base :: "lay_t \<Rightarrow> purp_t \<Rightarrow> string \<Rightarrow> shape_base" where
  "make_shape_base lay purp net = \<lparr>sh_layer = lay, sh_purpose = purp, sh_net = net\<rparr>"

record sch_rectangle = shape_base +
  rect_bbox :: box_t

definition make_sch_rectangle ::
  "lay_t \<Rightarrow> purp_t \<Rightarrow> string \<Rightarrow> int \<Rightarrow> int \<Rightarrow> int \<Rightarrow> int \<Rightarrow> sch_rectangle" where
  "make_sch_rectangle lay purp net xl yl xh yh =
     shape_base.extend (make_shape_base lay purp net) \<lparr>rect_bbox = make_box xl yl xh yh\<rparr>"

record sch_polygon = shape_base +
  poly_points :: "point list"

text \<open>The constructors reserve room for the points, they add none.\<close>

definition make_sch_polygon :: "lay_t \<Rightarrow> purp_t \<Rightarrow> string \<Rightarrow> cnt_t \<Rightarrow> sch_polygon" where
  "make_sch_polygon lay purp net n =
     shape_base.extend (make_shape_base lay purp net) \<lparr>poly_points = []\<rparr>"

record sch_arc = shape_base +
  arc_ang_start :: "64 word"
  arc_ang_stop :: "64 word"
  arc_bbox :: box_t

definition make_sch_arc ::
  "lay_t \<Rightarrow> purp_t \<Rightarrow> string \<Rightarrow> 64 word \<Rightarrow> 64 word \<Rightarrow> int \<Rightarrow> int \<Rightarrow> int \<Rightarrow> int \<Rightarrow> sch_arc" where
  "make_sch_arc lay purp net start stop xl yl xh yh =
     shape_base.extend (make_shape_base lay purp net)
       \<lparr>arc_ang_start = start, arc_ang_stop = stop, arc_bbox = make_box xl yl xh yh\<rparr>"

record sch_donut = shape_base +
  donut_center :: point
  donut_radius :: dist_t
  donut_hole_radius :: dist_t

definition make_sch_donut ::
  "lay_t \<Rightarrow> purp_t \<Rightarrow> string \<Rightarrow> dist_t \<Rightarrow> dist_t \<Rightarrow> int \<Rightarrow> int \<Rightarrow> sch_donut" where
  "make_sch_donut lay purp net r hole_r x y =
     shape_base.extend (make_shape_base lay purp net)
       \<lparr>donut_center = (x, y), donut_radius = r, donut_hole_radius = hole_r\<rparr>"

record sch_ellipse = shape_base +
  ell_bbox :: box_t

definition make_sch_ellipse ::
  "lay_t \<Rightarrow> purp_t \<Rightarrow> string \<Rightarrow> int \<Rightarrow> int \<Rightarrow> int \<Rightarrow> int \<Rightarrow> sch_ellipse" where
  "make_sch_ellipse lay purp net xl yl xh yh =
     shape_base.extend (make_shape_base lay purp net) \<lparr>ell_bbox = make_box xl yl xh yh\<rparr>"

record sch_line = shape_base +
  line_points :: "point list"

definition make_sch_line :: "lay_t \<Rightarrow> purp_t \<Rightarrow> string \<Rightarrow> cnt_t \<Rightarrow> sch_line" where
  "make_sch_line lay purp net n =
     shape_base.extend (make_shape_base lay purp net) \<lparr>line_points = []\<rparr>"

record sch_path = shape_base +
  path_width :: dist_t
  path_points :: "point list"
  path_style_of :: path_style
  path_begin_ext :: dist_t
  path_end_ext :: dist_t

definition make_sch_path ::
  "lay_t \<Rightarrow> purp_t \<Rightarrow> string \<Rightarrow> dist_t \<Rightarrow> cnt_t \<Rightarrow> path_style \<Rightarrow> dist_t \<Rightarrow> dist_t \<Rightarrow> sch_path" where
  "make_sch_path lay purp net width n style begin_ext end_ext =
     shape_base.extend (make_shape_base lay purp net)
       \<lparr>path_width = width, path_points = [], path_style_of = style, path_begin_ext = begin_ext,
        path_end_ext = end_ext\<rparr>"

section \<open>Texts\<close>

record text_base = shape_base +
  tx_origin :: point
  tx_alignment :: text_align
  tx_orient :: orientation
  tx_font :: font_t
  tx_height :: dist_t
  tx_overbar :: bool
  tx_visible :: bool
  tx_drafting :: bool

definition make_text_base ::
  "lay_t \<Rightarrow> purp_t \<Rightarrow> string \<Rightarrow> text_align \<Rightarrow> orientation \<Rightarrow> font_t \<Rightarrow> dist_t \<Rightarrow> bool \<Rightarrow> bool \<Rightarrow> bool
     \<Rightarrow> int \<Rightarrow> int \<Rightarrow> text_base" where
  "make_text_base lay purp net align ori font height overbar visible drafting x y =
     shape_base.extend (make_shape_base lay purp net)
       \<lparr>tx_origin = (x, y), tx_alignment = align, tx_orient = ori, tx_font = font, tx_height = height,
        tx_overbar = overbar, tx_visible = visible, tx_drafting = drafting\<rparr>"

record sch_text = text_base +
  txt_text :: string

definition make_sch_text ::
  "lay_t \<Rightarrow> purp_t \<Rightarrow> string \<Rightarrow> string \<Rightarrow> text_align \<Rightarrow> orientation \<Rightarrow> font_t \<Rightarrow> dist_t \<Rightarrow> bool \<Rightarrow> bool
     \<Rightarrow> bool \<Rightarrow> int \<Rightarrow> int \<Rightarrow> sch_text" where
  "make_sch_text lay purp net txt align ori font height overbar visible drafting x y =
     text_base.extend
       (make_text_base lay purp net align ori font height overbar visible drafting x y)
       \<lparr>txt_text = txt\<rparr>"

record sch_eval_text = sch_text +
  et_evaluator :: string

definition make_sch_eval_text ::
  "lay_t \<Rightarrow> purp_t \<Rightarrow> string \<Rightarrow> string \<Rightarrow> text_align \<Rightarrow> orientation \<Rightarrow> font_t \<Rightarrow> dist_t \<Rightarrow> bool \<Rightarrow> bool
     \<Rightarrow> bool \<Rightarrow> string \<Rightarrow> int \<Rightarrow> int \<Rightarrow> sch_eval_text" where
  "make_sch_eval_text lay purp net txt align ori font height overbar visible drafting eval x y =
     sch_text.extend
       (make_sch_text lay purp net txt align ori font height overbar visible drafting x y)
       \<lparr>et_evaluator = eval\<rparr>"

record term_attr = text_base +
  ta_attr_type :: term_attr_type
  ta_format :: text_disp_format

definition make_term_attr ::
  "term_attr_type \<Rightarrow> lay_t \<Rightarrow> purp_t \<Rightarrow> string \<Rightarrow> text_align \<Rightarrow> orientation \<Rightarrow> font_t \<Rightarrow> dist_t
     \<Rightarrow> text_disp_format \<Rightarrow> bool \<Rightarrow> bool \<Rightarrow> bool \<Rightarrow> int \<Rightarrow> int \<Rightarrow> term_attr" where
  "make_term_attr attr_type lay purp net align ori font height format overbar visible drafting x y =
     text_base.extend
       (make_text_base lay purp net align ori font height overbar visible drafting x y)
       \<lparr>ta_attr_type = attr_type, ta_format = format\<rparr>"

section \<open>Variants\<close>

datatype shape_t = Shape_rectangle sch_rectangle | Shape_polygon sch_polygon | Shape_arc sch_arc
  | Shape_donut sch_donut | Shape_ellipse sch_ellipse | Shape_line sch_line | Shape_path sch_path
  | Shape_text sch_text | Shape_eval_text sch_eval_text

record 'x pin_object =
  po_inst :: "'x sch_instance"
  po_attr :: term_attr

definition make_pin_object :: "'x sch_instance \<Rightarrow> term_attr \<Rightarrow> 'x pin_object" where
  "make_pin_object inst attr = \<lparr>po_inst = inst, po_attr = attr\<rparr>"

datatype 'x pin_fig_t = Fig_rectangle sch_rectangle | Fig_object "'x pin_object"

definition make_pin_figure :: "'x pin_fig_t \<Rightarrow> sig_type \<Rightarrow> term_type \<Rightarrow> 'x pin_fig_t pin_figure" where
  "make_pin_figure obj stype ttype =
     \<lparr>pf_obj = obj, pf_stype = stype, pf_ttype = ttype, pf_attrs = []\<rparr>"

text \<open>A schematic as it is stored: pins and shapes are the variants above.\<close>

type_synonym 'x sch_cellview = "('x, 'x pin_fig_t, shape_t) cellview"

end
