(* ===== verification/Yaml_Node.thy ===== *)
theory Yaml_Node
  imports Sorted_Map Lp_Lookup Util_Math
begin

text \<open>
  Documents of yaml-cpp and the generic converters of the repository: \<^verbatim>\<open>include/cbag/yaml/common.h\<close>,
  \<^verbatim>\<open>int_array.h\<close>, \<^verbatim>\<open>sorted_map.h\<close>, \<^verbatim>\<open>enum.h\<close>, \<^verbatim>\<open>fusion.h\<close> and \<^verbatim>\<open>include/yaml-cpp/unique_ptr.h\<close>,
  \<^verbatim>\<open>unordered_map.h\<close>.  yaml-cpp itself is not in the repository: its operations on nodes are the fields
  of a record that the converters take as an argument, and \<open>yaml_laws\<close> is what its documentation says of
  them.  An exception of yaml-cpp is a \<^verbatim>\<open>std::runtime_error\<close>.
\<close>

section \<open>The interface of yaml-cpp\<close>

text \<open>
  A node that is built is the value it has when it is finished; nothing of the code shares nodes that are
  still changed.  \<open>yo_elems\<close> and \<open>yo_entries\<close> are what \<^verbatim>\<open>IsSequence\<close> and \<^verbatim>\<open>IsMap\<close> tell, with the iteration
  over the node; \<open>yo_get\<close> and \<open>yo_index\<close> are \<^verbatim>\<open>node[key]\<close>, if that is defined; \<open>yo_as_int\<close> is \<^verbatim>\<open>as<T>()\<close> for an integer
  type with the given least and greatest values.
\<close>

record 'n yaml_ops =
  yo_null :: 'n
  yo_seq :: 'n
  yo_map :: 'n
  yo_of_int :: "int \<Rightarrow> 'n"
  yo_of_double :: "64 word \<Rightarrow> 'n"
  yo_of_bool :: "bool \<Rightarrow> 'n"
  yo_of_string :: "string \<Rightarrow> 'n"
  yo_push_back :: "'n \<Rightarrow> 'n \<Rightarrow> 'n"
  yo_force_insert :: "'n \<Rightarrow> 'n \<Rightarrow> 'n \<Rightarrow> 'n"
  yo_set :: "'n \<Rightarrow> string \<Rightarrow> 'n \<Rightarrow> 'n"
  yo_elems :: "'n \<Rightarrow> 'n list option"
  yo_entries :: "'n \<Rightarrow> ('n \<times> 'n) list option"
  yo_get :: "'n \<Rightarrow> string \<Rightarrow> 'n option"
  yo_index :: "'n \<Rightarrow> nat \<Rightarrow> 'n option"
  yo_is_scalar :: "'n \<Rightarrow> bool"
  yo_as_int :: "int \<Rightarrow> int \<Rightarrow> 'n \<Rightarrow> int option"
  yo_as_double :: "'n \<Rightarrow> 64 word option"
  yo_as_bool :: "'n \<Rightarrow> bool option"
  yo_as_string :: "'n \<Rightarrow> string option"
  yo_emit :: "'n \<Rightarrow> string"
  yo_load :: "string \<Rightarrow> 'n option"

definition dbl_inf :: "64 word" where
  "dbl_inf = 0x7FF0000000000000"

text \<open>
  A scalar that was made of a value is read as this value, of a string as this string; elements and
  entries come in the order in which they were added; a key that was set, or first inserted, is found.
\<close>

definition yaml_laws :: "'n yaml_ops \<Rightarrow> bool" where
  "yaml_laws Y \<longleftrightarrow>
     (\<forall>lo hi i. lo \<le> i \<and> i \<le> hi \<longrightarrow> yo_as_int Y lo hi (yo_of_int Y i) = Some i) \<and>
     (\<forall>i. int32 i \<longrightarrow> (\<exists>d. yo_as_double Y (yo_of_int Y i) = Some d \<and> d \<noteq> dbl_inf)) \<and>
     (\<forall>i. yo_is_scalar Y (yo_of_int Y i)) \<and>
     (\<forall>b. yo_as_bool Y (yo_of_bool Y b) = Some b) \<and>
     (\<forall>s. yo_as_string Y (yo_of_string Y s) = Some s) \<and>
     yo_elems Y (yo_seq Y) = Some [] \<and> yo_elems Y (yo_null Y) = None \<and>
     (\<forall>x. yo_elems Y (yo_push_back Y (yo_null Y) x) = Some [x]) \<and>
     (\<forall>n xs x. yo_elems Y n = Some xs \<longrightarrow> yo_elems Y (yo_push_back Y n x) = Some (xs @ [x])) \<and>
     yo_entries Y (yo_map Y) = Some [] \<and> yo_entries Y (yo_null Y) = None \<and>
     (\<forall>k. yo_get Y (yo_map Y) k = None) \<and> (\<forall>k. yo_get Y (yo_null Y) k = None) \<and>
     (\<forall>n es k v. yo_entries Y n = Some es \<longrightarrow>
        yo_entries Y (yo_force_insert Y n k v) = Some (es @ [(k, v)])) \<and>
     (\<forall>n k v k'. yo_entries Y n \<noteq> None \<longrightarrow>
        yo_get Y (yo_force_insert Y n (yo_of_string Y k) v) k' =
          (case yo_get Y n k' of Some w \<Rightarrow> Some w | None \<Rightarrow> if k = k' then Some v else None)) \<and>
     (\<forall>n k v k'. n = yo_null Y \<or> yo_entries Y n \<noteq> None \<longrightarrow>
        yo_entries Y (yo_set Y n k v) \<noteq> None \<and>
        yo_get Y (yo_set Y n k v) k' = (if k = k' then Some v else yo_get Y n k'))"

lemma yaml_lawsD:
  assumes "yaml_laws Y"
  shows "lo \<le> i \<Longrightarrow> i \<le> hi \<Longrightarrow> yo_as_int Y lo hi (yo_of_int Y i) = Some i"
    and "int32 i \<Longrightarrow> \<exists>d. yo_as_double Y (yo_of_int Y i) = Some d \<and> d \<noteq> dbl_inf"
    and "yo_is_scalar Y (yo_of_int Y i)"
    and "yo_as_bool Y (yo_of_bool Y b) = Some b"
    and "yo_as_string Y (yo_of_string Y s) = Some s"
    and "yo_elems Y (yo_seq Y) = Some []"
    and "yo_elems Y (yo_push_back Y (yo_null Y) x) = Some [x]"
    and "yo_elems Y n = Some xs \<Longrightarrow> yo_elems Y (yo_push_back Y n x) = Some (xs @ [x])"
    and "yo_entries Y (yo_map Y) = Some []"
    and "yo_get Y (yo_map Y) k = None"
    and "yo_get Y (yo_null Y) k = None"
    and "yo_entries Y n = Some es \<Longrightarrow> yo_entries Y (yo_force_insert Y n kn v) = Some (es @ [(kn, v)])"
    and "yo_entries Y n = Some es \<Longrightarrow> yo_get Y (yo_force_insert Y n (yo_of_string Y k) v) k' =
      (case yo_get Y n k' of Some w \<Rightarrow> Some w | None \<Rightarrow> if k = k' then Some v else None)"
    and "n = yo_null Y \<or> yo_entries Y n \<noteq> None \<Longrightarrow> yo_entries Y (yo_set Y n k v) \<noteq> None"
    and "n = yo_null Y \<or> yo_entries Y n \<noteq> None \<Longrightarrow>
      yo_get Y (yo_set Y n k v) k' = (if k = k' then Some v else yo_get Y n k')"
proof -
  note L = assms [unfolded yaml_laws_def]
  show "lo \<le> i \<Longrightarrow> i \<le> hi \<Longrightarrow> yo_as_int Y lo hi (yo_of_int Y i) = Some i"
    and "yo_is_scalar Y (yo_of_int Y i)"
    and "yo_as_bool Y (yo_of_bool Y b) = Some b"
    and "yo_as_string Y (yo_of_string Y s) = Some s"
    and "yo_elems Y (yo_seq Y) = Some []"
    and "yo_elems Y (yo_push_back Y (yo_null Y) x) = Some [x]"
    and "yo_elems Y n = Some xs \<Longrightarrow> yo_elems Y (yo_push_back Y n x) = Some (xs @ [x])"
    and "yo_entries Y (yo_map Y) = Some []"
    and "yo_get Y (yo_map Y) k = None"
    and "yo_get Y (yo_null Y) k = None"
    and "yo_entries Y n = Some es \<Longrightarrow> yo_entries Y (yo_force_insert Y n kn v) = Some (es @ [(kn, v)])"
    using L by simp_all
  show "int32 i \<Longrightarrow> \<exists>d. yo_as_double Y (yo_of_int Y i) = Some d \<and> d \<noteq> dbl_inf"
    using L [THEN conjunct2, THEN conjunct1] by blast
  show "yo_entries Y n = Some es \<Longrightarrow> yo_get Y (yo_force_insert Y n (yo_of_string Y k) v) k' =
      (case yo_get Y n k' of Some w \<Rightarrow> Some w | None \<Rightarrow> if k = k' then Some v else None)"
    using L by simp
  have M: "\<forall>n k v k'. n = yo_null Y \<or> yo_entries Y n \<noteq> None \<longrightarrow>
      yo_entries Y (yo_set Y n k v) \<noteq> None \<and>
      yo_get Y (yo_set Y n k v) k' = (if k = k' then Some v else yo_get Y n k')"
    using L by (elim conjE)
  then show "n = yo_null Y \<or> yo_entries Y n \<noteq> None \<Longrightarrow> yo_entries Y (yo_set Y n k v) \<noteq> None"
    by (drule_tac x = n in spec) metis
  from M show "n = yo_null Y \<or> yo_entries Y n \<noteq> None \<Longrightarrow>
      yo_get Y (yo_set Y n k v) k' = (if k = k' then Some v else yo_get Y n k')"
    by (drule_tac x = n in spec) metis
qed

section \<open>Decoding\<close>

text \<open>
  A converter returns whether it has decoded a value; it may throw instead.  \<^verbatim>\<open>as<T>()\<close> turns a failure
  into an exception, and a \<^verbatim>\<open>try\<close> block around a decoder turns exceptions into a failure; undefined
  behaviour is not caught.
\<close>

type_synonym 'a decoded = "'a option result"

definition as_type :: "('n \<Rightarrow> 'a decoded) \<Rightarrow> 'n \<Rightarrow> 'a result" where
  "as_type dec n =
     bindR (dec n) (\<lambda>r. case r of None \<Rightarrow> Inl Runtime_error | Some x \<Rightarrow> Inr x)"

definition try_decode :: "'a result \<Rightarrow> 'a decoded" where
  "try_decode r =
     (case r of
        Inl e \<Rightarrow> if e = Undefined_behaviour then Inl e else Inr None
      | Inr x \<Rightarrow> Inr (Some x))"

text \<open>\<^verbatim>\<open>node[key]\<close> of which a value is to be read.\<close>

definition yaml_at :: "'n yaml_ops \<Rightarrow> 'n \<Rightarrow> string \<Rightarrow> 'n result" where
  "yaml_at Y n key = (case yo_get Y n key of None \<Rightarrow> Inl Runtime_error | Some m \<Rightarrow> Inr m)"

text \<open>The scalars, with the ranges of their types.\<close>

definition dec_i32 :: "'n yaml_ops \<Rightarrow> 'n \<Rightarrow> int decoded" where
  "dec_i32 Y n = Inr (yo_as_int Y (- (2 ^ 31)) (2 ^ 31 - 1) n)"

definition dec_i64 :: "'n yaml_ops \<Rightarrow> 'n \<Rightarrow> int decoded" where
  "dec_i64 Y n = Inr (yo_as_int Y (- (2 ^ 63)) (2 ^ 63 - 1) n)"

definition dec_u32 :: "'n yaml_ops \<Rightarrow> 'n \<Rightarrow> 32 word decoded" where
  "dec_u32 Y n = Inr (map_option word_of_int (yo_as_int Y 0 (2 ^ 32 - 1) n))"

definition dec_u64 :: "'n yaml_ops \<Rightarrow> 'n \<Rightarrow> cnt_t decoded" where
  "dec_u64 Y n = Inr (map_option word_of_int (yo_as_int Y 0 (2 ^ 64 - 1) n))"

definition dec_double :: "'n yaml_ops \<Rightarrow> 'n \<Rightarrow> 64 word decoded" where
  "dec_double Y n = Inr (yo_as_double Y n)"

definition dec_bool :: "'n yaml_ops \<Rightarrow> 'n \<Rightarrow> bool decoded" where
  "dec_bool Y n = Inr (yo_as_bool Y n)"

definition dec_string :: "'n yaml_ops \<Rightarrow> 'n \<Rightarrow> string decoded" where
  "dec_string Y n = Inr (yo_as_string Y n)"

definition enc_u32 :: "'n yaml_ops \<Rightarrow> 32 word \<Rightarrow> 'n" where
  "enc_u32 Y w = yo_of_int Y (uint w)"

text \<open>yaml-cpp's own converter of vectors.\<close>

definition enc_vec :: "'n yaml_ops \<Rightarrow> ('a \<Rightarrow> 'n) \<Rightarrow> 'a list \<Rightarrow> 'n" where
  "enc_vec Y enc xs = foldl (\<lambda>n x. yo_push_back Y n (enc x)) (yo_seq Y) xs"

definition dec_vec :: "'n yaml_ops \<Rightarrow> ('n \<Rightarrow> 'a decoded) \<Rightarrow> 'n \<Rightarrow> 'a list decoded" where
  "dec_vec Y dec n =
     (case yo_elems Y n of
        None \<Rightarrow> Inr None
      | Some ns \<Rightarrow> bindR (mapR (as_type dec) ns) (\<lambda>xs. Inr (Some xs)))"

section \<open>Helpers of the repository\<close>

definition to_yaml :: "'n yaml_ops \<Rightarrow> ('a \<Rightarrow> 'n) \<Rightarrow> 'a \<Rightarrow> string" where
  "to_yaml Y enc v = yo_emit Y (enc v)"

definition from_yaml :: "'n yaml_ops \<Rightarrow> ('n \<Rightarrow> 'a decoded) \<Rightarrow> string \<Rightarrow> 'a decoded" where
  "from_yaml Y dec yaml_string =
     (case yo_load Y yaml_string of None \<Rightarrow> Inr None | Some n \<Rightarrow> dec n)"

text \<open>The file system: which names are regular files, their contents, and the canonical path of a file.\<close>

record file_sys =
  fs_is_file :: "string \<Rightarrow> bool"
  fs_read :: "string \<Rightarrow> string"
  fs_canonical :: "string \<Rightarrow> string"

definition yaml_load_file :: "'n yaml_ops \<Rightarrow> file_sys \<Rightarrow> string \<Rightarrow> 'n result" where
  "yaml_load_file Y F fname =
     (case yo_load Y (fs_read F fname) of None \<Rightarrow> Inl Runtime_error | Some n \<Rightarrow> Inr n)"

text \<open>Integers of which the infinite \<^verbatim>\<open>double\<close> is the greatest, here the 32 bits of \<^verbatim>\<open>offset_t\<close>.\<close>

definition yaml_get_int :: "'n yaml_ops \<Rightarrow> 'n \<Rightarrow> int result" where
  "yaml_get_int Y val =
     bindR (as_type (dec_double Y) val) (\<lambda>d.
       if d = dbl_inf then Inr (2 ^ 31 - 1) else as_type (dec_i32 Y) val)"

definition map_field :: "'n yaml_ops \<Rightarrow> 'n \<Rightarrow> string \<Rightarrow> ('n \<Rightarrow> 'a decoded) \<Rightarrow> 'a result" where
  "map_field Y n key dec = bindR (yaml_at Y n key) (as_type dec)"

definition index_at :: "'n yaml_ops \<Rightarrow> 'n \<Rightarrow> nat \<Rightarrow> 'n result" where
  "index_at Y n i = (case yo_index Y n i of None \<Rightarrow> Inl Runtime_error | Some m \<Rightarrow> Inr m)"

text \<open>
  The children of a node as pairs of a key and a value.  The key of an element of a sequence is an
  undefined node, reading it throws; other nodes have no children.
\<close>

definition keyed_children :: "'n yaml_ops \<Rightarrow> 'n \<Rightarrow> ('n \<times> 'n) list result" where
  "keyed_children Y n =
     (case yo_entries Y n of
        Some es \<Rightarrow> Inr es
      | None \<Rightarrow> (case yo_elems Y n of Some (x # xs) \<Rightarrow> Inl Runtime_error | _ \<Rightarrow> Inr []))"

text \<open>The children of \<^verbatim>\<open>node[key]\<close>; a node that is not defined has none.\<close>

definition children_at :: "'n yaml_ops \<Rightarrow> 'n \<Rightarrow> string \<Rightarrow> ('n \<times> 'n) list result" where
  "children_at Y n key = (case yo_get Y n key of None \<Rightarrow> Inr [] | Some m \<Rightarrow> keyed_children Y m)"

fun take_keys :: "(int \<times> 'a) list \<Rightarrow> int \<Rightarrow> nat \<Rightarrow> 'a list result" where
  "take_keys tmp key 0 = Inr []"
| "take_keys tmp key (Suc n) =
     (case map_of tmp key of
        None \<Rightarrow> Inl Runtime_error
      | Some v \<Rightarrow> bindR (take_keys tmp (key + 1) n) (\<lambda>vec. Inr (v # vec)))"

text \<open>The argument is given by its children.  The end of the loop over the keys must be an \<^verbatim>\<open>int\<close>.\<close>

definition int_map_step ::
  "'n yaml_ops \<Rightarrow> ('n \<Rightarrow> 'a decoded) \<Rightarrow> int \<times> (int \<times> 'a) list \<Rightarrow> 'n \<times> 'n \<Rightarrow> (int \<times> (int \<times> 'a) list) result" where
  "int_map_step Y dec st child =
     bindR (as_type (dec_i32 Y) (fst child)) (\<lambda>cur_key.
     bindR (as_type dec (snd child)) (\<lambda>v.
       Inr (min (fst st) cur_key, um_emplace (snd st) cur_key v)))"

definition int_map_to_vec ::
  "'n yaml_ops \<Rightarrow> ('n \<Rightarrow> 'a decoded) \<Rightarrow> ('n \<times> 'n) list result \<Rightarrow> (int \<times> 'a list) result" where
  "int_map_to_vec Y dec node =
     bindR node (\<lambda>children.
     bindR (foldR (int_map_step Y dec) (2 ^ 31 - 1, []) children) (\<lambda>(min_key, tmp).
       if min_key + int (length tmp) > 2 ^ 31 - 1 then Inl Undefined_behaviour
       else bindR (take_keys tmp min_key (length tmp)) (\<lambda>vec. Inr (min_key, vec))))"

text \<open>Arrays of a fixed number of integers.\<close>

definition convert_arr_encode :: "'n yaml_ops \<Rightarrow> int list \<Rightarrow> 'n" where
  "convert_arr_encode Y rhs = foldl (\<lambda>ans i. yo_push_back Y ans (yo_of_int Y i)) (yo_seq Y) rhs"

definition convert_arr_decode :: "'n yaml_ops \<Rightarrow> nat \<Rightarrow> 'n \<Rightarrow> int list decoded" where
  "convert_arr_decode Y len n =
     (case yo_elems Y n of
        None \<Rightarrow> Inr None
      | Some ns \<Rightarrow>
          if length ns \<noteq> len then Inr None
          else bindR (mapR (yaml_get_int Y) ns) (\<lambda>xs. Inr (Some xs)))"

text \<open>yaml-cpp's own converter of pairs.\<close>

definition dec_pair :: "'n yaml_ops \<Rightarrow> ('n \<Rightarrow> 'a decoded) \<Rightarrow> ('n \<Rightarrow> 'b decoded) \<Rightarrow> 'n \<Rightarrow> ('a \<times> 'b) decoded" where
  "dec_pair Y dec1 dec2 n =
     (case yo_elems Y n of
        Some [n0, n1] \<Rightarrow>
          bindR (as_type dec1 n0) (\<lambda>x. bindR (as_type dec2 n1) (\<lambda>y. Inr (Some (x, y))))
      | _ \<Rightarrow> Inr None)"

text \<open>Tuples, here of three components.\<close>

definition enc_tuple3 ::
  "'n yaml_ops \<Rightarrow> ('a \<Rightarrow> 'n) \<Rightarrow> ('b \<Rightarrow> 'n) \<Rightarrow> ('c \<Rightarrow> 'n) \<Rightarrow> 'a \<times> 'b \<times> 'c \<Rightarrow> 'n" where
  "enc_tuple3 Y enc1 enc2 enc3 rhs =
     (case rhs of (a, b, c) \<Rightarrow>
        yo_push_back Y (yo_push_back Y (yo_push_back Y (yo_seq Y) (enc1 a)) (enc2 b)) (enc3 c))"

definition dec_tuple3 ::
  "'n yaml_ops \<Rightarrow> ('n \<Rightarrow> 'a decoded) \<Rightarrow> ('n \<Rightarrow> 'b decoded) \<Rightarrow> ('n \<Rightarrow> 'c decoded) \<Rightarrow> 'n
     \<Rightarrow> ('a \<times> 'b \<times> 'c) decoded" where
  "dec_tuple3 Y dec1 dec2 dec3 n =
     (case yo_elems Y n of
        Some [n0, n1, n2] \<Rightarrow>
          bindR (as_type dec1 n0) (\<lambda>a. bindR (as_type dec2 n1) (\<lambda>b. bindR (as_type dec3 n2) (\<lambda>c.
            Inr (Some (a, b, c)))))
      | _ \<Rightarrow> Inr None)"

text \<open>Points and vectors are arrays of two.\<close>

definition enc_point :: "'n yaml_ops \<Rightarrow> int \<times> int \<Rightarrow> 'n" where
  "enc_point Y p = convert_arr_encode Y [fst p, snd p]"

definition dec_point :: "'n yaml_ops \<Rightarrow> 'n \<Rightarrow> (int \<times> int) decoded" where
  "dec_point Y n =
     bindR (convert_arr_decode Y 2 n) (\<lambda>r. Inr (map_option (\<lambda>xs. (xs ! 0, xs ! 1)) r))"

text \<open>Sorted maps, whose keys are strings throughout.\<close>

definition enc_smap :: "'n yaml_ops \<Rightarrow> ('v \<Rightarrow> 'n) \<Rightarrow> (string, 'v) smap \<Rightarrow> 'n" where
  "enc_smap Y enc rhs =
     foldl (\<lambda>n x. yo_force_insert Y n (yo_of_string Y (fst x)) (enc (snd x))) (yo_map Y) rhs"

definition dec_smap :: "'n yaml_ops \<Rightarrow> ('n \<Rightarrow> 'v decoded) \<Rightarrow> 'n \<Rightarrow> (string, 'v) smap decoded" where
  "dec_smap Y dec n =
     (case yo_entries Y n of
        None \<Rightarrow> Inr None
      | Some es \<Rightarrow>
          bindR (foldR (\<lambda>rhs it.
            bindR (as_type (dec_string Y) (fst it)) (\<lambda>k.
            bindR (as_type dec (snd it)) (\<lambda>v. Inr (fst (sm_insert_or_assign rhs k v))))) [] es)
          (\<lambda>rhs. Inr (Some rhs)))"

text \<open>Unordered maps: a later entry of the same key replaces the value of an earlier one.\<close>

definition um_assign :: "('k \<times> 'v) list \<Rightarrow> 'k \<Rightarrow> 'v \<Rightarrow> ('k \<times> 'v) list" where
  "um_assign m k v =
     (if map_of m k = None then m @ [(k, v)] else map (\<lambda>p. if fst p = k then (k, v) else p) m)"

definition enc_umap :: "'n yaml_ops \<Rightarrow> ('k \<Rightarrow> 'n) \<Rightarrow> ('v \<Rightarrow> 'n) \<Rightarrow> ('k \<times> 'v) list \<Rightarrow> 'n" where
  "enc_umap Y enck encv rhs =
     foldl (\<lambda>n x. yo_force_insert Y n (enck (fst x)) (encv (snd x))) (yo_map Y) rhs"

definition dec_umap ::
  "'n yaml_ops \<Rightarrow> ('n \<Rightarrow> 'k decoded) \<Rightarrow> ('n \<Rightarrow> 'v decoded) \<Rightarrow> 'n \<Rightarrow> ('k \<times> 'v) list decoded" where
  "dec_umap Y deck decv n =
     (case yo_entries Y n of
        None \<Rightarrow> Inr None
      | Some es \<Rightarrow>
          bindR (foldR (\<lambda>rhs it.
            bindR (as_type deck (fst it)) (\<lambda>k.
            bindR (as_type decv (snd it)) (\<lambda>v. Inr (um_assign rhs k v)))) [] es)
          (\<lambda>rhs. Inr (Some rhs)))"

definition dec_unique_ptr :: "('n \<Rightarrow> 'v decoded) \<Rightarrow> 'n \<Rightarrow> 'v decoded" where
  "dec_unique_ptr dec n = try_decode (as_type dec n)"

text \<open>Enumerations with an underlying type of 8 bits: an \<^verbatim>\<open>int\<close> is cut to it.\<close>

definition enc_enum :: "'n yaml_ops \<Rightarrow> ('e \<Rightarrow> 8 word) \<Rightarrow> 'e \<Rightarrow> 'n" where
  "enc_enum Y code rhs = yo_of_int Y (uint (code rhs))"

definition dec_enum :: "'n yaml_ops \<Rightarrow> (8 word \<Rightarrow> 'e) \<Rightarrow> 'n \<Rightarrow> 'e decoded" where
  "dec_enum Y of_code n =
     (if yo_is_scalar Y n
      then try_decode (bindR (as_type (dec_i32 Y) n) (\<lambda>i. Inr (of_code (word_of_int i))))
      else Inr None)"

text \<open>
  Structures, field by field: the inserter assigns \<^verbatim>\<open>node[name]\<close>, and the extractor turns an exception of
  yaml-cpp into \<^verbatim>\<open>std::invalid_argument\<close>, which the decoder of the structure catches.
\<close>

definition fusion_encode :: "'n yaml_ops \<Rightarrow> (string \<times> 'n) list \<Rightarrow> 'n" where
  "fusion_encode Y fs = foldl (\<lambda>root f. yo_set Y root (fst f) (snd f)) (yo_null Y) fs"

definition fusion_field :: "'n yaml_ops \<Rightarrow> 'n \<Rightarrow> string \<Rightarrow> ('n \<Rightarrow> 'a decoded) \<Rightarrow> 'a result" where
  "fusion_field Y n field_name dec =
     (case bindR (yaml_at Y n field_name) (as_type dec) of
        Inl e \<Rightarrow> Inl (if e = Runtime_error then Invalid_argument else e)
      | Inr x \<Rightarrow> Inr x)"

section \<open>What was encoded is decoded\<close>

named_theorems yaml_rt \<open>decoding what was encoded\<close>

lemma as_type_Some [simp]: "dec n = Inr (Some x) \<Longrightarrow> as_type dec n = Inr x"
  by (simp add: as_type_def)

lemma try_decode_Inr [simp]: "try_decode (Inr x) = Inr (Some x)"
  by (simp add: try_decode_def)

lemma unique_ptr_rt: "dec n = Inr (Some x) \<Longrightarrow> dec_unique_ptr dec n = Inr (Some x)"
  by (simp add: dec_unique_ptr_def)

lemma scalar_rt [yaml_rt]:
  assumes "yaml_laws Y"
  shows "int32 i \<Longrightarrow> dec_i32 Y (yo_of_int Y i) = Inr (Some i)"
    and "- (2 ^ 63) \<le> j \<Longrightarrow> j < 2 ^ 63 \<Longrightarrow> dec_i64 Y (yo_of_int Y j) = Inr (Some j)"
    and "dec_u32 Y (enc_u32 Y w) = Inr (Some w)"
    and "dec_bool Y (yo_of_bool Y b) = Inr (Some b)"
    and "dec_string Y (yo_of_string Y s) = Inr (Some s)"
    and "int32 i \<Longrightarrow> yaml_get_int Y (yo_of_int Y i) = Inr i"
proof -
  show i32: "int32 i \<Longrightarrow> dec_i32 Y (yo_of_int Y i) = Inr (Some i)"
    by (simp add: dec_i32_def int32_def yaml_lawsD(1) [OF assms])
  show "- (2 ^ 63) \<le> j \<Longrightarrow> j < 2 ^ 63 \<Longrightarrow> dec_i64 Y (yo_of_int Y j) = Inr (Some j)"
    by (simp add: dec_i64_def yaml_lawsD(1) [OF assms])
  have "uint w \<le> 2 ^ 32 - 1" using uint_lt2p [of w] by simp
  then show "dec_u32 Y (enc_u32 Y w) = Inr (Some w)"
    by (simp add: dec_u32_def enc_u32_def yaml_lawsD(1) [OF assms])
  show "dec_bool Y (yo_of_bool Y b) = Inr (Some b)" "dec_string Y (yo_of_string Y s) = Inr (Some s)"
    by (simp_all add: dec_bool_def dec_string_def yaml_lawsD [OF assms])
  assume i: "int32 i"
  then obtain d where "yo_as_double Y (yo_of_int Y i) = Some d" "d \<noteq> dbl_inf"
    using yaml_lawsD(2) [OF assms] by blast
  then show "yaml_get_int Y (yo_of_int Y i) = Inr i"
    by (simp add: yaml_get_int_def dec_double_def i32 [OF i])
qed

lemma elems_pushes:
  assumes "yaml_laws Y" and "yo_elems Y n = Some ns"
  shows "yo_elems Y (foldl (\<lambda>n x. yo_push_back Y n (f x)) n xs) = Some (ns @ map f xs)"
  using assms(2)
  by (induction xs arbitrary: n ns) (simp_all add: yaml_lawsD(8) [OF assms(1)])

lemma entries_inserts:
  assumes "yaml_laws Y" and "yo_entries Y n = Some es"
  shows "yo_entries Y (foldl (\<lambda>n x. yo_force_insert Y n (f x) (g x)) n xs) =
    Some (es @ map (\<lambda>x. (f x, g x)) xs)"
  using assms(2)
  by (induction xs arbitrary: n es) (simp_all add: yaml_lawsD(12) [OF assms(1)])

lemma vec_rt [yaml_rt]:
  assumes "yaml_laws Y" and "\<And>x. x \<in> set xs \<Longrightarrow> dec (enc x) = Inr (Some x)"
  shows "dec_vec Y dec (enc_vec Y enc xs) = Inr (Some xs)"
proof -
  have "mapR (as_type dec) (map enc xs) = Inr xs"
    using assms(2) by (simp add: mapR_eq_Inr list_all2_conv_all_nth)
  then show ?thesis
    by (simp add: dec_vec_def enc_vec_def elems_pushes [OF assms(1)] yaml_lawsD(6) [OF assms(1)])
qed

lemma point_rt [yaml_rt]:
  assumes "yaml_laws Y" and "int32 (fst p)" and "int32 (snd p)"
  shows "dec_point Y (enc_point Y p) = Inr (Some p)"
proof -
  have "yo_elems Y (enc_point Y p) = Some [yo_of_int Y (fst p), yo_of_int Y (snd p)]"
    unfolding enc_point_def convert_arr_encode_def
    by (subst elems_pushes [OF assms(1) yaml_lawsD(6) [OF assms(1)]]) simp
  then show ?thesis
    by (simp add: dec_point_def convert_arr_decode_def scalar_rt [OF assms(1)] assms)
qed

text \<open>The entries of a sorted map are decoded at the end of what there is.\<close>

lemma insert_or_assign_last:
  assumes "\<forall>p\<in>set m. fst p < k"
  shows "fst (sm_insert_or_assign m k v) = m @ [(k, v)]"
proof -
  have "sm_lower_bound (m @ []) k = length m"
    using assms by (subst sm_lower_bound_append) simp_all
  then show ?thesis by (simp add: sm_insert_or_assign_def sv_insert_force_def)
qed

lemma smap_rt [yaml_rt]:
  assumes "yaml_laws Y" and "sm_inv m" and "\<And>k v. (k, v) \<in> set m \<Longrightarrow> dec (enc v) = Inr (Some v)"
  shows "dec_smap Y dec (enc_smap Y enc m) = Inr (Some m)"
proof -
  let ?step = "\<lambda>rhs it. bindR (as_type (dec_string Y) (fst it)) (\<lambda>k.
    bindR (as_type dec (snd it)) (\<lambda>v. Inr (fst (sm_insert_or_assign rhs k v))))"
  have "foldR ?step us (map (\<lambda>x. (yo_of_string Y (fst x), enc (snd x))) vs) = Inr (us @ vs)"
    if "sm_inv (us @ vs)" and "\<And>k v. (k, v) \<in> set vs \<Longrightarrow> dec (enc v) = Inr (Some v)" for us vs
    using that
  proof (induction vs arbitrary: us)
    case (Cons x vs)
    obtain k v where x: "x = (k, v)" by (cases x)
    have "\<forall>p\<in>set us. fst p < k" using Cons.prems(1) by (auto simp: x sm_inv_append)
    moreover have "dec (enc v) = Inr (Some v)" using Cons.prems(2) [of k v] x by simp
    moreover have "foldR ?step (us @ [(k, v)])
        (map (\<lambda>x. (yo_of_string Y (fst x), enc (snd x))) vs) = Inr ((us @ [(k, v)]) @ vs)"
      by (rule Cons.IH) (use Cons.prems x in auto)
    ultimately show ?case
      by (simp add: x scalar_rt(5) [OF assms(1)] insert_or_assign_last)
  qed simp
  from this [of "[]" m] assms(2,3) show ?thesis
    by (simp add: dec_smap_def enc_smap_def entries_inserts [OF assms(1)] yaml_lawsD(9) [OF assms(1)])
qed

lemma enum_rt [yaml_rt]:
  assumes "yaml_laws Y" and "of_code (code v) = v"
  shows "dec_enum Y of_code (enc_enum Y code v) = Inr (Some v)"
proof -
  have "int32 (uint (code v))" using uint_lt2p [of "code v"] order_trans [OF _ uint_ge_0 [of "code v"], of "- 2147483648"]
    by (simp add: int32_def)
  with assms(2) show ?thesis
    by (simp add: dec_enum_def enc_enum_def yaml_lawsD(3) [OF assms(1)] scalar_rt [OF assms(1)])
qed

lemma fusion_get:
  assumes "yaml_laws Y" and "n = yo_null Y \<or> yo_entries Y n \<noteq> None"
  shows "yo_get Y (foldl (\<lambda>root f. yo_set Y root (fst f) (snd f)) n fs) key =
    (case map_of (rev fs) key of Some m \<Rightarrow> Some m | None \<Rightarrow> yo_get Y n key)"
  using assms(2)
proof (induction fs arbitrary: n)
  case (Cons f fs)
  have "yo_entries Y (yo_set Y n (fst f) (snd f)) \<noteq> None" by (rule yaml_lawsD(14) [OF assms(1) Cons.prems])
  then show ?case
    using yaml_lawsD(15) [OF assms(1) Cons.prems, of "fst f" "snd f" key]
    by (simp add: Cons.IH map_add_def split: option.split)
qed simp

lemma fusion_field_encode:
  assumes "yaml_laws Y"
  shows "fusion_field Y (fusion_encode Y fs) key dec =
    (case map_of (rev fs) key of
       None \<Rightarrow> Inl Invalid_argument
     | Some m \<Rightarrow>
         (case as_type dec m of Inl e \<Rightarrow> Inl (if e = Runtime_error then Invalid_argument else e)
          | Inr x \<Rightarrow> Inr x))"
  using fusion_get [OF assms, of "yo_null Y" fs key]
  by (simp add: fusion_field_def fusion_encode_def yaml_at_def yaml_lawsD(11) [OF assms] split: option.split)

text \<open>A map node whose keys are inserted one by one.\<close>

lemma inserts_get:
  assumes "yaml_laws Y" and "yo_entries Y n = Some es"
  shows "yo_get Y (foldl (\<lambda>n x. yo_force_insert Y n (yo_of_string Y (fst x)) (snd x)) n fs) key =
    (case yo_get Y n key of Some m \<Rightarrow> Some m | None \<Rightarrow> map_of fs key)"
  using assms(2)
proof (induction fs arbitrary: n es)
  case (Cons f fs)
  have "yo_entries Y (yo_force_insert Y n (yo_of_string Y (fst f)) (snd f)) =
      Some (es @ [(yo_of_string Y (fst f), snd f)])"
    by (rule yaml_lawsD(12) [OF assms(1) Cons.prems])
  from Cons.IH [OF this] show ?case
    by (simp add: yaml_lawsD(13) [OF assms(1) Cons.prems] split: option.split)
qed (simp split: option.split)

section \<open>Converters\<close>

text \<open>
  What is promised of the two functions of a converter, and what follows for vectors, sorted maps,
  fields of structures and whole documents of such values.
\<close>

locale yaml_codec =
  fixes enc :: "'n yaml_ops \<Rightarrow> 'a \<Rightarrow> 'n"
    and dec :: "'n yaml_ops \<Rightarrow> 'n \<Rightarrow> 'a decoded"
    and ok :: "'n yaml_ops \<Rightarrow> 'a \<Rightarrow> bool"
  assumes round_trip: "yaml_laws Y \<Longrightarrow> ok Y x \<Longrightarrow> dec Y (enc Y x) = Inr (Some x)"
begin

lemma vec:
  assumes "yaml_laws Y" and "\<forall>x\<in>set xs. ok Y x"
  shows "dec_vec Y (dec Y) (enc_vec Y (enc Y) xs) = Inr (Some xs)"
  using assms by (intro vec_rt round_trip) auto

lemma smap:
  assumes "yaml_laws Y" and "sm_inv m" and "\<forall>(k, v)\<in>set m. ok Y v"
  shows "dec_smap Y (dec Y) (enc_smap Y (enc Y) m) = Inr (Some m)"
  using assms by (intro smap_rt round_trip) auto

lemma unique_ptr:
  assumes "yaml_laws Y" and "ok Y x"
  shows "dec_unique_ptr (dec Y) (enc Y x) = Inr (Some x)"
  by (rule unique_ptr_rt) (rule round_trip [OF assms])

lemma field:
  assumes "yaml_laws Y" and "map_of (rev fs) key = Some (enc Y x)" and "ok Y x"
  shows "fusion_field Y (fusion_encode Y fs) key (dec Y) = Inr x"
  by (simp add: fusion_field_encode [OF assms(1)] assms(2) round_trip [OF assms(1,3)])

lemma document:
  assumes "yaml_laws Y" and "yo_load Y (to_yaml Y (enc Y) x) = Some (enc Y x)" and "ok Y x"
  shows "from_yaml Y (dec Y) (to_yaml Y (enc Y) x) = Inr (Some x)"
  by (simp add: from_yaml_def assms(2) round_trip [OF assms(1,3)])

end

interpretation string_codec: yaml_codec yo_of_string dec_string "\<lambda>Y s. True"
  by unfold_locales (rule scalar_rt)

interpretation point_codec: yaml_codec enc_point dec_point "\<lambda>Y p. int32 (fst p) \<and> int32 (snd p)"
  by unfold_locales (auto intro: point_rt)

end
