(* ===== verification/Yaml_Sch.thy ===== *)
theory Yaml_Sch
  imports Sch_Figures Cellview_Info Yaml_Node
begin

text \<open>
  Schematics as documents: \<^verbatim>\<open>src/cbag/yaml/box_t.cpp\<close>, \<^verbatim>\<open>transformation.cpp\<close>, \<^verbatim>\<open>datatypes.cpp\<close>,
  \<^verbatim>\<open>shapes.cpp\<close>, \<^verbatim>\<open>figures.cpp\<close> and \<^verbatim>\<open>cellviews.cpp\<close>, the lists of fields in the headers of
  \<^verbatim>\<open>include/cbag/yaml\<close>, and the constructor of a cellview from a file with \<^verbatim>\<open>to_file\<close> of
  \<^verbatim>\<open>src/cbag/schematic/cellview.cpp\<close>.  \<open>Y\<close> stands for yaml-cpp, \<open>T\<close> for the transformations of Boost;
  messages to the logger are not modelled.
\<close>

section \<open>Boxes, transformations and parameters\<close>

definition enc_box :: "'n yaml_ops \<Rightarrow> box_t \<Rightarrow> 'n" where
  "enc_box Y rhs =
     yo_push_back Y (yo_push_back Y (yo_push_back Y (yo_push_back Y (yo_seq Y)
       (yo_of_int Y (box_xl rhs))) (yo_of_int Y (box_yl rhs))) (yo_of_int Y (box_xh rhs)))
       (yo_of_int Y (box_yh rhs))"

definition dec_box :: "'n yaml_ops \<Rightarrow> 'n \<Rightarrow> box_t decoded" where
  "dec_box Y n =
     (case yo_elems Y n of
        Some [n0, n1, n2, n3] \<Rightarrow>
          try_decode
            (bindR (as_type (dec_i32 Y) n0) (\<lambda>xl. bindR (as_type (dec_i32 Y) n1) (\<lambda>yl.
             bindR (as_type (dec_i32 Y) n2) (\<lambda>xh. bindR (as_type (dec_i32 Y) n3) (\<lambda>yh.
               Inr (box_set (make_box 0 0 0 0) xl yl xh yh))))))
      | _ \<Rightarrow> Inr None)"

definition enc_xform :: "'n yaml_ops \<Rightarrow> 'x xform_ops \<Rightarrow> 'x \<Rightarrow> 'n" where
  "enc_xform Y T rhs =
     yo_push_back Y (yo_push_back Y (yo_push_back Y (yo_seq Y) (yo_of_int Y (xform_x T rhs)))
       (yo_of_int Y (xform_y T rhs))) (yo_of_int Y (orient_code T rhs))"

text \<open>A code that is none of Boost's enumerators is no value of the enumeration.\<close>

definition dec_xform :: "'n yaml_ops \<Rightarrow> 'x xform_ops \<Rightarrow> 'n \<Rightarrow> 'x decoded" where
  "dec_xform Y T n =
     (case yo_elems Y n of
        Some [n0, n1, n2] \<Rightarrow>
          try_decode
            (bindR (as_type (dec_i32 Y) n0) (\<lambda>x. bindR (as_type (dec_i32 Y) n1) (\<lambda>y.
             bindR (as_type (dec_u32 Y) n2) (\<lambda>code.
               if unat code > 7 then Inl Undefined_behaviour
               else Inr (set_orient_code T (set_location T (xo_make T OR0) x y) (unat code))))))
      | _ \<Rightarrow> Inr None)"

text \<open>A variant is a sequence of the index of the alternative and its value.\<close>

definition enc_variant :: "'n yaml_ops \<Rightarrow> int \<Rightarrow> 'n \<Rightarrow> 'n" where
  "enc_variant Y index operand =
     yo_push_back Y (yo_push_back Y (yo_null Y) (yo_of_int Y index)) operand"

definition dec_variant :: "'n yaml_ops \<Rightarrow> ('n \<Rightarrow> 'a result) list \<Rightarrow> 'n \<Rightarrow> 'a decoded" where
  "dec_variant Y alternatives n =
     (case yo_elems Y n of
        Some [n0, n1] \<Rightarrow>
          try_decode (bindR (as_type (dec_i32 Y) n0) (\<lambda>value.
            if 0 \<le> value \<and> value < int (length alternatives)
            then (alternatives ! nat value) n1 else Inl Runtime_error))
      | _ \<Rightarrow> Inr None)"

definition as_alt :: "('a \<Rightarrow> 'b) \<Rightarrow> ('n \<Rightarrow> 'a decoded) \<Rightarrow> 'n \<Rightarrow> 'b result" where
  "as_alt f dec n = bindR (as_type dec n) (\<lambda>x. Inr (f x))"

definition dec_time :: "'n yaml_ops \<Rightarrow> 'n \<Rightarrow> int decoded" where
  "dec_time Y n = try_decode (fusion_field Y n ''time_val'' (dec_i64 Y))"

definition dec_binary :: "'n yaml_ops \<Rightarrow> 'n \<Rightarrow> (string \<times> string) decoded" where
  "dec_binary Y n =
     try_decode (bindR (fusion_field Y n ''name'' (dec_string Y)) (\<lambda>name.
       bindR (fusion_field Y n ''bin_val'' (dec_string Y)) (\<lambda>bin_val. Inr (name, bin_val))))"

fun enc_value :: "'n yaml_ops \<Rightarrow> value_t \<Rightarrow> 'n" where
  "enc_value Y (V_int i) = enc_variant Y 0 (yo_of_int Y i)"
| "enc_value Y (V_double d) = enc_variant Y 1 (yo_of_double Y d)"
| "enc_value Y (V_bool b) = enc_variant Y 2 (yo_of_bool Y b)"
| "enc_value Y (V_string s) = enc_variant Y 3 (yo_of_string Y s)"
| "enc_value Y (V_time t) = enc_variant Y 4 (fusion_encode Y [(''time_val'', yo_of_int Y t)])"
| "enc_value Y (V_binary name bin_val) = enc_variant Y 5
     (fusion_encode Y [(''name'', yo_of_string Y name), (''bin_val'', yo_of_string Y bin_val)])"

definition dec_value :: "'n yaml_ops \<Rightarrow> 'n \<Rightarrow> value_t decoded" where
  "dec_value Y n = dec_variant Y
     [as_alt V_int (dec_i64 Y), as_alt V_double (dec_double Y), as_alt V_bool (dec_bool Y),
      as_alt V_string (dec_string Y), as_alt V_time (dec_time Y),
      as_alt (\<lambda>(name, bin_val). V_binary name bin_val) (dec_binary Y)] n"

definition enc_params :: "'n yaml_ops \<Rightarrow> param_map \<Rightarrow> 'n" where
  "enc_params Y m = enc_smap Y (enc_value Y) m"

definition dec_params :: "'n yaml_ops \<Rightarrow> 'n \<Rightarrow> param_map decoded" where
  "dec_params Y n = dec_smap Y (dec_value Y) n"

section \<open>Shapes\<close>

text \<open>The converter of enumerations for that of Boost.\<close>

definition enc_orientation :: "'n yaml_ops \<Rightarrow> orientation \<Rightarrow> 'n" where
  "enc_orientation Y ori = yo_of_int Y (int (orientation_code ori))"

definition dec_orientation :: "'n yaml_ops \<Rightarrow> 'n \<Rightarrow> orientation decoded" where
  "dec_orientation Y n =
     (if yo_is_scalar Y n
      then try_decode (bindR (as_type (dec_i32 Y) n) (\<lambda>i.
        if 0 \<le> i \<and> i \<le> 7 then Inr (orientation_of_code (nat i)) else Inl Undefined_behaviour))
      else Inr None)"

definition base_fields :: "'n yaml_ops \<Rightarrow> 'a shape_base_scheme \<Rightarrow> (string \<times> 'n) list" where
  "base_fields Y s =
     [(''layer'', enc_u32 Y (sh_layer s)), (''purpose'', enc_u32 Y (sh_purpose s)),
      (''net'', yo_of_string Y (sh_net s))]"

definition dec_base :: "'n yaml_ops \<Rightarrow> 'n \<Rightarrow> shape_base result" where
  "dec_base Y n =
     bindR (fusion_field Y n ''layer'' (dec_u32 Y)) (\<lambda>lay.
     bindR (fusion_field Y n ''purpose'' (dec_u32 Y)) (\<lambda>purp.
     bindR (fusion_field Y n ''net'' (dec_string Y)) (\<lambda>net. Inr (make_shape_base lay purp net))))"

definition enc_rectangle :: "'n yaml_ops \<Rightarrow> sch_rectangle \<Rightarrow> 'n" where
  "enc_rectangle Y s = fusion_encode Y (base_fields Y s @ [(''bbox'', enc_box Y (rect_bbox s))])"

definition dec_rectangle :: "'n yaml_ops \<Rightarrow> 'n \<Rightarrow> sch_rectangle decoded" where
  "dec_rectangle Y n =
     try_decode (bindR (dec_base Y n) (\<lambda>b.
       bindR (fusion_field Y n ''bbox'' (dec_box Y)) (\<lambda>bbox.
         Inr (shape_base.extend b \<lparr>rect_bbox = bbox\<rparr>))))"

definition enc_points :: "'n yaml_ops \<Rightarrow> point list \<Rightarrow> 'n" where
  "enc_points Y ps = enc_vec Y (enc_point Y) ps"

definition dec_points :: "'n yaml_ops \<Rightarrow> 'n \<Rightarrow> point list decoded" where
  "dec_points Y n = dec_vec Y (dec_point Y) n"

definition enc_polygon :: "'n yaml_ops \<Rightarrow> sch_polygon \<Rightarrow> 'n" where
  "enc_polygon Y s =
     fusion_encode Y (base_fields Y s @ [(''points'', enc_points Y (poly_points s))])"

definition dec_polygon :: "'n yaml_ops \<Rightarrow> 'n \<Rightarrow> sch_polygon decoded" where
  "dec_polygon Y n =
     try_decode (bindR (dec_base Y n) (\<lambda>b.
       bindR (fusion_field Y n ''points'' (dec_points Y)) (\<lambda>ps.
         Inr (shape_base.extend b \<lparr>poly_points = ps\<rparr>))))"

definition enc_arc :: "'n yaml_ops \<Rightarrow> sch_arc \<Rightarrow> 'n" where
  "enc_arc Y s =
     fusion_encode Y (base_fields Y s @
       [(''ang_start'', yo_of_double Y (arc_ang_start s)),
        (''ang_stop'', yo_of_double Y (arc_ang_stop s)), (''bbox'', enc_box Y (arc_bbox s))])"

definition dec_arc :: "'n yaml_ops \<Rightarrow> 'n \<Rightarrow> sch_arc decoded" where
  "dec_arc Y n =
     try_decode (bindR (dec_base Y n) (\<lambda>b.
       bindR (fusion_field Y n ''ang_start'' (dec_double Y)) (\<lambda>start.
       bindR (fusion_field Y n ''ang_stop'' (dec_double Y)) (\<lambda>stop.
       bindR (fusion_field Y n ''bbox'' (dec_box Y)) (\<lambda>bbox.
         Inr (shape_base.extend b
           \<lparr>arc_ang_start = start, arc_ang_stop = stop, arc_bbox = bbox\<rparr>))))))"

definition enc_donut :: "'n yaml_ops \<Rightarrow> sch_donut \<Rightarrow> 'n" where
  "enc_donut Y s =
     fusion_encode Y (base_fields Y s @
       [(''center'', enc_point Y (donut_center s)), (''radius'', enc_u32 Y (donut_radius s)),
        (''hole_radius'', enc_u32 Y (donut_hole_radius s))])"

definition dec_donut :: "'n yaml_ops \<Rightarrow> 'n \<Rightarrow> sch_donut decoded" where
  "dec_donut Y n =
     try_decode (bindR (dec_base Y n) (\<lambda>b.
       bindR (fusion_field Y n ''center'' (dec_point Y)) (\<lambda>center.
       bindR (fusion_field Y n ''radius'' (dec_u32 Y)) (\<lambda>radius.
       bindR (fusion_field Y n ''hole_radius'' (dec_u32 Y)) (\<lambda>hole.
         Inr (shape_base.extend b
           \<lparr>donut_center = center, donut_radius = radius, donut_hole_radius = hole\<rparr>))))))"

definition enc_ellipse :: "'n yaml_ops \<Rightarrow> sch_ellipse \<Rightarrow> 'n" where
  "enc_ellipse Y s = fusion_encode Y (base_fields Y s @ [(''bbox'', enc_box Y (ell_bbox s))])"

definition dec_ellipse :: "'n yaml_ops \<Rightarrow> 'n \<Rightarrow> sch_ellipse decoded" where
  "dec_ellipse Y n =
     try_decode (bindR (dec_base Y n) (\<lambda>b.
       bindR (fusion_field Y n ''bbox'' (dec_box Y)) (\<lambda>bbox.
         Inr (shape_base.extend b \<lparr>ell_bbox = bbox\<rparr>))))"

definition enc_line :: "'n yaml_ops \<Rightarrow> sch_line \<Rightarrow> 'n" where
  "enc_line Y s =
     fusion_encode Y (base_fields Y s @ [(''points'', enc_points Y (line_points s))])"

definition dec_line :: "'n yaml_ops \<Rightarrow> 'n \<Rightarrow> sch_line decoded" where
  "dec_line Y n =
     try_decode (bindR (dec_base Y n) (\<lambda>b.
       bindR (fusion_field Y n ''points'' (dec_points Y)) (\<lambda>ps.
         Inr (shape_base.extend b \<lparr>line_points = ps\<rparr>))))"

definition enc_path :: "'n yaml_ops \<Rightarrow> sch_path \<Rightarrow> 'n" where
  "enc_path Y s =
     fusion_encode Y (base_fields Y s @
       [(''width'', enc_u32 Y (path_width s)), (''points'', enc_points Y (path_points s)),
        (''style'', enc_enum Y style_code (path_style_of s)),
        (''begin_ext'', enc_u32 Y (path_begin_ext s)), (''end_ext'', enc_u32 Y (path_end_ext s))])"

definition dec_path :: "'n yaml_ops \<Rightarrow> 'n \<Rightarrow> sch_path decoded" where
  "dec_path Y n =
     try_decode (bindR (dec_base Y n) (\<lambda>b.
       bindR (fusion_field Y n ''width'' (dec_u32 Y)) (\<lambda>width.
       bindR (fusion_field Y n ''points'' (dec_points Y)) (\<lambda>ps.
       bindR (fusion_field Y n ''style'' (dec_enum Y style_of_code)) (\<lambda>style.
       bindR (fusion_field Y n ''begin_ext'' (dec_u32 Y)) (\<lambda>begin_ext.
       bindR (fusion_field Y n ''end_ext'' (dec_u32 Y)) (\<lambda>end_ext.
         Inr (shape_base.extend b
           \<lparr>path_width = width, path_points = ps, path_style_of = style,
            path_begin_ext = begin_ext, path_end_ext = end_ext\<rparr>))))))))"

section \<open>Texts\<close>

definition text_fields :: "'n yaml_ops \<Rightarrow> 'a text_base_scheme \<Rightarrow> (string \<times> 'n) list" where
  "text_fields Y t =
     base_fields Y t @
     [(''origin'', enc_point Y (tx_origin t)), (''alignment'', enc_enum Y align_code (tx_alignment t)),
      (''orient'', enc_orientation Y (tx_orient t)), (''font'', enc_enum Y font_code (tx_font t)),
      (''height'', enc_u32 Y (tx_height t)), (''overbar'', yo_of_bool Y (tx_overbar t)),
      (''visible'', yo_of_bool Y (tx_visible t)), (''drafting'', yo_of_bool Y (tx_drafting t))]"

definition dec_text_base :: "'n yaml_ops \<Rightarrow> 'n \<Rightarrow> text_base result" where
  "dec_text_base Y n =
     bindR (dec_base Y n) (\<lambda>b.
     bindR (fusion_field Y n ''origin'' (dec_point Y)) (\<lambda>origin.
     bindR (fusion_field Y n ''alignment'' (dec_enum Y align_of_code)) (\<lambda>align.
     bindR (fusion_field Y n ''orient'' (dec_orientation Y)) (\<lambda>ori.
     bindR (fusion_field Y n ''font'' (dec_enum Y font_of_code)) (\<lambda>font.
     bindR (fusion_field Y n ''height'' (dec_u32 Y)) (\<lambda>height.
     bindR (fusion_field Y n ''overbar'' (dec_bool Y)) (\<lambda>overbar.
     bindR (fusion_field Y n ''visible'' (dec_bool Y)) (\<lambda>visible.
     bindR (fusion_field Y n ''drafting'' (dec_bool Y)) (\<lambda>drafting.
       Inr (make_text_base (sh_layer b) (sh_purpose b) (sh_net b) align ori font height overbar visible
         drafting (fst origin) (snd origin)))))))))))"

definition enc_text :: "'n yaml_ops \<Rightarrow> sch_text \<Rightarrow> 'n" where
  "enc_text Y s = fusion_encode Y (text_fields Y s @ [(''text'', yo_of_string Y (txt_text s))])"

definition dec_text :: "'n yaml_ops \<Rightarrow> 'n \<Rightarrow> sch_text decoded" where
  "dec_text Y n =
     try_decode (bindR (dec_text_base Y n) (\<lambda>b.
       bindR (fusion_field Y n ''text'' (dec_string Y)) (\<lambda>txt.
         Inr (text_base.extend b \<lparr>txt_text = txt\<rparr>))))"

text \<open>The list of fields of evaluated texts leaves out \<^verbatim>\<open>text\<close>, which they have too.\<close>

definition enc_eval_text :: "'n yaml_ops \<Rightarrow> sch_eval_text \<Rightarrow> 'n" where
  "enc_eval_text Y s =
     fusion_encode Y (text_fields Y s @ [(''evaluator'', yo_of_string Y (et_evaluator s))])"

definition dec_eval_text :: "'n yaml_ops \<Rightarrow> 'n \<Rightarrow> sch_eval_text decoded" where
  "dec_eval_text Y n =
     try_decode (bindR (dec_text_base Y n) (\<lambda>b.
       bindR (fusion_field Y n ''evaluator'' (dec_string Y)) (\<lambda>eval.
         Inr (sch_text.extend (text_base.extend b \<lparr>txt_text = []\<rparr>) \<lparr>et_evaluator = eval\<rparr>))))"

definition enc_term_attr :: "'n yaml_ops \<Rightarrow> term_attr \<Rightarrow> 'n" where
  "enc_term_attr Y s =
     fusion_encode Y (text_fields Y s @
       [(''attr_type'', enc_enum Y attr_code (ta_attr_type s)),
        (''format'', enc_enum Y disp_code (ta_format s))])"

definition dec_term_attr :: "'n yaml_ops \<Rightarrow> 'n \<Rightarrow> term_attr decoded" where
  "dec_term_attr Y n =
     try_decode (bindR (dec_text_base Y n) (\<lambda>b.
       bindR (fusion_field Y n ''attr_type'' (dec_enum Y attr_of_code)) (\<lambda>attr_type.
       bindR (fusion_field Y n ''format'' (dec_enum Y disp_of_code)) (\<lambda>format.
         Inr (text_base.extend b \<lparr>ta_attr_type = attr_type, ta_format = format\<rparr>)))))"

fun enc_shape :: "'n yaml_ops \<Rightarrow> shape_t \<Rightarrow> 'n" where
  "enc_shape Y (Shape_rectangle s) = enc_variant Y 0 (enc_rectangle Y s)"
| "enc_shape Y (Shape_polygon s) = enc_variant Y 1 (enc_polygon Y s)"
| "enc_shape Y (Shape_arc s) = enc_variant Y 2 (enc_arc Y s)"
| "enc_shape Y (Shape_donut s) = enc_variant Y 3 (enc_donut Y s)"
| "enc_shape Y (Shape_ellipse s) = enc_variant Y 4 (enc_ellipse Y s)"
| "enc_shape Y (Shape_line s) = enc_variant Y 5 (enc_line Y s)"
| "enc_shape Y (Shape_path s) = enc_variant Y 6 (enc_path Y s)"
| "enc_shape Y (Shape_text s) = enc_variant Y 7 (enc_text Y s)"
| "enc_shape Y (Shape_eval_text s) = enc_variant Y 8 (enc_eval_text Y s)"

definition dec_shape :: "'n yaml_ops \<Rightarrow> 'n \<Rightarrow> shape_t decoded" where
  "dec_shape Y n = dec_variant Y
     [as_alt Shape_rectangle (dec_rectangle Y), as_alt Shape_polygon (dec_polygon Y),
      as_alt Shape_arc (dec_arc Y), as_alt Shape_donut (dec_donut Y),
      as_alt Shape_ellipse (dec_ellipse Y), as_alt Shape_line (dec_line Y),
      as_alt Shape_path (dec_path Y), as_alt Shape_text (dec_text Y),
      as_alt Shape_eval_text (dec_eval_text Y)] n"

section \<open>Instances and pins\<close>

definition enc_strings :: "'n yaml_ops \<Rightarrow> (string, string) smap \<Rightarrow> 'n" where
  "enc_strings Y m = enc_smap Y (yo_of_string Y) m"

definition dec_strings :: "'n yaml_ops \<Rightarrow> 'n \<Rightarrow> (string, string) smap decoded" where
  "dec_strings Y n = dec_smap Y (dec_string Y) n"

definition enc_instance :: "'n yaml_ops \<Rightarrow> 'x xform_ops \<Rightarrow> 'x sch_instance \<Rightarrow> 'n" where
  "enc_instance Y T i =
     fusion_encode Y
       [(''lib_name'', yo_of_string Y (inst_lib_name i)),
        (''cell_name'', yo_of_string Y (inst_cell_name i)),
        (''view_name'', yo_of_string Y (inst_view_name i)),
        (''xform'', enc_xform Y T (inst_xform i)), (''bbox'', enc_box Y (inst_bbox i)),
        (''connections'', enc_strings Y (inst_connections i)),
        (''params'', enc_params Y (inst_params i)),
        (''is_primitive'', yo_of_bool Y (inst_is_primitive i))]"

definition dec_instance :: "'n yaml_ops \<Rightarrow> 'x xform_ops \<Rightarrow> 'n \<Rightarrow> 'x sch_instance decoded" where
  "dec_instance Y T n =
     try_decode
       (bindR (fusion_field Y n ''lib_name'' (dec_string Y)) (\<lambda>lib.
        bindR (fusion_field Y n ''cell_name'' (dec_string Y)) (\<lambda>cell.
        bindR (fusion_field Y n ''view_name'' (dec_string Y)) (\<lambda>view.
        bindR (fusion_field Y n ''xform'' (dec_xform Y T)) (\<lambda>xform.
        bindR (fusion_field Y n ''bbox'' (dec_box Y)) (\<lambda>bbox.
        bindR (fusion_field Y n ''connections'' (dec_strings Y)) (\<lambda>conns.
        bindR (fusion_field Y n ''params'' (dec_params Y)) (\<lambda>params.
        bindR (fusion_field Y n ''is_primitive'' (dec_bool Y)) (\<lambda>prim.
          Inr \<lparr>inst_lib_name = lib, inst_cell_name = cell, inst_view_name = view,
               inst_xform = xform, inst_bbox = bbox, inst_is_primitive = prim,
               inst_connections = conns, inst_params = params\<rparr>)))))))))"

definition enc_pin_object :: "'n yaml_ops \<Rightarrow> 'x xform_ops \<Rightarrow> 'x pin_object \<Rightarrow> 'n" where
  "enc_pin_object Y T p =
     fusion_encode Y [(''inst'', enc_instance Y T (po_inst p)), (''attr'', enc_term_attr Y (po_attr p))]"

definition dec_pin_object :: "'n yaml_ops \<Rightarrow> 'x xform_ops \<Rightarrow> 'n \<Rightarrow> 'x pin_object decoded" where
  "dec_pin_object Y T n =
     try_decode (bindR (fusion_field Y n ''inst'' (dec_instance Y T)) (\<lambda>inst.
       bindR (fusion_field Y n ''attr'' (dec_term_attr Y)) (\<lambda>attr. Inr (make_pin_object inst attr))))"

fun enc_pin_fig :: "'n yaml_ops \<Rightarrow> 'x xform_ops \<Rightarrow> 'x pin_fig_t \<Rightarrow> 'n" where
  "enc_pin_fig Y T (Fig_rectangle s) = enc_variant Y 0 (enc_rectangle Y s)"
| "enc_pin_fig Y T (Fig_object p) = enc_variant Y 1 (enc_pin_object Y T p)"

definition dec_pin_fig :: "'n yaml_ops \<Rightarrow> 'x xform_ops \<Rightarrow> 'n \<Rightarrow> 'x pin_fig_t decoded" where
  "dec_pin_fig Y T n = dec_variant Y
     [as_alt Fig_rectangle (dec_rectangle Y), as_alt Fig_object (dec_pin_object Y T)] n"

text \<open>\<^verbatim>\<open>force_insert\<close> of one field after the other.\<close>

definition map_encode :: "'n yaml_ops \<Rightarrow> (string \<times> 'n) list \<Rightarrow> 'n" where
  "map_encode Y fs =
     foldl (\<lambda>root f. yo_force_insert Y root (yo_of_string Y (fst f)) (snd f)) (yo_map Y) fs"

definition enc_pin_figure :: "'n yaml_ops \<Rightarrow> 'x xform_ops \<Rightarrow> 'x pin_fig_t pin_figure \<Rightarrow> 'n" where
  "enc_pin_figure Y T p =
     map_encode Y
       ([(''obj'', enc_pin_fig Y T (pf_obj p)), (''stype'', enc_enum Y sig_code (pf_stype p)),
         (''ttype'', enc_enum Y term_code (pf_ttype p))] @
        (if pf_attrs p = [] then [] else [(''attrs'', enc_strings Y (pf_attrs p))]))"

definition dec_pin_figure :: "'n yaml_ops \<Rightarrow> 'x xform_ops \<Rightarrow> 'n \<Rightarrow> 'x pin_fig_t pin_figure decoded" where
  "dec_pin_figure Y T n =
     (if yo_entries Y n = None then Inr None
      else try_decode
        (bindR (map_field Y n ''obj'' (dec_pin_fig Y T)) (\<lambda>obj.
         bindR (map_field Y n ''stype'' (dec_enum Y sig_of_code)) (\<lambda>stype.
         bindR (map_field Y n ''ttype'' (dec_enum Y term_of_code)) (\<lambda>ttype.
         bindR (if yo_get Y n ''attrs'' \<noteq> None then map_field Y n ''attrs'' (dec_strings Y)
                else Inr []) (\<lambda>attrs.
           Inr ((make_pin_figure obj stype ttype)\<lparr>pf_attrs := attrs\<rparr>)))))))"

section \<open>Cellviews\<close>

text \<open>The symbol is not among the fields: it has a file of its own.\<close>

fun enc_cellview :: "'n yaml_ops \<Rightarrow> 'x xform_ops \<Rightarrow> 'x sch_cellview \<Rightarrow> 'n" where
  "enc_cellview Y T (Cellview d sy) =
     fusion_encode Y
       [(''lib_name'', yo_of_string Y (cv_lib_name d)),
        (''cell_name'', yo_of_string Y (cv_cell_name d)),
        (''view_name'', yo_of_string Y (cv_view_name d)), (''bbox'', enc_box Y (cv_bbox d)),
        (''terminals'', enc_smap Y (enc_pin_figure Y T) (cv_terminals d)),
        (''shapes'', enc_vec Y (enc_shape Y) (cv_shapes d)),
        (''instances'', enc_smap Y (enc_instance Y T) (cv_instances d)),
        (''props'', enc_params Y (cv_props d)), (''app_defs'', enc_params Y (cv_app_defs d))]"

definition dec_cellview :: "'n yaml_ops \<Rightarrow> 'x xform_ops \<Rightarrow> 'n \<Rightarrow> 'x sch_cellview decoded" where
  "dec_cellview Y T n =
     try_decode
       (bindR (fusion_field Y n ''lib_name'' (dec_string Y)) (\<lambda>lib.
        bindR (fusion_field Y n ''cell_name'' (dec_string Y)) (\<lambda>cell.
        bindR (fusion_field Y n ''view_name'' (dec_string Y)) (\<lambda>view.
        bindR (fusion_field Y n ''bbox'' (dec_box Y)) (\<lambda>bbox.
        bindR (fusion_field Y n ''terminals'' (dec_smap Y (dec_pin_figure Y T))) (\<lambda>terms.
        bindR (fusion_field Y n ''shapes'' (dec_vec Y (dec_shape Y))) (\<lambda>shapes.
        bindR (fusion_field Y n ''instances''
          (dec_smap Y (dec_unique_ptr (dec_instance Y T)))) (\<lambda>insts.
        bindR (fusion_field Y n ''props'' (dec_params Y)) (\<lambda>props.
        bindR (fusion_field Y n ''app_defs'' (dec_params Y)) (\<lambda>app_defs.
          Inr (Cellview
            \<lparr>cv_lib_name = lib, cv_cell_name = cell, cv_view_name = view, cv_bbox = bbox,
             cv_terminals = terms, cv_shapes = shapes, cv_instances = insts, cv_props = props,
             cv_app_defs = app_defs\<rparr> None)))))))))))"

text \<open>The information that the netlist of a cell is made of.\<close>

definition enc_cv_info :: "'n yaml_ops \<Rightarrow> cellview_info \<Rightarrow> 'n" where
  "enc_cv_info Y rhs =
     map_encode Y
       ([(''lib_name'', yo_of_string Y (ci_lib_name rhs)),
         (''cell_name'', yo_of_string Y (ci_cell_name rhs)),
         (''in_terms'', enc_vec Y (yo_of_string Y) (ci_in_terms rhs)),
         (''out_terms'', enc_vec Y (yo_of_string Y) (ci_out_terms rhs)),
         (''io_terms'', enc_vec Y (yo_of_string Y) (ci_io_terms rhs)),
         (''nets'', enc_vec Y (yo_of_string Y) (ci_nets rhs)),
         (''props'', enc_params Y (ci_props rhs)), (''is_prim'', yo_of_bool Y (ci_is_prim rhs))] @
        (if ci_term_net_attrs rhs = [] then []
         else [(''term_net_attrs'', enc_smap Y (enc_strings Y) (ci_term_net_attrs rhs))]))"

definition dec_cv_info :: "'n yaml_ops \<Rightarrow> 'n \<Rightarrow> cellview_info decoded" where
  "dec_cv_info Y n =
     (if yo_entries Y n = None then Inr None
      else try_decode
        (bindR (map_field Y n ''lib_name'' (dec_string Y)) (\<lambda>lib.
         bindR (map_field Y n ''cell_name'' (dec_string Y)) (\<lambda>cell.
         bindR (map_field Y n ''in_terms'' (dec_vec Y (dec_string Y))) (\<lambda>in_terms.
         bindR (map_field Y n ''out_terms'' (dec_vec Y (dec_string Y))) (\<lambda>out_terms.
         bindR (map_field Y n ''io_terms'' (dec_vec Y (dec_string Y))) (\<lambda>io_terms.
         bindR (map_field Y n ''nets'' (dec_vec Y (dec_string Y))) (\<lambda>nets.
         bindR (map_field Y n ''props'' (dec_params Y)) (\<lambda>props.
         bindR (map_field Y n ''is_prim'' (dec_bool Y)) (\<lambda>prim.
         bindR (if yo_get Y n ''term_net_attrs'' \<noteq> None
                then map_field Y n ''term_net_attrs'' (dec_smap Y (dec_strings Y))
                else Inr []) (\<lambda>attrs.
           Inr \<lparr>ci_lib_name = lib, ci_cell_name = cell, ci_in_terms = in_terms,
                ci_out_terms = out_terms, ci_io_terms = io_terms, ci_nets = nets, ci_props = props,
                ci_is_prim = prim, ci_term_net_attrs = attrs\<rparr>)))))))))))"

section \<open>Files\<close>

text \<open>
  Paths are the strings of POSIX, on which \<^verbatim>\<open>std::filesystem::path\<close> finds the extension of the last
  component.
\<close>

definition path_filename :: "string \<Rightarrow> string" where
  "path_filename p = rev (takeWhile (\<lambda>c. c \<noteq> CHR ''/'') (rev p))"

definition path_extension :: "string \<Rightarrow> string" where
  "path_extension p =
     (let fn = path_filename p; ext = rev (takeWhile (\<lambda>c. c \<noteq> CHR ''.'') (rev fn)) in
      if fn = ''..'' \<or> length fn \<le> length ext + 1 then [] else CHR ''.'' # ext)"

definition replace_extension :: "string \<Rightarrow> string \<Rightarrow> string" where
  "replace_extension p ext =
     take (length p - length (path_extension p)) p @
     (if ext \<noteq> [] \<and> hd ext \<noteq> CHR ''.'' then ''.'' else []) @ ext"

text \<open>The constructor of a cellview from a file, without and with the name of a symbol view.\<close>

definition read_cellview ::
  "'n yaml_ops \<Rightarrow> 'x xform_ops \<Rightarrow> file_sys \<Rightarrow> string \<Rightarrow> 'x sch_cellview result" where
  "read_cellview Y T F yaml_fname =
     (if \<not> fs_is_file F yaml_fname then Inl Invalid_argument
      else bindR (yaml_load_file Y F yaml_fname) (\<lambda>n.
        bindR (as_type (dec_cellview Y T) n) (\<lambda>cv.
        bindR (validate_sch_cellview cv) (\<lambda>u. Inr cv))))"

definition symbol_path :: "file_sys \<Rightarrow> string \<Rightarrow> string \<Rightarrow> string" where
  "symbol_path F yaml_fname sym_view =
     (let yaml_path = fs_canonical F yaml_fname in
      replace_extension yaml_path (''.'' @ sym_view @ path_extension yaml_path))"

definition load_cellview ::
  "'n yaml_ops \<Rightarrow> 'x xform_ops \<Rightarrow> file_sys \<Rightarrow> string \<Rightarrow> string \<Rightarrow> 'x sch_cellview result" where
  "load_cellview Y T F yaml_fname sym_view =
     bindR (read_cellview Y T F yaml_fname) (\<lambda>cv.
       if sym_view = [] then Inr cv
       else let yaml_path = symbol_path F yaml_fname sym_view in
         if fs_is_file F yaml_path
         then bindR (read_cellview Y T F yaml_path) (\<lambda>sym. Inr (Cellview (cv_fields cv) (Some sym)))
         else Inr cv)"

text \<open>What \<^verbatim>\<open>to_file\<close> writes.\<close>

definition cellview_to_file :: "'n yaml_ops \<Rightarrow> 'x xform_ops \<Rightarrow> 'x sch_cellview \<Rightarrow> string" where
  "cellview_to_file Y T cv = to_yaml Y (enc_cellview Y T) cv @ [CHR 0x0A]"

end
