(* ===== verification/Yaml_Doc.thy ===== *)
theory Yaml_Doc
  imports Yaml_Node
begin

text \<open>An instance of the interface of yaml-cpp, for which the laws hold.\<close>

text \<open>Documents as trees; the parser knows one document.\<close>

datatype doc = D_null | D_int int | D_double "64 word" | D_bool bool | D_string string
  | D_seq "doc list" | D_map "(doc \<times> doc) list"

definition doc_ops :: "doc \<Rightarrow> doc yaml_ops" where
  "doc_ops known =
     \<lparr>yo_null = D_null, yo_seq = D_seq [], yo_map = D_map [], yo_of_int = D_int,
      yo_of_double = D_double, yo_of_bool = D_bool, yo_of_string = D_string,
      yo_push_back = (\<lambda>n x. case n of D_seq xs \<Rightarrow> D_seq (xs @ [x]) | _ \<Rightarrow> D_seq [x]),
      yo_force_insert = (\<lambda>n k v. case n of D_map es \<Rightarrow> D_map (es @ [(k, v)]) | _ \<Rightarrow> D_map [(k, v)]),
      yo_set = (\<lambda>n k v. D_map ((case n of D_map es \<Rightarrow> filter (\<lambda>e. fst e \<noteq> D_string k) es | _ \<Rightarrow> []) @
        [(D_string k, v)])),
      yo_elems = (\<lambda>n. case n of D_seq xs \<Rightarrow> Some xs | _ \<Rightarrow> None),
      yo_entries = (\<lambda>n. case n of D_map es \<Rightarrow> Some es | _ \<Rightarrow> None),
      yo_get = (\<lambda>n k. case n of D_map es \<Rightarrow> map_of es (D_string k) | _ \<Rightarrow> None),
      yo_index = (\<lambda>n i. case n of D_seq xs \<Rightarrow> if i < length xs then Some (xs ! i) else None | _ \<Rightarrow> None),
      yo_is_scalar = (\<lambda>n. case n of D_int i \<Rightarrow> True | D_double d \<Rightarrow> True | D_bool b \<Rightarrow> True
        | D_string s \<Rightarrow> True | _ \<Rightarrow> False),
      yo_as_int = (\<lambda>lo hi n. case n of D_int i \<Rightarrow> if lo \<le> i \<and> i \<le> hi then Some i else None | _ \<Rightarrow> None),
      yo_as_double = (\<lambda>n. case n of D_int i \<Rightarrow> Some 0 | D_double d \<Rightarrow> Some d | _ \<Rightarrow> None),
      yo_as_bool = (\<lambda>n. case n of D_bool b \<Rightarrow> Some b | _ \<Rightarrow> None),
      yo_as_string = (\<lambda>n. case n of D_string s \<Rightarrow> Some s | _ \<Rightarrow> None),
      yo_emit = (\<lambda>n. ''cell''), yo_load = (\<lambda>s. if s = ''cell'' @ [CHR 0x0A] then Some known else None)\<rparr>"

lemma map_of_filter_other:
  "k \<noteq> k' \<Longrightarrow> map_of (filter (\<lambda>e. fst e \<noteq> k) es) k' = map_of es k'"
  by (induction es) auto

lemma map_of_filter_same: "map_of (filter (\<lambda>e. fst e \<noteq> k) es) k = None"
  by (auto simp: map_of_eq_None_iff)

lemma doc_entries: "yo_entries (doc_ops known) n = Some es \<longleftrightarrow> n = D_map es"
  by (cases n) (simp_all add: doc_ops_def)

lemma doc_elems: "yo_elems (doc_ops known) n = Some xs \<longleftrightarrow> n = D_seq xs"
  by (cases n) (simp_all add: doc_ops_def)

lemma doc_set_get:
  "n = D_null \<or> n = D_map es \<Longrightarrow> yo_get (doc_ops known) (yo_set (doc_ops known) n k v) k' =
    (if k = k' then Some v else yo_get (doc_ops known) n k')"
  by (auto simp: doc_ops_def map_add_def map_of_filter_other map_of_filter_same split: option.split)

lemma doc_insert_get:
  "yo_get (doc_ops known) (yo_force_insert (doc_ops known) (D_map es) (D_string k) v) k' =
    (case yo_get (doc_ops known) (D_map es) k' of
       Some w \<Rightarrow> Some w | None \<Rightarrow> if k = k' then Some v else None)"
  by (induction es) (auto simp: doc_ops_def)

lemma doc_ops_laws: "yaml_laws (doc_ops known)"
proof -
  let ?Y = "doc_ops known"
  have "yo_null ?Y = D_null" "yo_of_string ?Y = D_string" by (simp_all add: doc_ops_def)
  note null = this
  have entries: "yo_entries ?Y n \<noteq> None \<longleftrightarrow> (\<exists>es. n = D_map es)" for n
    using doc_entries [of known n] by auto
  have "(\<forall>n es k v. yo_entries ?Y n = Some es \<longrightarrow>
      yo_entries ?Y (yo_force_insert ?Y n k v) = Some (es @ [(k, v)]))"
    unfolding doc_entries by (simp add: doc_ops_def)
  moreover have "\<forall>n xs x. yo_elems ?Y n = Some xs \<longrightarrow> yo_elems ?Y (yo_push_back ?Y n x) = Some (xs @ [x])"
    unfolding doc_elems by (simp add: doc_ops_def)
  moreover have "\<forall>n k v k'. yo_entries ?Y n \<noteq> None \<longrightarrow>
      yo_get ?Y (yo_force_insert ?Y n (yo_of_string ?Y k) v) k' =
        (case yo_get ?Y n k' of Some w \<Rightarrow> Some w | None \<Rightarrow> if k = k' then Some v else None)"
    unfolding entries null using doc_insert_get by blast
  moreover have "\<forall>n k v k'. n = yo_null ?Y \<or> yo_entries ?Y n \<noteq> None \<longrightarrow>
      yo_entries ?Y (yo_set ?Y n k v) \<noteq> None \<and>
      yo_get ?Y (yo_set ?Y n k v) k' = (if k = k' then Some v else yo_get ?Y n k')"
  proof (intro allI impI)
    fix n k v k'
    assume "n = yo_null ?Y \<or> yo_entries ?Y n \<noteq> None"
    then obtain es where n: "n = D_null \<or> n = D_map es" unfolding entries null by blast
    have "yo_entries ?Y (yo_set ?Y n k v) \<noteq> None" unfolding entries by (simp add: doc_ops_def)
    with doc_set_get [OF n] show "yo_entries ?Y (yo_set ?Y n k v) \<noteq> None \<and>
      yo_get ?Y (yo_set ?Y n k v) k' = (if k = k' then Some v else yo_get ?Y n k')" by blast
  qed
  ultimately show ?thesis
    unfolding yaml_laws_def by (intro conjI; (assumption | simp add: doc_ops_def dbl_inf_def))
qed

end
