(* ===== verification/Yaml_Sch_Props.thy ===== *)
theory Yaml_Sch_Props
  imports Yaml_Sch Yaml_Doc
begin

text \<open>
  A schematic that was written to a file is read back.  The conditions on its values say that they are
  within the ranges of their types, that maps are sorted, that enumerations are named by their
  constructors, and that the decimal text of a \<^verbatim>\<open>double\<close> is read as this \<^verbatim>\<open>double\<close>.
\<close>

section \<open>Values that can be stored\<close>

definition dbl_stored :: "'n yaml_ops \<Rightarrow> 64 word \<Rightarrow> bool" where
  "dbl_stored Y d \<longleftrightarrow> yo_as_double Y (yo_of_double Y d) = Some d"

definition box_fits :: "box_t \<Rightarrow> bool" where
  "box_fits b \<longleftrightarrow> int32 (box_xl b) \<and> int32 (box_yl b) \<and> int32 (box_xh b) \<and> int32 (box_yh b)"

definition int64 :: "int \<Rightarrow> bool" where
  "int64 i \<longleftrightarrow> - (2 ^ 63) \<le> i \<and> i < 2 ^ 63"

fun value_stored :: "'n yaml_ops \<Rightarrow> value_t \<Rightarrow> bool" where
  "value_stored Y (V_int i) = int64 i"
| "value_stored Y (V_double d) = dbl_stored Y d"
| "value_stored Y (V_time t) = int64 t"
| "value_stored Y v = True"

definition params_stored :: "'n yaml_ops \<Rightarrow> param_map \<Rightarrow> bool" where
  "params_stored Y m \<longleftrightarrow> sm_inv m \<and> (\<forall>(k, v) \<in> set m. value_stored Y v)"

definition pt_fits :: "point \<Rightarrow> bool" where
  "pt_fits p \<longleftrightarrow> int32 (fst p) \<and> int32 (snd p)"

definition text_stored :: "'a text_base_scheme \<Rightarrow> bool" where
  "text_stored t \<longleftrightarrow> pt_fits (tx_origin t) \<and> align_of_code (align_code (tx_alignment t)) = tx_alignment t \<and>
     font_of_code (font_code (tx_font t)) = tx_font t"

fun shape_stored :: "'n yaml_ops \<Rightarrow> shape_t \<Rightarrow> bool" where
  "shape_stored Y (Shape_rectangle s) = box_fits (rect_bbox s)"
| "shape_stored Y (Shape_polygon s) = (\<forall>p\<in>set (poly_points s). pt_fits p)"
| "shape_stored Y (Shape_arc s) =
     (dbl_stored Y (arc_ang_start s) \<and> dbl_stored Y (arc_ang_stop s) \<and> box_fits (arc_bbox s))"
| "shape_stored Y (Shape_donut s) = pt_fits (donut_center s)"
| "shape_stored Y (Shape_ellipse s) = box_fits (ell_bbox s)"
| "shape_stored Y (Shape_line s) = (\<forall>p\<in>set (line_points s). pt_fits p)"
| "shape_stored Y (Shape_path s) =
     ((\<forall>p\<in>set (path_points s). pt_fits p) \<and> style_of_code (style_code (path_style_of s)) = path_style_of s)"
| "shape_stored Y (Shape_text s) = text_stored s"
| "shape_stored Y (Shape_eval_text s) = text_stored s"

text \<open>What is left of a shape: the text of an evaluated text is not among its fields.\<close>

fun shape_kept :: "shape_t \<Rightarrow> shape_t" where
  "shape_kept (Shape_eval_text s) = Shape_eval_text (s\<lparr>txt_text := []\<rparr>)"
| "shape_kept s = s"

definition inst_stored :: "'n yaml_ops \<Rightarrow> 'x xform_ops \<Rightarrow> 'x sch_instance \<Rightarrow> bool" where
  "inst_stored Y T i \<longleftrightarrow> pt_fits (location T (inst_xform i)) \<and> box_fits (inst_bbox i) \<and>
     sm_inv (inst_connections i) \<and> params_stored Y (inst_params i)"

fun pin_fig_stored :: "'n yaml_ops \<Rightarrow> 'x xform_ops \<Rightarrow> 'x pin_fig_t \<Rightarrow> bool" where
  "pin_fig_stored Y T (Fig_rectangle s) = box_fits (rect_bbox s)"
| "pin_fig_stored Y T (Fig_object p) =
     (inst_stored Y T (po_inst p) \<and> text_stored (po_attr p) \<and>
      attr_of_code (attr_code (ta_attr_type (po_attr p))) = ta_attr_type (po_attr p) \<and>
      disp_of_code (disp_code (ta_format (po_attr p))) = ta_format (po_attr p))"

definition pin_stored :: "'n yaml_ops \<Rightarrow> 'x xform_ops \<Rightarrow> 'x pin_fig_t pin_figure \<Rightarrow> bool" where
  "pin_stored Y T p \<longleftrightarrow> pin_fig_stored Y T (pf_obj p) \<and> sig_of_code (sig_code (pf_stype p)) = pf_stype p \<and>
     term_of_code (term_code (pf_ttype p)) = pf_ttype p \<and> sm_inv (pf_attrs p)"

definition fields_stored :: "'n yaml_ops \<Rightarrow> 'x xform_ops \<Rightarrow> ('x, 'x pin_fig_t, shape_t) cv_data \<Rightarrow> bool" where
  "fields_stored Y T d \<longleftrightarrow> box_fits (cv_bbox d) \<and>
     sm_inv (cv_terminals d) \<and> (\<forall>(k, p) \<in> set (cv_terminals d). pin_stored Y T p) \<and>
     (\<forall>s\<in>set (cv_shapes d). shape_stored Y s) \<and>
     sm_inv (cv_instances d) \<and> (\<forall>(k, i) \<in> set (cv_instances d). inst_stored Y T i) \<and>
     params_stored Y (cv_props d) \<and> params_stored Y (cv_app_defs d)"

text \<open>A transformation of Boost is determined by its axis transformation and its location.\<close>

definition xform_ext :: "'x xform_ops \<Rightarrow> bool" where
  "xform_ext T \<longleftrightarrow> (\<forall>x y. xo_axis T x = xo_axis T y \<and> location T x = location T y \<longrightarrow> x = y)"

section \<open>Converter by converter\<close>

lemma box_rt:
  assumes "yaml_laws Y" and "box_fits b"
  shows "dec_box Y (enc_box Y b) = Inr (Some b)"
proof -
  note L = yaml_lawsD(6,8) [OF assms(1)]
  have "yo_elems Y (enc_box Y b) = Some [yo_of_int Y (box_xl b), yo_of_int Y (box_yl b),
      yo_of_int Y (box_xh b), yo_of_int Y (box_yh b)]"
    unfolding enc_box_def by (simp add: L)
  moreover have "box_set (make_box 0 0 0 0) (box_xl b) (box_yl b) (box_xh b) (box_yh b) = b"
    by (cases b) (simp add: box_set_def make_box_def box_xl_def box_yl_def box_xh_def box_yh_def)
  ultimately show ?thesis
    using assms(2) by (simp add: dec_box_def box_fits_def scalar_rt [OF assms(1)])
qed

lemma orient_code_code:
  assumes "xform_laws T"
  shows "orient_code T x = int (orientation_code (xo_axis T x))"
  by (cases "xo_axis T x"; simp add: orient_code_def xform_lawsD(11) [OF assms])

lemma xform_rt:
  assumes "yaml_laws Y" and "xform_laws T" and "xform_ext T" and "pt_fits (location T x)"
  shows "dec_xform Y T (enc_xform Y T x) = Inr (Some x)"
proof -
  let ?c = "orientation_code (xo_axis T x)"
  note L = yaml_lawsD(6,8) [OF assms(1)]
  have elems: "yo_elems Y (enc_xform Y T x) =
      Some [yo_of_int Y (xform_x T x), yo_of_int Y (xform_y T x), yo_of_int Y (orient_code T x)]"
    unfolding enc_xform_def by (simp add: L)
  have c: "?c \<le> 7" by (rule orientation_code_less)
  have w: "unat (of_nat ?c :: 32 word) = ?c" using c by (simp add: unat_of_nat)
  have u: "uint (of_nat ?c :: 32 word) = int ?c" by (simp add: uint_nat w)
  have code: "dec_u32 Y (yo_of_int Y (orient_code T x)) = Inr (Some (of_nat ?c))"
    using scalar_rt(3) [OF assms(1), of "of_nat ?c"]
    unfolding enc_u32_def u by (simp add: orient_code_code [OF assms(2)])
  let ?y = "set_location T (xo_make T OR0) (xform_x T x) (xform_y T x)"
  have loc: "location T x = (xform_x T x, xform_y T x)"
    by (simp add: xform_x_def xform_y_def get_coord_def)
  have "set_orient_code T ?y ?c = x"
    using assms(3) loc
    by (simp add: xform_ext_def set_orient_code_def set_orient_spec [OF assms(2)] set_location_spec [OF assms(2)])
  then show ?thesis
    using assms(4) loc c
    by (simp add: dec_xform_def elems code scalar_rt [OF assms(1)] pt_fits_def w)
qed

lemma variant_rt:
  assumes "yaml_laws Y" and "i < length alts" and "int i < 2 ^ 31" and "(alts ! i) m = Inr x"
  shows "dec_variant Y alts (enc_variant Y (int i) m) = Inr (Some x)"
proof -
  have "yo_elems Y (enc_variant Y (int i) m) = Some [yo_of_int Y (int i), m]"
    unfolding enc_variant_def by (simp add: yaml_lawsD(7,8) [OF assms(1)])
  moreover have "int32 (int i)" using assms(3) by (simp add: int32_def)
  ultimately show ?thesis using assms by (simp add: dec_variant_def scalar_rt [OF assms(1)])
qed

lemmas variant_rts = variant_rt [where i = 0, simplified] variant_rt [where i = "Suc 0", simplified]
  variant_rt [where i = 2, simplified] variant_rt [where i = 3, simplified]
  variant_rt [where i = 4, simplified] variant_rt [where i = 5, simplified]
  variant_rt [where i = 6, simplified] variant_rt [where i = 7, simplified]
  variant_rt [where i = 8, simplified]

lemma value_rt:
  assumes "yaml_laws Y" and "value_stored Y v"
  shows "dec_value Y (enc_value Y v) = Inr (Some v)"
  using assms(2)
  by (cases v) (simp_all add: dec_value_def variant_rts [OF assms(1)] as_alt_def as_type_def
      scalar_rt [OF assms(1)] int64_def dec_double_def dbl_stored_def dec_time_def dec_binary_def
      fusion_field_encode [OF assms(1)])

interpretation value_codec: yaml_codec enc_value dec_value value_stored
  by unfold_locales (rule value_rt)

lemma params_rt:
  assumes "yaml_laws Y" and "params_stored Y m"
  shows "dec_params Y (enc_params Y m) = Inr (Some m)"
  unfolding dec_params_def enc_params_def
  by (rule value_codec.smap) (use assms in \<open>auto simp: params_stored_def\<close>)

lemma strings_rt:
  assumes "yaml_laws Y" and "sm_inv m"
  shows "dec_strings Y (enc_strings Y m) = Inr (Some m)"
  unfolding dec_strings_def enc_strings_def
  by (rule string_codec.smap) (use assms in auto)

lemma points_rt:
  assumes "yaml_laws Y" and "\<forall>p\<in>set ps. pt_fits p"
  shows "dec_points Y (enc_points Y ps) = Inr (Some ps)"
  unfolding dec_points_def enc_points_def
  by (rule point_codec.vec) (use assms in \<open>auto simp: pt_fits_def\<close>)

lemma orientation_rt:
  assumes "yaml_laws Y"
  shows "dec_orientation Y (enc_orientation Y ori) = Inr (Some ori)"
proof -
  have "orientation_code ori \<le> 7" by (rule orientation_code_less)
  then show ?thesis
    by (simp add: dec_orientation_def enc_orientation_def yaml_lawsD(3) [OF assms] scalar_rt [OF assms]
        int32_def)
qed

interpretation box_codec: yaml_codec enc_box dec_box "\<lambda>Y. box_fits"
  by unfold_locales (rule box_rt)

interpretation params_codec: yaml_codec enc_params dec_params params_stored
  by unfold_locales (rule params_rt)

interpretation strings_codec: yaml_codec enc_strings dec_strings "\<lambda>Y. sm_inv"
  by unfold_locales (rule strings_rt)

interpretation points_codec: yaml_codec enc_points dec_points "\<lambda>Y ps. \<forall>p\<in>set ps. pt_fits p"
  by unfold_locales (rule points_rt)

section \<open>Shapes and figures\<close>

text \<open>The converter of a structure is the composition of those of its fields.\<close>

lemma dec_base_rt:
  assumes "yaml_laws Y" and "\<And>key m. (key, m) \<in> set (base_fields Y s) \<Longrightarrow> map_of (rev fs) key = Some m"
  shows "dec_base Y (fusion_encode Y fs) = Inr (make_shape_base (sh_layer s) (sh_purpose s) (sh_net s))"
  using assms(2) [of "''layer''" "enc_u32 Y (sh_layer s)"]
    assms(2) [of "''purpose''" "enc_u32 Y (sh_purpose s)"] assms(2) [of "''net''" "yo_of_string Y (sh_net s)"]
  by (simp add: dec_base_def base_fields_def fusion_field_encode [OF assms(1)] scalar_rt [OF assms(1)])

lemma dec_text_base_rt:
  assumes "yaml_laws Y" and "text_stored t"
    and "\<And>key m. (key, m) \<in> set (text_fields Y t) \<Longrightarrow> map_of (rev fs) key = Some m"
  shows "dec_text_base Y (fusion_encode Y fs) = Inr (text_base.truncate t)"
proof -
  have base: "dec_base Y (fusion_encode Y fs) =
      Inr (make_shape_base (sh_layer t) (sh_purpose t) (sh_net t))"
    by (rule dec_base_rt [OF assms(1)]) (rule assms(3), simp add: text_fields_def)
  have fs: "map_of (rev fs) ''origin'' = Some (enc_point Y (tx_origin t))"
    "map_of (rev fs) ''alignment'' = Some (enc_enum Y align_code (tx_alignment t))"
    "map_of (rev fs) ''orient'' = Some (enc_orientation Y (tx_orient t))"
    "map_of (rev fs) ''font'' = Some (enc_enum Y font_code (tx_font t))"
    "map_of (rev fs) ''height'' = Some (enc_u32 Y (tx_height t))"
    "map_of (rev fs) ''overbar'' = Some (yo_of_bool Y (tx_overbar t))"
    "map_of (rev fs) ''visible'' = Some (yo_of_bool Y (tx_visible t))"
    "map_of (rev fs) ''drafting'' = Some (yo_of_bool Y (tx_drafting t))"
    by (rule assms(3); simp add: text_fields_def base_fields_def)+
  show ?thesis
    using assms(2)
    by (simp add: dec_text_base_def base fusion_field_encode [OF assms(1)] fs text_stored_def pt_fits_def
        scalar_rt [OF assms(1)] point_rt [OF assms(1)] enum_rt [OF assms(1)] orientation_rt [OF assms(1)]
        make_text_base_def make_shape_base_def text_base.truncate_def shape_base.defs text_base.defs)
qed

lemmas shape_rt_defs = dec_rectangle_def enc_rectangle_def dec_polygon_def enc_polygon_def dec_arc_def
  enc_arc_def dec_donut_def enc_donut_def dec_ellipse_def enc_ellipse_def dec_line_def enc_line_def
  dec_path_def enc_path_def

lemmas text_rt_defs = dec_text_def enc_text_def dec_eval_text_def enc_eval_text_def dec_term_attr_def
  enc_term_attr_def

lemma base_fields_found:
  assumes "(key, m) \<in> set (base_fields Y s)" and "\<forall>k\<in>fst ` set fs. k \<notin> {''layer'', ''purpose'', ''net''}"
  shows "map_of (rev (base_fields Y s @ fs)) key = Some m"
proof -
  have "map_of (rev fs) key = None"
    using assms by (force simp: base_fields_def map_of_eq_None_iff)
  then show ?thesis using assms(1) by (auto simp: base_fields_def map_add_def)
qed

lemma text_fields_found:
  assumes "(key, m) \<in> set (text_fields Y s)" and "\<forall>k\<in>fst ` set fs. k \<notin> {''layer'', ''purpose'', ''net'',
      ''origin'', ''alignment'', ''orient'', ''font'', ''height'', ''overbar'', ''visible'', ''drafting''}"
  shows "map_of (rev (text_fields Y s @ fs)) key = Some m"
proof -
  have "map_of (rev fs) key = None"
    using assms by (force simp: text_fields_def base_fields_def map_of_eq_None_iff)
  moreover have "map_of (rev (text_fields Y s)) key = Some m"
    using assms(1) by (intro map_of_is_SomeI) (auto simp: text_fields_def base_fields_def)
  ultimately show ?thesis by (simp add: map_add_def)
qed

lemma dec_base_fields:
  assumes "yaml_laws Y" and "\<forall>k\<in>fst ` set fs. k \<notin> {''layer'', ''purpose'', ''net''}"
  shows "dec_base Y (fusion_encode Y (base_fields Y s @ fs)) =
    Inr (make_shape_base (sh_layer s) (sh_purpose s) (sh_net s))"
  by (rule dec_base_rt [OF assms(1)]) (rule base_fields_found [OF _ assms(2)])

lemma dec_text_fields:
  assumes "yaml_laws Y" and "text_stored s" and "\<forall>k\<in>fst ` set fs. k \<notin> {''layer'', ''purpose'', ''net'',
      ''origin'', ''alignment'', ''orient'', ''font'', ''height'', ''overbar'', ''visible'', ''drafting''}"
  shows "dec_text_base Y (fusion_encode Y (text_fields Y s @ fs)) = Inr (text_base.truncate s)"
  by (rule dec_text_base_rt [OF assms(1,2)]) (rule text_fields_found [OF _ assms(3)])

lemma rectangle_rt:
  assumes "yaml_laws Y" and "box_fits (rect_bbox s)"
  shows "dec_rectangle Y (enc_rectangle Y s) = Inr (Some s)"
  using assms(2)
  by (cases s) (simp add: shape_rt_defs dec_base_fields [OF assms(1)] fusion_field_encode [OF assms(1)]
      box_rt [OF assms(1)] make_shape_base_def shape_base.defs)

lemma shape_rt:
  assumes "yaml_laws Y" and "shape_stored Y s"
  shows "dec_shape Y (enc_shape Y s) = Inr (Some (shape_kept s))"
proof -
  note rt = scalar_rt [OF assms(1)] box_rt [OF assms(1)] points_rt [OF assms(1)] point_rt [OF assms(1)]
    enum_rt [OF assms(1)] fusion_field_encode [OF assms(1)]
  note base = dec_base_fields [OF assms(1)] make_shape_base_def shape_base.defs
  note texts = dec_text_fields [OF assms(1)] text_base.defs sch_text.defs
  have "as_alt f dec m = Inr (f x)" if "dec m = Inr (Some x)" for f :: "'b \<Rightarrow> shape_t" and dec m x
    using that by (simp add: as_alt_def)
  note alt = this variant_rts [OF assms(1)] dec_shape_def
  show ?thesis
  proof (cases s)
    case (Shape_rectangle r)
    then show ?thesis using assms(2) by (simp add: alt as_alt_def rectangle_rt [OF assms(1)])
  next
    case (Shape_polygon r)
    then have "dec_polygon Y (enc_polygon Y r) = Inr (Some r)"
      using assms(2) by (cases r) (simp add: shape_rt_defs base rt)
    with Shape_polygon show ?thesis by (simp add: alt as_alt_def)
  next
    case (Shape_arc r)
    then have "dec_arc Y (enc_arc Y r) = Inr (Some r)"
      using assms(2) by (cases r) (simp add: shape_rt_defs base rt dec_double_def dbl_stored_def)
    with Shape_arc show ?thesis by (simp add: alt as_alt_def)
  next
    case (Shape_donut r)
    then have "dec_donut Y (enc_donut Y r) = Inr (Some r)"
      using assms(2) by (cases r) (simp add: shape_rt_defs base rt pt_fits_def)
    with Shape_donut show ?thesis by (simp add: alt as_alt_def)
  next
    case (Shape_ellipse r)
    then have "dec_ellipse Y (enc_ellipse Y r) = Inr (Some r)"
      using assms(2) by (cases r) (simp add: shape_rt_defs base rt)
    with Shape_ellipse show ?thesis by (simp add: alt as_alt_def)
  next
    case (Shape_line r)
    then have "dec_line Y (enc_line Y r) = Inr (Some r)"
      using assms(2) by (cases r) (simp add: shape_rt_defs base rt)
    with Shape_line show ?thesis by (simp add: alt as_alt_def)
  next
    case (Shape_path r)
    then have "dec_path Y (enc_path Y r) = Inr (Some r)"
      using assms(2) by (cases r) (simp add: shape_rt_defs base rt)
    with Shape_path show ?thesis by (simp add: alt as_alt_def)
  next
    case (Shape_text r)
    then have "dec_text Y (enc_text Y r) = Inr (Some r)"
      using assms(2) by (cases r) (simp add: text_rt_defs texts rt)
    with Shape_text show ?thesis by (simp add: alt as_alt_def)
  next
    case (Shape_eval_text r)
    then have "dec_eval_text Y (enc_eval_text Y r) = Inr (Some (r\<lparr>txt_text := []\<rparr>))"
      using assms(2) by (cases r) (simp add: text_rt_defs texts rt)
    with Shape_eval_text show ?thesis by (simp add: alt as_alt_def)
  qed
qed

lemma term_attr_rt:
  assumes "yaml_laws Y" and "text_stored s" and "attr_of_code (attr_code (ta_attr_type s)) = ta_attr_type s"
    and "disp_of_code (disp_code (ta_format s)) = ta_format s"
  shows "dec_term_attr Y (enc_term_attr Y s) = Inr (Some s)"
  using assms(2-4)
  by (cases s) (simp add: text_rt_defs dec_text_fields [OF assms(1)] text_base.defs
      enum_rt [OF assms(1)] fusion_field_encode [OF assms(1)])

lemma instance_rt:
  assumes "yaml_laws Y" and "xform_laws T" and "xform_ext T" and "inst_stored Y T i"
  shows "dec_instance Y T (enc_instance Y T i) = Inr (Some i)"
  using assms(4)
  by (cases i) (simp add: dec_instance_def enc_instance_def inst_stored_def fusion_field_encode [OF assms(1)]
      scalar_rt [OF assms(1)] xform_rt [OF assms(1-3)] box_rt [OF assms(1)] strings_rt [OF assms(1)]
      params_rt [OF assms(1)])

interpretation instance_codec: yaml_codec "\<lambda>Y. enc_instance Y T" "\<lambda>Y. dec_instance Y T"
  "\<lambda>Y i. xform_laws T \<and> xform_ext T \<and> inst_stored Y T i" for T
  by unfold_locales (auto intro: instance_rt)

lemma pin_fig_rt:
  assumes "yaml_laws Y" and "xform_laws T" and "xform_ext T" and "pin_fig_stored Y T p"
  shows "dec_pin_fig Y T (enc_pin_fig Y T p) = Inr (Some p)"
proof (cases p)
  case (Fig_rectangle s)
  with assms(4) show ?thesis
    by (simp add: dec_pin_fig_def variant_rts [OF assms(1)] as_alt_def rectangle_rt [OF assms(1)])
next
  case (Fig_object q)
  with assms(4) have "dec_pin_object Y T (enc_pin_object Y T q) = Inr (Some q)"
    by (cases q) (simp add: dec_pin_object_def enc_pin_object_def make_pin_object_def
        fusion_field_encode [OF assms(1)] instance_rt [OF assms(1-3)] term_attr_rt [OF assms(1)])
  with Fig_object show ?thesis
    by (simp add: dec_pin_fig_def variant_rts [OF assms(1)] as_alt_def)
qed

lemma map_encode_spec:
  assumes "yaml_laws Y"
  shows "yo_get Y (map_encode Y fs) key = map_of fs key" and "yo_entries Y (map_encode Y fs) \<noteq> None"
  using inserts_get [OF assms yaml_lawsD(9) [OF assms], of fs key]
    entries_inserts [OF assms yaml_lawsD(9) [OF assms], of "\<lambda>f. yo_of_string Y (fst f)" snd fs]
  by (simp_all add: map_encode_def yaml_lawsD(10) [OF assms])

lemma map_field_encode:
  assumes "yaml_laws Y" and "map_of fs key = Some m" and "dec m = Inr (Some x)"
  shows "map_field Y (map_encode Y fs) key dec = Inr x"
  using assms(2,3) by (simp add: map_field_def yaml_at_def map_encode_spec [OF assms(1)])

lemma pin_figure_rt:
  assumes "yaml_laws Y" and "xform_laws T" and "xform_ext T" and "pin_stored Y T p"
  shows "dec_pin_figure Y T (enc_pin_figure Y T p) = Inr (Some p)"
proof -
  note st = assms(4) [unfolded pin_stored_def]
  have "pf_attrs p = [] \<or> dec_strings Y (enc_strings Y (pf_attrs p)) = Inr (Some (pf_attrs p))"
    using st strings_rt [OF assms(1)] by simp
  then show ?thesis
    using st
    by (cases p) (auto simp: dec_pin_figure_def enc_pin_figure_def map_encode_spec [OF assms(1)]
        map_field_encode [OF assms(1)] pin_fig_rt [OF assms(1-3)] enum_rt [OF assms(1)] make_pin_figure_def)
qed

interpretation pin_codec: yaml_codec "\<lambda>Y. enc_pin_figure Y T" "\<lambda>Y. dec_pin_figure Y T"
  "\<lambda>Y p. xform_laws T \<and> xform_ext T \<and> pin_stored Y T p" for T
  by unfold_locales (auto intro: pin_figure_rt)

lemma cellview_rt:
  assumes "yaml_laws Y" and "xform_laws T" and "xform_ext T" and "fields_stored Y T d"
  shows "dec_cellview Y T (enc_cellview Y T (Cellview d sy)) =
    Inr (Some (Cellview (d\<lparr>cv_shapes := map shape_kept (cv_shapes d)\<rparr>) None))"
proof -
  note st = assms(4) [unfolded fields_stored_def]
  have "dec_smap Y (dec_pin_figure Y T) (enc_smap Y (enc_pin_figure Y T) (cv_terminals d)) =
      Inr (Some (cv_terminals d))"
    by (rule pin_codec.smap [OF assms(1)]) (use st assms(2,3) in auto)
  moreover have "dec_smap Y (dec_unique_ptr (dec_instance Y T)) (enc_smap Y (enc_instance Y T) (cv_instances d)) =
      Inr (Some (cv_instances d))"
    using st by (intro smap_rt [OF assms(1)] unique_ptr_rt instance_rt [OF assms(1-3)]) auto
  moreover have "dec_vec Y (dec_shape Y) (enc_vec Y (enc_shape Y) (cv_shapes d)) =
      Inr (Some (map shape_kept (cv_shapes d)))"
  proof -
    have "mapR (as_type (dec_shape Y)) (map (enc_shape Y) (cv_shapes d)) = Inr (map shape_kept (cv_shapes d))"
      using st by (auto simp: mapR_eq_Inr list_all2_conv_all_nth shape_rt [OF assms(1)])
    then show ?thesis
      by (simp add: dec_vec_def enc_vec_def elems_pushes [OF assms(1)] yaml_lawsD(6) [OF assms(1)])
  qed
  ultimately show ?thesis
    using st
    by (cases d) (simp add: dec_cellview_def fusion_field_encode [OF assms(1)] scalar_rt [OF assms(1)]
        box_rt [OF assms(1)] params_rt [OF assms(1)])
qed

section \<open>Netlist information\<close>

definition info_stored :: "'n yaml_ops \<Rightarrow> cellview_info \<Rightarrow> bool" where
  "info_stored Y i \<longleftrightarrow> params_stored Y (ci_props i) \<and> sm_inv (ci_term_net_attrs i) \<and>
     (\<forall>(k, m)\<in>set (ci_term_net_attrs i). sm_inv m)"

lemma cv_info_rt:
  assumes "yaml_laws Y" and "info_stored Y i"
  shows "dec_cv_info Y (enc_cv_info Y i) = Inr (Some i)"
proof -
  have "dec_smap Y (dec_strings Y) (enc_smap Y (enc_strings Y) (ci_term_net_attrs i)) =
      Inr (Some (ci_term_net_attrs i))"
    by (rule strings_codec.smap [OF assms(1)]) (use assms(2) in \<open>auto simp: info_stored_def\<close>)
  moreover have "dec_vec Y (dec_string Y) (enc_vec Y (yo_of_string Y) xs) = Inr (Some xs)" for xs
    by (rule string_codec.vec [OF assms(1)]) simp
  ultimately show ?thesis
    using assms(2)
    by (cases i) (auto simp: dec_cv_info_def enc_cv_info_def map_encode_spec [OF assms(1)]
        map_field_encode [OF assms(1)] scalar_rt [OF assms(1)] params_rt [OF assms(1)] info_stored_def)
qed

interpretation info_codec: yaml_codec enc_cv_info dec_cv_info info_stored
  by unfold_locales (rule cv_info_rt)

text \<open>
  The information about a cell that is written as a document is read back, if the parser reads the text
  of the emitter.
\<close>

theorem cv_info_document:
  assumes "yaml_laws Y" and "info_stored Y i"
    and "yo_load Y (to_yaml Y (enc_cv_info Y) i) = Some (enc_cv_info Y i)"
  shows "from_yaml Y (dec_cv_info Y) (to_yaml Y (enc_cv_info Y) i) = Inr (Some i)"
  by (rule info_codec.document [OF assms(1,3,2)])

section \<open>Files\<close>

text \<open>The file that \<open>to_file\<close> has written, and that yaml-cpp parses to the document that was emitted.\<close>

definition file_holds :: "'n yaml_ops \<Rightarrow> 'x xform_ops \<Rightarrow> file_sys \<Rightarrow> string \<Rightarrow> 'x sch_cellview \<Rightarrow> bool" where
  "file_holds Y T F fname cv \<longleftrightarrow> fs_is_file F fname \<and> fs_read F fname = cellview_to_file Y T cv \<and>
     yo_load Y (cellview_to_file Y T cv) = Some (enc_cellview Y T cv)"

text \<open>A cellview as it is after it was stored, without its symbol.\<close>

definition cellview_kept :: "'x sch_cellview \<Rightarrow> 'x sch_cellview" where
  "cellview_kept cv =
     Cellview ((cv_fields cv)\<lparr>cv_shapes := map shape_kept (cv_shapes (cv_fields cv))\<rparr>) None"

lemma read_cellview_rt:
  assumes "yaml_laws Y" and "xform_laws T" and "xform_ext T" and "fields_stored Y T (cv_fields cv)"
    and "file_holds Y T F fname cv"
  shows "read_cellview Y T F fname = bindR (validate_sch_cellview cv) (\<lambda>u. Inr (cellview_kept cv))"
proof -
  obtain d sy where cv: "cv = Cellview d sy" by (cases cv)
  then have "dec_cellview Y T (enc_cellview Y T cv) = Inr (Some (cellview_kept cv))"
    using assms(4) by (simp add: cellview_rt [OF assms(1-3)] cellview_kept_def del: enc_cellview.simps)
  moreover have "validate_sch_cellview (cellview_kept cv) = validate_sch_cellview cv"
    by (simp add: cv cellview_kept_def)
  ultimately show ?thesis
    using assms(5) by (simp add: read_cellview_def file_holds_def yaml_load_file_def)
qed

text \<open>
  C16.  A schematic that was written to a file is read back, if its terminals are legal: with all its
  fields, except that evaluated texts have lost their text, and with the symbol that was written to the
  file of the symbol view, if that exists.  The file of the schematic itself does not hold the symbol.
\<close>

theorem cellview_file_round_trip:
  assumes "yaml_laws Y" and "xform_laws T" and "xform_ext T"
    and "fields_stored Y T (cv_fields cv)" and "file_holds Y T F fname cv"
    and "validate_sch_cellview cv = Inr ()"
    and "sym_view \<noteq> [] \<Longrightarrow> fs_is_file F (symbol_path F fname sym_view) \<Longrightarrow>
      fields_stored Y T (cv_fields symb) \<and> file_holds Y T F (symbol_path F fname sym_view) symb \<and>
      validate_sch_cellview symb = Inr ()"
  shows "load_cellview Y T F fname sym_view =
    Inr (Cellview (cv_fields (cellview_kept cv))
      (if sym_view \<noteq> [] \<and> fs_is_file F (symbol_path F fname sym_view)
       then Some (cellview_kept symb) else None))"
proof -
  have cv: "read_cellview Y T F fname = Inr (cellview_kept cv)"
    by (simp add: read_cellview_rt [OF assms(1-5)] assms(6))
  have None: "Cellview (cv_fields (cellview_kept cv)) None = cellview_kept cv"
    by (simp add: cellview_kept_def)
  show ?thesis
  proof (cases "sym_view \<noteq> [] \<and> fs_is_file F (symbol_path F fname sym_view)")
    case True
    with assms(7) have "read_cellview Y T F (symbol_path F fname sym_view) = Inr (cellview_kept symb)"
      using read_cellview_rt [OF assms(1-3), of symb F "symbol_path F fname sym_view"] by simp
    with True show ?thesis by (simp add: load_cellview_def cv)
  next
    case False
    then show ?thesis by (auto simp: load_cellview_def cv None)
  qed
qed

section \<open>An instance\<close>

lemma atr_image_inj: "atr_image ori p = atr_image ori q \<Longrightarrow> p = q"
  by (cases p; cases q; cases ori) simp_all

lemma pair_ops_ext: "xform_ext pair_ops"
  unfolding xform_ext_def
proof (intro allI impI)
  fix x y :: "orientation \<times> point"
  have loc: "location pair_ops z = atr_image (fst z) (neg_pt (snd z))" for z
    by (simp add: location_def pair_ops_def)
  assume "xo_axis pair_ops x = xo_axis pair_ops y \<and> location pair_ops x = location pair_ops y"
  then have f: "fst x = fst y" and "neg_pt (snd x) = neg_pt (snd y)"
    unfolding loc by (auto simp: pair_ops_def intro: atr_image_inj)
  then have "neg_pt (neg_pt (snd x)) = neg_pt (neg_pt (snd y))" by simp
  with f show "x = y" by (intro prod_eqI) simp_all
qed

definition stored_cell :: "(orientation \<times> point) sch_cellview" where
  "stored_cell = Cellview
     \<lparr>cv_lib_name = ''lib'', cv_cell_name = ''inv'', cv_view_name = ''schematic'',
      cv_bbox = make_box 0 0 100 100,
      cv_terminals = [(''in'', make_pin_figure (Fig_rectangle (make_sch_rectangle 1 2 ''in'' 0 0 10 10))
        Sig_signal Term_input)],
      cv_shapes = [Shape_eval_text (make_sch_eval_text 1 2 [] ''label'' Align_lowerLeft OR90 Font_stick
        10 False True False ''eval'' 5 6)],
      cv_instances = [(''X0'', (make_instance ''prim'' ''nmos'' ''symbol'' (make_xform pair_ops 20 30 OR90)
        0 0 10 10)\<lparr>inst_connections := [(''G'', ''in'')], inst_params := [(''l'', V_int 18)]\<rparr>)],
      cv_props = [], cv_app_defs = []\<rparr> None"

definition stored_doc :: doc where
  "stored_doc = enc_cellview (doc_ops D_null) pair_ops stored_cell"

text \<open>Both files of the instance hold this cell.\<close>

definition stored_files :: file_sys where
  "stored_files = \<lparr>fs_is_file = (\<lambda>p. p = ''inv.yaml'' \<or> p = ''/d/inv.symbol.yaml''),
     fs_read = (\<lambda>p. ''cell'' @ [CHR 0x0A]), fs_canonical = (\<lambda>p. ''/d/'' @ p)\<rparr>"

theorem cellview_file_round_trip_witness:
  "load_cellview (doc_ops stored_doc) pair_ops stored_files ''inv.yaml'' ''symbol'' =
    Inr (Cellview (cv_fields (cellview_kept stored_cell)) (Some (cellview_kept stored_cell)))"
proof -
  let ?Y = "doc_ops stored_doc"
  have path: "symbol_path stored_files ''inv.yaml'' ''symbol'' = ''/d/inv.symbol.yaml''"
    by code_simp
  have stored: "fields_stored ?Y pair_ops (cv_fields stored_cell)"
    by code_simp
  have "enc_cellview ?Y pair_ops stored_cell = stored_doc"
    unfolding stored_doc_def by code_simp
  then have holds: "file_holds ?Y pair_ops stored_files p stored_cell"
    if "p = ''inv.yaml'' \<or> p = ''/d/inv.symbol.yaml''" for p
    using that by (auto simp: file_holds_def stored_files_def cellview_to_file_def to_yaml_def doc_ops_def)
  have valid: "validate_sch_cellview stored_cell = Inr ()" by code_simp
  from cellview_file_round_trip [OF doc_ops_laws pair_ops_laws pair_ops_ext stored holds valid,
      of "''inv.yaml''" "''symbol''" stored_cell] stored holds valid
  show ?thesis by (simp add: path) (simp add: stored_files_def)
qed

end
