(* ===== verification/Tech_File.thy ===== *)
theory Tech_File
  imports Routing_Grid Yaml_Doc
begin

text \<open>
  The files of technologies and routing grids: the converters of \<^verbatim>\<open>src/cbag/yaml/via_info.cpp\<close>,
  \<^verbatim>\<open>len_info.cpp\<close> and of \<^verbatim>\<open>track_info.cpp\<close>, and the constructors of \<^verbatim>\<open>lp_lookup\<close>, \<^verbatim>\<open>via_lookup\<close>,
  \<^verbatim>\<open>tech\<close> and \<^verbatim>\<open>routing_grid\<close> from a file.
\<close>

section \<open>Rules of vias and lengths\<close>

definition dec_venc_data :: "'n yaml_ops \<Rightarrow> 'n \<Rightarrow> venc_data decoded" where
  "dec_venc_data Y n =
     (case yo_elems Y n of
        Some [n0, n1] \<Rightarrow>
          try_decode (bindR (yaml_get_int Y n0) (\<lambda>width.
            bindR (as_type (dec_vec Y (dec_point Y)) n1) (\<lambda>enc_list.
              Inr \<lparr>vd_width = width, vd_enc_list = enc_list\<rparr>)))
      | _ \<Rightarrow> Inr None)"

definition dec_via_info :: "'n yaml_ops \<Rightarrow> 'n \<Rightarrow> via_info decoded" where
  "dec_via_info Y n =
     try_decode
       (bindR (map_field Y n ''dim'' (dec_point Y)) (\<lambda>cut_dim.
        bindR (map_field Y n ''sp'' (dec_point Y)) (\<lambda>sp.
        bindR (map_field Y n ''sp2'' (dec_vec Y (dec_point Y))) (\<lambda>sp2_list.
        bindR (map_field Y n ''sp3'' (dec_vec Y (dec_point Y))) (\<lambda>sp3_list.
        bindR (map_field Y n ''bot_enc'' (dec_vec Y (dec_venc_data Y))) (\<lambda>bot_enc.
        bindR (map_field Y n ''top_enc'' (dec_vec Y (dec_venc_data Y))) (\<lambda>top_enc.
          Inr (make_via_info cut_dim sp sp2_list sp3_list (bot_enc, top_enc)))))))))"

definition dec_max_len_data :: "'n yaml_ops \<Rightarrow> 'n \<Rightarrow> max_len_data decoded" where
  "dec_max_len_data Y n =
     bindR (convert_arr_decode Y 3 n) (\<lambda>r. Inr (map_option (\<lambda>xs. (xs ! 0, xs ! 1, xs ! 2)) r))"

definition dec_len_info :: "'n yaml_ops \<Rightarrow> 'n \<Rightarrow> len_info decoded" where
  "dec_len_info Y n =
     try_decode
       (bindR (map_field Y n ''w_al_list'' (dec_vec Y (dec_max_len_data Y))) (\<lambda>w_list.
        bindR (map_field Y n ''md_al_list'' (dec_vec Y (dec_max_len_data Y))) (\<lambda>md_list.
          Inr \<lparr>w_al_list = w_list, md_al_list = md_list\<rparr>)))"

section \<open>Layers and vias\<close>

definition read_lp_lookup :: "'n yaml_ops \<Rightarrow> 'n \<Rightarrow> lp_lookup result" where
  "read_lp_lookup Y parent =
     bindR (map_field Y parent ''layer'' (dec_umap Y (dec_string Y) (dec_u32 Y))) (\<lambda>lay_map.
     bindR (map_field Y parent ''purpose'' (dec_umap Y (dec_string Y) (dec_u32 Y))) (\<lambda>purp_map.
     bindR (map_field Y parent ''default_purpose'' (dec_string Y)) (\<lambda>def_purp.
     bindR (map_field Y parent ''pin_purpose'' (dec_string Y)) (\<lambda>pin_purp.
       make_lp_lookup lay_map purp_map def_purp pin_purp))))"

definition parse_via_layer :: "'n yaml_ops \<Rightarrow> 'n \<Rightarrow> nat \<Rightarrow> lp_lookup \<Rightarrow> layer_t result" where
  "parse_via_layer Y node i lp =
     bindR (index_at Y node i) (\<lambda>n.
     bindR (bindR (index_at Y n 0) (as_type (dec_string Y))) (\<lambda>layer.
     bindR (bindR (index_at Y n 1) (as_type (dec_string Y))) (\<lambda>purpose.
       lp_layer_t_at lp layer purpose)))"

definition parse_via_layers :: "'n yaml_ops \<Rightarrow> 'n \<Rightarrow> lp_lookup \<Rightarrow> (layer_t \<times> layer_t) result" where
  "parse_via_layers Y node lp =
     bindR (parse_via_layer Y node 0 lp) (\<lambda>a.
     bindR (parse_via_layer Y node 1 lp) (\<lambda>b. Inr (a, b)))"

definition dec_layer_t :: "'n yaml_ops \<Rightarrow> 'n \<Rightarrow> layer_t decoded" where
  "dec_layer_t Y = dec_pair Y (dec_u32 Y) (dec_u32 Y)"

definition read_via_lookup :: "'n yaml_ops \<Rightarrow> 'n \<Rightarrow> lp_lookup \<Rightarrow> via_lookup result" where
  "read_via_lookup Y parent lp =
     bindR (map_field Y parent ''via_layers''
       (dec_umap Y (dec_string Y) (dec_tuple3 Y (dec_layer_t Y) (dec_layer_t Y) (dec_layer_t Y)))) (\<lambda>lp_map.
     bindR (map_field Y parent ''via'' (dec_umap Y (dec_string Y) (dec_vec Y (dec_via_info Y)))) (\<lambda>info_map.
     bindR (children_at Y parent ''via_id'') (\<lambda>children.
     bindR (foldR (\<lambda>id_map node.
         bindR (parse_via_layers Y (fst node) lp) (\<lambda>key.
         bindR (as_type (dec_string Y) (snd node)) (\<lambda>name. Inr (um_emplace id_map key name))))
       [] children) (\<lambda>id_map.
       Inr \<lparr>vl_lp_map = lp_map, vl_id_map = id_map, vl_info_map = info_map\<rparr>))))"

section \<open>Technologies\<close>

text \<open>The elements of a sequence; of other nodes with children none can be read by an index.\<close>

definition make_w_sp_vec :: "'n yaml_ops \<Rightarrow> 'n \<Rightarrow> (int \<times> int) list result" where
  "make_w_sp_vec Y node =
     (case yo_elems Y node of
        Some vals \<Rightarrow> mapR (\<lambda>val.
          bindR (bindR (index_at Y val 0) (yaml_get_int Y)) (\<lambda>w.
          bindR (bindR (index_at Y val 1) (yaml_get_int Y)) (\<lambda>sp. Inr (w, sp)))) vals
      | None \<Rightarrow> (case yo_entries Y node of Some (e # es) \<Rightarrow> Inl Runtime_error | _ \<Rightarrow> Inr []))"

text \<open>The loop that both maps from layers share, with what is done to the value of an entry.\<close>

definition make_layer_map ::
  "'n yaml_ops \<Rightarrow> ('n \<Rightarrow> 'v result) \<Rightarrow> ('n \<times> 'n) list result \<Rightarrow> lp_lookup \<Rightarrow> (layer_t \<times> 'v) list result" where
  "make_layer_map Y value node lp_map =
     bindR node (foldR (\<lambda>ans pair.
       bindR (as_type (dec_pair Y (dec_string Y) (dec_string Y)) (fst pair)) (\<lambda>(lay_name, purp_name).
       bindR (lp_layer_t_at lp_map lay_name purp_name) (\<lambda>key.
       bindR (value (snd pair)) (\<lambda>v. Inr (um_emplace ans key v)))) ) [])"

definition make_space_map :: "'n yaml_ops \<Rightarrow> ('n \<times> 'n) list result \<Rightarrow> lp_lookup \<Rightarrow> sp_map_t result" where
  "make_space_map Y node lp_map = make_layer_map Y (make_w_sp_vec Y) node lp_map"

definition make_len_map ::
  "'n yaml_ops \<Rightarrow> ('n \<times> 'n) list result \<Rightarrow> lp_lookup \<Rightarrow> (layer_t \<times> len_info) list result" where
  "make_len_map Y node lp_map = make_layer_map Y (as_type (dec_len_info Y)) node lp_map"

text \<open>
  A technology without a file.  The two purposes and the kind of spacing have no initial values; they are
  the arguments.
\<close>

definition empty_tech :: "purp_t \<Rightarrow> purp_t \<Rightarrow> space_type \<Rightarrow> 64 word \<Rightarrow> 64 word \<Rightarrow> tech" where
  "empty_tech def_purp pin_purp sc_type unit res =
     \<lparr>tech_lib = [], tech_layout_unit = unit, tech_resolution = res, tech_use_flip_parity = False,
      tech_make_pin = True,
      tech_lp = \<lparr>lp_default_purpose = def_purp, lp_pin_purpose = pin_purp, lp_lay_map = [], lp_purp_map = []\<rparr>,
      tech_vlookup = \<lparr>vl_lp_map = [], vl_id_map = [], vl_info_map = []\<rparr>, tech_sp_grp = [],
      tech_sp_sc_type = sc_type, tech_len_map = [], tech_bot_layer = 0, tech_lp_list = [],
      tech_lev_map = [], tech_color_map = []\<rparr>"

definition read_spaces ::
  "'n yaml_ops \<Rightarrow> 'n \<Rightarrow> lp_lookup \<Rightarrow> ((space_type \<times> sp_map_t) list \<times> space_type) result" where
  "read_spaces Y node lp =
     bindR (make_space_map Y (children_at Y node ''sp_min'') lp) (\<lambda>diff_map.
     bindR (make_space_map Y (children_at Y node ''sp_le_min'') lp) (\<lambda>le_map.
       if yo_get Y node ''sp_sc_min'' \<noteq> None
       then bindR (make_space_map Y (children_at Y node ''sp_sc_min'') lp) (\<lambda>sc_map.
              Inr ([(DIFF_COLOR, diff_map), (LINE_END, le_map), (SAME_COLOR, sc_map)], SAME_COLOR))
       else Inr ([(DIFF_COLOR, diff_map), (LINE_END, le_map)], DIFF_COLOR)))"

definition read_tech_node :: "'n yaml_ops \<Rightarrow> 'n \<Rightarrow> tech result" where
  "read_tech_node Y node =
     bindR (map_field Y node ''tech_lib'' (dec_string Y)) (\<lambda>lib.
     bindR (map_field Y node ''layout_unit'' (dec_double Y)) (\<lambda>unit.
     bindR (map_field Y node ''resolution'' (dec_double Y)) (\<lambda>res.
     bindR (map_field Y node ''use_flip_parity'' (dec_bool Y)) (\<lambda>flip.
     bindR (map_field Y node ''make_pin_obj'' (dec_bool Y)) (\<lambda>pin_obj.
     bindR (read_lp_lookup Y node) (\<lambda>lp.
     bindR (read_via_lookup Y node lp) (\<lambda>vl.
     bindR (read_spaces Y node lp) (\<lambda>(sp_map_grp, sp_sc_type).
     bindR (make_len_map Y (children_at Y node ''len_min'') lp) (\<lambda>len_map.
     bindR (int_map_to_vec Y (dec_vec Y (dec_pair Y (dec_string Y) (dec_string Y)))
              (children_at Y node ''lay_purp_list'')) (\<lambda>(bot_layer, names).
     bindR (make_lp_list names lp) (\<lambda>lp_list.
     bindR (case yo_get Y node ''colors'' of
              None \<Rightarrow> Inr []
            | Some n \<Rightarrow> as_type (dec_umap Y (dec_u32 Y) (dec_pair Y (dec_u32 Y) (dec_u64 Y))) n) (\<lambda>colors.
       Inr \<lparr>tech_lib = lib, tech_layout_unit = unit, tech_resolution = res, tech_use_flip_parity = flip,
            tech_make_pin = pin_obj, tech_lp = lp, tech_vlookup = vl, tech_sp_grp = sp_map_grp,
            tech_sp_sc_type = sp_sc_type, tech_len_map = len_map, tech_bot_layer = bot_layer,
            tech_lp_list = lp_list, tech_lev_map = make_lev_map bot_layer lp_list,
            tech_color_map = colors\<rparr>))))))))))))"

definition make_tech :: "'n yaml_ops \<Rightarrow> file_sys \<Rightarrow> tech \<Rightarrow> string \<Rightarrow> tech result" where
  "make_tech Y F initial tech_fname =
     (if tech_fname = [] then Inr initial
      else bindR (yaml_load_file Y F tech_fname) (read_tech_node Y))"

section \<open>Routing grids\<close>

definition dec_track_info :: "'n yaml_ops \<Rightarrow> 'n \<Rightarrow> track_info decoded" where
  "dec_track_info Y n =
     (case yo_elems Y n of
        Some [n0, n1, n2, n3] \<Rightarrow>
          try_decode
            (bindR (as_type (dec_string Y) n0) (\<lambda>dir_str.
             bindR (as_type (dec_i32 Y) n1) (\<lambda>width.
             bindR (as_type (dec_i32 Y) n2) (\<lambda>space.
             bindR (as_type (dec_vec Y (dec_point Y)) n3) (\<lambda>intv_list.
               make_track_info (if dir_str = ''x'' then Horizontal else Vertical) width space intv_list)))))
      | _ \<Rightarrow> Inr None)"

definition load_routing_grid :: "'n yaml_ops \<Rightarrow> file_sys \<Rightarrow> tech \<Rightarrow> string \<Rightarrow> routing_grid result" where
  "load_routing_grid Y F t fname =
     bindR (yaml_load_file Y F fname) (\<lambda>node.
     bindR (int_map_to_vec Y (dec_track_info Y) (children_at Y node ''routing_grid'')) (\<lambda>tmp.
       Inr (make_routing_grid t tmp)))"

section \<open>Maps from consecutive integers\<close>

lemma int_map_loop:
  assumes "list_all2 (\<lambda>e p. as_type (dec_i32 Y) (fst e) = Inr (fst p) \<and> as_type dec (snd e) = Inr (snd p)) es ps"
  shows "foldR (int_map_step Y dec) (lo, tmp) es =
    Inr (Min (insert lo (fst ` set ps)), foldl (\<lambda>m p. um_emplace m (fst p) (snd p)) tmp ps)"
  using assms
proof (induction es ps arbitrary: lo tmp rule: list_all2_induct)
  case (Cons e es p ps)
  have "Min (insert lo (fst ` set (p # ps))) = Min (insert (min lo (fst p)) (fst ` set ps))"
    by (cases "ps = []") (simp_all add: min.assoc)
  with Cons show ?case by (simp add: int_map_step_def)
qed simp

lemma um_emplaces:
  fixes ps :: "('k \<times> 'v) list"
  assumes "distinct (map fst tmp)"
  shows "map_of (foldl (\<lambda>m p. um_emplace m (fst p) (snd p)) tmp ps) = map_of ps ++ map_of tmp \<and>
    distinct (map fst (foldl (\<lambda>m p. um_emplace m (fst p) (snd p)) tmp ps))"
  using assms
proof (induction ps arbitrary: tmp)
  case (Cons p ps)
  have d: "distinct (map fst (um_emplace tmp (fst p) (snd p)))"
    using Cons.prems by (auto simp: um_emplace_def map_of_eq_None_iff split: option.split)
  have "map_of ps ++ map_of (um_emplace tmp (fst p) (snd p)) = map_of (p # ps) ++ map_of tmp"
    by (rule ext) (auto simp: map_of_um_emplace map_add_def split: option.split)
  with Cons.IH [OF d] show ?case by (simp del: map_of.simps)
qed simp

lemma take_keys_spec:
  "take_keys tmp key n =
    (if \<forall>i<n. map_of tmp (key + int i) \<noteq> None then Inr (map (\<lambda>i. the (map_of tmp (key + int i))) [0..<n])
     else Inl Runtime_error)"
proof (induction n arbitrary: key)
  case (Suc n)
  have all: "(\<forall>i<Suc n. P i) \<longleftrightarrow> P 0 \<and> (\<forall>i<n. P (Suc i))" for P by (auto simp: less_Suc_eq_0_disj)
  have upt: "map f [0..<Suc n] = f 0 # map (\<lambda>i. f (Suc i)) [0..<n]" for f :: "nat \<Rightarrow> 'a"
    by (simp add: upt_conv_Cons map_Suc_upt [symmetric] del: upt_Suc)
  show ?case
    by (cases "map_of tmp key") (simp_all add: Suc.IH all upt add.assoc add.commute [of 1] del: upt_Suc)
qed simp

text \<open>
  \<^verbatim>\<open>int_map_to_vec\<close> accepts a map exactly if its keys are consecutive integers; it gives the least
  of them and the values in their order, the first one of a key that appears more than once.
\<close>

theorem int_map_to_vec_correct:
  assumes "list_all2 (\<lambda>e p. as_type (dec_i32 Y) (fst e) = Inr (fst p) \<and> as_type dec (snd e) = Inr (snd p)) es ps"
    and "\<forall>k\<in>fst ` set ps. k < 2 ^ 31 - 1"
  shows "int_map_to_vec Y dec (Inr es) =
    (let keys = fst ` set ps; lo = Min (insert (2 ^ 31 - 1) keys); n = card keys in
     if keys = {lo..<lo + int n} then Inr (lo, map (\<lambda>i. the (map_of ps (lo + int i))) [0..<n])
     else Inl Runtime_error)"
proof -
  define keys where "keys = fst ` set ps"
  define lo where "lo = Min (insert (2 ^ 31 - 1) keys)"
  define tmp where "tmp = foldl (\<lambda>m p. um_emplace m (fst p) (snd p)) [] ps"
  have lo: "lo = Min (insert 2147483647 keys)" by (simp add: lo_def)
  have tmp: "map_of tmp = map_of ps" "distinct (map fst tmp)"
    using um_emplaces [of "[]" ps] by (simp_all add: tmp_def)
  have "fst ` set tmp = keys" using arg_cong [OF tmp(1), of dom] by (simp add: dom_map_of_conv_image_fst keys_def)
  then have n: "length tmp = card keys" using tmp(2) distinct_card [of "map fst tmp"] by simp
  have fin: "finite keys" by (simp add: keys_def)
  have lo_le: "lo \<le> k" if "k \<in> keys" for k using that fin by (simp add: lo_def)
  have "keys \<subseteq> {lo..<2 ^ 31 - 1}" using lo_le assms(2) by (fastforce simp: keys_def [symmetric])
  then have "card keys \<le> card {lo..<2 ^ 31 - 1}" by (intro card_mono) simp_all
  moreover have "lo \<le> 2 ^ 31 - 1" using fin by (simp add: lo_def)
  ultimately have small: "\<not> lo + int (card keys) > 2 ^ 31 - 1" by simp
  have covered: "(\<forall>i<card keys. lo + int i \<in> keys) \<longleftrightarrow> keys = {lo..<lo + int (card keys)}"
  proof
    assume *: "\<forall>i<card keys. lo + int i \<in> keys"
    have "{lo..<lo + int (card keys)} \<subseteq> keys"
    proof
      fix k assume "k \<in> {lo..<lo + int (card keys)}"
      then have "k = lo + int (nat (k - lo))" "nat (k - lo) < card keys" by auto
      with * show "k \<in> keys" by metis
    qed
    with fin show "keys = {lo..<lo + int (card keys)}" by (intro card_subset_eq [symmetric]) simp_all
  next
    assume "keys = {lo..<lo + int (card keys)}"
    then show "\<forall>i<card keys. lo + int i \<in> keys" by (metis atLeastLessThan_iff add_less_cancel_left
        of_nat_less_iff le_add_same_cancel1 of_nat_0_le_iff)
  qed
  have "map_of ps k \<noteq> None \<longleftrightarrow> k \<in> keys" for k by (simp add: map_of_eq_None_iff keys_def)
  then show ?thesis
    using small
    by (simp add: int_map_to_vec_def int_map_loop [OF assms(1)] take_keys_spec tmp(1) n covered Let_def
        flip: tmp_def keys_def lo)
qed

theorem int_map_to_vec_correct_witness:
  "int_map_to_vec (doc_ops D_null) (dec_string (doc_ops D_null))
     (Inr [(D_int 2, D_string ''b''), (D_int 1, D_string ''a''), (D_int 2, D_string ''c'')]) = Inr (1, [''a'', ''b''])"
proof -
  let ?Y = "doc_ops D_null" and ?ps = "[(2, ''b''), (1, ''a''), (2, ''c'')] :: (int \<times> string) list"
  have "list_all2 (\<lambda>e p. as_type (dec_i32 ?Y) (fst e) = Inr (fst p) \<and> as_type (dec_string ?Y) (snd e) = Inr (snd p))
      [(D_int 2, D_string ''b''), (D_int 1, D_string ''a''), (D_int 2, D_string ''c'')] ?ps"
    by (simp add: doc_ops_def as_type_def dec_i32_def dec_string_def)
  from int_map_to_vec_correct [OF this]
  have "int_map_to_vec ?Y (dec_string ?Y)
      (Inr [(D_int 2, D_string ''b''), (D_int 1, D_string ''a''), (D_int 2, D_string ''c'')]) =
    (let keys = {2, 1, 2}; lo = Min (insert (2 ^ 31 - 1) keys); n = card keys in
     if keys = {lo..<lo + int n} then Inr (lo, map (\<lambda>i. the (map_of ?ps (lo + int i))) [0..<n])
     else Inl Runtime_error)" by simp
  moreover have "Min (insert (2 ^ 31 - 1) {2, 1, 2}) = (1 :: int)" by simp
  moreover have "card {2, 1, 2 :: int} = 2" by (simp add: card_insert_if)
  moreover have "{2, 1, 2 :: int} = {1..<1 + int 2}" by auto
  moreover have "[0..<2] = [0, 1 :: nat]" by (simp add: upt_rec)
  ultimately show ?thesis unfolding Let_def by (simp only: refl if_True list.map) simp
qed

end
