(* ===== verification/Em_Limits.thy ===== *)
theory Em_Limits
  imports Routing_Grid Binary_Iterator
begin

text \<open>
  Limits on the current through wires and vias, and the least number of tracks that carries a current:
  the last functions of \<^verbatim>\<open>src/cbag/layout/tech_util.cpp\<close> and \<^verbatim>\<open>routing_grid_util.cpp\<close>.  The limits of
  a technology are virtual functions of \<^verbatim>\<open>tech\<close>, which a technology overrides: they are arguments
  here, like the arithmetic on \<^verbatim>\<open>double\<close>, whose values are bit patterns.
\<close>

section \<open>Limits of a technology\<close>

type_synonym em_specs = "64 word \<times> 64 word \<times> 64 word"

record em_ops =
  em_add :: "64 word \<Rightarrow> 64 word \<Rightarrow> 64 word"
  em_greater :: "64 word \<Rightarrow> 64 word \<Rightarrow> bool"
  em_is_zero :: "64 word \<Rightarrow> bool"
  em_metal :: "string \<Rightarrow> string \<Rightarrow> int \<Rightarrow> int \<Rightarrow> bool \<Rightarrow> int \<Rightarrow> int \<Rightarrow> em_specs"
  em_via :: "direction \<Rightarrow> string \<times> string \<Rightarrow> string \<times> string \<Rightarrow> vec_t \<Rightarrow> int \<times> int \<Rightarrow> int \<times> int \<Rightarrow> bool
    \<Rightarrow> int \<Rightarrow> int \<Rightarrow> em_specs"

text \<open>What \<^verbatim>\<open>tech\<close> itself returns: no limits.\<close>

definition em_infinite :: em_specs where
  "em_infinite = (0x7FF0000000000000, 0x7FF0000000000000, 0x7FF0000000000000)"

definition base_metal_em :: "string \<Rightarrow> string \<Rightarrow> int \<Rightarrow> int \<Rightarrow> bool \<Rightarrow> int \<Rightarrow> int \<Rightarrow> em_specs" where
  "base_metal_em layer purpose width len vertical dc_temp rms_dt = em_infinite"

definition base_via_em :: "direction \<Rightarrow> string \<times> string \<Rightarrow> string \<times> string \<Rightarrow> vec_t \<Rightarrow> int \<times> int \<Rightarrow> int \<times> int
    \<Rightarrow> bool \<Rightarrow> int \<Rightarrow> int \<Rightarrow> em_specs" where
  "base_via_em layer_dir lay adj_lay cut_dim m_dim adj_m_dim array dc_temp rms_dt = em_infinite"

definition em_sum :: "em_ops \<Rightarrow> em_specs \<Rightarrow> em_specs \<Rightarrow> em_specs" where
  "em_sum E a b =
     (em_add E (fst a) (fst b), em_add E (fst (snd a)) (fst (snd b)), em_add E (snd (snd a)) (snd (snd b)))"

definition layer_names :: "tech \<Rightarrow> layer_t \<Rightarrow> (string \<times> string) result" where
  "layer_names t key =
     bindR (tech_get_layer_name t (fst key)) (\<lambda>layer.
     bindR (tech_get_purpose_name t (snd key)) (\<lambda>purpose. Inr (layer, purpose)))"

definition key_metal_em :: "em_ops \<Rightarrow> tech \<Rightarrow> layer_t \<Rightarrow> int \<Rightarrow> int \<Rightarrow> bool \<Rightarrow> int \<Rightarrow> int \<Rightarrow> em_specs result" where
  "key_metal_em E t key width len vertical dc_temp rms_dt =
     bindR (layer_names t key) (\<lambda>(layer, purpose).
       Inr (em_metal E layer purpose width len vertical dc_temp rms_dt))"

definition get_metal_em_specs ::
  "em_ops \<Rightarrow> tech \<Rightarrow> int \<Rightarrow> wire_width \<Rightarrow> int \<Rightarrow> bool \<Rightarrow> int \<Rightarrow> int \<Rightarrow> em_specs result" where
  "get_metal_em_specs E t level wire_w len vertical dc_temp rms_dt =
     bindR (get_test_lay_purp t level) (\<lambda>key.
       foldR (\<lambda>acc w. bindR (key_metal_em E t key (snd w) len vertical dc_temp rms_dt) (\<lambda>cur.
         Inr (em_sum E acc cur))) (0, 0, 0) wire_w)"

definition key_via_em ::
  "em_ops \<Rightarrow> tech \<Rightarrow> direction \<Rightarrow> layer_t \<Rightarrow> layer_t \<Rightarrow> vec_t \<Rightarrow> int \<times> int \<Rightarrow> int \<times> int \<Rightarrow> bool \<Rightarrow> int \<Rightarrow> int
     \<Rightarrow> em_specs result" where
  "key_via_em E t vdir key adj_key cut_dim m_dim adj_m_dim array dc_temp rms_dt =
     bindR (layer_names t key) (\<lambda>lay. bindR (layer_names t adj_key) (\<lambda>adj_lay.
       Inr (em_via E vdir lay adj_lay cut_dim m_dim adj_m_dim array dc_temp rms_dt)))"

definition get_wire_em_specs ::
  "em_ops \<Rightarrow> routing_grid \<Rightarrow> int \<Rightarrow> cnt_t \<Rightarrow> int \<Rightarrow> bool \<Rightarrow> int \<Rightarrow> int \<Rightarrow> em_specs result" where
  "get_wire_em_specs E g level ntr len vertical dc_temp rms_dt =
     bindR (rg_track_info_at g level) (\<lambda>ti.
       get_metal_em_specs E (rg_tech g) level (ti_wire_width ti ntr) len vertical dc_temp rms_dt)"

text \<open>
  The vias at the crossings of the wires of two track groups.  The function returns zero limits as soon
  as there is no via for a crossing.
\<close>

fun via_em_loop ::
  "em_ops \<Rightarrow> (int \<Rightarrow> int \<Rightarrow> via_param result option) \<Rightarrow> (int \<Rightarrow> int \<Rightarrow> via_param \<Rightarrow> em_specs result) \<Rightarrow> em_specs
     \<Rightarrow> (int \<times> int) list \<Rightarrow> em_specs result option" where
  "via_em_loop E param limit acc [] = Some (Inr acc)"
| "via_em_loop E param limit acc ((w, aw) # rest) =
     (case param w aw of
        None \<Rightarrow> None
      | Some r \<Rightarrow> liftO r (\<lambda>p.
          if vp_empty p then Some (Inr (0, 0, 0))
          else liftO (limit w aw p) (\<lambda>cur. via_em_loop E param limit (em_sum E acc cur) rest)))"

definition get_via_em_specs ::
  "em_ops \<Rightarrow> routing_grid \<Rightarrow> direction \<Rightarrow> int \<Rightarrow> wire_width \<Rightarrow> int \<Rightarrow> wire_width \<Rightarrow> int \<Rightarrow> int \<Rightarrow> int
     \<Rightarrow> em_specs result option" where
  "get_via_em_specs E g vdir level wire_w len adj_wire_w adj_len dc_temp rms_dt =
     (let t = rg_tech g; adj_level = get_adj_level vdir level in
      liftO (rg_track_info_at g level) (\<lambda>ti. liftO (rg_track_info_at g adj_level) (\<lambda>adj_ti.
        let tr_dir = ti_dir ti; adj_tr_dir = ti_dir adj_ti in
        if tr_dir = adj_tr_dir then Some (Inl Invalid_argument)
        else liftO (get_test_lay_purp t level) (\<lambda>key. liftO (get_test_lay_purp t adj_level) (\<lambda>adj_key.
          liftO (tech_get_via_id t vdir key adj_key) (\<lambda>via_id.
            via_em_loop E
              (\<lambda>w aw. tech_get_via_param t (orient_pair (perpendicular tr_dir) w aw) via_id vdir tr_dir
                 adj_tr_dir True)
              (\<lambda>w aw p. key_via_em E t vdir key adj_key (vp_cut_dim p) (w, len) (aw, adj_len)
                 (fst (vp_num p) > 1 \<or> snd (vp_num p) > 1) dc_temp rms_dt)
              (0, 0, 0)
              (concat (map (\<lambda>w. map (\<lambda>aw. (snd w, snd aw)) adj_wire_w) wire_w))))))))"

section \<open>The least number of tracks\<close>

definition em_exceeds :: "em_ops \<Rightarrow> em_specs \<Rightarrow> em_specs \<Rightarrow> bool" where
  "em_exceeds E load limits \<longleftrightarrow> em_greater E (fst load) (fst limits) \<or>
     em_greater E (fst (snd load)) (fst (snd limits)) \<or> em_greater E (snd (snd load)) (snd (snd limits))"

definition em_all_zero :: "em_ops \<Rightarrow> em_specs \<Rightarrow> bool" where
  "em_all_zero E s \<longleftrightarrow> em_is_zero E (fst s) \<and> em_is_zero E (fst (snd s)) \<and> em_is_zero E (snd (snd s))"

text \<open>The adjacent tracks that are checked: those of a positive number, in the other direction.\<close>

definition adj_tracks :: "routing_grid \<Rightarrow> orient_2d \<Rightarrow> int \<Rightarrow> cnt_t \<Rightarrow> track_info option result" where
  "adj_tracks g tr_dir level ntr =
     (if ntr > 0
      then bindR (rg_track_info_at g level) (\<lambda>ti. Inr (if ti_dir ti = tr_dir then None else Some ti))
      else Inr None)"

definition via_passes ::
  "em_ops \<Rightarrow> routing_grid \<Rightarrow> em_specs \<Rightarrow> direction \<Rightarrow> int \<Rightarrow> wire_width \<Rightarrow> int \<Rightarrow> track_info option \<Rightarrow> cnt_t \<Rightarrow> int
     \<Rightarrow> int \<Rightarrow> bool result option" where
  "via_passes E g load vdir level wire_w len adj_ti adj_ntr dc_temp rms_dt =
     (case adj_ti of
        None \<Rightarrow> Some (Inr True)
      | Some ti \<Rightarrow>
          (case get_via_em_specs E g vdir level wire_w len (ti_wire_width ti adj_ntr) (- 1) dc_temp rms_dt of
             None \<Rightarrow> None
           | Some r \<Rightarrow> liftO r (\<lambda>limits.
               Some (Inr (\<not> (em_all_zero E limits \<or> em_exceeds E load limits))))))"

text \<open>One iteration: whether the wire of this number of tracks, and its vias, carry the current.\<close>

definition em_passes ::
  "em_ops \<Rightarrow> routing_grid \<Rightarrow> em_specs \<Rightarrow> int \<Rightarrow> track_info \<Rightarrow> int \<Rightarrow> track_info option \<Rightarrow> cnt_t
     \<Rightarrow> track_info option \<Rightarrow> cnt_t \<Rightarrow> int \<Rightarrow> int \<Rightarrow> cnt_t \<Rightarrow> bool result option" where
  "em_passes E g load level ti len bot_ti bot_ntr top_ti top_ntr dc_temp rms_dt cur_ntr =
     (let wire_w = ti_wire_width ti cur_ntr in
      liftO (get_metal_em_specs E (rg_tech g) level wire_w len False dc_temp rms_dt) (\<lambda>limits.
        if em_exceeds E load limits then Some (Inr False)
        else (case via_passes E g load UPPER level wire_w len bot_ti bot_ntr dc_temp rms_dt of
            None \<Rightarrow> None
          | Some r \<Rightarrow> liftO r (\<lambda>bot_ok.
              if \<not> bot_ok then Some (Inr False)
              else via_passes E g load LOWER level wire_w len top_ti top_ntr dc_temp rms_dt))))"

text \<open>The loop around the iterator, whose test may throw or not return.\<close>

partial_function (option) bi_search_test ::
  "(cnt_t \<Rightarrow> bool result option) \<Rightarrow> bin_iter \<Rightarrow> bin_iter result option" where
  "bi_search_test test it =
     (if \<not> bi_has_next it then Some (Inr it)
      else (case test (bi_current it) of
          None \<Rightarrow> None
        | Some (Inl e) \<Rightarrow> Some (Inl e)
        | Some (Inr ok) \<Rightarrow>
            if ok then bi_search_test test (bi_down (bi_save it)) else bi_search_test test (bi_up it)))"

definition search_tracks :: "(cnt_t \<Rightarrow> bool result option) \<Rightarrow> cnt_t result option" where
  "search_tracks test =
     (case bi_search_test test (bi_from 1) of
        None \<Rightarrow> None
      | Some r \<Rightarrow> liftO r (\<lambda>it.
          Some (case bi_marker it of None \<Rightarrow> Inl Undefined_behaviour | Some n \<Rightarrow> Inr n)))"

definition get_min_num_tr ::
  "em_ops \<Rightarrow> routing_grid \<Rightarrow> int \<Rightarrow> em_specs \<Rightarrow> int \<Rightarrow> cnt_t \<Rightarrow> cnt_t \<Rightarrow> int \<Rightarrow> int \<Rightarrow> cnt_t result option" where
  "get_min_num_tr E g level load len bot_ntr top_ntr dc_temp rms_dt =
     liftO (rg_track_info_at g level) (\<lambda>ti.
     liftO (adj_tracks g (ti_dir ti) (level - 1) bot_ntr) (\<lambda>bot_ti.
     liftO (adj_tracks g (ti_dir ti) (level + 1) top_ntr) (\<lambda>top_ti.
       search_tracks
         (em_passes E g load level ti len bot_ti bot_ntr top_ti top_ntr dc_temp rms_dt))))"

section \<open>The search\<close>

text \<open>Up to a power of two that passes, only numbers from one to this power are tested.\<close>

definition search_inv :: "nat \<Rightarrow> bin_iter \<Rightarrow> bool" where
  "search_inv k it \<longleftrightarrow> 1 \<le> unat (bi_low it) \<and>
     (case bi_high it of
        None \<Rightarrow> bi_low it \<le> bi_current it \<and> (\<exists>j\<le>k. unat (bi_current it) = 2 ^ j)
      | Some h \<Rightarrow> bi_low it \<le> h \<and> unat h \<le> 2 ^ k \<and> bi_current it = (bi_low it + h) div 2)"

lemma pow_small: "k < 63 \<Longrightarrow> j \<le> k \<Longrightarrow> (2 :: nat) ^ j < 2 ^ 63"
  by (rule power_strict_increasing) auto

lemma search_inv_current:
  assumes "search_inv k it" and "k < 63" and "bi_has_next it"
  shows "1 \<le> unat (bi_current it)" and "unat (bi_current it) \<le> 2 ^ k" and "bi_low it \<le> bi_current it"
    and "bi_high it = Some h \<Longrightarrow> bi_current it < h"
proof -
  have "1 \<le> unat (bi_current it) \<and> unat (bi_current it) \<le> 2 ^ k \<and> bi_low it \<le> bi_current it \<and>
    (\<forall>h. bi_high it = Some h \<longrightarrow> bi_current it < h)"
  proof (cases "bi_high it")
    case None
    then show ?thesis using assms(1) by (auto simp: search_inv_def intro: power_increasing)
  next
    case (Some h)
    then have h: "bi_low it < h" "unat h \<le> 2 ^ k" and cur: "bi_current it = (bi_low it + h) div 2"
      and low: "1 \<le> unat (bi_low it)"
      using assms(1,3) by (auto simp: search_inv_def bi_has_next_def)
    have "unat h < 2 ^ 63" using h(2) pow_small [OF assms(2) order_refl] by linarith
    note mid = word_mid [OF h(1) this]
    then show ?thesis
      using h low Some cur by (auto simp: word_le_nat_alt word_less_nat_alt)
  qed
  then show "1 \<le> unat (bi_current it)" "unat (bi_current it) \<le> 2 ^ k" "bi_low it \<le> bi_current it"
    "bi_high it = Some h \<Longrightarrow> bi_current it < h" by auto
qed

lemma search_inv_down:
  assumes "search_inv k it" and "k < 63" and "bi_has_next it"
  shows "search_inv k (bi_down (bi_save it))"
  using search_inv_current [OF assms] assms(1) by (simp add: search_inv_def bi_down_def bi_save_def)

lemma search_inv_up:
  assumes "search_inv k it" and "k < 63" and "bi_has_next it" and "unat (bi_current it) \<noteq> 2 ^ k"
  shows "search_inv k (bi_up it)"
proof -
  note cur = search_inv_current [OF assms(1-3)]
  have succ: "unat (bi_current it + 1) = unat (bi_current it) + 1"
    by (rule unat_succ) (use cur(2) pow_small [OF assms(2) order_refl] in linarith)
  show ?thesis
  proof (cases "bi_high it")
    case None
    then obtain j where j: "j \<le> k" "unat (bi_current it) = 2 ^ j" using assms(1) by (auto simp: search_inv_def)
    with assms(4) have "Suc j \<le> k" by (cases "j = k") auto
    have "unat (bi_current it) * unat (2 :: cnt_t) < 2 ^ LENGTH(64)"
      using pow_small [OF assms(2) \<open>Suc j \<le> k\<close>] j(2) by simp
    then have dbl: "unat (bi_current it * 2) = 2 ^ Suc j"
      using unat_mult_lem [of "bi_current it" 2] j(2) by simp
    have "bi_current it > 0" using cur(1) by (simp add: word_less_nat_alt)
    then show ?thesis
      using None \<open>Suc j \<le> k\<close> dbl j(2) succ by (auto simp: search_inv_def bi_up_def Let_def word_le_nat_alt)
  next
    case (Some h)
    with cur(4) have "bi_current it < h" by blast
    then have "bi_current it + 1 \<le> h" by (simp add: word_le_nat_alt word_less_nat_alt succ)
    then show ?thesis
      using Some assms(1) succ by (auto simp: search_inv_def bi_up_def Let_def)
  qed
qed

lemma bi_search_test_eq:
  assumes "bi_search ok it = Some y" and "search_inv k it" and "k < 63" and "ok (2 ^ k)"
    and "\<And>n. 1 \<le> unat n \<Longrightarrow> unat n \<le> 2 ^ k \<Longrightarrow> test n = Some (Inr (ok n))"
  shows "bi_search_test test it = Some (Inr y)"
  using assms
proof (induction rule: bi_search.raw_induct [rotated, consumes 1])
  case (1 search ok it y)
  show ?case
  proof (cases "bi_has_next it")
    case False
    then show ?thesis using "1.hyps" by (subst bi_search_test.simps) simp
  next
    case True
    note cur = search_inv_current [OF "1.prems"(1,2) True]
    have t: "test (bi_current it) = Some (Inr (ok (bi_current it)))" by (rule "1.prems"(4) [OF cur(1,2)])
    show ?thesis
    proof (cases "ok (bi_current it)")
      case ok: True
      then have "search ok (bi_down (bi_save it)) = Some y" using "1.hyps" True by simp
      from "1.IH" [OF this search_inv_down [OF "1.prems"(1,2) True] "1.prems"(2-4)]
      show ?thesis using True t ok by (subst bi_search_test.simps) simp
    next
      case fail: False
      then have s: "search ok (bi_up it) = Some y" using "1.hyps" True by simp
      have "unat (bi_current it) \<noteq> 2 ^ k"
      proof
        assume "unat (bi_current it) = 2 ^ k"
        then have "of_nat (unat (bi_current it)) = (2 ^ k :: cnt_t)" by simp
        then have "bi_current it = 2 ^ k" by simp
        with "1.prems"(3) fail show False by simp
      qed
      from "1.IH" [OF s search_inv_up [OF "1.prems"(1,2) True this] "1.prems"(2-4)]
      show ?thesis using True t fail by (subst bi_search_test.simps) simp
    qed
  qed
qed

lemma next_count_power: "(next_count ^^ k) (Suc 0) = 2 ^ k"
  by (induction k) (simp_all add: next_count_def)

lemma search_tracks_least:
  assumes "k < 63" and "test (2 ^ k) = Some (Inr True)"
    and "\<And>n. 1 \<le> unat n \<Longrightarrow> unat n \<le> 2 ^ k \<Longrightarrow> \<exists>b. test n = Some (Inr b)"
  shows "\<exists>n. search_tracks test = Some (Inr n) \<and> 1 \<le> unat n \<and> unat n \<le> 2 ^ k \<and>
    test n = Some (Inr True) \<and> (n = 1 \<or> test (n - 1) = Some (Inr False))"
proof -
  define ok where "ok n \<longleftrightarrow> test n = Some (Inr True)" for n
  have t: "test n = Some (Inr (ok n))" if "1 \<le> unat n" "unat n \<le> 2 ^ k" for n
    using assms(3) [OF that] by (auto simp: ok_def)
  have "(next_count ^^ k) (unat (1 :: cnt_t)) < 2 ^ 63" "ok (of_nat ((next_count ^^ k) (unat (1 :: cnt_t))))"
    using pow_small [OF assms(1) order_refl] assms(2) by (simp_all add: next_count_power ok_def)
  from bi_search_returns [where ok = ok, OF this] obtain it n where it: "bi_search ok (bi_from 1) = Some it"
    and n: "bi_marker it = Some n" "ok n" "1 \<le> n" "unat n \<le> 2 ^ k" "n = 1 \<or> \<not> ok (n - 1)"
    by (auto simp: next_count_power)
  have "search_inv k (bi_from 1)" by (auto simp: search_inv_def bi_from_def intro!: exI [of _ 0])
  from bi_search_test_eq [OF it this assms(1) _ t] assms(2) have "bi_search_test test (bi_from 1) = Some (Inr it)"
    by (simp add: ok_def)
  then have run: "search_tracks test = Some (Inr n)" by (simp add: search_tracks_def liftO_def n(1))
  have n1: "1 \<le> unat n" using n(3) by (simp add: word_le_nat_alt)
  have "test (n - 1) = Some (Inr False)" if "n \<noteq> 1"
  proof -
    have "unat (n - 1) = unat n - 1" using n1 by (intro unat_minus_one) auto
    moreover have "unat n \<noteq> 1" using that by (metis unat_1 word_unat_eq_iff)
    ultimately show ?thesis using t [of "n - 1"] n n1 that by simp
  qed
  with run n n1 show ?thesis by (auto simp: ok_def)
qed

text \<open>Without a number that passes the loop does not end: the number doubles until it wraps around.\<close>

lemma search_tracks_hangs:
  assumes "\<And>n. test n = Some (Inr False)"
  shows "search_tracks test = None"
proof -
  have "bi_high it \<noteq> None" if "bi_search_test test it = Some r" for it r
    using that assms
  proof (induction rule: bi_search_test.raw_induct [rotated, consumes 1])
    case (1 search test it r)
    show ?case
    proof
      assume "bi_high it = None"
      then have "search test (bi_up it) = Some r" "bi_high (bi_up it) = None"
        using "1.hyps" "1.prems" by (simp_all add: bi_has_next_def bi_up_def Let_def)
      with "1.IH" "1.prems" show False by blast
    qed
  qed
  from this [of "bi_from 1"] have "bi_search_test test (bi_from 1) = None"
    by (cases "bi_search_test test (bi_from 1)") (auto simp: bi_from_def)
  then show ?thesis by (simp add: search_tracks_def)
qed

section \<open>Properties\<close>

text \<open>
  C28.  \<^verbatim>\<open>get_min_num_tr\<close> returns a number of tracks whose wire and vias carry the current, while those of
  one track less do not, if some power of two passes and no test up to it throws or hangs.
\<close>

theorem get_min_num_tr_least:
  assumes "rg_track_info_at g level = Inr ti"
    and "adj_tracks g (ti_dir ti) (level - 1) bot_ntr = Inr bot_ti"
    and "adj_tracks g (ti_dir ti) (level + 1) top_ntr = Inr top_ti"
    and "test = em_passes E g load level ti len bot_ti bot_ntr top_ti top_ntr dc_temp rms_dt"
    and "k < 63" and "test (2 ^ k) = Some (Inr True)"
    and "\<And>n. 1 \<le> unat n \<Longrightarrow> unat n \<le> 2 ^ k \<Longrightarrow> \<exists>b. test n = Some (Inr b)"
  shows "\<exists>n. get_min_num_tr E g level load len bot_ntr top_ntr dc_temp rms_dt = Some (Inr n) \<and>
    1 \<le> unat n \<and> unat n \<le> 2 ^ k \<and> test n = Some (Inr True) \<and>
    (n = 1 \<or> test (n - 1) = Some (Inr False))"
  using search_tracks_least [where test = test, OF assms(5-7)]
  by (simp add: get_min_num_tr_def liftO_def assms(1-3) flip: assms(4))

text \<open>A level of one layer, whose wires carry as much as they are wide.\<close>

definition em_example :: em_ops where
  "em_example = \<lparr>em_add = (+), em_greater = (\<lambda>a b. b < a), em_is_zero = (\<lambda>a. a = 0),
     em_metal = (\<lambda>layer purpose width len vertical dc_temp rms_dt.
       (word_of_int width, word_of_int width, word_of_int width)),
     em_via = base_via_em\<rparr>"

definition em_example_grid :: routing_grid where
  "em_example_grid = \<lparr>rg_tech =
       \<lparr>tech_lib = [], tech_layout_unit = 0, tech_resolution = 0, tech_use_flip_parity = False,
        tech_make_pin = True,
        tech_lp = \<lparr>lp_default_purpose = 0, lp_pin_purpose = 0, lp_lay_map = [(''M1'', 60)],
          lp_purp_map = [(''drawing'', 0)]\<rparr>,
        tech_vlookup = \<lparr>vl_lp_map = [], vl_id_map = [], vl_info_map = []\<rparr>, tech_sp_grp = [],
        tech_sp_sc_type = DIFF_COLOR, tech_len_map = [], tech_bot_layer = 1, tech_lp_list = [[(60, 0)]],
        tech_lev_map = [], tech_color_map = []\<rparr>,
     rg_bot_level = 1,
     rg_info_list = [\<lparr>ti_dir = Horizontal, ti_w = 60, ti_sp = 60, ti_offset = 60, ti_par_scale = 1,
       ti_par_offset = 0, ti_blk_pitch = (120, 60), ti_w_intvs = []\<rparr>],
     rg_top_ignore = 0, rg_top_private = 0\<rparr>"

lemma em_example_test:
  "em_passes em_example em_example_grid (250, 250, 250) 1 (rg_info_list em_example_grid ! 0) 1000 None 0 None 0 0 0 n =
    Some (Inr (\<not> word_of_int (60 + offset_of_cnt (n - 1) * 120) < (250 :: 64 word)))"
  by (simp add: em_passes_def get_metal_em_specs_def em_example_grid_def get_test_lay_purp_def get_lay_purp_list_def
      first_of_def key_metal_em_def layer_names_def tech_get_layer_name_def tech_get_purpose_name_def
      lp_get_layer_name_def lp_get_purpose_name_def find_name_def ti_wire_width_def ti_wire_span_def ti_pitch_def
      em_example_def em_sum_def em_exceeds_def liftO_def via_passes_def Let_def)

theorem get_min_num_tr_least_witness:
  "\<exists>n. get_min_num_tr em_example em_example_grid 1 (250, 250, 250) 1000 0 0 0 0 = Some (Inr n) \<and>
    1 \<le> unat n \<and> unat n \<le> 4"
proof -
  let ?ti = "rg_info_list em_example_grid ! 0"
  have "rg_track_info_at em_example_grid 1 = Inr ?ti" "adj_tracks em_example_grid (ti_dir ?ti) (1 - 1) 0 = Inr None"
    "adj_tracks em_example_grid (ti_dir ?ti) (1 + 1) 0 = Inr None" by code_simp+
  note setting = this
  have "em_passes em_example em_example_grid (250, 250, 250) 1 ?ti 1000 None 0 None 0 0 0 (2 ^ 2) = Some (Inr True)"
    unfolding em_example_test by code_simp
  from get_min_num_tr_least [OF setting refl _ this] show ?thesis
    by (auto simp: em_example_test)
qed

text \<open>
  When no number of tracks carries the current, as when there is no via, \<^verbatim>\<open>get_min_num_tr\<close> does not
  return.
\<close>

theorem get_min_num_tr_hangs:
  assumes "rg_track_info_at g level = Inr ti"
    and "adj_tracks g (ti_dir ti) (level - 1) bot_ntr = Inr bot_ti"
    and "adj_tracks g (ti_dir ti) (level + 1) top_ntr = Inr top_ti"
    and "\<And>n. em_passes E g load level ti len bot_ti bot_ntr top_ti top_ntr dc_temp rms_dt n = Some (Inr False)"
  shows "get_min_num_tr E g level load len bot_ntr top_ntr dc_temp rms_dt = None"
  using search_tracks_hangs [OF assms(4)] by (simp add: get_min_num_tr_def liftO_def assms(1-3))

text \<open>A technology that allows no current.\<close>

theorem get_min_num_tr_hangs_witness:
  "get_min_num_tr (em_example\<lparr>em_metal := \<lambda>layer purpose width len vertical dc_temp rms_dt. (0, 0, 0)\<rparr>)
    em_example_grid 1 (250, 250, 250) 1000 0 0 0 0 = None"
proof -
  let ?E = "em_example\<lparr>em_metal := \<lambda>layer purpose width len vertical dc_temp rms_dt. (0, 0, 0)\<rparr>"
  let ?ti = "rg_info_list em_example_grid ! 0"
  have setting: "rg_track_info_at em_example_grid 1 = Inr ?ti" "adj_tracks em_example_grid (ti_dir ?ti) (1 - 1) 0 = Inr None"
    "adj_tracks em_example_grid (ti_dir ?ti) (1 + 1) 0 = Inr None" by code_simp+
  have "em_passes ?E em_example_grid (250, 250, 250) 1 ?ti 1000 None 0 None 0 0 0 n = Some (Inr False)" for n
    by (simp add: em_passes_def get_metal_em_specs_def em_example_grid_def get_test_lay_purp_def get_lay_purp_list_def
        first_of_def key_metal_em_def layer_names_def tech_get_layer_name_def tech_get_purpose_name_def
        lp_get_layer_name_def lp_get_purpose_name_def find_name_def ti_wire_width_def ti_wire_span_def ti_pitch_def
        em_example_def em_sum_def em_exceeds_def liftO_def Let_def)
  from get_min_num_tr_hangs [OF setting this] show ?thesis .
qed

end
