(* ===== verification/Oa_Objects.thy ===== *)
theory Oa_Objects
  imports Sch_Figures
begin

text \<open>
  The objects of an OpenAccess database as \<^verbatim>\<open>src/cbag/oa\<close> uses them.  OpenAccess itself is not part of
  the repository.  A record of this theory holds what the accessors that the code calls return for one
  object, by the names of the accessors.  Iterators over a collection are lists, names are strings in the
  name space in which the code asks for them.
\<close>

section \<open>Values\<close>

text \<open>
  Enumerations of OpenAccess that the code only casts are integers, and its boolean is an integer type.
  Of the orientations and the types of objects it uses the names.
\<close>

type_synonym oa_enum = int
type_synonym oa_boolean = int
type_synonym oa_point = "int \<times> int"

definition to_oa_boolean :: "bool \<Rightarrow> oa_boolean" where
  "to_oa_boolean b = (if b then 1 else 0)"

lemma to_oa_boolean_nonzero [simp]: "to_oa_boolean b \<noteq> 0 \<longleftrightarrow> b"
  by (simp add: to_oa_boolean_def)

text \<open>What OpenAccess sees of a string that is passed as \<^verbatim>\<open>c_str()\<close> ends before the first zero byte.\<close>

definition c_str :: "string \<Rightarrow> string" where
  "c_str s = takeWhile (\<lambda>c. c \<noteq> CHR 0x00) s"

lemma c_str_Nil [simp]: "c_str [] = []"
  by (simp add: c_str_def)

lemma c_str_eq_self: "c_str s = s \<longleftrightarrow> CHR 0x00 \<notin> set s"
  unfolding c_str_def takeWhile_eq_all_conv by auto

datatype oa_orient = Oac_R0 | Oac_R90 | Oac_R180 | Oac_R270 | Oac_MY | Oac_MYR90 | Oac_MX | Oac_MXR90
  | Oac_orient_other int

record oa_box =
  ob_left :: int
  ob_bottom :: int
  ob_right :: int
  ob_top :: int

record oa_transform =
  ot_xOffset :: int
  ot_yOffset :: int
  ot_orient :: oa_orient

section \<open>Objects\<close>

record oa_text =
  ox_origin :: oa_point
  ox_alignment :: oa_enum
  ox_orient :: oa_orient
  ox_font :: oa_enum
  ox_height :: dist_t
  ox_overbar :: oa_boolean
  ox_visible :: oa_boolean
  ox_drafting :: oa_boolean

text \<open>What \<^verbatim>\<open>isDesign\<close>, \<^verbatim>\<open>isBlockObject\<close> and \<^verbatim>\<open>isTerm\<close> say of the object of an attribute display.\<close>

record oa_displayed =
  on_isDesign :: bool
  on_isBlockObject :: bool
  on_isTerm :: bool

text \<open>The type of a shape with what its accessors return; the box of an arc is that of \<^verbatim>\<open>getBBox\<close>.\<close>

datatype oa_shape_data =
    Oa_rect oa_box
  | Oa_polygon "oa_point list"
  | Oa_arc oa_box "64 word" "64 word"
  | Oa_donut oa_point dist_t dist_t
  | Oa_ellipse oa_box
  | Oa_line "oa_point list"
  | Oa_path dist_t "oa_point list" oa_enum dist_t dist_t
  | Oa_text string oa_text
  | Oa_eval_text string oa_text string
  | Oa_attr_display oa_displayed
  | Oa_other_shape string

record oa_shape =
  os_layer :: lay_t
  os_purpose :: purp_t
  os_data :: oa_shape_data
  os_net :: "string option"
  os_has_pin :: bool

text \<open>The display of an attribute of a terminal.\<close>

record oa_attr_disp =
  oq_attribute :: oa_enum
  oq_layer :: lay_t
  oq_purpose :: purp_t
  oq_text :: oa_text
  oq_format :: oa_enum
  oq_net :: "string option"

datatype oa_prop_value =
    Oa_string_prop string
  | Oa_int_prop int
  | Oa_double_prop "64 word"
  | Oa_time_prop int
  | Oa_app_prop string string
  | Oa_boolean_prop oa_boolean
  | Oa_other_prop string

datatype oa_app_def_value = Oa_int_app_def int | Oa_string_app_def string | Oa_other_app_def string

type_synonym oa_prop = "string \<times> oa_prop_value"
type_synonym oa_app_def = "string \<times> oa_app_def_value"

text \<open>The terminals of an instance that are not implicit, each with its net.\<close>

record oa_inst =
  oi_name :: string
  oi_lib :: string
  oi_cell :: string
  oi_view :: string
  oi_xform :: oa_transform
  oi_bbox :: oa_box
  oi_props :: "oa_prop list"
  oi_inst_terms :: "(string \<times> string) list"
  oi_has_pin :: bool

datatype oa_pin_fig = Oa_fig_inst oa_inst | Oa_fig_shape oa_shape | Oa_fig_other string

record oa_term =
  oe_name :: string
  oe_sig_type :: oa_enum
  oe_term_type :: oa_enum
  oe_pins :: "oa_pin_fig list list"
  oe_displays :: "oa_attr_disp list"

record oa_design =
  od_bbox :: oa_box
  od_terms :: "oa_term list"
  od_shapes :: "oa_shape list"
  od_insts :: "oa_inst list"
  od_props :: "oa_prop list"
  od_app_defs :: "oa_app_def list"

section \<open>Exceptions\<close>

text \<open>
  The two kinds of exceptions of OpenAccess, and those of the library itself.
  \<^verbatim>\<open>handle_oa_exceptions\<close> rethrows the former as runtime errors; an exception of another class leaves
  its \<^verbatim>\<open>try\<close> block as it came.
\<close>

datatype oa_error = Oa_exception int string | Oa_iexception int string | Cbag_error cbag_error

type_synonym 'a oa_result = "oa_error + 'a"

fun handle_oa_exceptions :: "oa_error \<Rightarrow> oa_error" where
  "handle_oa_exceptions (Oa_exception msg_id msg) = Cbag_error Runtime_error"
| "handle_oa_exceptions (Oa_iexception msg_id msg) = Cbag_error Runtime_error"
| "handle_oa_exceptions (Cbag_error e) = Cbag_error e"

definition oa_guarded :: "'a oa_result \<Rightarrow> 'a oa_result" where
  "oa_guarded r = (case r of Inl e \<Rightarrow> Inl (handle_oa_exceptions e) | Inr x \<Rightarrow> Inr x)"

definition liftE :: "'a result \<Rightarrow> 'a oa_result" where
  "liftE r = (case r of Inl e \<Rightarrow> Inl (Cbag_error e) | Inr x \<Rightarrow> Inr x)"

definition bindE :: "'a oa_result \<Rightarrow> ('a \<Rightarrow> 'b oa_result) \<Rightarrow> 'b oa_result" where
  "bindE m f = (case m of Inl e \<Rightarrow> Inl e | Inr x \<Rightarrow> f x)"

lemma bindE_simps [simp]: "bindE (Inl e) f = Inl e" "bindE (Inr x) f = f x"
  by (simp_all add: bindE_def)

lemma bindE_eq_Inr [result_simps]: "bindE m f = Inr y \<longleftrightarrow> (\<exists>x. m = Inr x \<and> f x = Inr y)"
  by (cases m) auto

lemma bindE_cong [fundef_cong]:
  "m = m' \<Longrightarrow> (\<And>x. m' = Inr x \<Longrightarrow> f x = g x) \<Longrightarrow> bindE m f = bindE m' g"
  by (cases m') auto

lemma liftE_simps [simp]: "liftE (Inl e) = Inl (Cbag_error e)" "liftE (Inr x) = Inr x"
  by (simp_all add: liftE_def)

lemma liftE_eq_Inr [result_simps]: "liftE m = Inr y \<longleftrightarrow> m = Inr y"
  by (cases m) auto

lemma oa_guarded_eq_Inr [result_simps]: "oa_guarded r = Inr y \<longleftrightarrow> r = Inr y"
  by (cases r) (auto simp: oa_guarded_def)

text \<open>No exception of OpenAccess leaves a guarded block.\<close>

lemma handle_oa_exceptions_cbag: "\<exists>c. handle_oa_exceptions e = Cbag_error c"
  by (cases e) simp_all

lemma oa_guarded_error: "oa_guarded r = Inl e \<Longrightarrow> \<exists>c. e = Cbag_error c"
  using handle_oa_exceptions_cbag by (auto simp: oa_guarded_def split: sum.splits)

section \<open>Opening designs, technologies and libraries\<close>

text \<open>
  \<open>open_fn\<close> stands for \<^verbatim>\<open>oaDesign::open\<close>: it throws, or returns a design or no design.  The mode is
  \<^verbatim>\<open>r\<close> or \<^verbatim>\<open>w\<close>; the type of the view is passed on only when the design is opened for writing.
\<close>

datatype oa_view_type = Oac_schematic | Oac_schematic_symbol | Oac_mask_layout

type_synonym 'd oa_open =
  "string \<Rightarrow> string \<Rightarrow> string \<Rightarrow> oa_view_type option \<Rightarrow> char \<Rightarrow> 'd option oa_result"

definition open_design ::
  "'d oa_open \<Rightarrow> string \<Rightarrow> string \<Rightarrow> string \<Rightarrow> char \<Rightarrow> oa_view_type \<Rightarrow> 'd oa_result" where
  "open_design open_fn lib_name cell_name view_name mode view_enum =
     bindE (if mode = CHR ''r'' then open_fn lib_name cell_name view_name None mode
            else open_fn lib_name cell_name view_name (Some view_enum) mode) (\<lambda>dsn_ptr.
       case dsn_ptr of None \<Rightarrow> Inl (Cbag_error Invalid_argument) | Some dsn \<Rightarrow> Inr dsn)"

text \<open>\<^verbatim>\<open>oaTech::find\<close>, \<^verbatim>\<open>exists\<close> and \<^verbatim>\<open>open\<close>.\<close>

record 't oa_tech_ops =
  oh_find :: "string \<Rightarrow> 't option"
  oh_exists :: "string \<Rightarrow> bool"
  oh_open :: "string \<Rightarrow> 't option oa_result"

definition read_tech :: "'t oa_tech_ops \<Rightarrow> string \<Rightarrow> 't oa_result" where
  "read_tech H lib_name =
     (case oh_find H lib_name of
        Some t \<Rightarrow> Inr t
      | None \<Rightarrow>
          if \<not> oh_exists H lib_name then Inl (Cbag_error Runtime_error)
          else bindE (oh_open H lib_name) (\<lambda>tech_ptr.
            case tech_ptr of None \<Rightarrow> Inl (Cbag_error Runtime_error) | Some t \<Rightarrow> Inr t))"

text \<open>
  A library: what \<^verbatim>\<open>oaLib::find\<close> finds, whether it grants read access within the time it is given, and
  its cells with their views and the types of these.
\<close>

record oa_lib =
  ol_get_access :: bool
  ol_path :: string
  ol_cells :: "(string \<times> (string \<times> bool) list) list"

definition open_library_read :: "(string \<Rightarrow> oa_lib option) \<Rightarrow> string \<Rightarrow> oa_lib oa_result" where
  "open_library_read find_lib lib_name =
     (case find_lib lib_name of
        None \<Rightarrow> Inl (Cbag_error Invalid_argument)
      | Some lib \<Rightarrow> if \<not> ol_get_access lib then Inl (Cbag_error Runtime_error) else Inr lib)"

section \<open>Conversions\<close>

text \<open>From OpenAccess: an enumeration is cast to one of 8 bits, an orientation is looked up.\<close>

definition oa_cast :: "(8 word \<Rightarrow> 'e) \<Rightarrow> oa_enum \<Rightarrow> 'e" where
  "oa_cast of_code v = of_code (word_of_int v)"

definition oa_get_path_style :: "oa_enum \<Rightarrow> path_style" where
  "oa_get_path_style = oa_cast style_of_code"

definition oa_get_text_align :: "oa_enum \<Rightarrow> text_align" where
  "oa_get_text_align = oa_cast align_of_code"

definition oa_get_font :: "oa_enum \<Rightarrow> font_t" where
  "oa_get_font = oa_cast font_of_code"

definition oa_get_text_disp_format :: "oa_enum \<Rightarrow> text_disp_format" where
  "oa_get_text_disp_format = oa_cast disp_of_code"

definition oa_get_term_attr_type :: "oa_enum \<Rightarrow> term_attr_type" where
  "oa_get_term_attr_type = oa_cast attr_of_code"

definition oa_get_sig_type :: "oa_enum \<Rightarrow> sig_type" where
  "oa_get_sig_type = oa_cast sig_of_code"

definition oa_get_term_type :: "oa_enum \<Rightarrow> term_type" where
  "oa_get_term_type = oa_cast term_of_code"

fun get_orientation :: "oa_orient \<Rightarrow> orientation result" where
  "get_orientation Oac_R0 = Inr OR0"
| "get_orientation Oac_R90 = Inr OR90"
| "get_orientation Oac_R180 = Inr OR180"
| "get_orientation Oac_R270 = Inr OR270"
| "get_orientation Oac_MY = Inr OMY"
| "get_orientation Oac_MYR90 = Inr OMYR90"
| "get_orientation Oac_MX = Inr OMX"
| "get_orientation Oac_MXR90 = Inr OMXR90"
| "get_orientation (Oac_orient_other v) = Inl Invalid_argument"

definition oa_get_xform :: "'x xform_ops \<Rightarrow> oa_transform \<Rightarrow> 'x result" where
  "oa_get_xform T xform =
     bindR (get_orientation (ot_orient xform)) (\<lambda>ori.
       Inr (make_xform T (ot_xOffset xform) (ot_yOffset xform) ori))"

text \<open>To OpenAccess: the enumeration of orientations has no other values.\<close>

definition to_oa_enum :: "('e \<Rightarrow> 8 word) \<Rightarrow> 'e \<Rightarrow> oa_enum" where
  "to_oa_enum code e = uint (code e)"

fun get_orient :: "orientation \<Rightarrow> oa_orient" where
  "get_orient OR0 = Oac_R0"
| "get_orient OR90 = Oac_R90"
| "get_orient OR180 = Oac_R180"
| "get_orient OR270 = Oac_R270"
| "get_orient OMY = Oac_MY"
| "get_orient OMYR90 = Oac_MYR90"
| "get_orient OMX = Oac_MX"
| "get_orient OMXR90 = Oac_MXR90"

definition get_box :: "box_t \<Rightarrow> oa_box" where
  "get_box b = \<lparr>ob_left = box_xl b, ob_bottom = box_yl b, ob_right = box_xh b, ob_top = box_yh b\<rparr>"

definition get_point :: "point \<Rightarrow> oa_point" where
  "get_point p = (fst p, snd p)"

text \<open>The constructor of the array reserves room for the points.\<close>

definition get_point_arr :: "point list \<Rightarrow> oa_point list" where
  "get_point_arr pt_arr = foldl (\<lambda>ans p. ans @ [(fst p, snd p)]) [] pt_arr"

definition get_oa_xform :: "'x xform_ops \<Rightarrow> 'x \<Rightarrow> oa_transform" where
  "get_oa_xform T xform =
     \<lparr>ot_xOffset = xform_x T xform, ot_yOffset = xform_y T xform, ot_orient = get_orient (orient T xform)\<rparr>"

text \<open>A conversion back gives the value again.\<close>

lemma get_orientation_get_orient [simp]: "get_orientation (get_orient ori) = Inr ori"
  by (cases ori) simp_all

lemma oa_cast_to_oa_enum [simp]: "oa_cast of_code (to_oa_enum code e) = of_code (code e)"
  by (simp add: oa_cast_def to_oa_enum_def)

lemma get_point_arr [simp]: "get_point_arr pts = pts"
proof -
  have "foldl (\<lambda>ans p. ans @ [(fst p, snd p)]) acc pts = acc @ pts" for acc :: "oa_point list"
    by (induction pts arbitrary: acc) auto
  then show ?thesis by (simp add: get_point_arr_def)
qed

lemma get_box_simps [simp]: "ob_left (get_box b) = box_xl b" "ob_bottom (get_box b) = box_yl b"
    "ob_right (get_box b) = box_xh b" "ob_top (get_box b) = box_yh b"
  by (simp_all add: get_box_def)

lemma make_box_coords [simp]: "make_box (box_xl b) (box_yl b) (box_xh b) (box_yh b) = (b :: box_t)"
  by (simp add: make_box_def box_xl_def box_yl_def box_xh_def box_yh_def)

lemma get_point [simp]: "get_point p = p"
  by (simp add: get_point_def)

lemma xform_xy: "xform_x T x = fst (location T x)" "xform_y T x = snd (location T x)"
  by (simp_all add: xform_x_def xform_y_def get_coord_def)

lemma oa_xform_image:
  assumes "xform_laws T"
  shows "\<exists>y. oa_get_xform T (get_oa_xform T x) = Inr y \<and> xo_transform T y = xo_transform T x"
  using make_xform_spec [OF assms] orient_spec(1) [OF assms]
  by (intro exI [of _ "make_xform T (xform_x T x) (xform_y T x) (orient T x)"])
     (auto simp: oa_get_xform_def get_oa_xform_def xform_xy xform_affine [OF assms] fun_eq_iff)

end
