(* ===== verification/Oa_Read.thy ===== *)
theory Oa_Read
  imports Oa_Objects
begin

text \<open>
  Reading a schematic or a symbol from OpenAccess: \<^verbatim>\<open>src/cbag/oa/oa_read.cpp\<close>.  The design is the
  record of what its accessors return.
\<close>

section \<open>Properties\<close>

fun read_prop :: "oa_prop \<Rightarrow> (string \<times> value_t) result" where
  "read_prop (key, Oa_string_prop s) = Inr (key, V_string s)"
| "read_prop (key, Oa_int_prop i) = Inr (key, V_int i)"
| "read_prop (key, Oa_double_prop d) = Inr (key, V_double d)"
| "read_prop (key, Oa_time_prop t) = Inr (key, V_time t)"
| "read_prop (key, Oa_app_prop app_str data) = Inr (key, V_binary app_str data)"
| "read_prop (key, Oa_boolean_prop b) = Inr (key, V_bool (b \<noteq> 0))"
| "read_prop (key, Oa_other_prop type) = Inl Invalid_argument"

fun read_app_def :: "oa_app_def \<Rightarrow> (string \<times> value_t) result" where
  "read_app_def (key, Oa_int_app_def i) = Inr (key, V_int i)"
| "read_app_def (key, Oa_string_app_def s) = Inr (key, V_string s)"
| "read_app_def (key, Oa_other_app_def type) = Inl Invalid_argument"

definition save_app_def :: "string \<Rightarrow> bool" where
  "save_app_def name \<longleftrightarrow> name = ''_dbLastSavedCounter'' \<or> name = ''_dbvCvTimeStamp'' \<or>
     name = ''cdbRevision'' \<or> name = ''cdnSPDesignMajorVersion''"

text \<open>\<^verbatim>\<open>insert\<close> keeps the entry that a map has for the key.\<close>

definition insert_prop :: "param_map \<Rightarrow> oa_prop \<Rightarrow> param_map result" where
  "insert_prop m p = bindR (read_prop p) (\<lambda>(k, v). Inr (fst (sm_emplace m k v)))"

definition insert_app_def :: "param_map \<Rightarrow> oa_app_def \<Rightarrow> param_map result" where
  "insert_app_def m p =
     bindR (read_app_def p) (\<lambda>(k, v). Inr (if save_app_def k then fst (sm_emplace m k v) else m))"

section \<open>Shapes\<close>

definition read_rect :: "oa_shape \<Rightarrow> oa_box \<Rightarrow> string \<Rightarrow> sch_rectangle" where
  "read_rect p box net =
     make_sch_rectangle (os_layer p) (os_purpose p) net (ob_left box) (ob_bottom box) (ob_right box)
       (ob_top box)"

definition read_poly :: "oa_shape \<Rightarrow> oa_point list \<Rightarrow> string \<Rightarrow> sch_polygon" where
  "read_poly p arr net =
     foldl (\<lambda>ans pt. ans\<lparr>poly_points := poly_points ans @ [(fst pt, snd pt)]\<rparr>)
       (make_sch_polygon (os_layer p) (os_purpose p) net (of_nat (length arr))) arr"

definition read_arc :: "oa_shape \<Rightarrow> oa_box \<Rightarrow> 64 word \<Rightarrow> 64 word \<Rightarrow> string \<Rightarrow> sch_arc" where
  "read_arc p box start stop net =
     make_sch_arc (os_layer p) (os_purpose p) net start stop (ob_left box) (ob_bottom box)
       (ob_right box) (ob_top box)"

definition read_donut :: "oa_shape \<Rightarrow> oa_point \<Rightarrow> dist_t \<Rightarrow> dist_t \<Rightarrow> string \<Rightarrow> sch_donut" where
  "read_donut p pt r hole_r net =
     make_sch_donut (os_layer p) (os_purpose p) net r hole_r (fst pt) (snd pt)"

definition read_ellipse :: "oa_shape \<Rightarrow> oa_box \<Rightarrow> string \<Rightarrow> sch_ellipse" where
  "read_ellipse p box net =
     make_sch_ellipse (os_layer p) (os_purpose p) net (ob_left box) (ob_bottom box) (ob_right box)
       (ob_top box)"

definition read_line :: "oa_shape \<Rightarrow> oa_point list \<Rightarrow> string \<Rightarrow> sch_line" where
  "read_line p arr net =
     foldl (\<lambda>ans pt. ans\<lparr>line_points := line_points ans @ [(fst pt, snd pt)]\<rparr>)
       (make_sch_line (os_layer p) (os_purpose p) net (of_nat (length arr))) arr"

definition read_path ::
  "oa_shape \<Rightarrow> dist_t \<Rightarrow> oa_point list \<Rightarrow> oa_enum \<Rightarrow> dist_t \<Rightarrow> dist_t \<Rightarrow> string \<Rightarrow> sch_path" where
  "read_path p width arr style begin_ext end_ext net =
     foldl (\<lambda>ans pt. ans\<lparr>path_points := path_points ans @ [(fst pt, snd pt)]\<rparr>)
       (make_sch_path (os_layer p) (os_purpose p) net width (of_nat (length arr))
          (oa_get_path_style style) begin_ext end_ext) arr"

definition oa_read_text :: "oa_shape \<Rightarrow> string \<Rightarrow> oa_text \<Rightarrow> string \<Rightarrow> sch_text result" where
  "oa_read_text p txt t net =
     (let overbar = (ox_overbar t \<noteq> 0); visible = (ox_visible t \<noteq> 0); drafting = (ox_drafting t \<noteq> 0) in
      bindR (get_orientation (ox_orient t)) (\<lambda>ori.
        Inr (make_sch_text (os_layer p) (os_purpose p) net txt (oa_get_text_align (ox_alignment t)) ori
          (oa_get_font (ox_font t)) (ox_height t) overbar visible drafting (fst (ox_origin t))
          (snd (ox_origin t)))))"

definition read_eval_text ::
  "oa_shape \<Rightarrow> string \<Rightarrow> oa_text \<Rightarrow> string \<Rightarrow> string \<Rightarrow> sch_eval_text result" where
  "read_eval_text p txt t eval net =
     (let overbar = (ox_overbar t \<noteq> 0); visible = (ox_visible t \<noteq> 0); drafting = (ox_drafting t \<noteq> 0) in
      bindR (get_orientation (ox_orient t)) (\<lambda>ori.
        Inr (make_sch_eval_text (os_layer p) (os_purpose p) net txt (oa_get_text_align (ox_alignment t))
          ori (oa_get_font (ox_font t)) (ox_height t) overbar visible drafting eval (fst (ox_origin t))
          (snd (ox_origin t)))))"

text \<open>
  Shapes of pins and displays of attributes of terminals are read with the terminals.
\<close>

definition include_shape :: "oa_shape \<Rightarrow> bool" where
  "include_shape p =
     (if \<not> os_has_pin p then
        (case os_data p of
           Oa_attr_display obj \<Rightarrow>
             if on_isDesign obj then
               if on_isBlockObject obj then \<not> on_isTerm obj else True
             else True
         | _ \<Rightarrow> True)
      else False)"

definition net_string :: "string option \<Rightarrow> string" where
  "net_string n = (case n of None \<Rightarrow> [] | Some net_name \<Rightarrow> net_name)"

definition read_shape :: "oa_shape \<Rightarrow> shape_t result" where
  "read_shape p =
     (let net = net_string (os_net p) in
      case os_data p of
        Oa_rect box \<Rightarrow> Inr (Shape_rectangle (read_rect p box net))
      | Oa_polygon arr \<Rightarrow> Inr (Shape_polygon (read_poly p arr net))
      | Oa_arc box start stop \<Rightarrow> Inr (Shape_arc (read_arc p box start stop net))
      | Oa_donut pt r hole_r \<Rightarrow> Inr (Shape_donut (read_donut p pt r hole_r net))
      | Oa_ellipse box \<Rightarrow> Inr (Shape_ellipse (read_ellipse p box net))
      | Oa_line arr \<Rightarrow> Inr (Shape_line (read_line p arr net))
      | Oa_path width arr style begin_ext end_ext \<Rightarrow>
          Inr (Shape_path (read_path p width arr style begin_ext end_ext net))
      | Oa_text txt t \<Rightarrow> bindR (oa_read_text p txt t net) (\<lambda>s. Inr (Shape_text s))
      | Oa_eval_text txt t eval \<Rightarrow> bindR (read_eval_text p txt t eval net) (\<lambda>s. Inr (Shape_eval_text s))
      | _ \<Rightarrow> Inl Invalid_argument)"

section \<open>Instances\<close>

text \<open>\<open>primitive_libs\<close> is the set of the names of the libraries whose cells are primitive.\<close>

definition oa_read_instance ::
  "'x xform_ops \<Rightarrow> string set \<Rightarrow> oa_inst \<Rightarrow> 'x sch_instance result" where
  "oa_read_instance T primitive_libs p =
     (let bbox = oi_bbox p; lib_name = oi_lib p in
      bindR (oa_get_xform T (oi_xform p)) (\<lambda>xform.
        let inst = (make_instance lib_name (oi_cell p) (oi_view p) xform (ob_left bbox) (ob_bottom bbox)
                      (ob_right bbox) (ob_top bbox))\<lparr>inst_is_primitive := lib_name \<in> primitive_libs\<rparr> in
        bindR (foldR insert_prop (inst_params inst) (oi_props p)) (\<lambda>params.
          let inst = inst\<lparr>inst_params := params\<rparr> in
          Inr (inst\<lparr>inst_connections :=
            foldl (\<lambda>m (term_name, net_name). fst (sm_emplace m term_name net_name))
              (inst_connections inst) (oi_inst_terms p)\<rparr>))))"

definition read_instance_pair ::
  "'x xform_ops \<Rightarrow> string set \<Rightarrow> oa_inst \<Rightarrow> (string \<times> 'x sch_instance) result" where
  "read_instance_pair T primitive_libs p =
     bindR (oa_read_instance T primitive_libs p) (\<lambda>inst. Inr (oi_name p, inst))"

section \<open>Terminals\<close>

definition read_term_attr :: "oa_attr_disp \<Rightarrow> term_attr result" where
  "read_term_attr disp =
     (let t = oq_text disp;
          overbar = (ox_overbar t \<noteq> 0); visible = (ox_visible t \<noteq> 0); drafting = (ox_drafting t \<noteq> 0);
          net = net_string (oq_net disp) in
      bindR (get_orientation (ox_orient t)) (\<lambda>ori.
        Inr (make_term_attr (oa_get_term_attr_type (oq_attribute disp)) (oq_layer disp) (oq_purpose disp)
          net (oa_get_text_align (ox_alignment t)) ori (oa_get_font (ox_font t)) (ox_height t)
          (oa_get_text_disp_format (oq_format disp)) overbar visible drafting (fst (ox_origin t))
          (snd (ox_origin t)))))"

definition read_pin_figure ::
  "'x xform_ops \<Rightarrow> string set \<Rightarrow> oa_term \<Rightarrow> oa_pin_fig \<Rightarrow> 'x pin_fig_t pin_figure result" where
  "read_pin_figure T primitive_libs t p =
     (let stype = oa_get_sig_type (oe_sig_type t); ttype = oa_get_term_type (oe_term_type t) in
      case p of
        Oa_fig_inst i \<Rightarrow>
          bindR (oa_read_instance T primitive_libs i) (\<lambda>inst.
            case oe_displays t of
              [] \<Rightarrow> Inl Invalid_argument
            | disp # more_disps \<Rightarrow>
                if more_disps \<noteq> [] then Inl Invalid_argument
                else bindR (read_term_attr disp) (\<lambda>attr.
                  Inr (make_pin_figure (Fig_object (make_pin_object inst attr)) stype ttype)))
      | Oa_fig_shape s \<Rightarrow>
          (case os_data s of
             Oa_rect box \<Rightarrow>
               Inr (make_pin_figure (Fig_rectangle (read_rect s box (net_string (os_net s)))) stype ttype)
           | _ \<Rightarrow> Inl Invalid_argument)
      | Oa_fig_other type \<Rightarrow> Inl Invalid_argument)"

text \<open>A terminal has exactly one pin, and the pin exactly one figure.\<close>

definition read_terminal_single ::
  "'x xform_ops \<Rightarrow> string set \<Rightarrow> oa_term \<Rightarrow> (string \<times> 'x pin_fig_t pin_figure) result" where
  "read_terminal_single T primitive_libs term =
     (case oe_pins term of
        [] \<Rightarrow> Inl Invalid_argument
      | pin # more_pins \<Rightarrow>
          if more_pins \<noteq> [] then Inl Invalid_argument
          else (case pin of
              [] \<Rightarrow> Inl Invalid_argument
            | fig # more_figs \<Rightarrow>
                if more_figs \<noteq> [] then Inl Invalid_argument
                else bindR (read_pin_figure T primitive_libs term fig) (\<lambda>f. Inr (oe_name term, f))))"

section \<open>Cellviews\<close>

definition make_sch_cellview ::
  "string \<Rightarrow> string \<Rightarrow> string \<Rightarrow> int \<Rightarrow> int \<Rightarrow> int \<Rightarrow> int \<Rightarrow> ('x, 'x pin_fig_t, shape_t) cv_data" where
  "make_sch_cellview lib cell view xl yl xh yh =
     \<lparr>cv_lib_name = lib, cv_cell_name = cell, cv_view_name = view, cv_bbox = make_box xl yl xh yh,
      cv_terminals = [], cv_shapes = [], cv_instances = [], cv_props = [], cv_app_defs = []\<rparr>"

definition insert_terminal ::
  "'x xform_ops \<Rightarrow> string set \<Rightarrow> (string, 'x pin_fig_t pin_figure) smap \<Rightarrow> oa_term
     \<Rightarrow> (string, 'x pin_fig_t pin_figure) smap result" where
  "insert_terminal T primitive_libs m t =
     bindR (read_terminal_single T primitive_libs t) (\<lambda>(name, fig). Inr (fst (sm_emplace m name fig)))"

definition push_shape :: "shape_t list \<Rightarrow> oa_shape \<Rightarrow> shape_t list result" where
  "push_shape shapes p =
     (if include_shape p then bindR (read_shape p) (\<lambda>s. Inr (shapes @ [s])) else Inr shapes)"

definition insert_instance ::
  "'x xform_ops \<Rightarrow> string set \<Rightarrow> 'x inst_map_t \<Rightarrow> oa_inst \<Rightarrow> 'x inst_map_t result" where
  "insert_instance T primitive_libs m p =
     (if \<not> oi_has_pin p
      then bindR (read_instance_pair T primitive_libs p) (\<lambda>(name, inst). Inr (fst (sm_emplace m name inst)))
      else Inr m)"

definition read_design ::
  "'x xform_ops \<Rightarrow> string \<Rightarrow> string \<Rightarrow> string \<Rightarrow> string set \<Rightarrow> oa_design \<Rightarrow> 'x sch_cellview result" where
  "read_design T lib_name cell_name view_name primitive_libs p =
     (let bbox = od_bbox p;
          ans = make_sch_cellview lib_name cell_name view_name (ob_left bbox) (ob_bottom bbox)
                  (ob_right bbox) (ob_top bbox) in
      bindR (foldR (insert_terminal T primitive_libs) (cv_terminals ans) (od_terms p)) (\<lambda>terminals.
      bindR (foldR push_shape (cv_shapes ans) (od_shapes p)) (\<lambda>shapes.
      bindR (foldR (insert_instance T primitive_libs) (cv_instances ans) (od_insts p)) (\<lambda>instances.
      bindR (foldR insert_prop (cv_props ans) (od_props p)) (\<lambda>props.
      bindR (foldR insert_app_def (cv_app_defs ans) (od_app_defs p)) (\<lambda>app_defs.
        Inr (Cellview (ans\<lparr>cv_terminals := terminals, cv_shapes := shapes, cv_instances := instances,
               cv_props := props, cv_app_defs := app_defs\<rparr>) None)))))))"

definition read_sch_cellview ::
  "'x xform_ops \<Rightarrow> oa_design oa_open \<Rightarrow> string \<Rightarrow> string \<Rightarrow> string \<Rightarrow> string set
     \<Rightarrow> 'x sch_cellview oa_result" where
  "read_sch_cellview T open_fn lib_name cell_name view_name primitive_libs =
     bindE (open_design open_fn lib_name cell_name view_name (CHR ''r'') Oac_schematic) (\<lambda>p.
       liftE (read_design T lib_name cell_name view_name primitive_libs p))"

end
