(* ===== verification/Util_Io.thy ===== *)
theory Util_Io
  imports Prelude
begin

text \<open>
  Paths and files: \<^verbatim>\<open>src/cbag/util/io.cpp\<close>.  A path is its text on POSIX, and the functions of
  \<^verbatim>\<open>std::filesystem::path\<close> that the code uses are functions on texts.  Of the file system the code asks
  whether a path is a regular file and whether a stream opens.
\<close>

text \<open>The operator \<^verbatim>\<open>/\<close>, and \<^verbatim>\<open>parent_path\<close>.\<close>

definition path_join :: "string \<Rightarrow> string \<Rightarrow> string" where
  "path_join first second =
     (if second \<noteq> [] \<and> hd second = CHR ''/'' then second
      else if first = [] \<or> last first = CHR ''/'' then first @ second
      else first @ ''/'' @ second)"

definition path_parent :: "string \<Rightarrow> string" where
  "path_parent p =
     (let dir = rev (dropWhile (\<lambda>c. c \<noteq> CHR ''/'') (rev p));
          parent = rev (dropWhile (\<lambda>c. c = CHR ''/'') (rev dir))
      in if parent = [] \<and> dir \<noteq> [] then ''/'' else parent)"

text \<open>The directory that is created with those above it, if there is one.\<close>

definition make_parent_dirs :: "string \<Rightarrow> string option" where
  "make_parent_dirs p = (if path_parent p \<noteq> [] then Some (path_parent p) else None)"

text \<open>The directory that was created, and whether the stream is returned.\<close>

definition open_file_write :: "(string \<Rightarrow> bool) \<Rightarrow> string \<Rightarrow> string option \<times> unit result" where
  "open_file_write opens fname =
     (make_parent_dirs fname, if \<not> opens fname then Inl Runtime_error else Inr ())"

definition open_file_read :: "(string \<Rightarrow> bool) \<Rightarrow> (string \<Rightarrow> bool) \<Rightarrow> string \<Rightarrow> unit result" where
  "open_file_read is_file opens fname =
     (if \<not> is_file fname then Inl Invalid_argument
      else if \<not> opens fname then Inl Runtime_error else Inr ())"

text \<open>A file in a directory has this directory for its parent.\<close>

lemma path_parent_join:
  assumes "dir \<noteq> []" and "last dir \<noteq> CHR ''/''" and "CHR ''/'' \<notin> set fname"
  shows "path_parent (path_join dir fname) = dir"
proof -
  have "path_join dir fname = dir @ CHR ''/'' # fname"
    using assms by (cases fname) (auto simp: path_join_def)
  moreover have "dropWhile (\<lambda>c. c \<noteq> CHR ''/'') (rev fname @ CHR ''/'' # rev dir) = CHR ''/'' # rev dir"
    using assms(3) by (subst dropWhile_append2) auto
  moreover have "dropWhile (\<lambda>c. c = CHR ''/'') (rev dir) = rev dir"
    using assms(1,2) by (cases dir rule: rev_cases) auto
  moreover have "\<exists>x\<in>set dir. x \<noteq> CHR ''/''"
    using assms(1,2) last_in_set by blast
  ultimately show ?thesis using assms(1) by (auto simp: path_parent_def)
qed

end
