(* ===== verification/Oa_Library.thy ===== *)
theory Oa_Library
  imports Oa_Read Yaml_Sch Yaml_Doc Util_Io
begin

text \<open>
  Reading cells with their symbols, hierarchies of cells and whole libraries into files:
  \<^verbatim>\<open>src/cbag/oa/oa_read_lib.cpp\<close> and \<^verbatim>\<open>include/cbag/oa/oa_read_lib.h\<close>.  The files that have been
  written are the list of their paths and texts; directories are made where they are missing.
\<close>

section \<open>A cell\<close>

text \<open>
  What the readers are given: OpenAccess, the file system, the libraries with a directory for their files,
  and the primitive libraries.
\<close>

record oa_source =
  sr_open :: "oa_design oa_open"
  sr_find_lib :: "string \<Rightarrow> oa_lib option"
  sr_files :: file_sys
  sr_writable :: "string \<Rightarrow> bool"
  sr_yaml_path_map :: "string \<rightharpoonup> string"
  sr_primitive_libs :: "string set"

type_synonym files_out = "(string \<times> string) list"

definition put_file :: "oa_source \<Rightarrow> string \<Rightarrow> string \<Rightarrow> files_out \<Rightarrow> unit oa_result \<times> files_out" where
  "put_file S fname txt out =
     (if sr_writable S fname then (Inr (), out @ [(fname, txt)]) else (Inl (Cbag_error Runtime_error), out))"

definition read_view_to_file ::
  "'n yaml_ops \<Rightarrow> 'x xform_ops \<Rightarrow> oa_source \<Rightarrow> string \<Rightarrow> string \<Rightarrow> string \<Rightarrow> string \<Rightarrow> files_out
     \<Rightarrow> 'x sch_cellview oa_result \<times> files_out" where
  "read_view_to_file Y T S lib_name cell_name view fname out =
     (case read_sch_cellview T (sr_open S) lib_name cell_name view (sr_primitive_libs S) of
        Inl e \<Rightarrow> (Inl e, out)
      | Inr cv \<Rightarrow>
          (case put_file S fname (cellview_to_file Y T cv) out of
             (Inl e, out) \<Rightarrow> (Inl e, out) | (Inr u, out) \<Rightarrow> (Inr cv, out)))"

fun write_symbols ::
  "'n yaml_ops \<Rightarrow> 'x xform_ops \<Rightarrow> oa_source \<Rightarrow> string \<Rightarrow> string \<Rightarrow> string \<Rightarrow> (string \<times> bool) list \<Rightarrow> files_out
     \<Rightarrow> unit oa_result \<times> files_out" where
  "write_symbols Y T S lib_name cell_name yaml_dir [] out = (Inr (), out)"
| "write_symbols Y T S lib_name cell_name yaml_dir ((view, is_symbol) # views) out =
     (if is_symbol then
        (case read_view_to_file Y T S lib_name cell_name view
                (path_join yaml_dir (cell_name @ ''.'' @ view @ ''.yaml'')) out of
           (Inl e, out) \<Rightarrow> (Inl e, out)
         | (Inr cv, out) \<Rightarrow> write_symbols Y T S lib_name cell_name yaml_dir views out)
      else write_symbols Y T S lib_name cell_name yaml_dir views out)"

definition cell_to_yaml ::
  "'n yaml_ops \<Rightarrow> 'x xform_ops \<Rightarrow> oa_source \<Rightarrow> string \<Rightarrow> string \<Rightarrow> string \<Rightarrow> string \<Rightarrow> files_out
     \<Rightarrow> 'x sch_cellview oa_result \<times> files_out" where
  "cell_to_yaml Y T S lib_name cell_name sch_view yaml_path out =
     (let yaml_dir = fs_canonical (sr_files S) yaml_path in
      case read_view_to_file Y T S lib_name cell_name sch_view
             (path_join yaml_dir (cell_name @ ''.yaml'')) out of
        (Inl e, out) \<Rightarrow> (Inl e, out)
      | (Inr sch_cv, out) \<Rightarrow>
          (case open_library_read (sr_find_lib S) lib_name of
             Inl e \<Rightarrow> (Inl e, out)
           | Inr lib \<Rightarrow>
               (case map_of (ol_cells lib) cell_name of
                  None \<Rightarrow> (Inl (Cbag_error Undefined_behaviour), out)
                | Some views \<Rightarrow>
                    (case write_symbols Y T S lib_name cell_name yaml_dir views out of
                       (Inl e, out) \<Rightarrow> (Inl e, out)
                     | (Inr u, out) \<Rightarrow> (Inr sch_cv, out)))))"

section \<open>Hierarchies\<close>

type_synonym cell_key = "string \<times> string"

record read_state =
  rs_files :: files_out
  rs_exclude :: "cell_key set"
  rs_out :: "cell_key list"

type_synonym read_outcome = "(oa_error option \<times> read_state) option"

text \<open>
  The cells that a schematic places are read after it, one after the other, each with those below it.
  The recursion is as deep as the hierarchy; without fuel the result is \<open>None\<close>.
\<close>

fun read_sch_helper ::
    "'n yaml_ops \<Rightarrow> 'x xform_ops \<Rightarrow> oa_source \<Rightarrow> string \<Rightarrow> nat \<Rightarrow> cell_key \<Rightarrow> read_state \<Rightarrow> read_outcome"
  and read_sch_insts ::
    "'n yaml_ops \<Rightarrow> 'x xform_ops \<Rightarrow> oa_source \<Rightarrow> string \<Rightarrow> nat \<Rightarrow> 'x sch_instance list \<Rightarrow> read_state
       \<Rightarrow> read_outcome" where
  "read_sch_helper Y T S view_name 0 key st = None"
| "read_sch_helper Y T S view_name (Suc n) key st =
     (case sr_yaml_path_map S (fst key) of
        None \<Rightarrow> Some (Some (Cbag_error Runtime_error), st)
      | Some yaml_path \<Rightarrow>
          (case cell_to_yaml Y T S (fst key) (snd key) view_name yaml_path (rs_files st) of
             (Inl e, files) \<Rightarrow> Some (Some e, st\<lparr>rs_files := files\<rparr>)
           | (Inr sch_cv, files) \<Rightarrow>
               read_sch_insts Y T S view_name n (map snd (cv_instances (cv_fields sch_cv)))
                 (st\<lparr>rs_files := files, rs_out := rs_out st @ [key],
                     rs_exclude := insert key (rs_exclude st)\<rparr>)))"
| "read_sch_insts Y T S view_name n [] st = Some (None, st)"
| "read_sch_insts Y T S view_name n (inst # insts) st =
     (let ikey = (inst_lib_name inst, inst_cell_name inst) in
      if ikey \<notin> rs_exclude st \<and> inst_lib_name inst \<notin> sr_primitive_libs S then
        (case read_sch_helper Y T S view_name n ikey st of
           None \<Rightarrow> None
         | Some (Some e, st) \<Rightarrow> Some (Some e, st)
         | Some (None, st) \<Rightarrow> read_sch_insts Y T S view_name n insts st)
      else read_sch_insts Y T S view_name n insts st)"

definition read_begin :: read_state where
  "read_begin = \<lparr>rs_files = [], rs_exclude = {}, rs_out = []\<rparr>"

definition read_sch_recursive ::
  "'n yaml_ops \<Rightarrow> 'x xform_ops \<Rightarrow> oa_source \<Rightarrow> nat \<Rightarrow> string \<Rightarrow> string \<Rightarrow> string \<Rightarrow> read_outcome" where
  "read_sch_recursive Y T S n lib_name cell_name view_name =
     read_sch_helper Y T S view_name n (lib_name, cell_name) read_begin"

section \<open>Libraries\<close>

text \<open>
  The processor that takes the names of the cells reads each of them, whether it was read before or not.
  The exceptions of the whole loop are handled.
\<close>

definition get_cells :: "oa_source \<Rightarrow> string \<Rightarrow> string list oa_result" where
  "get_cells S lib_name =
     oa_guarded (bindE (open_library_read (sr_find_lib S) lib_name) (\<lambda>lib. Inr (map fst (ol_cells lib))))"

fun read_cells ::
  "'n yaml_ops \<Rightarrow> 'x xform_ops \<Rightarrow> oa_source \<Rightarrow> string \<Rightarrow> string \<Rightarrow> nat \<Rightarrow> string list \<Rightarrow> read_state
     \<Rightarrow> read_outcome" where
  "read_cells Y T S lib_name view_name n [] st = Some (None, st)"
| "read_cells Y T S lib_name view_name n (cell # cells) st =
     (case read_sch_helper Y T S view_name n (lib_name, cell) st of
        None \<Rightarrow> None
      | Some (Some e, st) \<Rightarrow> Some (Some (handle_oa_exceptions e), st)
      | Some (None, st) \<Rightarrow> read_cells Y T S lib_name view_name n cells st)"

definition read_library ::
  "'n yaml_ops \<Rightarrow> 'x xform_ops \<Rightarrow> oa_source \<Rightarrow> nat \<Rightarrow> string \<Rightarrow> string \<Rightarrow> read_outcome" where
  "read_library Y T S n lib_name view_name =
     (case get_cells S lib_name of
        Inl e \<Rightarrow> Some (Some e, read_begin)
      | Inr cells \<Rightarrow> read_cells Y T S lib_name view_name n cells read_begin)"

section \<open>The cells that are read\<close>

text \<open>
  The masters below a cell, if the cell can be read: what the cell gives does not depend on the files
  written before.
\<close>

definition master_keys :: "oa_source \<Rightarrow> 'x sch_instance list \<Rightarrow> cell_key list" where
  "master_keys S insts =
     filter (\<lambda>k. fst k \<notin> sr_primitive_libs S) (map (\<lambda>i. (inst_lib_name i, inst_cell_name i)) insts)"

definition cell_masters ::
  "'n yaml_ops \<Rightarrow> 'x xform_ops \<Rightarrow> oa_source \<Rightarrow> string \<Rightarrow> cell_key \<Rightarrow> cell_key list option" where
  "cell_masters Y T S view_name key =
     (case sr_yaml_path_map S (fst key) of
        None \<Rightarrow> None
      | Some yaml_path \<Rightarrow>
          (case fst (cell_to_yaml Y T S (fst key) (snd key) view_name yaml_path []) of
             Inl e \<Rightarrow> None
           | Inr sch_cv \<Rightarrow> Some (master_keys S (map snd (cv_instances (cv_fields sch_cv))))))"

definition places :: "'n yaml_ops \<Rightarrow> 'x xform_ops \<Rightarrow> oa_source \<Rightarrow> string \<Rightarrow> (cell_key \<times> cell_key) set" where
  "places Y T S view_name = {(k, k'). \<exists>ks. cell_masters Y T S view_name k = Some ks \<and> k' \<in> set ks}"

definition cells_below :: "'n yaml_ops \<Rightarrow> 'x xform_ops \<Rightarrow> oa_source \<Rightarrow> string \<Rightarrow> cell_key \<Rightarrow> cell_key set" where
  "cells_below Y T S view_name key = (places Y T S view_name)\<^sup>* `` {key}"

lemma put_file_result: "fst (put_file S f t out) = fst (put_file S f t [])"
  by (simp add: put_file_def)

lemma read_view_result: "fst (read_view_to_file Y T S l c v f out) = fst (read_view_to_file Y T S l c v f [])"
  using put_file_result [of S f _ out]
  by (auto simp: read_view_to_file_def put_file_def split: sum.splits prod.splits)

lemma write_symbols_result:
  "fst (write_symbols Y T S l c d vs out) = fst (write_symbols Y T S l c d vs out')"
proof (induction vs arbitrary: out out')
  case (Cons v vs)
  let ?f = "path_join d (c @ ''.'' @ fst v @ ''.yaml'')"
  show ?case
  proof (cases "snd v")
    case True
    obtain r out1 out2 where "read_view_to_file Y T S l c (fst v) ?f out = (r, out1)"
      and "read_view_to_file Y T S l c (fst v) ?f out' = (r, out2)"
      using read_view_result [of Y T S l c "fst v" ?f out] read_view_result [of Y T S l c "fst v" ?f out']
      by (metis fst_conv surj_pair)
    then show ?thesis using Cons.IH True by (cases v; cases r) auto
  next
    case False
    then show ?thesis using Cons.IH by (cases v) auto
  qed
qed simp

lemma cell_to_yaml_result: "fst (cell_to_yaml Y T S l c v p out) = fst (cell_to_yaml Y T S l c v p [])"
proof -
  let ?d = "fs_canonical (sr_files S) p"
  let ?f = "path_join ?d (c @ ''.yaml'')"
  obtain r out1 out2 where r: "read_view_to_file Y T S l c v ?f out = (r, out1)"
    "read_view_to_file Y T S l c v ?f [] = (r, out2)"
    using read_view_result [of Y T S l c v ?f out] by (metis fst_conv surj_pair)
  have ws: "\<exists>s u1 u2. write_symbols Y T S l c ?d vs out1 = (s, u1) \<and> write_symbols Y T S l c ?d vs out2 = (s, u2)" for vs
    by (metis write_symbols_result fst_conv surj_pair)
  show ?thesis
  proof (cases r)
    case (Inr cv)
    show ?thesis
    proof (cases "open_library_read (sr_find_lib S) l")
      case (Inr lib)
      with \<open>r = Inr cv\<close> ws [of "the (map_of (ol_cells lib) c)"] show ?thesis
        by (cases "map_of (ol_cells lib) c") (auto simp: cell_to_yaml_def Let_def r split: sum.splits)
    qed (simp add: cell_to_yaml_def Let_def r Inr)
  qed (simp add: cell_to_yaml_def Let_def r)
qed

text \<open>
  What a successful run does: it reads cells that were not read before, each once, among them the first
  one, only such that lie below it, and all that the cells it read place.
\<close>

definition reads :: "(cell_key \<times> cell_key) set \<Rightarrow> cell_key list \<Rightarrow> read_state \<Rightarrow> read_state \<Rightarrow> bool" where
  "reads R new st st' \<longleftrightarrow> rs_out st' = rs_out st @ new \<and> rs_exclude st' = rs_exclude st \<union> set new \<and>
     distinct new \<and> set new \<inter> rs_exclude st = {} \<and> R `` set new \<subseteq> rs_exclude st'"

lemma reads_Nil: "reads R [] st st"
  by (simp add: reads_def)

lemma reads_append: "reads R new st st' \<Longrightarrow> reads R new' st' st'' \<Longrightarrow> reads R (new @ new') st st''"
  by (auto simp: reads_def)

lemma masters_of_insts:
  assumes "cell_to_yaml Y T S (fst k) (snd k) v p out = (Inr cv, out')" and "sr_yaml_path_map S (fst k) = Some p"
  shows "cell_masters Y T S v k = Some (master_keys S (map snd (cv_instances (cv_fields cv))))"
  using cell_to_yaml_result [of Y T S "fst k" "snd k" v p out] assms(2)
  by (simp add: cell_masters_def assms(1) flip: cell_to_yaml_result [of _ _ _ _ _ _ _ out])

lemma master_keys_simps [simp]:
  "master_keys S [] = []"
  "master_keys S (i # is) =
     (if inst_lib_name i \<notin> sr_primitive_libs S then [(inst_lib_name i, inst_cell_name i)] else []) @ master_keys S is"
  by (simp_all add: master_keys_def)

lemma read_sch_reads:
  "\<lbrakk>read_sch_helper Y T S v n key st = Some (None, st'); key \<notin> rs_exclude st\<rbrakk> \<Longrightarrow>
     \<exists>new. reads (places Y T S v) (key # new) st st' \<and> set new \<subseteq> cells_below Y T S v key"
  and read_insts_reads: "read_sch_insts Y T S v n insts st = Some (None, st') \<Longrightarrow>
     \<exists>new. reads (places Y T S v) new st st' \<and> set (master_keys S insts) \<subseteq> rs_exclude st' \<and>
       set new \<subseteq> (\<Union>k\<in>set (master_keys S insts). cells_below Y T S v k)"
proof (induction Y T S v n key st and Y T S v n insts st arbitrary: st' and st'
    rule: read_sch_helper_read_sch_insts.induct)
  case (1 Y T S v key st)
  then show ?case by simp
next
  case (2 Y T S v n key st)
  from 2(2) obtain p cv files where p: "sr_yaml_path_map S (fst key) = Some p"
    and c: "cell_to_yaml Y T S (fst key) (snd key) v p (rs_files st) = (Inr cv, files)"
    and i: "read_sch_insts Y T S v n (map snd (cv_instances (cv_fields cv)))
      (st\<lparr>rs_files := files, rs_out := rs_out st @ [key], rs_exclude := insert key (rs_exclude st)\<rparr>) = Some (None, st')"
    by (auto split: option.splits prod.splits sum.splits)
  let ?ks = "master_keys S (map snd (cv_instances (cv_fields cv)))"
  have k: "(key, k) \<in> places Y T S v \<longleftrightarrow> k \<in> set ?ks" for k
    by (simp add: places_def masters_of_insts [OF c p])
  from 2(1) [OF p c [symmetric] refl i] obtain new where
    "reads (places Y T S v) new (st\<lparr>rs_files := files, rs_out := rs_out st @ [key],
       rs_exclude := insert key (rs_exclude st)\<rparr>) st'" and "set ?ks \<subseteq> rs_exclude st'"
    and below: "set new \<subseteq> (\<Union>k\<in>set ?ks. cells_below Y T S v k)" by blast
  with 2(3) have "reads (places Y T S v) (key # new) st st'"
    by (auto simp: reads_def k Image_def)
  moreover have "set new \<subseteq> cells_below Y T S v key"
    using below by (auto simp: cells_below_def k [symmetric] intro: converse_rtrancl_into_rtrancl)
  ultimately show ?case by blast
next
  case (3 Y T S v n st)
  then show ?case using reads_Nil by fastforce
next
  case (4 Y T S v n inst insts st)
  let ?k = "(inst_lib_name inst, inst_cell_name inst)"
  show ?case
  proof (cases "?k \<notin> rs_exclude st \<and> inst_lib_name inst \<notin> sr_primitive_libs S")
    case True
    with 4(4) obtain st1 where h: "read_sch_helper Y T S v n ?k st = Some (None, st1)"
      and i: "read_sch_insts Y T S v n insts st1 = Some (None, st')"
      by (auto split: option.splits prod.splits)
    from 4(1) [OF refl True h] True obtain new1 where r1: "reads (places Y T S v) (?k # new1) st st1"
      "set new1 \<subseteq> cells_below Y T S v ?k" by blast
    from 4(2) [OF refl True h _ _ i] obtain new2 where r2: "reads (places Y T S v) new2 st1 st'"
      "set (master_keys S insts) \<subseteq> rs_exclude st'"
      "set new2 \<subseteq> (\<Union>k\<in>set (master_keys S insts). cells_below Y T S v k)" by blast
    have "?k \<in> rs_exclude st'" using r1 r2 by (auto simp: reads_def)
    moreover have "?k \<in> cells_below Y T S v ?k" by (simp add: cells_below_def)
    ultimately show ?thesis using True reads_append [OF r1(1) r2(1)] r1(2) r2(2,3)
      by (intro exI [of _ "(?k # new1) @ new2"]) auto
  next
    case False
    with 4(4) have i: "read_sch_insts Y T S v n insts st = Some (None, st')" by (auto simp: Let_def)
    from 4(3) [OF refl False i] obtain new where "reads (places Y T S v) new st st'"
      "set (master_keys S insts) \<subseteq> rs_exclude st'"
      "set new \<subseteq> (\<Union>k\<in>set (master_keys S insts). cells_below Y T S v k)" by blast
    with False show ?thesis by (intro exI [of _ new]) (auto simp: reads_def)
  qed
qed

lemma masters_read:
  assumes "cell_masters Y T S v key \<noteq> None"
  obtains p cv files where "sr_yaml_path_map S (fst key) = Some p"
    and "cell_to_yaml Y T S (fst key) (snd key) v p out = (Inr cv, files)"
proof -
  from assms obtain p cv where p: "sr_yaml_path_map S (fst key) = Some p"
    and "fst (cell_to_yaml Y T S (fst key) (snd key) v p []) = Inr cv"
    by (cases "sr_yaml_path_map S (fst key)";
        cases "fst (cell_to_yaml Y T S (fst key) (snd key) v (the (sr_yaml_path_map S (fst key))) [])")
       (auto simp: cell_masters_def)
  with cell_to_yaml_result [of Y T S "fst key" "snd key" v p out] show ?thesis
    by (intro that [OF p, of cv "snd (cell_to_yaml Y T S (fst key) (snd key) v p out)"]) (simp add: prod_eq_iff)
qed

lemma reads_mono: "reads R new st st' \<Longrightarrow> rs_exclude st \<subseteq> rs_exclude st'"
  by (auto simp: reads_def)

text \<open>
  The fuel that is enough: the number of the cells that have not been read.  \<open>D\<close> is a finite set
  of cells that can be read, and that place only cells of it.
\<close>

lemma read_sch_total:
  assumes D: "finite D" "places Y0 T0 S0 v0 `` D \<subseteq> D" "\<forall>k\<in>D. cell_masters Y0 T0 S0 v0 k \<noteq> None"
  shows "\<lbrakk>Y = Y0; T = T0; S = S0; v = v0; key \<in> D; key \<notin> rs_exclude st; card (D - rs_exclude st) \<le> n\<rbrakk> \<Longrightarrow>
     \<exists>st'. read_sch_helper Y T S v n key st = Some (None, st')"
    and "\<lbrakk>Y = Y0; T = T0; S = S0; v = v0; set (master_keys S insts) \<subseteq> D; card (D - rs_exclude st) \<le> n\<rbrakk> \<Longrightarrow>
     \<exists>st'. read_sch_insts Y T S v n insts st = Some (None, st')"
proof (induction Y T S v n key st and Y T S v n insts st rule: read_sch_helper_read_sch_insts.induct)
  case (1 Y T S v key st)
  then have "card (D - rs_exclude st) = 0" by simp
  with D(1) 1(5,6) show ?case by auto
next
  case (2 Y T S v n key st)
  from D(3) 2(2-6) have "cell_masters Y T S v key \<noteq> None" by blast
  then obtain p cv files where p: "sr_yaml_path_map S (fst key) = Some p"
    and c: "cell_to_yaml Y T S (fst key) (snd key) v p (rs_files st) = (Inr cv, files)"
    by (rule masters_read)
  let ?ks = "master_keys S (map snd (cv_instances (cv_fields cv)))"
  let ?st = "st\<lparr>rs_files := files, rs_out := rs_out st @ [key], rs_exclude := insert key (rs_exclude st)\<rparr>"
  have "set ?ks \<subseteq> places Y T S v `` {key}"
    by (auto simp: places_def masters_of_insts [OF c p])
  with D(2) 2(2-6) have ks: "set ?ks \<subseteq> D" by auto
  have "card (D - insert key (rs_exclude st)) < card (D - rs_exclude st)"
    using D(1) 2(6,7) by (intro psubset_card_mono) auto
  with 2(8) have "card (D - rs_exclude ?st) \<le> n" by simp
  from 2(1) [OF p c [symmetric] refl 2(2-5) ks this] show ?case
    by (auto simp: p c)
next
  case (3 Y T S v n st)
  then show ?case by simp
next
  case (4 Y T S v n inst insts st)
  let ?k = "(inst_lib_name inst, inst_cell_name inst)"
  show ?case
  proof (cases "?k \<notin> rs_exclude st \<and> inst_lib_name inst \<notin> sr_primitive_libs S")
    case True
    from 4(8) True have "?k \<in> D" and ks: "set (master_keys S insts) \<subseteq> D" by auto
    from 4(1) [OF refl True 4(4-7) this(1) _ 4(9)] True obtain st1
      where h: "read_sch_helper Y T S v n ?k st = Some (None, st1)" by auto
    with read_sch_reads [OF h] True have "rs_exclude st \<subseteq> rs_exclude st1" by (auto dest: reads_mono)
    then have "card (D - rs_exclude st1) \<le> card (D - rs_exclude st)"
      using D(1) by (intro card_mono) auto
    with 4(9) have "card (D - rs_exclude st1) \<le> n" by simp
    from 4(2) [OF refl True h refl refl 4(4-7) ks this] True h show ?thesis by auto
  next
    case False
    from 4(8) have "set (master_keys S insts) \<subseteq> D" by auto
    from 4(3) [OF refl False 4(4-7) this 4(9)] False show ?thesis by (auto simp: Let_def)
  qed
qed

lemma cells_below_closed: "places Y T S v `` cells_below Y T S v k \<subseteq> cells_below Y T S v k"
  by (auto simp: cells_below_def intro: rtrancl_into_rtrancl)

lemma cells_below_least: "k \<in> A \<Longrightarrow> places Y T S v `` A \<subseteq> A \<Longrightarrow> cells_below Y T S v k \<subseteq> A"
  using Image_closed_trancl [of "places Y T S v" A] by (auto simp: cells_below_def)

lemma read_sch_recursive_out:
  assumes "read_sch_recursive Y T S n lib cell view = Some (None, st)"
  shows "distinct (rs_out st)" and "set (rs_out st) = cells_below Y T S view (lib, cell)"
    and "rs_out st \<noteq> []" and "hd (rs_out st) = (lib, cell)"
proof -
  from read_sch_reads [OF assms [unfolded read_sch_recursive_def]] obtain new
    where r: "reads (places Y T S view) ((lib, cell) # new) read_begin st"
      and below: "set new \<subseteq> cells_below Y T S view (lib, cell)" by (auto simp: read_begin_def)
  then have out: "rs_out st = (lib, cell) # new" "rs_exclude st = insert (lib, cell) (set new)"
    and closed: "places Y T S view `` set (rs_out st) \<subseteq> set (rs_out st)" and d: "distinct (rs_out st)"
    by (auto simp: reads_def read_begin_def)
  from out d show "distinct (rs_out st)" "rs_out st \<noteq> []" "hd (rs_out st) = (lib, cell)" by simp_all
  have "(lib, cell) \<in> cells_below Y T S view (lib, cell)" by (simp add: cells_below_def)
  with below cells_below_least [OF _ closed, of "(lib, cell)"] show "set (rs_out st) = cells_below Y T S view (lib, cell)"
    by (auto simp: out)
qed

text \<open>
  When a cell is read with its hierarchy, the result names every cell below it that belongs to no
  primitive library, and no other, each once, and itself first.
\<close>

theorem read_sch_recursive_correct:
  assumes "read_sch_recursive Y T S n lib cell view = Some (None, st)"
  shows "distinct (rs_out st) \<and> set (rs_out st) = cells_below Y T S view (lib, cell) \<and>
    hd (rs_out st) = (lib, cell)"
  using read_sch_recursive_out [OF assms] by blast

text \<open>
  C2.  Reading a hierarchy comes to an end, also when its cells place each other in a circle: if the cells
  below the first one are finitely many and each of them can be read, all of them are read, with a depth of
  recursion that their number bounds.
\<close>

theorem read_sch_recursive_total:
  assumes "finite (cells_below Y T S view (lib, cell))"
    and "\<forall>k\<in>cells_below Y T S view (lib, cell). cell_masters Y T S view k \<noteq> None"
    and "card (cells_below Y T S view (lib, cell)) \<le> n"
  shows "\<exists>st. read_sch_recursive Y T S n lib cell view = Some (None, st) \<and>
    set (rs_out st) = cells_below Y T S view (lib, cell)"
proof -
  have root: "(lib, cell) \<in> cells_below Y T S view (lib, cell)" by (simp add: cells_below_def)
  obtain st where "read_sch_recursive Y T S n lib cell view = Some (None, st)"
    using read_sch_total(1) [OF assms(1) cells_below_closed assms(2) refl refl refl refl root, of read_begin n] assms(3)
    by (auto simp: read_sch_recursive_def read_begin_def)
  with read_sch_recursive_out(2) [OF this] show ?thesis by blast
qed

section \<open>A library\<close>

text \<open>Two cells that place each other; the second one has a symbol.\<close>

definition example_box :: oa_box where
  "example_box = \<lparr>ob_left = 0, ob_bottom = 0, ob_right = 4, ob_top = 4\<rparr>"

definition example_design :: "string \<Rightarrow> oa_design" where
  "example_design master = \<lparr>od_bbox = example_box, od_terms = [], od_shapes = [],
     od_insts = [\<lparr>oi_name = ''X'', oi_lib = ''l'', oi_cell = master, oi_view = ''symbol'',
       oi_xform = \<lparr>ot_xOffset = 0, ot_yOffset = 0, ot_orient = Oac_R0\<rparr>, oi_bbox = example_box,
       oi_props = [], oi_inst_terms = [(''A'', ''n'')], oi_has_pin = False\<rparr>],
     od_props = [], od_app_defs = []\<rparr>"

definition example_source :: oa_source where
  "example_source = \<lparr>
     sr_open = (\<lambda>lib cell view ty mode. Inr (if cell = ''a'' then Some (example_design ''b'')
       else if cell = ''b'' then Some (example_design ''a'') else None)),
     sr_find_lib = (\<lambda>lib. Some \<lparr>ol_get_access = True, ol_path = ''/l'',
       ol_cells = [(''a'', [(''schematic'', False)]), (''b'', [(''schematic'', False), (''symbol'', True)])]\<rparr>),
     sr_files = \<lparr>fs_is_file = (\<lambda>f. False), fs_read = (\<lambda>f. []), fs_canonical = (\<lambda>f. f)\<rparr>,
     sr_writable = (\<lambda>f. True), sr_yaml_path_map = [''l'' \<mapsto> ''/y''], sr_primitive_libs = {''prim''}\<rparr>"

lemma example_read:
  assumes "c = ''a'' \<and> m = ''b'' \<or> c = ''b'' \<and> m = ''a''"
  shows "\<exists>i cv. read_sch_cellview T (sr_open example_source) lib c view libs = Inr cv \<and>
    cv_instances (cv_fields cv) = [(''X'', i)] \<and> inst_lib_name i = ''l'' \<and> inst_cell_name i = m"
  using assms
  by (auto simp: read_sch_cellview_def open_design_def example_source_def example_design_def example_box_def
      read_design_def make_sch_cellview_def insert_instance_def read_instance_pair_def oa_read_instance_def
      oa_get_xform_def make_instance_def Let_def sm_emplace_def sv_insert_unique_def sv_lower_bound_def
      sv_insert_force_def)

lemma example_cell:
  fixes T :: "'x xform_ops"
  assumes "c = ''a'' \<and> m = ''b'' \<or> c = ''b'' \<and> m = ''a''"
  shows "cell_masters Y T example_source ''schematic'' (''l'', c) = Some [(''l'', m)]"
proof -
  obtain i :: "'x sch_instance" and cv :: "'x sch_cellview" where r: "read_sch_cellview T (sr_open example_source) ''l'' c ''schematic'' {''prim''} = Inr cv"
    and i: "cv_instances (cv_fields cv) = [(''X'', i)]" "inst_lib_name i = ''l''" "inst_cell_name i = m"
    using example_read [OF assms] by blast
  obtain cv' :: "'x sch_cellview" where s: "read_sch_cellview T (sr_open example_source) ''l'' c ''symbol'' {''prim''} = Inr cv'"
    using example_read [OF assms] by blast
  have src: "sr_primitive_libs example_source = {''prim''}" "sr_yaml_path_map example_source ''l'' = Some ''/y''"
    "sr_writable example_source f" "fs_canonical (sr_files example_source) f = f"
    "open_library_read (sr_find_lib example_source) ''l'' = Inr \<lparr>ol_get_access = True, ol_path = ''/l'',
       ol_cells = [(''a'', [(''schematic'', False)]), (''b'', [(''schematic'', False), (''symbol'', True)])]\<rparr>" for f
    by (simp_all add: example_source_def open_library_read_def)
  show ?thesis
    using assms i r s
    by (auto simp: cell_masters_def cell_to_yaml_def read_view_to_file_def put_file_def Let_def src)
qed

lemma example_below: "cells_below Y T example_source ''schematic'' (''l'', ''a'') = {(''l'', ''a''), (''l'', ''b'')}"
proof
  have p: "((''l'', c), k) \<in> places Y T example_source ''schematic'' \<longleftrightarrow> k = (''l'', m)"
    if "c = ''a'' \<and> m = ''b'' \<or> c = ''b'' \<and> m = ''a''" for c m k
    by (simp add: places_def example_cell [OF that])
  show "cells_below Y T example_source ''schematic'' (''l'', ''a'') \<subseteq> {(''l'', ''a''), (''l'', ''b'')}"
    by (rule cells_below_least) (auto simp: p)
  have "((''l'', ''a''), (''l'', ''b'')) \<in> places Y T example_source ''schematic''"
    by (simp add: p [of "''a''" "''b''"])
  then show "{(''l'', ''a''), (''l'', ''b'')} \<subseteq> cells_below Y T example_source ''schematic'' (''l'', ''a'')"
    by (auto simp: cells_below_def)
qed

theorem read_sch_recursive_total_witness:
  "\<exists>st. read_sch_recursive (doc_ops D_null) pair_ops example_source 2 ''l'' ''a'' ''schematic'' = Some (None, st) \<and>
     set (rs_out st) = {(''l'', ''a''), (''l'', ''b'')}"
  using read_sch_recursive_total [of "doc_ops D_null" pair_ops example_source "''schematic''" "''l''" "''a''" 2]
  by (simp add: example_below example_cell)

text \<open>The example of a run that the next statement is applied to.\<close>

lemma example_run:
  "\<exists>st. read_sch_recursive (doc_ops D_null) pair_ops example_source 2 ''l'' ''a'' ''schematic'' = Some (None, st)"
  using read_sch_total(1) [of "{(''l'', ''a''), (''l'', ''b'')}" "doc_ops D_null" pair_ops example_source "''schematic''",
      OF _ _ _ refl refl refl refl, of "(''l'', ''a'')" read_begin 2]
    cells_below_closed [of "doc_ops D_null" pair_ops example_source "''schematic''" "(''l'', ''a'')"]
  by (simp add: example_below example_cell read_sch_recursive_def read_begin_def)

theorem read_sch_recursive_correct_witness:
  "\<exists>st. read_sch_recursive (doc_ops D_null) pair_ops example_source 2 ''l'' ''a'' ''schematic'' = Some (None, st) \<and>
     distinct (rs_out st) \<and> set (rs_out st) = {(''l'', ''a''), (''l'', ''b'')}"
proof -
  from example_run obtain st where st: "read_sch_recursive (doc_ops D_null) pair_ops example_source 2 ''l'' ''a'' ''schematic''
      = Some (None, st)" ..
  with read_sch_recursive_correct [OF st] show ?thesis by (auto simp: example_below)
qed

section \<open>Cells that are read twice\<close>

lemma read_sch_helper_any:
  assumes "read_sch_helper Y T S v n key st = Some (None, st')"
  shows "\<exists>new. rs_out st' = rs_out st @ key # new \<and> rs_exclude st' = rs_exclude st \<union> set (key # new) \<and>
    places Y T S v `` set (key # new) \<subseteq> rs_exclude st'"
proof (cases n)
  case 0
  with assms show ?thesis by simp
next
  case (Suc n')
  with assms obtain p cv files where p: "sr_yaml_path_map S (fst key) = Some p"
    and c: "cell_to_yaml Y T S (fst key) (snd key) v p (rs_files st) = (Inr cv, files)"
    and i: "read_sch_insts Y T S v n' (map snd (cv_instances (cv_fields cv)))
      (st\<lparr>rs_files := files, rs_out := rs_out st @ [key], rs_exclude := insert key (rs_exclude st)\<rparr>) = Some (None, st')"
    by (auto split: option.splits prod.splits sum.splits)
  have k: "(key, k) \<in> places Y T S v \<longleftrightarrow> k \<in> set (master_keys S (map snd (cv_instances (cv_fields cv))))" for k
    by (simp add: places_def masters_of_insts [OF c p])
  have img: "places Y T S v `` set (key # new)
      = set (master_keys S (map snd (cv_instances (cv_fields cv)))) \<union> places Y T S v `` set new" for new
  proof -
    have "places Y T S v `` {key} = set (master_keys S (map snd (cv_instances (cv_fields cv))))"
      by (rule set_eqI) (simp add: k)
    then show ?thesis using Image_Un [of "places Y T S v" "{key}" "set new"] by simp
  qed
  from read_insts_reads [OF i] obtain new where
    r: "reads (places Y T S v) new (st\<lparr>rs_files := files, rs_out := rs_out st @ [key],
       rs_exclude := insert key (rs_exclude st)\<rparr>) st'"
      "set (master_keys S (map snd (cv_instances (cv_fields cv)))) \<subseteq> rs_exclude st'" by blast
  then show ?thesis unfolding reads_def
    by (intro exI [of _ new] conjI; (unfold img)?) simp_all
qed

text \<open>What has been read is closed under the masters.\<close>

definition read_closed :: "(cell_key \<times> cell_key) set \<Rightarrow> read_state \<Rightarrow> bool" where
  "read_closed R st \<longleftrightarrow> rs_exclude st = set (rs_out st) \<and> R `` rs_exclude st \<subseteq> rs_exclude st"

lemma read_cells_out:
  assumes "read_cells Y T S lib v n cells st = Some (None, st')" and "read_closed (places Y T S v) st"
  shows "\<exists>new. rs_out st' = rs_out st @ new \<and> read_closed (places Y T S v) st' \<and>
    (\<forall>c\<in>set cells. (lib, c) \<in> set new) \<and>
    ((\<exists>j<length cells. (lib, cells ! j) \<in> rs_exclude st \<union> (\<Union>i<j. cells_below Y T S v (lib, cells ! i))) \<longrightarrow>
       \<not> distinct (rs_out st'))"
  using assms
proof (induction cells arbitrary: st)
  case Nil
  then show ?case by simp
next
  case (Cons c cells)
  let ?R = "places Y T S v"
  from Cons.prems(1) obtain st1 where h: "read_sch_helper Y T S v n (lib, c) st = Some (None, st1)"
    and rest: "read_cells Y T S lib v n cells st1 = Some (None, st')"
    by (auto split: option.splits prod.splits)
  from read_sch_helper_any [OF h] obtain new where new: "rs_out st1 = rs_out st @ (lib, c) # new"
    "rs_exclude st1 = rs_exclude st \<union> set ((lib, c) # new)" "?R `` set ((lib, c) # new) \<subseteq> rs_exclude st1" by blast
  then have closed: "read_closed ?R st1"
    using Cons.prems(2) unfolding read_closed_def new(2) Image_Un by (simp add: new(1)) blast
  from Cons.IH [OF rest closed] obtain more where more: "rs_out st' = rs_out st1 @ more" "read_closed ?R st'"
    "\<forall>c\<in>set cells. (lib, c) \<in> set more"
    "(\<exists>j<length cells. (lib, cells ! j) \<in> rs_exclude st1 \<union> (\<Union>i<j. cells_below Y T S v (lib, cells ! i))) \<longrightarrow>
       \<not> distinct (rs_out st')" by blast
  have below: "cells_below Y T S v (lib, c) \<subseteq> rs_exclude st1"
  proof (rule cells_below_least)
    show "(lib, c) \<in> rs_exclude st1" by (simp add: new(2))
    show "?R `` rs_exclude st1 \<subseteq> rs_exclude st1" using closed unfolding read_closed_def by (rule conjunct2)
  qed
  have "\<not> distinct (rs_out st')"
    if j: "j < length (c # cells)"
      and m: "(lib, (c # cells) ! j) \<in> rs_exclude st \<union> (\<Union>i<j. cells_below Y T S v (lib, (c # cells) ! i))" for j
  proof (cases j)
    case 0
    with m Cons.prems(2) show ?thesis by (auto simp: more(1) new(1) read_closed_def)
  next
    case (Suc j')
    have "(lib, cells ! j') \<in> rs_exclude st1 \<union> (\<Union>i<j'. cells_below Y T S v (lib, cells ! i))"
      using m below new(2) by (auto simp: Suc lessThan_Suc_eq_insert_0)
    with more(4) j Suc show ?thesis by auto
  qed
  then have rep: "(\<exists>j<length (c # cells). (lib, (c # cells) ! j) \<in>
      rs_exclude st \<union> (\<Union>i<j. cells_below Y T S v (lib, (c # cells) ! i))) \<longrightarrow> \<not> distinct (rs_out st')" by blast
  show ?case
    by (intro exI [of _ "((lib, c) # new) @ more"] conjI; (rule rep)?) (use more new(1) in auto)
qed

text \<open>
  When a library is read cell by cell, a cell below an earlier one is read again: the result
  names it twice.
\<close>

theorem read_library_repeats:
  assumes "read_library Y T S n lib view = Some (None, st)" and "get_cells S lib = Inr cells"
    and "i < j" and "j < length cells" and "(lib, cells ! j) \<in> cells_below Y T S view (lib, cells ! i)"
  shows "\<not> distinct (rs_out st)"
proof -
  have "read_cells Y T S lib view n cells read_begin = Some (None, st)"
    using assms(1,2) by (simp add: read_library_def)
  from read_cells_out [OF this] assms(3-5) show ?thesis
    by (auto simp: read_closed_def read_begin_def)
qed

text \<open>A library of cells of \<open>D\<close> is read to the end.\<close>

lemma read_cells_total:
  assumes D: "finite D" "places Y T S v `` D \<subseteq> D" "\<forall>k\<in>D. cell_masters Y T S v k \<noteq> None"
    and "\<forall>c\<in>set cells. (lib, c) \<in> D"
  shows "\<exists>st'. read_cells Y T S lib v (Suc (card D)) cells st = Some (None, st')"
  using assms(4)
proof (induction cells arbitrary: st)
  case (Cons c cells)
  then have c: "(lib, c) \<in> D" by simp
  with D(3) have "cell_masters Y T S v (lib, c) \<noteq> None" by blast
  then obtain p cv files where "sr_yaml_path_map S (fst (lib, c)) = Some p"
    and "cell_to_yaml Y T S (fst (lib, c)) (snd (lib, c)) v p (rs_files st) = (Inr cv, files)"
    by (rule masters_read)
  then have p: "sr_yaml_path_map S lib = Some p" and r: "cell_to_yaml Y T S lib c v p (rs_files st) = (Inr cv, files)"
    by simp_all
  have "set (master_keys S (map snd (cv_instances (cv_fields cv)))) \<subseteq> places Y T S v `` {(lib, c)}"
    using masters_of_insts [of Y T S "(lib, c)" v p "rs_files st"] by (auto simp: places_def r p)
  with D(2) c have "set (master_keys S (map snd (cv_instances (cv_fields cv)))) \<subseteq> D" by auto
  moreover have "card (D - rs_exclude st') \<le> card D" for st' using D(1) by (simp add: card_mono)
  ultimately have "\<exists>st1. read_sch_insts Y T S v (card D) (map snd (cv_instances (cv_fields cv))) st' = Some (None, st1)" for st'
    using read_sch_total(2) [OF D refl refl refl refl] by blast
  then have "\<exists>st1. read_sch_helper Y T S v (Suc (card D)) (lib, c) st = Some (None, st1)" by (simp add: p r)
  then obtain st1 where "read_sch_helper Y T S v (Suc (card D)) (lib, c) st = Some (None, st1)" ..
  with Cons show ?case by (simp del: read_sch_helper.simps)
qed simp

theorem read_library_repeats_witness:
  "\<exists>st. read_library (doc_ops D_null) pair_ops example_source 3 ''l'' ''schematic'' = Some (None, st) \<and>
     \<not> distinct (rs_out st)"
proof -
  let ?D = "{(''l'', ''a''), (''l'', ''b'')}"
  have cells: "get_cells example_source ''l'' = Inr [''a'', ''b'']"
    by (simp add: get_cells_def oa_guarded_def open_library_read_def example_source_def)
  have "\<exists>st. read_cells (doc_ops D_null) pair_ops example_source ''l'' ''schematic'' (Suc (card ?D)) [''a'', ''b''] read_begin
      = Some (None, st)"
    using cells_below_closed [of "doc_ops D_null" pair_ops example_source "''schematic''" "(''l'', ''a'')"]
    by (intro read_cells_total) (auto simp: example_below example_cell)
  then obtain st where st: "read_library (doc_ops D_null) pair_ops example_source 3 ''l'' ''schematic'' = Some (None, st)"
    by (auto simp: read_library_def cells numeral_3_eq_3)
  with read_library_repeats [OF st cells, of 0 1] show ?thesis by (simp add: example_below)
qed

end
