(* ===== verification/Oa_Write.thy ===== *)
theory Oa_Write
  imports Oa_Objects Writers
begin

text \<open>
  Writing a schematic or a symbol to OpenAccess: the first half of \<^verbatim>\<open>src/cbag/oa/oa_write.cpp\<close>.  What
  the code does to a design is the sequence of calls that change it, with the arguments of the call as the
  code passes them, and in this order.  What OpenAccess makes of them is not modelled here.  An object is
  named by the position of the call that created it, a net or a terminal by its name.  The names of
  libraries, cells, views and instances are those of the program.
\<close>

section \<open>Calls\<close>

text \<open>Via parameters, as they are set one by one on an \<^verbatim>\<open>oaViaParam\<close>.\<close>

record oa_via_param =
  ov_cut_columns :: cnt_t
  ov_cut_rows :: cnt_t
  ov_cut_width :: int
  ov_cut_height :: int
  ov_cut_spacing :: "int \<times> int"
  ov_layer1_enc :: "int \<times> int"
  ov_layer2_enc :: "int \<times> int"
  ov_layer1_offset :: "int \<times> int"
  ov_layer2_offset :: "int \<times> int"

text \<open>The arguments of the calls that create shapes.  An arc is given by the box of its ellipse.\<close>

datatype oa_shape_args =
    Make_rect oa_box
  | Make_polygon "oa_point list"
  | Make_arc oa_box "64 word" "64 word"
  | Make_donut oa_point dist_t dist_t
  | Make_ellipse oa_box
  | Make_line "oa_point list"
  | Make_path dist_t "oa_point list" oa_enum dist_t dist_t
  | Make_text string oa_text
  | Make_eval_text string oa_text string

datatype oa_named = Oac_center_center_text_align | Oac_stick_font | Oac_roman_font

datatype oa_ref = Ref_design | Ref_made nat

datatype oa_call =
    Oc_block_create
  | Oc_net_create string "oa_enum option"
  | Oc_term_create string string "oa_enum option"
  | Oc_pin_create string bool
  | Oc_shape_create lay_t purp_t oa_shape_args
  | Oc_text_create lay_t purp_t string oa_point oa_named oa_orient oa_named int
  | Oc_scalar_inst_create string string string string oa_transform
  | Oc_vector_inst_create string string string string cnt_t cnt_t oa_transform
  | Oc_array_inst_create string string string string oa_transform int int cnt_t cnt_t
  | Oc_inst_term_create string nat string
  | Oc_add_to_pin nat nat
  | Oc_add_to_net nat string
  | Oc_attr_display_create string oa_attr_disp
  | Oc_prop_create oa_ref string oa_prop_value
  | Oc_int_app_def_get string
  | Oc_string_app_def_get string
  | Oc_app_def_set string oa_app_def_value
  | Oc_color_set nat "8 word"
  | Oc_std_via_create string oa_transform oa_via_param
  | Oc_layer_blockage_create oa_enum lay_t "oa_point list"
  | Oc_area_blockage_create "oa_point list"
  | Oc_pr_boundary_create "oa_point list"
  | Oc_snap_boundary_create "oa_point list"
  | Oc_cell_data string string string string string
  | Oc_cellview_data string string string string string string string
  | Oc_prop_set_value string int
  | Oc_save
  | Oc_close

type_synonym oa_calls = "oa_call list"

text \<open>
  What the code asks OpenAccess while it writes.  A net may be there only implicitly, as a bit of another
  one.  The master of an instance gives its terminals, each with the box of the first figure of its first
  pin, if there is such a figure; \<open>en_center\<close> is \<^verbatim>\<open>transform\<close> followed by \<^verbatim>\<open>getCenter\<close> on a box.
\<close>

datatype net_status = No_net | Implicit_net | Explicit_net

type_synonym oa_master = "(string \<times> oa_box option) list"

record oa_env =
  en_find_net :: "oa_calls \<Rightarrow> string \<Rightarrow> net_status"
  en_find_term :: "oa_calls \<Rightarrow> string \<Rightarrow> bool"
  en_find_int_app_def :: "string \<Rightarrow> bool"
  en_find_string_app_def :: "string \<Rightarrow> bool"
  en_find_prop :: "oa_calls \<Rightarrow> string \<Rightarrow> bool"
  en_find_via_def :: "string \<Rightarrow> bool"
  en_master :: "string \<Rightarrow> string \<Rightarrow> string \<Rightarrow> oa_master option"
  en_center :: "oa_transform \<Rightarrow> oa_box \<Rightarrow> oa_point"
  en_timestamp :: "oa_calls \<Rightarrow> int"
  en_is_rectangle :: "oa_point list \<Rightarrow> bool"
  en_bbox :: "oa_point list \<Rightarrow> oa_box"

section \<open>Nets, shapes and properties\<close>

definition ensure_net :: "oa_env \<Rightarrow> string \<Rightarrow> oa_enum option \<Rightarrow> oa_calls \<Rightarrow> oa_calls" where
  "ensure_net E net stype calls =
     (if en_find_net E calls net = No_net \<or> en_find_net E calls net = Implicit_net
      then calls @ [Oc_net_create net stype] else calls)"

definition add_shape_to_net :: "oa_env \<Rightarrow> nat \<Rightarrow> string \<Rightarrow> oa_calls \<Rightarrow> oa_calls" where
  "add_shape_to_net E p net calls =
     (if net \<noteq> [] then ensure_net E (c_str net) None calls @ [Oc_add_to_net p (c_str net)] else calls)"

definition text_args :: "'a text_base_scheme \<Rightarrow> oa_text" where
  "text_args v =
     \<lparr>ox_origin = get_point (tx_origin v), ox_alignment = to_oa_enum align_code (tx_alignment v),
      ox_orient = get_orient (tx_orient v), ox_font = to_oa_enum font_code (tx_font v),
      ox_height = tx_height v, ox_overbar = to_oa_boolean (tx_overbar v),
      ox_visible = to_oa_boolean (tx_visible v), ox_drafting = to_oa_boolean (tx_drafting v)\<rparr>"

fun make_shape :: "oa_env \<Rightarrow> shape_t \<Rightarrow> oa_calls \<Rightarrow> oa_calls" where
  "make_shape E (Shape_rectangle v) calls =
     add_shape_to_net E (length calls) (sh_net v)
       (calls @ [Oc_shape_create (sh_layer v) (sh_purpose v) (Make_rect (get_box (rect_bbox v)))])"
| "make_shape E (Shape_polygon v) calls =
     add_shape_to_net E (length calls) (sh_net v)
       (calls @ [Oc_shape_create (sh_layer v) (sh_purpose v) (Make_polygon (get_point_arr (poly_points v)))])"
| "make_shape E (Shape_arc v) calls =
     add_shape_to_net E (length calls) (sh_net v)
       (calls @ [Oc_shape_create (sh_layer v) (sh_purpose v)
          (Make_arc (get_box (arc_bbox v)) (arc_ang_start v) (arc_ang_stop v))])"
| "make_shape E (Shape_donut v) calls =
     add_shape_to_net E (length calls) (sh_net v)
       (calls @ [Oc_shape_create (sh_layer v) (sh_purpose v)
          (Make_donut (get_point (donut_center v)) (donut_radius v) (donut_hole_radius v))])"
| "make_shape E (Shape_ellipse v) calls =
     add_shape_to_net E (length calls) (sh_net v)
       (calls @ [Oc_shape_create (sh_layer v) (sh_purpose v) (Make_ellipse (get_box (ell_bbox v)))])"
| "make_shape E (Shape_line v) calls =
     add_shape_to_net E (length calls) (sh_net v)
       (calls @ [Oc_shape_create (sh_layer v) (sh_purpose v) (Make_line (get_point_arr (line_points v)))])"
| "make_shape E (Shape_path v) calls =
     add_shape_to_net E (length calls) (sh_net v)
       (calls @ [Oc_shape_create (sh_layer v) (sh_purpose v)
          (Make_path (path_width v) (get_point_arr (path_points v)) (to_oa_enum style_code (path_style_of v))
             (path_begin_ext v) (path_end_ext v))])"
| "make_shape E (Shape_text v) calls =
     add_shape_to_net E (length calls) (sh_net v)
       (calls @ [Oc_shape_create (sh_layer v) (sh_purpose v) (Make_text (c_str (txt_text v)) (text_args v))])"
| "make_shape E (Shape_eval_text v) calls =
     add_shape_to_net E (length calls) (sh_net v)
       (calls @ [Oc_shape_create (sh_layer v) (sh_purpose v)
          (Make_eval_text (c_str (txt_text v)) (text_args v) (c_str (et_evaluator v)))])"

fun prop_arg :: "value_t \<Rightarrow> oa_prop_value" where
  "prop_arg (V_int v) = Oa_int_prop v"
| "prop_arg (V_double v) = Oa_double_prop v"
| "prop_arg (V_bool v) = Oa_boolean_prop (to_oa_boolean v)"
| "prop_arg (V_string v) = Oa_string_prop (c_str v)"
| "prop_arg (V_time v) = Oa_time_prop v"
| "prop_arg (V_binary name bin_val) = Oa_app_prop (c_str name) bin_val"

definition make_prop :: "oa_ref \<Rightarrow> string \<times> value_t \<Rightarrow> oa_calls \<Rightarrow> oa_calls" where
  "make_prop obj p calls = calls @ [Oc_prop_create obj (c_str (fst p)) (prop_arg (snd p))]"

definition set_int_app_def :: "oa_env \<Rightarrow> string \<Rightarrow> int \<Rightarrow> oa_calls \<Rightarrow> oa_calls" where
  "set_int_app_def E name v calls =
     (if en_find_int_app_def E name then calls else calls @ [Oc_int_app_def_get name]) @
     [Oc_app_def_set name (Oa_int_app_def v)]"

fun make_app_def :: "oa_env \<Rightarrow> string \<times> value_t \<Rightarrow> oa_calls \<Rightarrow> oa_calls outcome" where
  "make_app_def E (name, V_int v) calls = (None, set_int_app_def E (c_str name) v calls)"
| "make_app_def E (name, V_bool v) calls = (None, set_int_app_def E (c_str name) (if v then 1 else 0) calls)"
| "make_app_def E (name, V_string v) calls =
     (None, (if en_find_string_app_def E (c_str name) then calls else calls @ [Oc_string_app_def_get (c_str name)]) @
        [Oc_app_def_set (c_str name) (Oa_string_app_def (c_str v))])"
| "make_app_def E (name, v) calls = (Some Invalid_argument, calls)"

section \<open>Terminals\<close>

text \<open>The counter of pins names the instances that draw them.\<close>

fun make_pin_fig ::
  "'x xform_ops \<Rightarrow> nat \<Rightarrow> string \<Rightarrow> 'x pin_fig_t \<Rightarrow> int \<times> oa_calls \<Rightarrow> int \<times> oa_calls" where
  "make_pin_fig T pin term (Fig_rectangle operand) (cnt, calls) =
     (cnt, calls @ [Oc_shape_create (sh_layer operand) (sh_purpose operand)
              (Make_rect (get_box (rect_bbox operand))), Oc_add_to_pin (length calls) pin])"
| "make_pin_fig T pin term (Fig_object obj) (cnt, calls) =
     (let inst = po_inst obj; attr = po_attr obj in
      (cnt + 1, calls @
        [Oc_scalar_inst_create (inst_lib_name inst) (inst_cell_name inst) (inst_view_name inst)
           (''P__'' @ int_to_string cnt) (get_oa_xform T (inst_xform inst)),
         Oc_add_to_pin (length calls) pin,
         Oc_attr_display_create term
           \<lparr>oq_attribute = to_oa_enum attr_code (ta_attr_type attr), oq_layer = sh_layer attr,
            oq_purpose = sh_purpose attr, oq_text = text_args attr,
            oq_format = to_oa_enum disp_code (ta_format attr), oq_net = None\<rparr>]))"

definition create_terminal_pin ::
  "'x xform_ops \<Rightarrow> oa_env \<Rightarrow> int \<times> oa_calls \<Rightarrow> string \<times> 'x pin_fig_t pin_figure \<Rightarrow> int \<times> oa_calls" where
  "create_terminal_pin T E st pair =
     (case st of (pin_cnt, calls) \<Rightarrow>
        let term_name = c_str (fst pair); fig = snd pair;
            calls = ensure_net E term_name (Some (to_oa_enum sig_code (pf_stype fig))) calls;
            calls = calls @ [Oc_term_create term_name term_name (Some (to_oa_enum term_code (pf_ttype fig)))];
            pin = length calls;
            calls = calls @ [Oc_pin_create term_name False]
        in make_pin_fig T pin term_name (pf_obj fig) (pin_cnt, calls))"

section \<open>Data of the cell\<close>

definition dquote :: string where
  "dquote = [CHR 0x22]"

definition quoted :: "string \<Rightarrow> string" where
  "quoted s = dquote @ s @ dquote"

definition sch_conn_layer :: lay_t where "sch_conn_layer = 228"
definition sch_conn_purpose :: purp_t where "sch_conn_purpose = 4294967295"
definition sch_net_purpose :: purp_t where "sch_net_purpose = 237"
definition sch_stub_len2 :: int where "sch_stub_len2 = 5"
definition sch_net_height :: int where "sch_net_height = 10"

text \<open>The text \<^verbatim>\<open>cell_data\<close> with its argument put in.\<close>

definition cell_data :: "string \<Rightarrow> string" where
  "cell_data term_order =
     ''(promptWidth nil fieldHeight nil fieldWidth nil buttonFieldWidth nil formInitProc nil '' @
     ''doneProc nil parameters nil propList (modelLabelSet '' @ quoted '''' @ '' opPointLabelSet '' @
     quoted '''' @ '' paramLabelSet '' @ quoted '''' @ '' simInfo (nil auLvs (nil namePrefix '' @
     quoted ''X'' @ '' termOrder '' @ term_order @ '' componentName '' @ quoted ''subcircuit'' @
     '' netlistProcedure ansLvsCompPrim) auCdl (nil namePrefix '' @ quoted ''X'' @ '' termOrder '' @
     term_order @ '' componentName '' @ quoted ''subcircuit'' @
     '' netlistProcedure ansCdlSubcktCall) spectre (nil termOrder '' @ term_order @ '' componentName '' @
     quoted ''subcircuit'' @ '' netlistProcedure nil) hspiceD (nil namePrefix '' @ quoted ''X'' @ '' termOrder '' @ term_order @
     '' componentName '' @ quoted ''subcircuit'' @ '' netlistProcedure nil))))''"

text \<open>The order of tuples is lexicographic.\<close>

type_synonym cv_key = "string \<times> string \<times> string"

definition cv_key_less :: "cv_key \<Rightarrow> cv_key \<Rightarrow> bool" where
  "cv_key_less a b \<longleftrightarrow> fst a < fst b \<or> fst a = fst b \<and>
     (fst (snd a) < fst (snd b) \<or> fst (snd a) = fst (snd b) \<and> snd (snd a) < snd (snd b))"

definition dependency_set :: "'x inst_map_t \<Rightarrow> cv_key list" where
  "dependency_set insts =
     foldl (\<lambda>dep_set (name, i). fst (sv_insert_unique cv_key_less dep_set
       (inst_lib_name i, inst_cell_name i, inst_view_name i))) [] insts"

text \<open>The loop over the entries after the first one writes the name of the cell where the view belongs.\<close>

definition dependencies_text :: "cv_key list \<Rightarrow> string" where
  "dependencies_text dep_set =
     ''('' @
     (case dep_set of
        [] \<Rightarrow> []
      | (lib, cell, view) # rest \<Rightarrow>
          ''('' @ quoted lib @ '' '' @ quoted cell @ '' '' @ quoted view @ '')'' @
          concat (map (\<lambda>(lib, cell, view).
            '' ('' @ quoted lib @ '' '' @ quoted cell @ '' '' @ quoted cell @ '')'') rest)) @
     '')''"

definition write_sch_cell_data ::
  "'x sch_cellview \<Rightarrow> string \<Rightarrow> string \<Rightarrow> string \<Rightarrow> string \<Rightarrow> oa_calls \<Rightarrow> oa_calls" where
  "write_sch_cell_data cv lib_name cell_name view_name term_order calls =
     (let dep_set = dependency_set (cv_instances (cv_fields cv));
          cdf_data_str = cell_data term_order;
          cv_cdf_data_str = dependencies_text dep_set
      in calls @
         [Oc_cell_data lib_name cell_name ''cdfData'' ''ILList'' cdf_data_str,
          Oc_cellview_data lib_name cell_name view_name ''dependency'' ''children'' ''ILList''
            cv_cdf_data_str])"

text \<open>The terminals in the order inputs, outputs, others.\<close>

definition cv_term_vec :: "(string, 'p pin_figure) smap \<Rightarrow> string list" where
  "cv_term_vec terms =
     (case foldl (\<lambda>(term_vec, tmp1, tmp2) (term_name, fig).
          (case pf_ttype fig of
             Term_input \<Rightarrow> (term_vec @ [term_name], tmp1, tmp2)
           | Term_output \<Rightarrow> (term_vec, tmp1 @ [term_name], tmp2)
           | _ \<Rightarrow> (term_vec, tmp1, tmp2 @ [term_name]))) ([], [], []) terms of
        (term_vec, tmp1, tmp2) \<Rightarrow> term_vec @ tmp1 @ tmp2)"

definition get_cv_term_order :: "('x, 'p, 's) cellview \<Rightarrow> string" where
  "get_cv_term_order cv =
     (case cv_term_vec (cv_terminals (cv_fields cv)) of
        [] \<Rightarrow> ''()''
      | t # ts \<Rightarrow> ''('' @ quoted t @ concat (map (\<lambda>t. '' '' @ quoted t) ts) @ '')'')"

section \<open>Instances\<close>

text \<open>The connection of one terminal: the net, a stub and a label on it.\<close>

definition write_inst_term ::
  "oa_env \<Rightarrow> 'x sch_instance \<Rightarrow> nat \<Rightarrow> oa_transform \<Rightarrow> string \<times> oa_box option \<Rightarrow> oa_calls
     \<Rightarrow> oa_calls outcome" where
  "write_inst_term E inst ptr oa_xform t calls =
     (case sm_lookup (inst_connections inst) (fst t) of
        None \<Rightarrow> (Some Runtime_error, calls)
      | Some net_str \<Rightarrow>
          let net = c_str net_str;
              calls = ensure_net E net None calls;
              calls = calls @ [Oc_inst_term_create net ptr (fst t)] in
          (case snd t of
             None \<Rightarrow> (Some Undefined_behaviour, calls)
           | Some pin_box \<Rightarrow>
               let (x, y) = en_center E oa_xform pin_box;
                   line = length calls;
                   calls = calls @
                     [Oc_shape_create sch_conn_layer sch_conn_purpose
                        (Make_line [(x, y), (x + 2 * sch_stub_len2, y + 2 * sch_stub_len2)]),
                      Oc_add_to_net line net];
                   txt = length calls
               in (None, calls @
                     [Oc_text_create sch_conn_layer sch_net_purpose net (x + sch_stub_len2, y + sch_stub_len2)
                        Oac_center_center_text_align Oac_R0 Oac_stick_font sch_net_height,
                      Oc_add_to_net txt net])))"

text \<open>The library and the cell of the master; the iterator that \<^verbatim>\<open>find\<close> returns is not checked.\<close>

definition inst_master ::
  "string \<Rightarrow> (string \<rightharpoonup> string) option \<Rightarrow> 'x sch_instance \<Rightarrow> (string \<times> string) result" where
  "inst_master dsn_lib rename_map inst =
     (if inst_is_primitive inst then Inr (inst_lib_name inst, inst_cell_name inst)
      else (case rename_map of
          None \<Rightarrow> Inl Undefined_behaviour
        | Some m \<Rightarrow> (case m (inst_cell_name inst) of
              None \<Rightarrow> Inl Undefined_behaviour | Some new_name \<Rightarrow> Inr (dsn_lib, new_name))))"

definition write_sch_inst ::
  "'x xform_ops \<Rightarrow> oa_env \<Rightarrow> string \<Rightarrow> (string \<rightharpoonup> string) option \<Rightarrow> string \<times> 'x sch_instance \<Rightarrow> oa_calls
     \<Rightarrow> oa_calls outcome" where
  "write_sch_inst T E dsn_lib rename_map pair =
     (let inst_name = fst pair; inst = snd pair in
      tryS (parse_cdba_name_unit inst_name) (\<lambda>nu.
      let oa_xform = get_oa_xform T (inst_xform inst) in
      tryS (inst_master dsn_lib rename_map inst) (\<lambda>(lib, cell) calls.
      let view = inst_view_name inst; name = nu_base nu; ptr = length calls;
          calls = calls @
            [if unit_is_vector nu
             then Oc_vector_inst_create lib cell view name (rg_start (nu_range nu)) (rg_stop (nu_range nu)) oa_xform
             else Oc_scalar_inst_create lib cell view name oa_xform] in
      (case en_master E lib cell view of
         None \<Rightarrow> (Some Runtime_error, calls)
       | Some terms \<Rightarrow>
           seqS (forS (write_inst_term E inst ptr oa_xform) terms calls) (\<lambda>calls.
             (None, foldl (\<lambda>calls p. make_prop (Ref_made ptr) p calls) calls (inst_params inst)))))))"

section \<open>Cellviews\<close>

text \<open>The property \<^verbatim>\<open>portOrder\<close> is replaced by the order of the terminals that was computed.\<close>

definition write_cv_prop :: "string \<Rightarrow> oa_calls \<Rightarrow> string \<times> value_t \<Rightarrow> oa_calls" where
  "write_cv_prop term_order calls p =
     (if fst p = ''portOrder'' then make_prop Ref_design (fst p, V_binary ''ILList'' term_order) calls
      else make_prop Ref_design p calls)"

definition update_timestamp :: "oa_env \<Rightarrow> int \<Rightarrow> string \<Rightarrow> oa_calls \<Rightarrow> oa_calls outcome" where
  "update_timestamp E v name calls =
     (if en_find_prop E calls name then (None, calls @ [Oc_prop_set_value name v])
      else (Some Undefined_behaviour, calls))"

definition write_sch_design ::
  "'x xform_ops \<Rightarrow> oa_env \<Rightarrow> string \<Rightarrow> string \<Rightarrow> string \<Rightarrow> bool \<Rightarrow> 'x sch_cellview
     \<Rightarrow> (string \<rightharpoonup> string) option \<Rightarrow> oa_calls outcome" where
  "write_sch_design T E lib_name cell_name view_name is_sch cv rename_map =
     (let d = cv_fields cv;
          calls = [Oc_block_create];
          term_order_str = get_cv_term_order cv;
          calls = snd (foldl (create_terminal_pin T E) (0, calls) (cv_terminals d));
          calls = (if \<not> is_sch then foldl (\<lambda>calls s. make_shape E s calls) calls (cv_shapes d) else calls) in
      seqS (forS (write_sch_inst T E lib_name rename_map) (cv_instances d) calls) (\<lambda>calls.
      let calls = foldl (write_cv_prop term_order_str) calls (cv_props d) in
      seqS (forS (make_app_def E) (cv_app_defs d) calls) (\<lambda>calls.
      let calls = calls @ [Oc_save] in
      seqS
        (if is_sch then
           let calls = write_sch_cell_data cv lib_name cell_name view_name term_order_str calls;
               num_op = 2;
               timestamp = en_timestamp E calls in
           seqS (update_timestamp E (timestamp + num_op) ''connectivityLastUpdated'' calls)
             (update_timestamp E (timestamp + num_op) ''schGeometryLastUpdated'')
         else (None, calls))
        (\<lambda>calls. (None, calls @ [Oc_save, Oc_close])))))"

text \<open>A design that was opened for writing, with the calls that it got; it is left as it is on an exception.\<close>

type_synonym oa_outcome = "oa_error option \<times> oa_calls"

definition write_sch_cellview ::
  "'x xform_ops \<Rightarrow> oa_env \<Rightarrow> unit oa_open \<Rightarrow> string \<Rightarrow> string \<Rightarrow> string \<Rightarrow> bool \<Rightarrow> 'x sch_cellview
     \<Rightarrow> (string \<rightharpoonup> string) option \<Rightarrow> oa_outcome" where
  "write_sch_cellview T E open_fn lib_name cell_name view_name is_sch cv rename_map =
     (case open_design open_fn lib_name cell_name view_name (CHR ''w'')
             (if is_sch then Oac_schematic else Oac_schematic_symbol) of
        Inl e \<Rightarrow> (Some e, [])
      | Inr dsn \<Rightarrow>
          (case write_sch_design T E lib_name cell_name view_name is_sch cv rename_map of
             (e, calls) \<Rightarrow> (map_option Cbag_error e, calls)))"

end
