(* ===== verification/Oa_Layout.thy ===== *)
theory Oa_Layout
  imports Oa_Write Lay_Cellview Held_Writer
begin

text \<open>
  Writing layouts to OpenAccess, and lists of cellviews: the second half of
  \<^verbatim>\<open>src/cbag/oa/oa_write.cpp\<close>, \<^verbatim>\<open>include/cbag/oa/oa_polygon.h\<close> and
  \<^verbatim>\<open>include/cbag/oa/oa_write_lib.h\<close>.
\<close>

section \<open>Polygons\<close>

text \<open>
  The writer of polygons is given to Boost as a container.  It holds back the last polygon, which Boost
  fills in after it was appended, until the next one comes.  Points are set without the last one if it
  repeats the first; an empty range would be read out of bounds.
\<close>

definition set_points :: "point list \<Rightarrow> oa_point list result" where
  "set_points input =
     (let pt_arr = foldl (\<lambda>arr p. arr @ [(fst p, snd p)]) [] input; n = length pt_arr in
      if n = 0 then Inl Undefined_behaviour
      else if pt_arr ! (n - 1) = pt_arr ! 0 then Inr (take (n - 1) pt_arr) else Inr pt_arr)"

record poly_writer =
  pw_layer :: lay_t
  pw_purpose :: purp_t
  pw_color :: "8 word option"
  pw_last :: "oa_point list"

definition make_poly_writer :: "lay_t \<Rightarrow> purp_t \<Rightarrow> 8 word option \<Rightarrow> poly_writer" where
  "make_poly_writer lay purp color =
     \<lparr>pw_layer = lay, pw_purpose = purp, pw_color = color, pw_last = []\<rparr>"

definition polygon_data :: "oa_env \<Rightarrow> oa_point list \<Rightarrow> oa_shape_args" where
  "polygon_data E pt_arr = (if en_is_rectangle E pt_arr then Make_rect (en_bbox E pt_arr) else Make_polygon pt_arr)"

definition set_color :: "8 word option \<Rightarrow> nat \<Rightarrow> oa_calls" where
  "set_color color ptr = (case color of None \<Rightarrow> [] | Some c \<Rightarrow> [Oc_color_set ptr c])"

definition record_last :: "oa_env \<Rightarrow> poly_writer \<Rightarrow> oa_calls \<Rightarrow> oa_calls" where
  "record_last E w calls =
     (if length (pw_last w) > 0 then
        calls @ [Oc_shape_create (pw_layer w) (pw_purpose w) (polygon_data E (pw_last w))] @
        set_color (pw_color w) (length calls)
      else calls)"

definition pw_push_back :: "oa_env \<Rightarrow> oa_point list \<Rightarrow> poly_writer \<times> oa_calls \<Rightarrow> poly_writer \<times> oa_calls" where
  "pw_push_back E v st = (case st of (w, calls) \<Rightarrow> (w\<lparr>pw_last := v\<rparr>, record_last E w calls))"

interpretation oa_held: held_writer "\<lambda>w calls. (None, record_last E w calls)" "\<lambda>v w. w\<lparr>pw_last := v\<rparr>"
    "\<lambda>v st. (None, pw_push_back E v st)" for E
  by unfold_locales (simp_all add: pw_push_back_def)

text \<open>An integer AppDef stores the byte less one, so that its default of zero is stored as -1.\<close>

definition byte_app_def_set :: "8 word \<Rightarrow> int" where
  "byte_app_def_set v = uint v - 1"

definition byte_app_def_get :: "int \<Rightarrow> 8 word" where
  "byte_app_def_get stored = word_of_int (stored + 1)"

lemma byte_app_def_round_trip: "byte_app_def_get (byte_app_def_set v) = v"
  by (simp add: byte_app_def_get_def byte_app_def_set_def)

text \<open>The layer and the color of a layer of the color map.\<close>

definition map_color :: "(lay_t \<times> lay_t \<times> cnt_t) list \<Rightarrow> lay_t \<Rightarrow> lay_t \<times> 8 word option" where
  "map_color color_map layer =
     (case map_of color_map layer of
        None \<Rightarrow> (layer, None) | Some (layer', color) \<Rightarrow> (layer', Some (ucast color)))"

definition create_lay_geometry ::
  "'x lay_ops \<Rightarrow> oa_env \<Rightarrow> (lay_t \<times> lay_t \<times> cnt_t) list \<Rightarrow> layer_t \<times> geometry \<Rightarrow> oa_calls
     \<Rightarrow> oa_calls outcome" where
  "create_lay_geometry G E color_map entry calls =
     (case map_color color_map (fst (fst entry)) of (layer, color) \<Rightarrow>
        let w = make_poly_writer layer (snd (fst entry)) color in
        (case forS (\<lambda>pts. tryS (set_points pts) (\<lambda>v st. (None, pw_push_back E v st)))
                (lo_polygons G (snd entry)) (w, calls) of
           (e, (w, calls)) \<Rightarrow> seqS (e, calls) (\<lambda>calls. (None, record_last E w calls))))"

section \<open>Instances and vias\<close>

definition create_lay_inst ::
  "'x xform_ops \<Rightarrow> ('c \<Rightarrow> string) \<Rightarrow> string \<Rightarrow> string \<Rightarrow> (string \<rightharpoonup> string) option
     \<Rightarrow> oa_calls \<Rightarrow> string \<times> ('c, 'x) lay_instance \<Rightarrow> oa_calls" where
  "create_lay_inst T cv_name lib_name view_name rename_map calls entry =
     (let name = fst entry; inst = snd entry;
          lib_oa = li_get_lib_name inst lib_name;
          cell_oa = li_get_cell_name cv_name inst rename_map;
          view_oa = li_get_view_name inst view_name;
          xform = get_oa_xform T (li_xform inst) in
      if li_nx inst > 1 \<or> li_ny inst > 1 then
        (case convert_array T (li_xform inst) (li_nx inst) (li_ny inst) (li_spx inst) (li_spy inst) of
           (oa_nx, oa_ny, oa_spx, oa_spy) \<Rightarrow>
             calls @ [Oc_array_inst_create lib_oa cell_oa view_oa name xform oa_spx oa_spy oa_ny oa_nx])
      else calls @ [Oc_scalar_inst_create lib_oa cell_oa view_oa name xform])"

definition get_via_params :: "via_param \<Rightarrow> oa_via_param" where
  "get_via_params params =
     \<lparr>ov_cut_columns = fst (vp_num params), ov_cut_rows = snd (vp_num params),
      ov_cut_width = fst (vp_cut_dim params), ov_cut_height = snd (vp_cut_dim params),
      ov_cut_spacing = (fst (vp_cut_spacing params), snd (vp_cut_spacing params)),
      ov_layer1_enc = (fst (fst (vp_enc params)), snd (fst (vp_enc params))),
      ov_layer2_enc = (fst (snd (vp_enc params)), snd (snd (vp_enc params))),
      ov_layer1_offset = (fst (fst (vp_off params)), snd (fst (vp_off params))),
      ov_layer2_offset = (fst (snd (vp_off params)), snd (snd (vp_off params)))\<rparr>"

definition create_lay_via :: "'x xform_ops \<Rightarrow> oa_env \<Rightarrow> oa_calls \<Rightarrow> 'x via \<Rightarrow> oa_calls" where
  "create_lay_via T E calls v =
     (if \<not> en_find_via_def E (c_str (via_id v)) then calls
      else calls @ [Oc_std_via_create (c_str (via_id v)) (get_oa_xform T (via_xform v)) (get_via_params (via_params v))])"

section \<open>Pins, labels, blockages and boundaries\<close>

definition create_lay_pin ::
  "oa_env \<Rightarrow> (lay_t \<times> lay_t \<times> cnt_t) list \<Rightarrow> lay_t \<Rightarrow> purp_t \<Rightarrow> bool \<Rightarrow> oa_calls \<Rightarrow> pin \<Rightarrow> oa_calls" where
  "create_lay_pin E color_map lay purp make_pin_obj calls p =
     (let b = pin_box p in
      if \<not> box_is_physical b then calls
      else
        (case map_color color_map lay of (lay, color) \<Rightarrow>
           let center = (box_xm b, box_ym b); w = box_width b; text_h = box_height b;
               (ori, text_h) = (if text_h > w then (Oac_R90, w) else (Oac_R0, text_h));
               calls = calls @ [Oc_text_create lay purp (c_str (pin_label p)) center Oac_center_center_text_align ori
                                  Oac_roman_font text_h] in
           if make_pin_obj then
             let r = length calls;
                 calls = calls @ [Oc_shape_create lay purp (Make_rect (get_box b))] @ set_color color r;
                 term_name = c_str (pin_net p);
                 calls =
                   (if en_find_term E calls term_name then calls
                    else
                      let calls = (if en_find_net E calls term_name = No_net
                                   then calls @ [Oc_net_create term_name None] else calls)
                      in calls @ [Oc_term_create term_name term_name None]);
                 pin_ptr = length calls
             in calls @ [Oc_pin_create term_name True, Oc_add_to_pin r pin_ptr]
           else calls))"

definition create_lay_label :: "'x xform_ops \<Rightarrow> oa_calls \<Rightarrow> 'x label \<Rightarrow> oa_calls" where
  "create_lay_label T calls lab =
     calls @ [Oc_text_create (fst (lb_key lab)) (snd (lb_key lab)) (c_str (lb_text lab)) (location T (lb_xform lab))
       Oac_center_center_text_align (get_orient (orient T (lb_xform lab))) Oac_roman_font (lb_height lab)]"

text \<open>The array of points is used again for every polygon.\<close>

definition set_point_array :: "point list \<Rightarrow> oa_point list" where
  "set_point_array poly = foldl (\<lambda>arr (idx, p). arr[idx := (fst p, snd p)]) (replicate (length poly) (0, 0))
     (zip [0..<length poly] poly)"

fun blockage_code :: "blockage_type \<Rightarrow> 8 word" where
  "blockage_code Blk_routing = 0"
| "blockage_code Blk_via = 1"
| "blockage_code Blk_placement = 2"
| "blockage_code Blk_wiring = 3"
| "blockage_code Blk_fill = 4"
| "blockage_code Blk_slot = 5"
| "blockage_code Blk_pin = 6"
| "blockage_code Blk_feed_thru = 7"
| "blockage_code Blk_screen = 8"

definition create_lay_blockages :: "oa_calls \<Rightarrow> lay_t \<times> blockage list \<Rightarrow> oa_calls" where
  "create_lay_blockages calls block_pair =
     foldl (\<lambda>calls b. calls @ [Oc_layer_blockage_create (to_oa_enum blockage_code (bl_type b)) (fst block_pair)
       (set_point_array (bl_pts b))]) calls (snd block_pair)"

definition create_area_blockage :: "oa_calls \<Rightarrow> blockage \<Rightarrow> oa_calls" where
  "create_area_blockage calls b = calls @ [Oc_area_blockage_create (set_point_array (bl_pts b))]"

text \<open>No case of the switch over the type ends with a \<^verbatim>\<open>break\<close>.\<close>

definition create_boundary :: "oa_calls \<Rightarrow> boundary \<Rightarrow> oa_calls" where
  "create_boundary calls b =
     (let pt_arr = set_point_array (bd_pts b) in
      case bd_type b of
        Bnd_PR \<Rightarrow> calls @ [Oc_pr_boundary_create pt_arr, Oc_snap_boundary_create pt_arr]
      | Bnd_snap \<Rightarrow> calls @ [Oc_snap_boundary_create pt_arr])"

section \<open>Cellviews\<close>

definition write_lay_design ::
  "'x xform_ops \<Rightarrow> 'x lay_ops \<Rightarrow> ('c \<Rightarrow> string) \<Rightarrow> oa_env \<Rightarrow> string \<Rightarrow> string \<Rightarrow> ('c, 'x) lay_cellview
     \<Rightarrow> (string \<rightharpoonup> string) option \<Rightarrow> oa_calls outcome" where
  "write_lay_design T G cv_name E lib_name view_name cv rename_map =
     (let t = lv_tech cv; color_map = tech_color_map t;
          calls = [Oc_block_create];
          calls = foldl (create_lay_inst T cv_name lib_name view_name rename_map) calls (lv_inst_map cv) in
      seqS (forS (create_lay_geometry G E color_map) (lv_geo_map cv) calls) (\<lambda>calls.
      let calls = foldl (create_lay_via T E) calls (lv_via_list cv);
          calls = foldl create_lay_blockages calls (lv_lay_block_map cv);
          calls = foldl create_area_blockage calls (lv_area_block_list cv);
          calls = foldl create_boundary calls (lv_boundary_list cv);
          calls = foldl (\<lambda>calls (lay, pin_list).
                    foldl (create_lay_pin E color_map lay (tech_pin_purpose t) (tech_make_pin t)) calls pin_list)
                    calls (lv_pin_map cv);
          calls = foldl (create_lay_label T) calls (lv_label_list cv)
      in (None, calls @ [Oc_save, Oc_close])))"

definition write_lay_oa_cellview ::
  "'x xform_ops \<Rightarrow> 'x lay_ops \<Rightarrow> ('c \<Rightarrow> string) \<Rightarrow> oa_env \<Rightarrow> unit oa_open \<Rightarrow> string \<Rightarrow> string \<Rightarrow> string
     \<Rightarrow> ('c, 'x) lay_cellview \<Rightarrow> (string \<rightharpoonup> string) option \<Rightarrow> oa_outcome" where
  "write_lay_oa_cellview T G cv_name E open_fn lib_name cell_name view_name cv rename_map =
     (case open_design open_fn lib_name cell_name view_name (CHR ''w'') Oac_mask_layout of
        Inl e \<Rightarrow> (Some e, [])
      | Inr dsn \<Rightarrow>
          (case write_lay_design T G cv_name E lib_name view_name cv rename_map of
             (e, calls) \<Rightarrow> (map_option Cbag_error e, calls)))"

section \<open>Lists of cellviews\<close>

text \<open>
  The designs that were written, in this order, each with its calls.  What OpenAccess answers while a design
  is written may depend on those before it.  After a cell was written its name in the library is known
  under its own name.
\<close>

type_synonym oa_log = "((string \<times> string \<times> string) \<times> oa_calls) list"

definition log_design :: "string \<times> string \<times> string \<Rightarrow> oa_outcome \<Rightarrow> oa_log \<Rightarrow> oa_error option \<times> oa_log" where
  "log_design key r log = (fst r, log @ [(key, snd r)])"

fun implement_sch_cells ::
  "'x xform_ops \<Rightarrow> (oa_log \<Rightarrow> oa_env) \<Rightarrow> unit oa_open \<Rightarrow> string \<Rightarrow> string \<Rightarrow> string
     \<Rightarrow> (string \<times> 'x sch_cellview) list \<Rightarrow> (string \<rightharpoonup> string) \<Rightarrow> oa_log \<Rightarrow> oa_error option \<times> oa_log" where
  "implement_sch_cells T envs open_fn lib_name sch_view sym_view [] rename_map log = (None, log)"
| "implement_sch_cells T envs open_fn lib_name sch_view sym_view ((name, cv) # cvs) rename_map log =
     (case log_design (lib_name, name, sch_view)
             (write_sch_cellview T (envs log) open_fn lib_name name sch_view True cv (Some rename_map)) log of
        (Some e, log) \<Rightarrow> (Some e, log)
      | (None, log) \<Rightarrow>
          (case (case cv_symbol cv of
                   None \<Rightarrow> (None, log)
                 | Some sym_cv \<Rightarrow>
                     if sym_view = [] then (None, log)
                     else log_design (lib_name, name, sym_view)
                       (write_sch_cellview T (envs log) open_fn lib_name name sym_view False sym_cv (Some rename_map)) log) of
             (Some e, log) \<Rightarrow> (Some e, log)
           | (None, log) \<Rightarrow>
               implement_sch_cells T envs open_fn lib_name sch_view sym_view cvs
                 (rename_map(cv_cell_name (cv_fields cv) \<mapsto> name)) log))"

definition implement_sch_list ::
  "'x xform_ops \<Rightarrow> (oa_log \<Rightarrow> oa_env) \<Rightarrow> unit oa_open \<Rightarrow> string \<Rightarrow> string \<Rightarrow> string
     \<Rightarrow> (string \<times> 'x sch_cellview) list \<Rightarrow> oa_error option \<times> oa_log" where
  "implement_sch_list T envs open_fn lib_name sch_view sym_view cv_list =
     (case implement_sch_cells T envs open_fn lib_name sch_view sym_view cv_list Map.empty [] of
        (e, log) \<Rightarrow> (map_option handle_oa_exceptions e, log))"

fun implement_lay_cells ::
  "'x xform_ops \<Rightarrow> 'x lay_ops \<Rightarrow> ('c \<Rightarrow> string) \<Rightarrow> (oa_log \<Rightarrow> oa_env) \<Rightarrow> unit oa_open \<Rightarrow> string \<Rightarrow> string
     \<Rightarrow> (string \<times> ('c, 'x) lay_cellview) list \<Rightarrow> (string \<rightharpoonup> string) \<Rightarrow> oa_log \<Rightarrow> oa_error option \<times> oa_log" where
  "implement_lay_cells T G cv_name envs open_fn lib_name view [] rename_map log = (None, log)"
| "implement_lay_cells T G cv_name envs open_fn lib_name view ((name, cv) # cvs) rename_map log =
     (case log_design (lib_name, name, view)
             (write_lay_oa_cellview T G cv_name (envs log) open_fn lib_name name view cv (Some rename_map)) log of
        (Some e, log) \<Rightarrow> (Some e, log)
      | (None, log) \<Rightarrow>
          implement_lay_cells T G cv_name envs open_fn lib_name view cvs (rename_map(lv_name cv \<mapsto> name)) log)"

definition implement_lay_list ::
  "'x xform_ops \<Rightarrow> 'x lay_ops \<Rightarrow> ('c \<Rightarrow> string) \<Rightarrow> (oa_log \<Rightarrow> oa_env) \<Rightarrow> 't oa_tech_ops \<Rightarrow> unit oa_open
     \<Rightarrow> string \<Rightarrow> string \<Rightarrow> (string \<times> ('c, 'x) lay_cellview) list \<Rightarrow> oa_error option \<times> oa_log" where
  "implement_lay_list T G cv_name envs H open_fn lib_name view cv_list =
     (case read_tech H lib_name of
        Inl e \<Rightarrow> (Some (handle_oa_exceptions e), [])
      | Inr tech_ptr \<Rightarrow>
          (case implement_lay_cells T G cv_name envs open_fn lib_name view cv_list Map.empty [] of
             (e, log) \<Rightarrow> (map_option handle_oa_exceptions e, log)))"

end
