(* ===== verification/Oa_Write_Props.thy ===== *)
theory Oa_Write_Props
  imports Oa_Read Oa_Write
begin

text \<open>
  What reading gives from a design, what writing a schematic does to one, and which values are the same
  after they were written and read.
\<close>

section \<open>Reading a design\<close>

text \<open>A loop that inserts what was read is the insertion of all that was read.\<close>

lemma foldR_insert:
  "foldR (\<lambda>m x. bindR (f x) (\<lambda>(k, v). Inr (fst (sm_emplace m k v)))) m xs
     = bindR (mapR f xs) (\<lambda>kvs. Inr (sm_insert_range m kvs))"
  by (induction xs arbitrary: m) (auto simp: sm_insert_range_def bindR_def split: sum.splits)

lemma foldR_filter:
  "foldR (\<lambda>s x. if P x then f s x else Inr s) s xs = foldR f s (filter P xs)"
  by (induction xs arbitrary: s) auto

lemma foldR_push:
  "foldR (\<lambda>ys x. bindR (f x) (\<lambda>y. Inr (ys @ [y]))) acc xs = bindR (mapR f xs) (\<lambda>ys. Inr (acc @ ys))"
  by (induction xs arbitrary: acc) (auto simp: bindR_def split: sum.splits)

lemma foldR_insert_saved:
  "foldR (\<lambda>m x. bindR (f x) (\<lambda>(k, v). Inr (if P k then fst (sm_emplace m k v) else m))) m xs
     = bindR (mapR f xs) (\<lambda>kvs. Inr (sm_insert_range m (filter (\<lambda>p. P (fst p)) kvs)))"
  by (induction xs arbitrary: m) (auto simp: sm_insert_range_def bindR_def split: sum.splits)

lemma design_loops:
  "foldR (insert_terminal T libs) m ts = bindR (mapR (read_terminal_single T libs) ts) (\<lambda>kvs. Inr (sm_insert_range m kvs))"
  "foldR push_shape acc ss = bindR (mapR read_shape (filter include_shape ss)) (\<lambda>ys. Inr (acc @ ys))"
  "foldR (insert_instance T libs) mi is
     = bindR (mapR (read_instance_pair T libs) (filter (\<lambda>i. \<not> oi_has_pin i) is)) (\<lambda>kvs. Inr (sm_insert_range mi kvs))"
  "foldR insert_prop mp ps = bindR (mapR read_prop ps) (\<lambda>kvs. Inr (sm_insert_range mp kvs))"
  "foldR insert_app_def mp ds
     = bindR (mapR read_app_def ds) (\<lambda>kvs. Inr (sm_insert_range mp (filter (\<lambda>p. save_app_def (fst p)) kvs)))"
proof -
  show "foldR (insert_terminal T libs) m ts = bindR (mapR (read_terminal_single T libs) ts) (\<lambda>kvs. Inr (sm_insert_range m kvs))"
    by (simp add: insert_terminal_def [abs_def] foldR_insert)
  show "foldR push_shape acc ss = bindR (mapR read_shape (filter include_shape ss)) (\<lambda>ys. Inr (acc @ ys))"
    by (simp add: push_shape_def [abs_def] foldR_filter foldR_push)
  show "foldR (insert_instance T libs) mi is
     = bindR (mapR (read_instance_pair T libs) (filter (\<lambda>i. \<not> oi_has_pin i) is)) (\<lambda>kvs. Inr (sm_insert_range mi kvs))"
    by (simp add: insert_instance_def [abs_def] foldR_filter foldR_insert)
  show "foldR insert_prop mp ps = bindR (mapR read_prop ps) (\<lambda>kvs. Inr (sm_insert_range mp kvs))"
    by (simp add: insert_prop_def [abs_def] foldR_insert)
  show "foldR insert_app_def mp ds
     = bindR (mapR read_app_def ds) (\<lambda>kvs. Inr (sm_insert_range mp (filter (\<lambda>p. save_app_def (fst p)) kvs)))"
    by (simp add: insert_app_def_def [abs_def] foldR_insert_saved)
qed

lemma sm_insert_range_Nil: "sm_inv (sm_insert_range [] kvs) \<and> map_of (sm_insert_range [] kvs) = map_of kvs"
  for kvs :: "('k :: linorder \<times> 'v) list"
  using sm_operations_refine_map [of "[] :: ('k \<times> 'v) list"] by simp

text \<open>
  C26.  A design that is read gives, under the name of each object, the first of the objects of this name:
  the terminals, the instances that draw no pin, the properties, and of the AppDefs the four that are
  kept.  The shapes keep their order and their number; those of pins and of names of terminals are left
  out.  The four maps are sorted.
\<close>

theorem read_design_correct:
  assumes "read_design T lib cell view libs p = Inr cv"
  shows "\<exists>terms insts props defs.
    mapR (read_terminal_single T libs) (od_terms p) = Inr terms \<and>
    mapR (read_instance_pair T libs) (filter (\<lambda>i. \<not> oi_has_pin i) (od_insts p)) = Inr insts \<and>
    mapR read_prop (od_props p) = Inr props \<and> mapR read_app_def (od_app_defs p) = Inr defs \<and>
    mapR read_shape (filter include_shape (od_shapes p)) = Inr (cv_shapes (cv_fields cv)) \<and>
    map_of (cv_terminals (cv_fields cv)) = map_of terms \<and>
    map_of (cv_instances (cv_fields cv)) = map_of insts \<and>
    map_of (cv_props (cv_fields cv)) = map_of props \<and>
    map_of (cv_app_defs (cv_fields cv)) = (\<lambda>k. if save_app_def k then map_of defs k else None) \<and>
    sm_inv (cv_terminals (cv_fields cv)) \<and> sm_inv (cv_instances (cv_fields cv)) \<and>
    sm_inv (cv_props (cv_fields cv)) \<and> sm_inv (cv_app_defs (cv_fields cv))"
proof -
  have saved: "map_of (filter (\<lambda>p. save_app_def (fst p)) kvs) = (\<lambda>k. if save_app_def k then map_of kvs k else None)"
    for kvs :: param_map by (induction kvs) auto
  from assms show ?thesis
    by (auto simp: read_design_def make_sch_cellview_def Let_def design_loops result_simps
        sm_insert_range_Nil saved)
qed

text \<open>Reading throws one exception only.\<close>

lemma mapR_error: "mapR f xs = Inl e \<Longrightarrow> (\<And>x. x \<in> set xs \<Longrightarrow> f x = Inl e \<Longrightarrow> P e) \<Longrightarrow> P e"
  by (induction xs) (auto simp: result_simps)

lemma mapR_mem: "mapR f xs = Inr ys \<Longrightarrow> x \<in> set xs \<Longrightarrow> \<exists>y. f x = Inr y"
  by (induction xs arbitrary: ys) (auto simp: result_simps)

lemma read_prop_error: "read_prop p = Inl e \<Longrightarrow> e = Invalid_argument"
  by (cases p; cases "snd p") auto

lemma read_app_def_error: "read_app_def p = Inl e \<Longrightarrow> e = Invalid_argument"
  by (cases p; cases "snd p") auto

lemma get_orientation_error: "get_orientation o' = Inl e \<Longrightarrow> e = Invalid_argument"
  by (cases o') auto

lemma read_shape_error: "read_shape p = Inl e \<Longrightarrow> e = Invalid_argument"
  by (auto simp: read_shape_def oa_read_text_def read_eval_text_def Let_def result_simps
      split: oa_shape_data.splits dest: get_orientation_error)

lemma oa_read_instance_error: "oa_read_instance T libs i = Inl e \<Longrightarrow> e = Invalid_argument"
  by (auto simp: oa_read_instance_def oa_get_xform_def Let_def result_simps design_loops
      dest: get_orientation_error elim!: mapR_error read_prop_error)

lemma read_pin_figure_error: "read_pin_figure T libs t f = Inl e \<Longrightarrow> e = Invalid_argument"
  by (cases f; cases "oe_displays t"; cases "tl (oe_displays t)")
     (auto simp: read_pin_figure_def read_term_attr_def Let_def result_simps
        split: oa_shape_data.splits dest: get_orientation_error oa_read_instance_error)

lemma read_terminal_error: "read_terminal_single T libs t = Inl e \<Longrightarrow> e = Invalid_argument"
  by (auto simp: read_terminal_single_def result_simps split: list.splits if_splits
      dest: read_pin_figure_error)

text \<open>
  Reading an open design fails in one way, with \<^verbatim>\<open>std::invalid_argument\<close>, and a design in which a
  terminal has not exactly one pin, or its pin not exactly one figure, is refused.  A design that cannot be
  opened is refused in the same way, and an exception of OpenAccess is passed on.
\<close>

theorem read_sch_cellview_errors:
  "case read_sch_cellview T open_fn lib cell view libs of
     Inl e \<Rightarrow> open_fn lib cell view None (CHR ''r'') = Inl e \<or> e = Cbag_error Invalid_argument
   | Inr cv \<Rightarrow> \<exists>p. open_fn lib cell view None (CHR ''r'') = Inr (Some p) \<and>
       list_all (\<lambda>t. \<exists>fig. oe_pins t = [[fig]]) (od_terms p)"
proof -
  have err: "e = Invalid_argument" if "read_design T lib cell view libs p = Inl e" for p e
    using that by (auto simp: read_design_def make_sch_cellview_def Let_def design_loops result_simps
        read_instance_pair_def elim!: mapR_error dest: read_prop_error read_app_def_error read_shape_error
        oa_read_instance_error read_terminal_error)
  have one: "\<exists>fig. oe_pins t = [[fig]]"
    if "read_terminal_single T libs t = Inr r" for t and r :: "string \<times> 'a pin_fig_t pin_figure"
    using that by (auto simp: read_terminal_single_def split: list.splits if_splits)
  have "list_all (\<lambda>t. \<exists>fig. oe_pins t = [[fig]]) (od_terms p)"
    if "read_design T lib cell view libs p = Inr cv" for p and cv :: "'a sch_cellview"
  proof -
    from that have "\<exists>terms. mapR (read_terminal_single T libs) (od_terms p) = Inr terms"
      by (auto simp: read_design_def make_sch_cellview_def Let_def design_loops result_simps)
    then show ?thesis by (auto simp: list_all_iff dest: mapR_mem one)
  qed
  with err show ?thesis
    by (auto simp: read_sch_cellview_def open_design_def bindE_def liftE_def split: sum.splits option.splits)
qed

section \<open>What is written is read again\<close>

text \<open>A property is read as it was written, but for what follows a zero byte in a string.\<close>

fun value_stored :: "value_t \<Rightarrow> value_t" where
  "value_stored (V_string v) = V_string (c_str v)"
| "value_stored (V_binary name bin_val) = V_binary (c_str name) bin_val"
| "value_stored v = v"

lemma read_prop_make_prop: "read_prop (c_str name, prop_arg v) = Inr (c_str name, value_stored v)"
  by (cases v) simp_all

text \<open>An enumeration is named when its value is one of the enumerators.\<close>

definition text_named :: "'a text_base_scheme \<Rightarrow> bool" where
  "text_named t \<longleftrightarrow> align_of_code (align_code (tx_alignment t)) = tx_alignment t \<and>
     font_of_code (font_code (tx_font t)) = tx_font t"

fun shape_named :: "shape_t \<Rightarrow> bool" where
  "shape_named (Shape_path s) \<longleftrightarrow> style_of_code (style_code (path_style_of s)) = path_style_of s"
| "shape_named (Shape_text s) \<longleftrightarrow> text_named s"
| "shape_named (Shape_eval_text s) \<longleftrightarrow> text_named s"
| "shape_named s \<longleftrightarrow> True"

text \<open>
  What is documented of a shape that a call has created: it has the layer and the purpose it was created
  on and the net it was added to last, and its accessors return the arguments of the call, except for an
  arc.  The arguments of an arc give an ellipse and two angles, and \<^verbatim>\<open>getBBox\<close> is the bounding box of the
  part of the ellipse between these, which \<open>arc_box\<close> stands for.  The shapes of a design are thereby a
  parameter: what OpenAccess says of the object of a call after all calls.
\<close>

type_synonym oa_db = "oa_calls \<Rightarrow> nat \<Rightarrow> oa_shape"
type_synonym arc_box = "oa_box \<Rightarrow> 64 word \<Rightarrow> 64 word \<Rightarrow> oa_box"

fun accessors_of :: "arc_box \<Rightarrow> oa_shape_args \<Rightarrow> oa_shape_data" where
  "accessors_of arc_box (Make_rect box) = Oa_rect box"
| "accessors_of arc_box (Make_polygon arr) = Oa_polygon arr"
| "accessors_of arc_box (Make_arc ellipse start stop) = Oa_arc (arc_box ellipse start stop) start stop"
| "accessors_of arc_box (Make_donut pt r hole_r) = Oa_donut pt r hole_r"
| "accessors_of arc_box (Make_ellipse box) = Oa_ellipse box"
| "accessors_of arc_box (Make_line arr) = Oa_line arr"
| "accessors_of arc_box (Make_path width arr style begin_ext end_ext) = Oa_path width arr style begin_ext end_ext"
| "accessors_of arc_box (Make_text txt t) = Oa_text txt t"
| "accessors_of arc_box (Make_eval_text txt t eval) = Oa_eval_text txt t eval"

fun added_net :: "nat \<Rightarrow> oa_call \<Rightarrow> string option" where
  "added_net p (Oc_add_to_net q n) = (if q = p then Some n else None)"
| "added_net p c = None"

definition last_net :: "nat \<Rightarrow> oa_calls \<Rightarrow> string option" where
  "last_net p calls = foldl (\<lambda>net c. case added_net p c of None \<Rightarrow> net | Some n \<Rightarrow> Some n) None (drop p calls)"

definition shape_law :: "arc_box \<Rightarrow> oa_db \<Rightarrow> bool" where
  "shape_law arc_box D \<longleftrightarrow> (\<forall>calls p lay purp args. p < length calls \<longrightarrow> calls ! p = Oc_shape_create lay purp args \<longrightarrow>
     os_layer (D calls p) = lay \<and> os_purpose (D calls p) = purp \<and>
     os_data (D calls p) = accessors_of arc_box args \<and> os_net (D calls p) = last_net p calls)"

lemma made_shape:
  fixes E net calls lay purp args
  defines "made \<equiv> add_shape_to_net E (length calls) net (calls @ [Oc_shape_create lay purp args])"
  assumes "shape_law arc_box D"
  shows "os_layer (D made (length calls)) = lay" and "os_purpose (D made (length calls)) = purp"
    and "os_data (D made (length calls)) = accessors_of arc_box args"
    and "os_net (D made (length calls)) = (if net = [] then None else Some (c_str net))"
proof -
  have "length calls < length made" "made ! length calls = Oc_shape_create lay purp args"
    by (simp_all add: made_def add_shape_to_net_def ensure_net_def nth_append)
  moreover have "last_net (length calls) made = (if net = [] then None else Some (c_str net))"
    by (simp add: made_def add_shape_to_net_def ensure_net_def last_net_def)
  ultimately show "os_layer (D made (length calls)) = lay" and "os_purpose (D made (length calls)) = purp"
    and "os_data (D made (length calls)) = accessors_of arc_box args"
    and "os_net (D made (length calls)) = (if net = [] then None else Some (c_str net))"
    using assms(2) unfolding shape_law_def by metis+
qed

text \<open>The shape that is read: the box of an arc is that of the arc, and strings end before a zero byte.\<close>

fun shape_stored :: "arc_box \<Rightarrow> shape_t \<Rightarrow> shape_t" where
  "shape_stored arc_box (Shape_arc v) =
     (let box = arc_box (get_box (arc_bbox v)) (arc_ang_start v) (arc_ang_stop v) in
      Shape_arc (v\<lparr>sh_net := c_str (sh_net v),
        arc_bbox := make_box (ob_left box) (ob_bottom box) (ob_right box) (ob_top box)\<rparr>))"
| "shape_stored arc_box (Shape_rectangle v) = Shape_rectangle (v\<lparr>sh_net := c_str (sh_net v)\<rparr>)"
| "shape_stored arc_box (Shape_polygon v) = Shape_polygon (v\<lparr>sh_net := c_str (sh_net v)\<rparr>)"
| "shape_stored arc_box (Shape_donut v) = Shape_donut (v\<lparr>sh_net := c_str (sh_net v)\<rparr>)"
| "shape_stored arc_box (Shape_ellipse v) = Shape_ellipse (v\<lparr>sh_net := c_str (sh_net v)\<rparr>)"
| "shape_stored arc_box (Shape_line v) = Shape_line (v\<lparr>sh_net := c_str (sh_net v)\<rparr>)"
| "shape_stored arc_box (Shape_path v) = Shape_path (v\<lparr>sh_net := c_str (sh_net v)\<rparr>)"
| "shape_stored arc_box (Shape_text v) = Shape_text (v\<lparr>sh_net := c_str (sh_net v), txt_text := c_str (txt_text v)\<rparr>)"
| "shape_stored arc_box (Shape_eval_text v) =
     Shape_eval_text (v\<lparr>sh_net := c_str (sh_net v), txt_text := c_str (txt_text v), et_evaluator := c_str (et_evaluator v)\<rparr>)"

text \<open>The shapes that this leaves as they are.\<close>

fun shape_kept :: "arc_box \<Rightarrow> shape_t \<Rightarrow> bool" where
  "shape_kept arc_box (Shape_arc v) \<longleftrightarrow> CHR 0x00 \<notin> set (sh_net v) \<and>
     arc_box (get_box (arc_bbox v)) (arc_ang_start v) (arc_ang_stop v) = get_box (arc_bbox v)"
| "shape_kept arc_box (Shape_rectangle v) \<longleftrightarrow> CHR 0x00 \<notin> set (sh_net v)"
| "shape_kept arc_box (Shape_polygon v) \<longleftrightarrow> CHR 0x00 \<notin> set (sh_net v)"
| "shape_kept arc_box (Shape_donut v) \<longleftrightarrow> CHR 0x00 \<notin> set (sh_net v)"
| "shape_kept arc_box (Shape_ellipse v) \<longleftrightarrow> CHR 0x00 \<notin> set (sh_net v)"
| "shape_kept arc_box (Shape_line v) \<longleftrightarrow> CHR 0x00 \<notin> set (sh_net v)"
| "shape_kept arc_box (Shape_path v) \<longleftrightarrow> CHR 0x00 \<notin> set (sh_net v)"
| "shape_kept arc_box (Shape_text v) \<longleftrightarrow> CHR 0x00 \<notin> set (sh_net v) \<union> set (txt_text v)"
| "shape_kept arc_box (Shape_eval_text v) \<longleftrightarrow> CHR 0x00 \<notin> set (sh_net v) \<union> set (txt_text v) \<union> set (et_evaluator v)"

lemma make_box_eq_get_box: "make_box (ob_left b) (ob_bottom b) (ob_right b) (ob_top b) = box \<longleftrightarrow> b = get_box box"
  by (cases b; cases box)
     (auto simp: make_box_def get_box_def box_xl_def box_xh_def box_yl_def box_yh_def)

lemma foldl_points:
  "foldl (\<lambda>ans pt. ans\<lparr>poly_points := poly_points ans @ [pt]\<rparr>) a1 pts
     = a1\<lparr>poly_points := poly_points a1 @ pts\<rparr>"
  "foldl (\<lambda>ans pt. ans\<lparr>line_points := line_points ans @ [pt]\<rparr>) a2 pts
     = a2\<lparr>line_points := line_points a2 @ pts\<rparr>"
  "foldl (\<lambda>ans pt. ans\<lparr>path_points := path_points ans @ [pt]\<rparr>) a3 pts
     = a3\<lparr>path_points := path_points a3 @ pts\<rparr>"
  by (induction pts arbitrary: a1 a2 a3) simp_all

lemmas read_shape_defs = read_shape_def read_rect_def read_poly_def read_arc_def read_donut_def
  read_ellipse_def read_line_def read_path_def oa_read_text_def read_eval_text_def

lemmas make_figure_defs = make_sch_rectangle_def make_sch_polygon_def make_sch_arc_def
  make_sch_donut_def make_sch_ellipse_def make_sch_line_def make_sch_path_def make_sch_text_def
  make_sch_eval_text_def make_text_base_def make_shape_base_def sch_rectangle.defs sch_polygon.defs
  sch_arc.defs sch_donut.defs sch_ellipse.defs sch_line.defs sch_path.defs sch_text.defs
  sch_eval_text.defs text_base.defs shape_base.defs

lemmas oa_enum_defs = oa_get_path_style_def oa_get_text_align_def oa_get_font_def
  oa_get_text_disp_format_def oa_get_term_attr_type_def oa_get_sig_type_def oa_get_term_type_def

lemma net_string_of: "net_string (if net = [] then None else Some (c_str net)) = c_str net"
  by (simp add: net_string_def)

lemma shape_stored_self: "shape_stored arc_box s = s \<longleftrightarrow> shape_kept arc_box s"
proof (cases s)
  case (Shape_rectangle v)
  then show ?thesis by (cases v) (auto simp: c_str_eq_self make_box_eq_get_box Let_def)
next
  case (Shape_polygon v)
  then show ?thesis by (cases v) (auto simp: c_str_eq_self make_box_eq_get_box Let_def)
next
  case (Shape_arc v)
  then show ?thesis by (cases v) (auto simp: c_str_eq_self make_box_eq_get_box Let_def)
next
  case (Shape_donut v)
  then show ?thesis by (cases v) (auto simp: c_str_eq_self make_box_eq_get_box Let_def)
next
  case (Shape_ellipse v)
  then show ?thesis by (cases v) (auto simp: c_str_eq_self make_box_eq_get_box Let_def)
next
  case (Shape_line v)
  then show ?thesis by (cases v) (auto simp: c_str_eq_self make_box_eq_get_box Let_def)
next
  case (Shape_path v)
  then show ?thesis by (cases v) (auto simp: c_str_eq_self make_box_eq_get_box Let_def)
next
  case (Shape_text v)
  then show ?thesis by (cases v) (auto simp: c_str_eq_self make_box_eq_get_box Let_def)
next
  case (Shape_eval_text v)
  then show ?thesis by (cases v) (auto simp: c_str_eq_self make_box_eq_get_box Let_def)
qed

text \<open>
  C15.  The object that is created for a shape of a symbol is read as this shape: layer, purpose and net,
  coordinates, angles, widths, styles and texts are the same, exactly if no string has a zero byte and the
  shape is not an arc with a box smaller than that of its ellipse.  An arc is created in the box of its
  ellipse and read with its own; strings are cut at the zero byte.
\<close>

theorem shape_round_trip:
  assumes "shape_named s" and "shape_law arc_box D"
  shows "read_shape (D (make_shape E s calls) (length calls)) = Inr (shape_stored arc_box s) \<and>
    (shape_stored arc_box s = s \<longleftrightarrow> shape_kept arc_box s)"
  using assms(1) shape_stored_self [of arc_box s]
  by (cases s; simp only: make_shape.simps shape_stored.simps)
     (auto simp: made_shape [OF assms(2)] read_shape_defs make_figure_defs foldl_points net_string_of Let_def text_args_def
        oa_enum_defs text_named_def simp del: shape_stored.simps split del: if_split)

section \<open>Nets\<close>

text \<open>
  What is documented of nets: after a net was created it is found, and not as an implicit one, and a net
  that is explicit stays so.
\<close>

fun net_created :: "oa_call \<Rightarrow> string option" where
  "net_created (Oc_net_create n s) = Some n"
| "net_created c = None"

fun net_used :: "oa_call \<Rightarrow> string option" where
  "net_used (Oc_term_create n t ty) = Some n"
| "net_used (Oc_inst_term_create n i t) = Some n"
| "net_used (Oc_add_to_net p n) = Some n"
| "net_used c = None"

definition net_law :: "oa_env \<Rightarrow> bool" where
  "net_law E \<longleftrightarrow>
     (\<forall>calls n s. en_find_net E (calls @ [Oc_net_create n s]) n = Explicit_net) \<and>
     (\<forall>calls c n. en_find_net E calls n = Explicit_net \<longrightarrow> en_find_net E (calls @ [c]) n = Explicit_net)"

fun nets_ok_from :: "oa_env \<Rightarrow> oa_calls \<Rightarrow> oa_calls \<Rightarrow> bool" where
  "nets_ok_from E pre [] \<longleftrightarrow> True"
| "nets_ok_from E pre (c # cs) \<longleftrightarrow>
     (\<forall>n. net_created c = Some n \<longrightarrow> en_find_net E pre n \<noteq> Explicit_net) \<and>
     (\<forall>n. net_used c = Some n \<longrightarrow> en_find_net E pre n = Explicit_net) \<and>
     nets_ok_from E (pre @ [c]) cs"

definition nets_ok :: "oa_env \<Rightarrow> oa_calls \<Rightarrow> bool" where
  "nets_ok E calls \<longleftrightarrow> nets_ok_from E [] calls"

definition nets_created :: "oa_calls \<Rightarrow> string list" where
  "nets_created calls = List.map_filter net_created calls"

lemma nets_ok_Nil [simp]: "nets_ok E []"
  by (simp add: nets_ok_def)

lemma nets_ok_from_append: "nets_ok_from E pre (as @ bs) \<longleftrightarrow> nets_ok_from E pre as \<and> nets_ok_from E (pre @ as) bs"
  by (induction as arbitrary: pre) auto

lemma nets_ok_snoc: "nets_ok E (calls @ [c]) \<longleftrightarrow> nets_ok E calls \<and>
    (\<forall>n. net_created c = Some n \<longrightarrow> en_find_net E calls n \<noteq> Explicit_net) \<and>
    (\<forall>n. net_used c = Some n \<longrightarrow> en_find_net E calls n = Explicit_net)"
  by (auto simp: nets_ok_def nets_ok_from_append)

lemma nets_ok_append: "nets_ok E (as @ bs) \<longleftrightarrow> nets_ok E as \<and> nets_ok_from E as bs"
  by (simp add: nets_ok_def nets_ok_from_append)

lemma nets_created_snoc [simp]: "nets_created (calls @ [c]) =
    nets_created calls @ (case net_created c of None \<Rightarrow> [] | Some n \<Rightarrow> [n])"
  by (auto simp: nets_created_def map_filter_def split: option.splits)

lemma created_explicit:
  assumes "net_law E"
  shows "n \<in> set (nets_created calls) \<Longrightarrow> en_find_net E calls n = Explicit_net"
proof (induction calls rule: rev_induct)
  case Nil
  then show ?case by (simp add: nets_created_def map_filter_def)
next
  case (snoc c calls)
  with assms show ?case by (cases c) (auto simp: net_law_def)
qed

lemma nets_ok_distinct:
  assumes "net_law E" and "nets_ok E calls"
  shows "distinct (nets_created calls)"
  using assms(2)
proof (induction calls rule: rev_induct)
  case Nil
  then show ?case by (simp add: nets_created_def map_filter_def)
next
  case (snoc c calls)
  with created_explicit [OF assms(1)] show ?case
    by (auto simp: nets_ok_snoc split: option.splits)
qed

text \<open>The steps keep this, also those that throw.\<close>

definition net_neutral :: "oa_call \<Rightarrow> bool" where
  "net_neutral c \<longleftrightarrow> net_created c = None \<and> net_used c = None"

lemma nets_ok_block: "nets_ok E [Oc_block_create]"
  by (simp add: nets_ok_def)

lemma nets_ok_neutral: "list_all net_neutral cs \<Longrightarrow> nets_ok E calls \<Longrightarrow> nets_ok E (calls @ cs)"
  by (induction cs arbitrary: calls rule: rev_induct)
     (auto simp: nets_ok_snoc net_neutral_def simp flip: append_assoc)

lemma ensure_net_ok:
  assumes "net_law E" and "nets_ok E calls"
  shows "nets_ok E (ensure_net E n s calls)" and "en_find_net E (ensure_net E n s calls) n = Explicit_net"
  using assms by (cases "en_find_net E calls n"; simp add: ensure_net_def nets_ok_snoc net_law_def)+

lemma explicit_append: "net_law E \<Longrightarrow> en_find_net E calls n = Explicit_net \<Longrightarrow>
    en_find_net E (calls @ cs) n = Explicit_net"
  by (induction cs rule: rev_induct) (auto simp: net_law_def simp flip: append_assoc)

lemma nets_ok_use:
  assumes "net_law E" and "nets_ok E calls" and "net_used c = Some n" and "net_created c = None"
    and "en_find_net E calls n = Explicit_net"
  shows "nets_ok E (calls @ [c])"
  using assms by (simp add: nets_ok_snoc)

lemma foldl_inv: "P s \<Longrightarrow> (\<And>s x. x \<in> set xs \<Longrightarrow> P s \<Longrightarrow> P (f s x)) \<Longrightarrow> P (foldl f s xs)"
  by (induction xs arbitrary: s) auto

lemma forS_inv: "P s \<Longrightarrow> (\<And>s x. x \<in> set xs \<Longrightarrow> P s \<Longrightarrow> P (snd (f x s))) \<Longrightarrow> P (snd (forS f xs s))"
proof (induction xs arbitrary: s)
  case (Cons x xs)
  then have "P (snd (f x s))" by simp
  with Cons show ?case by (cases "f x s"; cases "fst (f x s)") auto
qed simp

lemma seqS_inv: "P (snd m) \<Longrightarrow> (\<And>s. P s \<Longrightarrow> P (snd (f s))) \<Longrightarrow> P (snd (seqS m f))"
  by (cases m; cases "fst m") auto

lemma nets_ok_adds:
  assumes "net_law E" and "nets_ok E calls" and "list_all net_neutral cs"
    and "net_used c = Some n" and "net_created c = None" and "en_find_net E calls n = Explicit_net"
  shows "nets_ok E (calls @ cs @ [c])"
  using nets_ok_use [OF assms(1) nets_ok_neutral [OF assms(3,2)] assms(4,5) explicit_append [OF assms(1,6)]]
  by simp

lemma add_shape_ok: "net_law E \<Longrightarrow> nets_ok E calls \<Longrightarrow> nets_ok E (add_shape_to_net E p n calls)"
  using ensure_net_ok [of E calls "c_str n" None] nets_ok_use [of E "ensure_net E (c_str n) None calls" "Oc_add_to_net p (c_str n)" "c_str n"]
  by (simp add: add_shape_to_net_def)

lemma make_shape_ok: "net_law E \<Longrightarrow> nets_ok E calls \<Longrightarrow> nets_ok E (make_shape E s calls)"
  by (cases s) (auto simp: nets_ok_snoc intro!: add_shape_ok)

lemma make_prop_ok: "nets_ok E calls \<Longrightarrow> nets_ok E (make_prop obj p calls)"
  by (simp add: make_prop_def nets_ok_snoc)

lemma write_cv_prop_ok: "nets_ok E calls \<Longrightarrow> nets_ok E (write_cv_prop t calls p)"
  by (simp add: write_cv_prop_def make_prop_ok)

lemma nets_ok_snocs: "net_neutral c \<Longrightarrow> nets_ok E calls \<Longrightarrow> nets_ok E (calls @ [c])"
  by (simp add: nets_ok_snoc net_neutral_def)

lemma make_app_def_ok: "nets_ok E calls \<Longrightarrow> nets_ok E (snd (make_app_def E p calls))"
  by (cases "(E, p, calls)" rule: make_app_def.cases) (auto simp: set_int_app_def_def nets_ok_snoc)

lemma make_pin_fig_ok: "nets_ok E (snd st) \<Longrightarrow> nets_ok E (snd (make_pin_fig T pin term f st))"
  by (cases f; cases st) (auto simp: Let_def net_neutral_def intro!: nets_ok_neutral)

lemma create_terminal_pin_ok:
  assumes "net_law E" and "nets_ok E (snd st)"
  shows "nets_ok E (snd (create_terminal_pin T E st t))"
proof (cases st)
  case (Pair cnt calls)
  with assms have *: "nets_ok E (ensure_net E (c_str (fst t)) s calls)"
    "en_find_net E (ensure_net E (c_str (fst t)) s calls) (c_str (fst t)) = Explicit_net" for s
    by (simp_all add: ensure_net_ok)
  have "nets_ok E (ensure_net E (c_str (fst t)) s calls @
      [Oc_term_create (c_str (fst t)) (c_str (fst t)) ty, Oc_pin_create (c_str (fst t)) d])" for s ty d
    using * by (simp add: nets_ok_append)
  then show ?thesis
    by (simp add: Pair create_terminal_pin_def Let_def make_pin_fig_ok)
qed

lemma write_inst_term_ok:
  assumes "net_law E" and "nets_ok E calls"
  shows "nets_ok E (snd (write_inst_term E inst ptr xf t calls))"
proof (cases "sm_lookup (inst_connections inst) (fst t)")
  case None
  with assms show ?thesis by (simp add: write_inst_term_def)
next
  case (Some net_str)
  define net where "net = c_str net_str"
  let ?c = "ensure_net E net None calls"
  let ?d = "?c @ [Oc_inst_term_create net ptr (fst t)]"
  have e: "en_find_net E ?c net = Explicit_net" and c: "nets_ok E ?c"
    using ensure_net_ok [OF assms] by simp_all
  then have d: "nets_ok E ?d" by (simp add: nets_ok_snoc)
  have dn: "en_find_net E (?d @ cs) net = Explicit_net" for cs
    using explicit_append [OF assms(1) e, of "[Oc_inst_term_create net ptr (fst t)] @ cs"] by simp
  have ok: "nets_ok E (?d @ [Oc_shape_create a1 a2 a3, Oc_add_to_net p net,
       Oc_text_create b1 b2 b3 b4 b5 b6 b7 b8, Oc_add_to_net q net])" for a1 a2 a3 p b1 b2 b3 b4 b5 b6 b7 b8 q
    using nets_ok_adds [OF assms(1) nets_ok_adds [OF assms(1) d, of "[Oc_shape_create a1 a2 a3]" "Oc_add_to_net p net" net],
        of "[Oc_text_create b1 b2 b3 b4 b5 b6 b7 b8]" "Oc_add_to_net q net" net]
      dn [of "[]"] dn [of "[Oc_shape_create a1 a2 a3] @ [Oc_add_to_net p net]"]
    by (simp add: net_neutral_def)
  show ?thesis using d ok
    by (simp add: Some write_inst_term_def Let_def flip: net_def split: option.splits prod.splits)
qed

lemma make_props_ok:
  "nets_ok E calls \<Longrightarrow> nets_ok E (foldl (\<lambda>calls p. make_prop obj p calls) calls ps)"
  by (rule foldl_inv [where P = "nets_ok E"]) (simp_all add: make_prop_ok)

lemma inst_terms_ok:
  "net_law E \<Longrightarrow> nets_ok E calls \<Longrightarrow> nets_ok E (snd (forS (write_inst_term E i ptr xf) terms calls))"
  by (rule forS_inv [where P = "nets_ok E"]) (simp_all add: write_inst_term_ok)

lemma write_sch_inst_ok:
  assumes "net_law E" and "nets_ok E calls"
  shows "nets_ok E (snd (write_sch_inst T E lib rename_map pair calls))"
proof -
  have *: "nets_ok E (snd (seqS (forS (write_inst_term E i ptr xf) terms (calls @ [c]))
      (\<lambda>calls. (None, foldl (\<lambda>calls p. make_prop obj p calls) calls ps))))"
    if "net_neutral c" for i :: "'a sch_instance" and ptr xf terms c obj ps
    using assms that
    by (intro seqS_inv [where P = "nets_ok E"]) (simp_all add: inst_terms_ok make_props_ok nets_ok_snocs)
  show ?thesis
  proof (cases "parse_cdba_name_unit (fst pair)")
    case (Inr nu)
    note parsed = this
    show ?thesis
    proof (cases "inst_master lib rename_map (snd pair)")
      case (Inr lc)
      then show ?thesis
        using assms * by (cases lc; cases "en_master E (fst lc) (snd lc) (inst_view_name (snd pair))")
          (simp_all add: write_sch_inst_def parsed Let_def net_neutral_def nets_ok_snoc)
    qed (use assms in \<open>simp add: write_sch_inst_def parsed Let_def\<close>)
  qed (use assms in \<open>simp add: write_sch_inst_def Let_def\<close>)
qed

text \<open>
  C13.  While a schematic or a symbol is written, also when writing stops with an exception, a net is
  created only when the design does not have it yet, no net is created twice, and every terminal,
  connection of an instance and shape is put on a net that is there.
\<close>

theorem write_sch_design_nets:
  assumes "net_law E"
  shows "nets_ok E (snd (write_sch_design T E lib cell view is_sch cv rename_map)) \<and>
    distinct (nets_created (snd (write_sch_design T E lib cell view is_sch cv rename_map)))"
proof -
  note inv = foldl_inv [where P = "nets_ok E"] forS_inv [where P = "nets_ok E"] seqS_inv [where P = "nets_ok E"]
  let ?terms = "snd (foldl (create_terminal_pin T E) (0, [Oc_block_create]) (cv_terminals (cv_fields cv)))"
  have terms: "nets_ok E ?terms"
    by (rule foldl_inv [where P = "\<lambda>st. nets_ok E (snd st)"])
       (simp_all add: nets_ok_block create_terminal_pin_ok [OF assms])
  have shapes: "nets_ok E (foldl (\<lambda>calls s. make_shape E s calls) ?terms ss)" for ss
    by (rule inv(1)) (simp_all add: terms make_shape_ok [OF assms])
  have insts: "nets_ok E c \<Longrightarrow> nets_ok E (snd (forS (write_sch_inst T E lib rename_map) is c))" for c "is"
    by (rule inv(2)) (simp_all add: write_sch_inst_ok [OF assms])
  have props: "nets_ok E c \<Longrightarrow> nets_ok E (foldl (write_cv_prop t) c ps)" for c t ps
    by (rule inv(1)) (simp_all add: write_cv_prop_ok)
  have defs: "nets_ok E c \<Longrightarrow> nets_ok E (snd (forS (make_app_def E) ds c))" for c ds
    by (rule inv(2)) (simp_all add: make_app_def_ok)
  have stamp: "nets_ok E c \<Longrightarrow> nets_ok E (snd (update_timestamp E v n c))" for c v n
    by (simp add: update_timestamp_def nets_ok_snoc)
  have stamps: "nets_ok E c \<Longrightarrow> nets_ok E (snd (seqS (update_timestamp E v n c) (update_timestamp E v m)))" for c v n m
    by (rule inv(3)) (simp_all add: stamp)
  have data: "nets_ok E c \<Longrightarrow> nets_ok E (write_sch_cell_data cv lib cell view t (c @ [Oc_save]))" for t c
    by (simp add: write_sch_cell_data_def Let_def nets_ok_append)
  have finish: "nets_ok E c \<Longrightarrow> nets_ok E (c @ [Oc_save, Oc_close])" for c
    by (simp add: nets_ok_append)
  have "nets_ok E (snd (write_sch_design T E lib cell view is_sch cv rename_map))"
    unfolding write_sch_design_def Let_def
    by (intro inv(3) insts defs)
       (simp_all add: terms shapes props data stamps finish nets_ok_snoc split: if_splits)
  with nets_ok_distinct [OF assms] show ?thesis by blast
qed

section \<open>Connections of instances\<close>

fun inst_term_of :: "oa_call \<Rightarrow> (string \<times> nat \<times> string) option" where
  "inst_term_of (Oc_inst_term_create net ptr t) = Some (net, ptr, t)"
| "inst_term_of c = None"

definition inst_terms_of :: "oa_calls \<Rightarrow> (string \<times> nat \<times> string) list" where
  "inst_terms_of calls = List.map_filter inst_term_of calls"

lemma inst_terms_of_simps [simp]:
  "inst_terms_of [] = []" "inst_terms_of (as @ bs) = inst_terms_of as @ inst_terms_of bs"
  "inst_terms_of (c # cs) = (case inst_term_of c of None \<Rightarrow> [] | Some x \<Rightarrow> [x]) @ inst_terms_of cs"
  by (auto simp: inst_terms_of_def map_filter_def split: option.splits)

lemma inst_terms_of_ensure [simp]: "inst_terms_of (ensure_net E n s calls) = inst_terms_of calls"
  by (simp add: ensure_net_def)

lemma inst_terms_of_props [simp]:
  "inst_terms_of (foldl (\<lambda>calls p. make_prop obj p calls) calls ps) = inst_terms_of calls"
  by (induction ps arbitrary: calls) (simp_all add: make_prop_def)

lemma write_inst_term_cases:
  assumes "snd t \<noteq> None"
  shows "case write_inst_term E inst ptr xf t calls of (e, calls') \<Rightarrow>
    (case sm_lookup (inst_connections inst) (fst t) of
       None \<Rightarrow> e = Some Runtime_error
     | Some net \<Rightarrow> e = None \<and> inst_terms_of calls' = inst_terms_of calls @ [(c_str net, ptr, fst t)])"
  using assms
  by (cases "sm_lookup (inst_connections inst) (fst t)")
     (auto simp: write_inst_term_def Let_def split: prod.splits)

lemma write_inst_terms_cases:
  assumes "list_all (\<lambda>t. snd t \<noteq> None) terms"
  shows "case forS (write_inst_term E inst ptr xf) terms calls of (e, calls') \<Rightarrow>
    if list_all (\<lambda>t. sm_lookup (inst_connections inst) (fst t) \<noteq> None) terms
    then e = None \<and> inst_terms_of calls' = inst_terms_of calls @
           map (\<lambda>t. (c_str (the (sm_lookup (inst_connections inst) (fst t))), ptr, fst t)) terms
    else e = Some Runtime_error"
  using assms
proof (induction terms arbitrary: calls)
  case (Cons t ts)
  then have t: "snd t \<noteq> None" and ts: "list_all (\<lambda>t. snd t \<noteq> None) ts" by simp_all
  obtain e c where w: "write_inst_term E inst ptr xf t calls = (e, c)" by fastforce
  show ?case
  proof (cases "sm_lookup (inst_connections inst) (fst t)")
    case None
    with write_inst_term_cases [OF t, where calls = calls and E = E and inst = inst and ptr = ptr and xf = xf] show ?thesis by (simp add: w)
  next
    case (Some net)
    with write_inst_term_cases [OF t, where calls = calls and E = E and inst = inst and ptr = ptr and xf = xf] Cons.IH [OF ts, where calls = c] show ?thesis
      by (auto simp: w split: prod.splits if_splits)
  qed
qed simp

text \<open>
  C21.  An instance whose master is found is connected terminal by terminal, in the order of the master:
  each terminal gets one connection, to the net that the schematic names for it, whose name is passed as a
  C string.  If the schematic names
  none for some terminal, writing stops with a runtime error, and this is the only way to fail.
\<close>

theorem write_sch_inst_connects:
  assumes "sm_inv (inst_connections inst)" and "parse_cdba_name_unit name = Inr nu"
    and "inst_master dsn_lib rename_map inst = Inr (lib, cell)"
    and "en_master E lib cell (inst_view_name inst) = Some terms" and "list_all (\<lambda>t. snd t \<noteq> None) terms"
  shows "case write_sch_inst T E dsn_lib rename_map (name, inst) calls of (e, calls') \<Rightarrow>
    if list_all (\<lambda>t. fst t \<in> dom (map_of (inst_connections inst))) terms
    then e = None \<and> inst_terms_of calls' = inst_terms_of calls @
           map (\<lambda>t. (c_str (the (map_of (inst_connections inst) (fst t))), length calls, fst t)) terms
    else e = Some Runtime_error"
proof -
  define c where "c = (if unit_is_vector nu
    then Oc_vector_inst_create lib cell (inst_view_name inst) (nu_base nu) (rg_start (nu_range nu)) (rg_stop (nu_range nu))
      (get_oa_xform T (inst_xform inst))
    else Oc_scalar_inst_create lib cell (inst_view_name inst) (nu_base nu) (get_oa_xform T (inst_xform inst)))"
  then have c: "inst_term_of c = None" by simp
  obtain e calls' where w: "forS (write_inst_term E inst (length calls) (get_oa_xform T (inst_xform inst))) terms
      (calls @ [c]) = (e, calls')" by fastforce
  from write_inst_terms_cases [OF assms(5), where E = E and inst = inst and ptr = "length calls"
      and xf = "get_oa_xform T (inst_xform inst)" and calls = "calls @ [c]"]
  show ?thesis
    by (auto simp: write_sch_inst_def Let_def assms w c dom_def sm_lookup_map_of seqS_def simp flip: c_def
        split: if_splits)
qed

section \<open>Texts\<close>

lemma cv_term_vec_spec:
  "cv_term_vec terms =
     map fst (filter (\<lambda>p. pf_ttype (snd p) = Term_input) terms) @
     map fst (filter (\<lambda>p. pf_ttype (snd p) = Term_output) terms) @
     map fst (filter (\<lambda>p. pf_ttype (snd p) \<noteq> Term_input \<and> pf_ttype (snd p) \<noteq> Term_output) terms)"
proof -
  have "foldl (\<lambda>(term_vec, tmp1, tmp2) (term_name, fig).
      (case pf_ttype fig of
         Term_input \<Rightarrow> (term_vec @ [term_name], tmp1, tmp2)
       | Term_output \<Rightarrow> (term_vec, tmp1 @ [term_name], tmp2)
       | _ \<Rightarrow> (term_vec, tmp1, tmp2 @ [term_name]))) (a, b, c) terms
    = (a @ map fst (filter (\<lambda>p. pf_ttype (snd p) = Term_input) terms),
       b @ map fst (filter (\<lambda>p. pf_ttype (snd p) = Term_output) terms),
       c @ map fst (filter (\<lambda>p. pf_ttype (snd p) \<noteq> Term_input \<and> pf_ttype (snd p) \<noteq> Term_output) terms))" for a b c
    by (induction terms arbitrary: a b c) (auto split: term_type.splits)
  from this [of "[]" "[]" "[]"] show ?thesis by (simp add: cv_term_vec_def)
qed

lemma term_names_perm: "mset (cv_term_vec terms) = mset (map fst terms)"
  unfolding cv_term_vec_spec by (induction terms) auto

text \<open>
  The list of the masters of a schematic gives the view of the first one only: for the others it
  has the name of the cell twice, and does not depend on their views.
\<close>

theorem dependencies_lose_views:
  "dependencies_text (d # rest) = dependencies_text (d # map (\<lambda>(lib, cell, view). (lib, cell, cell)) rest)"
  by (simp add: dependencies_text_def case_prod_unfold comp_def split: prod.splits)

text \<open>
  The bits of an instance are created from the first and the last index: the step of the range is
  lost.
\<close>

theorem vector_instance_step_lost:
  assumes "parse_cdba_name_unit n1 = Inr u1" and "parse_cdba_name_unit n2 = Inr u2"
    and "unit_is_vector u1" and "unit_is_vector u2" and "nu_base u1 = nu_base u2"
    and "rg_start (nu_range u1) = rg_start (nu_range u2)" and "rg_stop (nu_range u1) = rg_stop (nu_range u2)"
  shows "write_sch_inst T E dsn_lib rename_map (n1, inst) calls = write_sch_inst T E dsn_lib rename_map (n2, inst) calls"
  using assms by (simp add: write_sch_inst_def)

section \<open>Examples\<close>

definition plain_env :: oa_env where
  "plain_env = \<lparr>en_find_net = (\<lambda>calls n. if n \<in> set (nets_created calls) then Explicit_net else No_net),
     en_find_term = (\<lambda>calls n. False), en_find_int_app_def = (\<lambda>n. True), en_find_string_app_def = (\<lambda>n. True),
     en_find_prop = (\<lambda>calls n. True), en_find_via_def = (\<lambda>n. True), en_master = (\<lambda>lib cell view. Some []),
     en_center = (\<lambda>xf b. (0, 0)), en_timestamp = (\<lambda>calls. 7), en_is_rectangle = (\<lambda>pts. length pts = 4),
     en_bbox = (\<lambda>pts. \<lparr>ob_left = 0, ob_bottom = 0, ob_right = 1, ob_top = 1\<rparr>)\<rparr>"

definition one_cell :: "string \<Rightarrow> (string \<times> (orientation \<times> point) sch_instance) list
    \<Rightarrow> (orientation \<times> point) sch_cellview" where
  "one_cell name insts = Cellview ((make_sch_cellview ''lib'' name ''schematic'' 0 0 0 0)
     \<lparr>cv_instances := insts\<rparr>) None"

definition plain_inst :: "(orientation \<times> point) sch_instance" where
  "plain_inst = make_instance ''lib'' ''inv'' ''symbol'' (OR0, (0, 0)) 0 0 2 2"

lemma plain_parse: "parse_cdba_name_unit ''X'' = Inr \<lparr>nu_base = ''X'', nu_range = range_default\<rparr>"
  by code_simp

text \<open>The statements above on small values.\<close>

definition plain_design :: oa_design where
  "plain_design = \<lparr>od_bbox = get_box (make_box 0 0 4 4), od_terms = [],
     od_shapes = [\<lparr>os_layer = 1, os_purpose = 2, os_data = Oa_line [(0, 0), (4, 0)], os_net = Some ''n'', os_has_pin = False\<rparr>,
       \<lparr>os_layer = 1, os_purpose = 2, os_data = Oa_rect (get_box (make_box 0 0 4 4)), os_net = None, os_has_pin = True\<rparr>],
     od_insts = [], od_props = [(''p'', Oa_int_prop 3), (''p'', Oa_int_prop 4)],
     od_app_defs = [(''cdbRevision'', Oa_int_app_def 7), (''other'', Oa_string_app_def ''x'')]\<rparr>"

theorem read_design_correct_witness:
  "\<exists>cv. read_design pair_ops ''lib'' ''cell'' ''schematic'' {} plain_design = Inr cv \<and>
     map_of (cv_props (cv_fields cv)) ''p'' = Some (V_int 3) \<and>
     map_of (cv_app_defs (cv_fields cv)) ''other'' = None \<and> length (cv_shapes (cv_fields cv)) = 1"
proof -
  have "\<exists>cv. read_design pair_ops ''lib'' ''cell'' ''schematic'' {} plain_design = Inr cv"
    by (simp add: read_design_def plain_design_def make_sch_cellview_def Let_def push_shape_def insert_prop_def
        insert_app_def_def include_shape_def read_shape_defs)
  then obtain cv where cv: "read_design pair_ops ''lib'' ''cell'' ''schematic'' {} plain_design = Inr cv" ..
  from read_design_correct [OF cv] have "map_of (cv_props (cv_fields cv)) ''p'' = Some (V_int 3) \<and>
     map_of (cv_app_defs (cv_fields cv)) ''other'' = None \<and> length (cv_shapes (cv_fields cv)) = 1"
    by (auto simp: plain_design_def include_shape_def read_shape_def save_app_def_def dest: arg_cong [where f = length])
  with cv show ?thesis by blast
qed

text \<open>
  A database in which the box of a quarter of an ellipse is a quarter of its box: the arc from 0 to the
  angle with the bit pattern of a right one, which is read with half of the width and height.
\<close>

definition quarter_box :: arc_box where
  "quarter_box box start stop =
     (if start = 0 \<and> stop = 0x3FF921FB54442D18
      then box\<lparr>ob_left := (ob_left box + ob_right box) div 2, ob_bottom := (ob_bottom box + ob_top box) div 2\<rparr> else box)"

definition plain_db :: oa_db where
  "plain_db calls p =
     (case calls ! p of
        Oc_shape_create lay purp args \<Rightarrow>
          \<lparr>os_layer = lay, os_purpose = purp, os_data = accessors_of quarter_box args, os_net = last_net p calls,
           os_has_pin = False\<rparr>
      | _ \<Rightarrow> \<lparr>os_layer = 0, os_purpose = 0, os_data = Oa_other_shape [], os_net = None, os_has_pin = False\<rparr>)"

lemma plain_db_law: "shape_law quarter_box plain_db"
  by (simp add: shape_law_def plain_db_def)

theorem shape_round_trip_witness:
  "read_shape (plain_db (make_shape plain_env (Shape_line (make_sch_line 1 2 ''n'' 0)) []) 0)
     = Inr (Shape_line (make_sch_line 1 2 ''n'' 0)) \<and>
   read_shape (plain_db (make_shape plain_env (Shape_arc (make_sch_arc 1 2 ''n'' 0 0x3FF921FB54442D18 0 0 10 10)) []) 0)
     = Inr (Shape_arc (make_sch_arc 1 2 ''n'' 0 0x3FF921FB54442D18 5 5 10 10))"
  using shape_round_trip [OF _ plain_db_law, of "Shape_line (make_sch_line 1 2 ''n'' 0)" plain_env "[]"]
    shape_round_trip [OF _ plain_db_law, of "Shape_arc (make_sch_arc 1 2 ''n'' 0 0x3FF921FB54442D18 0 0 10 10)" plain_env "[]"]
  by (simp add: make_figure_defs c_str_def quarter_box_def make_box_def get_box_def box_xl_def box_xh_def box_yl_def box_yh_def)

lemma plain_env_net_law: "net_law plain_env"
  by (auto simp: net_law_def plain_env_def split: if_splits)

theorem write_sch_design_nets_witness:
  "nets_ok plain_env (snd (write_sch_design pair_ops plain_env ''out'' ''BUF_1'' ''schematic'' True
       (one_cell ''buf'' [(''X'', plain_inst)]) None)) \<and>
   distinct (nets_created (snd (write_sch_design pair_ops plain_env ''out'' ''BUF_1'' ''schematic'' True
       (one_cell ''buf'' [(''X'', plain_inst)]) None)))"
  by (rule write_sch_design_nets [OF plain_env_net_law])

theorem write_sch_inst_connects_witness:
  "case write_sch_inst pair_ops (plain_env\<lparr>en_master := (\<lambda>lib cell view. Some [(''A'', Some (get_box (make_box 0 0 2 2)))])\<rparr>)
       ''out'' (Some [''inv'' \<mapsto> ''INV_1'']) (''X'', plain_inst\<lparr>inst_connections := [(''A'', ''n'')]\<rparr>) [] of (e, calls') \<Rightarrow>
     e = None \<and> inst_terms_of calls' = [(''n'', 0, ''A'')]"
  using write_sch_inst_connects [where E = "plain_env\<lparr>en_master := (\<lambda>lib cell view. Some [(''A'', Some (get_box (make_box 0 0 2 2)))])\<rparr>"
      and inst = "plain_inst\<lparr>inst_connections := [(''A'', ''n'')]\<rparr>" and name = "''X''" and dsn_lib = "''out''"
      and rename_map = "Some [''inv'' \<mapsto> ''INV_1'']" and T = pair_ops and calls = "[]"
      and lib = "''out''" and cell = "''INV_1''" and terms = "[(''A'', Some (get_box (make_box 0 0 2 2)))]", OF _ plain_parse]
  by (simp add: plain_inst_def make_instance_def inst_master_def sm_inv_def c_str_def)

end
