(* ===== verification/Oa_Layout_Props.thy ===== *)
theory Oa_Layout_Props
  imports Oa_Layout Oa_Write_Props
begin

text \<open>
  The polygons of a layout, and the names under which the masters of a list of cells are written.
\<close>

section \<open>Polygons\<close>

lemma set_points_spec:
  "pts \<noteq> [] \<Longrightarrow> set_points pts = Inr (if last pts = hd pts then butlast pts else pts)"
proof -
  have "foldl (\<lambda>arr p. arr @ [(fst p, snd p)]) acc pts = acc @ pts" for acc :: "oa_point list"
    by (induction pts arbitrary: acc) auto
  from this [of "[]"] show "pts \<noteq> [] \<Longrightarrow> set_points pts = Inr (if last pts = hd pts then butlast pts else pts)"
    by (auto simp: set_points_def Let_def last_conv_nth hd_conv_nth butlast_conv_take)
qed

lemma set_point_array_id: "set_point_array poly = poly"
proof -
  have "foldl (\<lambda>arr (idx, p). arr[idx := (fst p, snd p)]) (us @ replicate (length vs) (0, 0))
      (zip [length us..<length us + length vs] vs) = us @ vs" for us vs :: "oa_point list"
  proof (induction vs arbitrary: us)
    case (Cons v vs)
    from Cons.IH [of "us @ [v]"] show ?case
      by (simp add: upt_conv_Cons list_update_append del: upt_Suc)
  qed simp
  from this [of "[]" poly] show ?thesis by (simp add: set_point_array_def)
qed

text \<open>The calls for a list of polygons, one after the other, from a position in the sequence on.\<close>

fun paint_polygons ::
  "oa_env \<Rightarrow> lay_t \<Rightarrow> purp_t \<Rightarrow> 8 word option \<Rightarrow> nat \<Rightarrow> oa_point list list \<Rightarrow> oa_calls" where
  "paint_polygons E lay purp color k [] = []"
| "paint_polygons E lay purp color k (p # ps) =
     (let one = Oc_shape_create lay purp (polygon_data E p) # set_color color k
      in one @ paint_polygons E lay purp color (k + length one) ps)"

lemma record_last_paint:
  "record_last E w calls = calls @ paint_polygons E (pw_layer w) (pw_purpose w) (pw_color w) (length calls)
     (filter (\<lambda>p. p \<noteq> []) [pw_last w])"
  by (simp add: record_last_def Let_def)

lemma paint_append: "paint_polygons E lay purp color k (ps @ qs) = paint_polygons E lay purp color k ps @
    paint_polygons E lay purp color (k + length (paint_polygons E lay purp color k ps)) qs"
  by (induction ps arbitrary: k) (auto simp: Let_def add.assoc)

lemma push_set_points:
  "mapR set_points pps = Inr polys \<Longrightarrow>
     forS (\<lambda>pts. tryS (set_points pts) (\<lambda>v st. (None, pw_push_back E v st))) pps =
     forS (\<lambda>v st. (None, pw_push_back E v st)) polys"
  by (induction pps arbitrary: polys) (auto simp: result_simps intro!: ext)

lemma paint_all:
  "forS (\<lambda>v calls. (None, record_last E (w\<lparr>pw_last := v\<rparr>) calls)) polys calls =
     (None, calls @ paint_polygons E (pw_layer w) (pw_purpose w) (pw_color w) (length calls) (filter (\<lambda>p. p \<noteq> []) polys))"
  by (induction polys arbitrary: calls) (simp_all add: record_last_paint Let_def add.assoc)

text \<open>
  C24.  The writer that holds back its last polygon creates the polygons of a geometry as if each were
  written at once: in their order, each once, on the layer of the color map, and the color of each is set on
  the shape created for it; polygons of no points are left out.
\<close>

theorem lay_geometry_polygons:
  assumes "mapR set_points (lo_polygons G geo) = Inr polys"
  shows "create_lay_geometry G E color_map ((lay, purp), geo) calls =
    (None, calls @ paint_polygons E (fst (map_color color_map lay)) purp (snd (map_color color_map lay))
       (length calls) (filter (\<lambda>p. p \<noteq> []) polys))"
proof -
  obtain layer color where m: "map_color color_map lay = (layer, color)" by fastforce
  let ?w = "make_poly_writer layer purp color"
  have "(case forS (\<lambda>v st. (None, pw_push_back E v st)) polys (?w, calls) of
      (e, (w, calls)) \<Rightarrow> seqS (e, calls) (\<lambda>calls. (None, record_last E w calls))) =
    (None, calls @ paint_polygons E layer purp color (length calls) (filter (\<lambda>p. p \<noteq> []) polys))"
    using oa_held.fill [of E polys ?w calls] paint_all [of E ?w polys "record_last E ?w calls"]
    by (simp add: make_poly_writer_def record_last_def [of E "\<lparr>pw_layer = layer, pw_purpose = purp, pw_color = color, pw_last = []\<rparr>"])
  then show ?thesis by (simp add: create_lay_geometry_def m push_set_points [OF assms])
qed

lemma create_boundary_spec: "create_boundary calls b = calls @
    (if bd_type b = Bnd_PR then [Oc_pr_boundary_create (bd_pts b)] else []) @ [Oc_snap_boundary_create (bd_pts b)]"
  by (cases "bd_type b") (simp_all add: create_boundary_def set_point_array_id Let_def)

text \<open>
  Every boundary of the kind that encloses placement and routing is written twice, the second time as
  a snap boundary: as many snap boundaries are created as there are boundaries of both kinds.
\<close>

theorem boundaries_fall_through:
  "length (filter (\<lambda>c. \<exists>pts. c = Oc_snap_boundary_create pts) (foldl create_boundary [] bs)) = length bs \<and>
   length (filter (\<lambda>c. \<exists>pts. c = Oc_pr_boundary_create pts) (foldl create_boundary [] bs)) =
     length (filter (\<lambda>b. bd_type b = Bnd_PR) bs)"
  by (induction bs rule: rev_induct) (simp_all add: create_boundary_spec)

section \<open>Names of masters\<close>

text \<open>Calls are only added.\<close>

lemma ensure_net_grows: "set calls \<subseteq> set (ensure_net E n s calls)"
  by (auto simp: ensure_net_def)

lemma write_inst_term_grows: "set calls \<subseteq> set (snd (write_inst_term E inst ptr xf t calls))"
  using ensure_net_grows [of calls E _ None]
  by (auto simp: write_inst_term_def Let_def split: option.splits prod.splits)

lemma make_props_grow: "set calls \<subseteq> set (foldl (\<lambda>calls p. make_prop obj p calls) calls ps)"
  by (rule foldl_inv [where P = "\<lambda>s. set calls \<subseteq> set s"]) (auto simp: make_prop_def)

lemma inst_terms_grow: "set calls \<subseteq> set (snd (forS (write_inst_term E inst ptr xf) ts calls))"
  by (rule forS_inv [where P = "\<lambda>s. set calls \<subseteq> set s"]) (auto dest: subsetD [OF write_inst_term_grows])

fun inst_master_of :: "oa_call \<Rightarrow> (string \<times> string \<times> string) option" where
  "inst_master_of (Oc_scalar_inst_create lib cell view name xf) = Some (lib, cell, view)"
| "inst_master_of (Oc_vector_inst_create lib cell view name a b xf) = Some (lib, cell, view)"
| "inst_master_of c = None"

lemma write_sch_inst_master:
  assumes "write_sch_inst T E lib rename_map (n, inst) calls = (None, calls')"
  shows "set calls \<subseteq> set calls' \<and> (\<exists>l cell. inst_master lib rename_map inst = Inr (l, cell) \<and>
    Some (l, cell, inst_view_name inst) \<in> inst_master_of ` set calls')"
proof -
  from assms obtain nu where nu: "parse_cdba_name_unit n = Inr nu"
    by (cases "parse_cdba_name_unit n") (auto simp: write_sch_inst_def Let_def)
  with assms obtain l cell where m: "inst_master lib rename_map inst = Inr (l, cell)"
    by (cases "inst_master lib rename_map inst") (auto simp: write_sch_inst_def Let_def)
  define c where "c = (if unit_is_vector nu
    then Oc_vector_inst_create l cell (inst_view_name inst) (nu_base nu) (rg_start (nu_range nu)) (rg_stop (nu_range nu))
      (get_oa_xform T (inst_xform inst))
    else Oc_scalar_inst_create l cell (inst_view_name inst) (nu_base nu) (get_oa_xform T (inst_xform inst)))"
  then have c: "inst_master_of c = Some (l, cell, inst_view_name inst)" by simp
  have grow: "set (calls @ [c]) \<subseteq> set (foldl (\<lambda>calls p. make_prop obj p calls)
      (snd (forS (write_inst_term E inst ptr xf) ts (calls @ [c]))) ps)" for obj ptr xf ts ps
    using inst_terms_grow [of "calls @ [c]"] make_props_grow by blast
  from assms obtain terms s where
    s: "forS (write_inst_term E inst (length calls) (get_oa_xform T (inst_xform inst))) terms (calls @ [c]) = (None, s)"
    and out: "calls' = foldl (\<lambda>calls' p. make_prop (Ref_made (length calls)) p calls') s (inst_params inst)"
    by (cases "en_master E l cell (inst_view_name inst)")
       (auto simp: write_sch_inst_def Let_def nu m seqS_eq_None simp flip: c_def)
  have "set (calls @ [c]) \<subseteq> set calls'"
    using grow [of "Ref_made (length calls)" "length calls" "get_oa_xform T (inst_xform inst)" terms "inst_params inst"]
    by (simp add: s out)
  then show ?thesis using c m by force
qed

lemma write_sch_insts_masters:
  assumes "forS (write_sch_inst T E lib rename_map) ps calls = (None, calls')"
  shows "set calls \<subseteq> set calls' \<and> (\<forall>p\<in>set ps. \<exists>l cell. inst_master lib rename_map (snd p) = Inr (l, cell) \<and>
    Some (l, cell, inst_view_name (snd p)) \<in> inst_master_of ` set calls')"
  using assms
proof (induction ps arbitrary: calls)
  case (Cons p ps)
  then obtain c where p: "write_sch_inst T E lib rename_map (fst p, snd p) calls = (None, c)"
    and ps: "forS (write_sch_inst T E lib rename_map) ps c = (None, calls')" by (auto simp: seqS_eq_None)
  from write_sch_inst_master [OF p] Cons.IH [OF ps] show ?case by fastforce
qed simp

lemma write_sch_design_masters:
  assumes "write_sch_design T E lib cell view is_sch cv rename_map = (None, calls)"
    and "p \<in> set (cv_instances (cv_fields cv))"
  shows "\<exists>l c. inst_master lib rename_map (snd p) = Inr (l, c) \<and>
    Some (l, c, inst_view_name (snd p)) \<in> inst_master_of ` set calls"
proof -
  let ?t = "get_cv_term_order cv"
  have props: "set c \<subseteq> set (foldl (write_cv_prop ?t) c ps)" for c ps
    by (rule foldl_inv [where P = "\<lambda>s. set c \<subseteq> set s"]) (auto simp: write_cv_prop_def make_prop_def)
  have app_def: "set c \<subseteq> set (snd (make_app_def E d c))" for c d
    by (cases "(E, d, c)" rule: make_app_def.cases) (auto simp: set_int_app_def_def)
  have defs: "set c \<subseteq> set (snd (forS (make_app_def E) ds c))" for c ds
    by (rule forS_inv [where P = "\<lambda>s. set c \<subseteq> set s"]) (auto dest: subsetD [OF app_def])
  have stamp: "set c \<subseteq> set (snd (update_timestamp E v n c))" for c v n
    by (auto simp: update_timestamp_def)
  have stamps: "set c \<subseteq> set (snd (seqS (update_timestamp E v n c) (update_timestamp E v m)))" for c v n m
    by (rule seqS_inv [where P = "\<lambda>s. set c \<subseteq> set s"]) (auto dest: subsetD [OF stamp])
  have data: "set c \<subseteq> set (write_sch_cell_data cv lib cell view ?t c)" for c
    by (auto simp: write_sch_cell_data_def Let_def)
  let ?data = "\<lambda>c. write_sch_cell_data cv lib cell view ?t (c @ [Oc_save])"
  from assms(1) [unfolded write_sch_design_def Let_def seqS_eq_None] obtain c0 c1 c2 c3 where
    insts: "forS (write_sch_inst T E lib rename_map) (cv_instances (cv_fields cv)) c0 = (None, c1)"
    and c2: "forS (make_app_def E) (cv_app_defs (cv_fields cv)) (foldl (write_cv_prop ?t) c1 (cv_props (cv_fields cv))) = (None, c2)"
    and c3: "(if is_sch then
        seqS (update_timestamp E (en_timestamp E (?data c2) + 2) ''connectivityLastUpdated'' (?data c2))
          (update_timestamp E (en_timestamp E (?data c2) + 2) ''schGeometryLastUpdated'')
      else (None, c2 @ [Oc_save])) = (None, c3)"
    and calls: "(None, c3 @ [Oc_save, Oc_close]) = (None :: cbag_error option, calls)"
    by (elim exE conjE) (rule that)
  have "set c1 \<subseteq> set c2" using props [of c1] defs c2 by (metis order_trans snd_conv)
  moreover have "set c2 \<subseteq> set c3"
  proof (cases is_sch)
    case True
    let ?c = "write_sch_cell_data cv lib cell view ?t (c2 @ [Oc_save])"
    from c3 True stamps [of ?c] have "set ?c \<subseteq> set c3" by (metis (full_types) snd_conv)
    with data [of "c2 @ [Oc_save]"] show ?thesis by auto
  qed (use c3 in auto)
  ultimately have "set c1 \<subseteq> set calls" using calls by auto
  with write_sch_insts_masters [OF insts] assms(2) show ?thesis by blast
qed

text \<open>The names under which cells are written, by their own names; the last one counts.\<close>

definition cell_names :: "(string \<times> 'x sch_cellview) list \<Rightarrow> (string \<times> string) list" where
  "cell_names cvs = map (\<lambda>e. (cv_cell_name (cv_fields (snd e)), fst e)) cvs"

lemma implement_sch_cells_prefix:
  "implement_sch_cells T envs open_fn lib sch symv cvs rn log = (e, log') \<Longrightarrow> \<exists>post. log' = log @ post"
proof (induction cvs arbitrary: rn log)
  case (Cons x cvs)
  then show ?case
    by (cases x) (fastforce simp: log_design_def split: prod.splits option.splits if_splits)
qed simp

lemma implement_sch_cells_log:
  assumes "implement_sch_cells T envs open_fn lib sch symv cvs rn log = (None, log')" and "i < length cvs"
  shows "\<exists>pre calls post. log' = log @ pre @ ((lib, fst (cvs ! i), sch), calls) # post \<and>
    (\<forall>j<i. (lib, fst (cvs ! j), sch) \<in> fst ` set pre) \<and>
    (\<forall>p\<in>set (cv_instances (cv_fields (snd (cvs ! i)))). \<exists>l c.
       inst_master lib (Some (rn ++ map_of (rev (cell_names (take i cvs))))) (snd p) = Inr (l, c) \<and>
       Some (l, c, inst_view_name (snd p)) \<in> inst_master_of ` set calls)"
  using assms
proof (induction cvs arbitrary: rn log i)
  case Nil
  then show ?case by simp
next
  case (Cons e cvs)
  obtain name cv where e: "e = (name, cv)" by fastforce
  let ?w = "write_sch_cellview T (envs log) open_fn lib name sch True cv (Some rn)"
  from Cons.prems(1) obtain more where w: "fst ?w = None"
    and rest: "implement_sch_cells T envs open_fn lib sch symv cvs (rn(cv_cell_name (cv_fields cv) \<mapsto> name))
      (log @ ((lib, name, sch), snd ?w) # more) = (None, log')"
    by (auto simp: e log_design_def split: prod.splits option.splits if_splits)
  show ?case
  proof (cases i)
    case 0
    from w have d: "write_sch_design T (envs log) lib name sch True cv (Some rn) = (None, snd ?w)"
      by (auto simp: write_sch_cellview_def split: sum.splits prod.splits)
    obtain post where "log' = (log @ ((lib, name, sch), snd ?w) # more) @ post"
      using implement_sch_cells_prefix [OF rest] by blast
    with write_sch_design_masters [OF d] show ?thesis
      by (intro exI [of _ "[]"] exI [of _ "snd ?w"] exI [of _ "more @ post"]) (auto simp: 0 e cell_names_def)
  next
    case (Suc k)
    with Cons.prems(2) have k: "k < length cvs" by simp
    from Cons.IH [OF rest k] obtain pre calls post where
      log: "log' = (log @ ((lib, name, sch), snd ?w) # more) @ pre @ ((lib, fst (cvs ! k), sch), calls) # post"
      and before: "\<forall>j<k. (lib, fst (cvs ! j), sch) \<in> fst ` set pre"
      and insts: "\<forall>p\<in>set (cv_instances (cv_fields (snd (cvs ! k)))). \<exists>l c.
        inst_master lib (Some (rn(cv_cell_name (cv_fields cv) \<mapsto> name) ++ map_of (rev (cell_names (take k cvs))))) (snd p) = Inr (l, c) \<and>
        Some (l, c, inst_view_name (snd p)) \<in> inst_master_of ` set calls" by blast
    have names: "rn ++ map_of (rev (cell_names (take i (e # cvs))))
        = rn(cv_cell_name (cv_fields cv) \<mapsto> name) ++ map_of (rev (cell_names (take k cvs)))"
      by (simp add: Suc e cell_names_def)
    have "(lib, fst ((e # cvs) ! j), sch) \<in> fst ` set (((lib, name, sch), snd ?w) # more @ pre)" if "j < i" for j
      using that before by (cases j) (auto simp: Suc e)
    with insts log show ?thesis unfolding names
      by (intro exI [of _ "((lib, name, sch), snd ?w) # more @ pre"] exI [of _ calls] exI [of _ post]) (auto simp: Suc)
  qed
qed

text \<open>
  C8.  When a list of schematics is written to the end, every instance of a cell that is not primitive was
  given the master that an earlier entry of the list has written, under the name which the last such entry
  has in the library: cells are listed after the cells they use, and renaming a cell renames its uses.
\<close>

theorem implement_sch_list_masters:
  assumes "implement_sch_list T envs open_fn lib sch symv cvs = (None, log)" and "i < length cvs"
    and "p \<in> set (cv_instances (cv_fields (snd (cvs ! i))))" and "\<not> inst_is_primitive (snd p)"
  shows "\<exists>pre calls post m. log = pre @ ((lib, fst (cvs ! i), sch), calls) # post \<and>
    map_of (rev (cell_names (take i cvs))) (inst_cell_name (snd p)) = Some m \<and>
    (lib, m, sch) \<in> fst ` set pre \<and>
    Some (lib, m, inst_view_name (snd p)) \<in> inst_master_of ` set calls"
proof -
  from assms(1) have run: "implement_sch_cells T envs open_fn lib sch symv cvs Map.empty [] = (None, log)"
    by (auto simp: implement_sch_list_def split: prod.splits)
  from implement_sch_cells_log [OF run assms(2)] obtain pre calls post where
    log: "log = [] @ pre @ ((lib, fst (cvs ! i), sch), calls) # post"
    and before: "\<forall>j<i. (lib, fst (cvs ! j), sch) \<in> fst ` set pre"
    and insts: "\<forall>p\<in>set (cv_instances (cv_fields (snd (cvs ! i)))). \<exists>l c.
       inst_master lib (Some (Map.empty ++ map_of (rev (cell_names (take i cvs))))) (snd p) = Inr (l, c) \<and>
       Some (l, c, inst_view_name (snd p)) \<in> inst_master_of ` set calls"
    by (elim exE conjE) (rule that)
  from bspec [OF insts assms(3)] obtain l c where
    m: "inst_master lib (Some (map_of (rev (cell_names (take i cvs))))) (snd p) = Inr (l, c)"
    and call: "Some (l, c, inst_view_name (snd p)) \<in> inst_master_of ` set calls" by auto
  from m assms(4) have l: "l = lib" and c: "map_of (rev (cell_names (take i cvs))) (inst_cell_name (snd p)) = Some c"
    by (auto simp: inst_master_def split: option.splits)
  from map_of_SomeD [OF c] obtain j where "j < i" "j < length cvs" "c = fst (cvs ! j)"
    by (auto simp: cell_names_def in_set_conv_nth)
  with before have "(lib, c, sch) \<in> fst ` set pre" by blast
  with log c call show ?thesis unfolding l append_Nil by blast
qed

section \<open>Examples\<close>

definition plain_lay_ops :: "(orientation \<times> point) lay_ops" where
  "plain_lay_ops = \<lparr>go_transform_box = (\<lambda>b x. b), go_transform_pts = (\<lambda>pts x. pts), go_extents = (\<lambda>pts. None),
     go_meets = (\<lambda>s b. True), lo_set45 = (\<lambda>parts. parts),
     lo_extents = (\<lambda>g. None), lo_polygons = (\<lambda>g. [[(0, 0), (2, 0), (2, 2), (0, 2), (0, 0)], [(5, 5), (9, 5), (9, 9)]])\<rparr>"

theorem lay_geometry_polygons_witness:
  "create_lay_geometry plain_lay_ops plain_env [(1, 10, 2)] ((1, 3), \<lparr>geo_mode = POLY90, geo_data = []\<rparr>) [] =
    (None, [Oc_shape_create 10 3 (Make_rect \<lparr>ob_left = 0, ob_bottom = 0, ob_right = 1, ob_top = 1\<rparr>), Oc_color_set 0 2,
       Oc_shape_create 10 3 (Make_polygon [(5, 5), (9, 5), (9, 9)]), Oc_color_set 2 2])"
proof -
  have polys: "mapR set_points (lo_polygons plain_lay_ops (\<lparr>geo_mode = POLY90, geo_data = []\<rparr>))
      = Inr [[(0, 0), (2, 0), (2, 2), (0, 2)], [(5, 5), (9, 5), (9, 9)]]"
    by (simp add: plain_lay_ops_def set_points_spec)
  from lay_geometry_polygons [OF polys, of plain_env "[(1, 10, 2)]" 1 3 "[]"] show ?thesis
    by (simp add: map_color_def set_color_def polygon_data_def plain_env_def)
qed

theorem implement_sch_list_masters_witness:
  "\<exists>log pre calls post. implement_sch_list pair_ops (\<lambda>log. plain_env) (\<lambda>l c v t m. Inr (Some ())) ''out'' ''schematic'' []
      [(''INV_1'', one_cell ''inv'' []), (''BUF_1'', one_cell ''buf'' [(''X'', plain_inst)])] = (None, log) \<and>
    log = pre @ ((''out'', ''BUF_1'', ''schematic''), calls) # post \<and>
    (''out'', ''INV_1'', ''schematic'') \<in> fst ` set pre \<and>
    Some (''out'', ''INV_1'', ''symbol'') \<in> inst_master_of ` set calls"
proof -
  let ?cvs = "[(''INV_1'', one_cell ''inv'' []), (''BUF_1'', one_cell ''buf'' [(''X'', plain_inst)])]"
  let ?run = "implement_sch_list pair_ops (\<lambda>log. plain_env) (\<lambda>l c v t m. Inr (Some ())) ''out'' ''schematic'' [] ?cvs"
  have "fst ?run = None"
    by (simp add: implement_sch_list_def log_design_def write_sch_cellview_def open_design_def write_sch_design_def
        one_cell_def make_sch_cellview_def Let_def update_timestamp_def plain_env_def plain_inst_def write_sch_inst_def
        plain_parse inst_master_def make_instance_def)
  then obtain log where run: "?run = (None, log)" by (cases ?run) auto
  from implement_sch_list_masters [OF run, of 1 "(''X'', plain_inst)"] run show ?thesis
    by (auto simp: one_cell_def plain_inst_def make_instance_def make_sch_cellview_def cell_names_def)
qed

end
