(* ===== verification/Oa_Database.thy ===== *)
theory Oa_Database
  imports Oa_Library Oa_Layout
begin

text \<open>
  The database: \<^verbatim>\<open>src/cbag/oa/oa_database.cpp\<close>.  The members that read and write cellviews call the
  functions of the theories before, inside a block that translates the exceptions of OpenAccess.
\<close>

section \<open>Opening and closing\<close>

record oa_database =
  db_lib_def_file :: string
  db_yaml_path_map :: "(string \<times> string) list"
  db_primitive_libs :: "string set"

text \<open>
  \<open>open_libs\<close> stands for the initialisation of OpenAccess and \<^verbatim>\<open>openLibs\<close>: it throws, or calls the
  observer with the warnings it has.  The observer keeps the last one.
\<close>

definition on_load_warnings :: "string \<Rightarrow> string \<Rightarrow> string" where
  "on_load_warnings err_msg msg = ''OA Error: '' @ msg"

definition make_oa_database :: "(string \<Rightarrow> string list oa_result) \<Rightarrow> string \<Rightarrow> oa_database oa_result" where
  "make_oa_database open_libs lib_def_fname =
     oa_guarded (bindE (open_libs lib_def_fname) (\<lambda>warnings.
       let err_msg = foldl on_load_warnings [] warnings in
       if err_msg \<noteq> [] then Inl (Cbag_error Runtime_error)
       else Inr \<lparr>db_lib_def_file = lib_def_fname, db_yaml_path_map = [], db_primitive_libs = {}\<rparr>))"

definition add_yaml_path :: "oa_database \<Rightarrow> string \<Rightarrow> string \<Rightarrow> oa_database" where
  "add_yaml_path db lib_name yaml_path =
     db\<lparr>db_yaml_path_map := um_assign (db_yaml_path_map db) lib_name yaml_path\<rparr>"

definition add_primitive_lib :: "oa_database \<Rightarrow> string \<Rightarrow> oa_database" where
  "add_primitive_lib db lib_name = db\<lparr>db_primitive_libs := insert lib_name (db_primitive_libs db)\<rparr>"

definition is_primitive_lib :: "oa_database \<Rightarrow> string \<Rightarrow> bool" where
  "is_primitive_lib db lib_name \<longleftrightarrow> lib_name \<in> db_primitive_libs db"

text \<open>
  The destructor closes the libraries that are open.  \<open>close_lib\<close> stands for \<^verbatim>\<open>oaLib::close\<close>; an
  exception is handled, but then leaves the destructor, which ends the program.
\<close>

fun close_libs :: "(string \<Rightarrow> oa_error option) \<Rightarrow> string list \<Rightarrow> oa_error option \<times> string list" where
  "close_libs close_lib [] = (None, [])"
| "close_libs close_lib (lib # libs) =
     (case close_lib lib of
        Some e \<Rightarrow> (Some (handle_oa_exceptions e), [])
      | None \<Rightarrow> (case close_libs close_lib libs of (e, closed) \<Rightarrow> (e, lib # closed)))"

section \<open>Libraries\<close>

definition get_lib_path :: "(string \<Rightarrow> oa_lib option) \<Rightarrow> string \<Rightarrow> string oa_result" where
  "get_lib_path find_lib lib_name =
     oa_guarded (case find_lib lib_name of
       None \<Rightarrow> Inl (Cbag_error Invalid_argument) | Some lib \<Rightarrow> Inr (ol_path lib))"

text \<open>What creating a library does, in this order; nothing if it is there.\<close>

datatype lib_event =
    Le_make_dirs string
  | Le_create string string
  | Le_attach string string
  | Le_append string string
  | Le_write string string

definition newline :: string where
  "newline = [CHR 0x0A]"

definition create_lib ::
  "(string \<Rightarrow> oa_lib option) \<Rightarrow> oa_database \<Rightarrow> string \<Rightarrow> string \<Rightarrow> string \<Rightarrow> lib_event list" where
  "create_lib find_lib db lib_name lib_path tech_name =
     (case find_lib lib_name of
        Some lib \<Rightarrow> []
      | None \<Rightarrow>
          let new_lib_path = path_join lib_path lib_name in
          (case make_parent_dirs new_lib_path of None \<Rightarrow> [] | Some d \<Rightarrow> [Le_make_dirs d]) @
          [Le_create lib_name new_lib_path, Le_attach lib_name tech_name,
           Le_append (db_lib_def_file db) (''DEFINE '' @ lib_name @ '' '' @ new_lib_path @ newline),
           Le_write (path_join new_lib_path ''cdsinfo.tag'')
             (''CDSLIBRARY'' @ newline @ ''NAMESPACE LibraryUnix'' @ newline)])"

section \<open>Reading and writing cellviews\<close>

definition db_source :: "oa_database \<Rightarrow> oa_source \<Rightarrow> oa_source" where
  "db_source db S = S\<lparr>sr_yaml_path_map := map_of (db_yaml_path_map db), sr_primitive_libs := db_primitive_libs db\<rparr>"

definition get_cells_in_lib :: "oa_source \<Rightarrow> string \<Rightarrow> string list oa_result" where
  "get_cells_in_lib S lib_name = get_cells S lib_name"

definition db_read_sch_cellview ::
  "'x xform_ops \<Rightarrow> oa_source \<Rightarrow> oa_database \<Rightarrow> string \<Rightarrow> string \<Rightarrow> string \<Rightarrow> 'x sch_cellview oa_result" where
  "db_read_sch_cellview T S db lib_name cell_name view_name =
     oa_guarded (read_sch_cellview T (sr_open S) lib_name cell_name view_name (db_primitive_libs db))"

definition db_read_sch_recursive ::
  "'n yaml_ops \<Rightarrow> 'x xform_ops \<Rightarrow> oa_source \<Rightarrow> oa_database \<Rightarrow> nat \<Rightarrow> string \<Rightarrow> string \<Rightarrow> string \<Rightarrow> read_outcome" where
  "db_read_sch_recursive Y T S db n lib_name cell_name view_name =
     read_sch_recursive Y T (db_source db S) n lib_name cell_name view_name"

definition db_read_library ::
  "'n yaml_ops \<Rightarrow> 'x xform_ops \<Rightarrow> oa_source \<Rightarrow> oa_database \<Rightarrow> nat \<Rightarrow> string \<Rightarrow> string \<Rightarrow> read_outcome" where
  "db_read_library Y T S db n lib_name view_name = read_library Y T (db_source db S) n lib_name view_name"

definition guarded_outcome :: "oa_outcome \<Rightarrow> oa_outcome" where
  "guarded_outcome r = (map_option handle_oa_exceptions (fst r), snd r)"

definition db_write_sch_cellview ::
  "'x xform_ops \<Rightarrow> oa_env \<Rightarrow> unit oa_open \<Rightarrow> string \<Rightarrow> string \<Rightarrow> string \<Rightarrow> bool \<Rightarrow> 'x sch_cellview
     \<Rightarrow> (string \<rightharpoonup> string) option \<Rightarrow> oa_outcome" where
  "db_write_sch_cellview T E open_fn lib_name cell_name view_name is_sch cv rename_map =
     guarded_outcome (write_sch_cellview T E open_fn lib_name cell_name view_name is_sch cv rename_map)"

definition db_write_lay_cellview ::
  "'x xform_ops \<Rightarrow> 'x lay_ops \<Rightarrow> ('c \<Rightarrow> string) \<Rightarrow> oa_env \<Rightarrow> unit oa_open \<Rightarrow> string \<Rightarrow> string \<Rightarrow> string
     \<Rightarrow> ('c, 'x) lay_cellview \<Rightarrow> (string \<rightharpoonup> string) option \<Rightarrow> oa_outcome" where
  "db_write_lay_cellview T G cv_name E open_fn lib_name cell_name view_name cv rename_map =
     guarded_outcome (write_lay_oa_cellview T G cv_name E open_fn lib_name cell_name view_name cv rename_map)"

definition db_implement_sch_list ::
  "'x xform_ops \<Rightarrow> (oa_log \<Rightarrow> oa_env) \<Rightarrow> unit oa_open \<Rightarrow> string \<Rightarrow> string \<Rightarrow> string
     \<Rightarrow> (string \<times> 'x sch_cellview) list \<Rightarrow> oa_error option \<times> oa_log" where
  "db_implement_sch_list T envs open_fn lib_name sch_view sym_view cv_list =
     implement_sch_list T envs open_fn lib_name sch_view sym_view cv_list"

definition db_implement_lay_list ::
  "'x xform_ops \<Rightarrow> 'x lay_ops \<Rightarrow> ('c \<Rightarrow> string) \<Rightarrow> (oa_log \<Rightarrow> oa_env) \<Rightarrow> 't oa_tech_ops \<Rightarrow> unit oa_open
     \<Rightarrow> string \<Rightarrow> string \<Rightarrow> (string \<times> ('c, 'x) lay_cellview) list \<Rightarrow> oa_error option \<times> oa_log" where
  "db_implement_lay_list T G cv_name envs H open_fn lib_name view cv_list =
     implement_lay_list T G cv_name envs H open_fn lib_name view cv_list"

text \<open>
  Without a map of names a schematic whose cells are not all primitive cannot be written, although the
  argument of \<^verbatim>\<open>write_sch_cellview\<close> has the null pointer for its default.
\<close>

lemma no_rename_map_undefined:
  assumes "\<not> inst_is_primitive inst" and "parse_cdba_name_unit name = Inr nu"
  shows "write_sch_inst T E lib None (name, inst) calls = (Some Undefined_behaviour, calls)"
  using assms by (simp add: write_sch_inst_def inst_master_def Let_def)

section \<open>Technology files\<close>

text \<open>
  What the code reads of a technology: layers, purposes and definitions of vias, the latter with the
  layers below, of the cut and above.
\<close>

record oa_tech =
  te_layers :: "(lay_t \<times> string) list"
  te_purposes :: "(purp_t \<times> string) list"
  te_drawing :: purp_t
  te_via_defs :: "(string \<times> lay_t \<times> lay_t \<times> lay_t) list"

text \<open>
  The emitter of yaml-cpp takes a sequence of events.  The first one here is the format of sequences that
  is set before the others.
\<close>

datatype yaml_event =
    Ye_begin_map | Ye_end_map | Ye_flow | Ye_block | Ye_begin_seq | Ye_end_seq
  | Ye_key string | Ye_string string | Ye_int int | Ye_bool bool

text \<open>The tuples of pairs that are the keys of the map of vias are lists, in the same order.\<close>

definition via_key :: "purp_t \<Rightarrow> lay_t \<Rightarrow> lay_t \<Rightarrow> lay_t \<Rightarrow> 32 word list" where
  "via_key purp lay1 cut_lay lay2 = [lay1, purp, cut_lay, purp, lay2, purp]"

fun emit_pairs :: "32 word list \<Rightarrow> yaml_event list" where
  "emit_pairs (l # p # rest) =
     [Ye_flow, Ye_begin_seq, Ye_int (uint l), Ye_int (uint p), Ye_end_seq, Ye_block] @ emit_pairs rest"
| "emit_pairs rest = []"

definition emit_ids :: "(32 word, string) smap \<Rightarrow> yaml_event list" where
  "emit_ids m = concat (map (\<lambda>(i, name). [Ye_key name, Ye_int (uint i)]) m)"

definition tech_info_events :: "oa_tech \<Rightarrow> string \<Rightarrow> yaml_event list" where
  "tech_info_events t pin_purpose =
     (let lay_map = foldl (\<lambda>m (i, name). fst (sm_emplace m i name)) [] (te_layers t);
          pur_map = foldl (\<lambda>m (i, name). fst (sm_emplace m i name)) [] (te_purposes t);
          def_purp = te_drawing t;
          via_map = foldl (\<lambda>m (name, lay1, cut_lay, lay2). fst (sm_emplace m (via_key def_purp lay1 cut_lay lay2) name))
                      [] (te_via_defs t)
      in [Ye_flow, Ye_begin_map,
          Ye_key ''options'', Ye_begin_map,
          Ye_key ''default_purpose'', Ye_string ''drawing'',
          Ye_key ''pin_purpose'', Ye_string pin_purpose,
          Ye_key ''make_pin_obj'', Ye_bool True, Ye_end_map,
          Ye_key ''layer'', Ye_begin_map] @ emit_ids lay_map @ [Ye_end_map] @
         [Ye_key ''purpose'', Ye_begin_map] @ emit_ids pur_map @ [Ye_end_map] @
         [Ye_key ''via_layers'', Ye_begin_map] @
         concat (map (\<lambda>(k, via_id). [Ye_key via_id, Ye_block, Ye_begin_seq] @ emit_pairs k @ [Ye_end_seq, Ye_flow]) via_map) @
         [Ye_end_map, Ye_end_map])"

text \<open>The file that is written: \<open>emitted\<close> is the text of the emitter.  This member handles no exceptions.\<close>

definition write_tech_info_file ::
  "oa_tech oa_tech_ops \<Rightarrow> (yaml_event list \<Rightarrow> string) \<Rightarrow> (string \<Rightarrow> bool) \<Rightarrow> string \<Rightarrow> string \<Rightarrow> string
     \<Rightarrow> (string \<times> string) oa_result" where
  "write_tech_info_file H emitted opens fname tech_name pin_purpose =
     bindE (read_tech H tech_name) (\<lambda>t.
       let events = tech_info_events t pin_purpose in
       bindE (liftE (snd (open_file_write opens fname))) (\<lambda>u. Inr (fname, emitted events)))"

text \<open>
  Of several definitions of vias between the same layers only the first is written.
\<close>

lemma tech_info_first_via:
  assumes "te_via_defs t = [(v1, a, c, b), (v2, a, c, b)]"
  shows "tech_info_events t pin = tech_info_events (t\<lparr>te_via_defs := [(v1, a, c, b)]\<rparr>) pin"
proof -
  have "fst (sm_emplace (fst (sm_emplace [] k v)) k w) = fst (sm_emplace [] k v)" for k :: "32 word list" and v w :: string
    by (simp add: sm_emplace_def sv_insert_unique_def sv_lower_bound_def sv_insert_force_def sm_elem_elem_def)
  then show ?thesis by (simp add: tech_info_events_def assms)
qed

end
