(* ===== verification/Gds_Print.thy ===== *)
theory Gds_Print
  imports Gds_Read Decimal
begin

text \<open>
  The listing of a GDSII file for people: \<^verbatim>\<open>to_string\<close> of \<^verbatim>\<open>gdsii/record_type.h\<close>, \<^verbatim>\<open>print_record\<close> of
  \<^verbatim>\<open>read_util.cpp\<close> and the tool \<^verbatim>\<open>util/print_gds.cpp\<close>.  How a \<^verbatim>\<open>double\<close> is formatted, and the text of a
  time, are parameters.  A printer changes the bytes that are left and the text that has been written,
  which stay as they are at an exception.
\<close>

section \<open>Names of records\<close>

fun record_name :: "record_type \<Rightarrow> string" where
  "record_name HEADER = ''HEADER''"
| "record_name BGNLIB = ''BGNLIB''"
| "record_name LIBNAME = ''LIBNAME''"
| "record_name UNITS = ''UNITS''"
| "record_name ENDLIB = ''ENDLIB''"
| "record_name BGNSTR = ''BGNSTR''"
| "record_name STRNAME = ''STRNAME''"
| "record_name ENDSTR = ''ENDSTR''"
| "record_name BOUNDARY = ''BOUNDARY''"
| "record_name SREF = ''SREF''"
| "record_name AREF = ''AREF''"
| "record_name TEXT = ''TEXT''"
| "record_name LAYER = ''LAYER''"
| "record_name DATATYPE = ''DATATYPE''"
| "record_name WIDTH = ''WIDTH''"
| "record_name XY = ''XY''"
| "record_name ENDEL = ''ENDEL''"
| "record_name SNAME = ''SNAME''"
| "record_name COLROW = ''COLROW''"
| "record_name TEXTTYPE = ''TEXTTYPE''"
| "record_name PRESENTATION = ''PRESENTATION''"
| "record_name STRING = ''STRING''"
| "record_name STRANS = ''STRANS''"
| "record_name MAG = ''MAG''"
| "record_name ANGLE = ''ANGLE''"
| "record_name PROPATTR = ''PROPATTR''"
| "record_name PROPVALUE = ''PROPVALUE''"
| "record_name BOX = ''BOX''"
| "record_name BOXTYPE = ''BOXTYPE''"

definition all_records :: "record_type list" where
  "all_records = [HEADER, BGNLIB, LIBNAME, UNITS, ENDLIB, BGNSTR, STRNAME, ENDSTR, BOUNDARY, SREF, AREF, TEXT,
     LAYER, DATATYPE, WIDTH, XY, ENDEL, SNAME, COLROW, TEXTTYPE, PRESENTATION, STRING, STRANS, MAG, ANGLE,
     PROPATTR, PROPVALUE, BOX, BOXTYPE]"

definition record_of_code :: "16 word \<Rightarrow> record_type option" where
  "record_of_code c = find (\<lambda>r. record_code r = c) all_records"

definition record_to_string :: "16 word \<Rightarrow> string result" where
  "record_to_string c =
     (case record_of_code c of None \<Rightarrow> Inl Invalid_argument | Some r \<Rightarrow> Inr (record_name r))"

lemma record_of_code: "record_of_code (record_code r) = Some r"
  by (cases r) (simp_all add: record_of_code_def all_records_def)

section \<open>Printers\<close>

record print_ops =
  po_double :: "real \<Rightarrow> string"
  po_time :: "int list \<Rightarrow> string"

type_synonym 'a printer = "byte list \<times> string \<Rightarrow> 'a result \<times> byte list \<times> string"

definition pret :: "'a \<Rightarrow> 'a printer" where
  "pret x st = (Inr x, st)"

definition pbind :: "'a printer \<Rightarrow> ('a \<Rightarrow> 'b printer) \<Rightarrow> 'b printer" where
  "pbind m f st = (case m st of (Inl e, st') \<Rightarrow> (Inl e, st') | (Inr x, st') \<Rightarrow> f x st')"

definition pfail :: "cbag_error \<Rightarrow> 'a printer" where
  "pfail e st = (Inl e, st)"

definition pread :: "'a reader \<Rightarrow> 'a printer" where
  "pread m st = (case m (fst st) of Inl e \<Rightarrow> (Inl e, st) | Inr (x, s) \<Rightarrow> (Inr x, (s, snd st)))"

definition pout :: "string \<Rightarrow> unit printer" where
  "pout txt st = (Inr (), (fst st, snd st @ txt))"

definition pline :: "string \<Rightarrow> unit printer" where
  "pline txt = pout (txt @ [CHR 0x0A])"

definition hex_digit :: "nat \<Rightarrow> char" where
  "hex_digit d = char_of (if d < 10 then 48 + d else 87 + d)"

definition hex4 :: "16 word \<Rightarrow> string" where
  "hex4 w = ''0x'' @ map (\<lambda>k. hex_digit (unat w div 16 ^ k mod 16)) [3, 2, 1, 0]"

section \<open>Records\<close>

definition print_record_header :: "rec_header printer" where
  "print_record_header =
     pbind (pread read_record_header) (\<lambda>ans.
       case record_to_string (fst ans) of Inl e \<Rightarrow> pfail e | Inr name \<Rightarrow> pbind (pline name) (\<lambda>u. pret ans))"

definition print_time :: "print_ops \<Rightarrow> unit printer" where
  "print_time P =
     pbind (pread rbytes) (\<lambda>year :: 16 word. pbind (pread rbytes) (\<lambda>mon :: 16 word.
     pbind (pread rbytes) (\<lambda>mday :: 16 word. pbind (pread rbytes) (\<lambda>hour :: 16 word.
     pbind (pread rbytes) (\<lambda>minute :: 16 word. pbind (pread rbytes) (\<lambda>sec :: 16 word.
       pout (po_time P [uint year, uint mon - 1, uint mday, uint hour, uint minute, uint sec])))))))"

fun print_points :: "nat \<Rightarrow> unit printer" where
  "print_points 0 = pret ()"
| "print_points (Suc n) =
     pbind (pread rbytes) (\<lambda>x :: 32 word. pbind (pread rbytes) (\<lambda>y :: 32 word.
     pbind (pline (''xy: ('' @ int_to_string (sint x) @ '', '' @ int_to_string (sint y) @ '')'')) (\<lambda>u.
       print_points n)))"

definition print_double :: "print_ops \<Rightarrow> string \<Rightarrow> unit printer" where
  "print_double P label = pbind (pread rbytes) (\<lambda>g :: 64 word. pline (label @ po_double P (gds_to_double g)))"

definition print_uint16 :: "unit printer" where
  "print_uint16 = pbind (pread rbytes) (\<lambda>w :: 16 word. pline (''value: '' @ nat_to_string (unat w)))"

text \<open>A size below four wraps to a number for which no string can reserve room.\<close>

definition print_text :: "64 word \<Rightarrow> unit printer" where
  "print_text num =
     (if 2 ^ 63 \<le> unat num then pfail Length_error
      else pbind (pread (read_chars (unat num))) (\<lambda>ans. pline (''value: '' @ ans)))"

text \<open>The branch of an unknown record is not reached, since its header has no name.\<close>

definition print_data :: "print_ops \<Rightarrow> record_type \<Rightarrow> 64 word \<Rightarrow> unit printer" where
  "print_data P rec num =
     (if rec \<in> {ENDLIB, ENDSTR, BOUNDARY, SREF, AREF, TEXT, ENDEL, BOX} then pret ()
      else if rec \<in> {PRESENTATION, STRANS} then
        pbind (pread rbytes) (\<lambda>w :: 16 word. pline (''bit flag: '' @ hex4 w))
      else if rec \<in> {HEADER, LAYER, DATATYPE, TEXTTYPE, PROPATTR, BOXTYPE} then print_uint16
      else if rec \<in> {BGNLIB, BGNSTR} then
        pbind (pline ''modification time: '') (\<lambda>u. pbind (print_time P) (\<lambda>u.
        pbind (pline ''access time: '') (\<lambda>u. print_time P)))
      else if rec = COLROW then
        pbind (pread rbytes) (\<lambda>nx :: 16 word. pbind (pread rbytes) (\<lambda>ny :: 16 word.
          pline (''nx: '' @ nat_to_string (unat nx) @ '', ny: '' @ nat_to_string (unat ny))))
      else if rec = WIDTH then
        pbind (pread rbytes) (\<lambda>w :: 32 word. pline (''value: '' @ int_to_string (sint w)))
      else if rec = XY then print_points (unat (num div 4 div 2))
      else if rec = UNITS then
        pbind (print_double P ''resolution: '') (\<lambda>u. print_double P ''res unit: '')
      else if rec \<in> {MAG, ANGLE} then print_double P ''value: ''
      else print_text num)"

definition print_gds_record :: "print_ops \<Rightarrow> bool printer" where
  "print_gds_record P =
     pbind print_record_header (\<lambda>(code, num).
       case record_of_code code of
         None \<Rightarrow> pfail Invalid_argument
       | Some rec \<Rightarrow> pbind (print_data P rec num) (\<lambda>u. pret (rec = ENDLIB)))"

section \<open>Files\<close>

text \<open>The tool prints records until one ends the library; not returning is \<open>None\<close>.\<close>

partial_function (option) print_gds_records ::
    "print_ops \<Rightarrow> byte list \<times> string \<Rightarrow> (unit result \<times> byte list \<times> string) option" where
  "print_gds_records P st =
     (case print_gds_record P st of
        (Inl e, st) \<Rightarrow> Some (Inl e, st)
      | (Inr done, st) \<Rightarrow> if done then Some (Inr (), st) else print_gds_records P st)"

definition print_gds :: "print_ops \<Rightarrow> byte list \<Rightarrow> (unit result \<times> string) option" where
  "print_gds P bytes =
     (case print_gds_records P (bytes, []) of
        None \<Rightarrow> None
      | Some (Inl e, (s, out)) \<Rightarrow> Some (Inl e, out)
      | Some (Inr u, (s, out)) \<Rightarrow> Some (Inr (), out @ ''print_gds done.'' @ [CHR 0x0A]))"

section \<open>The listing ends\<close>

text \<open>No printer makes the rest of the file longer.\<close>

definition shrinks :: "'a printer \<Rightarrow> bool" where
  "shrinks m \<longleftrightarrow> (\<forall>st. length (fst (snd (m st))) \<le> length (fst st))"

named_theorems shrinks_intros

lemma read_loop_shrinks: "length (snd (read_loop k ans s)) \<le> length s"
proof (induction k ans s rule: read_loop.induct)
  case (2 k ans s)
  then show ?case by (cases s) (fastforce simp: stream_get_def)+
qed simp

lemma shrinks_rbytes [shrinks_intros]: "shrinks (pread (rbytes :: 'a::len word reader))"
  by (simp add: shrinks_def pread_def rbytes_def read_bytes_def read_loop_shrinks split: prod.splits)
     (metis read_loop_shrinks snd_conv)

lemma shrinks_pret [shrinks_intros]: "shrinks (pret x)"
  by (simp add: shrinks_def pret_def)

lemma shrinks_pfail [shrinks_intros]: "shrinks (pfail x)"
  by (simp add: shrinks_def pfail_def)

lemma shrinks_pout [shrinks_intros]: "shrinks (pout x)" "shrinks (pline x)"
  by (simp_all add: shrinks_def pout_def pline_def)

lemma shrinks_pbind [shrinks_intros]:
  assumes "shrinks m" and "\<And>x. shrinks (f x)"
  shows "shrinks (pbind m f)"
  unfolding shrinks_def
proof
  fix st
  obtain r st' where m: "m st = (r, st')" by (cases "m st")
  with assms(1) have le: "length (fst st') \<le> length (fst st)" unfolding shrinks_def by (metis snd_conv)
  show "length (fst (snd (pbind m f st))) \<le> length (fst st)"
  proof (cases r)
    case (Inr x)
    from assms(2) [of x] have "length (fst (snd (f x st'))) \<le> length (fst st')" unfolding shrinks_def by (rule spec)
    with le show ?thesis by (simp add: pbind_def m Inr)
  qed (simp add: pbind_def m le)
qed

lemma read_chars_shrinks: "read_chars n s = Inr (cs, s') \<Longrightarrow> length s' \<le> length s"
proof (induction n arbitrary: s cs s')
  case (Suc n)
  obtain b s1 where b: "read_bytes s = (b :: byte, s1)" by fastforce
  then have "length s1 \<le> length s" using read_loop_shrinks [of 1 "0 :: byte" s] by (simp add: read_bytes_def)
  moreover obtain cs' where "read_chars n s1 = Inr (cs', s')"
    using Suc.prems by (auto simp: rbind_def rbytes_def b rret_def split: sum.splits)
  ultimately show ?case using Suc.IH by fastforce
qed (simp add: rret_def)

lemma shrinks_read_chars [shrinks_intros]: "shrinks (pread (read_chars n))"
  by (auto simp: shrinks_def pread_def split: sum.splits prod.splits dest: read_chars_shrinks)

lemma shrinks_print_points [shrinks_intros]: "shrinks (print_points n)"
  by (induction n) (auto intro!: shrinks_intros)

lemma shrinks_print_data: "shrinks (print_data P rec num)"
  unfolding print_data_def print_uint16_def print_double_def print_text_def print_time_def
  by (auto intro!: shrinks_intros)

text \<open>
  At the end of the file all bits of a record are set, which is no record; otherwise its header takes four
  bytes.
\<close>

lemma two_bytes: "(read_bytes s :: 16 word \<times> byte list) =
    (case s of [] \<Rightarrow> (- 1, []) | [b] \<Rightarrow> (- 1, []) | b # c # s' \<Rightarrow> (push_bit 8 (word_of_int (uint b)) OR word_of_int (uint c), s'))"
  by (auto simp: read_bytes_def numeral_2_eq_2 stream_get_def split: list.splits)

lemma print_record_header_cases:
  "(\<exists>e st'. print_record_header st = (Inl e, st')) \<or>
   (\<exists>ans st' . print_record_header st = (Inr ans, st') \<and> length (fst st') < length (fst st))"
proof (cases "length (fst st) < 4")
  case True
  then have "fst st = [] \<or> (\<exists>a. fst st = [a]) \<or> (\<exists>a b. fst st = [a, b]) \<or> (\<exists>a b c. fst st = [a, b, c])"
    by (auto simp: numeral_eq_Suc less_Suc_eq length_Suc_conv)
  then obtain size where "read_record_header (fst st) = Inr ((- 1, size), [])"
    by (elim disjE exE) (auto simp: read_record_header_def rbind_def rbytes_def rret_def two_bytes)
  moreover have "record_to_string (- 1) = Inl Invalid_argument"
    by (simp add: record_to_string_def record_of_code_def all_records_def)
  ultimately show ?thesis by (simp add: print_record_header_def pbind_def pread_def pfail_def)
next
  case False
  obtain a b c d s' where s: "fst st = a # b # c # d # s'"
  proof -
    from False obtain a l1 where 1: "fst st = a # l1" "3 \<le> length l1" by (cases "fst st") auto
    from 1(2) obtain b l2 where 2: "l1 = b # l2" "2 \<le> length l2" by (cases l1) auto
    from 2(2) obtain c l3 where 3: "l2 = c # l3" "1 \<le> length l3" by (cases l2) auto
    from 3(2) obtain d l4 where "l3 = d # l4" by (cases l3) auto
    with 1 2 3 show ?thesis using that by blast
  qed
  then obtain code size where "read_record_header (fst st) = Inr ((code, size), s')"
    by (simp add: read_record_header_def rbind_def rbytes_def rret_def two_bytes)
  then show ?thesis
    by (cases "record_to_string code")
       (auto simp: print_record_header_def pbind_def pread_def pfail_def pline_def pout_def pret_def s)
qed

lemma print_record_shrinks:
  assumes "print_gds_record P st = (Inr done, st')"
  shows "length (fst st') < length (fst st)"
proof -
  from print_record_header_cases [of st] assms obtain code num st1
    where h: "print_record_header st = (Inr (code, num), st1)" "length (fst st1) < length (fst st)"
    by (auto simp: print_gds_record_def pbind_def)
  have "shrinks (case record_of_code code of None \<Rightarrow> pfail Invalid_argument
      | Some rec \<Rightarrow> pbind (print_data P rec num) (\<lambda>u. pret (rec = ENDLIB)))"
    by (auto split: option.split intro!: shrinks_intros shrinks_print_data)
  then have "length (fst st') \<le> length (fst st1)"
    using assms h(1) unfolding shrinks_def print_gds_record_def pbind_def
    by (metis (no_types, lifting) case_prod_conv old.sum.simps(6) snd_conv)
  with h(2) show ?thesis by simp
qed

text \<open>
  The listing of a file ends for every sequence of bytes, also when the library has no end: past the end
  of the file the next record is unknown, which is an error.
\<close>

theorem print_gds_total: "\<exists>r. print_gds P bytes = Some r"
proof -
  have "\<exists>r. print_gds_records P st = Some r" for st
  proof (induction st rule: measure_induct_rule [of "\<lambda>st. length (fst st)"])
    case (less st)
    obtain r st' where st: "print_gds_record P st = (r, st')" by (cases "print_gds_record P st")
    show ?case
    proof (cases r)
      case (Inr fin)
      with st print_record_shrinks [of P st fin st'] less [of st'] show ?thesis
        by (subst print_gds_records.simps) auto
    qed (subst print_gds_records.simps, simp add: st)
  qed
  then obtain r where "print_gds_records P (bytes, []) = Some r" by blast
  then show ?thesis by (cases r; cases "fst r") (auto simp: print_gds_def)
qed

end
