(* ===== verification/Spec2Isabelle.thy ===== *)
theory Spec2Isabelle
  imports Netlist Gds_Roundtrip Via_Search Grid_Props Lay_Cv_Props Lay_Connect_Props Path Gds_Lib_Props
    Yaml_Sch_Props Tech_File Em_Limits Oa_Library Oa_Layout_Props Oa_Database Gds_Print
begin

text \<open>
  A model of cbag, the C++ core of the analog generator BAG.  The library reads schematics from YAML
  files, changes copies of their instances, and writes netlists; it builds layouts from wires on routing
  tracks, vias, paths and instances, and writes and reads them as GDSII files.

  \<^bold>\<open>The parts and how they interact.\<close>  Names with indices and repetitions (\<^verbatim>\<open>src/cbag/spirit\<close>) are the
  common vocabulary of schematics and netlists.  A schematic cellview (\<^verbatim>\<open>src/cbag/schematic\<close>) has
  terminals, instances whose connections are pairs of such names, and shapes; it is stored as a YAML
  document (\<^verbatim>\<open>src/cbag/yaml\<close>).  \<^verbatim>\<open>get_cv_netlist_info\<close> derives the nets and attributes of a cellview, and the
  netlister (\<^verbatim>\<open>src/cbag/netlist\<close>) writes one cell after the other in one of three formats, remembering the
  cells that are known.  On the side of layouts (\<^verbatim>\<open>src/cbag/layout\<close>) a technology file gives layers, rules
  and kinds of vias; a routing grid gives the tracks of every level; a cellview collects shapes, wires,
  vias, pins and instances and enters them into an index per level; the functions of \<^verbatim>\<open>cellview_util\<close>,
  \<^verbatim>\<open>path_util\<close> and \<^verbatim>\<open>routing_grid_util\<close> are what generators call.  \<^verbatim>\<open>src/cbag/gdsii\<close> turns layouts into
  bytes and back, and \<^verbatim>\<open>src/cbag/oa\<close> reads schematics from OpenAccess into files and writes schematics and
  layouts to it.  All of this rests on the containers of \<^verbatim>\<open>include/cbag/util\<close> and on boxes and
  transformations (\<^verbatim>\<open>src/cbag/common\<close>).

  \<^bold>\<open>Conventions.\<close>  \<open>Prelude\<close> holds the types of \<^verbatim>\<open>typedefs.h\<close>: unsigned integers are machine words and
  wrap around, coordinates and other signed integers are mathematical integers, which is exact for all
  executions without overflow.  Conversions are written out: from unsigned to signed integers, and from the
  64 bits of half-track indices to the 32 bits of coordinates (\<open>to_offset\<close>), which wraps around.  A function
  that may throw returns a \<open>result\<close>, whose left side is the class of the exception; \<open>Undefined_behaviour\<close>
  marks executions that C++ leaves undefined, such as a division by zero or a read past an end.  An
  operation that may throw after it has changed its object returns an \<open>outcome\<close>, the exception and the
  object as it is then left.  Values of \<^verbatim>\<open>double\<close> are bit patterns.  Loops that need not end are partial
  functions into options, for which not returning is \<open>None\<close>.  One recursion has fuel, that of
  \<open>read_sch_helper\<close> over a hierarchy of cells: as much as there are cells below the first one is enough
  (\<open>read_sch_recursive_total\<close>), also when cells place each other.  No other loop is cut off by a bound.
  Writers (\<open>Writers\<close>) append to what has been written so far.

  \<^bold>\<open>Containers and arithmetic.\<close>
  \<^item> \<open>Util_Math\<close>, \<open>Decimal\<close>: \<^verbatim>\<open>util/math.h\<close>, and decimal numerals as they are printed and parsed.
  \<^item> \<open>Sorted_Vector\<close>, \<open>Sorted_Map\<close>: \<^verbatim>\<open>util/sorted_vector.h\<close> and \<^verbatim>\<open>sorted_map.h\<close>; the locales
    \<open>strict_weak_order\<close> and \<open>kv_store\<close> are their contracts.  The maps refine partial functions, and
    \<^verbatim>\<open>replace_key\<close> keeps them sorted.
  \<^item> \<open>Util_Io\<close>: \<^verbatim>\<open>util/io.cpp\<close>, paths and the opening of files.
  \<^item> \<open>Intervals\<close>: \<^verbatim>\<open>util/interval.h\<close>, disjoint intervals as sets of points (locale \<open>disjoint_store\<close>); what
    \<^verbatim>\<open>emplace\<close>, \<^verbatim>\<open>subtract\<close>, \<^verbatim>\<open>get_intersection\<close> and \<^verbatim>\<open>get_complement\<close> do to these sets.
  \<^item> \<open>Unique_Heap\<close>, \<open>Binary_Iterator\<close>: \<^verbatim>\<open>util/unique_heap.h\<close> as a set with its greatest element, and the
    search by doubling and halving of \<^verbatim>\<open>util/binary_iterator.h\<close>, which ends if some number it reaches by
    doubling passes.
  \<^item> \<open>Box\<close>, \<open>Transform\<close>: \<^verbatim>\<open>common/box_t.h\<close>, \<^verbatim>\<open>box_t_util.cpp\<close> and \<^verbatim>\<open>transformation_util.cpp\<close>.

  \<^bold>\<open>Names.\<close>
  \<^item> \<open>Name_Ast\<close>: \<^verbatim>\<open>spirit/ast.h\<close> and \<^verbatim>\<open>ast.cpp\<close>, ranges, units, repetitions and names, with the bits a
    name denotes; the iteration over a range ends and gives its indices.
  \<^item> \<open>Name_Parser\<close>: the grammar of \<^verbatim>\<open>range_def.h\<close>, \<^verbatim>\<open>name_unit_def.h\<close> and \<^verbatim>\<open>name_def.h\<close>; printing and
    parsing are inverse, and what is parsed is well formed.
  \<^item> \<open>Name_Partition\<close>: \<^verbatim>\<open>get_partition\<close> of \<^verbatim>\<open>spirit/util.h\<close> cuts a name into parts of equal size.

  \<^bold>\<open>Schematics and netlists.\<close>
  \<^item> \<open>Params\<close>, \<open>Schematic\<close>: instances, cellviews and their operations (\<^verbatim>\<open>instance.cpp\<close>, \<^verbatim>\<open>cellview.cpp\<close>,
    \<^verbatim>\<open>cellview_inst_mod.h\<close>); renaming and arraying instances keeps connections as wide as instances, and what
    an exception in between leaves behind.
  \<^item> \<open>Sch_Figures\<close>, \<open>Yaml_Node\<close>, \<open>Yaml_Doc\<close>, \<open>Yaml_Sch\<close>, \<open>Yaml_Sch_Props\<close>: shapes, texts and pins, the
    converters of \<^verbatim>\<open>src/cbag/yaml\<close>, and files of schematics.  The locale \<open>yaml_codec\<close> states the contract
    of a converter; it is interpreted for each of those that containers are made of.  A schematic that
    was written is read back, but for the text of evaluated texts.
  \<^item> \<open>Cellview_Info\<close>: \<^verbatim>\<open>cellview_info.cpp\<close>, which nets a cell declares and with which bounds.
  \<^item> \<open>Lstream\<close>, \<open>Netlist_Core\<close>, \<open>Cdl\<close>, \<open>Spectre\<close>, \<open>Verilog\<close>, \<open>Netlist\<close>: lines of tokens, the driver of
    \<^verbatim>\<open>netlist/core.h\<close> over a format (locale \<open>netlist_format\<close>, interpreted for the three formats), the text
    each format writes for a cell, and the order of cells in a netlist.

  \<^bold>\<open>Layouts.\<close>
  \<^item> \<open>Lp_Lookup\<close>, \<open>Via_Info\<close>, \<open>Via_Search\<close>, \<open>Via\<close>, \<open>Tech\<close>, \<open>Tech_File\<close>: layers, rules of vias, the search
    for the via with most cuts (legal when it returns, and when it does not return), minimum lengths and
    spaces, and the reading of technologies and routing grids from files.
  \<^item> \<open>Track\<close>, \<open>Routing_Grid\<close>, \<open>Grid_Props\<close>, \<open>Em_Limits\<close>: half tracks and coordinates, the levels of a
    grid with their block pitches, track identifiers and wire arrays, and the least number of tracks
    that carries a current.  Coordinates and half tracks are inverse as the mode of rounding says, but not
    for whole tracks; wires are within the bounds of their tracks as long as nothing wraps around.
  \<^item> \<open>Lay_Instance\<close>, \<open>Geo_Index\<close>, \<open>Lay_Cellview\<close>, \<open>Lay_Cv_Props\<close>: instances and their arrays, the index
    of shapes with its iterator over a hierarchy, and cellviews.
  \<^item> \<open>Lay_Util\<close>, \<open>Lay_Connect\<close>, \<open>Lay_Connect_Props\<close>, \<open>Path\<close>: \<^verbatim>\<open>cellview_util.cpp\<close>, \<^verbatim>\<open>cellview_poly.cpp\<close>,
    \<^verbatim>\<open>vector45.cpp\<close> and \<^verbatim>\<open>path_util.cpp\<close>, wires, vias at crossings, and paths and buses.

  \<^bold>\<open>GDSII.\<close>
  \<^item> \<open>Held_Writer\<close>: the contract of a writer that holds back its last polygon (locale \<open>held_writer\<close>),
    interpreted for the one of GDSII and the one of OpenAccess: all polygons are written in their order.
  \<^item> \<open>Gds_Math\<close>, \<open>Gds_Write\<close>, \<open>Gds_Read\<close>: numbers and records, \<^verbatim>\<open>math.cpp\<close>, \<^verbatim>\<open>write_util.cpp\<close> and
    \<^verbatim>\<open>read_util.cpp\<close>; the error of the format for numbers is bounded.
  \<^item> \<open>Gds_Records\<close>, \<open>Gds_Roundtrip\<close>: what is read back of single figures, of instances and of arrays of them.
  \<^item> \<open>Gds_Lib\<close>, \<open>Gds_Lib_Props\<close>: map files, cells and libraries, \<^verbatim>\<open>parse_map.cpp\<close>, \<^verbatim>\<open>write.cpp\<close> and
    \<^verbatim>\<open>read.cpp\<close>; a library of cells without instances, pins and labels is read back as it was.
  \<^item> \<open>Gds_Print\<close>: \<^verbatim>\<open>print_record\<close> and the tool \<^verbatim>\<open>util/print_gds.cpp\<close>, whose listing ends for every file.

  \<^bold>\<open>OpenAccess.\<close>  The library itself is proprietary.  An object that is read is the record of what the
  accessors called by the code return; what the code does to a design is the sequence of the calls that
  change it, with their arguments and in their order, also when an exception stops it; what the code asks
  in between is an environment \<open>oa_env\<close> that may depend on the calls so far, and the shapes that the calls
  leave in a design are a parameter \<open>oa_db\<close>.  Data and the names of nets and terminals are passed as C
  strings, which end at a zero byte (\<open>c_str\<close>).
  \<^item> \<open>Oa_Objects\<close>: these records, the exceptions, \<^verbatim>\<open>oa_util.cpp\<close>, and the conversions in both directions.
  \<^item> \<open>Oa_Read\<close>, \<open>Oa_Library\<close>: \<^verbatim>\<open>oa_read.cpp\<close>, \<^verbatim>\<open>oa_read_lib.cpp\<close> and \<^verbatim>\<open>oa_read_lib.h\<close>, the reading of cellviews,
    of hierarchies and of libraries; a hierarchy gives exactly the cells below the first one, each once.
  \<^item> \<open>Oa_Write\<close>, \<open>Oa_Write_Props\<close>: \<^verbatim>\<open>write_sch_cellview\<close> of \<^verbatim>\<open>oa_write.cpp\<close>; nets are created once and before
    they are used, instances get the connections of the schematic, and shapes are read back, but for the
    boxes of arcs.
  \<^item> \<open>Oa_Layout\<close>, \<open>Oa_Layout_Props\<close>: \<^verbatim>\<open>write_lay_cellview\<close>, the writer of polygons in \<^verbatim>\<open>oa_polygon.h\<close>, and the
    lists of cells of \<^verbatim>\<open>oa_write_lib.h\<close>, in which an instance finds the master written before it.
  \<^item> \<open>Oa_Database\<close>: the members of the class in \<^verbatim>\<open>oa_database.cpp\<close>, and the file of a technology.

  \<^bold>\<open>Parameters.\<close>  Code that is not in the repository is an argument of the definitions that call it, and a
  named predicate says what its documentation promises: \<open>xform_ops\<close> with \<open>xform_laws\<close> (the transformations
  of Boost.Polygon), \<open>geo_ops\<close> and \<open>lay_ops\<close> (its polygon sets and the R-tree of Boost.Geometry), \<open>yaml_ops\<close>
  with \<open>yaml_laws\<close> (nodes, parser and emitter of yaml-cpp), the tokenizer and the files of the map files of
  GDSII, the file system (\<open>file_sys\<close>), the clock, OpenAccess (\<open>oa_env\<close> with \<open>net_law\<close>, \<open>oa_db\<close> with
  \<open>shape_law\<close>, \<open>oa_open\<close>, \<open>oa_lib\<close>), and arithmetic on \<^verbatim>\<open>double\<close> where it is rounded
  (\<open>em_ops\<close>, and the scaling of coordinates and numbers).  Every predicate has an instance for which it is
  proved.  The converters of yaml-cpp for standard vectors and pairs are written out over its interface.
  Unordered maps are iterated in the order of insertion.

  \<^bold>\<open>Not modelled.\<close>  The functions of \<^verbatim>\<open>oa_read.cpp\<close> that print objects to the log, and exceptions that calls which
  change a design throw; messages to the logger and the logging set-up; the Boost.Spirit adapters that instantiate the grammar, and the traits that adapt boxes
  and polygons to Boost; the other command line tools, which call the library.  The contents of polygon sets
  are Boost's; the model records which operation is applied to which layer.
\<close>

end
